(* ===== verification/Prelude.thy ===== *)
theory Prelude
  imports Complex_Main "HOL-Library.Char_ord" "HOL-Library.List_Lexorder" "HOL-Library.Product_Lexorder"
begin

text \<open>
  Shared vocabulary of the development: the scalar types the services compute with, JavaScript
  rounding, fallible computations as a sum, and database tables as lists of rows with the Prisma
  operations the code uses on them (\<open>findFirst\<close>, \<open>findMany\<close>, \<open>updateMany\<close>, \<open>deleteMany\<close>, sums).
\<close>

named_theorems rounding \<open>facts about Math.round and two-decimal money\<close>
named_theorems table \<open>facts about the table operations\<close>
named_theorems result \<open>facts about chained fallible computations\<close>

section \<open>Scalars\<close>

text \<open>
  Identifiers are opaque (the code compares UUIDs for equality only). An instant is its
  \<open>getTime()\<close> value. JavaScript numbers are exact rationals here: the binary rounding of IEEE
  doubles is not modelled, the explicit roundings of the source are.
\<close>

type_synonym uid = nat
type_synonym ms = int
type_synonym num = rat

definition day_ms :: ms where
  "day_ms = 86400000"

definition hour_ms :: ms where
  "hour_ms = 3600000"

definition minute_ms :: ms where
  "minute_ms = 60000"

lemmas ms_units = day_ms_def hour_ms_def minute_ms_def

section \<open>Rounding\<close>

text \<open>\<open>Math.round\<close> rounds half up, also for negative arguments.\<close>

definition js_round :: "num \<Rightarrow> int" where
  "js_round x = \<lfloor>x + 1 / 2\<rfloor>"

text \<open>\<open>Math.round(x * 100) / 100\<close>.\<close>

definition cents :: "num \<Rightarrow> num" where
  "cents x = of_int (js_round (x * 100)) / 100"

text \<open>An amount with at most two decimals, as a \<open>Decimal(10,2)\<close> column holds.\<close>

definition two_dp :: "num \<Rightarrow> bool" where
  "two_dp x \<longleftrightarrow> (\<exists>n. x = of_int n / 100)"

lemma js_round_of_int [simp, rounding]: "js_round (of_int n) = n"
  by (simp add: js_round_def floor_add_int floor_eq_iff)

lemma js_round_mono [rounding]: "x \<le> y \<Longrightarrow> js_round x \<le> js_round y"
  by (simp add: js_round_def floor_mono)

lemma js_round_0 [simp, rounding]: "js_round 0 = 0"
  using js_round_of_int [of 0] by simp

lemma js_round_nonneg [rounding]: "0 \<le> x \<Longrightarrow> 0 \<le> js_round x"
  using js_round_mono [of 0 x] by simp

lemma js_round_bounds [rounding]: "of_int (js_round x) \<le> x + 1 / 2" "x - 1 / 2 < of_int (js_round x)"
  by (auto simp: js_round_def of_int_floor_le) linarith

lemma js_round_le_of_int [rounding]: "x \<le> of_int n \<Longrightarrow> js_round x \<le> n"
  using js_round_mono [of x "of_int n"] by simp

lemma cents_two_dp [intro, rounding]: "two_dp (cents x)"
  by (auto simp: cents_def two_dp_def)

lemma cents_id [rounding]: "two_dp x \<Longrightarrow> cents x = x"
  by (auto simp: cents_def two_dp_def)

lemma cents_mono [rounding]: "x \<le> y \<Longrightarrow> cents x \<le> cents y"
  by (simp add: cents_def divide_right_mono js_round_mono)

lemma cents_0 [simp, rounding]: "cents 0 = 0"
  by (simp add: cents_def)

lemma cents_nonneg [rounding]: "0 \<le> x \<Longrightarrow> 0 \<le> cents x"
  using cents_mono [of 0 x] by simp

lemma cents_le [rounding]: "x \<le> y \<Longrightarrow> two_dp y \<Longrightarrow> cents x \<le> y"
  using cents_mono [of x y] by (simp add: cents_id)

lemma cents_error [rounding]: "\<bar>cents x - x\<bar> \<le> 1 / 200"
proof -
  have "of_int (js_round (x * 100)) \<le> x * 100 + 1 / 2" "x * 100 - 1 / 2 < of_int (js_round (x * 100))"
    by (rule js_round_bounds)+
  then have "\<bar>of_int (js_round (x * 100)) - x * 100\<bar> \<le> 1 / 2"
    by linarith
  then show ?thesis by (simp add: cents_def abs_le_iff field_simps)
qed

lemma two_dp_of_int [simp, rounding]: "two_dp (of_int n)"
  by (auto simp: two_dp_def intro!: exI [of _ "n * 100"])

lemma two_dp_0 [simp, rounding]: "two_dp 0"
  using two_dp_of_int [of 0] by simp

lemma two_dp_div100 [simp, rounding]: "two_dp (of_int n / 100)"
  by (auto simp: two_dp_def)

lemma two_dp_add [intro, rounding]: "two_dp x \<Longrightarrow> two_dp y \<Longrightarrow> two_dp (x + y)"
  by (auto simp: two_dp_def simp flip: add_divide_distrib of_int_add)

lemma two_dp_diff [intro, rounding]: "two_dp x \<Longrightarrow> two_dp y \<Longrightarrow> two_dp (x - y)"
  by (auto simp: two_dp_def simp flip: diff_divide_distrib of_int_diff)

lemma two_dp_uminus [intro, rounding]: "two_dp x \<Longrightarrow> two_dp (- x)"
  by (auto simp: two_dp_def) (metis minus_divide_left of_int_minus)

lemma two_dp_min [intro, rounding]: "two_dp x \<Longrightarrow> two_dp y \<Longrightarrow> two_dp (min x y)"
  by (simp add: min_def)

lemma two_dp_max [intro, rounding]: "two_dp x \<Longrightarrow> two_dp y \<Longrightarrow> two_dp (max x y)"
  by (simp add: max_def)

section \<open>Strings\<close>

text \<open>
  Strings are sequences of UTF-8 bytes. \<open>s.slice(0, n)\<close> of JavaScript counts UTF-16 units: a code point
  of four bytes is a pair of them, any other is one, and its continuation bytes count nothing. Half a
  pair left at the end becomes U+FFFD when it is written as UTF-8.
\<close>

fun utf16_take :: "nat \<Rightarrow> string \<Rightarrow> string" where
  "utf16_take n [] = []"
| "utf16_take n (c # s) =
     (let b = of_char c :: nat in
      if 128 \<le> b \<and> b < 192 then c # utf16_take n s
      else if n = 0 then []
      else if b < 240 then c # utf16_take (n - 1) s
      else if n = 1 then [CHR 0xEF, CHR 0xBF, CHR 0xBD]
      else c # utf16_take (n - 2) s)"

lemma utf16_take_ascii: "list_all (\<lambda>c. of_char c < (128 :: nat)) s \<Longrightarrow> utf16_take n s = take n s"
  by (induction n s rule: utf16_take.induct) (auto simp: Let_def take_Cons')

section \<open>Fallible computations\<close>

text \<open>
  A function of the source that may throw returns \<open>'e + 'a\<close>: \<open>Inl\<close> is the exception, \<open>Inr\<close> the
  value. \<open>and_then\<close> is sequencing: the rest runs only when nothing was thrown.
\<close>

fun and_then :: "'e + 'a \<Rightarrow> ('a \<Rightarrow> 'e + 'b) \<Rightarrow> 'e + 'b" where
  "and_then (Inl e) f = Inl e"
| "and_then (Inr a) f = f a"

text \<open>\<open>throw_if b e k\<close>: \<open>if (b) throw e;\<close> followed by \<open>k\<close>.\<close>

definition throw_if :: "bool \<Rightarrow> 'e \<Rightarrow> 'e + 'a \<Rightarrow> 'e + 'a" where
  "throw_if b e k = (if b then Inl e else k)"

lemma and_then_Inr [result]: "and_then m f = Inr y \<longleftrightarrow> (\<exists>x. m = Inr x \<and> f x = Inr y)"
  by (cases m) auto

lemma and_then_Inl [result]: "and_then m f = Inl e \<longleftrightarrow> m = Inl e \<or> (\<exists>x. m = Inr x \<and> f x = Inl e)"
  by (cases m) auto

lemma and_then_assoc [result]: "and_then (and_then m f) g = and_then m (\<lambda>x. and_then (f x) g)"
  by (cases m) auto

lemma throw_if_Inr [simp, result]: "throw_if b e k = Inr y \<longleftrightarrow> \<not> b \<and> k = Inr y"
  by (simp add: throw_if_def)

lemma throw_if_simps [simp, result]: "throw_if True e k = Inl e" "throw_if False e k = k"
  by (simp_all add: throw_if_def)

fun isInr :: "'e + 'a \<Rightarrow> bool" where
  "isInr (Inl e) = False"
| "isInr (Inr a) = True"

lemma isInr_iff: "isInr m \<longleftrightarrow> (\<exists>a. m = Inr a)"
  by (cases m) auto

section \<open>Tables\<close>

text \<open>
  A table is the list of its rows. \<open>updateMany\<close> rewrites the rows that satisfy the \<open>where\<close>
  clause and reports how many there were; \<open>deleteMany\<close> drops them.
\<close>

definition find_first :: "('r \<Rightarrow> bool) \<Rightarrow> 'r list \<Rightarrow> 'r option" where
  "find_first p t = List.find p t"

definition find_many :: "('r \<Rightarrow> bool) \<Rightarrow> 'r list \<Rightarrow> 'r list" where
  "find_many p t = filter p t"

definition count_rows :: "('r \<Rightarrow> bool) \<Rightarrow> 'r list \<Rightarrow> nat" where
  "count_rows p t = length (filter p t)"

definition update_many :: "('r \<Rightarrow> bool) \<Rightarrow> ('r \<Rightarrow> 'r) \<Rightarrow> 'r list \<Rightarrow> 'r list" where
  "update_many p f t = map (\<lambda>r. if p r then f r else r) t"

definition delete_many :: "('r \<Rightarrow> bool) \<Rightarrow> 'r list \<Rightarrow> 'r list" where
  "delete_many p t = filter (\<lambda>r. \<not> p r) t"

definition sum_rows :: "('r \<Rightarrow> 'n::monoid_add) \<Rightarrow> ('r \<Rightarrow> bool) \<Rightarrow> 'r list \<Rightarrow> 'n" where
  "sum_rows f p t = sum_list (map f (filter p t))"

text \<open>The primary key of a table is unique.\<close>

definition unique_on :: "('r \<Rightarrow> 'k) \<Rightarrow> 'r list \<Rightarrow> bool" where
  "unique_on k t \<longleftrightarrow> distinct (map k t)"

lemma find_first_Some [table]: "find_first p t = Some r \<Longrightarrow> r \<in> set t \<and> p r"
  by (auto simp: find_first_def find_Some_iff)

lemma find_first_None [table]: "find_first p t = None \<longleftrightarrow> (\<forall>r \<in> set t. \<not> p r)"
  by (auto simp: find_first_def find_None_iff)

lemma find_first_simps [simp]:
  "find_first p [] = None"
  "find_first p (r # t) = (if p r then Some r else find_first p t)"
  by (simp_all add: find_first_def)

lemma count_rows_0 [table]: "count_rows p t = 0 \<longleftrightarrow> (\<forall>r \<in> set t. \<not> p r)"
  by (auto simp: count_rows_def filter_empty_conv)

lemma count_rows_pos [table]: "0 < count_rows p t \<longleftrightarrow> (\<exists>r \<in> set t. p r)"
  using count_rows_0 [of p t] by auto

lemma update_many_length [simp, table]: "length (update_many p f t) = length t"
  by (simp add: update_many_def)

lemma update_many_simps [simp]:
  "update_many p f [] = []"
  "update_many p f (r # t) = (if p r then f r else r) # update_many p f t"
  by (simp_all add: update_many_def)

lemma update_many_none [table]: "(\<And>r. r \<in> set t \<Longrightarrow> \<not> p r) \<Longrightarrow> update_many p f t = t"
  by (auto simp: update_many_def intro: map_idI)

lemma update_many_set [table]: "set (update_many p f t) = f ` {r \<in> set t. p r} \<union> {r \<in> set t. \<not> p r}"
  by (auto simp: update_many_def)

lemma update_many_mem [table]:
  "r \<in> set (update_many p f t) \<longleftrightarrow> (\<exists>r' \<in> set t. r = (if p r' then f r' else r'))"
  by (auto simp: update_many_def)

lemma update_many_map [table]:
  "(\<And>r. p r \<Longrightarrow> k (f r) = k r) \<Longrightarrow> map k (update_many p f t) = map k t"
  by (auto simp: update_many_def)

lemma update_many_unique [table]:
  "(\<And>r. p r \<Longrightarrow> k (f r) = k r) \<Longrightarrow> unique_on k (update_many p f t) \<longleftrightarrow> unique_on k t"
  by (simp add: unique_on_def update_many_map)

lemma delete_many_mem [table]: "r \<in> set (delete_many p t) \<longleftrightarrow> r \<in> set t \<and> \<not> p r"
  by (auto simp: delete_many_def)

lemma delete_many_unique [table]: "unique_on k t \<Longrightarrow> unique_on k (delete_many p t)"
  by (simp add: unique_on_def delete_many_def distinct_map_filter)

lemma unique_onD [table]: "unique_on k t \<Longrightarrow> r \<in> set t \<Longrightarrow> r' \<in> set t \<Longrightarrow> k r = k r' \<Longrightarrow> r = r'"
  by (auto simp: unique_on_def distinct_map dest: inj_onD)

lemma unique_on_append [table]:
  "unique_on k (t @ [r]) \<longleftrightarrow> unique_on k t \<and> k r \<notin> k ` set t"
  by (auto simp: unique_on_def)

lemma find_first_key [table]:
  assumes "unique_on k t" and "r \<in> set t"
  shows "find_first (\<lambda>r'. k r' = k r) t = Some r"
  using assms
proof (induction t)
  case (Cons a t)
  then show ?case by (force simp: unique_on_def)
qed simp

lemma sum_rows_simps [simp]:
  "sum_rows f p [] = 0"
  "sum_rows f p (r # t) = (if p r then f r + sum_rows f p t else sum_rows f p t)"
  by (simp_all add: sum_rows_def)

lemma sum_rows_append [simp, table]: "sum_rows f p (t @ u) = sum_rows f p t + sum_rows f p u"
  by (simp add: sum_rows_def)

lemma sum_rows_nonneg [table]:
  fixes f :: "'r \<Rightarrow> 'n::ordered_comm_monoid_add"
  shows "(\<And>r. r \<in> set t \<Longrightarrow> 0 \<le> f r) \<Longrightarrow> 0 \<le> sum_rows f p t"
  by (auto simp: sum_rows_def intro!: sum_list_nonneg)

end
