(* ===== verification/JsDate.thy ===== *)
theory JsDate
  imports Prelude
begin

text \<open>
  The part of JavaScript's \<open>Date\<close> and \<open>Intl\<close> the services use: the proleptic Gregorian calendar
  of ECMA-262 (\<open>DayFromYear\<close>, \<open>MakeDay\<close>, \<open>YearFromTime\<close>), calendar dates and wall-clock times as
  the code passes them around (\<open>YYYY-MM-DD\<close>, \<open>HH:MM\<close>), and the date helpers of
  \<open>bookings.service.ts\<close> and \<open>timezone.ts\<close>. A date string that passed the DTO's regular expression
  is a \<open>civil\<close>, a time string an \<open>hm\<close>; the order of the strings is the order of these types
  (\<open>iso_string_less_iff\<close>, \<open>hm_string_less_iff\<close>). The IANA time-zone database is a parameter.
\<close>

named_theorems calendar \<open>calendar arithmetic\<close>

section \<open>Calendar dates and times of day\<close>

datatype civil = Civil (cy: int) (cm: int) (cd: int)

datatype hm = HM (hh: int) (mi: int)

instantiation civil :: linorder
begin

definition less_eq_civil :: "civil \<Rightarrow> civil \<Rightarrow> bool" where
  "less_eq_civil a b \<longleftrightarrow> (cy a, cm a, cd a) \<le> (cy b, cm b, cd b)"

definition less_civil :: "civil \<Rightarrow> civil \<Rightarrow> bool" where
  "less_civil a b \<longleftrightarrow> (cy a, cm a, cd a) < (cy b, cm b, cd b)"

instance
  by standard (auto simp: less_eq_civil_def less_civil_def civil.expand)

end

instantiation hm :: linorder
begin

definition less_eq_hm :: "hm \<Rightarrow> hm \<Rightarrow> bool" where
  "less_eq_hm a b \<longleftrightarrow> (hh a, mi a) \<le> (hh b, mi b)"

definition less_hm :: "hm \<Rightarrow> hm \<Rightarrow> bool" where
  "less_hm a b \<longleftrightarrow> (hh a, mi a) < (hh b, mi b)"

instance
  by standard (auto simp: less_eq_hm_def less_hm_def hm.expand)

end

lemma civil_less [simp]:
  "Civil y m d < Civil y' m' d' \<longleftrightarrow> y < y' \<or> y = y' \<and> (m < m' \<or> m = m' \<and> d < d')"
  by (auto simp: less_civil_def)

lemma civil_le [simp]:
  "Civil y m d \<le> Civil y' m' d' \<longleftrightarrow> y < y' \<or> y = y' \<and> (m < m' \<or> m = m' \<and> d \<le> d')"
  by (auto simp: less_eq_civil_def)

lemma hm_less [simp]: "HM h m < HM h' m' \<longleftrightarrow> h < h' \<or> h = h' \<and> m < m'"
  by (auto simp: less_hm_def)

lemma hm_le [simp]: "HM h m \<le> HM h' m' \<longleftrightarrow> h < h' \<or> h = h' \<and> m \<le> m'"
  by (auto simp: less_eq_hm_def)

section \<open>The Gregorian calendar of ECMA-262\<close>

definition leap :: "int \<Rightarrow> bool" where
  "leap y \<longleftrightarrow> y mod 4 = 0 \<and> y mod 100 \<noteq> 0 \<or> y mod 400 = 0"

definition day_from_year :: "int \<Rightarrow> int" where
  "day_from_year y = 365 * (y - 1970) + (y - 1969) div 4 - (y - 1901) div 100 + (y - 1601) div 400"

text \<open>Days of the year before month \<open>m\<close> (January is 0), without the leap day.\<close>

definition month_start :: "int \<Rightarrow> int" where
  "month_start m =
     (if m = 0 then 0 else if m = 1 then 31 else if m = 2 then 59 else if m = 3 then 90
      else if m = 4 then 120 else if m = 5 then 151 else if m = 6 then 181 else if m = 7 then 212
      else if m = 8 then 243 else if m = 9 then 273 else if m = 10 then 304 else 334)"

definition month_offset :: "int \<Rightarrow> int \<Rightarrow> int" where
  "month_offset y m = month_start m + (if 2 \<le> m \<and> leap y then 1 else 0)"

definition days_in_month :: "int \<Rightarrow> int \<Rightarrow> int" where
  "days_in_month y m =
     (if m = 2 then (if leap y then 29 else 28)
      else if m = 4 \<or> m = 6 \<or> m = 9 \<or> m = 11 then 30 else 31)"

text \<open>\<open>MakeDay\<close>: the month is 0-based and, like the day, may be out of range.\<close>

definition make_day :: "int \<Rightarrow> int \<Rightarrow> int \<Rightarrow> int" where
  "make_day y m d =
     (let y' = y + m div 12 in day_from_year y' + month_offset y' (m mod 12) + (d - 1))"

text \<open>\<open>Date.UTC\<close>: two-digit years mean 19xx.\<close>

definition utc_day :: "int \<Rightarrow> int \<Rightarrow> int \<Rightarrow> int" where
  "utc_day y m d = make_day (if 0 \<le> y \<and> y \<le> 99 then 1900 + y else y) m d"

definition year_of_day :: "int \<Rightarrow> int" where
  "year_of_day n =
     (let y = 1970 + n * 400 div 146097
      in if n < day_from_year y then y - 1
         else if day_from_year (y + 1) \<le> n then y + 1 else y)"

definition month_of_day :: "int \<Rightarrow> int \<Rightarrow> int" where
  "month_of_day y r =
     (let k = (if leap y then 1 else 0)
      in if r < 31 then 0 else if r < 59 + k then 1 else if r < 90 + k then 2
         else if r < 120 + k then 3 else if r < 151 + k then 4 else if r < 181 + k then 5
         else if r < 212 + k then 6 else if r < 243 + k then 7 else if r < 273 + k then 8
         else if r < 304 + k then 9 else if r < 334 + k then 10 else 11)"

text \<open>The UTC fields of a day number.\<close>

definition civil_of_day :: "int \<Rightarrow> civil" where
  "civil_of_day n =
     (let y = year_of_day n; r = n - day_from_year y; m = month_of_day y r
      in Civil y (m + 1) (r - month_offset y m + 1))"

definition day_of_civil :: "civil \<Rightarrow> int" where
  "day_of_civil c = make_day (cy c) (cm c - 1) (cd c)"

definition valid_civil :: "civil \<Rightarrow> bool" where
  "valid_civil c \<longleftrightarrow> 1 \<le> cm c \<and> cm c \<le> 12 \<and> 1 \<le> cd c \<and> cd c \<le> days_in_month (cy c) (cm c)"

subsection \<open>Years\<close>

lemma div_succ_step:
  fixes x c :: int
  assumes "0 < c"
  shows "(x + 1) div c = x div c + (if (x + 1) mod c = 0 then 1 else 0)"
proof -
  define q r where "q = x div c" and "r = x mod c"
  have r: "0 \<le> r" "r < c" and x: "x + 1 = (r + 1) + q * c"
    using assms by (simp_all add: q_def r_def)
  have "(x + 1) div c = q + (r + 1) div c" "(x + 1) mod c = (r + 1) mod c"
    using assms unfolding x by simp_all
  moreover have "(r + 1) div c = (if r + 1 = c then 1 else 0)" "(r + 1) mod c = (if r + 1 = c then 0 else r + 1)"
    using r by auto
  ultimately show ?thesis using r by (auto simp flip: q_def)
qed

lemma div_bounds:
  fixes x c :: int
  assumes "0 < c"
  shows "c * (x div c) \<le> x" "x - (c - 1) \<le> c * (x div c)"
proof -
  have "x = c * (x div c) + x mod c" "0 \<le> x mod c" "x mod c < c" using assms by simp_all
  then show "c * (x div c) \<le> x" "x - (c - 1) \<le> c * (x div c)" by linarith+
qed

lemma div_shift:
  fixes y c k :: int
  assumes "0 < c"
  shows "(y - c * k) div c = (y - c * k - 1) div c + (if y mod c = 0 then 1 else 0)"
proof -
  have "(y - c * k) mod c = y mod c"
    by (metis mod_diff_right_eq mod_mult_self1_is_0 diff_zero)
  then show ?thesis
    using div_succ_step [OF assms, of "y - c * k - 1"] by simp
qed

lemma day_from_year_succ [calendar]:
  "day_from_year (y + 1) = day_from_year y + (if leap y then 366 else 365)"
proof -
  have s4: "(y - 1968) div 4 = (y - 1969) div 4 + (if y mod 4 = 0 then 1 else 0)"
    using div_shift [of 4 y 492] by (simp del: One_nat_def)
  have s100: "(y - 1900) div 100 = (y - 1901) div 100 + (if y mod 100 = 0 then 1 else 0)"
    using div_shift [of 100 y 19] by (simp del: One_nat_def)
  have s400: "(y - 1600) div 400 = (y - 1601) div 400 + (if y mod 400 = 0 then 1 else 0)"
    using div_shift [of 400 y 4] by (simp del: One_nat_def)
  have d: "y mod 400 = 0 \<Longrightarrow> y mod 100 = 0" "y mod 100 = 0 \<Longrightarrow> y mod 4 = 0"
    using mod_mod_cancel [of 100 400 y] mod_mod_cancel [of 4 100 y] by simp_all
  have l: "(if leap y then 366 else 365) = (365::int) + (if y mod 4 = 0 then 1 else 0) - (if y mod 100 = 0 then 1 else 0)
      + (if y mod 400 = 0 then 1 else 0)"
    using d by (auto simp: leap_def)
  have "day_from_year (y + 1) = 365 * (y - 1970) + 365 + (y - 1968) div 4 - (y - 1900) div 100
      + (y - 1600) div 400"
    by (simp add: day_from_year_def)
  then show ?thesis unfolding s4 s100 s400 l by (simp only: day_from_year_def)
qed

lemma day_from_year_add:
  "day_from_year y + 365 * int k \<le> day_from_year (y + int k)"
proof (induction k)
  case (Suc k)
  then show ?case
    using day_from_year_succ [of "y + int k"] by (auto simp: algebra_simps split: if_splits)
qed simp

lemma day_from_year_mono [calendar]: "y < y' \<Longrightarrow> day_from_year (y + 1) \<le> day_from_year y'"
  using day_from_year_add [of "y + 1" "nat (y' - y - 1)"] by simp

lemma day_from_year_lower: "146097 * (y - 1970) - 506 \<le> 400 * day_from_year y"
  using div_bounds [of 4 "y - 1969"] div_bounds [of 100 "y - 1901"] div_bounds [of 400 "y - 1601"]
  by (simp add: day_from_year_def)

lemma day_from_year_upper: "400 * day_from_year y \<le> 146097 * (y - 1970) + 589"
  using div_bounds [of 4 "y - 1969"] div_bounds [of 100 "y - 1901"] div_bounds [of 400 "y - 1601"]
  by (simp add: day_from_year_def)

lemma year_of_day_bounds [calendar]:
  "day_from_year (year_of_day n) \<le> n" "n < day_from_year (year_of_day n + 1)"
proof -
  define z where "z = n * 400 div 146097"
  have z: "146097 * z \<le> n * 400" "n * 400 < 146097 * (z + 1)"
    using div_bounds [of 146097 "n * 400"] by (simp_all add: z_def)
  have lo: "day_from_year (1970 + z - 1) \<le> n"
    using day_from_year_upper [of "1970 + z - 1"] z by simp
  have hi: "n < day_from_year (1970 + z + 1 + 1)"
    using day_from_year_lower [of "1970 + z + 1 + 1"] z by simp
  have y: "year_of_day n = (if n < day_from_year (1970 + z) then 1970 + z - 1
      else if day_from_year (1970 + z + 1) \<le> n then 1970 + z + 1 else 1970 + z)"
    by (simp add: year_of_day_def Let_def z_def)
  show "day_from_year (year_of_day n) \<le> n" "n < day_from_year (year_of_day n + 1)"
    using lo hi by (simp_all add: y)
qed

lemma year_of_day_unique [calendar]:
  assumes "day_from_year y \<le> n" and "n < day_from_year (y + 1)"
  shows "year_of_day n = y"
proof (rule ccontr)
  assume "year_of_day n \<noteq> y"
  then consider "year_of_day n < y" | "y < year_of_day n" by linarith
  then show False
    using day_from_year_mono year_of_day_bounds [of n] assms by cases fastforce+
qed

subsection \<open>Months and days\<close>

lemma month_cases:
  fixes m :: int
  assumes "0 \<le> m" "m \<le> 11"
  obtains "m = 0" | "m = 1" | "m = 2" | "m = 3" | "m = 4" | "m = 5" | "m = 6" | "m = 7" | "m = 8"
    | "m = 9" | "m = 10" | "m = 11"
proof -
  have "m = 0 \<or> m = 1 \<or> m = 2 \<or> m = 3 \<or> m = 4 \<or> m = 5 \<or> m = 6 \<or> m = 7 \<or> m = 8 \<or> m = 9
    \<or> m = 10 \<or> m = 11"
    using assms by presburger
  then show ?thesis using that by blast
qed

lemma month_of_day_spec:
  assumes "0 \<le> r" and "r < (if leap y then 366 else 365)"
  shows "0 \<le> month_of_day y r \<and> month_of_day y r \<le> 11 \<and> month_offset y (month_of_day y r) \<le> r
    \<and> r < month_offset y (month_of_day y r) + days_in_month y (month_of_day y r + 1)"
  using assms
  by (cases "leap y") (simp_all add: month_of_day_def Let_def month_offset_def month_start_def days_in_month_def)

lemma month_of_day_unique:
  assumes "0 \<le> m" "m \<le> 11" "month_offset y m \<le> r" "r < month_offset y m + days_in_month y (m + 1)"
  shows "month_of_day y r = m"
  using assms(1,2)
  by (cases rule: month_cases)
    (use assms(3,4) in \<open>auto simp: month_of_day_def Let_def month_offset_def month_start_def
      days_in_month_def split: if_splits\<close>)

lemma month_fits:
  assumes "0 \<le> m" "m \<le> 11"
  shows "0 \<le> month_offset y m \<and> month_offset y m + days_in_month y (m + 1) \<le> (if leap y then 366 else 365)"
  using assms
  by (cases rule: month_cases) (auto simp: month_offset_def month_start_def days_in_month_def)

lemma make_day_in_range:
  "0 \<le> m \<Longrightarrow> m \<le> 11 \<Longrightarrow> make_day y m d = day_from_year y + month_offset y m + (d - 1)"
  by (simp add: make_day_def)

lemma days_in_month_pos [calendar]: "28 \<le> days_in_month y m" "days_in_month y m \<le> 31"
  by (simp_all add: days_in_month_def)

text \<open>Day numbers and valid calendar dates are in bijection.\<close>

lemma civil_of_day_of_civil [calendar]:
  assumes "valid_civil c"
  shows "civil_of_day (day_of_civil c) = c"
proof -
  obtain y m d where c: "c = Civil y m d" by (cases c)
  have m: "0 \<le> m - 1" "m - 1 \<le> 11" and d: "1 \<le> d" "d \<le> days_in_month y (m - 1 + 1)"
    using assms by (auto simp: c valid_civil_def)
  have n: "day_of_civil c = day_from_year y + (month_offset y (m - 1) + (d - 1))"
    using m by (simp add: day_of_civil_def c make_day_in_range)
  have fits: "0 \<le> month_offset y (m - 1)"
    "month_offset y (m - 1) + days_in_month y (m - 1 + 1) \<le> (if leap y then 366 else 365)"
    using month_fits [OF m] by blast+
  have y: "year_of_day (day_of_civil c) = y"
    using n fits d day_from_year_succ [of y] by (intro year_of_day_unique) linarith+
  have "month_of_day y (month_offset y (m - 1) + (d - 1)) = m - 1"
    using d by (intro month_of_day_unique m) auto
  then show ?thesis
    using y by (simp add: civil_of_day_def Let_def n) (simp add: c)
qed

lemma civil_of_day_valid [calendar]: "valid_civil (civil_of_day n)"
  and day_of_civil_of_day [calendar]: "day_of_civil (civil_of_day n) = n"
proof -
  define y where "y = year_of_day n"
  define r where "r = n - day_from_year y"
  have r: "0 \<le> r" "r < (if leap y then 366 else 365)"
    using year_of_day_bounds [of n] day_from_year_succ [of y] by (auto simp: r_def y_def)
  note m = month_of_day_spec [OF r]
  then show "valid_civil (civil_of_day n)"
    by (auto simp: valid_civil_def civil_of_day_def Let_def simp flip: y_def r_def)
  show "day_of_civil (civil_of_day n) = n"
    using m by (simp add: day_of_civil_def civil_of_day_def Let_def make_day_in_range flip: y_def r_def)
      (simp add: r_def)
qed

text \<open>The lexicographic order of valid dates is their chronological order.\<close>

lemma month_offset_mono:
  assumes "0 \<le> m" "m < m'" "m' \<le> 11"
  shows "month_offset y m + days_in_month y (m + 1) \<le> month_offset y m'"
proof -
  have "0 \<le> m" "m \<le> 11" using assms by linarith+
  then show ?thesis
    by (cases rule: month_cases)
      (use assms in \<open>auto simp: month_offset_def month_start_def days_in_month_def\<close>)
qed

lemma day_of_civil_less [calendar]:
  assumes "valid_civil a" "valid_civil b" "a < b"
  shows "day_of_civil a < day_of_civil b"
proof -
  obtain y m d where a: "a = Civil y m d" by (cases a)
  obtain y' m' d' where b: "b = Civil y' m' d'" by (cases b)
  have va: "0 \<le> m - 1" "m - 1 \<le> 11" "1 \<le> d" "d \<le> days_in_month y (m - 1 + 1)"
    and vb: "0 \<le> m' - 1" "m' - 1 \<le> 11" "1 \<le> d'"
    using assms by (auto simp: a b valid_civil_def)
  have na: "day_of_civil a = day_from_year y + month_offset y (m - 1) + (d - 1)"
    and nb: "day_of_civil b = day_from_year y' + month_offset y' (m' - 1) + (d' - 1)"
    using va vb by (simp_all add: a b day_of_civil_def make_day_in_range)
  note fa = month_fits [OF va(1,2), of y] and fb = month_fits [OF vb(1,2), of y']
  consider "y < y'" | "y = y'" "m < m'" | "y = y'" "m = m'" "d < d'"
    using assms(3) by (auto simp: a b)
  then show ?thesis
  proof cases
    case 1
    then show ?thesis
      using day_from_year_mono [of y y'] day_from_year_succ [of y] na nb fa fb va vb by linarith
  next
    case 2
    then show ?thesis
      using month_offset_mono [of "m - 1" "m' - 1" y] na nb va vb by auto
  next
    case 3
    then show ?thesis using na nb by simp
  qed
qed

lemma day_of_civil_less_iff [calendar]:
  "valid_civil a \<Longrightarrow> valid_civil b \<Longrightarrow> day_of_civil a < day_of_civil b \<longleftrightarrow> a < b"
  using day_of_civil_less [of a b] day_of_civil_less [of b a] by (cases a b rule: linorder_cases) auto

lemma day_of_civil_le_iff [calendar]:
  "valid_civil a \<Longrightarrow> valid_civil b \<Longrightarrow> day_of_civil a \<le> day_of_civil b \<longleftrightarrow> a \<le> b"
  by (simp add: day_of_civil_less_iff flip: not_less)


section \<open>Strings\<close>

text \<open>\<open>Number\<close> on the strings the code feeds it: decimal digits; anything else is \<open>NaN\<close>.\<close>

definition digit_char :: "int \<Rightarrow> char" where
  "digit_char n = char_of (48 + nat n)"

definition char_digit :: "char \<Rightarrow> int option" where
  "char_digit c = (let k = int (of_char c) - 48 in if 0 \<le> k \<and> k \<le> 9 then Some k else None)"

fun js_digits :: "int \<Rightarrow> string \<Rightarrow> int option" where
  "js_digits acc [] = Some acc"
| "js_digits acc (c # cs) =
     (case char_digit c of None \<Rightarrow> None | Some k \<Rightarrow> js_digits (acc * 10 + k) cs)"

definition js_number :: "string \<Rightarrow> int option" where
  "js_number s = js_digits 0 s"

text \<open>\<open>s.split(c)\<close> for a one-character separator.\<close>

fun split_on :: "char \<Rightarrow> string \<Rightarrow> string list" where
  "split_on c [] = [[]]"
| "split_on c (x # xs) =
     (if x = c then [] # split_on c xs
      else (case split_on c xs of w # ws \<Rightarrow> (x # w) # ws | [] \<Rightarrow> [[x]]))"

text \<open>\<open>String(n).padStart(2, '0')\<close> and its four-digit analogue in \<open>toISOString\<close>.\<close>

definition pad2 :: "int \<Rightarrow> string" where
  "pad2 n = [digit_char (n div 10), digit_char (n mod 10)]"

definition pad4 :: "int \<Rightarrow> string" where
  "pad4 n = pad2 (n div 100) @ pad2 (n mod 100)"

definition iso_string :: "civil \<Rightarrow> string" where
  "iso_string c = pad4 (cy c) @ CHR ''-'' # pad2 (cm c) @ CHR ''-'' # pad2 (cd c)"

definition hm_string :: "hm \<Rightarrow> string" where
  "hm_string t = pad2 (hh t) @ CHR '':'' # pad2 (mi t)"

definition iso_range :: "civil \<Rightarrow> bool" where
  "iso_range c \<longleftrightarrow> 0 \<le> cy c \<and> cy c \<le> 9999 \<and> 0 \<le> cm c \<and> cm c \<le> 99 \<and> 0 \<le> cd c \<and> cd c \<le> 99"

definition hm_range :: "hm \<Rightarrow> bool" where
  "hm_range t \<longleftrightarrow> 0 \<le> hh t \<and> hh t \<le> 99 \<and> 0 \<le> mi t \<and> mi t \<le> 99"

lemma of_digit_char: "0 \<le> n \<Longrightarrow> n \<le> 9 \<Longrightarrow> of_char (digit_char n) = 48 + nat n"
  by (simp add: digit_char_def of_char_of)

lemma digit_char_less: "0 \<le> n \<Longrightarrow> n \<le> 9 \<Longrightarrow> 0 \<le> m \<Longrightarrow> m \<le> 9 \<Longrightarrow> digit_char n < digit_char m \<longleftrightarrow> n < m"
  by (auto simp: less_char_def of_digit_char)

lemma digit_char_eq: "0 \<le> n \<Longrightarrow> n \<le> 9 \<Longrightarrow> 0 \<le> m \<Longrightarrow> m \<le> 9 \<Longrightarrow> digit_char n = digit_char m \<longleftrightarrow> n = m"
  using digit_char_less [of n m] digit_char_less [of m n] by (cases n m rule: linorder_cases) auto

lemma char_digit_digit_char: "0 \<le> n \<Longrightarrow> n \<le> 9 \<Longrightarrow> char_digit (digit_char n) = Some n"
  by (simp add: char_digit_def Let_def of_digit_char)

lemma digit_char_not_sep: "0 \<le> n \<Longrightarrow> n \<le> 9 \<Longrightarrow> digit_char n \<noteq> CHR ''-''" "0 \<le> n \<Longrightarrow> n \<le> 9 \<Longrightarrow> digit_char n \<noteq> CHR '':''"
  using of_digit_char [of n] by auto

lemma pad2_less:
  assumes "0 \<le> n" "n \<le> 99" "0 \<le> m" "m \<le> 99"
  shows "pad2 n @ xs < pad2 m @ ys \<longleftrightarrow> n < m \<or> n = m \<and> xs < ys"
proof -
  define a b where "a = n div 10" and "b = n mod 10"
  define c d where "c = m div 10" and "d = m mod 10"
  have n: "n = 10 * a + b" "0 \<le> b" "b \<le> 9" and m: "m = 10 * c + d" "0 \<le> d" "d \<le> 9"
    by (simp_all add: a_def b_def c_def d_def)
  have ac: "0 \<le> a" "a \<le> 9" "0 \<le> c" "c \<le> 9" using n m assms by linarith+
  have "pad2 n @ xs < pad2 m @ ys \<longleftrightarrow> a < c \<or> a = c \<and> (b < d \<or> b = d \<and> xs < ys)"
    using n m ac by (simp add: pad2_def digit_char_less digit_char_eq flip: a_def b_def c_def d_def)
  also have "\<dots> \<longleftrightarrow> n < m \<or> n = m \<and> xs < ys"
    using n m by auto
  finally show ?thesis .
qed

lemma pad4_less:
  assumes "0 \<le> n" "n \<le> 9999" "0 \<le> m" "m \<le> 9999"
  shows "pad4 n @ xs < pad4 m @ ys \<longleftrightarrow> n < m \<or> n = m \<and> xs < ys"
proof -
  define a b where "a = n div 100" and "b = n mod 100"
  define c d where "c = m div 100" and "d = m mod 100"
  have n: "n = 100 * a + b" "0 \<le> b" "b \<le> 99" and m: "m = 100 * c + d" "0 \<le> d" "d \<le> 99"
    by (simp_all add: a_def b_def c_def d_def)
  have ac: "0 \<le> a" "a \<le> 99" "0 \<le> c" "c \<le> 99" using n m assms by linarith+
  have "pad4 n @ xs < pad4 m @ ys \<longleftrightarrow> a < c \<or> a = c \<and> (b < d \<or> b = d \<and> xs < ys)"
    using n m ac by (simp add: pad4_def pad2_less flip: a_def b_def c_def d_def)
  also have "\<dots> \<longleftrightarrow> n < m \<or> n = m \<and> xs < ys"
    using n m by auto
  finally show ?thesis .
qed

text \<open>Comparing the strings, as the code does, is comparing the dates and the times.\<close>

lemma iso_string_less_iff [calendar]:
  assumes "iso_range a" "iso_range b"
  shows "iso_string a < iso_string b \<longleftrightarrow> a < b"
proof -
  have "iso_string a < iso_string b \<longleftrightarrow> cy a < cy b \<or> cy a = cy b \<and> (cm a < cm b \<or> cm a = cm b \<and> cd a < cd b)"
    using assms pad2_less [of "cd a" "cd b" "[]" "[]"]
    by (auto simp: iso_string_def iso_range_def pad4_less pad2_less)
  then show ?thesis by (cases a; cases b) simp
qed

lemma hm_string_less_iff [calendar]:
  assumes "hm_range a" "hm_range b"
  shows "hm_string a < hm_string b \<longleftrightarrow> a < b"
proof -
  have "hm_string a < hm_string b \<longleftrightarrow> hh a < hh b \<or> hh a = hh b \<and> mi a < mi b"
    using assms pad2_less [of "mi a" "mi b" "[]" "[]"]
    by (auto simp: hm_string_def hm_range_def pad2_less)
  then show ?thesis by (cases a; cases b) simp
qed

lemma split_on_none: "c \<notin> set xs \<Longrightarrow> split_on c xs = [xs]"
  by (induction xs) auto

lemma split_on_sep: "c \<notin> set xs \<Longrightarrow> split_on c (xs @ c # ys) = xs # split_on c ys"
  by (induction xs) auto

lemma pad2_digits:
  assumes "0 \<le> n" "n \<le> 99"
  shows "js_digits k (pad2 n @ xs) = js_digits (k * 100 + n) xs"
    "CHR ''-'' \<notin> set (pad2 n)" "CHR '':'' \<notin> set (pad2 n)"
proof -
  have d: "0 \<le> n div 10" "n div 10 \<le> 9" "0 \<le> n mod 10" "n mod 10 \<le> 9" using assms by auto
  have "(k * 10 + n div 10) * 10 + n mod 10 = k * 100 + n"
    by (simp add: algebra_simps)
  then have "js_digits ((k * 10 + n div 10) * 10 + n mod 10) xs = js_digits (k * 100 + n) xs"
    by (simp only:)
  then show "js_digits k (pad2 n @ xs) = js_digits (k * 100 + n) xs"
    using d by (simp only: pad2_def append_Cons append_Nil js_digits.simps char_digit_digit_char option.case)
  show "CHR ''-'' \<notin> set (pad2 n)" "CHR '':'' \<notin> set (pad2 n)"
    using d digit_char_not_sep [of "n div 10"] digit_char_not_sep [of "n mod 10"]
    by (auto simp: pad2_def)
qed

lemma js_number_pad2 [simp]: "0 \<le> n \<Longrightarrow> n \<le> 99 \<Longrightarrow> js_number (pad2 n) = Some n"
  using pad2_digits(1) [of n 0 "[]"] by (simp add: js_number_def)

lemma js_number_pad4 [simp]:
  assumes "0 \<le> n" "n \<le> 9999"
  shows "js_number (pad4 n) = Some n" "CHR ''-'' \<notin> set (pad4 n)"
proof -
  have d: "0 \<le> n div 100" "n div 100 \<le> 99" "0 \<le> n mod 100" "n mod 100 \<le> 99" using assms by auto
  have "js_digits 0 (pad4 n) = Some (n div 100 * 100 + n mod 100)"
    using pad2_digits(1) [OF d(1,2), of 0 "pad2 (n mod 100)"] pad2_digits(1) [OF d(3,4), of "n div 100" "[]"]
    by (simp add: pad4_def)
  then show "js_number (pad4 n) = Some n" by (simp add: js_number_def)
  show "CHR ''-'' \<notin> set (pad4 n)"
    using pad2_digits(2) [OF d(1,2)] pad2_digits(2) [OF d(3,4)] by (simp add: pad4_def)
qed

section \<open>The date helpers of the services\<close>

text \<open>
  \<open>isValidDate\<close> on the raw query string, and its numeric core: \<open>Date.UTC\<close> normalises an impossible
  date, so the fields read back differ from the ones put in.
\<close>

definition isValidYMD :: "int \<Rightarrow> int \<Rightarrow> int \<Rightarrow> bool" where
  "isValidYMD y m d = (civil_of_day (utc_day y (m - 1) d) = Civil y m d)"

definition isValidDate :: "string \<Rightarrow> bool" where
  "isValidDate s =
     (case map js_number (split_on CHR ''-'' s) of
        Some y # Some m # Some d # _ \<Rightarrow> isValidYMD y m d
      | _ \<Rightarrow> False)"

definition isValidCivil :: "civil \<Rightarrow> bool" where
  "isValidCivil c = isValidYMD (cy c) (cm c) (cd c)"

lemma isValidYMD_iff [calendar]: "isValidYMD y m d \<longleftrightarrow> valid_civil (Civil y m d) \<and> \<not> (0 \<le> y \<and> y \<le> 99)"
proof (cases "0 \<le> y \<and> y \<le> 99")
  case True
  have "valid_civil (civil_of_day (utc_day y (m - 1) d))" by (rule civil_of_day_valid)
  moreover have "civil_of_day (utc_day y (m - 1) d) \<noteq> Civil y m d"
  proof
    assume eq: "civil_of_day (utc_day y (m - 1) d) = Civil y m d"
    then have v: "valid_civil (Civil y m d)" using civil_of_day_valid [of "utc_day y (m - 1) d"] by simp
    from eq have "utc_day y (m - 1) d = day_of_civil (Civil y m d)"
      using day_of_civil_of_day [of "utc_day y (m - 1) d"] by simp
    moreover have "day_of_civil (Civil y m d) < day_of_civil (Civil (1900 + y) m 1)"
      using v by (intro day_of_civil_less) (auto simp: valid_civil_def days_in_month_def)
    moreover have "day_of_civil (Civil (1900 + y) m 1) \<le> utc_day y (m - 1) d"
      using True v by (simp add: utc_day_def day_of_civil_def make_day_def Let_def valid_civil_def)
    ultimately show False by simp
  qed
  ultimately show ?thesis using True by (simp add: isValidYMD_def)
next
  case False
  then have u: "utc_day y (m - 1) d = day_of_civil (Civil y m d)"
    by (auto simp: utc_day_def day_of_civil_def)
  show ?thesis
    using False civil_of_day_of_civil [of "Civil y m d"] civil_of_day_valid [of "day_of_civil (Civil y m d)"]
    by (auto simp: isValidYMD_def u)
qed

lemma isValidDate_iso_string [calendar]:
  assumes "iso_range c"
  shows "isValidDate (iso_string c) = isValidCivil c"
proof -
  have r: "0 \<le> cy c" "cy c \<le> 9999" "0 \<le> cm c" "cm c \<le> 99" "0 \<le> cd c" "cd c \<le> 99"
    using assms by (auto simp: iso_range_def)
  have "split_on CHR ''-'' (iso_string c) = [pad4 (cy c), pad2 (cm c), pad2 (cd c)]"
    using r pad2_digits(2) by (simp add: iso_string_def split_on_sep split_on_none js_number_pad4(2))
  then show ?thesis using r by (simp add: isValidDate_def isValidCivil_def)
qed

text \<open>Times of day: \<open>toMinutes\<close> and \<open>fromMinutes\<close>.\<close>

definition toMinutes :: "hm \<Rightarrow> int" where
  "toMinutes t = hh t * 60 + mi t"

definition fromMinutes :: "int \<Rightarrow> hm" where
  "fromMinutes m = HM (m div 60) (m mod 60)"

definition valid_hm :: "hm \<Rightarrow> bool" where
  "valid_hm t \<longleftrightarrow> 0 \<le> hh t \<and> hh t \<le> 23 \<and> 0 \<le> mi t \<and> mi t \<le> 59"

lemma toMinutes_fromMinutes [simp, calendar]: "toMinutes (fromMinutes m) = m"
  by (simp add: toMinutes_def fromMinutes_def)

lemma fromMinutes_toMinutes [simp, calendar]: "valid_hm t \<Longrightarrow> fromMinutes (toMinutes t) = t"
  by (cases t) (simp add: toMinutes_def fromMinutes_def valid_hm_def)

lemma fromMinutes_less [simp, calendar]: "fromMinutes a < fromMinutes b \<longleftrightarrow> a < b"
proof -
  define q r q' r' where "q = a div 60" and "r = a mod 60" and "q' = b div 60" and "r' = b mod 60"
  have "a = 60 * q + r" "b = 60 * q' + r'" "0 \<le> r" "r < 60" "0 \<le> r'" "r' < 60"
    by (simp_all add: q_def r_def q'_def r'_def)
  then show ?thesis by (auto simp: fromMinutes_def simp flip: q_def r_def q'_def r'_def)
qed

lemma toMinutes_less [calendar]: "valid_hm s \<Longrightarrow> valid_hm t \<Longrightarrow> toMinutes s < toMinutes t \<longleftrightarrow> s < t"
  using fromMinutes_less [of "toMinutes s" "toMinutes t"] by simp

text \<open>\<open>buildDatetime(date, time)\<close>: always read as UTC.\<close>

definition buildDatetime :: "civil \<Rightarrow> hm \<Rightarrow> ms" where
  "buildDatetime c t = day_of_civil c * day_ms + toMinutes t * minute_ms"

text \<open>\<open>new Date(`${d}T00:00:00Z`)\<close>.\<close>

definition midnight :: "civil \<Rightarrow> ms" where
  "midnight c = day_of_civil c * day_ms"

text \<open>\<open>toISOString().slice(0, 10)\<close>.\<close>

definition utc_date :: "ms \<Rightarrow> civil" where
  "utc_date t = civil_of_day (t div day_ms)"

lemma utc_date_midnight [simp, calendar]: "valid_civil c \<Longrightarrow> utc_date (midnight c) = c"
  by (simp add: utc_date_def midnight_def day_ms_def civil_of_day_of_civil)

lemma utc_date_valid [calendar]: "valid_civil (utc_date t)"
  by (simp add: utc_date_def civil_of_day_valid)

lemma midnight_less [calendar]: "valid_civil a \<Longrightarrow> valid_civil b \<Longrightarrow> midnight a < midnight b \<longleftrightarrow> a < b"
  by (simp add: midnight_def day_ms_def day_of_civil_less_iff)

lemma midnight_le [calendar]: "valid_civil a \<Longrightarrow> valid_civil b \<Longrightarrow> midnight a \<le> midnight b \<longleftrightarrow> a \<le> b"
  by (simp add: midnight_def day_ms_def day_of_civil_le_iff)

text \<open>
  \<open>addMonthsClamped\<close>: set the day to 1, shift the month, then put the day back, clamped to the last
  day of the target month, which the code reads off \<open>Date.UTC(y, m + 1, 0)\<close>.
\<close>

definition addMonthsClamped :: "ms \<Rightarrow> int \<Rightarrow> ms" where
  "addMonthsClamped date months =
     (let c = utc_date date; tod = date mod day_ms; day = cd c;
          out1 = make_day (cy c) (cm c - 1) 1;
          o1 = civil_of_day out1;
          out2 = make_day (cy o1) (cm o1 - 1 + months) 1;
          o2 = civil_of_day out2;
          lastDayOfTarget = cd (civil_of_day (utc_day (cy o2) (cm o2) 0));
          out3 = make_day (cy o2) (cm o2 - 1) (min day lastDayOfTarget)
      in out3 * day_ms + tod)"

lemma last_day_of_month:
  assumes "1 \<le> m" "m \<le> 12"
  shows "make_day y m 0 = make_day y (m - 1) (days_in_month y m)"
proof -
  have "0 \<le> m - 1" "m - 1 \<le> 11" using assms by linarith+
  then show ?thesis
    by (cases rule: month_cases)
      (auto simp: make_day_def Let_def month_offset_def month_start_def days_in_month_def
        day_from_year_succ eq_diff_eq)
qed

lemma addMonthsClamped_eq [calendar]:
  fixes date :: ms and months :: int
  defines "c \<equiv> utc_date date"
  defines "y \<equiv> cy c + (cm c - 1 + months) div 12" and "m \<equiv> (cm c - 1 + months) mod 12 + 1"
  assumes y: "\<not> (0 \<le> y \<and> y \<le> 99)"
  shows "addMonthsClamped date months =
    day_of_civil (Civil y m (min (cd c) (days_in_month y m))) * day_ms + date mod day_ms"
proof -
  have vc: "valid_civil c" by (simp add: c_def utc_date_valid)
  have "0 \<le> (cm c - 1 + months) mod 12" "(cm c - 1 + months) mod 12 < 12" by simp_all
  then have m: "1 \<le> m" "m \<le> 12" by (simp_all add: m_def)
  have o1: "civil_of_day (make_day (cy c) (cm c - 1) 1) = Civil (cy c) (cm c) 1"
    using vc civil_of_day_of_civil [of "Civil (cy c) (cm c) 1"] days_in_month_pos(1) [of "cy c" "cm c"]
    by (auto simp: valid_civil_def day_of_civil_def)
  have "make_day (cy c) (cm c - 1 + months) 1 = day_of_civil (Civil y m 1)"
    by (simp add: day_of_civil_def make_day_def Let_def y_def m_def)
  then have o2: "civil_of_day (make_day (cy c) (cm c - 1 + months) 1) = Civil y m 1"
    using m days_in_month_pos(1) [of y m] civil_of_day_of_civil [of "Civil y m 1"]
    by (simp add: valid_civil_def)
  have "utc_day y m 0 = day_of_civil (Civil y m (days_in_month y m))"
    unfolding utc_day_def if_not_P [OF y] day_of_civil_def
    using last_day_of_month [OF m, of y] by simp
  then have "cd (civil_of_day (utc_day y m 0)) = days_in_month y m"
    using m days_in_month_pos(1) [of y m] civil_of_day_of_civil [of "Civil y m (days_in_month y m)"]
    by (simp add: valid_civil_def)
  then show ?thesis
    by (simp add: addMonthsClamped_def Let_def o1 o2 day_of_civil_def flip: c_def)
qed

lemma addMonthsClamped_date [calendar]:
  fixes date :: ms and months :: int
  defines "c \<equiv> utc_date date"
  defines "y \<equiv> cy c + (cm c - 1 + months) div 12" and "m \<equiv> (cm c - 1 + months) mod 12 + 1"
  assumes y: "\<not> (0 \<le> y \<and> y \<le> 99)"
  shows "utc_date (addMonthsClamped date months) = Civil y m (min (cd c) (days_in_month y m))"
proof -
  have vc: "valid_civil c" by (simp add: c_def utc_date_valid)
  have "0 \<le> (cm c - 1 + months) mod 12" "(cm c - 1 + months) mod 12 < 12" by simp_all
  then have m: "1 \<le> m" "m \<le> 12" by (simp_all add: m_def)
  have "valid_civil (Civil y m (min (cd c) (days_in_month y m)))"
    using m vc days_in_month_pos(1) [of y m] by (auto simp: valid_civil_def)
  then have "civil_of_day (day_of_civil (Civil y m (min (cd c) (days_in_month y m))))
      = Civil y m (min (cd c) (days_in_month y m))"
    by (rule civil_of_day_of_civil)
  moreover have "addMonthsClamped date months =
      day_of_civil (Civil y m (min (cd c) (days_in_month y m))) * day_ms + date mod day_ms"
    using y unfolding c_def y_def m_def by (rule addMonthsClamped_eq)
  ultimately show ?thesis
    by (simp add: utc_date_def day_ms_def)
qed

text \<open>\<open>weekdayOf\<close> and the \<open>DAYS\<close> table; day 0 of the epoch was a Thursday.\<close>

definition DAYS :: "string list" where
  "DAYS = [''SUN'', ''MON'', ''TUE'', ''WED'', ''THU'', ''FRI'', ''SAT'']"

definition weekday :: "int \<Rightarrow> int" where
  "weekday n = (n + 4) mod 7"

definition weekdayOf :: "civil \<Rightarrow> string" where
  "weekdayOf c = DAYS ! nat (weekday (day_of_civil c))"

text \<open>
  \<open>Intl.DateTimeFormat\<close>: the zone database maps a zone and an instant to the zone's offset, or to
  \<open>None\<close> when the zone is unknown (the constructor throws \<open>RangeError\<close>).
\<close>

type_synonym tzdb = "string \<Rightarrow> ms \<Rightarrow> ms option"

definition todayInTimezone :: "tzdb \<Rightarrow> string \<Rightarrow> ms \<Rightarrow> civil" where
  "todayInTimezone db tz now =
     (case db tz now of Some off \<Rightarrow> utc_date (now + off) | None \<Rightarrow> utc_date now)"

definition nowInTimezone :: "tzdb \<Rightarrow> string \<Rightarrow> ms \<Rightarrow> ms" where
  "nowInTimezone db tz now =
     (case db tz now of Some off \<Rightarrow> (now + off) div 1000 * 1000 | None \<Rightarrow> now)"

text \<open>The local time \<open>HH:MM\<close>, \<open>23:59\<close> when the zone is unknown.\<close>

definition nowTimeLocal :: "tzdb \<Rightarrow> string \<Rightarrow> ms \<Rightarrow> hm" where
  "nowTimeLocal db tz now =
     (case db tz now of
        Some off \<Rightarrow> fromMinutes ((now + off) mod day_ms div minute_ms)
      | None \<Rightarrow> HM 23 59)"

end
