(* ===== verification/Model.thy ===== *)
theory Model
  imports JsDate
begin

text \<open>
  The data model: the enumerations and tables of \<open>apps/api/prisma/schema.prisma\<close> as far as the
  services read or write them, the exceptions they throw, their observable effects besides the
  database, and transactions. A \<open>Decimal\<close> column is a rational, a \<open>DateTime\<close> column an instant, a
  nullable column an option; table columns no modelled operation uses are left out.
\<close>

section \<open>Enumerations\<close>

datatype booking_type = HOURLY | DAILY
datatype pricing_model = PER_PERSON | PER_UNIT
datatype activity_status = ACT_PENDING | ACT_ACTIVE | ACT_INACTIVE | ACT_BLOCKED
datatype vendor_status = VENDOR_PENDING | VENDOR_ACTIVE | VENDOR_SUSPENDED
datatype booking_status = PENDING | CONFIRMED | COMPLETED | CANCELLED
datatype payment_status =
  PAY_PENDING | SUCCESS | REFUND_PENDING | REFUNDED | REJECTED | FAILED
datatype payout_status = UNPAID | PAID
datatype request_status = REQ_PENDING | REQ_APPROVED | REQ_REJECTED | REQ_COMPLETED
datatype discount_type = PERCENTAGE | FIXED
datatype coupon_status = COUPON_PENDING | APPROVED | EXPIRED
datatype actor = CUSTOMER | VENDOR | ADMIN | SYSTEM
datatype ledger_source =
  BOOKING_REDEEM | BOOKING_EARN | CANCEL_REFUND_UNPAID | CANCEL_REFUND_PAID
| CANCEL_REVERSE_AWARDED | VENDOR_REFUND_APPROVED | ADMIN_REFUND_APPROVED | ADMIN_ADJUST
datatype policy = FREE_CANCELLATION | PARTIAL_REFUND | NON_REFUNDABLE
datatype pay_method = METHOD_PENDING | WANASA_POINTS | PAY2M

section \<open>Tables\<close>

record user =
  u_id :: uid
  u_email :: string
  u_phone :: "string option"
  u_deletedAt :: "ms option"
  u_points :: num
  u_bookingOtpVerifiedAt :: "ms option"

record vendor =
  v_id :: uid
  v_userId :: uid
  v_countryId :: uid
  v_status :: vendor_status
  v_bankDetails :: bool
  v_bankDetailsChangedAt :: "ms option"
  v_commissionPct :: "num option"

record country =
  co_id :: uid
  co_timezone :: string
  co_serviceFee :: num
  co_currency :: string

record category =
  cat_id :: uid
  cat_commissionPct :: "num option"

text \<open>An entry of \<open>activity.extraServices\<close> and of \<open>booking.selectedExtras\<close>.\<close>

record extra_service =
  x_name :: string
  x_price :: num
  x_perPerson :: bool

record selected_extra =
  s_name :: string
  s_price :: num
  s_qty :: int
  s_perPerson :: bool

record activity =
  a_id :: uid
  a_vendorId :: uid
  a_countryId :: uid
  a_categoryId :: uid
  a_titleEn :: string
  a_price :: num
  a_duration :: "int option"
  a_capacity :: "int option"
  a_bookingType :: booking_type
  a_pricing :: pricing_model
  a_checkIn :: "hm option"
  a_checkOut :: "hm option"
  a_hasUnits :: bool
  a_unitCount :: nat
  a_unitCapacity :: int
  a_policy :: "policy option"
  a_status :: activity_status
  a_extras :: "extra_service list option"
  a_activeDays :: "string list"

record block =
  bl_id :: uid
  bl_activityId :: uid
  bl_vendorId :: uid
  bl_start :: ms
  bl_end :: ms
  bl_deletedAt :: "ms option"

record special_price =
  sp_id :: uid
  sp_activityId :: uid
  sp_vendorId :: uid
  sp_date :: civil
  sp_price :: num
  sp_deletedAt :: "ms option"

record booking =
  b_id :: uid
  b_ref :: string
  b_activityId :: uid
  b_vendorId :: uid
  b_customerId :: uid
  b_unit :: "nat option"
  b_start :: ms
  b_end :: ms
  b_guests :: int
  b_phone :: string
  b_breakdown :: "(string \<times> int) list option"
  b_extras :: "selected_extra list option"
  b_totalPrice :: num
  b_serviceFee :: num
  b_commissionPct :: num
  b_commissionAmount :: num
  b_couponCode :: "string option"
  b_couponDiscount :: num
  b_pointsRedeemed :: num
  b_pointsDiscount :: num
  b_pointsAwarded :: bool
  b_currency :: string
  b_idempotencyKey :: "string option"
  b_status :: booking_status
  b_reservedUntil :: "ms option"
  b_paymentId :: "uid option"
  b_otpHash :: "string option"
  b_otpExpiry :: "ms option"
  b_otpAttempts :: int
  b_otpVerifiedAt :: "ms option"
  b_cancelledAt :: "ms option"
  b_cancelledBy :: "actor option"
  b_decisionAt :: "ms option"
  b_decisionBy :: "uid option"
  b_decisionActor :: "actor option"
  b_decisionNote :: "string option"
  b_createdAt :: ms

text \<open>
  \<open>payment.bookingSnapshot\<close>: the JSON the payment row carries so that a booking deleted before its
  callback can be re-created; its dates are the ISO strings of the instants and its amounts the
  decimal strings of the columns, both kept as the values they denote.
\<close>

record snapshot =
  sn_ref :: string
  sn_activityId :: uid
  sn_vendorId :: uid
  sn_customerId :: uid
  sn_unit :: "nat option"
  sn_start :: ms
  sn_end :: ms
  sn_guests :: int
  sn_phone :: string
  sn_breakdown :: "(string \<times> int) list option"
  sn_extras :: "selected_extra list option"
  sn_totalPrice :: num
  sn_serviceFee :: num
  sn_commissionPct :: num
  sn_commissionAmount :: num
  sn_couponCode :: "string option"
  sn_couponDiscount :: num
  sn_pointsRedeemed :: num
  sn_pointsDiscount :: num
  sn_currency :: string
  sn_idempotencyKey :: "string option"
  sn_originalCreatedAt :: ms
  sn_v :: nat

record payment =
  p_id :: uid
  p_bookingId :: "uid option"
  p_amount :: num
  p_currency :: string
  p_gatewayTxnId :: "string option"
  p_gatewayBasketId :: "string option"
  p_gatewayErrCode :: "string option"
  p_gatewayResponseKey :: "string option"
  p_idempotencyKey :: "string option"
  p_status :: payment_status
  p_payoutStatus :: payout_status
  p_bankTransferRef :: "string option"
  p_method :: pay_method
  p_paidAt :: "ms option"
  p_firstInitiatedAt :: "ms option"
  p_initiatedAt :: "ms option"
  p_refundAmount :: "num option"
  p_refundedAt :: "ms option"
  p_snapshot :: "snapshot option"
  p_recreatedAt :: "ms option"
  p_createdAt :: ms

record coupon =
  cp_id :: uid
  cp_code :: string
  cp_vendorId :: "uid option"
  cp_activityIds :: "uid list"
  cp_type :: discount_type
  cp_value :: num
  cp_validFrom :: ms
  cp_validTo :: ms
  cp_usageLimit :: "int option"
  cp_usedCount :: int
  cp_minOrder :: "num option"
  cp_maxDiscount :: "num option"
  cp_status :: coupon_status

record claimed_coupon =
  cl_id :: uid
  cl_userId :: uid
  cl_couponId :: uid
  cl_used :: bool

record loyalty_config =
  lc_pointsPerQar :: num
  lc_qarPerPoint :: num
  lc_minRedemption :: int

text \<open>The ledger is append-only; its rows are kept in insertion order.\<close>

record ledger_row =
  l_userId :: uid
  l_delta :: num
  l_balanceAfter :: num
  l_source :: ledger_source
  l_bookingId :: "uid option"
  l_actor :: actor
  l_actorId :: "uid option"

datatype email_type = BOOKING_CONFIRMATION | VENDOR_BOOKING_NOTIFICATION
datatype outbox_status = OUTBOX_PENDING | OUTBOX_SENT | OUTBOX_FAILED

record outbox_row =
  o_id :: uid
  o_type :: email_type
  o_recipient :: string
  o_bookingId :: "uid option"
  o_status :: outbox_status
  o_attempts :: int
  o_nextAttemptAt :: ms
  o_sentAt :: "ms option"
  o_failedAt :: "ms option"
  o_createdAt :: ms

record payout_request =
  pr_id :: uid
  pr_vendorId :: uid
  pr_amount :: num
  pr_currency :: string
  pr_status :: request_status
  pr_note :: "string option"
  pr_processedAt :: "ms option"
  pr_paymentIds :: "uid list"
  pr_createdAt :: ms

record db =
  users :: "user list"
  vendors :: "vendor list"
  countries :: "country list"
  categories :: "category list"
  activities :: "activity list"
  blocks :: "block list"
  specials :: "special_price list"
  bookings :: "booking list"
  payments :: "payment list"
  coupons :: "coupon list"
  claimed :: "claimed_coupon list"
  ledger :: "ledger_row list"
  loyaltyConfig :: "loyalty_config option"
  defaultCommissionPct :: "num option"
  outbox :: "outbox_row list"
  payoutRequests :: "payout_request list"

section \<open>Exceptions\<close>

text \<open>
  One constructor per class of exception the services throw, carrying what was rejected; each
  reason is named after the message of the \<open>throw\<close> it stands for.
\<close>

datatype entity =
  ActivityNotFound | BookingNotFound | UnitNotFound | PaymentNotFound | UserNotFound | VendorNotFound
| BlockNotFound | SpecialPriceNotFound | PayoutRequestNotFound | RelationNotFound

datatype slot_reason =
  InvalidDate | InvalidCheckIn | InvalidCheckOut | WrongBookingType | ActivityNotBookable
| VendorNotActive | PastDate | TooFarAhead | InactiveDay | NoCapacityConfigured | SlotTimeRequired
| ActivityConfigIncomplete | DurationNotPositive | SlotNotHalfHour | SlotEndNotHalfHour
| SlotEndBeforeStart | NotWholeHours | SlotTooShort | SlotTooLong | BeforeOpening | AfterClosing
| SlotAlreadyStarted | CheckOutRequired | CheckOutNotAfterCheckIn | StayTooShort | StayTooLong
| WindowBlocked

datatype booking_reason =
  BreakdownMismatch | ExtraNotAvailable | AlreadyCancelled | AlreadyCompleted | AlreadyStarted
| NoPaymentForBooking | NotCancelled | AmountRequired | AmountNegative | AmountTooLarge
| NoVerificationNeeded | NoActiveCode | CodeExpired | TooManyAttempts | InvalidCode
| ConfirmWithoutPayment

datatype coupon_reason =
  BothCouponAndVoucher | VoucherNotFound | VoucherNotYours | VoucherUsed | CouponInvalid
| CouponNotActive | CouponNotYetValid | CouponExpired | CouponLimitReached | CouponAlreadyUsed
| CouponWrongActivity | BelowMinimumOrder

datatype points_reason =
  AmountNotPositive | DeltaZero | BelowMinimumRedemption | RedemptionDisabled

datatype payment_reason =
  PaymentDisabled | NotPayable | ReservationExpired | EmailNotVerified | GatewayUnavailable
| CallbackUnknownBasket | VerificationFailed

datatype block_reason =
  BlockDateInvalid | BlockEndDateInvalid | BlockEndBeforeStart | BlockTooFarAhead | RepeatWithSlots
| SlotsNotHourly | SlotsSingleDate | SlotNotBookable | BlockInPast

datatype price_reason =
  PriceDateInvalid | PriceDatePast | PriceTooFarAhead | PriceInvalid | RangeIncomplete
| RangeInverted | NoDates | TooManyDates

datatype payout_reason =
  VendorSuspended | InflightPending | InflightApproved | NoBankDetails | BankDetailsRecentlyChanged
| NoBalance | BelowMinimum | BadTransition | NoEligiblePayments | NoLockedPayments | LockedDrifted
| VendorNotPayable | RequestInFlight | BankRefRequired | InEscrow | AlreadyMarkedPaid | PaymentNotPaidOut
| OnlyRejectedDeletable | RequestChanged

datatype conflict_reason =
  DuplicateBooking | SlotBusy | AllUnitsBooked | SlotFull "num option" | InsufficientPoints
| StateChanged | AlreadyDecided | UniqueViolation | IdempotencyKeyReused | AlreadyBlocked
| BlockOverlaps | AlreadyProcessed | EligibilityChanged

datatype exn =
  NotFound entity
| BadSlot slot_reason
| BadBooking booking_reason
| BadCoupon coupon_reason
| BadPoints points_reason
| BadPayment payment_reason
| BadBlock block_reason
| BadPrice price_reason
| BadPayout payout_reason
| Conflict conflict_reason
| Forbidden
| InternalError

section \<open>Effects and transactions\<close>

text \<open>
  What a handler does besides the database: audit and security log entries, notifications, e-mail,
  cache invalidation. A handler returns its result (or exception) with the world after it, so that
  what an exception leaves behind is part of the model.
\<close>

datatype audit_action =
  BOOKING_CREATED | BOOKING_CANCELLED_POINTS_REFUNDED | BOOKING_CANCELLED_AWAITING_REFUND
| REFUND_ON_PAID_OUT_BOOKING | REFUND_APPROVED_AS_POINTS | REFUND_REJECTED
| BOOKING_EMAIL_OTP_QUOTA_BLOCKED | BOOKING_EMAIL_OTP_SENT | BOOKING_EMAIL_OTP_VERIFIED
| PAYMENT_INITIATED | PAYMENT_NAPS_AWAITING_CAPTURE | PAYMENT_DUPLICATE_CAPTURE | PAYMENT_HASH_MISMATCH
| PAYMENT_COUPON_INVALID_AT_CONFIRMATION | PAYMENT_SUCCEEDED | PAYMENT_DECLINED
| PAYMENT_RECOVERED_VIA_RECREATE | PAYMENT_RECOVERED_VIA_UNCANCEL | PAYMENT_RECOVERY_REFUND_QUEUED
| AUTO_CANCEL_STALE_BOOKINGS | AUTO_COMPLETE_PAST_BOOKINGS | AUTO_EXPIRE_COUPONS | PAYOUT_REVERTED | PAYOUT_REQUEST_REVERTED

datatype security_event =
  OTP_SENT | OTP_LOCKED | OTP_VERIFY_FAIL | OTP_VERIFY_OK

datatype notification =
  BOOKING_NEW | BOOKING_CANCELLED | REFUND_REQUESTED | REFUND_DECIDED | SYSTEM_NOTICE
| BOOKING_CONFIRMED | PAYMENT_SUCCESS | PAYMENT_FAILED | BOOKING_COMPLETED | PAYOUT_REQUESTED | PAYOUT_PROCESSED
| ACTIVITY_APPROVED | ACTIVITY_REJECTED | VENDOR_APPROVED | VENDOR_SUSPENDED_NOTICE

datatype effect =
  Audit actor uid audit_action uid
| Security security_event uid
| Notify uid notification
| NotifyAdmins notification
| InvalidateAvailability uid
| SendOtpEmail string string
| SpawnBookingOtp uid
| KillSessions uid

record world =
  w_db :: db
  w_fx :: "effect list"

definition emit :: "effect list \<Rightarrow> world \<Rightarrow> world" where
  "emit fx w = w\<lparr>w_fx := w_fx w @ fx\<rparr>"

text \<open>
  \<open>prisma.$transaction\<close>: the body works on the database; when it throws, none of its writes
  survive.
\<close>

definition transaction :: "(db \<Rightarrow> exn + ('a \<times> db)) \<Rightarrow> world \<Rightarrow> (exn + 'a) \<times> world" where
  "transaction body w =
     (case body (w_db w) of
        Inl e \<Rightarrow> (Inl e, w)
      | Inr (a, d) \<Rightarrow> (Inr a, w\<lparr>w_db := d\<rparr>))"

lemma emit_db [simp]: "w_db (emit fx w) = w_db w"
  by (simp add: emit_def)

lemma emit_fx [simp]: "w_fx (emit fx w) = w_fx w @ fx"
  by (simp add: emit_def)

lemma transaction_Inl [result]: "transaction body w = (Inl e, w') \<longleftrightarrow> body (w_db w) = Inl e \<and> w' = w"
  by (auto simp: transaction_def split: sum.splits)

lemma transaction_Inr [result]:
  "transaction body w = (Inr a, w') \<longleftrightarrow> (\<exists>d. body (w_db w) = Inr (a, d) \<and> w' = w\<lparr>w_db := d\<rparr>)"
  by (auto simp: transaction_def split: sum.splits)

section \<open>Active bookings\<close>

text \<open>
  \<open>activeBookingFilter\<close> of \<open>bookings.service.ts\<close>: a booking holds its seats unless it is cancelled or an
  expired reservation. The condition is evaluated by SQL: for a \<open>PENDING\<close> row whose
  \<open>reservedUntil\<close> is NULL the comparison is unknown, so is its negation, and the row is not
  selected.
\<close>

definition activeBookingFilter :: "ms \<Rightarrow> booking \<Rightarrow> bool" where
  "activeBookingFilter now b =
     (b_status b \<noteq> CANCELLED \<and>
      (b_status b = PENDING \<longrightarrow> (case b_reservedUntil b of Some r \<Rightarrow> now \<le> r | None \<Rightarrow> False)))"

definition overlaps :: "ms \<Rightarrow> ms \<Rightarrow> booking \<Rightarrow> bool" where
  "overlaps s e b = (b_start b < e \<and> s < b_end b)"

lemma activeBookingFilter_settled [simp]:
  "b_status b = CONFIRMED \<Longrightarrow> activeBookingFilter now b"
  "b_status b = COMPLETED \<Longrightarrow> activeBookingFilter now b"
  "b_status b = CANCELLED \<Longrightarrow> \<not> activeBookingFilter now b"
  by (simp_all add: activeBookingFilter_def)

lemma activeBookingFilter_pending [simp]:
  "b_status b = PENDING \<Longrightarrow>
   activeBookingFilter now b \<longleftrightarrow> (\<exists>r. b_reservedUntil b = Some r \<and> now \<le> r)"
  by (simp add: activeBookingFilter_def split: option.splits)

text \<open>\<open>buildBookingSnapshot\<close>: a copy of the persisted row.\<close>

definition buildBookingSnapshot :: "booking \<Rightarrow> snapshot" where
  "buildBookingSnapshot b = \<lparr>
     sn_ref = b_ref b, sn_activityId = b_activityId b, sn_vendorId = b_vendorId b,
     sn_customerId = b_customerId b, sn_unit = b_unit b,
     sn_start = b_start b, sn_end = b_end b, sn_guests = b_guests b,
     sn_phone = b_phone b, sn_breakdown = b_breakdown b, sn_extras = b_extras b,
     sn_totalPrice = b_totalPrice b, sn_serviceFee = b_serviceFee b,
     sn_commissionPct = b_commissionPct b, sn_commissionAmount = b_commissionAmount b,
     sn_couponCode = b_couponCode b, sn_couponDiscount = b_couponDiscount b,
     sn_pointsRedeemed = b_pointsRedeemed b, sn_pointsDiscount = b_pointsDiscount b,
     sn_currency = b_currency b, sn_idempotencyKey = b_idempotencyKey b,
     sn_originalCreatedAt = b_createdAt b, sn_v = 2\<rparr>"

end
