(* ===== verification/Capacity.thy ===== *)
theory Capacity
  imports Model "HOL-Library.Multiset"
begin

text \<open>
  The capacity arithmetic of \<open>apps/api/src/bookings/bookings.service.ts\<close>: slot times, the peak
  number of concurrent guests in a window, bookings without a unit, whole-unit rentals. The sweep
  of \<open>maxConcurrentInWindow\<close> is shown to compute the maximum over the instants of the window of
  the guests present; what the booking and recovery paths need of it is stated once in the locale
  \<open>peak_measure\<close>.
\<close>

named_theorems capacity \<open>facts about peak concurrency\<close>

section \<open>Slot times\<close>

definition HOURLY_SLOT_GRANULARITY_MINUTES :: int where
  "HOURLY_SLOT_GRANULARITY_MINUTES = 30"

text \<open>\<open>MAX_HOURLY_SLOTS\<close>, at its default.\<close>

definition MAX_HOURLY_SLOTS :: int where
  "MAX_HOURLY_SLOTS = 48"

text \<open>The loop of \<open>computeSlots\<close>; \<open>n\<close> slots have been pushed when the body starts at minute \<open>t\<close>.\<close>

function slot_loop :: "int \<Rightarrow> int \<Rightarrow> int \<Rightarrow> int \<Rightarrow> hm list" where
  "slot_loop endMins slotDuration n t =
     (if t + slotDuration \<le> endMins
      then fromMinutes t #
        (if n + 1 \<ge> MAX_HOURLY_SLOTS then []
         else slot_loop endMins slotDuration (n + 1) (t + HOURLY_SLOT_GRANULARITY_MINUTES))
      else [])"
  by auto
termination
  by (relation "measure (\<lambda>(e, d, n, t). nat (e - d - t + 30))")
    (auto simp: HOURLY_SLOT_GRANULARITY_MINUTES_def)

declare slot_loop.simps [simp del]

definition computeSlots :: "hm \<Rightarrow> hm \<Rightarrow> int \<Rightarrow> hm list" where
  "computeSlots checkInTime checkOutTime durationValue =
     (let startMins = toMinutes checkInTime;
          endMins = toMinutes checkOutTime;
          slotDuration = durationValue * 60
      in if slotDuration \<le> 0 then [] else slot_loop endMins slotDuration 0 startMins)"

lemma slot_loop_nth:
  "i < length (slot_loop e d n t) \<Longrightarrow>
   slot_loop e d n t ! i = fromMinutes (t + 30 * int i) \<and> t + 30 * int i + d \<le> e"
proof (induction e d n t arbitrary: i rule: slot_loop.induct)
  case (1 e d n t)
  show ?case
  proof (cases i)
    case 0
    then show ?thesis using "1.prems" by (subst (asm) slot_loop.simps, subst slot_loop.simps)
        (auto split: if_splits)
  next
    case (Suc k)
    have c: "t + d \<le> e" "\<not> n + 1 \<ge> MAX_HOURLY_SLOTS"
      using "1.prems" Suc by (subst (asm) slot_loop.simps, auto split: if_splits)+
    have eq: "slot_loop e d n t = fromMinutes t # slot_loop e d (n + 1) (t + 30)"
      using c by (subst slot_loop.simps) (simp add: HOURLY_SLOT_GRANULARITY_MINUTES_def)
    show ?thesis
      using "1.IH" [OF c, of k] "1.prems" unfolding eq Suc
      by (simp add: HOURLY_SLOT_GRANULARITY_MINUTES_def algebra_simps)
  qed
qed

lemma slot_loop_length:
  "n < MAX_HOURLY_SLOTS \<Longrightarrow>
   int (length (slot_loop e d n t)) = min (MAX_HOURLY_SLOTS - n) (max 0 ((e - d - t) div 30 + 1))"
proof (induction e d n t rule: slot_loop.induct)
  case (1 e d n t)
  show ?case
  proof (cases "t + d \<le> e")
    case False
    then have "(e - d - t) div 30 \<le> -1" by (simp add: div_neg_pos_less0 less_iff_succ_less_eq)
    then show ?thesis using False "1.prems" by (subst slot_loop.simps) auto
  next
    case True
    define q where "q = (e - d - t) div 30"
    have q: "0 \<le> q" using True by (simp add: q_def pos_imp_zdiv_nonneg_iff)
    have q': "(e - d - (t + 30)) div 30 = q - 1"
      using div_mult_self1 [of 30 "e - d - (t + 30)" 1] by (simp add: q_def algebra_simps)
    show ?thesis
    proof (cases "n + 1 \<ge> MAX_HOURLY_SLOTS")
      case stop: True
      then show ?thesis using True "1.prems" q by (subst slot_loop.simps) (simp flip: q_def)
    next
      case False
      then show ?thesis
        using "1.IH" [OF True] True "1.prems" q q'
        by (subst slot_loop.simps) (simp add: HOURLY_SLOT_GRANULARITY_MINUTES_def flip: q_def)
    qed
  qed
qed

text \<open>Every slot starts on the grid at or after opening and ends by closing time.\<close>

lemma computeSlots_fit [capacity]:
  assumes "s \<in> set (computeSlots ci co dur)"
  shows "toMinutes ci \<le> toMinutes s" "toMinutes s + dur * 60 \<le> toMinutes co"
    "(toMinutes s - toMinutes ci) mod 30 = 0" "0 < dur"
  using assms by (auto simp: computeSlots_def Let_def in_set_conv_nth dest!: slot_loop_nth split: if_splits)

lemma computeSlots_length [capacity]:
  "length (computeSlots ci co dur) \<le> 48"
  using slot_loop_length [of 0 "toMinutes co" "dur * 60" "toMinutes ci"]
  by (auto simp: computeSlots_def Let_def MAX_HOURLY_SLOTS_def)


section \<open>Peak concurrency\<close>

datatype event = Event (ev_time: ms) (ev_delta: int) (ev_isStart: int)

text \<open>The events one booking contributes, clipped to the window.\<close>

definition clip_events :: "ms \<Rightarrow> ms \<Rightarrow> booking \<Rightarrow> event list" where
  "clip_events windowStart windowEnd b =
     (let s = (if b_start b > windowStart then b_start b else windowStart);
          e = (if b_end b < windowEnd then b_end b else windowEnd)
      in if s \<ge> e then [] else [Event s (b_guests b) 1, Event e (- b_guests b) 0])"

fun sweep :: "int \<Rightarrow> int \<Rightarrow> event list \<Rightarrow> int" where
  "sweep current peak [] = peak"
| "sweep current peak (ev # evs) =
     (let current' = current + ev_delta ev
      in sweep current' (if current' > peak then current' else peak) evs)"

definition maxConcurrentInWindow :: "booking list \<Rightarrow> ms \<Rightarrow> ms \<Rightarrow> int" where
  "maxConcurrentInWindow bs windowStart windowEnd =
     sweep 0 0 (sort_key (\<lambda>ev. (ev_time ev, ev_isStart ev))
                  (concat (map (clip_events windowStart windowEnd) bs)))"

text \<open>The specification: the guests of the bookings running at instant \<open>t\<close>.\<close>

definition load_at :: "booking list \<Rightarrow> ms \<Rightarrow> int" where
  "load_at bs t = sum_list (map (\<lambda>b. if b_start b \<le> t \<and> t < b_end b then b_guests b else 0) bs)"

definition deltas :: "event list \<Rightarrow> int" where
  "deltas evs = sum_list (map ev_delta evs)"

lemma deltas_simps [simp]:
  "deltas [] = 0" "deltas (e # es) = ev_delta e + deltas es" "deltas (xs @ ys) = deltas xs + deltas ys"
  by (simp_all add: deltas_def)

lemma sweep_upper: "p \<le> sweep c p evs \<and> (\<forall>n \<le> length evs. n \<noteq> 0 \<longrightarrow> c + deltas (take n evs) \<le> sweep c p evs)"
proof (induction evs arbitrary: c p)
  case (Cons e es)
  let ?c = "c + ev_delta e" and ?p = "if c + ev_delta e > p then c + ev_delta e else p"
  note IH = Cons.IH [of ?p ?c]
  have "c + deltas (take n (e # es)) \<le> sweep ?c ?p es" if "n \<le> length (e # es)" "n \<noteq> 0" for n
  proof (cases "n = 1")
    case True
    then show ?thesis using IH by (auto split: if_splits)
  next
    case False
    then have "n = Suc (n - 1) \<and> n - 1 \<noteq> 0 \<and> n - 1 \<le> length es" using that by auto
    then obtain k where "n = Suc k" "k \<noteq> 0" "k \<le> length es" by blast
    then show ?thesis using IH by (auto simp: add.assoc split: if_splits)
  qed
  then show ?case using IH by (auto simp: Let_def split: if_splits)
qed simp

lemma sweep_attained: "sweep c p evs = p \<or> (\<exists>n \<le> length evs. sweep c p evs = c + deltas (take n evs))"
proof (induction evs arbitrary: c p)
  case (Cons e es)
  let ?c = "c + ev_delta e" and ?p = "if c + ev_delta e > p then c + ev_delta e else p"
  from Cons.IH [of ?c ?p] show ?case
  proof
    assume "sweep ?c ?p es = ?p"
    then have s: "sweep c p (e # es) = ?p" by (simp add: Let_def)
    show ?thesis
    proof (cases "?c > p")
      case True
      then have "1 \<le> length (e # es) \<and> sweep c p (e # es) = c + deltas (take 1 (e # es))"
        using s by simp
      then show ?thesis by blast
    qed (use s in simp)
  next
    assume "\<exists>n \<le> length es. sweep ?c ?p es = ?c + deltas (take n es)"
    then obtain n where "n \<le> length es" "sweep ?c ?p es = ?c + deltas (take n es)" by blast
    then have "Suc n \<le> length (e # es)" "sweep c p (e # es) = c + deltas (take (Suc n) (e # es))"
      by (simp_all add: Let_def add.assoc)
    then show ?thesis by blast
  qed
qed simp


lemma deltas_mset: "mset xs = mset ys \<Longrightarrow> deltas xs = deltas ys"
  unfolding deltas_def by (metis mset_map sum_mset_sum_list)

text \<open>The events up to an instant of the window add up to the load at that instant.\<close>

lemma deltas_clip_events:
  assumes "ws \<le> t" "t < we"
  shows "deltas (filter (\<lambda>ev. ev_time ev \<le> t) (clip_events ws we b)) =
    (if b_start b \<le> t \<and> t < b_end b then b_guests b else 0)"
  using assms by (auto simp: clip_events_def Let_def)

lemma deltas_window:
  assumes "ws \<le> t" "t < we"
  shows "deltas (filter (\<lambda>ev. ev_time ev \<le> t) (concat (map (clip_events ws we) bs))) = load_at bs t"
  by (induction bs) (simp_all add: load_at_def deltas_clip_events [OF assms])

lemma clip_events_cases:
  assumes "ev \<in> set (clip_events ws we b)" "0 \<le> b_guests b"
  shows "ws \<le> ev_time ev" "ev_isStart ev = 1 \<and> ev_time ev < we \<and> 0 \<le> ev_delta ev
    \<or> ev_isStart ev = 0 \<and> ev_delta ev \<le> 0"
  using assms by (auto simp: clip_events_def Let_def split: if_splits)

lemma sorted_filter_takeWhile:
  assumes "sorted (map f xs)" "\<And>x y. x \<in> set xs \<Longrightarrow> y \<in> set xs \<Longrightarrow> f x \<le> f y \<Longrightarrow> P y \<Longrightarrow> P x"
  shows "takeWhile P xs = filter P xs"
  using assms
proof (induction xs)
  case (Cons a xs)
  have IH: "takeWhile P xs = filter P xs"
    using Cons.IH Cons.prems by (metis list.simps(9) list.set_intros(2) sorted_simps(2))
  show ?case
  proof (cases "P a")
    case False
    have "\<not> P y" if "y \<in> set xs" for y
      using Cons.prems(2) [of a y] Cons.prems(1) that False by auto
    then show ?thesis using False by (simp add: filter_empty_conv)
  qed (simp add: IH)
qed simp

abbreviation event_key :: "event \<Rightarrow> int \<times> int" where
  "event_key ev \<equiv> (ev_time ev, ev_isStart ev)"

text \<open>
  In the sorted event list a prefix adds up to at most the load at some instant of the window:
  strip the ends at its end; after the last remaining start only starts of that instant follow.
\<close>

lemma prefix_le_load:
  assumes srt: "sorted (map event_key (xs @ ys))"
    and ev: "\<And>e. e \<in> set (xs @ ys) \<Longrightarrow> ws \<le> ev_time e \<and>
      (ev_isStart e = 1 \<and> ev_time e < we \<and> 0 \<le> ev_delta e \<or> ev_isStart e = 0 \<and> ev_delta e \<le> 0)"
  shows "deltas xs \<le> 0 \<or> (\<exists>t. ws \<le> t \<and> t < we \<and>
    deltas xs \<le> deltas (filter (\<lambda>e. ev_time e \<le> t) (xs @ ys)))"
  using assms
proof (induction xs arbitrary: ys rule: rev_induct)
  case (snoc e xs)
  have mem: "e \<in> set ((xs @ [e]) @ ys)" by simp
  from snoc.prems(2) [OF mem]
  consider (start) "ev_isStart e = 1" "ws \<le> ev_time e" "ev_time e < we"
    | (fin) "ev_isStart e = 0" "ev_delta e \<le> 0" by auto
  then show ?case
  proof cases
    case fin
    have "deltas xs \<le> 0 \<or> (\<exists>t. ws \<le> t \<and> t < we \<and>
        deltas xs \<le> deltas (filter (\<lambda>e. ev_time e \<le> t) (xs @ e # ys)))"
      using snoc.IH [of "e # ys"] snoc.prems by simp
    then show ?thesis using fin by fastforce
  next
    case start
    have before: "event_key e' \<le> event_key e" if "e' \<in> set xs" for e'
      using snoc.prems(1) that by (auto simp: sorted_append)
    have xs: "filter (\<lambda>e'. ev_time e' \<le> ev_time e) (xs @ [e]) = xs @ [e]"
      using before by (fastforce simp: filter_id_conv less_eq_prod_def)
    have "0 \<le> ev_delta e'" if "e' \<in> set ys" "ev_time e' \<le> ev_time e" for e'
    proof -
      have "event_key e \<le> event_key e'" using snoc.prems(1) that(1) by (auto simp: sorted_append)
      then have "1 \<le> ev_isStart e'" using that(2) start(1) by (auto simp: less_eq_prod_def)
      then show ?thesis using snoc.prems(2) [of e'] that(1) by auto
    qed
    then have "0 \<le> deltas (filter (\<lambda>e'. ev_time e' \<le> ev_time e) ys)"
      by (auto simp: deltas_def intro!: sum_list_nonneg)
    then have "deltas (xs @ [e]) \<le> deltas (filter (\<lambda>e'. ev_time e' \<le> ev_time e) ((xs @ [e]) @ ys))"
      unfolding filter_append [of _ "xs @ [e]" ys] xs deltas_simps(3) [of "xs @ [e]"] by simp
    then show ?thesis using start by blast
  qed
qed simp


definition window_events :: "ms \<Rightarrow> ms \<Rightarrow> booking list \<Rightarrow> event list" where
  "window_events ws we bs = sort_key event_key (concat (map (clip_events ws we) bs))"

lemma window_events_load:
  assumes "ws \<le> t" "t < we"
  shows "deltas (takeWhile (\<lambda>ev. ev_time ev \<le> t) (window_events ws we bs)) = load_at bs t"
proof -
  have "takeWhile (\<lambda>ev. ev_time ev \<le> t) (window_events ws we bs)
      = filter (\<lambda>ev. ev_time ev \<le> t) (window_events ws we bs)"
    by (rule sorted_filter_takeWhile [of event_key]) (auto simp: window_events_def less_eq_prod_def)
  also have "deltas \<dots> = deltas (filter (\<lambda>ev. ev_time ev \<le> t) (concat (map (clip_events ws we) bs)))"
    by (rule deltas_mset) (simp add: window_events_def)
  finally show ?thesis by (simp add: deltas_window [OF assms])
qed

lemma maxConcurrent_upper [capacity]:
  assumes "ws \<le> t" "t < we"
  shows "load_at bs t \<le> maxConcurrentInWindow bs ws we"
proof -
  let ?evs = "window_events ws we bs"
  obtain n where n: "n \<le> length ?evs" "takeWhile (\<lambda>ev. ev_time ev \<le> t) ?evs = take n ?evs"
    by (metis takeWhile_eq_take length_takeWhile_le)
  have "deltas (take n ?evs) \<le> sweep 0 0 ?evs"
    using sweep_upper [of 0 0 ?evs] n(1) by (cases "n = 0") auto
  then show ?thesis
    using window_events_load [OF assms, of bs] n(2)
    by (simp add: maxConcurrentInWindow_def flip: window_events_def)
qed

lemma maxConcurrent_attained [capacity]:
  assumes "\<And>b. b \<in> set bs \<Longrightarrow> 0 \<le> b_guests b"
  shows "maxConcurrentInWindow bs ws we = 0 \<or>
    (\<exists>t. ws \<le> t \<and> t < we \<and> maxConcurrentInWindow bs ws we = load_at bs t)"
proof -
  let ?evs = "window_events ws we bs" and ?m = "maxConcurrentInWindow bs ws we"
  have m: "?m = sweep 0 0 ?evs" by (simp add: maxConcurrentInWindow_def window_events_def)
  have pos: "0 \<le> ?m" using sweep_upper [of 0 0 ?evs] m by simp
  from sweep_attained [of 0 0 ?evs] show ?thesis
  proof
    assume "\<exists>n \<le> length ?evs. sweep 0 0 ?evs = 0 + deltas (take n ?evs)"
    then obtain n where n: "?m = deltas (take n ?evs)" using m by auto
    have split: "take n ?evs @ drop n ?evs = ?evs" by simp
    have "deltas (take n ?evs) \<le> 0 \<or> (\<exists>t. ws \<le> t \<and> t < we \<and>
        deltas (take n ?evs) \<le> deltas (filter (\<lambda>e. ev_time e \<le> t) ?evs))"
      using prefix_le_load [of "take n ?evs" "drop n ?evs" ws we] unfolding split
      using clip_events_cases assms by (fastforce simp: window_events_def)
    moreover have "deltas (filter (\<lambda>e. ev_time e \<le> t) ?evs) = load_at bs t" if "ws \<le> t" "t < we" for t
      using deltas_window [OF that, of bs] deltas_mset
      by (metis (mono_tags, lifting) mset_filter mset_sort window_events_def)
    ultimately show ?thesis
      using n pos maxConcurrent_upper [of ws _ we bs] by (metis order_antisym)
  qed (simp add: m)
qed

lemma maxConcurrent_nonneg [simp, capacity]: "0 \<le> maxConcurrentInWindow bs ws we"
  using sweep_upper [of 0 0] by (simp add: maxConcurrentInWindow_def)

section \<open>What callers rely on\<close>

text \<open>
  A measure of peak load over a window: at least the load at every instant of it, attained at one
  when the rows are well formed, and additive loads.
\<close>

locale peak_measure =
  fixes peak :: "'b list \<Rightarrow> int \<Rightarrow> int \<Rightarrow> int" and load :: "'b list \<Rightarrow> int \<Rightarrow> int" and ok :: "'b \<Rightarrow> bool"
  assumes peak_upper: "ws \<le> t \<Longrightarrow> t < we \<Longrightarrow> load bs t \<le> peak bs ws we"
    and peak_attained: "list_all ok bs \<Longrightarrow>
      peak bs ws we = 0 \<or> (\<exists>t. ws \<le> t \<and> t < we \<and> peak bs ws we = load bs t)"
    and peak_nonneg: "0 \<le> peak bs ws we"
    and load_append: "load (bs @ cs) t = load bs t + load cs t"
    and load_perm: "mset bs = mset cs \<Longrightarrow> load bs t = load cs t"
    and load_nonneg: "list_all ok bs \<Longrightarrow> 0 \<le> load bs t"
begin

lemma peak_le_iff:
  assumes "list_all ok bs" "0 \<le> c"
  shows "peak bs ws we \<le> c \<longleftrightarrow> (\<forall>t. ws \<le> t \<and> t < we \<longrightarrow> load bs t \<le> c)"
  using peak_upper [of ws _ we bs] peak_attained [OF assms(1), of ws we] assms(2) by force

lemma peak_perm:
  assumes "list_all ok bs" "mset bs = mset cs"
  shows "peak bs ws we = peak cs ws we"
proof -
  have "list_all ok cs" using assms by (metis list.pred_set set_mset_mset)
  moreover have "load bs = load cs" using load_perm [OF assms(2)] by blast
  ultimately show ?thesis
    using peak_le_iff [OF assms(1)] peak_le_iff [of cs] peak_nonneg by (metis order_antisym order_refl)
qed

lemma peak_append_le:
  assumes "list_all ok bs" "list_all ok cs"
  shows "peak (bs @ cs) ws we \<le> peak bs ws we + peak cs ws we"
  using assms peak_upper [of ws _ we] peak_nonneg
  by (subst peak_le_iff) (auto simp: load_append intro: add_mono)

lemma peak_append_mono:
  assumes "list_all ok bs" "list_all ok cs"
  shows "peak bs ws we \<le> peak (bs @ cs) ws we"
proof (subst peak_le_iff [OF assms(1) peak_nonneg], safe)
  fix t assume "ws \<le> t" "t < we"
  then show "load bs t \<le> peak (bs @ cs) ws we"
    using peak_upper [of ws t we "bs @ cs"] load_nonneg [OF assms(2), of t] by (simp add: load_append)
qed

lemma peak_subwindow:
  assumes "list_all ok bs" "ws \<le> ws'" "we' \<le> we"
  shows "peak bs ws' we' \<le> peak bs ws we"
  using assms(2,3) peak_upper [of ws _ we bs] by (subst peak_le_iff [OF assms(1) peak_nonneg]) force

end

definition nonneg_guests :: "booking \<Rightarrow> bool" where
  "nonneg_guests b \<longleftrightarrow> 0 \<le> b_guests b"

lemma load_at_simps [simp]:
  "load_at [] t = 0"
  "load_at (b # bs) t = (if b_start b \<le> t \<and> t < b_end b then b_guests b else 0) + load_at bs t"
  by (simp_all add: load_at_def)

lemma load_at_append [simp]: "load_at (bs @ cs) t = load_at bs t + load_at cs t"
  by (simp add: load_at_def)

lemma load_at_perm:
  assumes "mset bs = mset cs"
  shows "load_at bs t = load_at cs t"
proof -
  define f :: "booking \<Rightarrow> int" where "f = (\<lambda>b. if b_start b \<le> t \<and> t < b_end b then b_guests b else 0)"
  have "sum_list (map f bs) = sum_mset (image_mset f (mset bs))" by (simp flip: sum_mset_sum_list)
  also have "\<dots> = sum_list (map f cs)" by (simp add: assms flip: sum_mset_sum_list)
  finally show ?thesis by (simp add: load_at_def f_def)
qed

lemma load_at_nonneg: "list_all nonneg_guests bs \<Longrightarrow> 0 \<le> load_at bs t"
  by (induction bs) (auto simp: nonneg_guests_def)

interpretation seats: peak_measure maxConcurrentInWindow load_at nonneg_guests
proof unfold_locales
  fix bs :: "booking list" and ws we :: int
  assume "list_all nonneg_guests bs"
  then show "maxConcurrentInWindow bs ws we = 0 \<or>
      (\<exists>t. ws \<le> t \<and> t < we \<and> maxConcurrentInWindow bs ws we = load_at bs t)"
    by (intro maxConcurrent_attained) (auto simp: list_all_iff nonneg_guests_def)
qed (simp_all only: maxConcurrent_upper maxConcurrent_nonneg load_at_append load_at_nonneg, rule load_at_perm)


section \<open>Units\<close>

definition unassignedOverlapping :: "booking list \<Rightarrow> ms \<Rightarrow> ms \<Rightarrow> booking list" where
  "unassignedOverlapping bs windowStart windowEnd =
     filter (\<lambda>b. b_unit b = None \<and> b_start b < windowEnd \<and> b_end b > windowStart) bs"

definition rentsWholeUnit :: "activity \<Rightarrow> bool" where
  "rentsWholeUnit a =
     (a_hasUnits a \<and> (a_bookingType a = DAILY \<or> a_pricing a = PER_UNIT))"

text \<open>Rows outside the window carry no load inside it.\<close>

lemma load_at_overlaps [capacity]:
  fixes bs :: "booking list"
  assumes "ws \<le> t" "t < we"
  shows "load_at (filter (\<lambda>b. p b \<and> overlaps ws we b) bs) t = load_at (filter p bs) t"
  using assms by (induction bs) (auto simp: overlaps_def)

lemma list_all_filter [simp]: "list_all P xs \<Longrightarrow> list_all P (filter Q xs)"
  by (auto simp: list_all_iff)

end
