(* ===== verification/Loyalty.thy ===== *)
theory Loyalty
  imports Model
begin

text \<open>
  \<open>apps/api/src/common/services/loyalty.service.ts\<close>: every change of \<open>User.loyaltyPoints\<close>. Each
  operation takes the database inside the caller's transaction and writes the balance and one
  ledger row together, or throws. The balance of a user is the sum of the ledger deltas, is kept to
  two decimals and never falls below zero.
\<close>

named_theorems loyalty \<open>facts about the points operations\<close>

section \<open>Helpers\<close>

text \<open>\<open>round2\<close> adds \<open>Number.EPSILON\<close>, which is 2 to the -52.\<close>

definition EPSILON :: num where
  "EPSILON = 1 / 4503599627370496"

definition round2 :: "num \<Rightarrow> num" where
  "round2 n = of_int (js_round ((n + EPSILON) * 100)) / 100"

definition assertPositive :: "num \<Rightarrow> exn + unit" where
  "assertPositive value = (if value \<le> 0 then Inl (BadPoints AmountNotPositive) else Inr ())"

text \<open>
  The partial unique index on \<open>(bookingId, source)\<close> of the ledger, created by the migration
  \<open>20260621000000_loyalty_ledger_unique_booking_source\<close>: a second row makes the insert throw.
\<close>

definition ledger_taken :: "db \<Rightarrow> uid option \<Rightarrow> ledger_source \<Rightarrow> bool" where
  "ledger_taken d bid src =
     (bid \<noteq> None \<and> list_ex (\<lambda>l. l_bookingId l = bid \<and> l_source l = src) (ledger d))"

definition writeLedger :: "db \<Rightarrow> ledger_row \<Rightarrow> exn + db" where
  "writeLedger tx row =
     (if l_delta row = 0 then Inl (BadPoints DeltaZero)
      else if ledger_taken tx (l_bookingId row) (l_source row) then Inl (Conflict UniqueViolation)
      else Inr (tx\<lparr>ledger := ledger tx @ [row]\<rparr>))"

text \<open>\<open>user.update\<close> with an increment, and the balance it selects; a missing user makes Prisma throw.\<close>

definition balance_of :: "db \<Rightarrow> uid \<Rightarrow> num option" where
  "balance_of d uid = map_option u_points (find_first (\<lambda>u. u_id u = uid) (users d))"

definition add_points :: "num \<Rightarrow> user \<Rightarrow> user" where
  "add_points x u = u\<lparr>u_points := u_points u + x\<rparr>"

definition increment_points :: "db \<Rightarrow> uid \<Rightarrow> num \<Rightarrow> exn + (num \<times> db)" where
  "increment_points tx uid x =
     (let tx' = tx\<lparr>users := update_many (\<lambda>u. u_id u = uid) (add_points x) (users tx)\<rparr>
      in case balance_of tx' uid of
           None \<Rightarrow> Inl (NotFound UserNotFound)
         | Some bal \<Rightarrow> Inr (bal, tx'))"

section \<open>Operations\<close>

definition redeem :: "db \<Rightarrow> uid \<Rightarrow> num \<Rightarrow> uid \<Rightarrow> exn + (num \<times> db)" where
  "redeem tx userId amount0 bookingId =
     (let amount = round2 amount0 in
      and_then (assertPositive amount) (\<lambda>_.
        let enough = (\<lambda>u. u_id u = userId \<and> u_points u \<ge> amount);
            count = count_rows enough (users tx);
            tx' = tx\<lparr>users := update_many enough (add_points (- amount)) (users tx)\<rparr>
        in if count = 0 then Inl (Conflict InsufficientPoints)
           else case balance_of tx' userId of
                  None \<Rightarrow> Inl (NotFound UserNotFound)
                | Some bal \<Rightarrow>
                    and_then (writeLedger tx' \<lparr>l_userId = userId, l_delta = - amount, l_balanceAfter = bal,
                       l_source = BOOKING_REDEEM, l_bookingId = Some bookingId,
                       l_actor = CUSTOMER, l_actorId = Some userId\<rparr>)
                      (\<lambda>tx''. Inr (bal, tx''))))"

definition refund :: "db \<Rightarrow> uid \<Rightarrow> num \<Rightarrow> uid \<Rightarrow> ledger_source \<Rightarrow> actor \<Rightarrow> uid option \<Rightarrow> exn + (num \<times> db)" where
  "refund tx userId amount0 bookingId source actorType actorId =
     (let amount = round2 amount0 in
      and_then (assertPositive amount) (\<lambda>_.
      and_then (increment_points tx userId amount) (\<lambda>(bal, tx').
      and_then (writeLedger tx' \<lparr>l_userId = userId, l_delta = amount, l_balanceAfter = bal,
         l_source = source, l_bookingId = Some bookingId, l_actor = actorType, l_actorId = actorId\<rparr>)
      (\<lambda>tx''. Inr (bal, tx'')))))"

definition earn :: "db \<Rightarrow> uid \<Rightarrow> num \<Rightarrow> uid \<Rightarrow> exn + (num \<times> db)" where
  "earn tx userId amount0 bookingId =
     (let amount = round2 amount0 in
      and_then (assertPositive amount) (\<lambda>_.
      and_then (increment_points tx userId amount) (\<lambda>(bal, tx').
      and_then (writeLedger tx' \<lparr>l_userId = userId, l_delta = amount, l_balanceAfter = bal,
         l_source = BOOKING_EARN, l_bookingId = Some bookingId, l_actor = SYSTEM, l_actorId = None\<rparr>)
      (\<lambda>tx''. Inr (bal, tx'')))))"

text \<open>\<open>getEarnedPoints\<close>: the most recent \<open>BOOKING_EARN\<close> row of the booking.\<close>

definition getEarnedPoints :: "db \<Rightarrow> uid \<Rightarrow> num" where
  "getEarnedPoints tx bookingId =
     (case find_first (\<lambda>l. l_bookingId l = Some bookingId \<and> l_source l = BOOKING_EARN) (rev (ledger tx)) of
        Some row \<Rightarrow> l_delta row
      | None \<Rightarrow> 0)"

definition computeEarnedPoints :: "num \<Rightarrow> num \<Rightarrow> num \<Rightarrow> num" where
  "computeEarnedPoints totalPrice pointsDiscount pointsPerQar =
     (if pointsPerQar \<le> 0 then 0
      else let cashBasis = max 0 (totalPrice - pointsDiscount)
           in round2 (cashBasis * pointsPerQar))"

definition reverseAwarded :: "db \<Rightarrow> uid \<Rightarrow> num \<Rightarrow> uid \<Rightarrow> actor \<Rightarrow> uid option \<Rightarrow> exn + ((num \<times> num) \<times> db)" where
  "reverseAwarded tx userId amount bookingId actorType actorId =
     (let requestedDebit = round2 amount in
      and_then (assertPositive requestedDebit) (\<lambda>_.
        case balance_of tx userId of
          None \<Rightarrow> Inl (NotFound UserNotFound)
        | Some currentBalance \<Rightarrow>
            let actualDebit = round2 (min requestedDebit currentBalance) in
            if actualDebit \<le> 0 then Inr ((currentBalance, 0), tx)
            else
              let appliedDelta = - actualDebit in
              and_then (increment_points tx userId appliedDelta) (\<lambda>(bal, tx').
              and_then (writeLedger tx' \<lparr>l_userId = userId, l_delta = appliedDelta, l_balanceAfter = bal,
                 l_source = CANCEL_REVERSE_AWARDED, l_bookingId = Some bookingId,
                 l_actor = actorType, l_actorId = actorId\<rparr>)
              (\<lambda>tx''. Inr ((bal, appliedDelta), tx'')))))"

definition adjust :: "db \<Rightarrow> uid \<Rightarrow> num \<Rightarrow> actor \<Rightarrow> uid \<Rightarrow> exn + ((num \<times> num) \<times> db)" where
  "adjust tx userId delta0 actorType actorId =
     (let delta = round2 delta0 in
      if delta = 0 then Inl (BadPoints DeltaZero)
      else case balance_of tx userId of
          None \<Rightarrow> Inl (NotFound UserNotFound)
        | Some currentBalance \<Rightarrow>
            let appliedDelta = (if delta < 0 then - round2 (min (- delta) currentBalance) else delta) in
            and_then (increment_points tx userId appliedDelta) (\<lambda>(bal, tx').
            and_then (writeLedger tx' \<lparr>l_userId = userId, l_delta = appliedDelta, l_balanceAfter = bal,
               l_source = ADMIN_ADJUST, l_bookingId = None,
               l_actor = actorType, l_actorId = Some actorId\<rparr>)
            (\<lambda>tx''. Inr ((bal, appliedDelta), tx''))))"


section \<open>Rounding to two decimals\<close>

lemma js_round_of_int_eps:
  assumes "0 \<le> e" "e < 1 / 2"
  shows "js_round (of_int n + e) = n"
  unfolding js_round_def by (rule floor_unique) (use assms in auto)

lemma round2_id [loyalty]: "two_dp x \<Longrightarrow> round2 x = x"
proof -
  assume "two_dp x"
  then obtain n where n: "x = of_int n / 100" by (auto simp: two_dp_def)
  have "(x + EPSILON) * 100 = of_int n + EPSILON * 100" by (simp add: n algebra_simps)
  moreover have "js_round (of_int n + EPSILON * 100) = n"
    by (rule js_round_of_int_eps) (simp_all add: EPSILON_def)
  ultimately show ?thesis by (simp add: round2_def n)
qed

lemma round2_two_dp [intro!, simp, loyalty]: "two_dp (round2 x)"
  by (auto simp: round2_def two_dp_def)

lemma round2_mono [loyalty]: "x \<le> y \<Longrightarrow> round2 x \<le> round2 y"
  by (simp add: round2_def divide_right_mono js_round_mono)

lemma round2_0 [simp, loyalty]: "round2 0 = 0"
  using round2_id [of 0] by simp

lemma round2_nonneg [loyalty]: "0 \<le> x \<Longrightarrow> 0 \<le> round2 x"
  using round2_mono [of 0 x] by simp

lemma round2_le [loyalty]: "x \<le> y \<Longrightarrow> two_dp y \<Longrightarrow> round2 x \<le> y"
  using round2_mono [of x y] by (simp add: round2_id)

section \<open>The contract: one balance change, one ledger row\<close>

definition post :: "db \<Rightarrow> ledger_row \<Rightarrow> db" where
  "post d r = d\<lparr>users := update_many (\<lambda>u. u_id u = l_userId r) (add_points (l_delta r)) (users d),
                ledger := ledger d @ [r]\<rparr>"

text \<open>A posting the contract allows: it records the balance it leaves, which is not negative.\<close>

definition posting :: "db \<Rightarrow> ledger_row \<Rightarrow> bool" where
  "posting d r \<longleftrightarrow> \<not> ledger_taken d (l_bookingId r) (l_source r) \<and>
     balance_of d (l_userId r) = Some (l_balanceAfter r - l_delta r) \<and>
     l_delta r \<noteq> 0 \<and> two_dp (l_delta r) \<and> 0 \<le> l_balanceAfter r"

lemma add_points_simps [simp]:
  "u_id (add_points x u) = u_id u" "u_points (add_points x u) = u_points u + x"
  "u_email (add_points x u) = u_email u" "u_bookingOtpVerifiedAt (add_points x u) = u_bookingOtpVerifiedAt u"
  by (simp_all add: add_points_def)

lemma find_first_update [table]:
  assumes "\<And>r. k (f r) = k r"
  shows "find_first (\<lambda>r. k r = i) (update_many (\<lambda>r. k r = j) f t) =
    map_option (\<lambda>r. if i = j then f r else r) (find_first (\<lambda>r. k r = i) t)"
  by (induction t) (auto simp: assms)

lemma balance_of_post [simp, loyalty]:
  "balance_of (post d r) u =
    map_option (\<lambda>b. if u = l_userId r then b + l_delta r else b) (balance_of d u)"
  by (cases "find_first (\<lambda>v. u_id v = u) (users d)")
    (simp_all add: balance_of_def post_def find_first_update)

lemma ledger_post [simp, loyalty]: "ledger (post d r) = ledger d @ [r]"
  by (simp add: post_def)

lemma ledger_taken_None [simp]: "\<not> ledger_taken d None src"
  by (simp add: ledger_taken_def)

lemma ledger_taken_same: "ledger d = ledger d' \<Longrightarrow> ledger_taken d = ledger_taken d'"
  by (simp add: ledger_taken_def fun_eq_iff)

lemma ledger_taken_users [simp]:
  "ledger_taken (d\<lparr>users := us\<rparr>) = ledger_taken d"
  by (rule ledger_taken_same) simp

lemma ledger_taken_post [simp]:
  "ledger_taken (post d r) bid src \<longleftrightarrow>
     ledger_taken d bid src \<or> bid \<noteq> None \<and> l_bookingId r = bid \<and> l_source r = src"
  by (auto simp: ledger_taken_def)

lemma users_post_ids [simp]: "map u_id (users (post d r)) = map u_id (users d)"
  by (simp add: post_def update_many_map)

lemma increment_points_Inr [loyalty]:
  "increment_points tx u x = Inr (bal, tx') \<longleftrightarrow>
    balance_of tx u = Some (bal - x) \<and>
    tx' = tx\<lparr>users := update_many (\<lambda>r. u_id r = u) (add_points x) (users tx)\<rparr>"
  by (auto simp: increment_points_def balance_of_def find_first_update Let_def split: option.splits)

lemma increment_then_write [loyalty]:
  "and_then (increment_points tx (l_userId r) (l_delta r)) (\<lambda>(bal, tx').
     and_then (writeLedger tx' (r\<lparr>l_balanceAfter := bal\<rparr>)) (\<lambda>tx''. Inr (f bal, tx''))) = Inr (y, d)
   \<longleftrightarrow> (\<exists>bal. balance_of tx (l_userId r) = Some (bal - l_delta r) \<and> l_delta r \<noteq> 0 \<and>
         \<not> ledger_taken tx (l_bookingId r) (l_source r) \<and>
         y = f bal \<and> d = post tx (r\<lparr>l_balanceAfter := bal\<rparr>))"
  by (auto simp: and_then_Inr increment_points_Inr writeLedger_def post_def split: if_splits)

section \<open>Consistency of balances and ledger\<close>

definition ledger_sum :: "db \<Rightarrow> uid \<Rightarrow> num" where
  "ledger_sum d u = sum_rows l_delta (\<lambda>l. l_userId l = u) (ledger d)"

text \<open>Every row records a non-zero change and the balance after it, never negative.\<close>

definition rows_ok :: "ledger_row list \<Rightarrow> bool" where
  "rows_ok ls \<longleftrightarrow> (\<forall>i < length ls. let r = ls ! i in
     l_delta r \<noteq> 0 \<and> 0 \<le> l_balanceAfter r \<and>
     l_balanceAfter r = sum_rows l_delta (\<lambda>l. l_userId l = l_userId r) (take (Suc i) ls))"

definition points_ok :: "db \<Rightarrow> bool" where
  "points_ok d \<longleftrightarrow> unique_on u_id (users d) \<and> rows_ok (ledger d) \<and>
     (\<forall>u \<in> set (users d). u_points u = ledger_sum d (u_id u) \<and> 0 \<le> u_points u \<and> two_dp (u_points u))"

lemma rows_ok_append [loyalty]:
  "rows_ok (ls @ [r]) \<longleftrightarrow> rows_ok ls \<and> l_delta r \<noteq> 0 \<and> 0 \<le> l_balanceAfter r \<and>
     l_balanceAfter r = sum_rows l_delta (\<lambda>l. l_userId l = l_userId r) (ls @ [r])"
  by (simp add: rows_ok_def Let_def All_less_Suc nth_append) blast

lemma balance_of_mem [loyalty]:
  "points_ok d \<Longrightarrow> u \<in> set (users d) \<Longrightarrow> balance_of d (u_id u) = Some (u_points u)"
  by (simp add: balance_of_def points_ok_def find_first_key)

lemma balance_of_Some [loyalty]:
  assumes "points_ok d" "balance_of d u = Some b"
  shows "b = ledger_sum d u" "0 \<le> b" "two_dp b"
proof -
  obtain r where "r \<in> set (users d)" "u_id r = u" "u_points r = b"
    using assms(2) by (auto simp: balance_of_def dest: find_first_Some)
  then show "b = ledger_sum d u" "0 \<le> b" "two_dp b"
    using assms(1) by (auto simp: points_ok_def)
qed

lemma post_points_ok [loyalty]:
  assumes ok: "points_ok d" and p: "posting d r"
  shows "points_ok (post d r)"
proof -
  let ?b = "l_balanceAfter r - l_delta r"
  have b: "balance_of d (l_userId r) = Some ?b" using p by (simp add: posting_def)
  note bal = balance_of_Some [OF ok b]
  have sum: "l_balanceAfter r = ledger_sum (post d r) (l_userId r)"
    using bal(1) by (simp add: ledger_sum_def)
  have "u_points u = ledger_sum (post d r) (u_id u) \<and> 0 \<le> u_points u \<and> two_dp (u_points u)"
    if u: "u \<in> set (users (post d r))" for u
  proof -
    obtain v where v: "v \<in> set (users d)" "u = (if u_id v = l_userId r then add_points (l_delta r) v else v)"
      using u by (auto simp: post_def update_many_mem)
    have vok: "u_points v = ledger_sum d (u_id v)" "0 \<le> u_points v" "two_dp (u_points v)"
      using ok v(1) by (auto simp: points_ok_def)
    show ?thesis
    proof (cases "u_id v = l_userId r")
      case True
      then have "u_points v = ?b" using vok(1) bal(1) by simp
      then have "u_points u = l_balanceAfter r" using True v(2) by simp
      moreover have "two_dp (u_points v + l_delta r)" using vok p by (auto simp: posting_def)
      ultimately show ?thesis using True v(2) p sum by (auto simp: posting_def)
    next
      case False
      then show ?thesis using v(2) vok by (simp add: ledger_sum_def)
    qed
  qed
  moreover have "rows_ok (ledger (post d r))"
    using ok p sum by (simp add: points_ok_def posting_def rows_ok_append ledger_sum_def)
  moreover have "unique_on u_id (users (post d r))"
    using ok by (simp add: points_ok_def unique_on_def)
  ultimately show ?thesis unfolding points_ok_def by blast
qed


section \<open>Every operation is a posting\<close>

lemma unique_update_points:
  assumes "unique_on u_id t" "u \<in> set t" "q u"
  shows "update_many (\<lambda>v. u_id v = u_id u \<and> q v) f t = update_many (\<lambda>v. u_id v = u_id u) f t"
  unfolding update_many_def
  by (rule map_cong) (use assms in \<open>auto dest: unique_onD\<close>)

abbreviation redeem_row :: "uid \<Rightarrow> num \<Rightarrow> uid \<Rightarrow> num \<Rightarrow> ledger_row" where
  "redeem_row u a b bal \<equiv> \<lparr>l_userId = u, l_delta = - a, l_balanceAfter = bal,
     l_source = BOOKING_REDEEM, l_bookingId = Some b, l_actor = CUSTOMER, l_actorId = Some u\<rparr>"

lemma redeem_cases [loyalty]:
  assumes ok: "points_ok tx"
  shows "redeem tx u a0 b =
    (let a = round2 a0 in
     if a \<le> 0 then Inl (BadPoints AmountNotPositive)
     else case balance_of tx u of
            None \<Rightarrow> Inl (Conflict InsufficientPoints)
          | Some bal \<Rightarrow> if bal < a then Inl (Conflict InsufficientPoints)
                        else if ledger_taken tx (Some b) BOOKING_REDEEM then Inl (Conflict UniqueViolation)
                        else Inr (bal - a, post tx (redeem_row u a b (bal - a))))"
proof (cases "find_first (\<lambda>v. u_id v = u) (users tx)")
  case None
  then have "count_rows (\<lambda>v. u_id v = u \<and> round2 a0 \<le> u_points v) (users tx) = 0"
    by (auto simp: find_first_None count_rows_0)
  then show ?thesis using None by (simp add: redeem_def assertPositive_def balance_of_def Let_def)
next
  case (Some v)
  then have v: "v \<in> set (users tx)" "u_id v = u" by (auto dest: find_first_Some)
  have uq: "unique_on u_id (users tx)" using ok by (simp add: points_ok_def)
  have other: "w = v" if "w \<in> set (users tx)" "u_id w = u" for w
    using unique_onD [OF uq that(1) v(1)] that(2) v(2) by simp
  show ?thesis
  proof (cases "round2 a0 \<le> u_points v")
    case True
    then have "count_rows (\<lambda>v. u_id v = u \<and> round2 a0 \<le> u_points v) (users tx) \<noteq> 0"
      using v by (auto simp: count_rows_0)
    moreover have "update_many (\<lambda>v. u_id v = u \<and> round2 a0 \<le> u_points v) f (users tx)
        = update_many (\<lambda>v. u_id v = u) f (users tx)" for f
      using unique_update_points [OF uq v(1), of "\<lambda>v. round2 a0 \<le> u_points v"] v(2) True by simp
    ultimately show ?thesis using True Some
      by (simp add: redeem_def assertPositive_def balance_of_def find_first_update writeLedger_def
          post_def Let_def)
  next
    case False
    then have "count_rows (\<lambda>v. u_id v = u \<and> round2 a0 \<le> u_points v) (users tx) = 0"
      using other by (auto simp: count_rows_0)
    then show ?thesis using False Some
      by (simp add: redeem_def assertPositive_def balance_of_def Let_def)
  qed
qed

lemma redeem_posting [loyalty]:
  assumes "points_ok tx" "redeem tx u a b = Inr (bal, d)"
  shows "d = post tx (redeem_row u (round2 a) b bal) \<and> posting tx (redeem_row u (round2 a) b bal)"
  using assms(2) unfolding redeem_cases [OF assms(1)]
  by (auto simp: posting_def Let_def two_dp_uminus split: if_splits option.splits)

text \<open>Credits: \<open>refund\<close> and \<open>earn\<close> differ in the row they write.\<close>

definition credit_row :: "uid \<Rightarrow> num \<Rightarrow> uid \<Rightarrow> ledger_source \<Rightarrow> actor \<Rightarrow> uid option \<Rightarrow> num \<Rightarrow> ledger_row" where
  "credit_row u a b src act actId bal = \<lparr>l_userId = u, l_delta = a, l_balanceAfter = bal,
     l_source = src, l_bookingId = Some b, l_actor = act, l_actorId = actId\<rparr>"

lemma credit_row_simps [simp]:
  "l_userId (credit_row u a b src act actId bal) = u"
  "l_delta (credit_row u a b src act actId bal) = a"
  "l_balanceAfter (credit_row u a b src act actId bal) = bal"
  "l_bookingId (credit_row u a b src act actId bal) = Some b"
  "l_source (credit_row u a b src act actId bal) = src"
  by (simp_all add: credit_row_def)

lemma refund_cases [loyalty]:
  "refund tx u a0 b src act actId =
    (let a = round2 a0 in
     if a \<le> 0 then Inl (BadPoints AmountNotPositive)
     else case balance_of tx u of
            None \<Rightarrow> Inl (NotFound UserNotFound)
          | Some bal \<Rightarrow> if ledger_taken tx (Some b) src then Inl (Conflict UniqueViolation)
                        else Inr (bal + a, post tx (credit_row u a b src act actId (bal + a))))"
  by (cases "find_first (\<lambda>v. u_id v = u) (users tx)")
    (auto simp: refund_def assertPositive_def increment_points_def balance_of_def find_first_update
      writeLedger_def post_def credit_row_def Let_def)

lemma earn_eq_refund [loyalty]: "earn tx u a b = refund tx u a b BOOKING_EARN SYSTEM None"
  by (simp add: earn_def refund_def)

lemma refund_posting [loyalty]:
  assumes "points_ok tx" "refund tx u a b src act actId = Inr (bal, d)"
  shows "d = post tx (credit_row u (round2 a) b src act actId bal) \<and>
    posting tx (credit_row u (round2 a) b src act actId bal)"
  using assms(2) balance_of_Some [OF assms(1), of u] unfolding refund_cases
  by (auto simp: posting_def Let_def split: if_splits option.splits)

lemma refund_succeeds [loyalty]:
  "balance_of tx u = Some bal \<Longrightarrow> 0 < a \<Longrightarrow> two_dp a \<Longrightarrow> \<not> ledger_taken tx (Some b) src \<Longrightarrow>
   refund tx u a b src act actId = Inr (bal + a, post tx (credit_row u a b src act actId (bal + a)))"
  by (simp add: refund_cases round2_id)

lemma reverse_cases [loyalty]:
  assumes "points_ok tx"
  shows "reverseAwarded tx u a0 b act actId =
    (let req = round2 a0 in
     if req \<le> 0 then Inl (BadPoints AmountNotPositive)
     else case balance_of tx u of
            None \<Rightarrow> Inl (NotFound UserNotFound)
          | Some bal \<Rightarrow> let x = min req bal in
              if x \<le> 0 then Inr ((bal, 0), tx)
              else if ledger_taken tx (Some b) CANCEL_REVERSE_AWARDED then Inl (Conflict UniqueViolation)
              else Inr ((bal - x, - x),
                     post tx (credit_row u (- x) b CANCEL_REVERSE_AWARDED act actId (bal - x))))"
  using balance_of_Some(3) [OF assms, of u]
  by (cases "find_first (\<lambda>v. u_id v = u) (users tx)")
    (auto simp: reverseAwarded_def assertPositive_def increment_points_def balance_of_def
      find_first_update writeLedger_def post_def credit_row_def Let_def round2_id two_dp_min)

lemma reverse_posting [loyalty]:
  assumes "points_ok tx" "reverseAwarded tx u a b act actId = Inr ((bal, x), d)"
  shows "d = tx \<and> x = 0 \<or>
    d = post tx (credit_row u x b CANCEL_REVERSE_AWARDED act actId bal) \<and>
    posting tx (credit_row u x b CANCEL_REVERSE_AWARDED act actId bal)"
  using assms(2) balance_of_Some [OF assms(1), of u] unfolding reverse_cases [OF assms(1)]
  by (auto simp: posting_def Let_def two_dp_uminus two_dp_min split: if_splits option.splits)

definition adjust_row :: "uid \<Rightarrow> num \<Rightarrow> actor \<Rightarrow> uid \<Rightarrow> num \<Rightarrow> ledger_row" where
  "adjust_row u x act actId bal = \<lparr>l_userId = u, l_delta = x, l_balanceAfter = bal,
     l_source = ADMIN_ADJUST, l_bookingId = None, l_actor = act, l_actorId = Some actId\<rparr>"

lemma adjust_posting [loyalty]:
  assumes "points_ok tx" "adjust tx u dl act actId = Inr ((bal, x), d)"
  shows "d = post tx (adjust_row u x act actId bal) \<and> posting tx (adjust_row u x act actId bal) \<and>
    (if round2 dl < 0 then x = - min (- round2 dl) (bal - x) else x = round2 dl)"
proof -
  obtain b where b: "balance_of tx u = Some b"
    using assms(2) by (auto simp: adjust_def Let_def split: if_splits option.splits)
  note bal = balance_of_Some [OF assms(1) b]
  have r: "round2 (min (- round2 dl) b) = min (- round2 dl) b"
    using bal(3) by (simp add: round2_id two_dp_min two_dp_uminus)
  obtain v where "find_first (\<lambda>v. u_id v = u) (users tx) = Some v" "u_points v = b"
    using b by (auto simp: balance_of_def)
  then show ?thesis
    using assms(2) b bal r
    by (auto simp: adjust_def increment_points_def balance_of_def find_first_update writeLedger_def
        post_def posting_def adjust_row_def Let_def two_dp_min two_dp_uminus split: if_splits)
qed


section \<open>The account seen by the booking service\<close>

text \<open>
  What the booking service relies on when it takes points at creation and returns them when the
  booking ends without being consumed.
\<close>

locale points_account =
  fixes inv :: "'s \<Rightarrow> bool" and bal :: "'s \<Rightarrow> 'u \<Rightarrow> num option"
    and debit :: "'s \<Rightarrow> 'u \<Rightarrow> num \<Rightarrow> 's \<Rightarrow> bool" and credit :: "'s \<Rightarrow> 'u \<Rightarrow> num \<Rightarrow> 's \<Rightarrow> bool"
  assumes debit_inv: "inv s \<Longrightarrow> debit s u x s' \<Longrightarrow> inv s'"
    and credit_inv: "inv s \<Longrightarrow> credit s u x s' \<Longrightarrow> inv s'"
    and debit_bal: "inv s \<Longrightarrow> debit s u x s' \<Longrightarrow>
      bal s' v = map_option (\<lambda>b. if v = u then b - x else b) (bal s v)"
    and credit_bal: "inv s \<Longrightarrow> credit s u x s' \<Longrightarrow>
      bal s' v = map_option (\<lambda>b. if v = u then b + x else b) (bal s v)"
    and bal_nonneg: "inv s \<Longrightarrow> bal s u = Some b \<Longrightarrow> 0 \<le> b"
    and debit_covered: "inv s \<Longrightarrow> debit s u x s' \<Longrightarrow> \<exists>b. bal s u = Some b \<and> 0 < x \<and> x \<le> b"
begin

lemma returned_in_full:
  assumes "inv s" "debit s u x s1" "bal s2 = bal s1" "inv s2" "credit s2 u x s3"
  shows "bal s3 = bal s"
proof
  fix v
  show "bal s3 v = bal s v"
    using credit_bal [OF assms(4,5)] debit_bal [OF assms(1,2)] assms(3)
    by (cases "bal s v") auto
qed

lemma debits_bounded:
  assumes "inv s" "debit s u x s1" "debit s1 u y s2" "bal s u = Some b"
  shows "x + y \<le> b"
  using debit_bal [OF assms(1,2), of u] debit_covered [OF debit_inv [OF assms(1,2)] assms(3)] assms(4)
  by auto

end

definition redeems :: "uid \<Rightarrow> db \<Rightarrow> uid \<Rightarrow> num \<Rightarrow> db \<Rightarrow> bool" where
  "redeems b d u x d' \<longleftrightarrow> two_dp x \<and> (\<exists>bal. redeem d u x b = Inr (bal, d'))"

definition refunds :: "uid \<Rightarrow> ledger_source \<Rightarrow> actor \<Rightarrow> uid option \<Rightarrow> db \<Rightarrow> uid \<Rightarrow> num \<Rightarrow> db \<Rightarrow> bool" where
  "refunds b src act actId d u x d' \<longleftrightarrow> two_dp x \<and> (\<exists>bal. refund d u x b src act actId = Inr (bal, d'))"

interpretation points: points_account points_ok balance_of "redeems b" "refunds b src act actId"
  for b src act actId
proof unfold_locales
  fix s s' :: db and u v :: uid and x y :: num
  assume ok: "points_ok s"
  show "balance_of s u = Some y \<Longrightarrow> 0 \<le> y"
    using balance_of_Some [OF ok] by blast
  { assume "redeems b s u x s'"
    then obtain bal where x: "two_dp x" and r: "redeem s u x b = Inr (bal, s')"
      by (auto simp: redeems_def)
    note p = redeem_posting [OF ok r]
    show "points_ok s'" using p post_points_ok [OF ok] by blast
    show "balance_of s' v = map_option (\<lambda>b. if v = u then b - x else b) (balance_of s v)"
      using p by (cases "v = u") (simp_all add: round2_id [OF x])
    show "\<exists>b. balance_of s u = Some b \<and> 0 < x \<and> x \<le> b"
      using r unfolding redeem_cases [OF ok]
      by (auto simp: Let_def round2_id [OF x] split: if_splits option.splits) }
  assume "refunds b src act actId s u x s'"
  then obtain bal where x: "two_dp x" and r: "refund s u x b src act actId = Inr (bal, s')"
    by (auto simp: refunds_def)
  note p = refund_posting [OF ok r]
  show "points_ok s'" using p post_points_ok [OF ok] by blast
  show "balance_of s' v = map_option (\<lambda>b. if v = u then b + x else b) (balance_of s v)"
    using p by (cases "v = u") (simp_all add: round2_id [OF x])
qed

section \<open>Histories\<close>

inductive loyalty_step :: "db \<Rightarrow> db \<Rightarrow> bool" where
  step_redeem: "redeem d u a b = Inr (bal, d') \<Longrightarrow> loyalty_step d d'"
| step_refund: "refund d u a b src act actId = Inr (bal, d') \<Longrightarrow> loyalty_step d d'"
| step_earn: "earn d u a b = Inr (bal, d') \<Longrightarrow> loyalty_step d d'"
| step_reverse: "reverseAwarded d u a b act actId = Inr ((bal, x), d') \<Longrightarrow> loyalty_step d d'"
| step_adjust: "adjust d u a act actId' = Inr ((bal, x), d') \<Longrightarrow> loyalty_step d d'"

lemma loyalty_step_post [loyalty]:
  assumes "loyalty_step d d'" "points_ok d"
  shows "d' = d \<or> (\<exists>r. posting d r \<and> d' = post d r)"
  using assms
proof cases
  case (step_redeem u a b bal)
  then show ?thesis using redeem_posting [OF assms(2)] by blast
next
  case (step_refund u a b src act actId bal)
  then show ?thesis using refund_posting [OF assms(2)] by blast
next
  case (step_earn u a b bal)
  then show ?thesis using refund_posting [OF assms(2)] unfolding earn_eq_refund by blast
next
  case (step_reverse u a b act actId bal x)
  then show ?thesis using reverse_posting [OF assms(2)] by blast
next
  case (step_adjust u a act actId' bal x)
  then show ?thesis using adjust_posting [OF assms(2)] by blast
qed

lemma loyalty_history [loyalty]:
  assumes "loyalty_step\<^sup>*\<^sup>* d d'" "points_ok d"
  shows "points_ok d' \<and> (\<exists>rs. ledger d' = ledger d @ rs)"
  using assms
proof (induction rule: rtranclp_induct)
  case (step d1 d2)
  then obtain rs where ok: "points_ok d1" and rs: "ledger d1 = ledger d @ rs" by blast
  from loyalty_step_post [OF step.hyps(2) ok] show ?case
    using ok rs post_points_ok [OF ok] by auto
qed simp

end
