(* ===== verification/Pricing.thy ===== *)
theory Pricing
  imports Capacity Loyalty
begin

text \<open>
  What a booking costs: stages 6 to 6e and 7 of \<open>createBooking\<close>
  (\<open>apps/api/src/bookings/bookings.service.ts\<close>). Prices are summed in integer cents, a night's
  special price replaces the base price, an hourly booking is pro-rated, extras are priced from the
  activity's own list, and points reduce what the customer pays but not what the vendor earns.
\<close>

named_theorems pricing \<open>facts about amounts\<close>

section \<open>Base price\<close>

definition price_cents :: "num \<Rightarrow> int" where
  "price_cents p = js_round (p * 100)"

text \<open>\<open>nightDates\<close>: the dates of the nights from \<open>checkIn\<close>.\<close>

definition night_date :: "civil \<Rightarrow> nat \<Rightarrow> civil" where
  "night_date checkIn i = utc_date (midnight checkIn + int i * day_ms)"

definition night_dates :: "civil \<Rightarrow> nat \<Rightarrow> civil list" where
  "night_dates checkIn n = map (night_date checkIn) [0..<n]"

definition nights_between :: "civil \<Rightarrow> civil \<Rightarrow> int" where
  "nights_between checkIn checkOut =
     js_round (of_int (midnight checkOut - midnight checkIn) / of_int day_ms)"

text \<open>The active special prices of an activity on some dates, and the map a loop of \<open>set\<close> builds.\<close>

definition special_rows :: "db \<Rightarrow> uid \<Rightarrow> (civil \<Rightarrow> bool) \<Rightarrow> special_price list" where
  "special_rows tx aid sel =
     find_many (\<lambda>s. sp_activityId s = aid \<and> sp_deletedAt s = None \<and> sel (sp_date s)) (specials tx)"

definition cents_by_date :: "special_price list \<Rightarrow> civil \<Rightarrow> int option" where
  "cents_by_date rows =
     foldl (\<lambda>m s. m(sp_date s \<mapsto> price_cents (sp_price s))) (\<lambda>_. None) rows"

definition daily_total_cents :: "db \<Rightarrow> activity \<Rightarrow> civil \<Rightarrow> civil \<Rightarrow> int" where
  "daily_total_cents tx a checkIn checkOut =
     (let nights = max 1 (nights_between checkIn checkOut);
          nightDates = night_dates checkIn (nat nights);
          centsByDate = cents_by_date (special_rows tx (a_id a) (\<lambda>d. d \<in> set nightDates));
          priceCents = price_cents (a_price a)
      in foldl (\<lambda>sum d. sum + (case centsByDate d of Some c \<Rightarrow> c | None \<Rightarrow> priceCents)) 0 nightDates)"

definition hourly_total_cents :: "db \<Rightarrow> activity \<Rightarrow> civil \<Rightarrow> int \<Rightarrow> ms \<Rightarrow> ms \<Rightarrow> int" where
  "hourly_total_cents tx a date guests startDatetime endDatetime =
     (let special = find_first (\<lambda>s. sp_activityId s = a_id a \<and> sp_deletedAt s = None \<and> sp_date s = date)
                      (specials tx);
          effectiveCents = (case special of Some s \<Rightarrow> price_cents (sp_price s)
                            | None \<Rightarrow> price_cents (a_price a));
          bookedMs = endDatetime - startDatetime;
          durHours = (case a_duration a of Some n \<Rightarrow> n | None \<Rightarrow> 0);
          hoursBooked = max durHours (js_round (of_int bookedMs / of_int hour_ms));
          perPersonCount = (if a_pricing a = PER_UNIT then 1 else guests)
      in js_round (of_int (effectiveCents * hoursBooked * perPersonCount) / of_int durHours))"

section \<open>Extras\<close>

definition to_lower_char :: "char \<Rightarrow> char" where
  "to_lower_char c =
     (let n = of_char c :: nat in if 65 \<le> n \<and> n \<le> 90 then char_of (n + 32) else c)"

definition to_lower :: "string \<Rightarrow> string" where
  "to_lower s = map to_lower_char s"

definition extras_map :: "extra_service list \<Rightarrow> string \<Rightarrow> extra_service option" where
  "extras_map svcs =
     foldl (\<lambda>m svc. if x_price svc > 0 then m(to_lower (x_name svc) \<mapsto> svc) else m) (\<lambda>_. None) svcs"

definition extra_qty :: "(string \<times> int) list option \<Rightarrow> int \<Rightarrow> string \<Rightarrow> extra_service \<Rightarrow> int" where
  "extra_qty qtys guests name svc =
     (let q = (case qtys of
                 None \<Rightarrow> None
               | Some m \<Rightarrow> (case map_of m name of Some n \<Rightarrow> Some n | None \<Rightarrow> map_of m (x_name svc)))
      in if x_perPerson svc
         then (case q of Some n \<Rightarrow> min (max 1 n) guests | None \<Rightarrow> guests)
         else 1)"

text \<open>The loop over the customer's selections; \<open>seen\<close> are the keys handled so far.\<close>

fun select_extras ::
  "(string \<Rightarrow> extra_service option) \<Rightarrow> (string \<times> int) list option \<Rightarrow> int \<Rightarrow> string set \<Rightarrow> string list \<Rightarrow>
   exn + (int \<times> selected_extra list)" where
  "select_extras m qtys guests seen [] = Inr (0, [])"
| "select_extras m qtys guests seen (name # names) =
     (let key = to_lower name in
      if key \<in> seen then select_extras m qtys guests seen names
      else case m key of
             None \<Rightarrow> Inl (BadBooking ExtraNotAvailable)
           | Some svc \<Rightarrow>
               let qty = extra_qty qtys guests name svc;
                   cost = x_price svc * of_int qty
               in and_then (select_extras m qtys guests (insert key seen) names)
                    (\<lambda>(c, xs). Inr (js_round (cost * 100) + c,
                       \<lparr>s_name = x_name svc, s_price = x_price svc, s_qty = qty,
                        s_perPerson = x_perPerson svc\<rparr> # xs)))"

definition extras_stage ::
  "activity \<Rightarrow> string list option \<Rightarrow> (string \<times> int) list option \<Rightarrow> int \<Rightarrow> exn + (int \<times> selected_extra list)" where
  "extras_stage a sel qtys guests =
     (case (sel, a_extras a) of
        (Some names, Some svcs) \<Rightarrow> select_extras (extras_map svcs) qtys guests {} names
      | _ \<Rightarrow> Inr (0, []))"

section \<open>Commission\<close>

definition commission_pct :: "db \<Rightarrow> vendor \<Rightarrow> category option \<Rightarrow> num" where
  "commission_pct tx v cat =
     (case v_commissionPct v of
        Some p \<Rightarrow> p
      | None \<Rightarrow>
         (case Option.bind cat cat_commissionPct of
            Some p \<Rightarrow> p
          | None \<Rightarrow> (case defaultCommissionPct tx of Some p \<Rightarrow> p | None \<Rightarrow> 0)))"

definition commission_amount :: "num \<Rightarrow> num \<Rightarrow> num" where
  "commission_amount finalTotalPrice pct = of_int (js_round (finalTotalPrice * pct)) / 100"

section \<open>Points redemption\<close>

definition default_loyalty :: loyalty_config where
  "default_loyalty = \<lparr>lc_pointsPerQar = 1 / 100, lc_qarPerPoint = 1, lc_minRedemption = 1\<rparr>"

text \<open>\<open>findUnique\<close>, else \<open>create\<close> with the column defaults.\<close>

definition load_loyalty_config :: "db \<Rightarrow> loyalty_config \<times> db" where
  "load_loyalty_config tx =
     (case loyaltyConfig tx of
        Some c \<Rightarrow> (c, tx)
      | None \<Rightarrow> (default_loyalty, tx\<lparr>loyaltyConfig := Some default_loyalty\<rparr>))"

record redemption =
  rd_points :: num
  rd_discount :: num
  rd_fee :: num

definition redeem_stage :: "db \<Rightarrow> num option \<Rightarrow> num \<Rightarrow> num \<Rightarrow> exn + (redemption \<times> db)" where
  "redeem_stage tx redeemPoints afterCouponPrice serviceFee =
     (case redeemPoints of
        None \<Rightarrow> Inr (\<lparr>rd_points = 0, rd_discount = 0, rd_fee = serviceFee\<rparr>, tx)
      | Some pts \<Rightarrow>
        if pts \<le> 0 then Inr (\<lparr>rd_points = 0, rd_discount = 0, rd_fee = serviceFee\<rparr>, tx)
        else
          let redeemAmount = cents pts;
              (cfg, tx') = load_loyalty_config tx;
              qarPerPoint = lc_qarPerPoint cfg
          in if redeemAmount < of_int (lc_minRedemption cfg) then Inl (BadPoints BelowMinimumRedemption)
             else if qarPerPoint \<le> 0 then Inl (BadPoints RedemptionDisabled)
             else
               let rawDiscount = redeemAmount * qarPerPoint;
                   activityPrice = cents afterCouponPrice
               in if rawDiscount \<ge> activityPrice
                  then Inr (\<lparr>rd_points = cents (activityPrice / qarPerPoint),
                             rd_discount = activityPrice, rd_fee = 0\<rparr>, tx')
                  else Inr (\<lparr>rd_points = redeemAmount, rd_discount = cents rawDiscount,
                             rd_fee = serviceFee\<rparr>, tx'))"

text \<open>What remains to be paid in cash.\<close>

definition payable_amount :: "num \<Rightarrow> num \<Rightarrow> num \<Rightarrow> num" where
  "payable_amount finalTotalPrice effectiveServiceFee pointsDiscount =
     max 0 (cents (finalTotalPrice + effectiveServiceFee - pointsDiscount))"

section \<open>The base price is the sum over the nights\<close>

lemma cents_by_date_rev:
  "foldl (\<lambda>m s. m(sp_date s \<mapsto> price_cents (sp_price s))) m rows d =
    (case find_first (\<lambda>s. sp_date s = d) (rev rows) of
       Some s \<Rightarrow> Some (price_cents (sp_price s)) | None \<Rightarrow> m d)"
  by (induction rows rule: rev_induct) (auto simp: find_first_def)

lemma cents_by_date_eq [pricing]:
  "cents_by_date rows d =
    map_option (\<lambda>s. price_cents (sp_price s)) (find_first (\<lambda>s. sp_date s = d) (rev rows))"
  by (simp add: cents_by_date_def cents_by_date_rev split: option.splits)

text \<open>The price of the night of a date.\<close>

definition night_price :: "db \<Rightarrow> activity \<Rightarrow> civil \<Rightarrow> int" where
  "night_price tx a d =
     (case find_first (\<lambda>s. sp_activityId s = a_id a \<and> sp_deletedAt s = None \<and> sp_date s = d) (rev (specials tx)) of
        Some s \<Rightarrow> price_cents (sp_price s)
      | None \<Rightarrow> price_cents (a_price a))"

lemma find_first_filter [table]:
  "find_first p (filter q t) = find_first (\<lambda>r. q r \<and> p r) t"
  by (induction t) auto

lemma nights_between_eq [pricing]: "nights_between a b = day_of_civil b - day_of_civil a"
proof -
  have "of_int (midnight b - midnight a) / of_int day_ms = (of_int (day_of_civil b - day_of_civil a) :: num)"
    by (simp add: midnight_def day_ms_def field_simps)
  then show ?thesis by (simp only: nights_between_def js_round_of_int)
qed

lemma night_dates_length [simp, pricing]: "length (night_dates c n) = n"
  by (simp add: night_dates_def)

lemma night_dates_nth [pricing]: "i < n \<Longrightarrow> night_dates c n ! i = civil_of_day (day_of_civil c + int i)"
  by (simp add: night_dates_def night_date_def utc_date_def midnight_def day_ms_def)

lemma night_dates_eq [pricing]: "night_dates c n = map (\<lambda>i. civil_of_day (day_of_civil c + int i)) [0..<n]"
  by (rule nth_equalityI) (simp_all add: night_dates_nth)

lemma foldl_add_sum: "foldl (\<lambda>s d. s + f d) (c::int) ds = c + sum_list (map f ds)"
  by (induction ds arbitrary: c) auto

lemma daily_total_sum [pricing]:
  assumes "valid_civil ci" "valid_civil co" "ci < co"
  shows "daily_total_cents tx a ci co =
    (\<Sum>i \<leftarrow> [0..<nat (day_of_civil co - day_of_civil ci)]. night_price tx a (civil_of_day (day_of_civil ci + int i)))"
proof -
  have n: "max 1 (nights_between ci co) = day_of_civil co - day_of_civil ci"
    using day_of_civil_less_iff [OF assms(1,2)] assms(3) by (simp add: nights_between_eq)
  let ?ds = "night_dates ci (nat (day_of_civil co - day_of_civil ci))"
  have price: "(case cents_by_date (special_rows tx (a_id a) (\<lambda>d. d \<in> set ?ds)) d of
      Some c \<Rightarrow> c | None \<Rightarrow> price_cents (a_price a)) = night_price tx a d" if "d \<in> set ?ds" for d
  proof -
    have "find_first (\<lambda>s. sp_date s = d) (rev (special_rows tx (a_id a) (\<lambda>d. d \<in> set ?ds)))
        = find_first (\<lambda>s. sp_activityId s = a_id a \<and> sp_deletedAt s = None \<and> sp_date s = d) (rev (specials tx))"
      using that unfolding special_rows_def find_many_def rev_filter find_first_filter
      by (intro arg_cong [where f = "\<lambda>p. find_first p (rev (specials tx))"]) auto
    then show ?thesis
      by (simp add: cents_by_date_eq night_price_def split: option.splits)
  qed
  have "daily_total_cents tx a ci co = sum_list (map (\<lambda>d.
      case cents_by_date (special_rows tx (a_id a) (\<lambda>d. d \<in> set ?ds)) d of
        Some c \<Rightarrow> c | None \<Rightarrow> price_cents (a_price a)) ?ds)"
    unfolding daily_total_cents_def Let_def n by (simp add: foldl_add_sum)
  also have "\<dots> = sum_list (map (night_price tx a) ?ds)"
    using price by (intro arg_cong [where f = sum_list] map_cong) auto
  finally show ?thesis by (simp add: night_dates_eq comp_def)
qed

section \<open>Extras\<close>

definition extra_cents :: "selected_extra \<Rightarrow> int" where
  "extra_cents x = js_round (s_price x * of_int (s_qty x) * 100)"

lemma extras_map_Some:
  "foldl (\<lambda>m svc. if x_price svc > 0 then m(to_lower (x_name svc) \<mapsto> svc) else m) m svcs k = Some svc \<Longrightarrow>
   m k = Some svc \<or> svc \<in> set svcs \<and> x_price svc > 0 \<and> to_lower (x_name svc) = k"
  by (induction svcs arbitrary: m) (fastforce split: if_splits)+

lemma select_extras_ok [pricing]:
  assumes "select_extras (extras_map svcs) qtys guests seen names = Inr (c, xs)" "1 \<le> guests"
  shows "c = sum_list (map extra_cents xs) \<and> distinct (map (to_lower \<circ> s_name) xs) \<and>
    (\<forall>x \<in> set xs. to_lower (s_name x) \<notin> seen \<and> 1 \<le> s_qty x \<and> s_qty x \<le> guests \<and> 0 < s_price x \<and>
      (\<exists>svc \<in> set svcs. x_name svc = s_name x \<and> x_price svc = s_price x))"
  using assms(1)
proof (induction names arbitrary: seen c xs)
  case (Cons name names)
  let ?k = "to_lower name"
  show ?case
  proof (cases "?k \<in> seen")
    case True
    then show ?thesis using Cons by simp
  next
    case False
    then obtain svc where svc: "extras_map svcs ?k = Some svc"
      using Cons.prems by (auto simp: Let_def split: option.splits)
    then have s: "svc \<in> set svcs" "x_price svc > 0" "to_lower (x_name svc) = ?k"
      using extras_map_Some [of "\<lambda>_. None" svcs ?k svc] by (auto simp: extras_map_def)
    let ?q = "extra_qty qtys guests name svc"
    have q: "1 \<le> ?q" "?q \<le> guests" using assms(2) by (auto simp: extra_qty_def Let_def split: option.splits)
    obtain c' xs' where r: "select_extras (extras_map svcs) qtys guests (insert ?k seen) names = Inr (c', xs')"
      and cx: "c = js_round (x_price svc * of_int ?q * 100) + c'"
        "xs = \<lparr>s_name = x_name svc, s_price = x_price svc, s_qty = ?q, s_perPerson = x_perPerson svc\<rparr> # xs'"
      using Cons.prems False svc by (auto simp: Let_def and_then_Inr)
    show ?thesis using Cons.IH [OF r] s q cx False by (auto simp: extra_cents_def)
  qed
qed simp

section \<open>Redemption\<close>

lemma redeem_stage_bounds [pricing]:
  assumes r: "redeem_stage tx pts price fee = Inr (rd, tx')"
    and price: "0 \<le> price" "two_dp price"
  shows "0 \<le> rd_points rd" "0 \<le> rd_discount rd" "rd_discount rd \<le> price" "two_dp (rd_discount rd)"
    "two_dp (rd_points rd)" "rd_fee rd = fee \<or> rd_fee rd = 0 \<and> rd_discount rd = price"
  using assms
  by (auto simp: redeem_stage_def Let_def cents_id cents_nonneg split: option.splits if_splits prod.splits
      intro!: cents_nonneg cents_le mult_nonneg_nonneg divide_nonneg_nonneg)

lemma redeem_stage_db [pricing]:
  "redeem_stage tx pts price fee = Inr (rd, tx') \<Longrightarrow>
   tx' = tx \<or> loyaltyConfig tx = None \<and> tx' = tx\<lparr>loyaltyConfig := Some default_loyalty\<rparr>"
  by (auto simp: redeem_stage_def load_loyalty_config_def Let_def split: option.splits if_splits)

text \<open>Cash plus points pay exactly the price and the fee charged.\<close>

lemma payable_exact [pricing]:
  assumes "two_dp price" "two_dp fee" "two_dp disc" "disc \<le> price + fee"
  shows "payable_amount price fee disc = price + fee - disc"
proof -
  have "two_dp (price + fee - disc)" using assms(1-3) by (intro two_dp_diff two_dp_add)
  then show ?thesis using assms(4) by (simp add: payable_amount_def cents_id)
qed

text \<open>
  A price already brought to zero by a coupon: any positive redemption request the minimum allows
  takes no points and waives the fee, whatever the balance.
\<close>

lemma free_fee_waiver [pricing]:
  assumes "load_loyalty_config tx = (cfg, tx')" "of_int (lc_minRedemption cfg) \<le> cents pts" "0 < pts"
    and "0 < lc_qarPerPoint cfg"
  shows "redeem_stage tx (Some pts) 0 fee = Inr (\<lparr>rd_points = 0, rd_discount = 0, rd_fee = 0\<rparr>, tx')"
  using assms cents_nonneg [of pts] by (auto simp: redeem_stage_def Let_def not_less)

end
