(* ===== verification/Coupons.thy ===== *)
theory Coupons
  imports Model
begin

text \<open>
  Coupon accounting of \<open>apps/api/src/bookings/bookings.service.ts\<close>: a claimed voucher
  (\<open>applyVoucher\<close>, stage 6d-i of \<open>createBooking\<close>), a typed coupon code (\<open>applyCouponCode\<close>, stage
  6d-ii) and \<open>refundCouponUsage\<close>. The use counter never passes the limit, the discount never
  exceeds the price, and returning a use restores the coupon.
\<close>

named_theorems coupon_rules \<open>facts about coupon accounting\<close>

section \<open>Discount\<close>

definition coupon_discount :: "coupon \<Rightarrow> num \<Rightarrow> num" where
  "coupon_discount c totalPrice =
     (let d = (case cp_type c of
                 PERCENTAGE \<Rightarrow>
                   (let p = totalPrice * cp_value c / 100
                    in case cp_maxDiscount c of Some m \<Rightarrow> min p m | None \<Rightarrow> p)
               | FIXED \<Rightarrow> min (cp_value c) totalPrice)
      in cents d)"

text \<open>What \<open>CreateCouponDto\<close> guarantees of a coupon row.\<close>

definition coupon_wf :: "coupon \<Rightarrow> bool" where
  "coupon_wf c \<longleftrightarrow> 0 \<le> cp_value c \<and> (cp_type c = PERCENTAGE \<longrightarrow> cp_value c \<le> 100) \<and>
     (case cp_maxDiscount c of Some m \<Rightarrow> 0 \<le> m | None \<Rightarrow> True) \<and>
     (case cp_usageLimit c of Some n \<Rightarrow> 0 < n \<and> cp_usedCount c \<le> n | None \<Rightarrow> True) \<and>
     0 \<le> cp_usedCount c"

lemma coupon_discount_bounds [coupon_rules]:
  assumes "coupon_wf c" "0 \<le> t" "two_dp t"
  shows "0 \<le> coupon_discount c t" "coupon_discount c t \<le> t"
proof -
  have p: "t * cp_value c / 100 \<le> t" if "cp_value c \<le> 100"
    using mult_left_mono [OF that assms(2)] by simp
  have p0: "0 \<le> t * cp_value c / 100" using assms by (simp add: coupon_wf_def)
  show "0 \<le> coupon_discount c t"
    using assms p0 by (auto simp: coupon_discount_def coupon_wf_def Let_def
        intro!: cents_nonneg split: discount_type.splits option.splits)
  show "coupon_discount c t \<le> t"
    using assms p by (auto simp: coupon_discount_def coupon_wf_def Let_def min.coboundedI1
        intro!: cents_le split: discount_type.splits option.splits)
qed

lemma coupon_discount_two_dp [intro, simp, coupon_rules]: "two_dp (coupon_discount c t)"
  by (auto simp: coupon_discount_def Let_def)

section \<open>Counting a use\<close>

definition bump_used :: "coupon \<Rightarrow> coupon" where
  "bump_used c = c\<lparr>cp_usedCount := cp_usedCount c + 1\<rparr>"

definition set_status :: "coupon_status \<Rightarrow> coupon \<Rightarrow> coupon" where
  "set_status st c = c\<lparr>cp_status := st\<rparr>"

definition update_coupons :: "(coupon \<Rightarrow> bool) \<Rightarrow> (coupon \<Rightarrow> coupon) \<Rightarrow> db \<Rightarrow> db" where
  "update_coupons p f d = d\<lparr>coupons := update_many p f (coupons d)\<rparr>"

text \<open>
  The write both paths share: with a limit, a conditional \<open>updateMany\<close> that re-asserts it, then
  expiry at the cap; without one, a plain increment. \<open>c\<close> is the row as read before.
\<close>

definition count_use :: "db \<Rightarrow> coupon \<Rightarrow> int option \<Rightarrow> exn + db" where
  "count_use tx c limit =
     (case limit of
        None \<Rightarrow> Inr (update_coupons (\<lambda>r. cp_id r = cp_id c) bump_used tx)
      | Some n \<Rightarrow>
          let sel = (\<lambda>r. cp_id r = cp_id c \<and> cp_usedCount r < n);
              tx' = update_coupons sel bump_used tx
          in if count_rows sel (coupons tx) = 0 then Inl (BadCoupon CouponLimitReached)
             else if cp_usedCount c + 1 \<ge> n
             then Inr (update_coupons (\<lambda>r. cp_id r = cp_id c) (set_status EXPIRED) tx')
             else Inr tx')"

section \<open>Stage 6d-i: platform voucher\<close>

definition applyVoucher :: "db \<Rightarrow> uid \<Rightarrow> uid \<Rightarrow> uid \<Rightarrow> num \<Rightarrow> ms \<Rightarrow> exn + ((string \<times> num) \<times> db)" where
  "applyVoucher tx userId voucherId activityId totalPrice now =
     (case find_first (\<lambda>cl. cl_id cl = voucherId) (claimed tx) of
        None \<Rightarrow> Inl (BadCoupon VoucherNotFound)
      | Some cl \<Rightarrow>
        case find_first (\<lambda>c. cp_id c = cl_couponId cl) (coupons tx) of
          None \<Rightarrow> Inl InternalError
        | Some c \<Rightarrow>
          if cl_userId cl \<noteq> userId then Inl (BadCoupon VoucherNotYours)
          else if cl_used cl then Inl (BadCoupon VoucherUsed)
          else if cp_status c \<noteq> APPROVED then Inl (BadCoupon CouponNotActive)
          else if now > cp_validTo c then Inl (BadCoupon CouponExpired)
          else if (case cp_usageLimit c of Some n \<Rightarrow> cp_usedCount c \<ge> n | None \<Rightarrow> False)
          then Inl (BadCoupon CouponLimitReached)
          else if cp_activityIds c \<noteq> [] \<and> activityId \<notin> set (cp_activityIds c)
          then Inl (BadCoupon CouponWrongActivity)
          else if (case cp_minOrder c of Some m \<Rightarrow> totalPrice < m | None \<Rightarrow> False)
          then Inl (BadCoupon BelowMinimumOrder)
          else
            let couponDiscount = coupon_discount c totalPrice;
                couponCode = cp_code c;
                tx' = tx\<lparr>claimed := update_many (\<lambda>r. cl_id r = voucherId) (\<lambda>r. r\<lparr>cl_used := True\<rparr>) (claimed tx)\<rparr>
            in and_then (count_use tx' c (cp_usageLimit c))
                 (\<lambda>tx''. Inr ((couponCode, couponDiscount), tx'')))"

section \<open>Stage 6d-ii: typed coupon code\<close>

definition to_upper_char :: "char \<Rightarrow> char" where
  "to_upper_char c =
     (let n = of_char c :: nat in if 97 \<le> n \<and> n \<le> 122 then char_of (n - 32) else c)"

definition to_upper :: "string \<Rightarrow> string" where
  "to_upper s = map to_upper_char s"

text \<open>\<open>if (coupon.usageLimit)\<close>: a limit of zero counts as none.\<close>

definition truthy_limit :: "int option \<Rightarrow> int option" where
  "truthy_limit l = (case l of Some n \<Rightarrow> if n = 0 then None else Some n | None \<Rightarrow> None)"

text \<open>The code is already free of blanks: the DTO admits letters, digits, \<open>_\<close> and \<open>-\<close> only.\<close>

definition applyCouponCode :: "db \<Rightarrow> uid \<Rightarrow> string \<Rightarrow> activity \<Rightarrow> num \<Rightarrow> ms \<Rightarrow> exn + ((string \<times> num) \<times> db)" where
  "applyCouponCode tx userId code activity totalPrice now =
     (let codeUpper = to_upper code in
      case find_first (\<lambda>c. cp_code c = codeUpper) (coupons tx) of
        None \<Rightarrow> Inl (BadCoupon CouponInvalid)
      | Some c \<Rightarrow>
          if cp_status c \<noteq> APPROVED then Inl (BadCoupon CouponNotActive)
          else if now < cp_validFrom c then Inl (BadCoupon CouponNotYetValid)
          else if now > cp_validTo c then Inl (BadCoupon CouponExpired)
          else if (case truthy_limit (cp_usageLimit c) of Some n \<Rightarrow> cp_usedCount c \<ge> n | None \<Rightarrow> False)
          then Inl (BadCoupon CouponLimitReached)
          else if find_first (\<lambda>b. b_customerId b = userId \<and> b_couponCode b = Some codeUpper \<and>
                    b_status b \<noteq> CANCELLED) (bookings tx) \<noteq> None
          then Inl (BadCoupon CouponAlreadyUsed)
          else if (case cp_vendorId c of Some v \<Rightarrow> v \<noteq> a_vendorId activity | None \<Rightarrow> False)
          then Inl (BadCoupon CouponWrongActivity)
          else if cp_activityIds c \<noteq> [] \<and> a_id activity \<notin> set (cp_activityIds c)
          then Inl (BadCoupon CouponWrongActivity)
          else if (case cp_minOrder c of Some m \<Rightarrow> totalPrice < m | None \<Rightarrow> False)
          then Inl (BadCoupon BelowMinimumOrder)
          else
            let couponDiscount = coupon_discount c totalPrice
            in and_then (count_use tx c (truthy_limit (cp_usageLimit c)))
                 (\<lambda>tx'. Inr ((codeUpper, couponDiscount), tx')))"

section \<open>Returning a use\<close>

definition drop_used :: "coupon \<Rightarrow> coupon" where
  "drop_used c = c\<lparr>cp_usedCount := cp_usedCount c - 1\<rparr>"

definition refundCouponUsage :: "db \<Rightarrow> string option \<Rightarrow> uid \<Rightarrow> ms \<Rightarrow> db" where
  "refundCouponUsage tx couponCode customerId now =
     (case couponCode of
        None \<Rightarrow> tx
      | Some code \<Rightarrow>
        if code = '''' then tx else
        case find_first (\<lambda>c. cp_code c = code) (coupons tx) of
          None \<Rightarrow> tx
        | Some c \<Rightarrow>
            let sel = (\<lambda>r. cp_id r = cp_id c \<and> cp_usedCount r > 0);
                dec = count_rows sel (coupons tx);
                tx1 = update_coupons sel drop_used tx;
                tx2 = tx1\<lparr>claimed := update_many
                  (\<lambda>r. cl_userId r = customerId \<and> cl_couponId r = cp_id c \<and> cl_used r)
                  (\<lambda>r. r\<lparr>cl_used := False\<rparr>) (claimed tx1)\<rparr>
            in if dec > 0 \<and> cp_status c = EXPIRED \<and>
                  (case cp_usageLimit c of Some n \<Rightarrow> cp_usedCount c \<ge> n | None \<Rightarrow> False) \<and>
                  cp_validTo c > now
               then update_coupons (\<lambda>r. cp_id r = cp_id c) (set_status APPROVED) tx2
               else tx2)"


section \<open>The counter\<close>

definition coupons_ok :: "db \<Rightarrow> bool" where
  "coupons_ok d \<longleftrightarrow> unique_on cp_id (coupons d) \<and> unique_on cp_code (coupons d) \<and>
     list_all coupon_wf (coupons d)"

definition at_cap :: "int option \<Rightarrow> coupon \<Rightarrow> bool" where
  "at_cap limit c = (case limit of Some n \<Rightarrow> n \<le> cp_usedCount c | None \<Rightarrow> False)"

text \<open>The row after one use, and after a use is returned.\<close>

definition used_once :: "int option \<Rightarrow> coupon \<Rightarrow> coupon" where
  "used_once limit c =
     (if at_cap limit (bump_used c) then set_status EXPIRED (bump_used c) else bump_used c)"

definition returned_once :: "ms \<Rightarrow> coupon \<Rightarrow> coupon" where
  "returned_once now c =
     (if cp_usedCount c > 0
      then if cp_status c = EXPIRED \<and> at_cap (cp_usageLimit c) c \<and> cp_validTo c > now
           then set_status APPROVED (drop_used c) else drop_used c
      else c)"

lemma coupon_update_simps [simp]:
  "cp_id (bump_used c) = cp_id c" "cp_id (drop_used c) = cp_id c" "cp_id (set_status st c) = cp_id c"
  "cp_code (bump_used c) = cp_code c" "cp_code (drop_used c) = cp_code c" "cp_code (set_status st c) = cp_code c"
  "cp_usedCount (bump_used c) = cp_usedCount c + 1" "cp_usedCount (drop_used c) = cp_usedCount c - 1"
  "cp_usedCount (set_status st c) = cp_usedCount c" "cp_status (set_status st c) = st"
  "cp_usageLimit (bump_used c) = cp_usageLimit c" "cp_usageLimit (drop_used c) = cp_usageLimit c"
  "cp_usageLimit (set_status st c) = cp_usageLimit c"
  "cp_validTo (bump_used c) = cp_validTo c" "cp_validTo (set_status st c) = cp_validTo c"
  "set_status st (set_status st' c) = set_status st c" "drop_used (bump_used c) = c"
  "drop_used (set_status st c) = set_status st (drop_used c)"
  "cp_status c = st \<Longrightarrow> set_status st c = c" "cp_status (bump_used c) = cp_status c"
  by (simp_all add: bump_used_def drop_used_def set_status_def)

lemma used_once_keys [simp]: "cp_id (used_once l c) = cp_id c" "cp_code (used_once l c) = cp_code c"
  by (simp_all add: used_once_def)

lemma returned_once_keys [simp]: "cp_id (returned_once now c) = cp_id c" "cp_code (returned_once now c) = cp_code c"
  by (simp_all add: returned_once_def)

lemma used_once_wf [coupon_rules]:
  "coupon_wf c \<Longrightarrow> \<not> at_cap (cp_usageLimit c) c \<Longrightarrow> coupon_wf (used_once l c)"
  by (auto simp: coupon_wf_def used_once_def at_cap_def bump_used_def set_status_def split: option.splits)

lemma returned_once_wf [coupon_rules]: "coupon_wf c \<Longrightarrow> coupon_wf (returned_once now c)"
  by (auto simp: coupon_wf_def returned_once_def drop_used_def set_status_def split: option.splits)

lemma returned_used_once [coupon_rules]:
  assumes "0 \<le> cp_usedCount c" "cp_status c = APPROVED" "cp_validTo c > now" "\<not> at_cap l c"
    "l = cp_usageLimit c"
  shows "returned_once now (used_once l c) = c"
  using assms by (auto simp: returned_once_def used_once_def at_cap_def split: option.splits)

text \<open>With unique ids, updating by id rewrites exactly the row that was read.\<close>

lemma update_by_id [coupon_rules]:
  assumes "unique_on cp_id t" "c \<in> set t"
  shows "update_many (\<lambda>r. cp_id r = cp_id c \<and> q r) f t =
    update_many (\<lambda>r. cp_id r = cp_id c) (\<lambda>_. if q c then f c else c) t"
  unfolding update_many_def by (rule map_cong) (use assms in \<open>auto dest: unique_onD\<close>)

lemma update_by_id' [coupon_rules]:
  assumes "unique_on cp_id t" "c \<in> set t"
  shows "update_many (\<lambda>r. cp_id r = cp_id c) f t = update_many (\<lambda>r. cp_id r = cp_id c) (\<lambda>_. f c) t"
  using update_by_id [OF assms, of "\<lambda>_. True"] by simp

lemma update_const_twice:
  "cp_id x = cp_id c \<Longrightarrow> update_many (\<lambda>r. cp_id r = cp_id c) f (update_many (\<lambda>r. cp_id r = cp_id c) (\<lambda>_. x) t)
   = update_many (\<lambda>r. cp_id r = cp_id c) (\<lambda>_. f x) t"
  by (auto simp: update_many_def)

lemma count_use_eq [coupon_rules]:
  assumes uq: "unique_on cp_id (coupons tx)" and c: "c \<in> set (coupons tx)"
  shows "count_use tx c limit =
    (if at_cap limit c then Inl (BadCoupon CouponLimitReached)
     else Inr (update_coupons (\<lambda>r. cp_id r = cp_id c) (\<lambda>_. used_once limit c) tx))"
proof (cases limit)
  case None
  then show ?thesis
    using update_by_id' [OF uq c, of bump_used]
    by (simp add: count_use_def at_cap_def used_once_def update_coupons_def)
next
  case (Some n)
  have cnt: "count_rows (\<lambda>r. cp_id r = cp_id c \<and> cp_usedCount r < n) (coupons tx) = 0 \<longleftrightarrow> n \<le> cp_usedCount c"
    using c uq by (auto simp: count_rows_0 not_less dest: unique_onD)
  show ?thesis
    using Some cnt update_by_id [OF uq c, of "\<lambda>r. cp_usedCount r < n" bump_used]
    by (auto simp: count_use_def at_cap_def used_once_def update_coupons_def Let_def update_const_twice)
qed

lemma update_coupons_ok [coupon_rules]:
  assumes ok: "coupons_ok tx" and c: "c \<in> set (coupons tx)"
    and x: "cp_id x = cp_id c" "cp_code x = cp_code c" "coupon_wf x"
  shows "coupons_ok (update_coupons (\<lambda>r. cp_id r = cp_id c) (\<lambda>_. x) tx)"
proof -
  let ?p = "\<lambda>r. cp_id r = cp_id c" and ?t = "coupons tx"
  have same: "r = c" if "r \<in> set ?t" "?p r" for r
    using ok c that by (auto simp: coupons_ok_def dest: unique_onD)
  have "map cp_id (update_many ?p (\<lambda>_. x) ?t) = map cp_id ?t"
    "map cp_code (update_many ?p (\<lambda>_. x) ?t) = map cp_code ?t"
    using x(1,2) by (auto simp: update_many_def dest: same)
  moreover have "list_all coupon_wf (update_many ?p (\<lambda>_. x) ?t)"
    using ok x(3) by (auto simp: coupons_ok_def list_all_iff update_many_def)
  ultimately show ?thesis
    using ok by (simp add: coupons_ok_def unique_on_def update_coupons_def)
qed

section \<open>The operations over the counter\<close>

text \<open>A successful application: which coupon, the discount, and the state it leaves.\<close>

definition applied :: "db \<Rightarrow> coupon \<Rightarrow> num \<Rightarrow> ms \<Rightarrow> string \<Rightarrow> num \<Rightarrow> bool" where
  "applied tx c totalPrice now code disc \<longleftrightarrow>
     c \<in> set (coupons tx) \<and> cp_code c = code \<and> cp_status c = APPROVED \<and> now \<le> cp_validTo c \<and>
     \<not> at_cap (cp_usageLimit c) c \<and> disc = coupon_discount c totalPrice"

definition use_claimed :: "uid \<Rightarrow> db \<Rightarrow> db" where
  "use_claimed v d = d\<lparr>claimed := update_many (\<lambda>r. cl_id r = v) (\<lambda>r. r\<lparr>cl_used := True\<rparr>) (claimed d)\<rparr>"

abbreviation count_row :: "coupon \<Rightarrow> db \<Rightarrow> db" where
  "count_row c d \<equiv> update_coupons (\<lambda>r. cp_id r = cp_id c) (\<lambda>_. used_once (cp_usageLimit c) c) d"

lemma applyVoucher_Inr [coupon_rules]:
  assumes ok: "coupons_ok tx" and r: "applyVoucher tx u v a t now = Inr ((code, disc), tx')"
  shows "\<exists>c cl. applied tx c t now code disc \<and> cl \<in> set (claimed tx) \<and> cl_id cl = v \<and> cl_userId cl = u \<and>
    cl_couponId cl = cp_id c \<and> \<not> cl_used cl \<and> tx' = count_row c (use_claimed v tx)"
proof -
  obtain cl where cl: "find_first (\<lambda>cl. cl_id cl = v) (claimed tx) = Some cl"
    using r by (auto simp: applyVoucher_def split: option.splits)
  obtain c where c: "find_first (\<lambda>c. cp_id c = cl_couponId cl) (coupons tx) = Some c"
    using r cl by (auto simp: applyVoucher_def split: option.splits)
  have mem: "c \<in> set (coupons tx)" "cp_id c = cl_couponId cl" "cl \<in> set (claimed tx)" "cl_id cl = v"
    using c cl by (auto dest: find_first_Some)
  have "unique_on cp_id (coupons (use_claimed v tx))" "c \<in> set (coupons (use_claimed v tx))"
    using ok mem by (simp_all add: coupons_ok_def use_claimed_def)
  note cu = count_use_eq [OF this]
  have "applied tx c t now code disc \<and> cl_userId cl = u \<and> \<not> cl_used cl \<and> tx' = count_row c (use_claimed v tx)"
    using r mem
    by (auto simp: applyVoucher_def cl c Let_def and_then_Inr cu applied_def at_cap_def
        simp flip: use_claimed_def split: if_splits option.splits)
  then show ?thesis using mem by (intro exI [of _ c] exI [of _ cl]) simp
qed

lemma applyCouponCode_Inr [coupon_rules]:
  assumes ok: "coupons_ok tx" and r: "applyCouponCode tx u code0 a t now = Inr ((code, disc), tx')"
  shows "\<exists>c. applied tx c t now code disc \<and> code = to_upper code0 \<and> tx' = count_row c tx \<and>
    (\<forall>b \<in> set (bookings tx). b_customerId b = u \<and> b_couponCode b = Some code \<longrightarrow> b_status b = CANCELLED)"
proof -
  obtain c where c: "find_first (\<lambda>c. cp_code c = to_upper code0) (coupons tx) = Some c"
    using r by (auto simp: applyCouponCode_def Let_def split: option.splits)
  have mem: "c \<in> set (coupons tx)" "cp_code c = to_upper code0"
    using c by (auto dest: find_first_Some)
  have "unique_on cp_id (coupons tx)" and wf: "coupon_wf c"
    using ok mem by (auto simp: coupons_ok_def list_all_iff)
  note cu = count_use_eq [OF this(1) mem(1)]
  have tl: "truthy_limit (cp_usageLimit c) = cp_usageLimit c"
    using wf by (auto simp: truthy_limit_def coupon_wf_def split: option.splits)
  have "applied tx c t now code disc \<and> code = to_upper code0 \<and> tx' = count_row c tx \<and>
      (\<forall>b \<in> set (bookings tx). b_customerId b = u \<and> b_couponCode b = Some code \<longrightarrow> b_status b = CANCELLED)"
    using r mem
    by (auto simp: applyCouponCode_def c Let_def and_then_Inr cu tl applied_def at_cap_def find_first_None
        split: if_splits option.splits)
  then show ?thesis by blast
qed

lemma applied_wf [coupon_rules]:
  "coupons_ok tx \<Longrightarrow> applied tx c t now code disc \<Longrightarrow> coupon_wf c"
  by (auto simp: coupons_ok_def list_all_iff applied_def)

lemma count_row_ok [coupon_rules]:
  "coupons_ok tx \<Longrightarrow> applied tx c t now code disc \<Longrightarrow> coupons_ok (count_row c tx)"
  by (intro update_coupons_ok used_once_wf) (auto simp: applied_def coupons_ok_def list_all_iff)

lemma coupons_ok_claimed [simp]: "coupons_ok (d\<lparr>claimed := cs\<rparr>) = coupons_ok d"
  by (simp add: coupons_ok_def)

lemma coupons_ok_use_claimed [simp]: "coupons_ok (use_claimed v d) = coupons_ok d"
  by (simp add: use_claimed_def)

lemma applied_use_claimed [simp]: "applied (use_claimed v d) = applied d"
  by (simp add: applied_def use_claimed_def fun_eq_iff)

lemma applyVoucher_ok [coupon_rules]:
  "coupons_ok tx \<Longrightarrow> applyVoucher tx u v a t now = Inr (y, tx') \<Longrightarrow> coupons_ok tx'"
  using applyVoucher_Inr [of tx u v a t now "fst y" "snd y" tx'] count_row_ok [of "use_claimed v tx"]
  by auto

lemma applyCouponCode_ok [coupon_rules]:
  "coupons_ok tx \<Longrightarrow> applyCouponCode tx u code a t now = Inr (y, tx') \<Longrightarrow> coupons_ok tx'"
  using applyCouponCode_Inr [of tx u code a t now "fst y" "snd y" tx'] count_row_ok [of tx] by auto

definition unuse_claimed :: "uid \<Rightarrow> coupon \<Rightarrow> db \<Rightarrow> db" where
  "unuse_claimed u c d = d\<lparr>claimed := update_many
     (\<lambda>r. cl_userId r = u \<and> cl_couponId r = cp_id c \<and> cl_used r) (\<lambda>r. r\<lparr>cl_used := False\<rparr>) (claimed d)\<rparr>"

lemma refundCouponUsage_eq [coupon_rules]:
  assumes ok: "coupons_ok tx" and c: "c \<in> set (coupons tx)" and ne: "cp_code c \<noteq> ''''"
  shows "refundCouponUsage tx (Some (cp_code c)) u now =
    update_coupons (\<lambda>r. cp_id r = cp_id c) (\<lambda>_. returned_once now c) (unuse_claimed u c tx)"
proof -
  have uq: "unique_on cp_id (coupons tx)" using ok by (simp add: coupons_ok_def)
  have find: "find_first (\<lambda>r. cp_code r = cp_code c) (coupons tx) = Some c"
    using ok c by (simp add: coupons_ok_def find_first_key)
  have cnt: "0 < count_rows (\<lambda>r. cp_id r = cp_id c \<and> 0 < cp_usedCount r) (coupons tx) \<longleftrightarrow> 0 < cp_usedCount c"
    using c uq by (auto simp: count_rows_pos dest: unique_onD)
  show ?thesis
    using ne find cnt update_by_id [OF uq c, of "\<lambda>r. 0 < cp_usedCount r" drop_used]
    by (auto simp: refundCouponUsage_def returned_once_def at_cap_def update_coupons_def unuse_claimed_def
        Let_def update_const_twice)
qed

lemma refundCouponUsage_ok [coupon_rules]:
  assumes ok: "coupons_ok tx"
  shows "coupons_ok (refundCouponUsage tx code u now)"
proof (cases "\<exists>c. code = Some (cp_code c) \<and> c \<in> set (coupons tx) \<and> cp_code c \<noteq> ''''")
  case True
  then obtain c where c: "code = Some (cp_code c)" "c \<in> set (coupons tx)" "cp_code c \<noteq> ''''" by blast
  have "coupon_wf (returned_once now c)"
    using ok c(2) by (auto simp: coupons_ok_def list_all_iff intro: returned_once_wf)
  then show ?thesis
    using update_coupons_ok [of "unuse_claimed u c tx" c "returned_once now c"] ok c
    by (simp add: refundCouponUsage_eq unuse_claimed_def)
next
  case False
  then have "refundCouponUsage tx code u now = tx"
    by (auto simp: refundCouponUsage_def dest: find_first_Some split: option.splits)
  then show ?thesis using ok by simp
qed

text \<open>A use that is returned while the coupon is valid leaves the coupon table as it was.\<close>

lemma coupons_round_trip [coupon_rules]:
  assumes ok: "coupons_ok tx" and ap: "applied tx c t now code disc" and ne: "code \<noteq> ''''"
    and later: "cp_validTo c > now'" and cs: "coupons tx' = coupons (count_row c tx)"
  shows "coupons (refundCouponUsage tx' (Some code) u now') = coupons tx"
proof -
  let ?x = "used_once (cp_usageLimit c) c" and ?p = "\<lambda>r. cp_id r = cp_id c"
  have mem: "c \<in> set (coupons tx)" "cp_code c = code" using ap by (auto simp: applied_def)
  have ok': "coupons_ok tx'" using count_row_ok [OF ok ap] cs by (simp add: coupons_ok_def)
  have x: "?x \<in> set (coupons tx')"
    using mem(1) by (auto simp: cs update_coupons_def update_many_mem intro!: bexI [of _ c])
  have ret: "returned_once now' ?x = c"
    by (rule returned_used_once) (use ap later applied_wf [OF ok ap] in \<open>auto simp: applied_def coupon_wf_def\<close>)
  have "coupons (refundCouponUsage tx' (Some code) u now') = update_many ?p (\<lambda>_. c) (coupons tx')"
    using refundCouponUsage_eq [OF ok' x, of u now'] ret mem(2) ne
    by (simp add: update_coupons_def unuse_claimed_def)
  also have "\<dots> = update_many ?p (\<lambda>_. c) (coupons tx)"
    by (simp add: cs update_coupons_def update_const_twice)
  also have "\<dots> = coupons tx"
    using ok mem(1) by (auto simp: update_many_def coupons_ok_def intro!: map_idI dest: unique_onD)
  finally show ?thesis .
qed

end
