(* ===== verification/Locks.thy ===== *)
theory Locks
  imports Model
begin

text \<open>
  \<open>apps/api/src/redis/redis-lock.service.ts\<close>: the distributed lock over Redis \<open>SET NX PX\<close> with a
  token per holder. The booking path acquires fail-open, the cron leader election fail-closed; a
  release frees the key only for the token that holds it.
\<close>

section \<open>Redis\<close>

text \<open>\<open>buildSlotKey\<close>: \<open>booking_lock:{activityId}:{date}:{slot}:{unit}\<close>; cron locks are named, a payment
  is locked by its id, and a duplicate-capture alert is marked by payment and transaction.\<close>

datatype slot = SlotTime hm | DailySlot

datatype lock_key =
  BookingLock uid civil slot "nat option"
| CronLock string
| PaymentLock uid
| DupCapture uid string

definition buildSlotKey :: "uid \<Rightarrow> civil \<Rightarrow> slot \<Rightarrow> nat option \<Rightarrow> lock_key" where
  "buildSlotKey activityId date sl unitNumber = BookingLock activityId date sl unitNumber"

text \<open>Redis keys with their expiry instant, the server clock, and whether the server answers.\<close>

record redis =
  r_store :: "lock_key \<Rightarrow> (uid \<times> ms) option"
  r_clock :: ms
  r_up :: bool

definition redis_get :: "redis \<Rightarrow> lock_key \<Rightarrow> uid option" where
  "redis_get r k = (case r_store r k of
     Some (tok, expiry) \<Rightarrow> if r_clock r < expiry then Some tok else None
   | None \<Rightarrow> None)"

text \<open>\<open>SET key token PX ttl NX\<close>: \<open>None\<close> is a connection error, \<open>Some b\<close> whether the key was set.\<close>

definition redis_set_nx :: "redis \<Rightarrow> lock_key \<Rightarrow> uid \<Rightarrow> ms \<Rightarrow> bool option \<times> redis" where
  "redis_set_nx r k tok ttl =
     (if \<not> r_up r then (None, r)
      else if redis_get r k \<noteq> None then (Some False, r)
      else (Some True, r\<lparr>r_store := (r_store r)(k \<mapsto> (tok, r_clock r + ttl))\<rparr>))"

section \<open>The service\<close>

definition acquire :: "redis \<Rightarrow> lock_key \<Rightarrow> ms \<Rightarrow> uid \<Rightarrow> uid option \<times> redis" where
  "acquire r key ttlMs token =
     (case redis_set_nx r key token ttlMs of
        (None, r') \<Rightarrow> (Some token, r')
      | (Some b, r') \<Rightarrow> (if b then Some token else None, r'))"

text \<open>The release script compares and deletes atomically.\<close>

definition release :: "redis \<Rightarrow> lock_key \<Rightarrow> uid \<Rightarrow> redis" where
  "release r key token =
     (if r_up r \<and> redis_get r key = Some token then r\<lparr>r_store := (r_store r)(key := None)\<rparr> else r)"

definition tryAcquireForLeader :: "redis \<Rightarrow> lock_key \<Rightarrow> ms \<Rightarrow> uid \<Rightarrow> uid option \<times> redis" where
  "tryAcquireForLeader r key ttlMs token =
     (case redis_set_nx r key token ttlMs of
        (None, r') \<Rightarrow> (None, r')
      | (Some b, r') \<Rightarrow> (if b then Some token else None, r'))"

text \<open>
  \<open>withLeaderLock\<close>: the body runs on the winning pod only; the lock is released whether it returns
  or throws. The body may take time and may lose its connection: it maps the world, Redis included.
\<close>

definition withLeaderLock ::
  "lock_key \<Rightarrow> ms \<Rightarrow> uid \<Rightarrow> (redis \<times> 's \<Rightarrow> (exn + 'a) \<times> redis \<times> 's) \<Rightarrow> redis \<times> 's \<Rightarrow>
   (exn + 'a option) \<times> redis \<times> 's" where
  "withLeaderLock key ttlMs token fn rs =
     (case tryAcquireForLeader (fst rs) key ttlMs token of
        (None, r') \<Rightarrow> (Inr None, r', snd rs)
      | (Some tok, r') \<Rightarrow>
          (case fn (r', snd rs) of
             (res, r'', s') \<Rightarrow> (map_sum id Some res, release r'' key tok, s')))"

section \<open>Runs of the lock server\<close>

text \<open>
  What can happen to Redis: the clock advances, the connection goes and comes, some caller sets or
  releases a key.
\<close>

datatype redis_event =
  Tick ms
| Connection bool
| SetNx lock_key uid ms
| Release lock_key uid

fun redis_step :: "redis \<Rightarrow> redis_event \<Rightarrow> redis" where
  "redis_step r (Tick dt) = r\<lparr>r_clock := r_clock r + \<bar>dt\<bar>\<rparr>"
| "redis_step r (Connection b) = r\<lparr>r_up := b\<rparr>"
| "redis_step r (SetNx k tok ttl) = snd (redis_set_nx r k tok ttl)"
| "redis_step r (Release k tok) = release r k tok"

definition redis_run :: "redis \<Rightarrow> redis_event list \<Rightarrow> redis" where
  "redis_run r es = foldl redis_step r es"

text \<open>
  The contract of a lock with owner tokens, over runs of a server: the holder stays the holder until
  its lease ends or it releases, and only one caller holds at a time.
\<close>

locale token_lock =
  fixes step :: "'s \<Rightarrow> 'e \<Rightarrow> 's" and holder :: "'s \<Rightarrow> 'k \<Rightarrow> 't option" and clock :: "'s \<Rightarrow> int"
    and lease :: "'s \<Rightarrow> 'k \<Rightarrow> int" and frees :: "'k \<Rightarrow> 't \<Rightarrow> 'e \<Rightarrow> bool"
  assumes clock_mono: "clock s \<le> clock (step s e)"
    and held: "holder s k = Some t \<Longrightarrow> clock (step s e) < lease s k \<Longrightarrow> \<not> frees k t e \<Longrightarrow>
      holder (step s e) k = Some t \<and> lease (step s e) k = lease s k"
begin

lemma clock_run: "clock s \<le> clock (foldl step s es)"
  by (induction es arbitrary: s) (auto intro: order_trans clock_mono)

lemma held_run:
  assumes "holder s k = Some t" "clock (foldl step s es) < lease s k" "list_all (\<lambda>e. \<not> frees k t e) es"
  shows "holder (foldl step s es) k = Some t \<and> lease (foldl step s es) k = lease s k"
  using assms
proof (induction es arbitrary: s)
  case (Cons e es)
  have "clock (step s e) < lease s k"
    using clock_run [of "step s e" es] Cons.prems(2) by simp
  then have "holder (step s e) k = Some t \<and> lease (step s e) k = lease s k"
    using held Cons.prems by simp
  then show ?case using Cons.IH [of "step s e"] Cons.prems by simp
qed simp

end

definition lease_of :: "redis \<Rightarrow> lock_key \<Rightarrow> ms" where
  "lease_of r k = (case r_store r k of Some (tok, expiry) \<Rightarrow> expiry | None \<Rightarrow> r_clock r)"

lemma redis_get_Some:
  "redis_get r k = Some t \<longleftrightarrow> (\<exists>x. r_store r k = Some (t, x) \<and> r_clock r < x)"
  by (auto simp: redis_get_def split: option.splits)

interpretation slots: token_lock redis_step redis_get r_clock lease_of "\<lambda>k t e. e = Release k t"
proof unfold_locales
  fix r e
  show "r_clock r \<le> r_clock (redis_step r e)"
    by (cases e) (auto simp: redis_set_nx_def release_def)
next
  fix r k t e
  assume h: "redis_get r k = Some t" and c: "r_clock (redis_step r e) < lease_of r k" and f: "e \<noteq> Release k t"
  obtain x where x: "r_store r k = Some (t, x)" "r_clock r < x"
    using h by (auto simp: redis_get_Some)
  show "redis_get (redis_step r e) k = Some t \<and> lease_of (redis_step r e) k = lease_of r k"
  proof (cases e)
    case (Release k' t')
    then show ?thesis using f x h by (cases "k' = k") (auto simp: release_def redis_get_Some lease_of_def)
  qed (use x h c in \<open>auto simp: redis_get_Some lease_of_def redis_set_nx_def\<close>)
qed

lemma acquire_taken:
  "r_up r \<Longrightarrow> redis_get r k \<noteq> None \<Longrightarrow> acquire r k ttl tok = (None, r)"
  by (simp add: acquire_def redis_set_nx_def)

lemma tryAcquire_taken:
  "redis_get r k \<noteq> None \<Longrightarrow> tryAcquireForLeader r k ttl tok = (None, r)"
  by (simp add: tryAcquireForLeader_def redis_set_nx_def split: prod.splits)

lemma acquire_holds:
  "r_up r \<Longrightarrow> 0 < ttl \<Longrightarrow> acquire r k ttl tok = (Some tok', r') \<Longrightarrow>
   tok' = tok \<and> redis_get r k = None \<and> redis_get r' k = Some tok \<and> lease_of r' k = r_clock r + ttl"
  by (auto simp: acquire_def redis_set_nx_def redis_get_def lease_of_def split: if_splits option.splits)

lemma tryAcquire_holds:
  "0 < ttl \<Longrightarrow> tryAcquireForLeader r k ttl tok = (Some tok', r') \<Longrightarrow>
   tok' = tok \<and> r_up r \<and> redis_get r k = None \<and> redis_get r' k = Some tok \<and> lease_of r' k = r_clock r + ttl"
  by (auto simp: tryAcquireForLeader_def redis_set_nx_def redis_get_def lease_of_def
      split: if_splits prod.splits option.splits)

lemma release_frees: "r_up r \<Longrightarrow> redis_get r k = Some tok \<Longrightarrow> redis_get (release r k tok) k = None"
  by (simp add: release_def redis_get_def)

lemma release_other [simp]: "redis_get r k \<noteq> Some tok \<Longrightarrow> release r k tok = r"
  by (simp add: release_def)

text \<open>While a pod holds the lock within its lease, no other pod gets it.\<close>

lemma lock_excludes:
  assumes "r_up r" "0 < ttl" "acquire r k ttl tok = (Some tok', r1)"
    and "list_all (\<lambda>e. e \<noteq> Release k tok) es" "r_clock (redis_run r1 es) < r_clock r + ttl"
    and "r_up (redis_run r1 es)"
  shows "acquire (redis_run r1 es) k ttl2 tok2 = (None, redis_run r1 es)"
proof -
  note h = acquire_holds [OF assms(1-3)]
  have "redis_get (redis_run r1 es) k = Some tok"
    using slots.held_run [of r1 k tok es] h assms(4,5) by (simp add: redis_run_def)
  then show ?thesis using acquire_taken assms(6) by simp
qed

lemma leader_excludes:
  assumes "0 < ttl" "tryAcquireForLeader r k ttl tok = (Some tok', r1)"
    and "list_all (\<lambda>e. e \<noteq> Release k tok) es" "r_clock (redis_run r1 es) < r_clock r + ttl"
  shows "withLeaderLock k ttl2 tok2 fn (redis_run r1 es, s) = (Inr None, redis_run r1 es, s)"
proof -
  note h = tryAcquire_holds [OF assms(1-2)]
  have "redis_get (redis_run r1 es) k = Some tok"
    using slots.held_run [of r1 k tok es] h assms(3,4) by (simp add: redis_run_def)
  then show ?thesis using tryAcquire_taken [of "redis_run r1 es" k] by (simp add: withLeaderLock_def)
qed

end
