(* ===== verification/CreateBooking.thy ===== *)
theory CreateBooking
  imports Pricing Coupons Locks
begin

text \<open>
  \<open>BookingsService.createBooking\<close> (\<open>apps/api/src/bookings/bookings.service.ts\<close>), stage by stage in
  the order of the source: replay of an idempotency key, request validation, the hourly or daily
  window, vendor blocks and duplicates, the slot lock, and the transaction (unit assignment,
  capacity, price, coupon, points, payment and booking rows), then what follows the commit.
\<close>

section \<open>Request and environment\<close>

text \<open>\<open>CreateBookingDto\<close>, after validation: dates and times are parsed.\<close>

record booking_dto =
  d_activityId :: uid
  d_checkInDate :: civil
  d_slotTime :: "hm option"
  d_slotEndTime :: "hm option"
  d_checkOutDate :: "civil option"
  d_guests :: int
  d_phone :: string
  d_breakdown :: "(string \<times> int) list option"
  d_extras :: "string list option"
  d_extrasQty :: "(string \<times> int) list option"
  d_couponCode :: "string option"
  d_voucherId :: "uid option"
  d_redeemPoints :: "num option"
  d_idempotencyKey :: "string option"

text \<open>
  What the handler takes from outside: the clock (read once per call), the zone database, the
  configuration, fresh identifiers, and whether the database aborts the transaction with a
  serialization failure (P2034).
\<close>

record booking_env =
  e_now :: ms
  e_tz :: tzdb
  e_maxAdvanceMonths :: int
  e_reservationMinutes :: int
  e_lockTtlMs :: ms
  e_maxSlotUnits :: int
  e_maxNights :: int
  e_dayCap :: nat
  e_ref :: string
  e_bookingId :: uid
  e_paymentId :: uid
  e_outboxId :: uid
  e_token :: uid
  e_conflict :: bool
  e_outboxFails :: bool

section \<open>Stage 1: activity, vendor, dates\<close>

definition starts_with :: "string \<Rightarrow> string \<Rightarrow> bool" where
  "starts_with s p = (take (length p) s = p)"

definition active_on :: "activity \<Rightarrow> civil \<Rightarrow> bool" where
  "active_on a date =
     (a_activeDays a = [] \<or>
      (let day = weekdayOf date in
       list_ex (\<lambda>ad. to_upper ad = day \<or> starts_with (to_upper ad) day) (a_activeDays a)))"

definition validate_request ::
  "booking_env \<Rightarrow> db \<Rightarrow> booking_dto \<Rightarrow> exn + (activity \<times> vendor \<times> country \<times> civil)" where
  "validate_request env d dto =
     (if \<not> isValidCivil (d_checkInDate dto) then Inl (BadSlot InvalidCheckIn)
      else if (case d_checkOutDate dto of Some c \<Rightarrow> \<not> isValidCivil c | None \<Rightarrow> False)
      then Inl (BadSlot InvalidCheckOut)
      else case find_first (\<lambda>a. a_id a = d_activityId dto) (activities d) of
        None \<Rightarrow> Inl (NotFound ActivityNotFound)
      | Some a \<Rightarrow>
        case (find_first (\<lambda>v. v_id v = a_vendorId a) (vendors d),
              find_first (\<lambda>c. co_id c = a_countryId a) (countries d)) of
          (Some v, Some co) \<Rightarrow>
            let today = todayInTimezone (e_tz env) (co_timezone co) (e_now env);
                maxFuture = utc_date (addMonthsClamped (e_now env) (e_maxAdvanceMonths env))
            in if a_status a \<noteq> ACT_ACTIVE then Inl (BadSlot ActivityNotBookable)
               else if v_status v \<noteq> VENDOR_ACTIVE then Inl (BadSlot VendorNotActive)
               else if d_checkInDate dto < today then Inl (BadSlot PastDate)
               else if d_checkInDate dto > maxFuture then Inl (BadSlot TooFarAhead)
               else if \<not> active_on a (d_checkInDate dto) then Inl (BadSlot InactiveDay)
               else if \<not> a_hasUnits a \<and> (case a_capacity a of Some n \<Rightarrow> n \<le> 0 | None \<Rightarrow> False)
               then Inl (BadSlot NoCapacityConfigured)
               else Inr (a, v, co, today)
        | _ \<Rightarrow> Inl (NotFound RelationNotFound))"

section \<open>Stage 4: the window\<close>

definition half_hour :: "hm \<Rightarrow> bool" where
  "half_hour t = (mi t = 0 \<or> mi t = 30)"

text \<open>The end of an hourly booking in minutes: given, or one duration after the start.\<close>

definition slot_end_mins :: "booking_env \<Rightarrow> hm option \<Rightarrow> int \<Rightarrow> int \<Rightarrow> exn + int" where
  "slot_end_mins env slotEndTime slotStartMins unitMins =
     (case slotEndTime of
        None \<Rightarrow> Inr (slotStartMins + unitMins)
      | Some t \<Rightarrow>
          let slotEndMins = toMinutes t; span = slotEndMins - slotStartMins in
          if \<not> half_hour t then Inl (BadSlot SlotEndNotHalfHour)
          else if span \<le> 0 then Inl (BadSlot SlotEndBeforeStart)
          else if span mod 60 \<noteq> 0 then Inl (BadSlot NotWholeHours)
          else if span < unitMins then Inl (BadSlot SlotTooShort)
          else if span > e_maxSlotUnits env * unitMins then Inl (BadSlot SlotTooLong)
          else Inr slotEndMins)"

definition hourly_window ::
  "booking_env \<Rightarrow> booking_dto \<Rightarrow> activity \<Rightarrow> string \<Rightarrow> civil \<Rightarrow> exn + (ms \<times> ms)" where
  "hourly_window env dto a tz today =
     (case d_slotTime dto of
        None \<Rightarrow> Inl (BadSlot SlotTimeRequired)
      | Some slotTime \<Rightarrow>
        case (a_checkIn a, a_checkOut a, a_duration a) of
          (Some ci, Some co, Some dur) \<Rightarrow>
            if dur = 0 then Inl (BadSlot ActivityConfigIncomplete)
            else if dur \<le> 0 then Inl (BadSlot DurationNotPositive)
            else if \<not> half_hour slotTime then Inl (BadSlot SlotNotHalfHour)
            else
              let slotStartMins = toMinutes slotTime; unitMins = dur * 60 in
              and_then (slot_end_mins env (d_slotEndTime dto) slotStartMins unitMins) (\<lambda>slotEndMins.
                if slotStartMins < toMinutes ci then Inl (BadSlot BeforeOpening)
                else if slotEndMins > toMinutes co then Inl (BadSlot AfterClosing)
                else if d_checkInDate dto = today \<and> slotTime \<le> nowTimeLocal (e_tz env) tz (e_now env)
                then Inl (BadSlot SlotAlreadyStarted)
                else Inr (buildDatetime (d_checkInDate dto) slotTime,
                          buildDatetime (d_checkInDate dto) (fromMinutes slotEndMins)))
        | _ \<Rightarrow> Inl (BadSlot ActivityConfigIncomplete))"

definition default_check_in :: hm where
  "default_check_in = HM 14 0"

definition default_check_out :: hm where
  "default_check_out = HM 11 0"

definition or_default :: "'a \<Rightarrow> 'a option \<Rightarrow> 'a" where
  "or_default x y = (case y of Some z \<Rightarrow> z | None \<Rightarrow> x)"

definition daily_window :: "booking_env \<Rightarrow> booking_dto \<Rightarrow> activity \<Rightarrow> exn + (ms \<times> ms)" where
  "daily_window env dto a =
     (case d_checkOutDate dto of
        None \<Rightarrow> Inl (BadSlot CheckOutRequired)
      | Some checkOutDate \<Rightarrow>
          let checkIn = midnight (d_checkInDate dto); checkOut = midnight checkOutDate;
              nights = nights_between (d_checkInDate dto) checkOutDate
          in if checkOut \<le> checkIn then Inl (BadSlot CheckOutNotAfterCheckIn)
             else if (case a_duration a of Some n \<Rightarrow> nights < n | None \<Rightarrow> False)
             then Inl (BadSlot StayTooShort)
             else if nights > e_maxNights env then Inl (BadSlot StayTooLong)
             else Inr (buildDatetime (d_checkInDate dto) (or_default default_check_in (a_checkIn a)),
                       buildDatetime checkOutDate (or_default default_check_out (a_checkOut a))))"

definition booking_window ::
  "booking_env \<Rightarrow> booking_dto \<Rightarrow> activity \<Rightarrow> string \<Rightarrow> civil \<Rightarrow> exn + (ms \<times> ms)" where
  "booking_window env dto a tz today =
     (if a_bookingType a = HOURLY then hourly_window env dto a tz today else daily_window env dto a)"

section \<open>Vendor blocks and duplicates\<close>

definition block_overlaps :: "uid \<Rightarrow> ms \<Rightarrow> ms \<Rightarrow> block \<Rightarrow> bool" where
  "block_overlaps aid s e bl =
     (bl_activityId bl = aid \<and> bl_deletedAt bl = None \<and> bl_start bl < e \<and> s < bl_end bl)"

text \<open>A daily stay is measured by the nights it consumes, an hourly one by its clock window.\<close>

definition block_window :: "booking_dto \<Rightarrow> activity \<Rightarrow> ms \<Rightarrow> ms \<Rightarrow> ms \<times> ms" where
  "block_window dto a startDatetime endDatetime =
     (if a_bookingType a = DAILY
      then (midnight (d_checkInDate dto), midnight (or_default (d_checkInDate dto) (d_checkOutDate dto)))
      else (startDatetime, endDatetime))"

definition check_blocks_and_duplicates ::
  "booking_env \<Rightarrow> db \<Rightarrow> uid \<Rightarrow> booking_dto \<Rightarrow> activity \<Rightarrow> ms \<Rightarrow> ms \<Rightarrow> exn + unit" where
  "check_blocks_and_duplicates env d userId dto a s e =
     (let (bs, be) = block_window dto a s e in
      if find_first (block_overlaps (d_activityId dto) bs be) (blocks d) \<noteq> None
      then Inl (BadSlot WindowBlocked)
      else if find_first (\<lambda>b. b_customerId b = userId \<and> b_activityId b = d_activityId dto \<and>
               b_start b = s \<and> b_end b = e \<and> activeBookingFilter (e_now env) b) (bookings d) \<noteq> None
      then Inl (Conflict DuplicateBooking)
      else Inr ())"

section \<open>Inside the transaction: units and capacity\<close>

definition window_bookings :: "booking_env \<Rightarrow> db \<Rightarrow> uid \<Rightarrow> ms \<Rightarrow> ms \<Rightarrow> booking list" where
  "window_bookings env tx aid s e =
     take (e_dayCap env)
       (find_many (\<lambda>b. b_activityId b = aid \<and> activeBookingFilter (e_now env) b \<and> overlaps s e b)
          (bookings tx))"

definition in_unit :: "nat \<Rightarrow> booking \<Rightarrow> bool" where
  "in_unit u b = (b_unit b = Some u)"

definition unit_free :: "activity \<Rightarrow> int \<Rightarrow> booking list \<Rightarrow> ms \<Rightarrow> ms \<Rightarrow> nat \<Rightarrow> bool" where
  "unit_free a guests rows s e u =
     (let orphans = unassignedOverlapping rows s e;
          unitBookings = filter (in_unit u) rows
      in if rentsWholeUnit a then unitBookings = []
         else a_unitCapacity a - maxConcurrentInWindow (unitBookings @ orphans) s e \<ge> guests)"

definition free_units :: "activity \<Rightarrow> int \<Rightarrow> booking list \<Rightarrow> ms \<Rightarrow> ms \<Rightarrow> nat list" where
  "free_units a guests rows s e = filter (unit_free a guests rows s e) [1..<a_unitCount a + 1]"

text \<open>The unit handed out and the capacity to check against; \<open>None\<close> is an unlimited capacity.\<close>

definition assign_unit ::
  "activity \<Rightarrow> int \<Rightarrow> booking list \<Rightarrow> ms \<Rightarrow> ms \<Rightarrow> exn + (nat option \<times> int option)" where
  "assign_unit a guests rows s e =
     (if a_hasUnits a \<and> a_unitCount a > 0 then
        let orphans = unassignedOverlapping rows s e;
            freeUnits = free_units a guests rows s e;
            usable = (if rentsWholeUnit a then int (length freeUnits) - int (length orphans)
                      else int (length freeUnits))
        in if usable > 0 then Inr (Some (hd freeUnits), Some (a_unitCapacity a))
           else Inl (Conflict AllUnitsBooked)
      else if a_hasUnits a then Inr (None, Some 0)
      else Inr (None, a_capacity a))"

definition check_capacity ::
  "int \<Rightarrow> booking list \<Rightarrow> nat option \<Rightarrow> int option \<Rightarrow> ms \<Rightarrow> ms \<Rightarrow> exn + unit" where
  "check_capacity guests rows resolvedUnit capacityLimit s e =
     (let finalBookings = (case resolvedUnit of Some u \<Rightarrow> filter (in_unit u) rows | None \<Rightarrow> rows);
          peakConcurrent = maxConcurrentInWindow finalBookings s e
      in case capacityLimit of
           None \<Rightarrow> Inr ()
         | Some c \<Rightarrow> if guests > c - peakConcurrent
                     then Inl (Conflict (SlotFull (Some (of_int (c - peakConcurrent))))) else Inr ())"

definition check_breakdown :: "booking_dto \<Rightarrow> exn + unit" where
  "check_breakdown dto =
     (case d_breakdown dto of
        None \<Rightarrow> Inr ()
      | Some m \<Rightarrow> if sum_list (map snd m) \<noteq> d_guests dto then Inl (BadBooking BreakdownMismatch) else Inr ())"

section \<open>Inside the transaction: price, coupon, points\<close>

definition total_price_cents :: "db \<Rightarrow> booking_dto \<Rightarrow> activity \<Rightarrow> ms \<Rightarrow> ms \<Rightarrow> int" where
  "total_price_cents tx dto a s e =
     (if a_bookingType a = DAILY
      then daily_total_cents tx a (d_checkInDate dto) (or_default (d_checkInDate dto) (d_checkOutDate dto))
      else hourly_total_cents tx a (d_checkInDate dto) (d_guests dto) s e)"

text \<open>Stage 6d: at most one of voucher and code; the code and the discount, if any.\<close>

definition coupon_stage ::
  "booking_env \<Rightarrow> db \<Rightarrow> uid \<Rightarrow> booking_dto \<Rightarrow> activity \<Rightarrow> num \<Rightarrow> exn + ((string option \<times> num) \<times> db)" where
  "coupon_stage env tx userId dto a totalPrice =
     (case (d_couponCode dto, d_voucherId dto) of
        (Some _, Some _) \<Rightarrow> Inl (BadCoupon BothCouponAndVoucher)
      | (None, Some v) \<Rightarrow>
          and_then (applyVoucher tx userId v (a_id a) totalPrice (e_now env))
            (\<lambda>((code, disc), tx'). Inr ((Some code, disc), tx'))
      | (Some code, None) \<Rightarrow>
          and_then (applyCouponCode tx userId code a totalPrice (e_now env))
            (\<lambda>((codeUpper, disc), tx'). Inr ((Some codeUpper, disc), tx'))
      | (None, None) \<Rightarrow> Inr ((None, 0), tx))"

text \<open>The amounts of a booking, as the insert uses them.\<close>

record quote =
  q_total :: num
  q_extras :: "selected_extra list"
  q_commissionPct :: num
  q_couponCode :: "string option"
  q_couponDiscount :: num
  q_final :: num
  q_points :: num
  q_pointsDiscount :: num
  q_fee :: num
  q_commission :: num
  q_payable :: num

definition price_booking ::
  "booking_env \<Rightarrow> db \<Rightarrow> uid \<Rightarrow> booking_dto \<Rightarrow> activity \<Rightarrow> vendor \<Rightarrow> country \<Rightarrow> ms \<Rightarrow> ms \<Rightarrow> exn + (quote \<times> db)" where
  "price_booking env tx userId dto a v co s e =
     and_then (extras_stage a (d_extras dto) (d_extrasQty dto) (d_guests dto)) (\<lambda>(extrasCents, extras).
     let totalPrice = of_int (total_price_cents tx dto a s e + extrasCents) / 100;
         pct = commission_pct tx v (find_first (\<lambda>c. cat_id c = a_categoryId a) (categories tx))
     in and_then (coupon_stage env tx userId dto a totalPrice) (\<lambda>((code, disc), tx1).
     let afterCouponPrice = cents (totalPrice - disc)
     in and_then (redeem_stage tx1 (d_redeemPoints dto) afterCouponPrice (co_serviceFee co)) (\<lambda>(rd, tx2).
     Inr (\<lparr>q_total = totalPrice, q_extras = extras, q_commissionPct = pct,
           q_couponCode = code, q_couponDiscount = disc, q_final = afterCouponPrice,
           q_points = rd_points rd, q_pointsDiscount = rd_discount rd, q_fee = rd_fee rd,
           q_commission = commission_amount afterCouponPrice pct,
           q_payable = payable_amount afterCouponPrice (rd_fee rd) (rd_discount rd)\<rparr>, tx2))))"

section \<open>Inside the transaction: the rows\<close>

definition new_payment :: "booking_env \<Rightarrow> string \<Rightarrow> num \<Rightarrow> payment_status \<Rightarrow> pay_method \<Rightarrow> ms option \<Rightarrow> payment" where
  "new_payment env currency amount st method paidAt =
     \<lparr>p_id = e_paymentId env, p_bookingId = None, p_amount = amount, p_currency = currency,
      p_gatewayTxnId = None, p_gatewayBasketId = None, p_gatewayErrCode = None,
      p_gatewayResponseKey = None, p_idempotencyKey = None,
      p_status = st, p_payoutStatus = UNPAID, p_bankTransferRef = None,
      p_method = method, p_paidAt = paidAt,
      p_firstInitiatedAt = None, p_initiatedAt = None, p_refundAmount = None, p_refundedAt = None,
      p_snapshot = None, p_recreatedAt = None, p_createdAt = e_now env\<rparr>"

definition new_booking ::
  "booking_env \<Rightarrow> uid \<Rightarrow> booking_dto \<Rightarrow> activity \<Rightarrow> country \<Rightarrow> nat option \<Rightarrow> ms \<Rightarrow> ms \<Rightarrow> quote \<Rightarrow>
   booking_status \<Rightarrow> ms option \<Rightarrow> booking" where
  "new_booking env userId dto a co un s e q st reserved =
     \<lparr>b_id = e_bookingId env, b_ref = e_ref env, b_activityId = d_activityId dto,
      b_vendorId = a_vendorId a, b_customerId = userId, b_unit = un, b_start = s, b_end = e,
      b_guests = d_guests dto, b_phone = d_phone dto, b_breakdown = d_breakdown dto,
      b_extras = (if q_extras q = [] then None else Some (q_extras q)),
      b_totalPrice = q_final q, b_serviceFee = q_fee q, b_commissionPct = q_commissionPct q,
      b_commissionAmount = q_commission q, b_couponCode = q_couponCode q,
      b_couponDiscount = q_couponDiscount q, b_pointsRedeemed = q_points q,
      b_pointsDiscount = q_pointsDiscount q, b_pointsAwarded = False, b_currency = co_currency co,
      b_idempotencyKey = d_idempotencyKey dto, b_status = st, b_reservedUntil = reserved,
      b_paymentId = Some (e_paymentId env), b_otpHash = None, b_otpExpiry = None, b_otpAttempts = 0,
      b_otpVerifiedAt = None, b_cancelledAt = None, b_cancelledBy = None, b_decisionAt = None,
      b_decisionBy = None, b_decisionActor = None, b_decisionNote = None, b_createdAt = e_now env\<rparr>"

text \<open>
  \<open>booking.create\<close> with the unique keys of the table (a violation is P2002, answered as a conflict),
  then the back reference \<open>payment.bookingId\<close> with the snapshot for unpaid bookings, then the debit.
\<close>

definition key_taken :: "db \<Rightarrow> booking \<Rightarrow> bool" where
  "key_taken tx b =
     list_ex (\<lambda>r. b_id r = b_id b \<or> b_ref r = b_ref b \<or>
        b_idempotencyKey b \<noteq> None \<and> b_idempotencyKey r = b_idempotencyKey b) (bookings tx)"

definition insert_booking :: "db \<Rightarrow> payment \<Rightarrow> booking \<Rightarrow> bool \<Rightarrow> exn + (booking \<times> db)" where
  "insert_booking tx p b withSnapshot =
     (if key_taken tx b then Inl (Conflict UniqueViolation)
      else
        let p' = p\<lparr>p_bookingId := Some (b_id b),
                   p_snapshot := (if withSnapshot then Some (buildBookingSnapshot b) else None)\<rparr>;
            tx' = tx\<lparr>payments := payments tx @ [p'], bookings := bookings tx @ [b]\<rparr>
        in if b_pointsRedeemed b > 0
           then and_then (redeem tx' (b_customerId b) (b_pointsRedeemed b) (b_id b)) (\<lambda>(_, tx''). Inr (b, tx''))
           else Inr (b, tx'))"

definition finalize_booking ::
  "booking_env \<Rightarrow> db \<Rightarrow> uid \<Rightarrow> booking_dto \<Rightarrow> activity \<Rightarrow> country \<Rightarrow> nat option \<Rightarrow> ms \<Rightarrow> ms \<Rightarrow> quote \<Rightarrow>
   exn + (booking \<times> db)" where
  "finalize_booking env tx userId dto a co un s e q =
     (if q_payable q \<le> 0 then
        insert_booking tx (new_payment env (co_currency co) 0 SUCCESS WANASA_POINTS (Some (e_now env)))
          (new_booking env userId dto a co un s e q CONFIRMED None) False
      else
        insert_booking tx (new_payment env (co_currency co) (q_payable q) PAY_PENDING METHOD_PENDING None)
          (new_booking env userId dto a co un s e q PENDING
             (Some (e_now env + e_reservationMinutes env * minute_ms))) True)"

section \<open>The transaction\<close>

text \<open>The result carries the capacity limit for the answer computed after the commit.\<close>

definition create_tx ::
  "booking_env \<Rightarrow> uid \<Rightarrow> booking_dto \<Rightarrow> activity \<Rightarrow> vendor \<Rightarrow> country \<Rightarrow> ms \<Rightarrow> ms \<Rightarrow> db \<Rightarrow>
   exn + ((booking \<times> int option) \<times> db)" where
  "create_tx env userId dto a v co s e tx =
     (if e_conflict env then Inl (Conflict SlotBusy) else
      let rows = window_bookings env tx (d_activityId dto) s e in
      and_then (assign_unit a (d_guests dto) rows s e) (\<lambda>(un, cap).
      and_then (check_capacity (d_guests dto) rows un cap s e) (\<lambda>_.
      and_then (check_breakdown dto) (\<lambda>_.
      and_then (price_booking env tx userId dto a v co s e) (\<lambda>(q, tx1).
      and_then (finalize_booking env tx1 userId dto a co un s e q) (\<lambda>(b, tx2).
      Inr ((b, cap), tx2)))))))"

section \<open>After the commit\<close>

definition ends_with :: "string \<Rightarrow> string \<Rightarrow> bool" where
  "ends_with s x = (length x \<le> length s \<and> drop (length s - length x) s = x)"

definition deleted_suffix :: string where
  "deleted_suffix = ''@deleted.local''"

definition seats_remaining :: "db \<Rightarrow> booking \<Rightarrow> int option \<Rightarrow> int option" where
  "seats_remaining d b cap =
     (let totalBookedNow = sum_rows b_guests (\<lambda>r. b_activityId r = b_activityId b \<and>
            (case b_unit b of Some u \<Rightarrow> b_unit r = Some u | None \<Rightarrow> True) \<and>
            b_status r \<noteq> CANCELLED \<and> overlaps (b_start b) (b_end b) r) (bookings d)
      in map_option (\<lambda>c. max 0 (c - totalBookedNow)) cap)"

text \<open>A returning customer's booking is born verified; a first-time customer is sent a code.\<close>

definition otp_after_create :: "booking_env \<Rightarrow> uid \<Rightarrow> booking \<Rightarrow> world \<Rightarrow> booking \<times> world" where
  "otp_after_create env userId b w =
     (case find_first (\<lambda>u. u_id u = userId) (users (w_db w)) of
        None \<Rightarrow> (b, w)
      | Some u \<Rightarrow>
          if b_status b \<noteq> PENDING \<or> u_email u = '''' then (b, w)
          else if u_bookingOtpVerifiedAt u \<noteq> None then
            (b\<lparr>b_otpVerifiedAt := Some (e_now env)\<rparr>,
             w\<lparr>w_db := (w_db w)\<lparr>bookings := update_many (\<lambda>r. b_id r = b_id b)
                 (\<lambda>r. r\<lparr>b_otpVerifiedAt := Some (e_now env)\<rparr>) (bookings (w_db w))\<rparr>\<rparr>)
          else (b, emit [SpawnBookingOtp (b_id b)] w))"

text \<open>Only a booking confirmed at creation notifies now; the others after their payment.\<close>

definition notify_after_create :: "booking_env \<Rightarrow> booking \<Rightarrow> world \<Rightarrow> world" where
  "notify_after_create env b w =
     (if b_status b \<noteq> CONFIRMED then w
      else
        let w1 = (case find_first (\<lambda>v. v_id v = b_vendorId b) (vendors (w_db w)) of
              None \<Rightarrow> w
            | Some v \<Rightarrow>
                let w' = emit [Notify (v_userId v) BOOKING_NEW] w in
                case find_first (\<lambda>u. u_id u = v_userId v) (users (w_db w)) of
                  None \<Rightarrow> w'
                | Some u \<Rightarrow>
                    if u_email u = '''' \<or> ends_with (u_email u) deleted_suffix \<or> e_outboxFails env then w'
                    else w'\<lparr>w_db := (w_db w')\<lparr>outbox := outbox (w_db w') @
                           [\<lparr>o_id = e_outboxId env, o_type = VENDOR_BOOKING_NOTIFICATION,
                             o_recipient = u_email u, o_bookingId = Some (b_id b),
                             o_status = OUTBOX_PENDING, o_attempts = 0, o_nextAttemptAt = e_now env,
                             o_sentAt = None, o_failedAt = None, o_createdAt = e_now env\<rparr>]\<rparr>\<rparr>)
        in emit [NotifyAdmins BOOKING_NEW] w1)"

datatype create_result =
  Existing booking
| Created booking "int option"

section \<open>createBooking\<close>

definition replayed :: "db \<Rightarrow> uid \<Rightarrow> booking_dto \<Rightarrow> booking option" where
  "replayed d userId dto =
     (case d_idempotencyKey dto of
        None \<Rightarrow> None
      | Some k \<Rightarrow> find_first (\<lambda>b. b_idempotencyKey b = Some k \<and> b_customerId b = userId) (bookings d))"

definition lock_key_of :: "booking_dto \<Rightarrow> lock_key" where
  "lock_key_of dto = buildSlotKey (d_activityId dto) (d_checkInDate dto)
     (case d_slotTime dto of Some t \<Rightarrow> SlotTime t | None \<Rightarrow> DailySlot) None"

definition createBooking ::
  "booking_env \<Rightarrow> uid \<Rightarrow> booking_dto \<Rightarrow> redis \<Rightarrow> world \<Rightarrow> (exn + create_result) \<times> redis \<times> world" where
  "createBooking env userId dto r w =
     (case replayed (w_db w) userId dto of
        Some b \<Rightarrow> (Inr (Existing b), r, w)
      | None \<Rightarrow>
        case validate_request env (w_db w) dto of
          Inl ex \<Rightarrow> (Inl ex, r, w)
        | Inr (a, v, co, today) \<Rightarrow>
          case and_then (booking_window env dto a (co_timezone co) today) (\<lambda>(s, e).
                 and_then (check_blocks_and_duplicates env (w_db w) userId dto a s e) (\<lambda>_. Inr (s, e))) of
            Inl ex \<Rightarrow> (Inl ex, r, w)
          | Inr (s, e) \<Rightarrow>
            case acquire r (lock_key_of dto) (e_lockTtlMs env) (e_token env) of
              (None, r1) \<Rightarrow> (Inl (Conflict SlotBusy), r1, w)
            | (Some tok, r1) \<Rightarrow>
                let (res, w1) = transaction (create_tx env userId dto a v co s e) w;
                    r2 = release r1 (lock_key_of dto) tok
                in case res of
                     Inl ex \<Rightarrow> (Inl ex, r2, w1)
                   | Inr (b, cap) \<Rightarrow>
                       let remaining = seats_remaining (w_db w1) b cap;
                           w2 = emit [Audit CUSTOMER userId BOOKING_CREATED (b_id b)] w1;
                           (b', w3) = otp_after_create env userId b w2;
                           w4 = notify_after_create env b' w3;
                           w5 = emit [InvalidateAvailability (d_activityId dto)] w4
                       in (Inr (Created b' remaining), r2, w5))"

end
