(* ===== verification/CreateProps.thy ===== *)
theory CreateProps
  imports CreateBooking
begin

text \<open>
  Lemmas about \<open>createBooking\<close>: what a successful call did, what a failed one leaves, that it does
  not sell a seat or a unit twice, and what the customer is charged.
\<close>

named_theorems create \<open>facts about createBooking\<close>

section \<open>What each stage writes\<close>

lemma post_tables [simp]:
  "bookings (post d r) = bookings d" "payments (post d r) = payments d" "coupons (post d r) = coupons d"
  "claimed (post d r) = claimed d" "vendors (post d r) = vendors d" "specials (post d r) = specials d"
  "activities (post d r) = activities d" "blocks (post d r) = blocks d" "outbox (post d r) = outbox d"
  by (simp_all add: post_def)

lemma update_coupons_tables [simp]:
  "bookings (update_coupons p f d) = bookings d" "payments (update_coupons p f d) = payments d"
  "users (update_coupons p f d) = users d" "ledger (update_coupons p f d) = ledger d"
  "claimed (update_coupons p f d) = claimed d" "specials (update_coupons p f d) = specials d"
  "activities (update_coupons p f d) = activities d"
  by (simp_all add: update_coupons_def)

lemma count_use_tables [create]:
  assumes "count_use tx c l = Inr tx'"
  shows "bookings tx' = bookings tx \<and> payments tx' = payments tx \<and> users tx' = users tx \<and> ledger tx' = ledger tx"
  using assms by (auto simp: count_use_def Let_def split: option.splits if_splits)

lemma applyVoucher_tables [create]:
  assumes "applyVoucher tx u v a t now = Inr (y, tx')"
  shows "bookings tx' = bookings tx \<and> payments tx' = payments tx \<and> users tx' = users tx \<and> ledger tx' = ledger tx"
  using assms
  by (fastforce simp: applyVoucher_def Let_def and_then_Inr dest: count_use_tables split: option.splits if_splits)

lemma applyCouponCode_tables [create]:
  assumes "applyCouponCode tx u c a t now = Inr (y, tx')"
  shows "bookings tx' = bookings tx \<and> payments tx' = payments tx \<and> users tx' = users tx \<and> ledger tx' = ledger tx"
  using assms
  by (fastforce simp: applyCouponCode_def Let_def and_then_Inr dest: count_use_tables split: option.splits if_splits)

lemma coupon_stage_tables [create]:
  assumes "coupon_stage env tx u dto a t = Inr (y, tx')"
  shows "bookings tx' = bookings tx \<and> payments tx' = payments tx \<and> users tx' = users tx \<and> ledger tx' = ledger tx"
  using assms applyVoucher_tables applyCouponCode_tables
  by (fastforce simp: coupon_stage_def and_then_Inr split: option.splits)

lemma redeem_stage_tables [create]:
  assumes "redeem_stage tx p t f = Inr (rd, tx')"
  shows "bookings tx' = bookings tx \<and> payments tx' = payments tx \<and> users tx' = users tx \<and> ledger tx' = ledger tx
    \<and> coupons tx' = coupons tx \<and> claimed tx' = claimed tx"
  using redeem_stage_db [OF assms] by auto

text \<open>The pieces of a quote.\<close>

lemma price_booking_Inr [create]:
  assumes "price_booking env tx u dto a v co s e = Inr (q, tx')"
  obtains xc xs code disc tx1 rd where
    "extras_stage a (d_extras dto) (d_extrasQty dto) (d_guests dto) = Inr (xc, xs)"
    "q_total q = of_int (total_price_cents tx dto a s e + xc) / 100"
    "coupon_stage env tx u dto a (q_total q) = Inr ((code, disc), tx1)"
    "redeem_stage tx1 (d_redeemPoints dto) (cents (q_total q - disc)) (co_serviceFee co) = Inr (rd, tx')"
    "q_extras q = xs" "q_couponCode q = code" "q_couponDiscount q = disc"
    "q_final q = cents (q_total q - disc)" "q_points q = rd_points rd"
    "q_pointsDiscount q = rd_discount rd" "q_fee q = rd_fee rd"
    "q_commission q = commission_amount (q_final q) (q_commissionPct q)"
    "q_payable q = payable_amount (q_final q) (q_fee q) (q_pointsDiscount q)"
  using assms by (auto simp: price_booking_def and_then_Inr Let_def)

lemma price_booking_tables [create]:
  assumes "price_booking env tx u dto a v co s e = Inr (q, tx')"
  shows "bookings tx' = bookings tx \<and> payments tx' = payments tx \<and> users tx' = users tx \<and> ledger tx' = ledger tx"
  using assms by (rule price_booking_Inr) (auto dest!: coupon_stage_tables redeem_stage_tables)

section \<open>The rows a creation adds\<close>

definition settled_payment :: "payment \<Rightarrow> booking \<Rightarrow> bool \<Rightarrow> payment" where
  "settled_payment p b withSnapshot = p\<lparr>p_bookingId := Some (b_id b),
     p_snapshot := (if withSnapshot then Some (buildBookingSnapshot b) else None)\<rparr>"

lemma redeem_tables [create]:
  assumes "redeem tx u a b = Inr (bal, tx')"
  shows "bookings tx' = bookings tx \<and> payments tx' = payments tx \<and> coupons tx' = coupons tx \<and> claimed tx' = claimed tx"
  using assms by (auto simp: redeem_def Let_def and_then_Inr writeLedger_def split: if_splits option.splits)

lemma insert_booking_Inr [create]:
  assumes "insert_booking tx p b sn = Inr (b', tx')"
  shows "b' = b \<and> \<not> key_taken tx b \<and> bookings tx' = bookings tx @ [b] \<and>
    payments tx' = payments tx @ [settled_payment p b sn] \<and>
    coupons tx' = coupons tx \<and> claimed tx' = claimed tx \<and>
    (if b_pointsRedeemed b > 0
     then \<exists>bal. redeem (tx\<lparr>payments := payments tx @ [settled_payment p b sn], bookings := bookings tx @ [b]\<rparr>)
            (b_customerId b) (b_pointsRedeemed b) (b_id b) = Inr (bal, tx')
     else users tx' = users tx \<and> ledger tx' = ledger tx)"
proof (cases "b_pointsRedeemed b > 0")
  case True
  let ?t = "tx\<lparr>payments := payments tx @ [settled_payment p b sn], bookings := bookings tx @ [b]\<rparr>"
  let ?r = "redeem ?t (b_customerId b) (b_pointsRedeemed b) (b_id b)"
  have k: "\<not> key_taken tx b" using assms by (auto simp: insert_booking_def)
  then have "and_then ?r (\<lambda>(_, tx''). Inr (b, tx'')) = Inr (b', tx')"
    using assms True by (simp add: insert_booking_def Let_def settled_payment_def)
  then obtain bal where r: "?r = Inr (bal, tx')" "b' = b" by (cases ?r) auto
  show ?thesis using True k r redeem_tables [OF r(1)] by simp
next
  case False
  then show ?thesis
    using assms by (auto simp: insert_booking_def Let_def settled_payment_def split: if_splits)
qed

lemma finalize_Inr [create]:
  assumes "finalize_booking env tx u dto a co un s e q = Inr (b, tx')"
  shows "b = new_booking env u dto a co un s e q (if q_payable q \<le> 0 then CONFIRMED else PENDING)
      (if q_payable q \<le> 0 then None else Some (e_now env + e_reservationMinutes env * minute_ms)) \<and>
    bookings tx' = bookings tx @ [b] \<and> \<not> key_taken tx b \<and>
    (\<exists>p. payments tx' = payments tx @ [p] \<and> p_id p = e_paymentId env \<and> p_bookingId p = Some (b_id b) \<and>
       p_amount p = (if q_payable q \<le> 0 then 0 else q_payable q) \<and>
       p_status p = (if q_payable q \<le> 0 then SUCCESS else PAY_PENDING) \<and>
       p_snapshot p = (if q_payable q \<le> 0 then None else Some (buildBookingSnapshot b)) \<and>
       p_gatewayBasketId p = None)"
  using assms
  by (auto simp: finalize_booking_def settled_payment_def new_payment_def
      dest!: insert_booking_Inr split: if_splits)

text \<open>The transaction, taken apart.\<close>

lemma create_tx_Inr [create]:
  assumes "create_tx env u dto a v co s e tx = Inr ((b, cap), tx')"
  obtains un q tx1 where
    "assign_unit a (d_guests dto) (window_bookings env tx (d_activityId dto) s e) s e = Inr (un, cap)"
    "check_capacity (d_guests dto) (window_bookings env tx (d_activityId dto) s e) un cap s e = Inr ()"
    "check_breakdown dto = Inr ()"
    "price_booking env tx u dto a v co s e = Inr (q, tx1)"
    "finalize_booking env tx1 u dto a co un s e q = Inr (b, tx')"
  using assms by (auto simp: create_tx_def Let_def and_then_Inr split: if_splits)

lemma new_booking_simps [simp]:
  "b_id (new_booking env u dto a co un s e q st rv) = e_bookingId env"
  "b_activityId (new_booking env u dto a co un s e q st rv) = d_activityId dto"
  "b_vendorId (new_booking env u dto a co un s e q st rv) = a_vendorId a"
  "b_customerId (new_booking env u dto a co un s e q st rv) = u"
  "b_unit (new_booking env u dto a co un s e q st rv) = un"
  "b_start (new_booking env u dto a co un s e q st rv) = s"
  "b_end (new_booking env u dto a co un s e q st rv) = e"
  "b_guests (new_booking env u dto a co un s e q st rv) = d_guests dto"
  "b_status (new_booking env u dto a co un s e q st rv) = st"
  "b_reservedUntil (new_booking env u dto a co un s e q st rv) = rv"
  "b_paymentId (new_booking env u dto a co un s e q st rv) = Some (e_paymentId env)"
  "b_totalPrice (new_booking env u dto a co un s e q st rv) = q_final q"
  "b_serviceFee (new_booking env u dto a co un s e q st rv) = q_fee q"
  "b_pointsRedeemed (new_booking env u dto a co un s e q st rv) = q_points q"
  "b_pointsDiscount (new_booking env u dto a co un s e q st rv) = q_pointsDiscount q"
  "b_couponCode (new_booking env u dto a co un s e q st rv) = q_couponCode q"
  "b_couponDiscount (new_booking env u dto a co un s e q st rv) = q_couponDiscount q"
  "b_commissionAmount (new_booking env u dto a co un s e q st rv) = q_commission q"
  "b_commissionPct (new_booking env u dto a co un s e q st rv) = q_commissionPct q"
  "b_idempotencyKey (new_booking env u dto a co un s e q st rv) = d_idempotencyKey dto"
  "b_pointsAwarded (new_booking env u dto a co un s e q st rv) = False"
  "b_ref (new_booking env u dto a co un s e q st rv) = e_ref env"
  by (simp_all add: new_booking_def)

section \<open>After the commit\<close>

definition stamp_otp :: "ms \<Rightarrow> booking \<Rightarrow> booking" where
  "stamp_otp t = b_otpVerifiedAt_update (\<lambda>_. Some t)"

lemma stamp_otp_simps [simp]:
  "b_id (stamp_otp t b) = b_id b" "b_activityId (stamp_otp t b) = b_activityId b"
  "b_unit (stamp_otp t b) = b_unit b" "b_start (stamp_otp t b) = b_start b" "b_end (stamp_otp t b) = b_end b"
  "b_guests (stamp_otp t b) = b_guests b" "b_status (stamp_otp t b) = b_status b"
  "b_reservedUntil (stamp_otp t b) = b_reservedUntil b" "b_customerId (stamp_otp t b) = b_customerId b"
  "b_idempotencyKey (stamp_otp t b) = b_idempotencyKey b" "b_paymentId (stamp_otp t b) = b_paymentId b"
  "b_totalPrice (stamp_otp t b) = b_totalPrice b" "b_serviceFee (stamp_otp t b) = b_serviceFee b"
  "b_pointsRedeemed (stamp_otp t b) = b_pointsRedeemed b" "b_pointsDiscount (stamp_otp t b) = b_pointsDiscount b"
  "b_couponCode (stamp_otp t b) = b_couponCode b" "b_vendorId (stamp_otp t b) = b_vendorId b"
  "b_couponDiscount (stamp_otp t b) = b_couponDiscount b"
  by (simp_all add: stamp_otp_def)

text \<open>What follows the commit touches the verification stamp of the new row and the outbox only.\<close>

definition same_but_otp :: "booking_env \<Rightarrow> booking \<Rightarrow> db \<Rightarrow> booking \<Rightarrow> db \<Rightarrow> bool" where
  "same_but_otp env b d b' d' \<longleftrightarrow>
     (b' = b \<and> bookings d' = bookings d \<or>
      b' = stamp_otp (e_now env) b \<and>
      bookings d' = update_many (\<lambda>r. b_id r = b_id b) (stamp_otp (e_now env)) (bookings d)) \<and>
     payments d' = payments d \<and> users d' = users d \<and> ledger d' = ledger d \<and> coupons d' = coupons d \<and>
     claimed d' = claimed d"

lemma otp_after_create_same [create]:
  "otp_after_create env u b w = (b', w') \<Longrightarrow> same_but_otp env b (w_db w) b' (w_db w')"
  by (auto simp: otp_after_create_def same_but_otp_def stamp_otp_def split: option.splits if_splits)

lemma notify_after_create_db [create]:
  "bookings (w_db (notify_after_create env b w)) = bookings (w_db w)"
  "payments (w_db (notify_after_create env b w)) = payments (w_db w)"
  "users (w_db (notify_after_create env b w)) = users (w_db w)"
  "ledger (w_db (notify_after_create env b w)) = ledger (w_db w)"
  "coupons (w_db (notify_after_create env b w)) = coupons (w_db w)"
  "claimed (w_db (notify_after_create env b w)) = claimed (w_db w)"
  by (simp_all add: notify_after_create_def Let_def split: option.split)

text \<open>A successful creation, taken apart.\<close>

lemma createBooking_Created [create]:
  assumes "createBooking env u dto r w = (Inr (Created b rem), r', w')"
  obtains a v co today s e r1 tok b0 cap d where
    "replayed (w_db w) u dto = None"
    "validate_request env (w_db w) dto = Inr (a, v, co, today)"
    "booking_window env dto a (co_timezone co) today = Inr (s, e)"
    "check_blocks_and_duplicates env (w_db w) u dto a s e = Inr ()"
    "acquire r (lock_key_of dto) (e_lockTtlMs env) (e_token env) = (Some tok, r1)"
    "create_tx env u dto a v co s e (w_db w) = Inr ((b0, cap), d)"
    "same_but_otp env b0 d b (w_db w')" "r' = release r1 (lock_key_of dto) tok"
proof -
  have rp: "replayed (w_db w) u dto = None"
    using assms by (auto simp: createBooking_def split: option.splits)
  obtain a v co today where vr: "validate_request env (w_db w) dto = Inr (a, v, co, today)"
    using assms rp by (auto simp: createBooking_def split: sum.splits)
  let ?m = "and_then (booking_window env dto a (co_timezone co) today) (\<lambda>(s, e).
      and_then (check_blocks_and_duplicates env (w_db w) u dto a s e) (\<lambda>_. Inr (s, e)))"
  obtain s e where m: "?m = Inr (s, e)"
    using assms rp vr by (cases ?m) (auto simp: createBooking_def)
  then have bw: "booking_window env dto a (co_timezone co) today = Inr (s, e)"
    "check_blocks_and_duplicates env (w_db w) u dto a s e = Inr ()"
    by (auto simp: and_then_Inr)
  obtain tok r1 where ac: "acquire r (lock_key_of dto) (e_lockTtlMs env) (e_token env) = (Some tok, r1)"
    using assms rp vr m
    by (cases "acquire r (lock_key_of dto) (e_lockTtlMs env) (e_token env)"; cases "fst (acquire r (lock_key_of dto) (e_lockTtlMs env) (e_token env))")
      (auto simp: createBooking_def)
  obtain res w1 where tr: "transaction (create_tx env u dto a v co s e) w = (res, w1)"
    by (cases "transaction (create_tx env u dto a v co s e) w")
  obtain b0 cap where res: "res = Inr (b0, cap)"
    using assms rp vr m ac tr by (cases res) (auto simp: createBooking_def)
  obtain d where d: "create_tx env u dto a v co s e (w_db w) = Inr ((b0, cap), d)" "w1 = w\<lparr>w_db := d\<rparr>"
    using tr unfolding res transaction_Inr by blast
  obtain b' w3 where o: "otp_after_create env u b0 (emit [Audit CUSTOMER u BOOKING_CREATED (b_id b0)] w1) = (b', w3)"
    by (cases "otp_after_create env u b0 (emit [Audit CUSTOMER u BOOKING_CREATED (b_id b0)] w1)")
  have fin: "b = b'" "w' = emit [InvalidateAvailability (d_activityId dto)] (notify_after_create env b' w3)"
    "r' = release r1 (lock_key_of dto) tok"
    using assms rp vr m ac tr res o by (auto simp: createBooking_def)
  have "same_but_otp env b0 d b (w_db w')"
    using otp_after_create_same [OF o] d(2) fin
    by (simp add: same_but_otp_def notify_after_create_db)
  then show thesis using that rp vr bw ac d(1) fin by blast
qed

section \<open>Seats are not oversold\<close>

definition active_rows :: "db \<Rightarrow> ms \<Rightarrow> uid \<Rightarrow> booking list" where
  "active_rows d now aid = filter (\<lambda>b. b_activityId b = aid \<and> activeBookingFilter now b) (bookings d)"

definition active_load :: "db \<Rightarrow> ms \<Rightarrow> uid \<Rightarrow> ms \<Rightarrow> int" where
  "active_load d now aid t = load_at (active_rows d now aid) t"

text \<open>The overlap query of the transaction was not cut off by its row cap.\<close>

definition scan_complete :: "booking_env \<Rightarrow> db \<Rightarrow> uid \<Rightarrow> ms \<Rightarrow> ms \<Rightarrow> bool" where
  "scan_complete env d aid s e \<longleftrightarrow>
     length (filter (overlaps s e) (active_rows d (e_now env) aid)) \<le> e_dayCap env"

lemma window_bookings_eq [create]:
  assumes "scan_complete env tx aid s e"
  shows "window_bookings env tx aid s e = filter (overlaps s e) (active_rows tx (e_now env) aid)"
proof -
  have "window_bookings env tx aid s e
      = take (e_dayCap env) (filter (overlaps s e) (active_rows tx (e_now env) aid))"
    by (simp only: window_bookings_def find_many_def active_rows_def filter_filter conj_assoc)
  then show ?thesis using assms by (simp only: scan_complete_def take_all)
qed

lemma active_stamp [simp]: "activeBookingFilter now (stamp_otp t b) = activeBookingFilter now b"
  by (simp add: activeBookingFilter_def)

lemma load_at_stamp [simp]:
  "(\<And>b. P (stamp_otp x b) = P b) \<Longrightarrow>
   load_at (filter P (update_many q (stamp_otp x) bs)) t = load_at (filter P bs) t"
  by (induction bs) auto

lemma active_load_same [create]:
  "same_but_otp env b d b' d' \<Longrightarrow> active_load d' now aid t = active_load d now aid t"
  by (auto simp: same_but_otp_def active_load_def active_rows_def)

lemma create_tx_bookings [create]:
  assumes "create_tx env u dto a v co s e tx = Inr ((b, cap), tx')"
  shows "bookings tx' = bookings tx @ [b] \<and> b_start b = s \<and> b_end b = e \<and> b_guests b = d_guests dto \<and>
    b_activityId b = d_activityId dto \<and> b_id b = e_bookingId env \<and> b_customerId b = u"
  using assms by (rule create_tx_Inr) (auto dest!: price_booking_tables finalize_Inr)

lemma active_load_append [create]:
  assumes "bookings d' = bookings d @ [b]"
  shows "active_load d' now aid t = active_load d now aid t +
    (if b_activityId b = aid \<and> activeBookingFilter now b \<and> b_start b \<le> t \<and> t < b_end b then b_guests b else 0)"
  using assms by (simp add: active_load_def active_rows_def)

lemma load_in_window [create]:
  assumes "ws \<le> t" "t < we"
  shows "load_at (filter (overlaps ws we) rows) t = load_at rows t"
  using assms by (induction rows) (auto simp: overlaps_def)

lemma create_tx_seats [create]:
  assumes tx: "create_tx env u dto a v co s e d = Inr ((b, cap), d')"
    and seats: "\<not> a_hasUnits a" "a_capacity a = Some c"
    and sc: "scan_complete env d (d_activityId dto) s e"
    and before: "\<And>t. active_load d (e_now env) (d_activityId dto) t \<le> c"
  shows "active_load d' (e_now env) (d_activityId dto) t \<le> c"
proof -
  let ?rows = "window_bookings env d (d_activityId dto) s e"
  note rows = window_bookings_eq [OF sc]
  have b: "bookings d' = bookings d @ [b]" "b_start b = s" "b_end b = e" "b_guests b = d_guests dto"
    using create_tx_bookings [OF tx] by simp_all
  have "check_capacity (d_guests dto) ?rows None (Some c) s e = Inr ()"
    using tx by (rule create_tx_Inr) (use seats in \<open>auto simp: assign_unit_def\<close>)
  then have fits: "d_guests dto + maxConcurrentInWindow ?rows s e \<le> c"
    by (auto simp: check_capacity_def Let_def split: if_splits)
  have "active_load d (e_now env) (d_activityId dto) t + d_guests dto \<le> c" if "s \<le> t" "t < e"
    using seats.peak_upper [OF that, of ?rows] fits load_in_window [OF that] rows
    by (simp add: active_load_def)
  then show ?thesis using before [of t] active_load_append [OF b(1)] b(2-4) by auto
qed

section \<open>Units are not sold twice\<close>

definition clash :: "booking \<Rightarrow> booking \<Rightarrow> bool" where
  "clash b c \<longleftrightarrow> (\<exists>u. b_unit b = Some u \<and> b_unit c = Some u) \<and> b_start b < b_end c \<and> b_start c < b_end b"

text \<open>No two active bookings of the activity hold the same unit at the same time.\<close>

definition units_exclusive :: "db \<Rightarrow> ms \<Rightarrow> uid \<Rightarrow> bool" where
  "units_exclusive d now aid \<longleftrightarrow> sorted_wrt (\<lambda>b c. \<not> clash b c) (active_rows d now aid)"

text \<open>The units taken in a window, and the bookings in it whose unit is not known.\<close>

definition taken_units :: "db \<Rightarrow> ms \<Rightarrow> uid \<Rightarrow> ms \<Rightarrow> ms \<Rightarrow> nat set" where
  "taken_units d now aid s e = {u. \<exists>b \<in> set (active_rows d now aid). b_unit b = Some u \<and> overlaps s e b}"

definition orphan_count :: "db \<Rightarrow> ms \<Rightarrow> uid \<Rightarrow> ms \<Rightarrow> ms \<Rightarrow> nat" where
  "orphan_count d now aid s e = length (unassignedOverlapping (active_rows d now aid) s e)"

text \<open>Guests who may sit in a unit: its own bookings and those without a unit.\<close>

definition unit_load :: "db \<Rightarrow> ms \<Rightarrow> uid \<Rightarrow> nat \<Rightarrow> ms \<Rightarrow> int" where
  "unit_load d now aid u t =
     load_at (filter (\<lambda>b. b_unit b = Some u \<or> b_unit b = None) (active_rows d now aid)) t"

lemma active_rows_append [create]:
  assumes "bookings d' = bookings d @ [b]"
  shows "active_rows d' now aid = active_rows d now aid @
    (if b_activityId b = aid \<and> activeBookingFilter now b then [b] else [])"
  using assms by (simp add: active_rows_def)

lemma unassigned_rows [create]:
  "unassignedOverlapping (filter (overlaps s e) rows) s e = unassignedOverlapping rows s e"
  by (auto simp: unassignedOverlapping_def overlaps_def intro!: filter_cong)

lemma create_tx_unit [create]:
  assumes tx: "create_tx env u dto a v co s e d = Inr ((b, cap), d')"
    and units: "a_hasUnits a" "0 < a_unitCount a"
    and sc: "scan_complete env d (d_activityId dto) s e"
  shows "let rows = filter (overlaps s e) (active_rows d (e_now env) (d_activityId dto));
      free = free_units a (d_guests dto) rows s e in
    free \<noteq> [] \<and> b_unit b = Some (hd free) \<and> cap = Some (a_unitCapacity a) \<and>
    (rentsWholeUnit a \<longrightarrow> length free > length (unassignedOverlapping rows s e)) \<and>
    d_guests dto + maxConcurrentInWindow (filter (in_unit (hd free)) rows) s e \<le> a_unitCapacity a"
proof -
  let ?rows = "window_bookings env d (d_activityId dto) s e"
  obtain un q tx1 where as: "assign_unit a (d_guests dto) ?rows s e = Inr (un, cap)"
    and cc: "check_capacity (d_guests dto) ?rows un cap s e = Inr ()"
    and fin: "finalize_booking env tx1 u dto a co un s e q = Inr (b, d')"
    using tx by (rule create_tx_Inr)
  define rows where "rows = filter (overlaps s e) (active_rows d (e_now env) (d_activityId dto))"
  have rows: "?rows = rows" using window_bookings_eq [OF sc] by (simp only: rows_def)
  have un: "b_unit b = un" using finalize_Inr [OF fin] by simp
  show ?thesis
    using as cc units unfolding rows rows_def [symmetric] un
    by (auto simp: assign_unit_def check_capacity_def Let_def split: if_splits)
qed

lemma hd_free_unit [create]:
  assumes "free_units a g rows s e \<noteq> []"
  shows "unit_free a g rows s e (hd (free_units a g rows s e))"
    "1 \<le> hd (free_units a g rows s e)" "hd (free_units a g rows s e) \<le> a_unitCount a"
  using hd_in_set [OF assms] unfolding free_units_def set_filter by (auto simp del: upt_Suc)

lemma create_tx_exclusive [create]:
  assumes tx: "create_tx env u dto a v co s e d = Inr ((b, cap), d')"
    and units: "rentsWholeUnit a" "0 < a_unitCount a"
    and sc: "scan_complete env d (d_activityId dto) s e"
    and before: "units_exclusive d (e_now env) (d_activityId dto)"
  shows "units_exclusive d' (e_now env) (d_activityId dto)"
proof -
  let ?all = "active_rows d (e_now env) (d_activityId dto)"
  have "a_hasUnits a" using units(1) by (simp add: rentsWholeUnit_def)
  note cu = create_tx_unit [OF tx this units(2) sc, unfolded Let_def]
  note cb = create_tx_bookings [OF tx]
  have "filter (in_unit (the (b_unit b))) (filter (overlaps s e) ?all) = []"
    using cu hd_free_unit(1) [of a "d_guests dto" "filter (overlaps s e) ?all" s e] units(1)
    by (simp add: unit_free_def Let_def)
  then have "\<not> clash c b" if "c \<in> set ?all" for c
    using that cu cb by (auto simp: clash_def filter_empty_conv in_unit_def overlaps_def)
  then show ?thesis
    using before cb active_rows_append [of d' d b "e_now env" "d_activityId dto"]
    by (auto simp: units_exclusive_def sorted_wrt_append)
qed

text \<open>Even counting the bookings without a unit, no more units are in use than exist.\<close>

lemma free_units_card [create]:
  assumes "rentsWholeUnit a"
  shows "length (free_units a g rows s e) =
    a_unitCount a - card {u \<in> {1..a_unitCount a}. \<exists>b \<in> set rows. b_unit b = Some u}"
proof -
  let ?occ = "{u \<in> {1..a_unitCount a}. \<exists>b \<in> set rows. b_unit b = Some u}"
  have "set (free_units a g rows s e) = {1..a_unitCount a} - ?occ"
    using assms by (auto simp: free_units_def unit_free_def Let_def filter_empty_conv in_unit_def)
  moreover have "distinct (free_units a g rows s e)" by (simp add: free_units_def)
  ultimately have "length (free_units a g rows s e) = card ({1..a_unitCount a} - ?occ)"
    by (metis distinct_card)
  also have "\<dots> = a_unitCount a - card ?occ" by (subst card_Diff_subset) auto
  finally show ?thesis .
qed

lemma create_tx_units_suffice [create]:
  assumes tx: "create_tx env u dto a v co s e d = Inr ((b, cap), d')"
    and units: "rentsWholeUnit a" "0 < a_unitCount a"
    and sc: "scan_complete env d (d_activityId dto) s e"
  shows "card (taken_units d' (e_now env) (d_activityId dto) s e \<inter> {1..a_unitCount a}) +
    orphan_count d' (e_now env) (d_activityId dto) s e \<le> a_unitCount a"
proof -
  let ?all = "active_rows d (e_now env) (d_activityId dto)" and ?n = "a_unitCount a"
  let ?rows = "filter (overlaps s e) ?all"
  let ?occ = "{u \<in> {1..?n}. \<exists>b \<in> set ?rows. b_unit b = Some u}"
  have "a_hasUnits a" using units(1) by (simp add: rentsWholeUnit_def)
  note cu = create_tx_unit [OF tx this units(2) sc, unfolded Let_def]
  note cb = create_tx_bookings [OF tx]
  obtain un where un: "b_unit b = Some un" using cu by blast
  have room: "card ?occ + length (unassignedOverlapping ?all s e) < ?n"
    using cu units(1) free_units_card [OF units(1), of "d_guests dto" ?rows s e]
    by (auto simp: unassigned_rows)
  have rows': "active_rows d' (e_now env) (d_activityId dto) = ?all @
      (if activeBookingFilter (e_now env) b then [b] else [])"
    using active_rows_append [of d' d b] cb by simp
  have "taken_units d' (e_now env) (d_activityId dto) s e \<inter> {1..?n} \<subseteq> insert un ?occ"
    using un by (auto simp: taken_units_def rows' split: if_splits)
  then have "card (taken_units d' (e_now env) (d_activityId dto) s e \<inter> {1..?n}) \<le> card (insert un ?occ)"
    by (intro card_mono) auto
  also have "\<dots> \<le> Suc (card ?occ)" by (rule card_insert_le_m1) auto
  finally have "card (taken_units d' (e_now env) (d_activityId dto) s e \<inter> {1..?n}) \<le> Suc (card ?occ)" .
  moreover have "orphan_count d' (e_now env) (d_activityId dto) s e = length (unassignedOverlapping ?all s e)"
    using un by (simp add: orphan_count_def rows' unassignedOverlapping_def)
  ultimately show ?thesis using room by linarith
qed

lemma load_at_unit_split [create]:
  "load_at (filter (in_unit u) rows @ filter (\<lambda>b. b_unit b = None) rows) t =
   load_at (filter (\<lambda>b. b_unit b = Some u \<or> b_unit b = None) rows) t"
  by (induction rows) (auto simp: in_unit_def)

lemma unassigned_load [create]:
  "s \<le> t \<Longrightarrow> t < e \<Longrightarrow>
   load_at (unassignedOverlapping rows s e) t = load_at (filter (\<lambda>b. b_unit b = None) rows) t"
  unfolding unassignedOverlapping_def by (induction rows) auto

lemma create_tx_unit_seats [create]:
  assumes tx: "create_tx env u dto a v co s e d = Inr ((b, cap), d')"
    and units: "a_hasUnits a" "0 < a_unitCount a" "\<not> rentsWholeUnit a"
    and sc: "scan_complete env d (d_activityId dto) s e"
    and before: "\<And>n t. unit_load d (e_now env) (d_activityId dto) n t \<le> a_unitCapacity a"
  shows "unit_load d' (e_now env) (d_activityId dto) n t \<le> a_unitCapacity a"
proof -
  let ?all = "active_rows d (e_now env) (d_activityId dto)"
  let ?rows = "filter (overlaps s e) ?all"
  note cu = create_tx_unit [OF tx units(1,2) sc, unfolded Let_def]
  note cb = create_tx_bookings [OF tx]
  obtain un where un: "b_unit b = Some un" using cu by blast
  have fits: "d_guests dto + maxConcurrentInWindow (filter (in_unit un) ?rows @ unassignedOverlapping ?all s e) s e
      \<le> a_unitCapacity a"
    using cu un hd_free_unit(1) [of a "d_guests dto" ?rows s e] units(3)
    by (auto simp: unit_free_def Let_def unassigned_rows)
  have "d_guests dto + unit_load d (e_now env) (d_activityId dto) un t \<le> a_unitCapacity a" if w: "s \<le> t" "t < e"
  proof -
    have "load_at (filter (in_unit un) ?rows) t = load_at (filter (in_unit un) ?all) t"
      using load_in_window [OF w, of "filter (in_unit un) ?all"] by (simp add: conj_commute)
    moreover have "load_at (unassignedOverlapping ?all s e) t = load_at (filter (\<lambda>b. b_unit b = None) ?all) t"
      using w by (rule unassigned_load)
    ultimately show ?thesis
      using seats.peak_upper [OF w, of "filter (in_unit un) ?rows @ unassignedOverlapping ?all s e"] fits
        load_at_unit_split [of un ?all t]
      by (simp add: unit_load_def)
  qed
  moreover have "active_rows d' (e_now env) (d_activityId dto) = ?all @
      (if activeBookingFilter (e_now env) b then [b] else [])"
    using active_rows_append [of d' d b] cb by simp
  ultimately show ?thesis
    using before [of n t] un cb by (auto simp: unit_load_def)
qed

section \<open>The whole handler\<close>

lemma validate_request_Inr [create]:
  assumes "validate_request env d dto = Inr (a, v, co, today)"
  shows "find_first (\<lambda>a. a_id a = d_activityId dto) (activities d) = Some a \<and> a_status a = ACT_ACTIVE \<and>
    v_status v = VENDOR_ACTIVE \<and> v \<in> set (vendors d) \<and> v_id v = a_vendorId a \<and> co \<in> set (countries d) \<and>
    isValidCivil (d_checkInDate dto) \<and> today \<le> d_checkInDate dto \<and> active_on a (d_checkInDate dto) \<and>
    today = todayInTimezone (e_tz env) (co_timezone co) (e_now env) \<and>
    (case d_checkOutDate dto of Some c \<Rightarrow> isValidCivil c | None \<Rightarrow> True) \<and>
    d_checkInDate dto \<le> utc_date (addMonthsClamped (e_now env) (e_maxAdvanceMonths env))"
  using assms
  by (auto simp: validate_request_def Let_def not_less dest!: find_first_Some [where t = "vendors d"]
      find_first_Some [where t = "countries d"] split: option.splits if_splits)

text \<open>A successful creation in terms of its activity and transaction.\<close>

lemma createBooking_tx [create]:
  assumes "createBooking env u dto r w = (Inr (Created b rem), r', w')"
    and "find_first (\<lambda>a. a_id a = d_activityId dto) (activities (w_db w)) = Some a"
  obtains v co b0 cap d today where
    "create_tx env u dto a v co (b_start b) (b_end b) (w_db w) = Inr ((b0, cap), d)"
    "same_but_otp env b0 d b (w_db w')"
    "validate_request env (w_db w) dto = Inr (a, v, co, today)"
    "booking_window env dto a (co_timezone co) today = Inr (b_start b, b_end b)"
    "check_blocks_and_duplicates env (w_db w) u dto a (b_start b) (b_end b) = Inr ()"
    "replayed (w_db w) u dto = None"
proof (rule createBooking_Created [OF assms(1)])
  fix a' v co today s e r1 tok b0 cap d
  assume v: "validate_request env (w_db w) dto = Inr (a', v, co, today)"
    and bw: "booking_window env dto a' (co_timezone co) today = Inr (s, e)"
    and cb: "check_blocks_and_duplicates env (w_db w) u dto a' s e = Inr ()"
    and tx: "create_tx env u dto a' v co s e (w_db w) = Inr ((b0, cap), d)"
    and same: "same_but_otp env b0 d b (w_db w')" and rp: "replayed (w_db w) u dto = None"
  have a: "a' = a" using validate_request_Inr [OF v] assms(2) by simp
  have "b_start b = s" "b_end b = e"
    using same create_tx_bookings [OF tx] by (auto simp: same_but_otp_def)
  then show thesis using that tx same v bw cb rp unfolding a by simp
qed

lemma active_rows_same [create]:
  assumes "same_but_otp env b d b' d'"
  shows "active_rows d' now aid = active_rows d now aid \<or>
    active_rows d' now aid = update_many (\<lambda>r. b_id r = b_id b) (stamp_otp (e_now env)) (active_rows d now aid)"
proof -
  have "filter P (update_many q (stamp_otp x) bs) = update_many q (stamp_otp x) (filter P bs)"
    if "\<And>b. P (stamp_otp x b) = P b" for P q x and bs :: "booking list"
    using that by (induction bs) auto
  then show ?thesis using assms by (auto simp: same_but_otp_def active_rows_def)
qed

lemma clash_stamp [simp]: "clash (stamp_otp t b) c = clash b c" "clash b (stamp_otp t c) = clash b c"
  by (simp_all add: clash_def)

lemma clash_if [simp]:
  "clash (if p then stamp_otp t b else b) (if q then stamp_otp t c else c) = clash b c"
  by simp

lemma exclusive_stamp [simp]:
  "sorted_wrt (\<lambda>b c. \<not> clash b c) (update_many q (stamp_otp x) bs) = sorted_wrt (\<lambda>b c. \<not> clash b c) bs"
  by (simp only: update_many_def sorted_wrt_map clash_if)

lemma units_exclusive_same [create]:
  "same_but_otp env b d b' d' \<Longrightarrow> units_exclusive d' now aid = units_exclusive d now aid"
  using active_rows_same [of env b d b' d' now aid] by (auto simp: units_exclusive_def)

lemma unassigned_stamp [simp]:
  "length (unassignedOverlapping (update_many q (stamp_otp x) bs) s e) = length (unassignedOverlapping bs s e)"
  by (induction bs) (auto simp: unassignedOverlapping_def)

lemma orphan_count_same [create]:
  "same_but_otp env b d b' d' \<Longrightarrow> orphan_count d' now aid s e = orphan_count d now aid s e"
  using active_rows_same [of env b d b' d' now aid] by (auto simp: orphan_count_def)

lemma overlaps_stamp [simp]: "overlaps s e (stamp_otp t b) = overlaps s e b"
  by (simp add: overlaps_def)

lemma bex_stamp [simp]:
  "(\<exists>b \<in> set (update_many q (stamp_otp x) bs). b_unit b = n \<and> overlaps s e b) \<longleftrightarrow>
   (\<exists>b \<in> set bs. b_unit b = n \<and> overlaps s e b)"
  by (induction bs) auto

lemma taken_units_same [create]:
  "same_but_otp env b d b' d' \<Longrightarrow> taken_units d' now aid s e = taken_units d now aid s e"
  unfolding taken_units_def by (drule active_rows_same [of env b d b' d' now aid], elim disjE) simp_all

lemma unit_load_same [create]:
  "same_but_otp env b d b' d' \<Longrightarrow> unit_load d' now aid n t = unit_load d now aid n t"
  using active_rows_same [of env b d b' d' now aid] by (auto simp: unit_load_def)

text \<open>A call that throws changes nothing: neither the database nor any other effect.\<close>

lemma createBooking_error [create]:
  assumes "createBooking env u dto r w = (Inl ex, r', w')"
  shows "w' = w"
  using assms
  by (auto simp: createBooking_def Let_def transaction_def split: option.splits sum.splits prod.splits)

lemma createBooking_replay [create]:
  assumes "replayed (w_db w) u dto = Some b"
  shows "createBooking env u dto r w = (Inr (Existing b), r, w)"
  using assms by (simp add: createBooking_def)

section \<open>Amounts\<close>

definition prices_ok :: "db \<Rightarrow> bool" where
  "prices_ok d \<longleftrightarrow> list_all (\<lambda>a. 0 \<le> a_price a) (activities d) \<and> list_all (\<lambda>s. 0 \<le> sp_price s) (specials d) \<and>
     list_all (\<lambda>c. 0 \<le> co_serviceFee c \<and> two_dp (co_serviceFee c)) (countries d)"

lemma price_cents_nonneg [pricing]: "0 \<le> p \<Longrightarrow> 0 \<le> price_cents p"
  by (simp add: price_cents_def js_round_nonneg)

lemma sum_list_nonneg_int: "(\<And>x. x \<in> set xs \<Longrightarrow> 0 \<le> f x) \<Longrightarrow> 0 \<le> sum_list (map f xs :: int list)"
  by (induction xs) auto

lemma daily_total_nonneg [pricing]:
  assumes "0 \<le> a_price a" "list_all (\<lambda>s. 0 \<le> sp_price s) (specials tx)"
  shows "0 \<le> daily_total_cents tx a ci co"
proof -
  have c: "0 \<le> c" if "cents_by_date (special_rows tx aid sel) d = Some c" for c d aid sel
    using that assms(2)
    by (auto simp: cents_by_date_eq special_rows_def find_many_def list_all_iff intro!: price_cents_nonneg
        dest!: find_first_Some)
  show ?thesis
    unfolding daily_total_cents_def Let_def foldl_add_sum
    using assms(1) by (auto intro!: sum_list_nonneg_int price_cents_nonneg dest: c split: option.splits)
qed

lemma hourly_total_nonneg [pricing]:
  assumes "0 \<le> a_price a" "list_all (\<lambda>s. 0 \<le> sp_price s) (specials tx)" "0 \<le> g" "0 \<le> or_default 0 (a_duration a)"
  shows "0 \<le> hourly_total_cents tx a date g s e"
proof -
  define dur where "dur = (case a_duration a of Some n \<Rightarrow> n | None \<Rightarrow> 0)"
  have dur: "0 \<le> dur" using assms(4) by (simp add: dur_def or_default_def split: option.splits)
  define eff where "eff = (case find_first (\<lambda>s. sp_activityId s = a_id a \<and> sp_deletedAt s = None \<and> sp_date s = date)
      (specials tx) of Some s \<Rightarrow> price_cents (sp_price s) | None \<Rightarrow> price_cents (a_price a))"
  have eff: "0 \<le> eff"
    using assms(1,2) by (auto simp: eff_def list_all_iff intro!: price_cents_nonneg dest: find_first_Some split: option.splits)
  show ?thesis
    unfolding hourly_total_cents_def Let_def eff_def [symmetric] dur_def [symmetric]
    using dur eff assms(3) by (intro js_round_nonneg divide_nonneg_nonneg) (auto intro!: mult_nonneg_nonneg)
qed

lemma extras_nonneg [pricing]:
  assumes "extras_stage a names qtys g = Inr (c, xs)" "1 \<le> g"
  shows "0 \<le> c"
proof -
  have "0 \<le> extra_cents x" if "0 < s_price x" "1 \<le> s_qty x" for x
    using that by (auto simp: extra_cents_def intro!: js_round_nonneg mult_nonneg_nonneg)
  then show ?thesis
    using assms(1) select_extras_ok [OF _ assms(2)]
    by (fastforce simp: extras_stage_def intro!: sum_list_nonneg_int split: option.splits)
qed

lemma coupon_stage_discount [create]:
  assumes ok: "coupons_ok tx" and r: "coupon_stage env tx u dto a t = Inr ((code, disc), tx')"
    and t: "0 \<le> t" "two_dp t"
  shows "0 \<le> disc \<and> disc \<le> t \<and> two_dp disc \<and> coupons_ok tx'"
proof -
  have app: "0 \<le> x \<and> x \<le> t \<and> two_dp x" if "applied tx c t now code' x" for c now code' x
    using that coupon_discount_bounds [OF applied_wf [OF ok that] t] by (simp add: applied_def)
  consider (none) "disc = 0" "tx' = tx"
    | (voucher) v code' where "applyVoucher tx u v (a_id a) t (e_now env) = Inr ((code', disc), tx')"
    | (typed) c code' where "applyCouponCode tx u c a t (e_now env) = Inr ((code', disc), tx')"
    using r by (fastforce simp: coupon_stage_def and_then_Inr split: option.splits)
  then show ?thesis
  proof cases
    case none
    then show ?thesis using t ok by simp
  next
    case voucher
    then show ?thesis using applyVoucher_Inr [OF ok voucher] applyVoucher_ok [OF ok voucher] app by blast
  next
    case typed
    then show ?thesis using applyCouponCode_Inr [OF ok typed] applyCouponCode_ok [OF ok typed] app by blast
  qed
qed

text \<open>Nothing is lost between the list price and what is charged.\<close>

lemma price_booking_exact [create]:
  assumes r: "price_booking env tx u dto a v co s e = Inr (q, tx')"
    and ok: "coupons_ok tx" and t: "0 \<le> total_price_cents tx dto a s e" and g: "1 \<le> d_guests dto"
    and fee: "0 \<le> co_serviceFee co" "two_dp (co_serviceFee co)"
  shows "q_final q = q_total q - q_couponDiscount q \<and> 0 \<le> q_couponDiscount q \<and> q_couponDiscount q \<le> q_total q \<and>
    0 \<le> q_pointsDiscount q \<and> q_pointsDiscount q \<le> q_final q \<and> 0 \<le> q_points q \<and> two_dp (q_points q) \<and>
    q_payable q + q_pointsDiscount q = q_final q + q_fee q \<and>
    (q_fee q = co_serviceFee co \<or> q_fee q = 0 \<and> q_pointsDiscount q = q_final q) \<and> coupons_ok tx'"
proof (rule price_booking_Inr [OF r])
  fix xc xs code disc tx1 rd
  assume ex: "extras_stage a (d_extras dto) (d_extrasQty dto) (d_guests dto) = Inr (xc, xs)"
    and total: "q_total q = of_int (total_price_cents tx dto a s e + xc) / 100"
    and cs: "coupon_stage env tx u dto a (q_total q) = Inr ((code, disc), tx1)"
    and rs: "redeem_stage tx1 (d_redeemPoints dto) (cents (q_total q - disc)) (co_serviceFee co) = Inr (rd, tx')"
    and q: "q_couponDiscount q = disc" "q_final q = cents (q_total q - disc)" "q_points q = rd_points rd"
      "q_pointsDiscount q = rd_discount rd" "q_fee q = rd_fee rd"
      "q_payable q = payable_amount (q_final q) (q_fee q) (q_pointsDiscount q)"
  have "two_dp (q_total q)" unfolding total by (rule two_dp_div100)
  moreover have "0 \<le> q_total q" unfolding total using t extras_nonneg [OF ex g] by simp
  ultimately have tot: "0 \<le> q_total q" "two_dp (q_total q)" by blast+
  note d = coupon_stage_discount [OF ok cs tot]
  have fin: "cents (q_total q - disc) = q_total q - disc"
    by (rule cents_id) (use tot d in \<open>auto intro: two_dp_diff\<close>)
  have "0 \<le> q_total q - disc" "two_dp (q_total q - disc)" using d tot by (auto intro: two_dp_diff)
  note rb = redeem_stage_bounds [OF rs [unfolded fin] this]
  have "two_dp (rd_fee rd)" using rb(6) fee by auto
  moreover have "rd_discount rd \<le> (q_total q - disc) + rd_fee rd" using rb fee by auto
  ultimately have "q_payable q = (q_total q - disc) + rd_fee rd - rd_discount rd"
    unfolding q(2,4-6) fin using rb(4) tot d by (intro payable_exact) (auto intro: two_dp_diff)
  then show ?thesis
    using q fin d rb redeem_stage_tables [OF rs] by (auto simp: coupons_ok_def)
qed

section \<open>The rows, the points and the coupon together\<close>

lemma points_ok_tables [simp]:
  "points_ok (d\<lparr>payments := ps, bookings := bs\<rparr>) = points_ok d"
  "balance_of (d\<lparr>payments := ps, bookings := bs\<rparr>) = balance_of d"
  by (simp_all add: points_ok_def ledger_sum_def balance_of_def fun_eq_iff)

lemma points_ok_same [create]:
  "users d' = users d \<Longrightarrow> ledger d' = ledger d \<Longrightarrow> points_ok d' = points_ok d \<and> balance_of d' = balance_of d"
  by (simp add: points_ok_def ledger_sum_def balance_of_def fun_eq_iff)

text \<open>Balances after \<open>x\<close> points were taken from (or, negative, given to) one user.\<close>

definition debited :: "(uid \<Rightarrow> num option) \<Rightarrow> uid \<Rightarrow> num \<Rightarrow> uid \<Rightarrow> num option" where
  "debited bal u x n = map_option (\<lambda>y. if n = u then y - x else y) (bal n)"

lemma debited_0 [simp]: "debited bal u 0 = bal"
  by (auto simp: debited_def fun_eq_iff option.map_ident cong: if_cong)

lemma finalize_points [create]:
  assumes r: "finalize_booking env tx u dto a co un s e q = Inr (b, tx')"
    and ok: "points_ok tx" and q: "0 \<le> q_points q" "two_dp (q_points q)"
  shows "points_ok tx' \<and>
    balance_of tx' = debited (balance_of tx) u (q_points q) \<and>
    coupons tx' = coupons tx \<and> claimed tx' = claimed tx"
proof -
  obtain p b' sn where ins: "insert_booking tx p b' sn = Inr (b, tx')"
    "b_customerId b' = u" "b_pointsRedeemed b' = q_points q"
    using r by (auto simp: finalize_booking_def split: if_splits)
  note i = insert_booking_Inr [OF ins(1)]
  let ?t = "tx\<lparr>payments := payments tx @ [settled_payment p b' sn], bookings := bookings tx @ [b']\<rparr>"
  show ?thesis
  proof (cases "0 < q_points q")
    case True
    then have "redeems (b_id b') ?t u (q_points q) tx'"
      using i ins q by (auto simp: redeems_def)
    then show ?thesis
      using points.debit_inv [of ?t "b_id b'" u "q_points q" tx'] points.debit_bal [of ?t "b_id b'" u "q_points q" tx']
        ok i by (simp add: debited_def fun_eq_iff)
  next
    case False
    then have "q_points q = 0" using q by simp
    moreover have "users tx' = users tx" "ledger tx' = ledger tx" using i ins False by auto
    ultimately show ?thesis using points_ok_same [of tx' tx] ok i by simp
  qed
qed

lemma create_tx_charge [create]:
  assumes tx: "create_tx env u dto a v co s e d = Inr ((b, cap), d')"
    and ok: "points_ok d" "coupons_ok d" and t: "0 \<le> total_price_cents d dto a s e" and g: "1 \<le> d_guests dto"
    and fee: "0 \<le> co_serviceFee co" "two_dp (co_serviceFee co)"
  shows "points_ok d' \<and> coupons_ok d' \<and>
    balance_of d' = debited (balance_of d) u (b_pointsRedeemed b) \<and>
    (\<exists>p. payments d' = payments d @ [p] \<and> p_bookingId p = Some (b_id b) \<and> b_paymentId b = Some (p_id p) \<and>
      p_amount p + b_pointsDiscount b = b_totalPrice b + b_serviceFee b \<and> 0 \<le> p_amount p \<and>
      b_status b = (if p_amount p = 0 then CONFIRMED else PENDING) \<and>
      p_status p = (if p_amount p = 0 then SUCCESS else PAY_PENDING) \<and> p_gatewayBasketId p = None \<and>
      p_id p = e_paymentId env)"
proof -
  obtain un q tx1 where pb: "price_booking env d u dto a v co s e = Inr (q, tx1)"
    and fin: "finalize_booking env tx1 u dto a co un s e q = Inr (b, d')"
    using tx by (rule create_tx_Inr)
  note ex = price_booking_exact [OF pb ok(2) t g fee]
  note tb = price_booking_tables [OF pb]
  have "points_ok tx1" "balance_of tx1 = balance_of d" using points_ok_same [of tx1 d] tb ok(1) by simp_all
  note fp = finalize_points [OF fin this(1)] and fi = finalize_Inr [OF fin]
  have pay: "0 \<le> q_payable q" using pb by (rule price_booking_Inr) (simp add: payable_amount_def)
  have c: "coupons_ok d'" using ex fp by (simp add: coupons_ok_def)
  obtain p where p: "payments d' = payments d @ [p]" "p_id p = e_paymentId env" "p_bookingId p = Some (b_id b)"
    "p_amount p = (if q_payable q \<le> 0 then 0 else q_payable q)"
    "p_status p = (if q_payable q \<le> 0 then SUCCESS else PAY_PENDING)" "p_gatewayBasketId p = None"
    using fi tb by auto
  have "p_amount p = q_payable q" using p(4) pay by simp
  then show ?thesis
    using fp fi ex c p pay \<open>balance_of tx1 = balance_of d\<close> by simp
qed

section \<open>Tables a creation never writes\<close>

definition static :: "db \<Rightarrow> db \<Rightarrow> bool" where
  "static d d' \<longleftrightarrow> activities d' = activities d \<and> countries d' = countries d \<and> vendors d' = vendors d \<and>
     categories d' = categories d \<and> specials d' = specials d \<and> blocks d' = blocks d \<and>
     defaultCommissionPct d' = defaultCommissionPct d"

lemma static_refl [simp]: "static d d"
  by (simp add: static_def)

lemma static_trans [trans]: "static d d1 \<Longrightarrow> static d1 d2 \<Longrightarrow> static d d2"
  by (simp add: static_def)

lemma static_updates [simp]:
  "static d (d1\<lparr>users := us\<rparr>) = static d d1" "static d (d1\<lparr>ledger := ls\<rparr>) = static d d1"
  "static d (d1\<lparr>bookings := bs\<rparr>) = static d d1" "static d (d1\<lparr>payments := ps\<rparr>) = static d d1"
  "static d (d1\<lparr>coupons := cs\<rparr>) = static d d1" "static d (d1\<lparr>claimed := cl\<rparr>) = static d d1"
  "static d (d1\<lparr>loyaltyConfig := lc\<rparr>) = static d d1" "static d (d1\<lparr>outbox := ob\<rparr>) = static d d1"
  by (simp_all add: static_def)

lemma static_count_use: "count_use tx c l = Inr tx' \<Longrightarrow> static tx tx'"
  by (auto simp: count_use_def update_coupons_def Let_def split: option.splits if_splits)

lemma static_voucher: "applyVoucher tx u v a t now = Inr (y, tx') \<Longrightarrow> static tx tx'"
  by (fastforce simp: applyVoucher_def Let_def and_then_Inr dest: static_count_use elim: static_trans [rotated]
      split: option.splits if_splits)

lemma static_code: "applyCouponCode tx u c a t now = Inr (y, tx') \<Longrightarrow> static tx tx'"
  by (auto simp: applyCouponCode_def Let_def and_then_Inr dest: static_count_use split: option.splits if_splits)

lemma static_redeem: "redeem tx u a b = Inr (bal, tx') \<Longrightarrow> static tx tx'"
  by (auto simp: redeem_def Let_def and_then_Inr writeLedger_def split: if_splits option.splits)

lemma static_price: "price_booking env tx u dto a v co s e = Inr (q, tx') \<Longrightarrow> static tx tx'"
proof (erule price_booking_Inr)
  fix t code disc tx1 p f rd
  assume cs: "coupon_stage env tx u dto a t = Inr ((code, disc), tx1)"
    and "redeem_stage tx1 p (cents (t - disc)) f = Inr (rd, tx')"
  then have "static tx1 tx'" by (auto dest!: redeem_stage_db)
  moreover have "static tx tx1"
    using cs by (auto simp: coupon_stage_def and_then_Inr dest: static_voucher static_code split: option.splits)
  ultimately show "static tx tx'" by (rule static_trans [rotated])
qed

lemma static_insert:
  assumes "insert_booking tx p b sn = Inr (b', tx')"
  shows "static tx tx'"
proof (cases "b_pointsRedeemed b > 0")
  case True
  then obtain t bal where "redeem t (b_customerId b) (b_pointsRedeemed b) (b_id b) = Inr (bal, tx')" "static tx t"
    using insert_booking_Inr [OF assms] by auto
  then show ?thesis using static_redeem static_trans by blast
next
  case False
  then show ?thesis using assms by (auto simp: insert_booking_def Let_def split: if_splits)
qed

lemma static_create_tx [create]:
  assumes "create_tx env u dto a v co s e tx = Inr ((b, cap), tx')"
  shows "static tx tx'"
  using assms
proof (rule create_tx_Inr)
  fix un q tx1
  assume "price_booking env tx u dto a v co s e = Inr (q, tx1)"
    "finalize_booking env tx1 u dto a co un s e q = Inr (b, tx')"
  then show ?thesis
    by (auto simp: finalize_booking_def dest!: static_price static_insert elim: static_trans split: if_splits)
qed

lemma static_otp: "otp_after_create env u b w = (b', w') \<Longrightarrow> static (w_db w) (w_db w')"
  by (auto simp: otp_after_create_def split: option.splits if_splits)

lemma static_notify: "static (w_db w) (w_db (notify_after_create env b w))"
  by (simp add: notify_after_create_def Let_def split: option.split)

lemma createBooking_static [create]:
  assumes "createBooking env u dto r w = (Inr (Created b rem), r', w')"
  shows "static (w_db w) (w_db w')"
proof -
  obtain a v co s e b0 cap w1 w3 b' where
    tr: "transaction (create_tx env u dto a v co s e) w = (Inr (b0, cap), w1)"
    and ot: "otp_after_create env u b0 (emit [Audit CUSTOMER u BOOKING_CREATED (b_id b0)] w1) = (b', w3)"
    and w': "w' = emit [InvalidateAvailability (d_activityId dto)] (notify_after_create env b' w3)"
    using assms by (auto simp: createBooking_def Let_def split: option.splits sum.splits prod.splits)
  obtain d where d: "create_tx env u dto a v co s e (w_db w) = Inr ((b0, cap), d)" "w1 = w\<lparr>w_db := d\<rparr>"
    using tr unfolding transaction_Inr by blast
  have "static (w_db w) d" by (rule static_create_tx [OF d(1)])
  also have "static d (w_db w3)" using static_otp [OF ot] d(2) by simp
  also have "static (w_db w3) (w_db w')" using static_notify w' by simp
  finally show ?thesis .
qed

lemma create_tx_new_id [create]:
  assumes "create_tx env u dto a v co s e tx = Inr ((b, cap), tx')"
  shows "\<forall>x \<in> set (bookings tx). b_id x \<noteq> b_id b \<and> b_ref x \<noteq> b_ref b"
proof -
  from create_tx_Inr [OF assms] obtain un q tx1 where
    q: "price_booking env tx u dto a v co s e = Inr (q, tx1)"
    and f: "finalize_booking env tx1 u dto a co un s e q = Inr (b, tx')" by metis
  from finalize_Inr [OF f] price_booking_tables [OF q] show ?thesis
    by (auto simp: key_taken_def list_ex_iff)
qed

lemma create_tx_key [create]:
  assumes "create_tx env u dto a v co s e tx = Inr ((b, cap), tx')"
  shows "b_idempotencyKey b = d_idempotencyKey dto"
proof -
  from create_tx_Inr [OF assms] obtain un q tx1 where
    "finalize_booking env tx1 u dto a co un s e q = Inr (b, tx')" by metis
  from finalize_Inr [OF this] show ?thesis by simp
qed

end
