(* ===== verification/CancelBooking.thy ===== *)
theory CancelBooking
  imports CreateProps
begin

text \<open>
  \<open>cancelBooking\<close> and \<open>recordRefundDecision\<close> of \<open>apps/api/src/bookings/bookings.service.ts\<close>: the
  customer ends a booking, the vendor or an admin decides the refund of a paid one. Every branch
  guards the payment status it read; money still in flight keeps its rows; points always return.
\<close>

named_theorems cancel \<open>facts about cancellation and refunds\<close>

section \<open>Environment\<close>

record cancel_env =
  c_now :: ms
  c_tz :: tzdb
  c_deadlineHours :: num
  c_partialPercent :: num

text \<open>
  The row a handler read may be overtaken before its transaction runs: \<open>interfere\<close> is what other
  writers commit in between.
\<close>

type_synonym interference = "db \<Rightarrow> db"

section \<open>Refund policy\<close>

text \<open>\<open>Math.min(100, Math.max(0, \<dots>))\<close> around the configured percentage.\<close>

definition clamp_percent :: "num \<Rightarrow> num" where
  "clamp_percent p = min 100 (max 0 p)"

definition refund_percent :: "cancel_env \<Rightarrow> policy option \<Rightarrow> num \<Rightarrow> num" where
  "refund_percent env pol hoursUntilStart =
     (let isWithinDeadline = (hoursUntilStart \<ge> c_deadlineHours env)
      in case or_default FREE_CANCELLATION pol of
           NON_REFUNDABLE \<Rightarrow> 0
         | PARTIAL_REFUND \<Rightarrow> if isWithinDeadline then clamp_percent (c_partialPercent env) else 0
         | FREE_CANCELLATION \<Rightarrow> if isWithinDeadline then 100 else 0)"

text \<open>\<open>Number((\<dots>).toFixed(2))\<close> of a non-negative amount.\<close>

definition suggested_refund :: "num \<Rightarrow> num \<Rightarrow> num" where
  "suggested_refund totalPaid percent = (if percent > 0 then cents (totalPaid * percent / 100) else 0)"

definition hours_until :: "cancel_env \<Rightarrow> string \<Rightarrow> booking \<Rightarrow> num" where
  "hours_until env tz b = of_int (b_start b - nowInTimezone (c_tz env) tz (c_now env)) / of_int hour_ms"

section \<open>Writes\<close>

definition update_booking :: "uid \<Rightarrow> (booking \<Rightarrow> booking) \<Rightarrow> db \<Rightarrow> db" where
  "update_booking bid f d = d\<lparr>bookings := update_many (\<lambda>b. b_id b = bid) f (bookings d)\<rparr>"

text \<open>\<open>booking.update\<close> throws when the row is gone.\<close>

definition update_booking_or_throw :: "uid \<Rightarrow> (booking \<Rightarrow> booking) \<Rightarrow> db \<Rightarrow> exn + db" where
  "update_booking_or_throw bid f d =
     (if find_first (\<lambda>b. b_id b = bid) (bookings d) = None then Inl (NotFound BookingNotFound)
      else Inr (update_booking bid f d))"

text \<open>\<open>payment.updateMany\<close> guarded by the status; the caller throws when no row matched.\<close>

definition flip_payment :: "uid \<Rightarrow> payment_status \<Rightarrow> (payment \<Rightarrow> payment) \<Rightarrow> conflict_reason \<Rightarrow> db \<Rightarrow> exn + db" where
  "flip_payment pid from f reason d =
     (let sel = (\<lambda>p. p_id p = pid \<and> p_status p = from) in
      if count_rows sel (payments d) = 0 then Inl (Conflict reason)
      else Inr (d\<lparr>payments := update_many sel f (payments d)\<rparr>))"

definition cancelled_by :: "ms \<Rightarrow> actor \<Rightarrow> booking \<Rightarrow> booking" where
  "cancelled_by now act b = b\<lparr>b_status := CANCELLED, b_cancelledAt := Some now, b_cancelledBy := Some act\<rparr>"

definition return_points :: "db \<Rightarrow> uid \<Rightarrow> num \<Rightarrow> uid \<Rightarrow> ledger_source \<Rightarrow> exn + db" where
  "return_points tx userId redeemedPoints bookingId src =
     (if redeemedPoints > 0
      then and_then (refund tx userId redeemedPoints bookingId src CUSTOMER (Some userId)) (\<lambda>(_, tx'). Inr tx')
      else Inr tx)"

section \<open>The four branches\<close>

definition cancel_points_only :: "cancel_env \<Rightarrow> uid \<Rightarrow> booking \<Rightarrow> uid \<Rightarrow> db \<Rightarrow> exn + (unit \<times> db)" where
  "cancel_points_only env userId b pid tx =
     and_then (flip_payment pid SUCCESS
        (\<lambda>p. p\<lparr>p_status := REFUNDED, p_refundAmount := Some 0, p_refundedAt := Some (c_now env)\<rparr>)
        StateChanged tx) (\<lambda>tx1.
     and_then (update_booking_or_throw (b_id b)
        (\<lambda>r. (cancelled_by (c_now env) CUSTOMER r)\<lparr>b_decisionAt := Some (c_now env),
              b_decisionBy := Some userId, b_decisionActor := Some CUSTOMER,
              b_decisionNote := Some ''Points-only booking - points refunded automatically''\<rparr>) tx1) (\<lambda>tx2.
     and_then (return_points tx2 userId (b_pointsRedeemed b) (b_id b) CANCEL_REFUND_PAID) (\<lambda>tx3.
     Inr ((), refundCouponUsage tx3 (b_couponCode b) userId (c_now env)))))"

definition cancel_paid :: "cancel_env \<Rightarrow> uid \<Rightarrow> booking \<Rightarrow> uid \<Rightarrow> num \<Rightarrow> db \<Rightarrow> exn + (unit \<times> db)" where
  "cancel_paid env userId b pid suggested tx =
     and_then (update_booking_or_throw (b_id b) (cancelled_by (c_now env) CUSTOMER) tx) (\<lambda>tx1.
     and_then (flip_payment pid SUCCESS
        (\<lambda>p. p\<lparr>p_status := REFUND_PENDING,
              p_refundAmount := (if suggested > 0 then Some suggested else None)\<rparr>) StateChanged tx1) (\<lambda>tx2.
     and_then (return_points tx2 userId (b_pointsRedeemed b) (b_id b) CANCEL_REFUND_PAID) (\<lambda>tx3.
     Inr ((), refundCouponUsage tx3 (b_couponCode b) userId (c_now env)))))"

text \<open>A gateway session is open: both rows are kept, so that a late capture can be refunded.\<close>

definition cancel_in_flight :: "cancel_env \<Rightarrow> uid \<Rightarrow> booking \<Rightarrow> uid \<Rightarrow> db \<Rightarrow> exn + (unit \<times> db)" where
  "cancel_in_flight env userId b pid tx =
     and_then (flip_payment pid PAY_PENDING (\<lambda>p. p\<lparr>p_status := FAILED\<rparr>) StateChanged tx) (\<lambda>tx1.
     let tx2 = refundCouponUsage tx1 (b_couponCode b) userId (c_now env) in
     and_then (update_booking_or_throw (b_id b) (cancelled_by (c_now env) CUSTOMER) tx2) (\<lambda>tx3.
     and_then (return_points tx3 userId (b_pointsRedeemed b) (b_id b) CANCEL_REFUND_UNPAID) (\<lambda>tx4.
     Inr ((), tx4))))"

text \<open>Never sent to the gateway: the booking and its payment are deleted.\<close>

definition delete_payment_or_throw :: "uid \<Rightarrow> db \<Rightarrow> exn + db" where
  "delete_payment_or_throw pid d =
     (if find_first (\<lambda>p. p_id p = pid) (payments d) = None then Inl (NotFound PaymentNotFound)
      else Inr (d\<lparr>payments := delete_many (\<lambda>p. p_id p = pid) (payments d)\<rparr>))"

definition delete_booking_or_throw :: "uid \<Rightarrow> db \<Rightarrow> exn + db" where
  "delete_booking_or_throw bid d =
     (if find_first (\<lambda>b. b_id b = bid) (bookings d) = None then Inl (NotFound BookingNotFound)
      else Inr (d\<lparr>bookings := delete_many (\<lambda>b. b_id b = bid) (bookings d)\<rparr>))"

definition cancel_unpaid :: "cancel_env \<Rightarrow> uid \<Rightarrow> booking \<Rightarrow> uid option \<Rightarrow> db \<Rightarrow> exn + (unit \<times> db)" where
  "cancel_unpaid env userId b pid tx =
     (let tx1 = refundCouponUsage tx (b_couponCode b) userId (c_now env) in
      and_then (case pid of
          None \<Rightarrow> Inr tx1
        | Some p \<Rightarrow>
            and_then (update_booking_or_throw (b_id b) (\<lambda>r. r\<lparr>b_paymentId := None\<rparr>) tx1)
              (delete_payment_or_throw p)) (\<lambda>tx2.
      and_then (delete_booking_or_throw (b_id b) tx2) (\<lambda>tx3.
      and_then (return_points tx3 userId (b_pointsRedeemed b) (b_id b) CANCEL_REFUND_UNPAID) (\<lambda>tx4.
      Inr ((), tx4)))))"

section \<open>cancelBooking\<close>

datatype cancel_result =
  PointsReturned num
| AwaitingRefund num num
| SoftCancelled
| Removed num

definition payment_of :: "db \<Rightarrow> booking \<Rightarrow> payment option" where
  "payment_of d b = Option.bind (b_paymentId b) (\<lambda>pid. find_first (\<lambda>p. p_id p = pid) (payments d))"

definition run_cancel :: "interference \<Rightarrow> (db \<Rightarrow> exn + (unit \<times> db)) \<Rightarrow> world \<Rightarrow> (exn + unit) \<times> world" where
  "run_cancel interfere body w = transaction body (w\<lparr>w_db := interfere (w_db w)\<rparr>)"

definition finish_cancel :: "'r \<Rightarrow> (world \<Rightarrow> world) \<Rightarrow> (exn + unit) \<times> world \<Rightarrow> (exn + 'r) \<times> world" where
  "finish_cancel res after m =
     (case m of (Inl ex, w') \<Rightarrow> (Inl ex, w') | (Inr _, w') \<Rightarrow> (Inr res, after w'))"

definition vendor_user :: "db \<Rightarrow> uid \<Rightarrow> uid option" where
  "vendor_user d vid = map_option v_userId (find_first (\<lambda>v. v_id v = vid) (vendors d))"

definition cancelBooking ::
  "cancel_env \<Rightarrow> interference \<Rightarrow> uid \<Rightarrow> uid \<Rightarrow> world \<Rightarrow> (exn + cancel_result) \<times> world" where
  "cancelBooking env interfere userId bookingId w =
     (case find_first (\<lambda>b. b_id b = bookingId \<and> b_customerId b = userId) (bookings (w_db w)) of
        None \<Rightarrow> (Inl (NotFound BookingNotFound), w)
      | Some b \<Rightarrow>
        case find_first (\<lambda>a. a_id a = b_activityId b) (activities (w_db w)) of
          None \<Rightarrow> (Inl (NotFound RelationNotFound), w)
        | Some a \<Rightarrow>
          let tz = (case find_first (\<lambda>c. co_id c = a_countryId a) (countries (w_db w)) of
                      Some co \<Rightarrow> co_timezone co | None \<Rightarrow> ''UTC'');
              hours = hours_until env tz b;
              pay = payment_of (w_db w) b;
              flush = emit [InvalidateAvailability (b_activityId b)]
          in if b_status b = CANCELLED then (Inl (BadBooking AlreadyCancelled), w)
             else if b_status b = COMPLETED then (Inl (BadBooking AlreadyCompleted), w)
             else if hours < 0 then (Inl (BadBooking AlreadyStarted), w)
             else case pay of
               Some p \<Rightarrow>
                 if p_status p = SUCCESS \<and> p_amount p = 0 then
                   finish_cancel (PointsReturned (b_pointsRedeemed b))
                     (\<lambda>w'. flush (emit [Audit CUSTOMER userId BOOKING_CANCELLED_POINTS_REFUNDED bookingId,
                                   Notify userId BOOKING_CANCELLED] w'))
                     (run_cancel interfere (cancel_points_only env userId b (p_id p)) w)
                 else if p_status p = SUCCESS then
                   let percent = refund_percent env (a_policy a) hours;
                       suggested = suggested_refund (p_amount p) percent
                   in finish_cancel (AwaitingRefund percent suggested)
                     (\<lambda>w'. flush (emit [Notify userId BOOKING_CANCELLED]
                        (emit (case vendor_user (w_db w') (b_vendorId b) of
                                 Some vu \<Rightarrow> [Notify vu REFUND_REQUESTED] | None \<Rightarrow> [])
                          (emit [Audit CUSTOMER userId BOOKING_CANCELLED_AWAITING_REFUND bookingId] w'))))
                     (run_cancel interfere (cancel_paid env userId b (p_id p) suggested) w)
                 else if p_status p = PAY_PENDING \<and> p_gatewayBasketId p \<noteq> None then
                   finish_cancel SoftCancelled flush
                     (run_cancel interfere (cancel_in_flight env userId b (p_id p)) w)
                 else finish_cancel (Removed (b_pointsRedeemed b)) flush
                     (run_cancel interfere (cancel_unpaid env userId b (Some (p_id p))) w)
             | None \<Rightarrow> finish_cancel (Removed (b_pointsRedeemed b)) flush
                     (run_cancel interfere (cancel_unpaid env userId b None) w))"

section \<open>recordRefundDecision\<close>

datatype decision = APPROVE | REJECT
datatype role = ROLE_CUSTOMER | ROLE_VENDOR | ROLE_ADMIN

definition final_amount :: "decision \<Rightarrow> num option \<Rightarrow> num \<Rightarrow> exn + num" where
  "final_amount action amount paidAmount =
     (case action of
        REJECT \<Rightarrow> Inr 0
      | APPROVE \<Rightarrow>
          (case amount of
             None \<Rightarrow> Inl (BadBooking AmountRequired)
           | Some x \<Rightarrow>
               if x < 0 then Inl (BadBooking AmountNegative)
               else if x > paidAmount then Inl (BadBooking AmountTooLarge)
               else Inr (cents x)))"

definition refund_points :: "decision \<Rightarrow> num \<Rightarrow> num \<Rightarrow> num" where
  "refund_points action finalAmount qarPerPoint =
     (if action = APPROVE \<and> finalAmount > 0 \<and> qarPerPoint > 0 then cents (finalAmount / qarPerPoint) else 0)"

text \<open>\<open>note ? note.slice(0, 1000) : null\<close>.\<close>

definition safe_note :: "string option \<Rightarrow> string option" where
  "safe_note note = (case note of Some s \<Rightarrow> if s = [] then None else Some (utf16_take 1000 s) | None \<Rightarrow> None)"

definition decision_tx ::
  "cancel_env \<Rightarrow> uid \<Rightarrow> actor \<Rightarrow> booking \<Rightarrow> uid \<Rightarrow> decision \<Rightarrow> num \<Rightarrow> num \<Rightarrow> string option \<Rightarrow> db \<Rightarrow> exn + (unit \<times> db)" where
  "decision_tx env userId act b pid action finalAmount points note tx =
     and_then (flip_payment pid REFUND_PENDING
        (\<lambda>p. p\<lparr>p_status := (if action = APPROVE then REFUNDED else REJECTED),
              p_refundAmount := (if action = APPROVE then Some finalAmount else None),
              p_refundedAt := Some (c_now env)\<rparr>) AlreadyDecided tx) (\<lambda>tx1.
     and_then (update_booking_or_throw (b_id b)
        (\<lambda>r. r\<lparr>b_decisionAt := Some (c_now env), b_decisionBy := Some userId,
              b_decisionActor := Some act, b_decisionNote := note\<rparr>) tx1) (\<lambda>tx2.
     if points > 0
     then and_then (refund tx2 (b_customerId b) points (b_id b)
            (if act = ADMIN then ADMIN_REFUND_APPROVED else VENDOR_REFUND_APPROVED) act (Some userId))
          (\<lambda>(_, tx3). Inr ((), tx3))
     else Inr ((), tx2)))"

record decision_result =
  dr_action :: decision
  dr_amount :: num
  dr_points :: num
  dr_actor :: actor

definition recordRefundDecision ::
  "cancel_env \<Rightarrow> interference \<Rightarrow> uid \<Rightarrow> role \<Rightarrow> uid \<Rightarrow> decision \<Rightarrow> num option \<Rightarrow> string option \<Rightarrow> world \<Rightarrow>
   (exn + decision_result) \<times> world" where
  "recordRefundDecision env interfere userId userRole bookingId action amount note w =
     (case find_first (\<lambda>b. b_id b = bookingId) (bookings (w_db w)) of
        None \<Rightarrow> (Inl (NotFound BookingNotFound), w)
      | Some b \<Rightarrow>
        case payment_of (w_db w) b of
          None \<Rightarrow> (Inl (BadBooking NoPaymentForBooking), w)
        | Some p \<Rightarrow>
          let isAdmin = (userRole = ROLE_ADMIN);
              isVendorOwner = (userRole = ROLE_VENDOR \<and> vendor_user (w_db w) (b_vendorId b) = Some userId);
              act = (if isAdmin then ADMIN else VENDOR)
          in if b_status b \<noteq> CANCELLED then (Inl (BadBooking NotCancelled), w)
             else if p_status p \<noteq> REFUND_PENDING then (Inl (Conflict AlreadyDecided), w)
             else if \<not> isAdmin \<and> \<not> isVendorOwner then (Inl Forbidden, w)
             else case final_amount action amount (p_amount p) of
               Inl ex \<Rightarrow> (Inl ex, w)
             | Inr finalAmount \<Rightarrow>
                 let (cfg, d1) = load_loyalty_config (w_db w);
                     points = refund_points action finalAmount (lc_qarPerPoint cfg);
                     clawback = (action = APPROVE \<and> finalAmount > 0 \<and> p_payoutStatus p = PAID)
                 in finish_cancel \<lparr>dr_action = action, dr_amount = finalAmount, dr_points = points, dr_actor = act\<rparr>
                      (\<lambda>w'. emit ((if clawback then [Audit act userId REFUND_ON_PAID_OUT_BOOKING bookingId,
                                      NotifyAdmins SYSTEM_NOTICE] else []) @
                                  [Audit act userId (if action = APPROVE then REFUND_APPROVED_AS_POINTS
                                                     else REFUND_REJECTED) bookingId,
                                   Notify (b_customerId b) REFUND_DECIDED]) w')
                      (run_cancel interfere (decision_tx env userId act b (p_id p) action finalAmount points
                         (safe_note note)) (w\<lparr>w_db := d1\<rparr>)))"

end
