(* ===== verification/Scenario.thy ===== *)
theory Scenario
  imports CancelBooking
begin

text \<open>
  One concrete installation the examples run on: a country, a vendor with an hourly activity sold by
  seats (10), a daily one rented by the unit (11) and an hourly one with shared units (12), two
  customers, a coupon and a loyalty configuration; then the requests the examples make.
\<close>

named_theorems scenario \<open>the definitions of the example installation\<close>

definition qatar_tz :: tzdb where
  "qatar_tz z t = (if z = ''Asia/Qatar'' then Some (3 * hour_ms) else None)"

definition sc_now :: ms where
  "sc_now = midnight (Civil 2026 3 1) + 10 * hour_ms"

definition sc_customer :: user where
  "sc_customer = \<lparr>u_id = 7, u_email = ''c@x.qa'', u_phone = None, u_deletedAt = None, u_points = 100, u_bookingOtpVerifiedAt = None\<rparr>"

definition sc_vendor_user :: user where
  "sc_vendor_user = \<lparr>u_id = 8, u_email = ''v@x.qa'', u_phone = None, u_deletedAt = None, u_points = 0, u_bookingOtpVerifiedAt = None\<rparr>"

definition sc_vendor :: vendor where
  "sc_vendor = \<lparr>v_id = 3, v_userId = 8, v_countryId = 1, v_status = VENDOR_ACTIVE,
     v_bankDetails = True, v_bankDetailsChangedAt = None, v_commissionPct = None\<rparr>"

definition sc_country :: country where
  "sc_country = \<lparr>co_id = 1, co_timezone = ''Asia/Qatar'', co_serviceFee = 5, co_currency = ''QAR''\<rparr>"

definition sc_category :: category where
  "sc_category = \<lparr>cat_id = 2, cat_commissionPct = Some 10\<rparr>"

definition sc_hourly :: activity where
  "sc_hourly = \<lparr>a_id = 10, a_vendorId = 3, a_countryId = 1, a_categoryId = 2, a_titleEn = ''Dunes'', a_price = 50,
     a_duration = Some 1, a_capacity = Some 4, a_bookingType = HOURLY, a_pricing = PER_PERSON,
     a_checkIn = Some (HM 8 0), a_checkOut = Some (HM 18 0), a_hasUnits = False, a_unitCount = 0,
     a_unitCapacity = 0, a_policy = Some FREE_CANCELLATION, a_status = ACT_ACTIVE,
     a_extras = Some [\<lparr>x_name = ''Lunch'', x_price = 20, x_perPerson = True\<rparr>], a_activeDays = []\<rparr>"

definition sc_daily :: activity where
  "sc_daily = sc_hourly\<lparr>a_id := 11, a_price := 300, a_capacity := None, a_bookingType := DAILY,
     a_pricing := PER_UNIT, a_checkIn := Some (HM 15 0), a_checkOut := Some (HM 12 0),
     a_hasUnits := True, a_unitCount := 2, a_unitCapacity := 4\<rparr>"

definition sc_shared :: activity where
  "sc_shared = sc_hourly\<lparr>a_id := 12, a_capacity := None, a_hasUnits := True, a_unitCount := 2, a_unitCapacity := 3\<rparr>"

definition sc_coupon :: coupon where
  "sc_coupon = \<lparr>cp_id = 40, cp_code = ''SAVE10'', cp_vendorId = None, cp_activityIds = [],
     cp_type = PERCENTAGE, cp_value = 10, cp_validFrom = sc_now - day_ms, cp_validTo = sc_now + 30 * day_ms,
     cp_usageLimit = Some 1, cp_usedCount = 0, cp_minOrder = None, cp_maxDiscount = None,
     cp_status = APPROVED\<rparr>"

definition sc_grant :: ledger_row where
  "sc_grant = \<lparr>l_userId = 7, l_delta = 100, l_balanceAfter = 100, l_source = ADMIN_ADJUST, l_bookingId = None,
     l_actor = ADMIN, l_actorId = Some 9\<rparr>"

definition sc_db :: db where
  "sc_db = \<lparr>users = [sc_customer, sc_vendor_user], vendors = [sc_vendor], countries = [sc_country],
     categories = [sc_category], activities = [sc_hourly, sc_daily, sc_shared], blocks = [],
     specials = [\<lparr>sp_id = 60, sp_activityId = 11, sp_vendorId = 3, sp_date = Civil 2026 3 11,
                   sp_price = 400, sp_deletedAt = None\<rparr>],
     bookings = [], payments = [], coupons = [sc_coupon], claimed = [], ledger = [sc_grant],
     loyaltyConfig = Some \<lparr>lc_pointsPerQar = 1 / 100, lc_qarPerPoint = 1, lc_minRedemption = 1\<rparr>,
     defaultCommissionPct = Some 15, outbox = [], payoutRequests = []\<rparr>"

definition sc_world :: world where
  "sc_world = \<lparr>w_db = sc_db, w_fx = []\<rparr>"

definition sc_env :: booking_env where
  "sc_env = \<lparr>e_now = sc_now, e_tz = qatar_tz, e_maxAdvanceMonths = 6, e_reservationMinutes = 15,
     e_lockTtlMs = 30000, e_maxSlotUnits = 24, e_maxNights = 90, e_dayCap = 200, e_ref = ''JDWL-1'',
     e_bookingId = 100, e_paymentId = 101, e_outboxId = 102, e_token = 103, e_conflict = False,
     e_outboxFails = False\<rparr>"

definition sc_cancel :: cancel_env where
  "sc_cancel = \<lparr>c_now = sc_now, c_tz = qatar_tz, c_deadlineHours = 24, c_partialPercent = 50\<rparr>"

text \<open>Two guests, 9:00, lunch for both, a coupon and twenty points.\<close>

definition sc_dto :: booking_dto where
  "sc_dto = \<lparr>d_activityId = 10, d_checkInDate = Civil 2026 3 10, d_slotTime = Some (HM 9 0),
     d_slotEndTime = None, d_checkOutDate = None, d_guests = 2, d_phone = ''+97455555555'',
     d_breakdown = None, d_extras = Some [''Lunch''], d_extrasQty = None,
     d_couponCode = Some ''save10'', d_voucherId = None, d_redeemPoints = Some 20,
     d_idempotencyKey = Some ''k1''\<rparr>"

text \<open>Two nights in a room, and two seats of a shared unit.\<close>

definition sc_stay :: booking_dto where
  "sc_stay = sc_dto\<lparr>d_activityId := 11, d_checkInDate := Civil 2026 3 10, d_slotTime := None,
     d_checkOutDate := Some (Civil 2026 3 12), d_extras := None, d_couponCode := None,
     d_redeemPoints := None\<rparr>"

definition sc_seat :: booking_dto where
  "sc_seat = sc_dto\<lparr>d_activityId := 12, d_extras := None, d_couponCode := None, d_redeemPoints := None\<rparr>"

definition sc_redis :: redis where
  "sc_redis = \<lparr>r_store = (\<lambda>_. None), r_clock = 0, r_up = True\<rparr>"

lemmas [scenario] = qatar_tz_def sc_now_def sc_customer_def sc_vendor_user_def sc_vendor_def sc_country_def
  sc_category_def sc_hourly_def sc_daily_def sc_shared_def sc_coupon_def sc_grant_def sc_db_def sc_world_def sc_env_def
  sc_dto_def sc_stay_def sc_seat_def sc_redis_def

section \<open>The installation satisfies the invariants\<close>

lemma sc_points_ok: "points_ok sc_db"
  by (simp add: points_ok_def sc_db_def unique_on_def rows_ok_def ledger_sum_def sum_rows_def sc_grant_def
      sc_customer_def sc_vendor_user_def two_dp_def)

lemma sc_coupons_ok: "coupons_ok sc_db"
  by (simp add: coupons_ok_def sc_db_def unique_on_def coupon_wf_def sc_coupon_def)

lemma sc_rows_of_db: "payments sc_db = []" "bookings sc_db = []" "coupons sc_db = [sc_coupon]"
  by (simp_all add: sc_db_def)

lemma sc_prices_ok: "prices_ok sc_db"
  by (simp add: prices_ok_def sc_db_def sc_hourly_def sc_daily_def sc_shared_def sc_country_def two_dp_def)

section \<open>Two guests book the hourly activity\<close>

definition sc_start :: ms where
  "sc_start = buildDatetime (Civil 2026 3 10) (HM 9 0)"

definition sc_end :: ms where
  "sc_end = buildDatetime (Civil 2026 3 10) (HM 10 0)"

definition sc_quote :: quote where
  "sc_quote = \<lparr>q_total = 140,
     q_extras = [\<lparr>s_name = ''Lunch'', s_price = 20, s_qty = 2, s_perPerson = True\<rparr>],
     q_commissionPct = 10, q_couponCode = Some ''SAVE10'', q_couponDiscount = 14, q_final = 126,
     q_points = 20, q_pointsDiscount = 20, q_fee = 5, q_commission = 63 / 5, q_payable = 111\<rparr>"

definition sc_booking :: booking where
  "sc_booking = new_booking sc_env 7 sc_dto sc_hourly sc_country None sc_start sc_end sc_quote PENDING
     (Some (sc_now + 15 * minute_ms))"

definition sc_payment :: payment where
  "sc_payment = (new_payment sc_env ''QAR'' 111 PAY_PENDING METHOD_PENDING None)
     \<lparr>p_bookingId := Some 100, p_snapshot := Some (buildBookingSnapshot sc_booking)\<rparr>"

definition sc_db_coupon :: db where
  "sc_db_coupon = sc_db\<lparr>coupons := [sc_coupon\<lparr>cp_usedCount := 1, cp_status := EXPIRED\<rparr>]\<rparr>"

definition sc_db_booked :: db where
  "sc_db_booked = sc_db_coupon\<lparr>bookings := [sc_booking], payments := [sc_payment],
     users := [sc_customer\<lparr>u_points := 80\<rparr>, sc_vendor_user],
     ledger := [sc_grant, \<lparr>l_userId = 7, l_delta = - 20, l_balanceAfter = 80, l_source = BOOKING_REDEEM,
                 l_bookingId = Some 100, l_actor = CUSTOMER, l_actorId = Some 7\<rparr>]\<rparr>"

definition sc_world_booked :: world where
  "sc_world_booked = \<lparr>w_db = sc_db_booked,
     w_fx = [Audit CUSTOMER 7 BOOKING_CREATED 100, SpawnBookingOtp 100, InvalidateAvailability 10]\<rparr>"

lemma sc_env_simps: "e_conflict sc_env = False" "e_bookingId sc_env = 100" "e_paymentId sc_env = 101" "e_now sc_env = sc_now"
  by (simp_all add: sc_env_def)

lemma sc_validate: "validate_request sc_env sc_db sc_dto = Inr (sc_hourly, sc_vendor, sc_country, Civil 2026 3 1)"
  by code_simp

lemma sc_window:
  "booking_window sc_env sc_dto sc_hourly (co_timezone sc_country) (Civil 2026 3 1) = Inr (sc_start, sc_end)"
  by code_simp

lemma sc_checks: "check_blocks_and_duplicates sc_env sc_db 7 sc_dto sc_hourly sc_start sc_end = Inr ()"
  by code_simp

lemma sc_rows: "window_bookings sc_env sc_db (d_activityId sc_dto) sc_start sc_end = []"
  by code_simp

lemma sc_assign: "assign_unit sc_hourly (d_guests sc_dto) [] sc_start sc_end = Inr (None, Some 4)"
  by code_simp

lemma sc_capacity: "check_capacity (d_guests sc_dto) [] None (Some 4) sc_start sc_end = Inr ()"
  by code_simp

lemma sc_breakdown: "check_breakdown sc_dto = Inr ()"
  by code_simp

lemma sc_extras:
  "extras_stage sc_hourly (d_extras sc_dto) (d_extrasQty sc_dto) (d_guests sc_dto) = Inr (4000, q_extras sc_quote)"
  by code_simp

lemma sc_total: "total_price_cents sc_db sc_dto sc_hourly sc_start sc_end = 10000"
  by code_simp

lemma sc_coupon_stage:
  "coupon_stage sc_env sc_db 7 sc_dto sc_hourly 140 = Inr ((Some ''SAVE10'', 14), sc_db_coupon)"
  by code_simp

lemma sc_points:
  "redeem_stage sc_db_coupon (d_redeemPoints sc_dto) 126 5 =
     Inr (\<lparr>rd_points = 20, rd_discount = 20, rd_fee = 5\<rparr>, sc_db_coupon)"
  by code_simp

lemma sc_commission:
  "commission_pct sc_db sc_vendor (find_first (\<lambda>c. cat_id c = a_categoryId sc_hourly) (categories sc_db)) = 10"
  by code_simp

lemma sc_amounts: "cents 126 = 126" "payable_amount 126 5 20 = 111" "commission_amount 126 10 = 63 / 5"
  "co_serviceFee sc_country = 5"
  by code_simp+

lemma sc_price:
  "price_booking sc_env sc_db 7 sc_dto sc_hourly sc_vendor sc_country sc_start sc_end = Inr (sc_quote, sc_db_coupon)"
  unfolding price_booking_def
  by (simp add: sc_extras sc_total sc_coupon_stage sc_points sc_commission sc_amounts, simp add: sc_quote_def)

lemma sc_finalize:
  "finalize_booking sc_env sc_db_coupon 7 sc_dto sc_hourly sc_country None sc_start sc_end sc_quote =
     Inr (sc_booking, sc_db_booked)"
  by code_simp

lemma sc_tx:
  "create_tx sc_env 7 sc_dto sc_hourly sc_vendor sc_country sc_start sc_end sc_db =
     Inr ((sc_booking, Some 4), sc_db_booked)"
  unfolding create_tx_def
  by (simp add: sc_rows sc_assign sc_capacity sc_breakdown sc_price sc_finalize sc_env_simps)

lemma sc_seats: "seats_remaining sc_db_booked sc_booking (Some 4) = Some 2"
  by code_simp

lemma sc_booking_simps [simp]:
  "b_id sc_booking = 100" "b_status sc_booking = PENDING" "b_activityId sc_booking = 10"
  "b_customerId sc_booking = 7" "b_pointsRedeemed sc_booking = 20" "b_pointsDiscount sc_booking = 20"
  "b_totalPrice sc_booking = 126" "b_serviceFee sc_booking = 5" "b_couponCode sc_booking = Some ''SAVE10''"
  "b_start sc_booking = sc_start" "b_end sc_booking = sc_end" "b_guests sc_booking = 2"
  "b_couponDiscount sc_booking = 14"
  by (simp_all add: sc_booking_def sc_env_def sc_dto_def sc_quote_def)

lemma sc_fresh: "replayed sc_db 7 sc_dto = None" "d_activityId sc_dto = 10" "w_db sc_world = sc_db"
  by (code_simp, simp_all add: sc_dto_def sc_world_def)

lemma sc_lock:
  "acquire sc_redis k (e_lockTtlMs sc_env) (e_token sc_env) =
     (Some 103, sc_redis\<lparr>r_store := (\<lambda>_. None)(k \<mapsto> (103, 30000))\<rparr>)"
  by (simp add: acquire_def redis_set_nx_def redis_get_def sc_redis_def sc_env_def)

lemma sc_otp:
  "otp_after_create sc_env 7 sc_booking (emit fx (sc_world\<lparr>w_db := sc_db_booked\<rparr>)) =
     (sc_booking, \<lparr>w_db = sc_db_booked, w_fx = fx @ [SpawnBookingOtp 100]\<rparr>)"
  by (simp add: otp_after_create_def emit_def sc_db_booked_def find_first_def sc_customer_def sc_world_def)

lemma sc_notify: "notify_after_create sc_env sc_booking w = w"
  by (simp add: notify_after_create_def)

text \<open>The request is accepted: 126.00 for the booking, 5.00 fee, 20 points, 111.00 to pay.\<close>

lemma sc_create:
  "createBooking sc_env 7 sc_dto sc_redis sc_world =
     (Inr (Created sc_booking (Some 2)), release (sc_redis\<lparr>r_store := (\<lambda>_. None)(lock_key_of sc_dto \<mapsto> (103, 30000))\<rparr>)
        (lock_key_of sc_dto) 103, sc_world_booked)"
  unfolding createBooking_def
  by (simp add: sc_fresh sc_validate sc_window sc_checks sc_lock sc_tx sc_seats sc_otp sc_notify transaction_def Let_def,
      simp add: emit_def sc_world_booked_def)

section \<open>A stay of two nights takes a unit\<close>

definition stay_start :: ms where
  "stay_start = buildDatetime (Civil 2026 3 10) (HM 15 0)"

definition stay_end :: ms where
  "stay_end = buildDatetime (Civil 2026 3 12) (HM 12 0)"

definition stay_quote :: quote where
  "stay_quote = \<lparr>q_total = 700, q_extras = [], q_commissionPct = 10, q_couponCode = None,
     q_couponDiscount = 0, q_final = 700, q_points = 0, q_pointsDiscount = 0, q_fee = 5,
     q_commission = 70, q_payable = 705\<rparr>"

definition stay_booking :: booking where
  "stay_booking = new_booking sc_env 7 sc_stay sc_daily sc_country (Some 1) stay_start stay_end stay_quote PENDING
     (Some (sc_now + 15 * minute_ms))"

definition stay_db :: db where
  "stay_db = sc_db\<lparr>bookings := [stay_booking],
     payments := [(new_payment sc_env ''QAR'' 705 PAY_PENDING METHOD_PENDING None)
       \<lparr>p_bookingId := Some 100, p_snapshot := Some (buildBookingSnapshot stay_booking)\<rparr>]\<rparr>"

definition stay_world :: world where
  "stay_world = \<lparr>w_db = stay_db,
     w_fx = [Audit CUSTOMER 7 BOOKING_CREATED 100, SpawnBookingOtp 100, InvalidateAvailability 11]\<rparr>"

lemma stay_request:
  "replayed sc_db 7 sc_stay = None"
  "validate_request sc_env sc_db sc_stay = Inr (sc_daily, sc_vendor, sc_country, Civil 2026 3 1)"
  "booking_window sc_env sc_stay sc_daily (co_timezone sc_country) (Civil 2026 3 1) = Inr (stay_start, stay_end)"
  "check_blocks_and_duplicates sc_env sc_db 7 sc_stay sc_daily stay_start stay_end = Inr ()"
  by code_simp+

lemma stay_units:
  "window_bookings sc_env sc_db (d_activityId sc_stay) stay_start stay_end = []"
  "assign_unit sc_daily (d_guests sc_stay) [] stay_start stay_end = Inr (Some 1, Some 4)"
  "check_capacity (d_guests sc_stay) [] (Some 1) (Some 4) stay_start stay_end = Inr ()"
  "check_breakdown sc_stay = Inr ()"
  by code_simp+

lemma stay_nights:
  "night_dates (Civil 2026 3 10) 2 = [Civil 2026 3 10, Civil 2026 3 11]"
  "nights_between (Civil 2026 3 10) (Civil 2026 3 12) = 2" "price_cents 300 = 30000" "price_cents 400 = 40000"
  by code_simp+

lemma stay_total: "total_price_cents sc_db sc_stay sc_daily stay_start stay_end = 70000"
  by (simp add: total_price_cents_def daily_total_cents_def stay_nights sc_stay_def sc_dto_def sc_daily_def sc_hourly_def
      special_rows_def find_many_def sc_db_def cents_by_date_def or_default_def)

lemma stay_amounts:
  "extras_stage sc_daily (d_extras sc_stay) (d_extrasQty sc_stay) (d_guests sc_stay) = Inr (0, [])"
  "coupon_stage sc_env sc_db 7 sc_stay sc_daily 700 = Inr ((None, 0), sc_db)"
  "redeem_stage sc_db (d_redeemPoints sc_stay) 700 5 = Inr (\<lparr>rd_points = 0, rd_discount = 0, rd_fee = 5\<rparr>, sc_db)"
  "commission_pct sc_db sc_vendor (find_first (\<lambda>c. cat_id c = a_categoryId sc_daily) (categories sc_db)) = 10"
  "cents 700 = 700" "payable_amount 700 5 0 = 705" "commission_amount 700 10 = 70"
  by code_simp+

lemma stay_price:
  "price_booking sc_env sc_db 7 sc_stay sc_daily sc_vendor sc_country stay_start stay_end = Inr (stay_quote, sc_db)"
  unfolding price_booking_def by (simp add: stay_amounts stay_total sc_amounts, simp add: stay_quote_def)

lemma stay_finalize:
  "finalize_booking sc_env sc_db 7 sc_stay sc_daily sc_country (Some 1) stay_start stay_end stay_quote = Inr (stay_booking, stay_db)"
  by code_simp

lemma stay_tx:
  "create_tx sc_env 7 sc_stay sc_daily sc_vendor sc_country stay_start stay_end sc_db = Inr ((stay_booking, Some 4), stay_db)"
  unfolding create_tx_def by (simp add: stay_units stay_price stay_finalize sc_env_simps del: One_nat_def)

lemma stay_booking_simps [simp]:
  "b_id stay_booking = 100" "b_status stay_booking = PENDING" "b_activityId stay_booking = 11"
  "b_customerId stay_booking = 7" "b_unit stay_booking = Some 1"
  "b_start stay_booking = stay_start" "b_end stay_booking = stay_end" "b_guests stay_booking = 2"
  by (simp_all add: stay_booking_def sc_env_def sc_dto_def sc_stay_def)

lemma stay_after:
  "seats_remaining stay_db stay_booking (Some 4) = Some 2"
  "otp_after_create sc_env 7 stay_booking (emit fx (sc_world\<lparr>w_db := stay_db\<rparr>)) =
     (stay_booking, \<lparr>w_db = stay_db, w_fx = fx @ [SpawnBookingOtp 100]\<rparr>)"
  "notify_after_create sc_env stay_booking w = w" "d_activityId sc_stay = 11"
  by (code_simp, simp_all add: otp_after_create_def emit_def stay_db_def sc_db_def find_first_def sc_customer_def
      sc_world_def notify_after_create_def sc_stay_def)

lemma stay_create:
  "createBooking sc_env 7 sc_stay sc_redis sc_world =
     (Inr (Created stay_booking (Some 2)),
      release (sc_redis\<lparr>r_store := (\<lambda>_. None)(lock_key_of sc_stay \<mapsto> (103, 30000))\<rparr>) (lock_key_of sc_stay) 103, stay_world)"
  unfolding createBooking_def
  by (simp add: sc_fresh stay_request sc_lock stay_tx stay_after transaction_def Let_def, simp add: emit_def stay_world_def)

section \<open>Two seats of a shared unit\<close>

definition seat_start :: ms where
  "seat_start = sc_start"

definition seat_end :: ms where
  "seat_end = sc_end"

definition seat_quote :: quote where
  "seat_quote = \<lparr>q_total = 100, q_extras = [], q_commissionPct = 10, q_couponCode = None,
     q_couponDiscount = 0, q_final = 100, q_points = 0, q_pointsDiscount = 0, q_fee = 5,
     q_commission = 10, q_payable = 105\<rparr>"

definition seat_booking :: booking where
  "seat_booking = new_booking sc_env 7 sc_seat sc_shared sc_country (Some 1) seat_start seat_end seat_quote PENDING
     (Some (sc_now + 15 * minute_ms))"

definition seat_db :: db where
  "seat_db = sc_db\<lparr>bookings := [seat_booking],
     payments := [(new_payment sc_env ''QAR'' 105 PAY_PENDING METHOD_PENDING None)
       \<lparr>p_bookingId := Some 100, p_snapshot := Some (buildBookingSnapshot seat_booking)\<rparr>]\<rparr>"

definition seat_world :: world where
  "seat_world = \<lparr>w_db = seat_db,
     w_fx = [Audit CUSTOMER 7 BOOKING_CREATED 100, SpawnBookingOtp 100, InvalidateAvailability 12]\<rparr>"

lemma seat_request:
  "replayed sc_db 7 sc_seat = None"
  "validate_request sc_env sc_db sc_seat = Inr (sc_shared, sc_vendor, sc_country, Civil 2026 3 1)"
  "booking_window sc_env sc_seat sc_shared (co_timezone sc_country) (Civil 2026 3 1) = Inr (seat_start, seat_end)"
  "check_blocks_and_duplicates sc_env sc_db 7 sc_seat sc_shared seat_start seat_end = Inr ()"
  by code_simp+

lemma seat_units:
  "window_bookings sc_env sc_db (d_activityId sc_seat) seat_start seat_end = []"
  "assign_unit sc_shared (d_guests sc_seat) [] seat_start seat_end = Inr (Some 1, Some 3)"
  "check_capacity (d_guests sc_seat) [] (Some 1) (Some 3) seat_start seat_end = Inr ()"
  "check_breakdown sc_seat = Inr ()"
  by code_simp+

lemma seat_amounts:
  "extras_stage sc_shared (d_extras sc_seat) (d_extrasQty sc_seat) (d_guests sc_seat) = Inr (0, [])"
  "total_price_cents sc_db sc_seat sc_shared seat_start seat_end = 10000"
  "coupon_stage sc_env sc_db 7 sc_seat sc_shared 100 = Inr ((None, 0), sc_db)"
  "redeem_stage sc_db (d_redeemPoints sc_seat) 100 5 = Inr (\<lparr>rd_points = 0, rd_discount = 0, rd_fee = 5\<rparr>, sc_db)"
  "commission_pct sc_db sc_vendor (find_first (\<lambda>c. cat_id c = a_categoryId sc_shared) (categories sc_db)) = 10"
  "cents 100 = 100" "payable_amount 100 5 0 = 105" "commission_amount 100 10 = 10"
  by code_simp+

lemma seat_price:
  "price_booking sc_env sc_db 7 sc_seat sc_shared sc_vendor sc_country seat_start seat_end = Inr (seat_quote, sc_db)"
  unfolding price_booking_def by (simp add: seat_amounts sc_amounts, simp add: seat_quote_def)

lemma seat_finalize:
  "finalize_booking sc_env sc_db 7 sc_seat sc_shared sc_country (Some 1) seat_start seat_end seat_quote = Inr (seat_booking, seat_db)"
  by code_simp

lemma seat_tx:
  "create_tx sc_env 7 sc_seat sc_shared sc_vendor sc_country seat_start seat_end sc_db = Inr ((seat_booking, Some 3), seat_db)"
  unfolding create_tx_def by (simp add: seat_units seat_price seat_finalize sc_env_simps del: One_nat_def)

lemma seat_booking_simps [simp]:
  "b_id seat_booking = 100" "b_status seat_booking = PENDING" "b_activityId seat_booking = 12"
  "b_customerId seat_booking = 7" "b_unit seat_booking = Some 1"
  "b_start seat_booking = seat_start" "b_end seat_booking = seat_end" "b_guests seat_booking = 2"
  by (simp_all add: seat_booking_def sc_env_def sc_dto_def sc_seat_def)

lemma seat_after:
  "seats_remaining seat_db seat_booking (Some 3) = Some 1"
  "otp_after_create sc_env 7 seat_booking (emit fx (sc_world\<lparr>w_db := seat_db\<rparr>)) =
     (seat_booking, \<lparr>w_db = seat_db, w_fx = fx @ [SpawnBookingOtp 100]\<rparr>)"
  "notify_after_create sc_env seat_booking w = w" "d_activityId sc_seat = 12"
  by (code_simp, simp_all add: otp_after_create_def emit_def seat_db_def sc_db_def find_first_def sc_customer_def
      sc_world_def notify_after_create_def sc_seat_def)

lemma seat_create:
  "createBooking sc_env 7 sc_seat sc_redis sc_world =
     (Inr (Created seat_booking (Some 1)),
      release (sc_redis\<lparr>r_store := (\<lambda>_. None)(lock_key_of sc_seat \<mapsto> (103, 30000))\<rparr>) (lock_key_of sc_seat) 103, seat_world)"
  unfolding createBooking_def
  by (simp add: sc_fresh seat_request sc_lock seat_tx seat_after transaction_def Let_def, simp add: emit_def seat_world_def)

end
