(* ===== verification/CancelProps.thy ===== *)
theory CancelProps
  imports CancelBooking
begin

text \<open>
  Lemmas about cancellation and refund decisions: the guards hold against interfering writers, a
  booking cancelled before payment leaves no trace, a decided refund is bounded and final.
\<close>

section \<open>Guards\<close>

lemma update_booking_or_throw_Inr [cancel]:
  "update_booking_or_throw bid f d = Inr d' \<longleftrightarrow>
   (\<exists>b \<in> set (bookings d). b_id b = bid) \<and> d' = update_booking bid f d"
  by (auto simp: update_booking_or_throw_def find_first_None)

lemma flip_payment_Inr [cancel]:
  "flip_payment pid from f reason d = Inr d' \<longleftrightarrow>
   (\<exists>p \<in> set (payments d). p_id p = pid \<and> p_status p = from) \<and>
   d' = d\<lparr>payments := update_many (\<lambda>p. p_id p = pid \<and> p_status p = from) f (payments d)\<rparr>"
  by (auto simp: flip_payment_def Let_def count_rows_0)

lemma flip_payment_lost [cancel]:
  "(\<And>p. p \<in> set (payments d) \<Longrightarrow> p_id p = pid \<Longrightarrow> p_status p \<noteq> from) \<Longrightarrow>
   flip_payment pid from f reason d = Inl (Conflict reason)"
  by (auto simp: flip_payment_def Let_def count_rows_0)

lemma return_points_Inr [cancel]:
  "return_points tx u x b src = Inr tx' \<longleftrightarrow>
   (if x > 0 then \<exists>bal. refund tx u x b src CUSTOMER (Some u) = Inr (bal, tx') else tx' = tx)"
  by (auto simp: return_points_def and_then_Inr)

lemma run_cancel_Inl [cancel]:
  "run_cancel ifr body w = (Inl ex, w') \<Longrightarrow> w_db w' = ifr (w_db w)"
  by (auto simp: run_cancel_def transaction_Inl)

lemma run_cancel_Inr [cancel]:
  "run_cancel ifr body w = (Inr r, w') \<longleftrightarrow> (\<exists>d. body (ifr (w_db w)) = Inr (r, d) \<and> w' = w\<lparr>w_db := d\<rparr>)"
  by (auto simp: run_cancel_def transaction_Inr)

lemma finish_cancel_Inl [cancel]:
  "finish_cancel res after m = (Inl ex, w') \<longleftrightarrow> m = (Inl ex, w')"
  by (auto simp: finish_cancel_def split: prod.splits sum.splits)

lemma finish_cancel_Inr [cancel]:
  "finish_cancel res after m = (Inr r, w') \<longleftrightarrow> r = res \<and> (\<exists>w1. m = (Inr (), w1) \<and> w' = after w1)"
  by (auto simp: finish_cancel_def split: prod.splits sum.splits)

section \<open>A captured payment is never overwritten\<close>

text \<open>
  The row was read as unpaid or paid; whatever another writer commits before the transaction, the
  transaction either still finds the status it read or throws and writes nothing.
\<close>

lemma cancel_in_flight_race [cancel]:
  assumes "\<And>p. p \<in> set (payments tx) \<Longrightarrow> p_id p = pid \<Longrightarrow> p_status p \<noteq> PAY_PENDING"
  shows "cancel_in_flight env u b pid tx = Inl (Conflict StateChanged)"
  using assms by (simp add: cancel_in_flight_def flip_payment_lost)

lemma cancel_points_only_race [cancel]:
  assumes "\<And>p. p \<in> set (payments tx) \<Longrightarrow> p_id p = pid \<Longrightarrow> p_status p \<noteq> SUCCESS"
  shows "cancel_points_only env u b pid tx = Inl (Conflict StateChanged)"
  using assms by (simp add: cancel_points_only_def flip_payment_lost)

lemma cancel_paid_race [cancel]:
  assumes "\<And>p. p \<in> set (payments tx) \<Longrightarrow> p_id p = pid \<Longrightarrow> p_status p \<noteq> SUCCESS"
  shows "\<not> isInr (cancel_paid env u b pid x tx)"
  using assms
  by (auto simp: cancel_paid_def isInr_iff and_then_Inr update_booking_or_throw_Inr flip_payment_Inr update_booking_def)

lemma refundCouponUsage_tables [simp]:
  "bookings (refundCouponUsage tx c u now) = bookings tx" "payments (refundCouponUsage tx c u now) = payments tx"
  "users (refundCouponUsage tx c u now) = users tx" "ledger (refundCouponUsage tx c u now) = ledger tx"
  "activities (refundCouponUsage tx c u now) = activities tx"
  by (simp_all add: refundCouponUsage_def Let_def split: option.split)

lemma refund_tables [cancel]:
  assumes "refund tx u x b src act actId = Inr (bal, tx')"
  shows "bookings tx' = bookings tx \<and> payments tx' = payments tx \<and> coupons tx' = coupons tx \<and> claimed tx' = claimed tx"
  using assms by (auto simp: refund_cases Let_def post_def split: if_splits option.splits)

lemma return_points_tables [cancel]:
  assumes "return_points tx u x b src = Inr tx'"
  shows "bookings tx' = bookings tx \<and> payments tx' = payments tx \<and> coupons tx' = coupons tx \<and> claimed tx' = claimed tx"
  using assms refund_tables by (fastforce simp: return_points_Inr split: if_splits)

text \<open>In flight: the payment stays, failed, with its basket and snapshot, and the booking is cancelled.\<close>

lemma cancel_in_flight_keeps [cancel]:
  assumes r: "cancel_in_flight env u b pid tx = Inr (x, tx')"
  shows "payments tx' = update_many (\<lambda>p. p_id p = pid \<and> p_status p = PAY_PENDING) (\<lambda>p. p\<lparr>p_status := FAILED\<rparr>) (payments tx)"
    "bookings tx' = update_many (\<lambda>r. b_id r = b_id b) (cancelled_by (c_now env) CUSTOMER) (bookings tx)"
proof -
  obtain tx1 tx3 where f: "flip_payment pid PAY_PENDING (\<lambda>p. p\<lparr>p_status := FAILED\<rparr>) StateChanged tx = Inr tx1"
    and ub: "update_booking_or_throw (b_id b) (cancelled_by (c_now env) CUSTOMER)
        (refundCouponUsage tx1 (b_couponCode b) u (c_now env)) = Inr tx3"
    and rp: "return_points tx3 u (b_pointsRedeemed b) (b_id b) CANCEL_REFUND_UNPAID = Inr tx'"
    using r by (auto simp: cancel_in_flight_def and_then_Inr Let_def)
  show "payments tx' = update_many (\<lambda>p. p_id p = pid \<and> p_status p = PAY_PENDING) (\<lambda>p. p\<lparr>p_status := FAILED\<rparr>) (payments tx)"
    "bookings tx' = update_many (\<lambda>r. b_id r = b_id b) (cancelled_by (c_now env) CUSTOMER) (bookings tx)"
    using return_points_tables [OF rp] ub f
    by (simp_all add: update_booking_or_throw_Inr flip_payment_Inr update_booking_def)
qed

section \<open>A booking cancelled before payment leaves no trace\<close>

lemma coupon_stage_effect [create]:
  assumes ok: "coupons_ok tx" and r: "coupon_stage env tx u dto a t = Inr ((code, disc), tx')"
  shows "code = None \<and> coupons tx' = coupons tx \<or>
    (\<exists>c k. code = Some k \<and> applied tx c t (e_now env) k disc \<and> coupons tx' = coupons (count_row c tx))"
proof -
  consider (none) "code = None" "tx' = tx"
    | (voucher) v k where "applyVoucher tx u v (a_id a) t (e_now env) = Inr ((k, disc), tx')" "code = Some k"
    | (typed) c k where "applyCouponCode tx u c a t (e_now env) = Inr ((k, disc), tx')" "code = Some k"
    using r by (fastforce simp: coupon_stage_def and_then_Inr split: option.splits)
  then show ?thesis
  proof cases
    case none
    then show ?thesis by simp
  next
    case voucher
    have "coupons (count_row c (use_claimed v tx)) = coupons (count_row c tx)" for c v
      by (simp add: update_coupons_def use_claimed_def)
    then show ?thesis using applyVoucher_Inr [OF ok voucher(1)] voucher(2) by metis
  next
    case typed
    then show ?thesis using applyCouponCode_Inr [OF ok typed(1)] by blast
  qed
qed

lemma create_tx_coupon [create]:
  assumes tx: "create_tx env u dto a v co s e d = Inr ((b, cap), d')" and ok: "points_ok d" "coupons_ok d"
    and t: "0 \<le> total_price_cents d dto a s e" and g: "1 \<le> d_guests dto"
    and fee: "0 \<le> co_serviceFee co" "two_dp (co_serviceFee co)"
  shows "b_couponCode b = None \<and> coupons d' = coupons d \<or>
    (\<exists>c k t. b_couponCode b = Some k \<and> applied d c t (e_now env) k (b_couponDiscount b) \<and>
       coupons d' = coupons (count_row c d))"
proof -
  obtain un q tx1 where pb: "price_booking env d u dto a v co s e = Inr (q, tx1)"
    and fin: "finalize_booking env tx1 u dto a co un s e q = Inr (b, d')"
    using tx by (rule create_tx_Inr)
  note ex = price_booking_exact [OF pb ok(2) t g fee]
  have "points_ok tx1" using points_ok_same [of tx1 d] price_booking_tables [OF pb] ok(1) by simp
  then have c: "coupons d' = coupons tx1" using finalize_points [OF fin] ex by blast
  have b: "b_couponCode b = q_couponCode q" "b_couponDiscount b = q_couponDiscount q"
    using finalize_Inr [OF fin] by simp_all
  from pb have "q_couponCode q = None \<and> coupons tx1 = coupons d \<or>
      (\<exists>c k t. q_couponCode q = Some k \<and> applied d c t (e_now env) k (q_couponDiscount q) \<and>
         coupons tx1 = coupons (count_row c d))"
  proof (rule price_booking_Inr)
    fix code disc tx2 p rd
    assume cs: "coupon_stage env d u dto a (q_total q) = Inr ((code, disc), tx2)"
      and rs: "redeem_stage tx2 p (cents (q_total q - disc)) (co_serviceFee co) = Inr (rd, tx1)"
      and q: "q_couponCode q = code" "q_couponDiscount q = disc"
    have "coupons tx1 = coupons tx2" using redeem_stage_tables [OF rs] by simp
    then show ?thesis using coupon_stage_effect [OF ok(2) cs] by (auto simp: q)
  qed
  then show ?thesis using b c by simp
qed

lemma coupons_restored [cancel]:
  assumes ok: "coupons_ok d"
    and eff: "code = None \<and> coupons d' = coupons d \<or>
      (\<exists>c k t. code = Some k \<and> applied d c t now0 k disc \<and> coupons d' = coupons (count_row c d))"
    and later: "\<And>c. c \<in> set (coupons d) \<Longrightarrow> code = Some (cp_code c) \<Longrightarrow> cp_code c \<noteq> [] \<and> cp_validTo c > now"
  shows "coupons (refundCouponUsage d' code u now) = coupons d"
  using eff
proof
  assume "code = None \<and> coupons d' = coupons d"
  then show ?thesis by (simp add: refundCouponUsage_def)
next
  assume "\<exists>c k t. code = Some k \<and> applied d c t now0 k disc \<and> coupons d' = coupons (count_row c d)"
  then obtain c k t where c: "code = Some k" "applied d c t now0 k disc" "coupons d' = coupons (count_row c d)"
    by blast
  have "c \<in> set (coupons d)" "cp_code c = k" using c(2) by (auto simp: applied_def)
  then show ?thesis using coupons_round_trip [OF ok c(2) _ _ c(3)] later c(1) by blast
qed

lemma delete_appended [table]:
  "(\<And>x. x \<in> set t \<Longrightarrow> \<not> p x) \<Longrightarrow> p r \<Longrightarrow> (\<And>x. p x \<Longrightarrow> p (f x)) \<Longrightarrow>
   delete_many p (update_many p f (t @ [r])) = t"
  by (induction t) (auto simp: delete_many_def)

lemma delete_last [table]:
  "(\<And>x. x \<in> set t \<Longrightarrow> \<not> p x) \<Longrightarrow> p r \<Longrightarrow> delete_many p (t @ [r]) = t"
  by (auto simp: delete_many_def filter_id_conv)

text \<open>The transaction of the unpaid branch, on a state whose last rows are the booking and its payment.\<close>

lemma cancel_unpaid_appended [cancel]:
  assumes bs: "bookings d = bs @ [r]" "b_id r = b_id b" "\<And>x. x \<in> set bs \<Longrightarrow> b_id x \<noteq> b_id b"
    and ps: "payments d = ps @ [p]" "\<And>x. x \<in> set ps \<Longrightarrow> p_id x \<noteq> p_id p"
    and ok: "points_ok d" and bal: "b_pointsRedeemed b > 0 \<longrightarrow> balance_of d u \<noteq> None"
    and x: "0 \<le> b_pointsRedeemed b" "two_dp (b_pointsRedeemed b)"
    and new: "\<not> ledger_taken d (Some (b_id b)) CANCEL_REFUND_UNPAID"
  shows "\<exists>d'. cancel_unpaid env u b (Some (p_id p)) d = Inr ((), d') \<and> bookings d' = bs \<and> payments d' = ps \<and>
    coupons d' = coupons (refundCouponUsage d (b_couponCode b) u (c_now env)) \<and> points_ok d' \<and>
    balance_of d' = debited (balance_of d) u (- b_pointsRedeemed b)"
proof -
  let ?d1 = "refundCouponUsage d (b_couponCode b) u (c_now env)"
  define d3 where "d3 = ?d1\<lparr>bookings := bs, payments := ps\<rparr>"
  have del_b: "delete_many (\<lambda>x. b_id x = b_id b) (update_many (\<lambda>x. b_id x = b_id b) (\<lambda>r. r\<lparr>b_paymentId := None\<rparr>) (bs @ [r])) = bs"
    using bs by (intro delete_appended) auto
  have del_p: "delete_many (\<lambda>x. p_id x = p_id p) (ps @ [p]) = ps"
    using ps by (intro delete_last) auto
  let ?nopay = "update_many (\<lambda>x. b_id x = b_id b) (\<lambda>r. r\<lparr>b_paymentId := None\<rparr>) (bs @ [r])"
  have upd: "update_booking_or_throw (b_id b) (\<lambda>r. r\<lparr>b_paymentId := None\<rparr>) ?d1 = Inr (?d1\<lparr>bookings := ?nopay\<rparr>)"
    using bs by (auto simp: update_booking_or_throw_Inr update_booking_def)
  have delp: "delete_payment_or_throw (p_id p) (?d1\<lparr>bookings := ?nopay\<rparr>) = Inr (?d1\<lparr>bookings := ?nopay, payments := ps\<rparr>)"
    using ps del_p by (simp add: delete_payment_or_throw_def find_first_None)
  have "\<exists>x \<in> set ?nopay. b_id x = b_id b"
    using bs(2) by (auto simp: update_many_def)
  then have delb: "delete_booking_or_throw (b_id b) (?d1\<lparr>bookings := ?nopay, payments := ps\<rparr>) = Inr d3"
    using del_b by (simp add: delete_booking_or_throw_def find_first_None d3_def)
  have steps: "cancel_unpaid env u b (Some (p_id p)) d =
      and_then (return_points d3 u (b_pointsRedeemed b) (b_id b) CANCEL_REFUND_UNPAID) (\<lambda>tx4. Inr ((), tx4))"
    using upd delp delb by (simp add: cancel_unpaid_def Let_def)
  have d3: "points_ok d3" "balance_of d3 = balance_of d" "bookings d3 = bs" "payments d3 = ps"
    "coupons d3 = coupons ?d1"
    using points_ok_same [of d3 d] ok by (simp_all add: d3_def)
  show ?thesis
  proof (cases "b_pointsRedeemed b > 0")
    case True
    then obtain y where y: "balance_of d3 u = Some y" using bal d3 by auto
    have "\<not> ledger_taken d3 (Some (b_id b)) CANCEL_REFUND_UNPAID"
      using new ledger_taken_same [of d3 d] by (simp add: d3_def)
    note rf = refund_succeeds [OF y True x(2) this, of CUSTOMER "Some u"]
    let ?d4 = "post d3 (credit_row u (b_pointsRedeemed b) (b_id b) CANCEL_REFUND_UNPAID CUSTOMER (Some u)
        (y + b_pointsRedeemed b))"
    have "refunds (b_id b) CANCEL_REFUND_UNPAID CUSTOMER (Some u) d3 u (b_pointsRedeemed b) ?d4"
      using rf x by (auto simp: refunds_def)
    note cr = points.credit_inv [OF d3(1) this] points.credit_bal [OF d3(1) this]
    have "cancel_unpaid env u b (Some (p_id p)) d = Inr ((), ?d4)"
      using steps rf True by (simp add: return_points_def)
    moreover have "balance_of ?d4 = debited (balance_of d) u (- b_pointsRedeemed b)"
    proof
      fix n show "balance_of ?d4 n = debited (balance_of d) u (- b_pointsRedeemed b) n"
        using cr(2) [of n] d3(2) by (cases "n = u") (simp_all add: debited_def)
    qed
    ultimately show ?thesis using cr(1) d3 by (intro exI [of _ ?d4]) simp
  next
    case False
    then have "cancel_unpaid env u b (Some (p_id p)) d = Inr ((), d3)" "b_pointsRedeemed b = 0"
      using steps x by (simp_all add: return_points_def)
    then show ?thesis using d3 by auto
  qed
qed

lemma find_first_append [table]:
  "find_first p (t @ u) = (case find_first p t of Some r \<Rightarrow> Some r | None \<Rightarrow> find_first p u)"
  by (induction t) auto

lemma find_first_last [table]:
  "(\<And>x. x \<in> set t \<Longrightarrow> \<not> p x) \<Longrightarrow> p r \<Longrightarrow> find_first p (t @ [r]) = Some r"
  by (subst find_first_append) (auto simp: find_first_None split: option.splits dest: find_first_Some)

lemma same_but_otp_rows [create]:
  assumes "same_but_otp env b0 d b d'" "bookings d = bs @ [b0]" "\<And>x. x \<in> set bs \<Longrightarrow> b_id x \<noteq> b_id b0"
  shows "bookings d' = bs @ [b]"
proof -
  have "update_many (\<lambda>r. b_id r = b_id b0) f bs = bs" for f
    by (rule update_many_none) (use assms(3) in auto)
  then show ?thesis using assms(1,2) by (auto simp: same_but_otp_def update_many_def)
qed

lemma coupons_ok_same: "coupons d' = coupons d \<Longrightarrow> coupons_ok d' = coupons_ok d"
  by (simp add: coupons_ok_def)

lemma refundCouponUsage_same:
  "coupons d = coupons d' \<Longrightarrow> coupons (refundCouponUsage d c u now) = coupons (refundCouponUsage d' c u now)"
  by (simp add: refundCouponUsage_def Let_def update_coupons_def split: option.split)

text \<open>What a successful creation leaves for the handlers that come after it.\<close>

lemma createBooking_leaves [create]:
  assumes cr: "createBooking env u dto r w = (Inr (Created b rem), r', w')"
    and inv: "points_ok (w_db w)" "coupons_ok (w_db w)" "prices_ok (w_db w)"
    and a: "find_first (\<lambda>a. a_id a = d_activityId dto) (activities (w_db w)) = Some a"
    and dur: "0 \<le> or_default 0 (a_duration a)" and g: "1 \<le> d_guests dto"
  obtains p where
    "bookings (w_db w') = bookings (w_db w) @ [b]" "payments (w_db w') = payments (w_db w) @ [p]"
    "\<And>x. x \<in> set (bookings (w_db w)) \<Longrightarrow> b_id x \<noteq> b_id b"
    "b_customerId b = u" "b_activityId b = d_activityId dto" "b_paymentId b = Some (p_id p)"
    "p_id p = e_paymentId env" "p_bookingId p = Some (b_id b)" "p_gatewayBasketId p = None"
    "p_amount p + b_pointsDiscount b = b_totalPrice b + b_serviceFee b" "0 \<le> p_amount p"
    "b_status b = (if p_amount p = 0 then CONFIRMED else PENDING)"
    "p_status p = (if p_amount p = 0 then SUCCESS else PAY_PENDING)"
    "points_ok (w_db w')" "coupons_ok (w_db w')"
    "balance_of (w_db w') = debited (balance_of (w_db w)) u (b_pointsRedeemed b)"
    "0 \<le> b_pointsRedeemed b" "two_dp (b_pointsRedeemed b)"
    "b_pointsRedeemed b > 0 \<longrightarrow> balance_of (w_db w) u \<noteq> None"
    "b_couponCode b = None \<and> coupons (w_db w') = coupons (w_db w) \<or>
      (\<exists>c k t. b_couponCode b = Some k \<and> applied (w_db w) c t (e_now env) k (b_couponDiscount b) \<and>
         coupons (w_db w') = coupons (count_row c (w_db w)))"
proof (rule createBooking_tx [OF cr a])
  fix v co b0 cap d today
  assume tx: "create_tx env u dto a v co (b_start b) (b_end b) (w_db w) = Inr ((b0, cap), d)"
    and same: "same_but_otp env b0 d b (w_db w')"
    and vr: "validate_request env (w_db w) dto = Inr (a, v, co, today)"
  have am: "a \<in> set (activities (w_db w))" "co \<in> set (countries (w_db w))"
    using find_first_Some [OF a] validate_request_Inr [OF vr] by auto
  then have pr: "0 \<le> a_price a" "list_all (\<lambda>s. 0 \<le> sp_price s) (specials (w_db w))"
    "0 \<le> co_serviceFee co" "two_dp (co_serviceFee co)"
    using inv(3) by (auto simp: prices_ok_def list_all_iff)
  have t: "0 \<le> total_price_cents (w_db w) dto a (b_start b) (b_end b)"
    using daily_total_nonneg [OF pr(1,2)] hourly_total_nonneg [OF pr(1,2) _ dur] g
    by (simp add: total_price_cents_def)
  note ch = create_tx_charge [OF tx inv(1,2) t g pr(3,4)]
  note cc = create_tx_coupon [OF tx inv(1,2) t g pr(3,4)]
  note cb = create_tx_bookings [OF tx]
  obtain un q tx1 where pb: "price_booking env (w_db w) u dto a v co (b_start b) (b_end b) = Inr (q, tx1)"
    and fin: "finalize_booking env tx1 u dto a co un (b_start b) (b_end b) q = Inr (b0, d)"
    using tx by (rule create_tx_Inr)
  note ex = price_booking_exact [OF pb inv(2) t g pr(3,4)]
  have fresh: "\<And>x. x \<in> set (bookings (w_db w)) \<Longrightarrow> b_id x \<noteq> b_id b0"
    using finalize_Inr [OF fin] price_booking_tables [OF pb] by (auto simp: key_taken_def list_ex_iff)
  have rows: "bookings (w_db w') = bookings (w_db w) @ [b]"
    by (rule same_but_otp_rows [OF same _ fresh]) (use cb in simp)
  obtain p where p: "payments d = payments (w_db w) @ [p]" "p_bookingId p = Some (b_id b0)"
    "b_paymentId b0 = Some (p_id p)" "p_amount p + b_pointsDiscount b0 = b_totalPrice b0 + b_serviceFee b0"
    "0 \<le> p_amount p" "b_status b0 = (if p_amount p = 0 then CONFIRMED else PENDING)"
    "p_status p = (if p_amount p = 0 then SUCCESS else PAY_PENDING)" "p_gatewayBasketId p = None"
    "p_id p = e_paymentId env"
    using ch by blast
  have pts: "b_pointsRedeemed b0 = q_points q" using finalize_Inr [OF fin] by simp
  have user: "q_points q > 0 \<longrightarrow> balance_of (w_db w) u \<noteq> None"
  proof
    assume pos: "q_points q > 0"
    obtain p' b' sn where ins: "insert_booking tx1 p' b' sn = Inr (b0, d)" "b_customerId b' = u" "b_pointsRedeemed b' = q_points q"
      using fin by (auto simp: finalize_booking_def split: if_splits)
    let ?t = "tx1\<lparr>payments := payments tx1 @ [settled_payment p' b' sn], bookings := bookings tx1 @ [b']\<rparr>"
    have ok1: "points_ok ?t" "balance_of ?t = balance_of (w_db w)"
      using points_ok_same [of tx1 "w_db w"] price_booking_tables [OF pb] inv(1) by simp_all
    have "redeems (b_id b') ?t u (q_points q) d"
      using insert_booking_Inr [OF ins(1)] ins pos ex by (auto simp: redeems_def)
    then show "balance_of (w_db w) u \<noteq> None"
      using points.debit_covered [OF ok1(1)] ok1(2) by fastforce
  qed
  have sm: "payments (w_db w') = payments d" "users (w_db w') = users d" "ledger (w_db w') = ledger d"
    "coupons (w_db w') = coupons d" "b = b0 \<or> b = stamp_otp (e_now env) b0"
    using same by (auto simp: same_but_otp_def)
  have bf: "b_id b = b_id b0" "b_customerId b = b_customerId b0" "b_activityId b = b_activityId b0"
    "b_paymentId b = b_paymentId b0" "b_totalPrice b = b_totalPrice b0" "b_serviceFee b = b_serviceFee b0"
    "b_pointsRedeemed b = b_pointsRedeemed b0" "b_pointsDiscount b = b_pointsDiscount b0"
    "b_status b = b_status b0" "b_couponCode b = b_couponCode b0" "b_couponDiscount b = b_couponDiscount b0"
    using sm(5) by auto
  have po: "points_ok (w_db w')" "balance_of (w_db w') = balance_of d"
    using points_ok_same [OF sm(2,3)] ch by simp_all
  show thesis
    using that [of p] rows p fresh cb ch cc ex pts user po sm coupons_ok_same [OF sm(4)] bf by simp
qed

lemma create_then_cancel_unpaid [cancel]:
  assumes cr: "createBooking env u dto r w = (Inr (Created b rem), r', w')"
    and inv: "points_ok (w_db w)" "coupons_ok (w_db w)" "prices_ok (w_db w)"
    and a: "find_first (\<lambda>a. a_id a = d_activityId dto) (activities (w_db w)) = Some a"
    and dur: "0 \<le> or_default 0 (a_duration a)" and g: "1 \<le> d_guests dto"
    and pid: "\<And>p. p \<in> set (payments (w_db w)) \<Longrightarrow> p_id p \<noteq> e_paymentId env"
    and pending: "b_status b = PENDING"
    and co: "find_first (\<lambda>c. co_id c = a_countryId a) (countries (w_db w)) = Some co"
    and early: "0 \<le> hours_until cenv (co_timezone co) b"
    and later: "\<And>c. c \<in> set (coupons (w_db w)) \<Longrightarrow> b_couponCode b = Some (cp_code c) \<Longrightarrow>
      cp_code c \<noteq> [] \<and> cp_validTo c > c_now cenv"
    and new: "\<not> ledger_taken (w_db w') (Some (b_id b)) CANCEL_REFUND_UNPAID"
  shows "\<exists>w''. cancelBooking cenv id u (b_id b) w' = (Inr (Removed (b_pointsRedeemed b)), w'') \<and>
    bookings (w_db w'') = bookings (w_db w) \<and> payments (w_db w'') = payments (w_db w) \<and>
    balance_of (w_db w'') = balance_of (w_db w) \<and> coupons (w_db w'') = coupons (w_db w) \<and> points_ok (w_db w'')"
proof (rule createBooking_leaves [OF cr inv a dur g])
  fix p
  assume bs: "bookings (w_db w') = bookings (w_db w) @ [b]" "payments (w_db w') = payments (w_db w) @ [p]"
      "\<And>x. x \<in> set (bookings (w_db w)) \<Longrightarrow> b_id x \<noteq> b_id b"
    and b: "b_customerId b = u" "b_activityId b = d_activityId dto" "b_paymentId b = Some (p_id p)"
      "p_id p = e_paymentId env" "p_gatewayBasketId p = None"
      "b_status b = (if p_amount p = 0 then CONFIRMED else PENDING)"
      "p_status p = (if p_amount p = 0 then SUCCESS else PAY_PENDING)"
    and ok: "points_ok (w_db w')" "balance_of (w_db w') = debited (balance_of (w_db w)) u (b_pointsRedeemed b)"
      "0 \<le> b_pointsRedeemed b" "two_dp (b_pointsRedeemed b)"
      "b_pointsRedeemed b > 0 \<longrightarrow> balance_of (w_db w) u \<noteq> None"
    and eff: "b_couponCode b = None \<and> coupons (w_db w') = coupons (w_db w) \<or>
      (\<exists>c k t. b_couponCode b = Some k \<and> applied (w_db w) c t (e_now env) k (b_couponDiscount b) \<and>
         coupons (w_db w') = coupons (count_row c (w_db w)))"
  have st: "p_status p = PAY_PENDING" using b pending by (auto split: if_splits)
  have find: "find_first (\<lambda>x. b_id x = b_id b \<and> b_customerId x = u) (bookings (w_db w')) = Some b"
    unfolding bs(1) by (rule find_first_last) (use bs(3) b in auto)
  have act: "find_first (\<lambda>x. a_id x = b_activityId b) (activities (w_db w')) = Some a"
    using createBooking_static [OF cr] a b by (simp add: static_def)
  have con: "find_first (\<lambda>c. co_id c = a_countryId a) (countries (w_db w')) = Some co"
    using createBooking_static [OF cr] co by (simp add: static_def)
  have "find_first (\<lambda>x. p_id x = p_id p) (payments (w_db w')) = Some p"
    unfolding bs(2) by (rule find_first_last) (use pid b in auto)
  then have pay: "payment_of (w_db w') b = Some p" using b by (simp add: payment_of_def)
  have "\<exists>d'. cancel_unpaid cenv u b (Some (p_id p)) (w_db w') = Inr ((), d') \<and> bookings d' = bookings (w_db w) \<and>
      payments d' = payments (w_db w) \<and>
      coupons d' = coupons (refundCouponUsage (w_db w') (b_couponCode b) u (c_now cenv)) \<and> points_ok d' \<and>
      balance_of d' = debited (balance_of (w_db w')) u (- b_pointsRedeemed b)"
    by (rule cancel_unpaid_appended [OF bs(1) refl bs(3) bs(2) _ ok(1) _ ok(3,4) new])
      (use pid b(4) ok(2,5) in \<open>auto simp: debited_def\<close>)
  then obtain d' where d': "cancel_unpaid cenv u b (Some (p_id p)) (w_db w') = Inr ((), d')"
    "bookings d' = bookings (w_db w)" "payments d' = payments (w_db w)"
    "coupons d' = coupons (refundCouponUsage (w_db w') (b_couponCode b) u (c_now cenv))" "points_ok d'"
    "balance_of d' = debited (balance_of (w_db w')) u (- b_pointsRedeemed b)"
    by blast
  have "run_cancel id (cancel_unpaid cenv u b (Some (p_id p))) w' = (Inr (), w'\<lparr>w_db := d'\<rparr>)"
    using d'(1) by (simp add: run_cancel_Inr)
  then have "cancelBooking cenv id u (b_id b) w' = (Inr (Removed (b_pointsRedeemed b)),
      emit [InvalidateAvailability (b_activityId b)] (w'\<lparr>w_db := d'\<rparr>))"
    using early pending st b(5) unfolding cancelBooking_def find option.case act pay con
    by (simp add: Let_def finish_cancel_def not_less)
  moreover have "balance_of d' = balance_of (w_db w)"
    unfolding d'(6) ok(2) by (auto simp: debited_def fun_eq_iff option.map_comp comp_def option.map_ident cong: if_cong)
  moreover have "coupons d' = coupons (w_db w)"
    unfolding d'(4) by (rule coupons_restored [OF inv(2) eff]) (use later in blast)
  ultimately show ?thesis using d' by simp
qed

section \<open>Refund decisions\<close>

lemma final_amount_bounds [cancel]:
  assumes "final_amount action amount paid = Inr x" "0 \<le> paid" "two_dp paid"
  shows "0 \<le> x" "x \<le> paid" "two_dp x" "action = REJECT \<Longrightarrow> x = 0"
  using assms
  by (auto simp: final_amount_def intro: cents_nonneg cents_le split: decision.splits option.splits if_splits)

lemma clamp_percent_bounds [simp, cancel]: "0 \<le> clamp_percent p" "clamp_percent p \<le> 100"
  by (simp_all add: clamp_percent_def)

lemma refund_percent_bounds [cancel]: "0 \<le> refund_percent env pol h" "refund_percent env pol h \<le> 100"
  by (simp_all add: refund_percent_def Let_def split: policy.split)

lemma suggested_refund_bounds [cancel]:
  assumes "0 \<le> paid" "two_dp paid" "pc \<le> 100"
  shows "0 \<le> suggested_refund paid pc" "suggested_refund paid pc \<le> paid"
proof -
  have "paid * pc / 100 \<le> paid" using mult_left_mono [OF assms(3,1)] by simp
  then show "suggested_refund paid pc \<le> paid" using assms by (simp add: suggested_refund_def cents_le)
  show "0 \<le> suggested_refund paid pc" using assms by (simp add: suggested_refund_def cents_nonneg)
qed

lemma decision_tx_Inr [cancel]:
  assumes "decision_tx env u act b pid action x pts note tx = Inr (y, tx')"
  shows "(\<exists>p \<in> set (payments tx). p_id p = pid \<and> p_status p = REFUND_PENDING) \<and>
    payments tx' = update_many (\<lambda>p. p_id p = pid \<and> p_status p = REFUND_PENDING)
       (\<lambda>p. p\<lparr>p_status := (if action = APPROVE then REFUNDED else REJECTED),
              p_refundAmount := (if action = APPROVE then Some x else None), p_refundedAt := Some (c_now env)\<rparr>)
       (payments tx) \<and>
    bookings tx' = update_many (\<lambda>r. b_id r = b_id b) (\<lambda>r. r\<lparr>b_decisionAt := Some (c_now env), b_decisionBy := Some u,
       b_decisionActor := Some act, b_decisionNote := note\<rparr>) (bookings tx)"
proof -
  obtain tx1 tx2 where f: "flip_payment pid REFUND_PENDING
        (\<lambda>p. p\<lparr>p_status := (if action = APPROVE then REFUNDED else REJECTED),
              p_refundAmount := (if action = APPROVE then Some x else None), p_refundedAt := Some (c_now env)\<rparr>)
        AlreadyDecided tx = Inr tx1"
    and ub: "update_booking_or_throw (b_id b) (\<lambda>r. r\<lparr>b_decisionAt := Some (c_now env), b_decisionBy := Some u,
       b_decisionActor := Some act, b_decisionNote := note\<rparr>) tx1 = Inr tx2"
    and fin: "tx' = tx2 \<or> (\<exists>src bal. refund tx2 (b_customerId b) pts (b_id b) src act (Some u) = Inr (bal, tx'))"
    using assms by (auto simp: decision_tx_def and_then_Inr split: if_splits)
  have "bookings tx' = bookings tx2 \<and> payments tx' = payments tx2" using fin refund_tables by blast
  then show ?thesis using f ub by (auto simp: flip_payment_Inr update_booking_or_throw_Inr update_booking_def)
qed

text \<open>After a decision no row of that payment awaits one.\<close>

lemma decided_once [cancel]:
  assumes "decision_tx env u act b pid action x pts note tx = Inr (y, tx')"
    and "p \<in> set (payments tx')" "p_id p = pid"
  shows "p_status p \<noteq> REFUND_PENDING"
proof -
  define f :: "payment \<Rightarrow> payment" where "f = (\<lambda>p. p\<lparr>p_status := (if action = APPROVE then REFUNDED else REJECTED),
      p_refundAmount := (if action = APPROVE then Some x else None), p_refundedAt := Some (c_now env)\<rparr>)"
  have "payments tx' = update_many (\<lambda>p. p_id p = pid \<and> p_status p = REFUND_PENDING) f (payments tx)"
    using decision_tx_Inr [OF assms(1)] by (simp add: f_def)
  then obtain p0 where "p = (if p_id p0 = pid \<and> p_status p0 = REFUND_PENDING then f p0 else p0)"
    using assms(2) by (auto simp: update_many_mem)
  moreover have "p_status (f p0) \<noteq> REFUND_PENDING" "p_id (f p0) = p_id p0" by (simp_all add: f_def)
  ultimately show ?thesis using assms(3) by (auto split: if_splits)
qed

end
