(* ===== verification/BookingOtp.thy ===== *)
theory BookingOtp
  imports CancelProps
begin

text \<open>
  The e-mail code that gates payment (\<open>generateAndSendBookingOtp\<close>, \<open>sendBookingEmailOtp\<close>,
  \<open>verifyBookingEmailOtp\<close> in \<open>apps/api/src/bookings/bookings.service.ts\<close>). These handlers write
  outside a transaction, so what they wrote before throwing stays. The peppered HMAC is a parameter;
  the per-recipient e-mail quota is a parameter that answers whether a send is allowed.
\<close>

named_theorems otp \<open>facts about booking codes\<close>

definition BOOKING_OTP_TTL_MS :: ms where
  "BOOKING_OTP_TTL_MS = 10 * 60 * 1000"

definition BOOKING_OTP_MAX_ATTEMPTS :: int where
  "BOOKING_OTP_MAX_ATTEMPTS = 5"

record otp_env =
  t_now :: ms
  t_hash :: "string \<Rightarrow> string"
  t_code :: string
  t_quotaOk :: "string \<Rightarrow> bool"

definition set_booking :: "uid \<Rightarrow> (booking \<Rightarrow> booking) \<Rightarrow> world \<Rightarrow> world" where
  "set_booking bid f w = w\<lparr>w_db := update_booking bid f (w_db w)\<rparr>"

definition stamp_code :: "otp_env \<Rightarrow> booking \<Rightarrow> booking" where
  "stamp_code env b = b\<lparr>b_otpHash := Some (t_hash env (t_code env)),
     b_otpExpiry := Some (t_now env + BOOKING_OTP_TTL_MS), b_otpAttempts := 0\<rparr>"

text \<open>The row is stamped before the quota is consulted.\<close>

definition generateAndSendBookingOtp :: "otp_env \<Rightarrow> uid \<Rightarrow> string \<Rightarrow> world \<Rightarrow> world" where
  "generateAndSendBookingOtp env bookingId customerEmail w =
     (let w1 = set_booking bookingId (stamp_code env) w in
      if \<not> t_quotaOk env customerEmail
      then emit [Audit SYSTEM 0 BOOKING_EMAIL_OTP_QUOTA_BLOCKED bookingId] w1
      else emit [SendOtpEmail customerEmail (t_code env),
                 Audit SYSTEM 0 BOOKING_EMAIL_OTP_SENT bookingId, Security OTP_SENT 0] w1)"

definition sendBookingEmailOtp :: "otp_env \<Rightarrow> uid \<Rightarrow> uid \<Rightarrow> world \<Rightarrow> (exn + unit) \<times> world" where
  "sendBookingEmailOtp env userId bookingId w =
     (case find_first (\<lambda>b. b_id b = bookingId \<and> b_customerId b = userId \<and> b_status b = PENDING)
             (bookings (w_db w)) of
        None \<Rightarrow> (Inl (NotFound BookingNotFound), w)
      | Some b \<Rightarrow>
          if b_otpVerifiedAt b \<noteq> None then (Inr (), w)
          else case find_first (\<lambda>u. u_id u = b_customerId b) (users (w_db w)) of
                 None \<Rightarrow> (Inl (NotFound RelationNotFound), w)
               | Some u \<Rightarrow> (Inr (), generateAndSendBookingOtp env bookingId (u_email u) w))"

definition bump_attempts :: "booking \<Rightarrow> booking" where
  "bump_attempts b = b\<lparr>b_otpAttempts := b_otpAttempts b + 1\<rparr>"

definition lock_code :: "booking \<Rightarrow> booking" where
  "lock_code b = b\<lparr>b_otpHash := None, b_otpExpiry := None\<rparr>"

definition verified :: "ms \<Rightarrow> booking \<Rightarrow> booking" where
  "verified now b = b\<lparr>b_otpVerifiedAt := Some now, b_otpHash := None, b_otpExpiry := None\<rparr>"

definition mark_user_verified :: "ms \<Rightarrow> uid \<Rightarrow> world \<Rightarrow> world" where
  "mark_user_verified now userId w = w\<lparr>w_db := (w_db w)\<lparr>users :=
     update_many (\<lambda>u. u_id u = userId \<and> u_bookingOtpVerifiedAt u = None)
       (\<lambda>u. u\<lparr>u_bookingOtpVerifiedAt := Some now\<rparr>) (users (w_db w))\<rparr>\<rparr>"

text \<open>The attempt is counted before the comparison.\<close>

definition verifyBookingEmailOtp :: "otp_env \<Rightarrow> uid \<Rightarrow> uid \<Rightarrow> string \<Rightarrow> world \<Rightarrow> (exn + unit) \<times> world" where
  "verifyBookingEmailOtp env userId bookingId code w =
     (case find_first (\<lambda>b. b_id b = bookingId \<and> b_customerId b = userId) (bookings (w_db w)) of
        None \<Rightarrow> (Inl (NotFound BookingNotFound), w)
      | Some b \<Rightarrow>
          if b_otpVerifiedAt b \<noteq> None then (Inr (), w)
          else if b_status b \<noteq> PENDING then (Inl (BadBooking NoVerificationNeeded), w)
          else case (b_otpHash b, b_otpExpiry b) of
            (Some stored, Some expiry) \<Rightarrow>
              if stored = [] then (Inl (BadBooking NoActiveCode), w)
              else if expiry < t_now env then (Inl (BadBooking CodeExpired), w)
              else if b_otpAttempts b \<ge> BOOKING_OTP_MAX_ATTEMPTS then
                (Inl (BadBooking TooManyAttempts),
                 emit [Security OTP_LOCKED userId] (set_booking bookingId lock_code w))
              else
                let w1 = set_booking bookingId bump_attempts w in
                if stored \<noteq> t_hash env code then
                  (Inl (BadBooking InvalidCode), emit [Security OTP_VERIFY_FAIL userId] w1)
                else
                  (Inr (), emit [Security OTP_VERIFY_OK userId,
                                 Audit CUSTOMER userId BOOKING_EMAIL_OTP_VERIFIED bookingId]
                     (mark_user_verified (t_now env) userId (set_booking bookingId (verified (t_now env)) w1)))
          | _ \<Rightarrow> (Inl (BadBooking NoActiveCode), w))"

section \<open>Guessing is bounded\<close>

text \<open>The row of a booking, and a sequence of attempts against it.\<close>

definition booking_row :: "uid \<Rightarrow> world \<Rightarrow> booking option" where
  "booking_row bid w = find_first (\<lambda>b. b_id b = bid) (bookings (w_db w))"

fun try_codes :: "otp_env \<Rightarrow> uid \<Rightarrow> uid \<Rightarrow> string list \<Rightarrow> world \<Rightarrow> world" where
  "try_codes env u bid [] w = w"
| "try_codes env u bid (c # cs) w = try_codes env u bid cs (snd (verifyBookingEmailOtp env u bid c w))"

lemma otp_updates [simp]:
  "b_id (bump_attempts b) = b_id b" "b_id (lock_code b) = b_id b" "b_id (verified now b) = b_id b"
  "b_id (stamp_code env b) = b_id b"
  "b_otpAttempts (bump_attempts b) = b_otpAttempts b + 1" "b_otpAttempts (lock_code b) = b_otpAttempts b"
  "b_otpAttempts (verified now b) = b_otpAttempts b" "b_otpAttempts (stamp_code env b) = 0"
  "b_otpHash (bump_attempts b) = b_otpHash b" "b_otpHash (lock_code b) = None" "b_otpHash (verified now b) = None"
  "b_otpVerifiedAt (bump_attempts b) = b_otpVerifiedAt b" "b_otpVerifiedAt (lock_code b) = b_otpVerifiedAt b"
  "b_otpVerifiedAt (verified now b) = Some now" "b_customerId (bump_attempts b) = b_customerId b"
  "b_customerId (lock_code b) = b_customerId b" "b_customerId (verified now b) = b_customerId b"
  "b_status (bump_attempts b) = b_status b" "b_status (lock_code b) = b_status b" "b_status (verified now b) = b_status b"
  "b_otpExpiry (bump_attempts b) = b_otpExpiry b" "b_otpExpiry (lock_code b) = None"
  "b_otpExpiry (verified now b) = None"
  by (simp_all add: bump_attempts_def lock_code_def verified_def stamp_code_def)

lemma booking_row_emit [simp]: "booking_row bid (emit fx w) = booking_row bid w"
  by (simp add: booking_row_def)

lemma booking_row_mark [simp]: "booking_row bid (mark_user_verified now u w) = booking_row bid w"
  by (simp add: booking_row_def mark_user_verified_def)

lemma booking_row_set [simp, otp]:
  "(\<And>b. b_id (f b) = b_id b) \<Longrightarrow> booking_row bid (set_booking bid f w) = map_option f (booking_row bid w)"
  by (simp add: booking_row_def set_booking_def update_booking_def find_first_update)

lemma set_booking_unique [simp]:
  "(\<And>b. b_id (f b) = b_id b) \<Longrightarrow>
   unique_on b_id (bookings (w_db (set_booking bid f w))) = unique_on b_id (bookings (w_db w))"
  by (simp add: set_booking_def update_booking_def update_many_unique)

lemma mark_user_bookings [simp]: "bookings (w_db (mark_user_verified now u w)) = bookings (w_db w)"
  by (simp add: mark_user_verified_def)

text \<open>The customer's own booking is the row of its id.\<close>

lemma owned_row [otp]:
  assumes "unique_on b_id (bookings (w_db w))"
  shows "find_first (\<lambda>b. b_id b = bid \<and> b_customerId b = u) (bookings (w_db w)) =
    (case booking_row bid w of Some b \<Rightarrow> if b_customerId b = u then Some b else None | None \<Rightarrow> None)"
proof (cases "booking_row bid w")
  case None
  then have "find_first (\<lambda>b. b_id b = bid \<and> b_customerId b = u) (bookings (w_db w)) = None"
    by (auto simp: booking_row_def find_first_None)
  then show ?thesis using None by simp
next
  case (Some b)
  then have b: "b \<in> set (bookings (w_db w))" "b_id b = bid" by (auto simp: booking_row_def dest: find_first_Some)
  have only: "x = b" if "x \<in> set (bookings (w_db w))" "b_id x = bid" for x
    using unique_onD [OF assms that(1) b(1)] that(2) b(2) by simp
  show ?thesis
  proof (cases "b_customerId b = u")
    case True
    have "find_first (\<lambda>b. b_id b = bid \<and> b_customerId b = u) (bookings (w_db w)) \<noteq> None"
      using b True by (auto simp: find_first_None)
    then obtain x where x: "find_first (\<lambda>b. b_id b = bid \<and> b_customerId b = u) (bookings (w_db w)) = Some x"
      by blast
    then have "x = b" using only by (auto dest: find_first_Some)
    then show ?thesis using Some True x by simp
  next
    case False
    then have "find_first (\<lambda>b. b_id b = bid \<and> b_customerId b = u) (bookings (w_db w)) = None"
      using only by (auto simp: find_first_None)
    then show ?thesis using Some False by simp
  qed
qed

text \<open>One attempt, seen on the row.\<close>

lemma verify_row [otp]:
  assumes uq: "unique_on b_id (bookings (w_db w))" and row: "booking_row bid w = Some b"
    and r: "verifyBookingEmailOtp env u bid code w = (res, w')"
  shows "unique_on b_id (bookings (w_db w')) \<and> (\<exists>b'. booking_row bid w' = Some b' \<and>
     (b' = b \<or>
      b_otpAttempts b \<ge> 5 \<and> b' = lock_code b \<or>
      b_otpAttempts b < 5 \<and> b_otpHash b \<noteq> None \<and> b_otpHash b \<noteq> Some (t_hash env code) \<and> b' = bump_attempts b \<or>
      b_otpAttempts b < 5 \<and> b_otpHash b = Some (t_hash env code) \<and> res = Inr () \<and> b_customerId b = u \<and>
        b_status b = PENDING \<and> (\<exists>x. b_otpExpiry b = Some x \<and> t_now env \<le> x) \<and>
        b' = verified (t_now env) (bump_attempts b)))"
  using r row uq unfolding verifyBookingEmailOtp_def owned_row [OF uq]
  by (auto simp: BOOKING_OTP_MAX_ATTEMPTS_def Let_def split: if_splits option.splits)

text \<open>
  The invariant of guessing against a row that is not verified: the counter stays at most five, and
  while a code is active every counted attempt was a wrong guess.
\<close>

lemma attempts_bounded [otp]:
  assumes "unique_on b_id (bookings (w_db w))" "booking_row bid w = Some b" "b_otpAttempts b \<le> 5"
  shows "\<exists>b'. booking_row bid (try_codes env u bid cs w) = Some b' \<and> b_otpAttempts b' \<le> 5"
  using assms
proof (induction cs arbitrary: w b)
  case (Cons c cs)
  obtain res w' where r: "verifyBookingEmailOtp env u bid c w = (res, w')"
    by (cases "verifyBookingEmailOtp env u bid c w")
  obtain b' where "unique_on b_id (bookings (w_db w'))" "booking_row bid w' = Some b'" "b_otpAttempts b' \<le> 5"
    using verify_row [OF Cons.prems(1,2) r] Cons.prems(3) by auto
  from Cons.IH [OF this] show ?case using r by simp
qed simp

text \<open>Wrong codes only: after five the sixth call destroys the code.\<close>

lemma wrong_codes [otp]:
  assumes "unique_on b_id (bookings (w_db w))" "booking_row bid w = Some b" "b_otpVerifiedAt b = None"
    and "list_all (\<lambda>c. b_otpHash b \<noteq> Some (t_hash env c)) cs"
  shows "\<exists>b'. booking_row bid (try_codes env u bid cs w) = Some b' \<and> b_otpVerifiedAt b' = None \<and>
    (b_otpHash b' = b_otpHash b \<or> b_otpHash b' = None)"
  using assms
proof (induction cs arbitrary: w b)
  case (Cons c cs)
  obtain res w' where r: "verifyBookingEmailOtp env u bid c w = (res, w')"
    by (cases "verifyBookingEmailOtp env u bid c w")
  obtain b' where b': "unique_on b_id (bookings (w_db w'))" "booking_row bid w' = Some b'"
    "b_otpVerifiedAt b' = None" "b_otpHash b' = b_otpHash b \<or> b_otpHash b' = None"
    using verify_row [OF Cons.prems(1,2) r] Cons.prems(3,4) by auto
  then have "list_all (\<lambda>c. b_otpHash b' \<noteq> Some (t_hash env c)) cs" using Cons.prems(4) by (auto simp: list_all_iff)
  from Cons.IH [OF b'(1-3) this] show ?case using r b'(4) by auto
qed simp

text \<open>A stamped code replaces the one before, also when the quota then stops the e-mail.\<close>

lemma generate_row [otp]:
  "booking_row bid (generateAndSendBookingOtp env bid mail w) = map_option (stamp_code env) (booking_row bid w)"
  by (simp add: generateAndSendBookingOtp_def Let_def)

end
