(* ===== verification/Breaker.thy ===== *)
theory Breaker
  imports Model
begin

text \<open>
  \<open>apps/api/src/common/utils/circuit-breaker.ts\<close>. \<open>run\<close> awaits the wrapped call, so other calls
  start and settle in between: a step admits a call, or settles one of the calls in flight. The
  state of the class is a record, each \<open>run\<close> is split at its \<open>await\<close>.
\<close>

named_theorems breaker \<open>facts about the circuit breaker\<close>

datatype breaker_state = CLOSED | OPEN | HALF_OPEN

record breaker =
  k_state :: breaker_state
  k_failures :: nat
  k_openedAt :: ms
  k_probe :: bool

record breaker_cfg =
  k_threshold :: nat
  k_timeout :: ms
  k_disabled :: bool

text \<open>The constructor: \<open>None\<close> when it throws.\<close>

definition make_breaker :: "int option \<Rightarrow> ms option \<Rightarrow> bool option \<Rightarrow> (breaker_cfg \<times> breaker) option" where
  "make_breaker threshold timeout disabled =
     (let failureThreshold = (case threshold of Some n \<Rightarrow> n | None \<Rightarrow> 10);
          openTimeoutMs = (case timeout of Some t \<Rightarrow> t | None \<Rightarrow> 30000)
      in if failureThreshold < 1 then None
         else if openTimeoutMs < 0 then None
         else Some (\<lparr>k_threshold = nat failureThreshold, k_timeout = openTimeoutMs,
                      k_disabled = (case disabled of Some b \<Rightarrow> b | None \<Rightarrow> False)\<rparr>,
                    \<lparr>k_state = CLOSED, k_failures = 0, k_openedAt = 0, k_probe = False\<rparr>))"

definition transition :: "breaker_state \<Rightarrow> breaker \<Rightarrow> breaker" where
  "transition to b =
     (if k_state b = to then b
      else if to = CLOSED then b\<lparr>k_state := to, k_openedAt := 0\<rparr>
      else b\<lparr>k_state := to\<rparr>)"

text \<open>The part of \<open>run\<close> before the call: \<open>Inl\<close> is \<open>CircuitBreakerOpenError\<close> with its retry hint.\<close>

definition admit :: "breaker_cfg \<Rightarrow> ms \<Rightarrow> breaker \<Rightarrow> ms + breaker" where
  "admit cfg now b =
     (if k_disabled cfg then Inr b
      else if k_state b = OPEN then
        let elapsed = now - k_openedAt b in
        if elapsed < k_timeout cfg then Inl (k_timeout cfg - elapsed)
        else if k_probe b then Inl 0
        else Inr (transition HALF_OPEN (b\<lparr>k_probe := True\<rparr>))
      else if k_state b = HALF_OPEN then
        if k_probe b then Inl 0 else Inr (b\<lparr>k_probe := True\<rparr>)
      else Inr b)"

definition recordSuccess :: "breaker \<Rightarrow> breaker" where
  "recordSuccess b =
     (let b' = b\<lparr>k_failures := 0\<rparr> in
      if k_state b' = HALF_OPEN then transition CLOSED b' else b')"

definition recordFailure :: "breaker_cfg \<Rightarrow> ms \<Rightarrow> breaker \<Rightarrow> breaker" where
  "recordFailure cfg now b =
     (let b' = b\<lparr>k_failures := k_failures b + 1\<rparr> in
      if k_state b' = HALF_OPEN then transition OPEN (b'\<lparr>k_openedAt := now\<rparr>)
      else if k_failures b' \<ge> k_threshold cfg then transition OPEN (b'\<lparr>k_openedAt := now\<rparr>)
      else b')"

text \<open>The part of \<open>run\<close> after the call, \<open>finally\<close> included.\<close>

definition settle :: "breaker_cfg \<Rightarrow> ms \<Rightarrow> bool \<Rightarrow> breaker \<Rightarrow> breaker" where
  "settle cfg now success b =
     (if k_disabled cfg then b
      else (if success then recordSuccess b else recordFailure cfg now b)\<lparr>k_probe := False\<rparr>)"

section \<open>Interleavings\<close>

text \<open>
  The breaker with its calls in flight, by caller; \<open>True\<close> marks a call that was admitted as the
  probe of a half-open breaker.
\<close>

record brk_system =
  y_brk :: breaker
  y_calls :: "(uid \<times> bool) list"

inductive brk_step :: "breaker_cfg \<Rightarrow> ms \<Rightarrow> brk_system \<Rightarrow> brk_system \<Rightarrow> bool" for cfg now where
  call_admitted: "admit cfg now (y_brk s) = Inr b \<Longrightarrow>
     brk_step cfg now s \<lparr>y_brk = b, y_calls = y_calls s @ [(i, k_state b = HALF_OPEN)]\<rparr>"
| call_refused: "admit cfg now (y_brk s) = Inl n \<Longrightarrow> brk_step cfg now s s"
| call_settles: "y_calls s = xs @ (i, p) # ys \<Longrightarrow>
     brk_step cfg now s \<lparr>y_brk = settle cfg now ok (y_brk s), y_calls = xs @ ys\<rparr>"

inductive brk_reach :: "breaker_cfg \<Rightarrow> brk_system \<Rightarrow> ms \<Rightarrow> brk_system \<Rightarrow> bool" for cfg s0 where
  reach_start: "brk_reach cfg s0 0 s0"
| reach_step: "brk_reach cfg s0 t s \<Longrightarrow> t \<le> t' \<Longrightarrow> brk_step cfg t' s s' \<Longrightarrow> brk_reach cfg s0 t' s'"

definition brk_init :: brk_system where
  "brk_init = \<lparr>y_brk = \<lparr>k_state = CLOSED, k_failures = 0, k_openedAt = 0, k_probe = False\<rparr>, y_calls = []\<rparr>"

inductive_cases brk_stepE: "brk_step cfg now s s'"

text \<open>
  Closed means fewer failures in a row than the threshold; half-open means the probe slot is taken;
  open and closed breakers carry the instant they tripped, which is not in the future.
\<close>

definition brk_inv :: "breaker_cfg \<Rightarrow> ms \<Rightarrow> breaker \<Rightarrow> bool" where
  "brk_inv cfg now b \<longleftrightarrow>
     (k_state b = CLOSED \<longrightarrow> k_failures b < k_threshold cfg \<and> k_openedAt b = 0 \<and> \<not> k_probe b) \<and>
     (k_state b = HALF_OPEN \<longleftrightarrow> k_probe b) \<and> k_openedAt b \<le> now"

lemma transition_simps [simp]:
  "k_state (transition to b) = to" "k_failures (transition to b) = k_failures b"
  "k_probe (transition to b) = k_probe b"
  "k_openedAt (transition to b) = (if k_state b \<noteq> to \<and> to = CLOSED then 0 else k_openedAt b)"
  by (simp_all add: transition_def)

lemma admit_inv [breaker]:
  assumes "brk_inv cfg t b" "t \<le> t'" "admit cfg t' b = Inr b'"
  shows "brk_inv cfg t' b'"
  using assms by (cases "k_state b") (auto simp: brk_inv_def admit_def Let_def split: if_splits)

lemma settle_inv [breaker]:
  assumes "brk_inv cfg t b" "t \<le> t'" "0 \<le> t'" "0 < k_threshold cfg"
  shows "brk_inv cfg t' (settle cfg t' ok b)"
  using assms
  by (cases "k_state b")
    (auto simp: brk_inv_def settle_def recordSuccess_def recordFailure_def Let_def)

lemma brk_reach_inv [breaker]:
  assumes "brk_reach cfg brk_init t s" "0 < k_threshold cfg"
  shows "brk_inv cfg t (y_brk s) \<and> 0 \<le> t"
  using assms
proof induction
  case reach_start
  then show ?case by (simp add: brk_init_def brk_inv_def)
next
  case (reach_step t s t' s')
  then have inv: "brk_inv cfg t (y_brk s)" "0 \<le> t" by simp_all
  from reach_step.hyps(3) show ?case
  proof (rule brk_stepE)
    fix b i
    assume "admit cfg t' (y_brk s) = Inr b" "s' = \<lparr>y_brk = b, y_calls = y_calls s @ [(i, k_state b = HALF_OPEN)]\<rparr>"
    then show ?thesis using admit_inv [OF inv(1) reach_step.hyps(2)] inv(2) reach_step.hyps(2) by simp
  next
    assume "s' = s"
    then show ?thesis using inv reach_step.hyps(2) by (auto simp: brk_inv_def)
  next
    fix xs i p ys ok
    assume "s' = \<lparr>y_brk = settle cfg t' ok (y_brk s), y_calls = xs @ ys\<rparr>"
    then show ?thesis
      using settle_inv [OF inv(1) reach_step.hyps(2)] inv(2) reach_step.hyps(2) reach_step.prems by simp
  qed
qed

text \<open>An open breaker within its cooldown calls nothing.\<close>

lemma admit_open [breaker]:
  assumes "\<not> k_disabled cfg" "k_state b = OPEN" "now < k_openedAt b + k_timeout cfg"
  shows "\<exists>n. admit cfg now b = Inl n \<and> 0 < n \<and> n = k_openedAt b + k_timeout cfg - now"
  using assms by (auto simp: admit_def Let_def)

text \<open>\<open>n\<close> failures in a row, with nothing else in between, trip a closed breaker.\<close>

fun fail_times :: "breaker_cfg \<Rightarrow> ms \<Rightarrow> nat \<Rightarrow> breaker \<Rightarrow> breaker" where
  "fail_times cfg now 0 b = b"
| "fail_times cfg now (Suc n) b = fail_times cfg now n (settle cfg now False b)"

lemma fail_times_closed [breaker]:
  assumes "\<not> k_disabled cfg" "k_state b = CLOSED" "k_failures b + n < k_threshold cfg"
  shows "k_state (fail_times cfg now n b) = CLOSED \<and> k_failures (fail_times cfg now n b) = k_failures b + n"
  using assms by (induction n arbitrary: b) (auto simp: settle_def recordFailure_def Let_def)

lemma fail_times_trips [breaker]:
  assumes "\<not> k_disabled cfg" "k_state b = CLOSED" "k_failures b < k_threshold cfg"
    and "k_failures b + n = k_threshold cfg"
  shows "k_state (fail_times cfg now n b) = OPEN \<and> k_openedAt (fail_times cfg now n b) = now"
  using assms
proof (induction n arbitrary: b)
  case (Suc n)
  show ?case
  proof (cases "n = 0")
    case True
    then show ?thesis using Suc.prems by (auto simp: settle_def recordFailure_def Let_def)
  next
    case False
    have "k_state (settle cfg now False b) = CLOSED" "k_failures (settle cfg now False b) = k_failures b + 1"
      using Suc.prems False by (auto simp: settle_def recordFailure_def Let_def)
    then show ?thesis using Suc.IH [of "settle cfg now False b"] Suc.prems False by simp
  qed
qed simp

text \<open>A probe decides: success closes, failure opens for another cooldown.\<close>

lemma probe_decides [breaker]:
  assumes "\<not> k_disabled cfg" "k_state b = HALF_OPEN"
  shows "k_state (settle cfg now ok b) = (if ok then CLOSED else OPEN) \<and> \<not> k_probe (settle cfg now ok b)"
  using assms by (simp add: settle_def recordSuccess_def recordFailure_def Let_def)

text \<open>Calls that were admitted as probes and are still in flight.\<close>

definition probes_in_flight :: "brk_system \<Rightarrow> nat" where
  "probes_in_flight s = length (filter snd (y_calls s))"

text \<open>Reaching a further state by one admitted or one settled call.\<close>

lemma reach_admit:
  assumes "brk_reach cfg s0 t \<lparr>y_brk = b, y_calls = cs\<rparr>" "t \<le> t'" "admit cfg t' b = Inr b'"
  shows "brk_reach cfg s0 t' \<lparr>y_brk = b', y_calls = cs @ [(i, k_state b' = HALF_OPEN)]\<rparr>"
  using reach_step [OF assms(1,2) call_admitted [of cfg t' "\<lparr>y_brk = b, y_calls = cs\<rparr>" b' i]] assms(3) by simp

lemma reach_settle:
  assumes "brk_reach cfg s0 t \<lparr>y_brk = b, y_calls = xs @ (i, p) # ys\<rparr>" "t \<le> t'"
  shows "brk_reach cfg s0 t' \<lparr>y_brk = settle cfg t' ok b, y_calls = xs @ ys\<rparr>"
  using reach_step [OF assms(1,2) call_settles [of "\<lparr>y_brk = b, y_calls = xs @ (i, p) # ys\<rparr>" xs i p ys cfg t' ok]] by simp

end
