(* ===== verification/UnitBackfill.thy ===== *)
theory UnitBackfill
  imports CreateProps
begin

text \<open>
  \<open>apps/api/src/bookings/assign-missing-units.ts\<close>: when an activity starts to use units, every live
  booking without one is given a unit, around the bookings that already hold theirs, or the whole
  change is refused.
\<close>

named_theorems backfill \<open>facts about the unit backfill\<close>

section \<open>Definitions\<close>

definition slot_overlaps :: "booking \<Rightarrow> booking \<Rightarrow> bool" where
  "slot_overlaps a b = (b_start a < b_end b \<and> b_end a > b_start b)"

definition is_live :: "uid \<Rightarrow> ms \<Rightarrow> booking \<Rightarrow> bool" where
  "is_live aid now b = (b_activityId b = aid \<and> activeBookingFilter now b \<and> b_end b > now)"

definition unit_accepts :: "activity \<Rightarrow> booking list \<Rightarrow> booking \<Rightarrow> nat \<Rightarrow> bool" where
  "unit_accepts a placed b unit =
     (let inUnit = filter (\<lambda>p. b_unit p = Some unit \<and> slot_overlaps p b) placed in
      if rentsWholeUnit a then inUnit = []
      else maxConcurrentInWindow inUnit (b_start b) (b_end b) + b_guests b \<le> a_unitCapacity a)"

text \<open>The inner loop: the first unit that accepts the booking.\<close>

definition choose_unit :: "activity \<Rightarrow> booking list \<Rightarrow> booking \<Rightarrow> nat option" where
  "choose_unit a placed b = find_first (unit_accepts a placed b) [1..<a_unitCount a + 1]"

text \<open>The map from units to the bookings they receive.\<close>

fun add_to_unit :: "nat \<Rightarrow> uid \<Rightarrow> (nat \<times> uid list) list \<Rightarrow> (nat \<times> uid list) list" where
  "add_to_unit u i [] = [(u, [i])]"
| "add_to_unit u i ((v, ids) # m) = (if u = v then (v, ids @ [i]) # m else (v, ids) # add_to_unit u i m)"

definition with_unit :: "nat \<Rightarrow> booking \<Rightarrow> booking" where
  "with_unit u b = b\<lparr>b_unit := Some u\<rparr>"

fun place_all ::
  "activity \<Rightarrow> booking list \<Rightarrow> (nat \<times> uid list) list \<Rightarrow> uid list \<Rightarrow> booking list \<Rightarrow>
   booking list \<times> (nat \<times> uid list) list \<times> uid list" where
  "place_all a placed byUnit unassignable [] = (placed, byUnit, unassignable)"
| "place_all a placed byUnit unassignable (b # bs) =
     (case choose_unit a placed b of
        None \<Rightarrow> place_all a placed byUnit (unassignable @ [b_id b]) bs
      | Some u \<Rightarrow> place_all a (placed @ [with_unit u b]) (add_to_unit u (b_id b) byUnit) unassignable bs)"

text \<open>One \<open>updateMany\<close> per unit, and the number of rows written.\<close>

definition write_unit :: "db \<times> nat \<Rightarrow> nat \<times> uid list \<Rightarrow> db \<times> nat" where
  "write_unit dn uids =
     (case (dn, uids) of ((d, n), (u, ids)) \<Rightarrow>
        (d\<lparr>bookings := update_many (\<lambda>b. b_id b \<in> set ids) (with_unit u) (bookings d)\<rparr>,
         n + count_rows (\<lambda>b. b_id b \<in> set ids) (bookings d)))"

record assign_result =
  ar_skipped :: bool
  ar_assigned :: nat
  ar_unassignable :: "uid list"

datatype backfill_error =
  UnitOutOfRange "nat list"
| CannotFit "uid list"

definition unassigned_of :: "db \<Rightarrow> uid \<Rightarrow> ms \<Rightarrow> booking list" where
  "unassigned_of tx aid now =
     sort_key (\<lambda>b. (b_start b, b_createdAt b, b_id b))
       (find_many (\<lambda>b. is_live aid now b \<and> b_unit b = None) (bookings tx))"

definition placed_of :: "db \<Rightarrow> uid \<Rightarrow> ms \<Rightarrow> booking list" where
  "placed_of tx aid now = find_many (\<lambda>b. is_live aid now b \<and> b_unit b \<noteq> None) (bookings tx)"

definition out_of_range :: "activity \<Rightarrow> booking \<Rightarrow> bool" where
  "out_of_range a p = (case b_unit p of Some u \<Rightarrow> u < 1 \<or> u > a_unitCount a | None \<Rightarrow> False)"

definition assignMissingUnits :: "db \<Rightarrow> uid \<Rightarrow> ms \<Rightarrow> backfill_error + (assign_result \<times> db)" where
  "assignMissingUnits tx activityId now =
     (case find_first (\<lambda>a. a_id a = activityId) (activities tx) of
        None \<Rightarrow> Inr (\<lparr>ar_skipped = True, ar_assigned = 0, ar_unassignable = []\<rparr>, tx)
      | Some a \<Rightarrow>
        if \<not> a_hasUnits a \<or> a_unitCount a = 0
        then Inr (\<lparr>ar_skipped = True, ar_assigned = 0, ar_unassignable = []\<rparr>, tx)
        else
          let placed = placed_of tx activityId now;
              bad = filter (out_of_range a) placed
          in if bad \<noteq> [] then Inl (UnitOutOfRange (sort (remdups (map (\<lambda>p. the (b_unit p)) bad))))
             else
               let unassigned = unassigned_of tx activityId now in
               if unassigned = [] then Inr (\<lparr>ar_skipped = False, ar_assigned = 0, ar_unassignable = []\<rparr>, tx)
               else case place_all a placed [] [] unassigned of
                 (_, byUnit, unassignable) \<Rightarrow>
                   if unassignable \<noteq> [] then Inl (CannotFit unassignable)
                   else case foldl write_unit (tx, 0) byUnit of
                     (tx', assigned) \<Rightarrow>
                       Inr (\<lparr>ar_skipped = False, ar_assigned = assigned, ar_unassignable = unassignable\<rparr>, tx'))"

section \<open>The placement loop\<close>

lemma with_unit_simps [simp]:
  "b_id (with_unit u b) = b_id b" "b_unit (with_unit u b) = Some u" "b_start (with_unit u b) = b_start b"
  "b_end (with_unit u b) = b_end b" "b_guests (with_unit u b) = b_guests b"
  "b_activityId (with_unit u b) = b_activityId b" "b_status (with_unit u b) = b_status b"
  "b_reservedUntil (with_unit u b) = b_reservedUntil b"
  by (simp_all add: with_unit_def)

lemma with_unit_twice [simp]: "with_unit u (with_unit v b) = with_unit u b"
  by (simp add: with_unit_def)

lemma with_unit_live [simp]: "is_live aid now (with_unit u b) = is_live aid now b"
  by (simp add: is_live_def activeBookingFilter_def)

definition pairs :: "(nat \<times> uid list) list \<Rightarrow> (uid \<times> nat) set" where
  "pairs m = {(i, u). \<exists>ids. (u, ids) \<in> set m \<and> i \<in> set ids}"

lemma pairs_simps [simp]: "pairs [] = {}" "pairs ((u, ids) # m) = (\<lambda>i. (i, u)) ` set ids \<union> pairs m"
  by (auto simp: pairs_def)

lemma pairs_add [simp, backfill]: "pairs (add_to_unit u i m) = insert (i, u) (pairs m)"
  by (induction m) (auto split: if_splits)

lemma choose_unit_Some [backfill]:
  assumes "choose_unit a placed b = Some u"
  shows "1 \<le> u" "u \<le> a_unitCount a" "unit_accepts a placed b u"
  using assms by (auto simp: choose_unit_def simp del: upt_Suc dest!: find_first_Some)

text \<open>The new rows an assignment of units by id gives.\<close>

definition give :: "(uid \<Rightarrow> nat) \<Rightarrow> booking \<Rightarrow> booking" where
  "give f b = with_unit (f (b_id b)) b"

lemma unassignable_grows [backfill]:
  "place_all a placed byUnit un bs = (placed', byUnit', un') \<Longrightarrow> \<exists>xs. un' = un @ xs"
  by (induction a placed byUnit un bs rule: place_all.induct) (auto split: option.splits)

lemma place_all_assigns [backfill]:
  assumes "place_all a placed byUnit [] bs = (placed', byUnit', [])" "distinct (map b_id bs)"
  shows "\<exists>f. placed' = placed @ map (give f) bs \<and> (\<forall>b \<in> set bs. 1 \<le> f (b_id b) \<and> f (b_id b) \<le> a_unitCount a) \<and>
    pairs byUnit' = pairs byUnit \<union> (\<lambda>b. (b_id b, f (b_id b))) ` set bs"
  using assms
proof (induction bs arbitrary: placed byUnit)
  case (Cons b bs)
  show ?case
  proof (cases "choose_unit a placed b")
    case None
    then have "place_all a placed byUnit [b_id b] bs = (placed', byUnit', [])" using Cons.prems by simp
    then show ?thesis using unassignable_grows by fastforce
  next
    case (Some u)
    then have "place_all a (placed @ [with_unit u b]) (add_to_unit u (b_id b) byUnit) [] bs = (placed', byUnit', [])"
      using Cons.prems by simp
    from Cons.IH [OF this] Cons.prems(2) obtain f where f:
      "placed' = (placed @ [with_unit u b]) @ map (give f) bs"
      "\<forall>b \<in> set bs. 1 \<le> f (b_id b) \<and> f (b_id b) \<le> a_unitCount a"
      "pairs byUnit' = pairs (add_to_unit u (b_id b) byUnit) \<union> (\<lambda>b. (b_id b, f (b_id b))) ` set bs"
      by auto
    let ?f = "f(b_id b := u)"
    have other: "b_id x \<noteq> b_id b" if "x \<in> set bs" for x
      using Cons.prems(2) imageI [OF that, of b_id] by auto
    have "map (give ?f) bs = map (give f) bs" using other by (auto simp: give_def)
    moreover have "(\<lambda>x. (b_id x, ?f (b_id x))) ` set bs = (\<lambda>x. (b_id x, f (b_id x))) ` set bs"
      using other by (auto simp: image_iff)
    ultimately show ?thesis
      using f other choose_unit_Some [OF Some]
      by (intro exI [of _ ?f]) (auto simp: give_def)
  qed
qed simp

text \<open>Whole units: the placed bookings stay free of clashes.\<close>

definition no_clashes :: "booking list \<Rightarrow> bool" where
  "no_clashes bs \<longleftrightarrow> sorted_wrt (\<lambda>b c. \<not> clash b c) bs"

lemma place_all_exclusive [backfill]:
  assumes "place_all a placed byUnit un bs = (placed', byUnit', un')" "rentsWholeUnit a" "no_clashes placed"
  shows "no_clashes placed'"
  using assms
proof (induction bs arbitrary: placed byUnit un)
  case (Cons b bs)
  show ?case
  proof (cases "choose_unit a placed b")
    case None
    then show ?thesis using Cons by simp
  next
    case (Some u)
    have "\<not> clash p (with_unit u b)" if "p \<in> set placed" for p
      using choose_unit_Some(3) [OF Some] Cons.prems(2) that
      by (auto simp: unit_accepts_def Let_def filter_empty_conv clash_def slot_overlaps_def)
    then have "no_clashes (placed @ [with_unit u b])"
      using Cons.prems(3) by (auto simp: no_clashes_def sorted_wrt_append)
    then show ?thesis using Cons.IH Cons.prems Some by simp
  qed
qed simp

text \<open>Shared units: no unit is filled beyond its capacity at any instant.\<close>

definition fits :: "activity \<Rightarrow> booking list \<Rightarrow> bool" where
  "fits a bs \<longleftrightarrow> (\<forall>u t. load_at (filter (in_unit u) bs) t \<le> a_unitCapacity a)"

lemma overlapping_load [backfill]:
  assumes "b_start b \<le> t" "t < b_end b"
  shows "load_at (filter (\<lambda>p. b_unit p = Some u \<and> slot_overlaps p b) bs) t = load_at (filter (in_unit u) bs) t"
  using assms by (induction bs) (auto simp: slot_overlaps_def in_unit_def)

lemma place_all_fits [backfill]:
  assumes "place_all a placed byUnit un bs = (placed', byUnit', un')" "\<not> rentsWholeUnit a" "fits a placed"
  shows "fits a placed'"
  using assms
proof (induction bs arbitrary: placed byUnit un)
  case (Cons b bs)
  show ?case
  proof (cases "choose_unit a placed b")
    case None
    then show ?thesis using Cons by simp
  next
    case (Some u)
    let ?in = "filter (\<lambda>p. b_unit p = Some u \<and> slot_overlaps p b) placed"
    have cap: "maxConcurrentInWindow ?in (b_start b) (b_end b) + b_guests b \<le> a_unitCapacity a"
      using choose_unit_Some(3) [OF Some] Cons.prems(2) by (simp add: unit_accepts_def)
    have "load_at (filter (in_unit u) placed) t + b_guests b \<le> a_unitCapacity a"
      if "b_start b \<le> t" "t < b_end b" for t
      using seats.peak_upper [OF that, of ?in] overlapping_load [OF that, of u placed] cap by simp
    then have "fits a (placed @ [with_unit u b])"
      using Cons.prems(3) by (auto simp: fits_def in_unit_def)
    then show ?thesis using Cons.IH Cons.prems Some by simp
  qed
qed simp

section \<open>The write phase\<close>

lemma give_simps [simp]:
  "b_id (give f b) = b_id b" "b_unit (give f b) = Some (f (b_id b))" "is_live aid now (give f b) = is_live aid now b"
  "give f (with_unit u b) = give f b"
  by (simp_all add: give_def)

lemma write_unit_step: "write_unit (d, n) (u, ids) =
   (d\<lparr>bookings := update_many (\<lambda>b. b_id b \<in> set ids) (with_unit u) (bookings d)\<rparr>,
    n + count_rows (\<lambda>b. b_id b \<in> set ids) (bookings d))"
  by (simp add: write_unit_def)

lemma foldl_write [backfill]:
  assumes "\<And>i u. (i, u) \<in> pairs m \<Longrightarrow> u = f i"
  shows "bookings (fst (foldl write_unit (d, n) m)) =
      map (\<lambda>r. if \<exists>u. (b_id r, u) \<in> pairs m then give f r else r) (bookings d) \<and>
    activities (fst (foldl write_unit (d, n) m)) = activities d"
  using assms
proof (induction m arbitrary: d n)
  case (Cons x m)
  obtain u ids where x: "x = (u, ids)" by (cases x)
  define d1 where "d1 = d\<lparr>bookings := update_many (\<lambda>b. b_id b \<in> set ids) (with_unit u) (bookings d)\<rparr>"
  have u: "u = f i" if "i \<in> set ids" for i using Cons.prems [of i u] that x by auto
  have prem: "v = f i" if "(i, v) \<in> pairs m" for i v using Cons.prems [of i v] that x by auto
  have "bookings (fst (foldl write_unit (d, n) (x # m))) =
      map (\<lambda>r. if \<exists>u. (b_id r, u) \<in> pairs m then give f r else r) (bookings d1) \<and>
    activities (fst (foldl write_unit (d, n) (x # m))) = activities d"
    using Cons.IH [OF prem, of d1 "n + count_rows (\<lambda>b. b_id b \<in> set ids) (bookings d)"] x
    by (simp add: write_unit_step d1_def)
  then show ?case
    using u unfolding d1_def update_many_def x
    by (auto simp: give_def)
qed simp

lemma unassigned_mset [backfill]:
  "mset (unassigned_of tx aid now) = mset (filter (\<lambda>b. is_live aid now b \<and> b_unit b = None) (bookings tx))"
  by (simp add: unassigned_of_def find_many_def)

lemma mset_map_if [backfill]:
  "mset (filter P (map (\<lambda>r. if P r \<and> Q r then g r else r) bs)) =
    mset (filter (\<lambda>r. P r \<and> \<not> Q r) bs) + mset (map g (filter (\<lambda>r. P r \<and> Q r) bs))"
  if "\<And>r. P (g r) = P r"
  using that by (induction bs) auto

lemma no_clashes_iff [backfill]:
  assumes "distinct (map b_id bs)"
  shows "no_clashes bs \<longleftrightarrow> (\<forall>b \<in> set bs. \<forall>c \<in> set bs. b_id b \<noteq> b_id c \<longrightarrow> \<not> clash b c)"
  using assms
proof (induction bs)
  case (Cons b bs)
  have sym: "clash x y \<Longrightarrow> clash y x" for x y by (auto simp: clash_def)
  have ne: "b_id x \<noteq> b_id b" if "x \<in> set bs" for x
    using Cons.prems imageI [OF that, of b_id] by auto
  have "no_clashes (b # bs) \<longleftrightarrow> (\<forall>c \<in> set bs. \<not> clash b c) \<and> no_clashes bs"
    by (simp add: no_clashes_def)
  also have "\<dots> \<longleftrightarrow> (\<forall>c \<in> set bs. \<not> clash b c) \<and>
      (\<forall>x \<in> set bs. \<forall>c \<in> set bs. b_id x \<noteq> b_id c \<longrightarrow> \<not> clash x c)"
    using Cons by simp
  also have "\<dots> \<longleftrightarrow> (\<forall>x \<in> set (b # bs). \<forall>c \<in> set (b # bs). b_id x \<noteq> b_id c \<longrightarrow> \<not> clash x c)"
    using ne by (auto dest: sym)
  finally show ?case .
qed (simp add: no_clashes_def)

lemma fits_perm [backfill]: "mset bs = mset cs \<Longrightarrow> fits a bs = fits a cs"
proof -
  assume "mset bs = mset cs"
  then have "load_at (filter (in_unit u) bs) t = load_at (filter (in_unit u) cs) t" for u t
    by (intro load_at_perm) simp
  then show "fits a bs = fits a cs" by (simp add: fits_def)
qed

definition live_rows :: "db \<Rightarrow> uid \<Rightarrow> ms \<Rightarrow> booking list" where
  "live_rows d aid now = filter (is_live aid now) (bookings d)"

text \<open>A successful backfill, as one function from ids to units.\<close>

lemma assign_success [backfill]:
  assumes r: "assignMissingUnits tx aid now = Inr (res, tx')"
    and a: "find_first (\<lambda>a. a_id a = aid) (activities tx) = Some a" "a_hasUnits a" "0 < a_unitCount a"
    and uq: "unique_on b_id (bookings tx)"
  obtains f where
    "bookings tx' = map (\<lambda>b. if is_live aid now b \<and> b_unit b = None then give f b else b) (bookings tx)"
    "\<And>b. b \<in> set (bookings tx) \<Longrightarrow> is_live aid now b \<Longrightarrow> b_unit b = None \<Longrightarrow> 1 \<le> f (b_id b) \<and> f (b_id b) \<le> a_unitCount a"
    "\<And>b u. b \<in> set (bookings tx) \<Longrightarrow> is_live aid now b \<Longrightarrow> b_unit b = Some u \<Longrightarrow> 1 \<le> u \<and> u \<le> a_unitCount a"
    "ar_unassignable res = []" "activities tx' = activities tx"
    "rentsWholeUnit a \<Longrightarrow> no_clashes (placed_of tx aid now) \<Longrightarrow>
       no_clashes (placed_of tx aid now @ map (give f) (unassigned_of tx aid now))"
    "\<not> rentsWholeUnit a \<Longrightarrow> fits a (placed_of tx aid now) \<Longrightarrow>
       fits a (placed_of tx aid now @ map (give f) (unassigned_of tx aid now))"
proof -
  let ?pl = "placed_of tx aid now" and ?un = "unassigned_of tx aid now"
  have un_set: "set ?un = {b \<in> set (bookings tx). is_live aid now b \<and> b_unit b = None}"
    by (auto simp: unassigned_of_def find_many_def)
  have ids: "distinct (map b_id ?un)"
  proof -
    have "mset (map b_id ?un) = mset (map b_id (filter (\<lambda>b. is_live aid now b \<and> b_unit b = None) (bookings tx)))"
      by (simp only: mset_map unassigned_mset)
    moreover have "distinct (map b_id (filter (\<lambda>b. is_live aid now b \<and> b_unit b = None) (bookings tx)))"
      using uq by (simp add: unique_on_def distinct_map_filter)
    ultimately show ?thesis by (metis mset_eq_imp_distinct_iff)
  qed
  have range: "filter (out_of_range a) ?pl = []"
    using r a by (auto simp: assignMissingUnits_def Let_def split: if_splits)
  have placed_ok: "1 \<le> u \<and> u \<le> a_unitCount a"
    if "b \<in> set (bookings tx)" "is_live aid now b" "b_unit b = Some u" for b u
    using range that by (auto simp: placed_of_def find_many_def filter_empty_conv out_of_range_def not_less)
  show thesis
  proof (cases "?un = []")
    case True
    then have "res = \<lparr>ar_skipped = False, ar_assigned = 0, ar_unassignable = []\<rparr> \<and> tx' = tx"
      using r a range by (simp add: assignMissingUnits_def Let_def)
    moreover have "map (\<lambda>b. if is_live aid now b \<and> b_unit b = None then give (\<lambda>_. 1) b else b) (bookings tx) = bookings tx"
      by (rule map_idI) (use True un_set in auto)
    ultimately show thesis using that [of "\<lambda>_. 1"] True un_set placed_ok a(3) by auto
  next
    case False
    obtain pl' m un' where pa: "place_all a ?pl [] [] ?un = (pl', m, un')" by (cases "place_all a ?pl [] [] ?un")
    have un': "un' = []" using r a range False pa by (auto simp: assignMissingUnits_def Let_def split: if_splits)
    obtain tx1 n1 where fw: "foldl write_unit (tx, 0) m = (tx1, n1)" by (cases "foldl write_unit (tx, 0) m")
    have res: "tx' = tx1" "ar_unassignable res = []"
      using r a range False pa un' fw by (auto simp: assignMissingUnits_def Let_def split: if_splits)
    obtain f where f: "pl' = ?pl @ map (give f) ?un"
      "\<forall>b \<in> set ?un. 1 \<le> f (b_id b) \<and> f (b_id b) \<le> a_unitCount a"
      "pairs m = (\<lambda>b. (b_id b, f (b_id b))) ` set ?un"
      using place_all_assigns [OF pa [unfolded un'] ids] by auto
    have "bookings (fst (foldl write_unit (tx, 0) m)) =
        map (\<lambda>r. if \<exists>u. (b_id r, u) \<in> pairs m then give f r else r) (bookings tx) \<and>
      activities (fst (foldl write_unit (tx, 0) m)) = activities tx"
      by (rule foldl_write) (use f(3) in auto)
    then have w: "bookings tx1 = map (\<lambda>r. if \<exists>u. (b_id r, u) \<in> pairs m then give f r else r) (bookings tx)"
      "activities tx1 = activities tx"
      by (simp_all add: fw)
    have same: "(\<exists>u. (b_id b, u) \<in> pairs m) \<longleftrightarrow> is_live aid now b \<and> b_unit b = None" if "b \<in> set (bookings tx)" for b
      using that f(3) un_set unique_onD [OF uq] by auto
    have "bookings tx' = map (\<lambda>b. if is_live aid now b \<and> b_unit b = None then give f b else b) (bookings tx)"
      using w res(1) same by (auto intro!: map_cong)
    then show thesis
      using that [of f] f(2) un_set placed_ok res w place_all_exclusive [OF pa] place_all_fits [OF pa] f(1) by auto
  qed
qed

end
