(* ===== verification/ServiceTheorems.thy ===== *)
theory ServiceTheorems
  imports Scenario CancelProps BookingOtp Breaker UnitBackfill
begin

text \<open>
  What each service guarantees on its own: the capacity sweep, prices, coupons, points, refund
  decisions, codes, locks, the circuit breaker and the unit backfill, each with an example.
\<close>

section \<open>Capacity\<close>

text \<open>C34. The sweep computes the true peak: it stays within a capacity exactly when the guests present at
  every single instant of the window do.\<close>

theorem maxConcurrent_is_true_peak:
  assumes "list_all nonneg_guests bs" "0 \<le> c"
  shows "maxConcurrentInWindow bs ws we \<le> c \<longleftrightarrow> (\<forall>t. ws \<le> t \<and> t < we \<longrightarrow> load_at bs t \<le> c)"
  by (rule seats.peak_le_iff [OF assms])

theorem maxConcurrent_is_true_peak_witness:
  "maxConcurrentInWindow [sc_booking, seat_booking, stay_booking] sc_start stay_end \<le> 4 \<longleftrightarrow>
     (\<forall>t. sc_start \<le> t \<and> t < stay_end \<longrightarrow> load_at [sc_booking, seat_booking, stay_booking] t \<le> 4)"
  by (rule maxConcurrent_is_true_peak) (simp_all add: nonneg_guests_def)

section \<open>Prices\<close>

text \<open>A daily stay costs the sum of its nights, each at its own price: the special price of that date
  if there is one, the base price otherwise.\<close>

theorem daily_price_sums_nights:
  assumes "valid_civil checkIn" "valid_civil checkOut" "checkIn < checkOut"
  shows "daily_total_cents tx a checkIn checkOut =
    (\<Sum>i \<leftarrow> [0..<nat (day_of_civil checkOut - day_of_civil checkIn)].
       night_price tx a (civil_of_day (day_of_civil checkIn + int i)))"
  by (rule daily_total_sum [OF assms])

theorem daily_price_sums_nights_witness:
  "daily_total_cents sc_db sc_daily (Civil 2026 3 10) (Civil 2026 3 12) =
    (\<Sum>i \<leftarrow> [0..<nat (day_of_civil (Civil 2026 3 12) - day_of_civil (Civil 2026 3 10))].
       night_price sc_db sc_daily (civil_of_day (day_of_civil (Civil 2026 3 10) + int i)))"
  by (rule daily_price_sums_nights) (simp_all add: valid_civil_def days_in_month_def)

text \<open>Extras are charged once each, at the listed price, for at least one guest and at most the party,
  and the cents charged are the sum of their lines.\<close>

theorem extras_charged_as_listed:
  assumes "select_extras (extras_map svcs) qtys guests {} names = Inr (c, xs)" "1 \<le> guests"
  shows "c = sum_list (map extra_cents xs) \<and> distinct (map (to_lower \<circ> s_name) xs) \<and>
    (\<forall>x \<in> set xs. 1 \<le> s_qty x \<and> s_qty x \<le> guests \<and> 0 < s_price x \<and>
      (\<exists>svc \<in> set svcs. x_name svc = s_name x \<and> x_price svc = s_price x))"
  using select_extras_ok [OF assms] by blast

lemma sc_lunch:
  "select_extras (extras_map [\<lparr>x_name = ''Lunch'', x_price = 20, x_perPerson = True\<rparr>]) None 2 {}
     [''lunch'', ''LUNCH''] = Inr (4000, [\<lparr>s_name = ''Lunch'', s_price = 20, s_qty = 2, s_perPerson = True\<rparr>])"
  by code_simp

theorem extras_charged_as_listed_witness:
  "4000 = sum_list (map extra_cents [\<lparr>s_name = ''Lunch'', s_price = 20, s_qty = 2, s_perPerson = True\<rparr>])"
  using extras_charged_as_listed [OF sc_lunch] by simp

text \<open>A coupon that brings the price down to nothing lets any request to redeem points waive the
  service fee: the whole booking is free, no point is spent, and no balance is looked at.\<close>

theorem zero_price_waives_fee:
  assumes "load_loyalty_config tx = (cfg, tx')" "of_int (lc_minRedemption cfg) \<le> cents pts" "0 < pts"
    and "0 < lc_qarPerPoint cfg"
  shows "redeem_stage tx (Some pts) 0 fee = Inr (\<lparr>rd_points = 0, rd_discount = 0, rd_fee = 0\<rparr>, tx')"
  by (rule free_fee_waiver [OF assms])

theorem zero_price_waives_fee_witness:
  "redeem_stage sc_db (Some 1) 0 5 = Inr (\<lparr>rd_points = 0, rd_discount = 0, rd_fee = 0\<rparr>, sc_db)"
  by (rule zero_price_waives_fee [where cfg = "\<lparr>lc_pointsPerQar = 1 / 100, lc_qarPerPoint = 1, lc_minRedemption = 1\<rparr>"])
    (simp_all add: load_loyalty_config_def sc_db_def cents_def js_round_def floor_eq_iff)

section \<open>Coupons\<close>

text \<open>A coupon is never used beyond its limit and the discount never exceeds the price: the counter
  rises by exactly one, still within the limit, and the row stays well-formed.\<close>

theorem coupon_use_within_limit:
  assumes "coupons_ok tx" "applyCouponCode tx u code0 a t now = Inr ((code, disc), tx')"
    and "0 \<le> t" "two_dp t"
  shows "coupons_ok tx' \<and> 0 \<le> disc \<and> disc \<le> t \<and>
    (\<exists>c \<in> set (coupons tx). cp_code c = code \<and>
       (\<forall>n. cp_usageLimit c = Some n \<longrightarrow> cp_usedCount c + 1 \<le> n) \<and>
       coupons tx' = update_many (\<lambda>r. cp_id r = cp_id c) (\<lambda>_. used_once (cp_usageLimit c) c) (coupons tx))"
proof -
  from applyCouponCode_Inr [OF assms(1,2)] obtain c where
    ap: "applied tx c t now code disc" and tx': "tx' = count_row c tx" by blast
  have wf: "coupon_wf c" by (rule applied_wf [OF assms(1) ap])
  have "\<forall>n. cp_usageLimit c = Some n \<longrightarrow> cp_usedCount c + 1 \<le> n"
    using ap by (auto simp: applied_def at_cap_def)
  moreover have "0 \<le> disc" "disc \<le> t"
    using ap coupon_discount_bounds [OF wf assms(3,4)] by (simp_all add: applied_def)
  ultimately show ?thesis
    using count_row_ok [OF assms(1) ap] ap tx' by (auto simp: applied_def update_coupons_def)
qed

lemma sc_apply_code: "applyCouponCode sc_db 7 ''save10'' sc_hourly 140 sc_now = Inr ((''SAVE10'', 14), sc_db_coupon)"
  by code_simp

theorem coupon_use_within_limit_witness: "coupons_ok sc_db_coupon \<and> (0::num) \<le> 14 \<and> (14::num) \<le> 140"
  using coupon_use_within_limit [OF sc_coupons_ok sc_apply_code] two_dp_of_int [of 140] by simp

section \<open>Points\<close>

text \<open>C33. Whatever sequence of redemptions, refunds, awards, reversals and adjustments runs, every balance
  stays non-negative and equal to the sum of its ledger rows, and the ledger only ever grows.\<close>

theorem points_history:
  assumes "loyalty_step\<^sup>*\<^sup>* d d'" "points_ok d"
  shows "points_ok d' \<and> (\<exists>rs. ledger d' = ledger d @ rs)"
  by (rule loyalty_history [OF assms])

lemma sc_free: "\<not> ledger_taken sc_db (Some b) src"
  by (simp add: ledger_taken_def sc_db_def sc_grant_def)

lemma sc_redeem_steps:
  "\<exists>d1 d2. redeem sc_db 7 30 100 = Inr (70, d1) \<and> refund d1 7 30 100 CANCEL_REFUND_UNPAID CUSTOMER (Some 7) = Inr (100, d2) \<and>
     loyalty_step\<^sup>*\<^sup>* sc_db d2"
proof -
  have r: "round2 30 = 30" by (rule round2_id) (use two_dp_of_int [of 30] in simp)
  have b: "balance_of sc_db 7 = Some 100" by code_simp
  let ?d1 = "post sc_db (redeem_row 7 30 100 70)"
  have 1: "redeem sc_db 7 30 100 = Inr (70, ?d1)"
    by (simp add: redeem_cases [OF sc_points_ok] r b sc_free)
  have 2: "refund ?d1 7 30 100 CANCEL_REFUND_UNPAID CUSTOMER (Some 7) =
      Inr (100, post ?d1 (credit_row 7 30 100 CANCEL_REFUND_UNPAID CUSTOMER (Some 7) 100))" (is "_ = Inr (_, ?d2)")
    by (simp add: refund_cases r b sc_free)
  have "loyalty_step\<^sup>*\<^sup>* sc_db ?d2"
    by (meson 1 2 loyalty_step.intros rtranclp.rtrancl_into_rtrancl rtranclp.rtrancl_refl)
  then show ?thesis using 1 2 by blast
qed

theorem points_history_witness: "\<exists>d'. loyalty_step\<^sup>*\<^sup>* sc_db d' \<and> points_ok d' \<and> (\<exists>rs. ledger d' = ledger sc_db @ rs)"
  using sc_redeem_steps points_history [OF _ sc_points_ok] by blast

text \<open>Points can never be spent twice: two redemptions in a row take together at most what the
  customer had.\<close>

theorem redeem_never_overdraws:
  assumes "points_ok d" "redeem d u x b = Inr (bal1, d1)" "redeem d1 u y b' = Inr (bal2, d2)"
    and "balance_of d u = Some bal"
  shows "round2 x + round2 y \<le> bal \<and> bal2 = bal - round2 x - round2 y \<and> 0 \<le> bal2"
proof -
  have 1: "d1 = post d (redeem_row u (round2 x) b bal1)" "bal1 = bal - round2 x"
    using assms(2,4) by (auto simp: redeem_cases [OF assms(1)] Let_def split: if_splits)
  have ok1: "points_ok d1" using redeem_posting [OF assms(1,2)] post_points_ok [OF assms(1)] by simp
  have "balance_of d1 u = Some bal1" using 1 assms(4) by simp
  then show ?thesis
    using assms(3) 1(2) by (auto simp: redeem_cases [OF ok1] Let_def split: if_splits)
qed

theorem redeem_never_overdraws_witness:
  "\<exists>d1 d2. redeem sc_db 7 30 100 = Inr (70, d1) \<and> redeem d1 7 70 101 = Inr (0, d2) \<and>
     round2 30 + round2 70 \<le> (100::num) \<and> (0::num) = 100 - round2 30 - round2 70"
proof -
  have r: "round2 30 = 30" "round2 70 = 70"
    using round2_id [OF two_dp_of_int [of 30]] round2_id [OF two_dp_of_int [of 70]] by simp_all
  have b: "balance_of sc_db 7 = Some 100" by code_simp
  let ?d1 = "post sc_db (redeem_row 7 30 100 70)"
  have 1: "redeem sc_db 7 30 100 = Inr (70, ?d1)"
    by (simp add: redeem_cases [OF sc_points_ok] r b sc_free)
  have ok: "points_ok ?d1" using redeem_posting [OF sc_points_ok 1] post_points_ok [OF sc_points_ok] by (simp add: r)
  have 2: "redeem ?d1 7 70 101 = Inr (0, post ?d1 (redeem_row 7 70 101 0))"
    by (simp add: redeem_cases [OF ok] r b sc_free)
  show ?thesis using redeem_never_overdraws [OF sc_points_ok 1 2 b] 1 2 by blast
qed

section \<open>Refund decisions\<close>

lemma decision_payment:
  assumes "decision_tx env u act b pid action x pts nt tx = Inr (y, tx')"
  shows "\<exists>q \<in> set (payments tx'). p_id q = pid \<and> p_status q = (if action = APPROVE then REFUNDED else REJECTED) \<and>
    p_refundAmount q = (if action = APPROVE then Some x else None)"
proof -
  define f :: "payment \<Rightarrow> payment" where "f = (\<lambda>p. p\<lparr>p_status := (if action = APPROVE then REFUNDED else REJECTED),
      p_refundAmount := (if action = APPROVE then Some x else None), p_refundedAt := Some (c_now env)\<rparr>)"
  let ?sel = "\<lambda>p. p_id p = pid \<and> p_status p = REFUND_PENDING"
  obtain p where "payments tx' = update_many ?sel f (payments tx)" and p: "p \<in> set (payments tx)" "?sel p"
    using decision_tx_Inr [OF assms] unfolding f_def by blast
  then have "f p \<in> set (payments tx')" by (auto simp: update_many_mem intro!: bexI [of _ p])
  then show ?thesis using p by (intro bexI [of _ "f p"]) (simp_all add: f_def)
qed

lemma decision_refused:
  assumes "\<And>b' q. find_first (\<lambda>b. b_id b = bid) (bookings (w_db w)) = Some b' \<Longrightarrow> payment_of (w_db w) b' = Some q \<Longrightarrow>
    p_status q \<noteq> REFUND_PENDING"
  shows "\<exists>ex. recordRefundDecision env ifr u role bid action amount note w = (Inl ex, w)"
  using assms by (auto simp: recordRefundDecision_def Let_def split: option.split)

lemma decision_overtaken:
  assumes "find_first (\<lambda>b. b_id b = bid) (bookings (w_db w)) = Some b" "payment_of (w_db w) b = Some p"
    and "\<And>q. q \<in> set (payments d) \<Longrightarrow> p_id q = p_id p \<Longrightarrow> p_status q \<noteq> REFUND_PENDING"
  shows "\<exists>ex w2. recordRefundDecision env (\<lambda>_. d) u role bid action amount note w = (Inl ex, w2) \<and> (w2 = w \<or> w2 = w\<lparr>w_db := d\<rparr>)"
proof -
  have "decision_tx env u act b (p_id p) action x pts nt d = Inl (Conflict AlreadyDecided)" for act x pts nt
    using assms(3) by (simp add: decision_tx_def flip_payment_lost)
  then show ?thesis
    by (auto simp: recordRefundDecision_def assms(1,2) Let_def finish_cancel_def run_cancel_def transaction_def
        split: prod.split sum.split)
qed

text \<open>C20. A refund is decided by an admin or the booking's vendor only, at most once and within what was
  paid, whatever other writers do between the checks and the transaction as long as they leave the
  booking its payment: the payment is then refunded with the amount, or rejected. Any further decision,
  by whomever, is refused and changes nothing; so is one that read the refund as undecided before the
  first decision committed and whose own transaction comes after it.\<close>

theorem refund_decided_once_within_payment:
  assumes "recordRefundDecision env ifr u role bid action amount note w = (Inr res, w')"
    and "find_first (\<lambda>b. b_id b = bid) (bookings (w_db w)) = Some b" "payment_of (w_db w) b = Some p"
    and "0 \<le> p_amount p" "two_dp (p_amount p)"
    and "\<And>d b'. bookings d = bookings (w_db w) \<Longrightarrow> find_first (\<lambda>b. b_id b = bid) (bookings (ifr d)) = Some b' \<Longrightarrow>
      b_paymentId b' = b_paymentId b"
  shows "0 \<le> dr_amount res \<and> dr_amount res \<le> p_amount p \<and>
    (role = ROLE_ADMIN \<or> role = ROLE_VENDOR \<and> vendor_user (w_db w) (b_vendorId b) = Some u) \<and>
    (\<forall>q \<in> set (payments (w_db w')). p_id q = p_id p \<longrightarrow> p_status q \<noteq> REFUND_PENDING) \<and>
    (\<exists>q \<in> set (payments (w_db w')). p_id q = p_id p \<and> p_status q = (if action = APPROVE then REFUNDED else REJECTED) \<and>
      p_refundAmount q = (if action = APPROVE then Some (dr_amount res) else None)) \<and>
    (\<exists>ex. recordRefundDecision env2 ifr2 u2 role2 bid action2 amount2 note2 w' = (Inl ex, w')) \<and>
    (\<exists>ex w2. recordRefundDecision env2 (\<lambda>_. w_db w') u2 role2 bid action2 amount2 note2 w = (Inl ex, w2) \<and>
      (w2 = w \<or> w2 = w\<lparr>w_db := w_db w'\<rparr>))"
proof -
  obtain cfg d1 where cfg: "load_loyalty_config (w_db w) = (cfg, d1)" by (cases "load_loyalty_config (w_db w)")
  obtain x where x: "final_amount action amount (p_amount p) = Inr x"
    using assms(1-3) by (cases "final_amount action amount (p_amount p)")
      (auto simp: recordRefundDecision_def Let_def split: if_splits)
  obtain act pts nt d where
    tx: "decision_tx env u act b (p_id p) action x pts nt (ifr d1) = Inr ((), d)" and w': "w_db w' = d"
    and res: "dr_amount res = x"
    and auth: "role = ROLE_ADMIN \<or> role = ROLE_VENDOR \<and> vendor_user (w_db w) (b_vendorId b) = Some u"
    using assms(1-3) x cfg
    by (auto simp: recordRefundDecision_def Let_def finish_cancel_Inr run_cancel_Inr split: if_splits)
  have closed: "p_status q \<noteq> REFUND_PENDING" if "q \<in> set (payments (w_db w'))" "p_id q = p_id p" for q
    using decided_once [OF tx] that w' by blast
  have same: "bookings d1 = bookings (w_db w)" using cfg by (auto simp: load_loyalty_config_def split: option.splits)
  have link: "p_status q \<noteq> REFUND_PENDING"
    if "find_first (\<lambda>b. b_id b = bid) (bookings (w_db w')) = Some b'" "payment_of (w_db w') b' = Some q" for b' q
  proof -
    have "b_id b = bid" using assms(2) by (auto dest: find_first_Some)
    moreover define f :: "booking \<Rightarrow> booking" where "f = (\<lambda>r. r\<lparr>b_decisionAt := Some (c_now env), b_decisionBy := Some u,
        b_decisionActor := Some act, b_decisionNote := nt\<rparr>)"
    ultimately have "bookings (w_db w') = update_many (\<lambda>r. b_id r = bid) f (bookings (ifr d1))"
      using decision_tx_Inr [OF tx] by (simp add: w')
    then have "map_option f (find_first (\<lambda>b. b_id b = bid) (bookings (ifr d1))) = Some b'"
      using that(1) find_first_update [of b_id f bid bid "bookings (ifr d1)"] by (simp add: f_def)
    then obtain r where "find_first (\<lambda>b. b_id b = bid) (bookings (ifr d1)) = Some r" "b_paymentId b' = b_paymentId r"
      by (auto simp: f_def)
    then have "b_paymentId b' = b_paymentId b" using assms(6) [OF same] by simp
    then have "q \<in> set (payments (w_db w')) \<and> p_id q = p_id p"
      using that(2) assms(3) by (auto simp: payment_of_def bind_eq_Some_conv dest!: find_first_Some)
    then show ?thesis using closed by blast
  qed
  have refused: "\<exists>ex. recordRefundDecision env2 ifr2 u2 role2 bid action2 amount2 note2 w' = (Inl ex, w')"
    by (rule decision_refused) (rule link)
  have overtaken: "\<exists>ex w2. recordRefundDecision env2 (\<lambda>_. w_db w') u2 role2 bid action2 amount2 note2 w = (Inl ex, w2) \<and>
      (w2 = w \<or> w2 = w\<lparr>w_db := w_db w'\<rparr>)"
    by (rule decision_overtaken [OF assms(2,3)]) (rule closed)
  have "\<forall>q \<in> set (payments (w_db w')). p_id q = p_id p \<longrightarrow> p_status q \<noteq> REFUND_PENDING" using closed by blast
  note parts = final_amount_bounds(1,2) [OF x assms(4,5)] auth this decision_payment [OF tx, folded w'] refused overtaken
  show ?thesis unfolding res by (intro conjI parts)
qed

definition sc_world_refundable :: world where
  "sc_world_refundable = \<lparr>w_db = sc_db_booked\<lparr>bookings := [cancelled_by sc_now CUSTOMER sc_booking],
     payments := [sc_payment\<lparr>p_status := REFUND_PENDING\<rparr>]\<rparr>, w_fx = []\<rparr>"

lemma sc_refundable:
  "find_first (\<lambda>b. b_id b = 100) (bookings (w_db sc_world_refundable)) = Some (cancelled_by sc_now CUSTOMER sc_booking)"
  "payment_of (w_db sc_world_refundable) (cancelled_by sc_now CUSTOMER sc_booking) =
     Some (sc_payment\<lparr>p_status := REFUND_PENDING\<rparr>)"
  "p_amount sc_payment = 111" "p_id sc_payment = 101"
  by (simp_all add: sc_world_refundable_def payment_of_def cancelled_by_def sc_payment_def new_payment_def
      sc_env_simps sc_booking_def)

lemma sc_rejected:
  "\<exists>w'. recordRefundDecision sc_cancel id 9 ROLE_ADMIN 100 REJECT None None sc_world_refundable =
     (Inr \<lparr>dr_action = REJECT, dr_amount = 0, dr_points = 0, dr_actor = ADMIN\<rparr>, w')"
  unfolding recordRefundDecision_def sc_refundable option.case
  by (simp add: sc_refundable final_amount_def refund_points_def finish_cancel_def run_cancel_def transaction_def
      decision_tx_def flip_payment_def update_booking_or_throw_def count_rows_def find_first_def safe_note_def
      sc_world_refundable_def cancelled_by_def load_loyalty_config_def Let_def split: option.splits)

theorem refund_decided_once_within_payment_witness:
  "\<exists>w'. recordRefundDecision sc_cancel id 9 ROLE_ADMIN 100 REJECT None None sc_world_refundable =
      (Inr \<lparr>dr_action = REJECT, dr_amount = 0, dr_points = 0, dr_actor = ADMIN\<rparr>, w') \<and>
    (\<forall>q \<in> set (payments (w_db w')). p_id q = 101 \<longrightarrow> p_status q \<noteq> REFUND_PENDING) \<and>
    (\<exists>ex. recordRefundDecision sc_cancel id 9 ROLE_ADMIN 100 APPROVE (Some 50) None w' = (Inl ex, w'))"
proof -
  obtain w' where w': "recordRefundDecision sc_cancel id 9 ROLE_ADMIN 100 REJECT None None sc_world_refundable =
      (Inr \<lparr>dr_action = REJECT, dr_amount = 0, dr_points = 0, dr_actor = ADMIN\<rparr>, w')"
    using sc_rejected by blast
  from refund_decided_once_within_payment [OF this sc_refundable(1,2), of sc_cancel id 9 ROLE_ADMIN APPROVE "Some 50" None]
  show ?thesis using w' two_dp_of_int [of 111] by (auto simp: sc_refundable)
qed

section \<open>Booking codes\<close>

text \<open>Guessing a code is bounded and hopeless: however many wrong codes are tried, the booking stays
  unverified and no more than five attempts are ever counted.\<close>

theorem wrong_codes_never_verify:
  assumes "unique_on b_id (bookings (w_db w))" "booking_row bid w = Some b" "b_otpVerifiedAt b = None"
    and "b_otpAttempts b \<le> 5" "list_all (\<lambda>c. b_otpHash b \<noteq> Some (t_hash env c)) cs"
  shows "\<exists>b'. booking_row bid (try_codes env u bid cs w) = Some b' \<and> b_otpVerifiedAt b' = None \<and> b_otpAttempts b' \<le> 5"
  using wrong_codes [OF assms(1-3,5), of u] attempts_bounded [OF assms(1,2,4), of env u cs] by auto

definition sc_otp :: otp_env where
  "sc_otp = \<lparr>t_now = sc_now, t_hash = (\<lambda>c. CHR ''h'' # c), t_code = ''123456'', t_quotaOk = (\<lambda>_. True)\<rparr>"

definition sc_world_coded :: world where
  "sc_world_coded = generateAndSendBookingOtp sc_otp 100 ''c@x.qa'' sc_world_booked"

lemma sc_coded_row: "booking_row 100 sc_world_coded = Some (stamp_code sc_otp sc_booking)"
  by (simp add: sc_world_coded_def generate_row, simp add: booking_row_def find_first_def sc_world_booked_def sc_db_booked_def)

lemma sc_coded_unique: "unique_on b_id (bookings (w_db sc_world_coded))"
  by (simp add: sc_world_coded_def generateAndSendBookingOtp_def sc_otp_def,
      simp add: sc_world_booked_def sc_db_booked_def unique_on_def)

theorem wrong_codes_never_verify_witness:
  "\<exists>b'. booking_row 100 (try_codes sc_otp 7 100 [''000000'', ''111111'', ''222222''] sc_world_coded) = Some b' \<and>
     b_otpVerifiedAt b' = None \<and> b_otpAttempts b' \<le> 5"
  by (rule wrong_codes_never_verify [OF sc_coded_unique sc_coded_row])
    (simp_all add: stamp_code_def sc_booking_def new_booking_def sc_otp_def)

section \<open>Locks\<close>

text \<open>While one request holds a slot lock within its lease, every other request for the slot is turned
  away, whatever else happens on the lock server, as long as the server answers.\<close>

theorem slot_lock_excludes:
  assumes "r_up r" "0 < ttl" "acquire r k ttl tok = (Some tok', r1)"
    and "list_all (\<lambda>e. e \<noteq> Release k tok) es" "r_clock (redis_run r1 es) < r_clock r + ttl"
    and "r_up (redis_run r1 es)"
  shows "acquire (redis_run r1 es) k ttl2 tok2 = (None, redis_run r1 es)"
  by (rule lock_excludes [OF assms])

theorem slot_lock_excludes_witness:
  "let r1 = snd (acquire sc_redis (lock_key_of sc_dto) 30000 1);
       r2 = redis_run r1 [Tick 20000, SetNx (lock_key_of sc_dto) 5 99, Release (lock_key_of sc_dto) 2]
   in acquire r2 (lock_key_of sc_dto) 30000 2 = (None, r2)"
  unfolding Let_def
  by (rule slot_lock_excludes [of sc_redis 30000 "lock_key_of sc_dto" 1 1])
    (simp_all add: sc_redis_def acquire_def redis_set_nx_def redis_get_def redis_run_def release_def)

text \<open>Scheduled jobs run on one pod at a time: while a leader holds a job's lock within its lease, no
  other pod runs the job, also when the lock server goes away in between.\<close>

theorem leader_runs_alone:
  assumes "0 < ttl" "tryAcquireForLeader r k ttl tok = (Some tok', r1)"
    and "list_all (\<lambda>e. e \<noteq> Release k tok) es" "r_clock (redis_run r1 es) < r_clock r + ttl"
  shows "withLeaderLock k ttl2 tok2 fn (redis_run r1 es, s) = (Inr None, redis_run r1 es, s)"
  by (rule leader_excludes [OF assms])

theorem leader_runs_alone_witness:
  "let r1 = snd (tryAcquireForLeader sc_redis (CronLock ''cron:cancel-stale-pending'') 600000 1);
       r2 = redis_run r1 [Connection False, Tick 300000]
   in withLeaderLock (CronLock ''cron:cancel-stale-pending'') 600000 2 (\<lambda>s. (Inr (), s)) (r2, sc_world) =
        (Inr None, r2, sc_world)"
  unfolding Let_def
  by (rule leader_runs_alone [of 600000 sc_redis _ 1 1])
    (simp_all add: sc_redis_def tryAcquireForLeader_def redis_set_nx_def redis_get_def redis_run_def)

section \<open>The circuit breaker\<close>

text \<open>In every reachable state, calls overlapping in any way, a closed breaker has seen fewer failures
  in a row than its threshold, and it is half-open exactly while the probe slot is taken.\<close>

theorem breaker_invariant:
  assumes "brk_reach cfg brk_init t s" "0 < k_threshold cfg"
  shows "(k_state (y_brk s) = CLOSED \<longrightarrow> k_failures (y_brk s) < k_threshold cfg \<and> \<not> k_probe (y_brk s)) \<and>
    (k_state (y_brk s) = HALF_OPEN \<longleftrightarrow> k_probe (y_brk s)) \<and> k_openedAt (y_brk s) \<le> t"
  using brk_reach_inv [OF assms] by (auto simp: brk_inv_def)

definition sc_breaker :: breaker_cfg where
  "sc_breaker = \<lparr>k_threshold = 1, k_timeout = 30000, k_disabled = False\<rparr>"

text \<open>The breaker trips at the threshold and then keeps every call away until the cool-down is over,
  telling it how long to wait.\<close>

theorem breaker_trips_and_cools_down:
  assumes "\<not> k_disabled cfg" "k_state b = CLOSED" "k_failures b < k_threshold cfg"
    and "k_failures b + n = k_threshold cfg" "now \<le> now'" "now' < now + k_timeout cfg"
  shows "k_state (fail_times cfg now n b) = OPEN \<and>
    admit cfg now' (fail_times cfg now n b) = Inl (now + k_timeout cfg - now')"
proof -
  have t: "k_state (fail_times cfg now n b) = OPEN \<and> k_openedAt (fail_times cfg now n b) = now"
    by (rule fail_times_trips [OF assms(1-4)])
  then show ?thesis using admit_open [OF assms(1), of "fail_times cfg now n b" now'] assms(6) by auto
qed

theorem breaker_trips_and_cools_down_witness:
  "k_state (fail_times sc_breaker 1000 1 (y_brk brk_init)) = OPEN \<and>
    admit sc_breaker 11000 (fail_times sc_breaker 1000 1 (y_brk brk_init)) = Inl (1000 + k_timeout sc_breaker - 11000)"
  by (rule breaker_trips_and_cools_down) (simp_all add: sc_breaker_def brk_init_def)

text \<open>The promise of a single probe does not hold: with a call still in flight from before the trip,
  a state is reachable in which two probes of the half-open breaker run at once.\<close>

theorem two_probes_reachable:
  "\<exists>t s. brk_reach sc_breaker brk_init t s \<and> probes_in_flight s = 2"
proof -
  let ?b = "\<lambda>st n opened pr. \<lparr>k_state = st, k_failures = n, k_openedAt = opened, k_probe = pr\<rparr>"
  have "brk_reach sc_breaker brk_init 0 \<lparr>y_brk = ?b CLOSED 0 0 False, y_calls = []\<rparr>"
    using reach_start [of sc_breaker brk_init] by (simp add: brk_init_def)
  from reach_admit [OF this, of 0 "?b CLOSED 0 0 False" 1]
  have "brk_reach sc_breaker brk_init 0 \<lparr>y_brk = ?b CLOSED 0 0 False, y_calls = [(1, False)]\<rparr>"
    by (simp add: admit_def)
  from reach_admit [OF this, of 0 "?b CLOSED 0 0 False" 2]
  have "brk_reach sc_breaker brk_init 0 \<lparr>y_brk = ?b CLOSED 0 0 False, y_calls = [] @ (1, False) # [(2, False)]\<rparr>"
    by (simp add: admit_def)
  from reach_settle [OF this, of 1 False]
  have "brk_reach sc_breaker brk_init 1 \<lparr>y_brk = ?b OPEN 1 1 False, y_calls = [(2, False)]\<rparr>"
    by (simp add: settle_def recordFailure_def sc_breaker_def transition_def)
  from reach_admit [OF this, of 40000 "?b HALF_OPEN 1 1 True" 3]
  have "brk_reach sc_breaker brk_init 40000
      \<lparr>y_brk = ?b HALF_OPEN 1 1 True, y_calls = [] @ (2, False) # [(3, True)]\<rparr>"
    by (simp add: admit_def sc_breaker_def transition_def)
  from reach_settle [OF this, of 40001 False]
  have "brk_reach sc_breaker brk_init 40001 \<lparr>y_brk = ?b OPEN 2 40001 False, y_calls = [(3, True)]\<rparr>"
    by (simp add: numeral_2_eq_2 settle_def recordFailure_def sc_breaker_def transition_def)
  from reach_admit [OF this, of 80000 "?b HALF_OPEN 2 40001 True" 4]
  have "brk_reach sc_breaker brk_init 80000
      \<lparr>y_brk = ?b HALF_OPEN 2 40001 True, y_calls = [(3, True), (4, True)]\<rparr>"
    by (simp add: admit_def sc_breaker_def transition_def)
  moreover have "probes_in_flight \<lparr>y_brk = ?b HALF_OPEN 2 40001 True, y_calls = [(3, True), (4, True)]\<rparr> = 2"
    by (simp add: probes_in_flight_def)
  ultimately show ?thesis by blast
qed

theorem breaker_invariant_witness:
  "(k_state (y_brk brk_init) = HALF_OPEN \<longleftrightarrow> k_probe (y_brk brk_init))"
  using breaker_invariant [of sc_breaker 0 brk_init] reach_start [of sc_breaker brk_init] by (simp add: sc_breaker_def)

section \<open>The unit backfill\<close>

text \<open>The backfill is all or nothing and leaves a consistent plan: when it succeeds every live booking
  of the activity sits in an existing unit, bookings that had a unit keep it, and whole units are
  never given to two bookings at one time.\<close>

theorem backfill_places_everyone:
  assumes "assignMissingUnits tx aid now = Inr (res, tx')"
    and "find_first (\<lambda>a. a_id a = aid) (activities tx) = Some a" "a_hasUnits a" "0 < a_unitCount a"
    and "unique_on b_id (bookings tx)"
  shows "(\<forall>b \<in> set (live_rows tx' aid now). \<exists>u. b_unit b = Some u \<and> 1 \<le> u \<and> u \<le> a_unitCount a) \<and>
    map b_id (bookings tx') = map b_id (bookings tx) \<and>
    (\<forall>b \<in> set (bookings tx). b_unit b \<noteq> None \<longrightarrow> b \<in> set (bookings tx')) \<and>
    (rentsWholeUnit a \<longrightarrow> no_clashes (placed_of tx aid now) \<longrightarrow> no_clashes (live_rows tx' aid now))"
proof (rule assign_success [OF assms])
  fix f
  assume bs: "bookings tx' = map (\<lambda>b. if is_live aid now b \<and> b_unit b = None then give f b else b) (bookings tx)"
    and f: "\<And>b. b \<in> set (bookings tx) \<Longrightarrow> is_live aid now b \<Longrightarrow> b_unit b = None \<Longrightarrow>
      1 \<le> f (b_id b) \<and> f (b_id b) \<le> a_unitCount a"
    and old: "\<And>b u. b \<in> set (bookings tx) \<Longrightarrow> is_live aid now b \<Longrightarrow> b_unit b = Some u \<Longrightarrow> 1 \<le> u \<and> u \<le> a_unitCount a"
    and clashes: "rentsWholeUnit a \<Longrightarrow> no_clashes (placed_of tx aid now) \<Longrightarrow>
       no_clashes (placed_of tx aid now @ map (give f) (unassigned_of tx aid now))"
  have rows: "mset (live_rows tx' aid now) = mset (placed_of tx aid now @ map (give f) (unassigned_of tx aid now))"
    using mset_map_if [of "is_live aid now" "give f" "\<lambda>b. b_unit b = None" "bookings tx"] unassigned_mset [of tx aid now]
    by (simp add: live_rows_def bs placed_of_def find_many_def)
  have ids: "distinct (map b_id (live_rows tx' aid now))"
    using assms(5) unfolding live_rows_def by (simp add: unique_on_def distinct_map_filter bs comp_def if_distrib cong: if_cong)
  have "no_clashes (live_rows tx' aid now)" if "rentsWholeUnit a" "no_clashes (placed_of tx aid now)"
  proof -
    have "distinct (map b_id (placed_of tx aid now @ map (give f) (unassigned_of tx aid now)))"
      using ids rows by (metis mset_eq_imp_distinct_iff mset_map)
    then show ?thesis
      using clashes [OF that] ids mset_eq_setD [OF rows] by (simp add: no_clashes_iff)
  qed
  moreover have "map b_id (bookings tx') = map b_id (bookings tx)" by (simp add: bs comp_def if_distrib cong: if_cong)
  moreover have "\<exists>u. b_unit b = Some u \<and> 1 \<le> u \<and> u \<le> a_unitCount a" if "b \<in> set (live_rows tx' aid now)" for b
  proof -
    from that obtain r where r: "r \<in> set (bookings tx)" "is_live aid now b"
      and b: "b = (if is_live aid now r \<and> b_unit r = None then give f r else r)"
      unfolding live_rows_def bs by auto
    show ?thesis
    proof (cases "is_live aid now r \<and> b_unit r = None")
      case True
      then show ?thesis using f [OF r(1)] b by simp
    next
      case False
      then show ?thesis using old [OF r(1)] b r(2) by auto
    qed
  qed
  ultimately show ?thesis by (auto simp: bs image_iff)
qed

definition sc_db_orphan :: db where
  "sc_db_orphan = sc_db\<lparr>bookings := [stay_booking\<lparr>b_unit := None, b_status := CONFIRMED\<rparr>,
     stay_booking\<lparr>b_id := 200, b_status := CONFIRMED\<rparr>]\<rparr>"

lemma sc_backfill:
  "assignMissingUnits sc_db_orphan 11 sc_now =
     Inr (\<lparr>ar_skipped = False, ar_assigned = 1, ar_unassignable = []\<rparr>,
          sc_db_orphan\<lparr>bookings := [stay_booking\<lparr>b_unit := Some 2, b_status := CONFIRMED\<rparr>,
            stay_booking\<lparr>b_id := 200, b_status := CONFIRMED\<rparr>]\<rparr>)"
  by code_simp

theorem backfill_places_everyone_witness:
  "list_all (\<lambda>b. \<exists>u. b_unit b = Some u \<and> 1 \<le> u \<and> u \<le> a_unitCount sc_daily)
     (live_rows (sc_db_orphan\<lparr>bookings := [stay_booking\<lparr>b_unit := Some 2, b_status := CONFIRMED\<rparr>,
        stay_booking\<lparr>b_id := 200, b_status := CONFIRMED\<rparr>]\<rparr>) 11 sc_now)"
proof -
  have "find_first (\<lambda>a. a_id a = 11) (activities sc_db_orphan) = Some sc_daily" by code_simp
  from backfill_places_everyone [OF sc_backfill this] show ?thesis unfolding list_all_iff
    by (simp add: sc_daily_def sc_hourly_def unique_on_def sc_db_orphan_def)
qed

section \<open>The calendar\<close>

text \<open>Adding months keeps the day of the month, clamped to the length of the target month, and never
  rolls over into the month after.\<close>

theorem addMonthsClamped_clamps:
  fixes date :: ms and months :: int
  defines "c \<equiv> utc_date date"
  defines "y \<equiv> cy c + (cm c - 1 + months) div 12" and "m \<equiv> (cm c - 1 + months) mod 12 + 1"
  assumes "\<not> (0 \<le> y \<and> y \<le> 99)"
  shows "utc_date (addMonthsClamped date months) = Civil y m (min (cd c) (days_in_month y m))"
  using assms(4) unfolding c_def y_def m_def by (rule addMonthsClamped_date)

theorem addMonthsClamped_clamps_witness:
  "utc_date (addMonthsClamped (midnight (Civil 2026 8 31)) 6) = Civil 2027 2 28"
proof -
  have "utc_date (midnight (Civil 2026 8 31)) = Civil 2026 8 31" by code_simp
  then show ?thesis
    using addMonthsClamped_clamps [of "midnight (Civil 2026 8 31)" 6] by (simp add: days_in_month_def leap_def)
qed

text \<open>The date check accepts an ISO string exactly when it names a day of the calendar, and ISO strings
  compare as the dates do, which the code relies on.\<close>

theorem iso_dates_checked_and_ordered:
  assumes "iso_range a" "iso_range b" "99 < cy a"
  shows "(isValidDate (iso_string a) \<longleftrightarrow> valid_civil a) \<and> (iso_string a < iso_string b \<longleftrightarrow> a < b)"
  using assms by (cases a) (simp add: isValidDate_iso_string isValidCivil_def isValidYMD_iff iso_string_less_iff)

theorem iso_dates_checked_and_ordered_witness:
  "\<not> isValidDate (iso_string (Civil 2026 2 30)) \<and> iso_string (Civil 2026 2 30) < iso_string (Civil 2026 10 1)"
  using iso_dates_checked_and_ordered [of "Civil 2026 2 30" "Civil 2026 10 1"]
  by (simp add: iso_range_def valid_civil_def days_in_month_def leap_def)

end
