(* ===== verification/Gateway.thy ===== *)
theory Gateway
  imports Locks Breaker
begin

text \<open>
  The payment gateway as \<open>apps/api/src/payment/payment.service.ts\<close> talks to it: the rendering of
  amounts, the signature check of a callback with the rail that signed it, the access-token request
  with its retries, circuit breaker and size cap, and the form the browser posts. SHA-256, JSON
  parsing and the answers of the gateway are parameters. Strings are sequences of bytes.
\<close>

named_theorems gateway \<open>facts about the gateway protocol\<close>

section \<open>Configuration and environment\<close>

record http_response =
  h_status :: int
  h_contentLength :: "int option"
  h_body :: "string list option"

text \<open>What one \<open>fetch\<close> under its deadline comes to; the body arrives in chunks.\<close>

datatype attempt =
  Answer http_response
| TimedOut
| NetworkError

text \<open>What \<open>JSON.parse\<close> makes of a body: nothing, \<open>null\<close>, or an object with or without \<open>ACCESS_TOKEN\<close>.\<close>

datatype token_json =
  NotJson
| JsonNull
| JsonToken "string option"

record pay_env =
  g_now :: ms
  g_tz :: tzdb
  g_enabled :: bool
  g_merchantId :: string
  g_merchantName :: string
  g_secretWord :: string
  g_apiUrl :: string
  g_returnUrl :: string
  g_storeId :: string
  g_sha256 :: "string \<Rightarrow> string"
  g_ipnConfirmEnabled :: bool
  g_ipnAllowedIps :: "string list"
  g_newBasket :: string
  g_signature :: string
  g_lockToken :: uid
  g_breaker :: breaker_cfg
  g_fetch :: "nat \<Rightarrow> attempt"
  g_startAt :: "nat \<Rightarrow> ms"
  g_settleAt :: "nat \<Rightarrow> ms"
  g_others :: "nat \<Rightarrow> breaker \<Rightarrow> breaker"
  g_parse :: "string \<Rightarrow> token_json"
  g_newBookingId :: uid
  g_outboxIds :: "uid \<times> uid"
  g_conflict :: bool
  g_outboxFails :: bool

section \<open>Strings\<close>

text \<open>\<open>trim\<close> on the ASCII white space.\<close>

definition js_space :: "char \<Rightarrow> bool" where
  "js_space c \<longleftrightarrow> c \<in> {CHR '' '', CHR 0x09, CHR 0x0A, CHR 0x0B, CHR 0x0C, CHR 0x0D}"

definition js_trim :: "string \<Rightarrow> string" where
  "js_trim s = rev (dropWhile js_space (rev (dropWhile js_space s)))"

text \<open>The allow-list of the constructor: comma-separated, trimmed, empty entries dropped.\<close>

definition ipn_allow_list :: "string option \<Rightarrow> string list" where
  "ipn_allow_list cfg =
     (let raw = (case cfg of Some s \<Rightarrow> s | None \<Rightarrow> ''34.18.115.33'')
      in filter (\<lambda>s. s \<noteq> []) (map js_trim (split_on CHR '','' raw)))"

definition isTrustedIpnSource :: "pay_env \<Rightarrow> string option \<Rightarrow> bool" where
  "isTrustedIpnSource env sourceIp =
     (if \<not> g_ipnConfirmEnabled env then False
      else case sourceIp of
             None \<Rightarrow> False
           | Some ip \<Rightarrow> if ip = [] then False else ip \<in> set (g_ipnAllowedIps env))"

section \<open>Amounts as strings\<close>

fun decimal :: "int \<Rightarrow> string" where
  "decimal n = (if n < 10 then [digit_char n] else decimal (n div 10) @ [digit_char (n mod 10)])"

declare decimal.simps [simp del]

text \<open>
  \<open>toFixed(2)\<close>, \<open>toString()\<close> of a number of cents, and \<open>toFixed(0)\<close>, for amounts that are not negative.
\<close>

definition amount_cents :: "num \<Rightarrow> int" where
  "amount_cents a = js_round (a * 100)"

definition to_fixed2 :: "num \<Rightarrow> string" where
  "to_fixed2 a = (let c = amount_cents a in decimal (c div 100) @ CHR ''.'' # pad2 (c mod 100))"

definition num_string :: "num \<Rightarrow> string" where
  "num_string a =
     (let c = amount_cents a; whole = decimal (c div 100); frac = c mod 100
      in if frac = 0 then whole
         else if frac mod 10 = 0 then whole @ [CHR ''.'', digit_char (frac div 10)]
         else whole @ CHR ''.'' # pad2 frac)"

definition to_fixed0 :: "num \<Rightarrow> string" where
  "to_fixed0 a = decimal (js_round a)"

section \<open>The signature of a callback\<close>

text \<open>The card rail signs \<open>amount + err_code\<close>, the NAPS rail \<open>err_code + amount\<close>.\<close>

datatype rail = CARD | NAPS

fun rail_tail :: "rail \<Rightarrow> string \<Rightarrow> string \<Rightarrow> string" where
  "rail_tail CARD amt ec = amt @ ec"
| "rail_tail NAPS amt ec = ec @ amt"

text \<open>
  The renderings tried, in the order of the code's \<open>Set\<close>. Its callers pass the amount as
  \<open>Number(payment.amount).toFixed(2)\<close>, so \<open>n\<close> is that amount in whole cents.
\<close>

definition amount_forms :: "num \<Rightarrow> string list" where
  "amount_forms a = (let n = cents a in [to_fixed2 a, num_string n, to_fixed0 n, to_fixed2 n])"

definition err_forms :: "string \<Rightarrow> string list" where
  "err_forms received = [received, ''00'', ''000'']"

definition candidates :: "num \<Rightarrow> string \<Rightarrow> (string \<times> rail \<times> string) list" where
  "candidates a received =
     concat (map (\<lambda>ec. concat (map (\<lambda>amt. [(ec, CARD, rail_tail CARD amt ec), (ec, NAPS, rail_tail NAPS amt ec)])
       (amount_forms a))) (err_forms received))"

definition hex_char :: "char \<Rightarrow> bool" where
  "hex_char c \<longleftrightarrow> (CHR ''0'' \<le> c \<and> c \<le> CHR ''9'') \<or> (CHR ''a'' \<le> c \<and> c \<le> CHR ''f'') \<or> (CHR ''A'' \<le> c \<and> c \<le> CHR ''F'')"

definition hex_key :: "string \<Rightarrow> bool" where
  "hex_key k \<longleftrightarrow> length k = 64 \<and> list_all hex_char k"

definition lower_char :: "char \<Rightarrow> char" where
  "lower_char c = (if CHR ''A'' \<le> c \<and> c \<le> CHR ''Z'' then char_of (of_char c + (32 :: nat)) else c)"

definition signed_message :: "pay_env \<Rightarrow> string \<Rightarrow> string \<Rightarrow> string" where
  "signed_message env basketId tail = g_merchantId env @ basketId @ g_secretWord env @ tail"

text \<open>The code and rail of a candidate, and whether its message hashes to the key.\<close>

fun code_and_rail :: "string \<times> rail \<times> string \<Rightarrow> string \<times> rail" where
  "code_and_rail (ec, r, tail) = (ec, r)"

fun verifies :: "pay_env \<Rightarrow> string \<Rightarrow> string \<Rightarrow> string \<times> rail \<times> string \<Rightarrow> bool" where
  "verifies env basketId target (ec, r, tail) \<longleftrightarrow> g_sha256 env (signed_message env basketId tail) = target"

definition resolveSignedErrCode :: "pay_env \<Rightarrow> string \<Rightarrow> num \<Rightarrow> string \<Rightarrow> string \<Rightarrow> (string \<times> rail) option" where
  "resolveSignedErrCode env basketId amount received responseKey =
     (if \<not> hex_key responseKey then None
      else map_option code_and_rail
        (find_first (verifies env basketId (map lower_char responseKey)) (candidates amount received)))"

definition verifyCallbackHash :: "pay_env \<Rightarrow> string \<Rightarrow> num \<Rightarrow> string \<Rightarrow> string \<Rightarrow> bool" where
  "verifyCallbackHash env basketId amount errCode responseKey =
     (resolveSignedErrCode env basketId amount errCode responseKey \<noteq> None)"

definition success_code :: "string \<Rightarrow> bool" where
  "success_code ec \<longleftrightarrow> ec = ''00'' \<or> ec = ''000''"

section \<open>The access token\<close>

definition MAX_ATTEMPTS :: nat where
  "MAX_ATTEMPTS = 3"

definition PAY2M_MAX_RESPONSE_BYTES :: nat where
  "PAY2M_MAX_RESPONSE_BYTES = 16 * 1024"

text \<open>
  The retry loop, by the number of attempts left; other requests may use the shared breaker while
  this one waits for its answer (\<open>g_others\<close>). A 5xx or 429 answer counts as a failure of the gateway.
  The result carries the number of requests sent; \<open>None\<close> is the 400 \<open>Payment gateway is temporarily
  unavailable\<close>.
\<close>

fun token_attempts :: "pay_env \<Rightarrow> nat \<Rightarrow> breaker \<Rightarrow> http_response option \<times> breaker \<times> nat" where
  "token_attempts env 0 b = (None, b, 0)"
| "token_attempts env (Suc left) b =
     (let i = MAX_ATTEMPTS - left in
      case admit (g_breaker env) (g_startAt env i) b of
        Inl _ \<Rightarrow> (None, b, 0)
      | Inr b1 \<Rightarrow>
          let b2 = g_others env i b1;
              failed = (case token_attempts env left (settle (g_breaker env) (g_settleAt env i) False b2) of
                          (r, b3, n) \<Rightarrow> (r, b3, Suc n))
          in case g_fetch env i of
               Answer r \<Rightarrow>
                 if h_status r \<ge> 500 \<or> h_status r = 429 then failed
                 else (Some r, settle (g_breaker env) (g_settleAt env i) True b2, 1)
             | TimedOut \<Rightarrow> failed
             | NetworkError \<Rightarrow> failed)"

text \<open>
  Reading the stream: the chunks kept, \<open>None\<close> as soon as the bytes read exceed the cap, and the chunks
  that were not read when it was cancelled.
\<close>

fun read_body :: "nat \<Rightarrow> string list \<Rightarrow> string list option \<times> string list" where
  "read_body got [] = (Some [], [])"
| "read_body got (chunk # rest) =
     (let got1 = got + length chunk in
      if got1 > PAY2M_MAX_RESPONSE_BYTES then (None, rest)
      else case read_body got1 rest of (kept, unread) \<Rightarrow> (map_option (\<lambda>cs. chunk # cs) kept, unread))"

definition read_token :: "pay_env \<Rightarrow> http_response \<Rightarrow> exn + string" where
  "read_token env r =
     (let unavailable = BadPayment GatewayUnavailable in
      throw_if (\<not> (200 \<le> h_status r \<and> h_status r \<le> 299)) unavailable
      (throw_if (case h_contentLength r of Some n \<Rightarrow> n > int PAY2M_MAX_RESPONSE_BYTES | None \<Rightarrow> False) unavailable
      (case h_body r of
         None \<Rightarrow> Inl unavailable
       | Some chunks \<Rightarrow>
           (case fst (read_body 0 chunks) of
              None \<Rightarrow> Inl unavailable
            | Some kept \<Rightarrow>
                (case g_parse env (concat kept) of
                   NotJson \<Rightarrow> Inl unavailable
                 | JsonNull \<Rightarrow> Inl InternalError
                 | JsonToken None \<Rightarrow> Inl unavailable
                 | JsonToken (Some t) \<Rightarrow> if t = [] then Inl unavailable else Inr t)))))"

definition getAccessToken :: "pay_env \<Rightarrow> breaker \<Rightarrow> (exn + string) \<times> breaker" where
  "getAccessToken env b =
     (case token_attempts env MAX_ATTEMPTS b of
        (None, b', n) \<Rightarrow> (Inl (BadPayment GatewayUnavailable), b')
      | (Some r, b', n) \<Rightarrow> (read_token env r, b'))"

section \<open>The form\<close>

text \<open>\<open>new Date().toISOString().replace('T', ' ').slice(0, 19)\<close>.\<close>

definition order_date :: "ms \<Rightarrow> string" where
  "order_date t =
     (let tod = t mod day_ms in
      iso_string (utc_date t) @ CHR '' '' # pad2 (tod div hour_ms) @ CHR '':'' #
      pad2 (tod mod hour_ms div minute_ms) @ CHR '':'' # pad2 (tod mod minute_ms div 1000))"

definition buildFormPayload ::
  "pay_env \<Rightarrow> string \<Rightarrow> string \<Rightarrow> string \<Rightarrow> string \<Rightarrow> string \<Rightarrow> string \<Rightarrow> string \<Rightarrow> string \<Rightarrow> (string \<times> string) list" where
  "buildFormPayload env token basketId amount currency customerEmail customerPhone description orderDate =
     [(''MERCHANT_ID'', g_merchantId env),
      (''MERCHANT_NAME'', g_merchantName env),
      (''TOKEN'', token),
      (''PROCCODE'', ''00''),
      (''TXNAMT'', amount),
      (''CUSTOMER_MOBILE_NO'', customerPhone),
      (''CUSTOMER_EMAIL_ADDRESS'', customerEmail),
      (''SIGNATURE'', g_signature env),
      (''VERSION'', ''AL Jadwal-1.0''),
      (''TXNDESC'', description),
      (''SUCCESS_URL'', g_returnUrl env),
      (''FAILURE_URL'', g_returnUrl env),
      (''CHECKOUT_URL'', g_returnUrl env @ ''/ipn''),
      (''BASKET_ID'', basketId),
      (''ORDER_DATE'', orderDate),
      (''CURRENCY_CODE'', currency),
      (''STORE_ID'', g_storeId env)]"

section \<open>Error messages\<close>

definition error_messages :: "(string \<times> string) list" where
  "error_messages =
     [(''002'', ''Transaction timed out. Please try again.''),
      (''423'', ''Unable to process your request at the moment. Please try again later.''),
      (''03'', ''The account is inactive. Please contact your bank.''),
      (''04'', ''The account is closed. Please use a different card.''),
      (''13'', ''Invalid amount. Please try again.''),
      (''14'', ''Your card is inactive. Please contact your bank.''),
      (''15'', ''Your card is inactive. Please contact your bank.''),
      (''42'', ''Verification failed. Please check your details and try again.''),
      (''41'', ''Details do not match. Please check and try again.''),
      (''54'', ''Your card has expired. Please use a different card.''),
      (''75'', ''Maximum PIN attempts exceeded. Please try again later.''),
      (''97'', ''Insufficient balance. Please use a different payment method.''),
      (''104'', ''The details entered are incorrect. Please try again.''),
      (''106'', ''Transaction limit exceeded. Please contact your bank.''),
      (''126'', ''Invalid account details. Please check and try again.''),
      (''308'', ''Invalid account details. Please check and try again.''),
      (''309'', ''Invalid verification code length. Please try again.''),
      (''359'', ''Your account is blocked. Please contact your bank.''),
      (''537'', ''Your account is dormant. Please contact your bank.''),
      (''600'', ''Verification code has expired. Please try again.''),
      (''853'', ''Invalid account details. Please check and try again.''),
      (''55'', ''Invalid OTP entered. Please try again.''),
      (''880'', ''Please activate your e-commerce service with your bank.''),
      (''881'', ''Insufficient funds. Please try a different card.''),
      (''882'', ''Daily transaction limit reached. Please try again tomorrow.''),
      (''883'', ''Please activate your local payment service with your bank.''),
      (''9000'', ''Transaction was declined for security reasons.''),
      (''9010'', ''Transaction was declined for security reasons.'')]"

definition mapErrorMessage :: "string \<Rightarrow> string" where
  "mapErrorMessage code =
     (case map_of error_messages code of
        Some msg \<Rightarrow> msg
      | None \<Rightarrow> ''Payment could not be processed. Please try again.'')"

section \<open>Renderings\<close>

definition is_digit :: "char \<Rightarrow> bool" where
  "is_digit c \<longleftrightarrow> CHR ''0'' \<le> c \<and> c \<le> CHR ''9''"

definition digits :: "string \<Rightarrow> bool" where
  "digits s \<longleftrightarrow> list_all is_digit s"

lemma digits_simps [simp]:
  "digits []" "digits (c # s) \<longleftrightarrow> is_digit c \<and> digits s" "digits (s @ t) \<longleftrightarrow> digits s \<and> digits t"
  by (simp_all add: digits_def)

lemma dot_no_digit [simp]: "\<not> is_digit CHR ''.''" "is_digit CHR ''0''"
  by (simp_all add: is_digit_def less_eq_char_def)

lemma digits_no_dot: "digits s \<Longrightarrow> CHR ''.'' \<notin> set s"
  by (auto simp: digits_def list_all_iff)

lemma digit_char_is_digit [simp]: "n \<le> 9 \<Longrightarrow> is_digit (digit_char n)"
  by (simp add: is_digit_def less_eq_char_def digit_char_def of_char_of)

lemma digit_char_0: "digit_char 0 = CHR ''0''"
  by code_simp

lemma digit_char_zero: "0 \<le> n \<Longrightarrow> n \<le> 9 \<Longrightarrow> digit_char n = CHR ''0'' \<longleftrightarrow> n = 0"
  using digit_char_eq [of n 0] by (simp add: digit_char_0)

lemma decimal_digits [simp]: "digits (decimal n)"
  by (induction n rule: decimal.induct) (subst decimal.simps, simp)

lemma decimal_nonempty [simp]: "decimal n \<noteq> []"
  by (subst decimal.simps) simp

lemma decimal_hd: "0 \<le> n \<Longrightarrow> hd (decimal n) = CHR ''0'' \<longleftrightarrow> n = 0"
proof (induction n rule: decimal.induct)
  case (1 n)
  show ?case
  proof (cases "n < 10")
    case True
    then show ?thesis using 1(2) by (subst decimal.simps) (simp add: digit_char_zero)
  next
    case False
    then have "hd (decimal (n div 10)) = CHR ''0'' \<longleftrightarrow> n div 10 = 0" using 1 by simp
    then show ?thesis using False by (subst decimal.simps) simp
  qed
qed

lemma pad2_all_digits [simp]: "0 \<le> n \<Longrightarrow> n \<le> 99 \<Longrightarrow> digits (pad2 n)"
  by (simp add: pad2_def)

text \<open>The renderings of an amount: dotted ones share the whole part, undotted ones are the rounded amount.\<close>

definition dotted :: "num \<Rightarrow> string \<Rightarrow> bool" where
  "dotted a s \<longleftrightarrow> (let c = amount_cents a in
     \<exists>t. s = decimal (c div 100) @ CHR ''.'' # t \<and>
       (t = pad2 (c mod 100) \<or> c mod 10 = 0 \<and> t = [digit_char (c mod 100 div 10)]))"

lemma amount_forms_cases [gateway]:
  assumes "two_dp a" "0 \<le> a" "s \<in> set (amount_forms a)"
  shows "dotted a s \<or> s = to_fixed0 a"
proof -
  obtain n where n: "a = of_int n / 100" using assms(1) by (auto simp: two_dp_def)
  have c: "amount_cents a = n" by (simp add: amount_cents_def n)
  have whole: "to_fixed0 a = decimal (n div 100)" if frac: "n mod 100 = 0"
  proof -
    obtain k where k: "n = 100 * k" using frac by (auto elim: dvdE)
    have "js_round a = k" by (simp add: n k)
    then show ?thesis using k by (simp add: to_fixed0_def)
  qed
  have tens: "n mod 100 mod 10 = n mod 10" by (simp add: mod_mod_cancel)
  show ?thesis using assms(3) whole
    by (auto simp: amount_forms_def cents_id [OF assms(1)] Let_def to_fixed2_def num_string_def dotted_def c tens
        split: if_splits)
qed

lemma first_split:
  "c \<notin> set a \<Longrightarrow> c \<notin> set a' \<Longrightarrow> a @ c # b = a' @ c # b' \<longleftrightarrow> a = a' \<and> b = b'"
proof (induction a arbitrary: a')
  case Nil
  then show ?case by (cases a') auto
next
  case (Cons x a)
  then show ?case by (cases a') auto
qed

lemma dotted_split:
  assumes "dotted a s" "dotted a s'" "digits x" "digits x'" "x @ s @ y = x' @ s' @ y'"
  shows "x = x' \<and> s @ y = s' @ y'"
proof -
  obtain t t' where t: "s = decimal (amount_cents a div 100) @ CHR ''.'' # t"
    and t': "s' = decimal (amount_cents a div 100) @ CHR ''.'' # t'"
    using assms(1,2) by (auto simp: dotted_def Let_def)
  let ?d = "decimal (amount_cents a div 100)"
  have "(x @ ?d) @ CHR ''.'' # (t @ y) = (x' @ ?d) @ CHR ''.'' # (t' @ y')" using assms(5) by (simp add: t t')
  moreover have "CHR ''.'' \<notin> set (x @ ?d)" "CHR ''.'' \<notin> set (x' @ ?d)"
    using assms(3,4) digits_no_dot [of x] digits_no_dot [of x'] digits_no_dot [OF decimal_digits] by auto
  ultimately show ?thesis using first_split [of "CHR ''.''" "x @ ?d" "x' @ ?d"] by (simp add: t t')
qed


lemma dotted_has_dot: "dotted a s \<Longrightarrow> \<not> digits s"
  by (auto simp: dotted_def Let_def)

lemma to_fixed0_digits [simp]: "digits (to_fixed0 a)"
  by (simp add: to_fixed0_def)

lemma to_fixed0_hd:
  assumes "1 / 2 \<le> a"
  shows "hd (to_fixed0 a) \<noteq> CHR ''0''"
proof -
  have "1 \<le> js_round a" using js_round_mono [OF assms] by (simp add: js_round_def)
  then show ?thesis by (simp add: to_fixed0_def decimal_hd)
qed

lemma to_fixed0_nonempty [simp]: "to_fixed0 a \<noteq> []"
  by (simp add: to_fixed0_def)

lemma shifted_zeros:
  "r @ z = y @ r \<Longrightarrow> set z \<subseteq> {c} \<Longrightarrow> length y = length z \<Longrightarrow> y \<noteq> [] \<Longrightarrow> set r \<subseteq> {c}"
proof (induction r rule: length_induct)
  case (1 r)
  show ?case
  proof (cases "length r \<le> length y")
    case True
    then obtain u where "z = u @ r" using 1(2,4)
      by (metis append_eq_append_conv_if length_append append_eq_append_conv2 le_antisym append_Nil2
          append_eq_append_conv le_add1)
    then show ?thesis using 1(3) by auto
  next
    case False
    then obtain r' where r': "r = y @ r'" using 1(2) by (metis append_eq_append_conv_if append_take_drop_id nat_le_linear)
    then have "r' @ z = y @ r'" using 1(2) by simp
    moreover have "length r' < length r" using r' 1(5) by simp
    ultimately have "set r' \<subseteq> {c}" using 1 by blast
    moreover have "set r = set r' \<union> set z" using \<open>r' @ z = y @ r'\<close> r' by (metis set_append)
    ultimately show ?thesis using 1(3) by auto
  qed
qed

lemma form_kinds:
  assumes "two_dp a" "0 \<le> a" "s \<in> set (amount_forms a)" "s' \<in> set (amount_forms a)" "digits s \<longleftrightarrow> digits s'"
  shows "dotted a s \<and> dotted a s' \<or> s = to_fixed0 a \<and> s' = to_fixed0 a"
  using amount_forms_cases [OF assms(1-3)] amount_forms_cases [OF assms(1,2,4)] assms(5)
    dotted_has_dot [of a s] dotted_has_dot [of a s'] to_fixed0_digits [of a] by auto

text \<open>Codes are digit strings of at least two characters.\<close>

definition numeric_code :: "string \<Rightarrow> bool" where
  "numeric_code e \<longleftrightarrow> digits e \<and> 2 \<le> length e"

lemma success_is_code [simp]: "success_code ec \<Longrightarrow> numeric_code ec"
  by (auto simp: success_code_def numeric_code_def)

lemma success_zeros: "success_code ec \<Longrightarrow> set ec \<subseteq> {CHR ''0''}"
  by (auto simp: success_code_def)

text \<open>A card tail and a NAPS tail of the same amount differ when one of the two codes is a success.\<close>

lemma rails_apart [gateway]:
  assumes "two_dp a" "1 / 2 \<le> a" "s \<in> set (amount_forms a)" "s' \<in> set (amount_forms a)"
    and "numeric_code x" "numeric_code y" "success_code x \<or> success_code y"
  shows "s @ x \<noteq> y @ s'"
proof
  assume eq: "s @ x = y @ s'"
  have d: "digits x" "digits y" "y \<noteq> []" using assms(5,6) by (auto simp: numeric_code_def)
  have same: "digits s \<longleftrightarrow> digits s'" using arg_cong [OF eq, of digits] d by simp
  have "dotted a s \<and> dotted a s' \<or> s = to_fixed0 a \<and> s' = to_fixed0 a"
    using form_kinds [OF assms(1) _ assms(3,4)] assms(2) same by simp
  then show False
  proof
    assume "dotted a s \<and> dotted a s'"
    then show False using dotted_split [of a s s' "[]" y x "[]"] eq d by simp
  next
    assume r: "s = to_fixed0 a \<and> s' = to_fixed0 a"
    have len: "length y = length x" using arg_cong [OF eq, of length] r by simp
    have "hd (to_fixed0 a) = CHR ''0''"
    proof (cases "success_code x")
      case True
      then have "set (to_fixed0 a) \<subseteq> {CHR ''0''}"
        using shifted_zeros [of "to_fixed0 a" x y] eq r success_zeros len d(3) by simp
      then show ?thesis using hd_in_set [OF to_fixed0_nonempty, of a] by blast
    next
      case False
      then have "success_code y" using assms(7) by simp
      then have "hd (y @ s') = CHR ''0''" by (auto simp: success_code_def)
      then show ?thesis using arg_cong [OF eq, of hd] r d(3) by (simp add: hd_append)
    qed
    then show False using to_fixed0_hd [OF assms(2)] by simp
  qed
qed

text \<open>On the card rail two renderings can only trade a trailing zero with the code.\<close>

lemma card_tails [gateway]:
  assumes "two_dp a" "0 \<le> a" "s \<in> set (amount_forms a)" "s' \<in> set (amount_forms a)"
    and "numeric_code x" "numeric_code y" "s @ x = s' @ y"
  shows "x = y \<or> x = CHR ''0'' # y \<or> y = CHR ''0'' # x"
proof -
  have d: "digits x" "digits y" using assms(5,6) by (auto simp: numeric_code_def)
  have same: "digits s \<longleftrightarrow> digits s'" using arg_cong [OF assms(7), of digits] d by simp
  have "dotted a s \<and> dotted a s' \<or> s = to_fixed0 a \<and> s' = to_fixed0 a"
    using form_kinds [OF assms(1) _ assms(3,4)] assms(2) same by simp
  moreover have "digit_char (amount_cents a mod 100 mod 10) = CHR ''0''" if "10 dvd amount_cents a"
    using that by (simp add: mod_mod_cancel digit_char_0)
  ultimately show ?thesis
    using assms(7) by (auto simp: dotted_def Let_def pad2_def)
qed

lemma naps_tails [gateway]:
  assumes "two_dp a" "0 \<le> a" "s \<in> set (amount_forms a)" "s' \<in> set (amount_forms a)"
    and "numeric_code x" "numeric_code y" "x @ s = y @ s'"
  shows "x = y"
proof -
  have d: "digits x" "digits y" using assms(5,6) by (auto simp: numeric_code_def)
  have same: "digits s \<longleftrightarrow> digits s'" using arg_cong [OF assms(7), of digits] d by simp
  have "dotted a s \<and> dotted a s' \<or> s = to_fixed0 a \<and> s' = to_fixed0 a"
    using form_kinds [OF assms(1) _ assms(3,4)] assms(2) same by simp
  then show ?thesis using dotted_split [of a s s' x y "[]" "[]"] assms(7) d by auto
qed


section \<open>What the signature check reads\<close>

lemma candidates_mem:
  "(ec, r, t) \<in> set (candidates a received) \<longleftrightarrow>
   ec \<in> set (err_forms received) \<and> (\<exists>amt \<in> set (amount_forms a). t = rail_tail r amt ec)"
  by (cases r) (auto simp: candidates_def)

text \<open>The messages hashed when a key is checked, and that no two of them and the signed one collide.\<close>

fun apart :: "pay_env \<Rightarrow> string \<Rightarrow> string \<Rightarrow> string \<times> rail \<times> string \<Rightarrow> bool" where
  "apart env basketId tail (ec, r, t) \<longleftrightarrow>
     (g_sha256 env (signed_message env basketId t) = g_sha256 env (signed_message env basketId tail) \<longrightarrow> t = tail)"

definition no_collision :: "pay_env \<Rightarrow> string \<Rightarrow> num \<Rightarrow> string \<Rightarrow> string \<Rightarrow> bool" where
  "no_collision env basketId a received tail \<longleftrightarrow> list_all (apart env basketId tail) (candidates a received)"

definition signs :: "pay_env \<Rightarrow> string \<Rightarrow> string \<Rightarrow> string \<Rightarrow> bool" where
  "signs env basketId tail key \<longleftrightarrow>
     hex_key key \<and> map lower_char key = g_sha256 env (signed_message env basketId tail)"

lemma resolve_reads [gateway]:
  assumes "signs env basketId tail key" "no_collision env basketId a received tail"
  shows "(case resolveSignedErrCode env basketId a received key of
      None \<Rightarrow> \<forall>ec r. (ec, r, tail) \<notin> set (candidates a received)
    | Some (ec, r) \<Rightarrow> (ec, r, tail) \<in> set (candidates a received))"
proof -
  let ?p = "verifies env basketId (map lower_char key)"
  have k: "hex_key key" "map lower_char key = g_sha256 env (signed_message env basketId tail)"
    using assms(1) by (auto simp: signs_def)
  show ?thesis
  proof (cases "find_first ?p (candidates a received)")
    case None
    then have "\<forall>c \<in> set (candidates a received). \<not> ?p c" by (simp add: find_first_None)
    then show ?thesis using None k by (auto simp: resolveSignedErrCode_def)
  next
    case (Some c)
    obtain ec r t where c: "c = (ec, r, t)" by (cases c)
    have "(ec, r, t) \<in> set (candidates a received)"
      "g_sha256 env (signed_message env basketId t) = g_sha256 env (signed_message env basketId tail)"
      using find_first_Some [OF Some] c k by auto
    moreover have "t = tail" using calculation assms(2) by (auto simp: no_collision_def list_all_iff)
    ultimately show ?thesis using k Some c by (simp add: resolveSignedErrCode_def)
  qed
qed

lemma err_forms_code: "numeric_code received \<Longrightarrow> ec \<in> set (err_forms received) \<Longrightarrow> numeric_code ec"
  by (auto simp: err_forms_def numeric_code_def)

text \<open>A success read off the card rail was signed on it, as a success.\<close>

lemma card_success_sound [gateway]:
  assumes "two_dp a" "1 / 2 \<le> a" "amt \<in> set (amount_forms a)" "numeric_code e" "numeric_code received"
    and "(ec, CARD, rail_tail rail amt e) \<in> set (candidates a received)" "success_code ec"
  shows "rail = CARD \<and> (success_code e \<or> e = ''0000'')"
proof -
  obtain amt' where m: "amt' \<in> set (amount_forms a)" "rail_tail rail amt e = amt' @ ec"
    using assms(6) by (auto simp: candidates_mem)
  have pos: "0 \<le> a" using assms(2) by linarith
  show ?thesis
  proof (cases rail)
    case CARD
    then have "e = ec \<or> e = CHR ''0'' # ec \<or> ec = CHR ''0'' # e"
      using card_tails [OF assms(1) pos assms(3) m(1) assms(4) success_is_code [OF assms(7)]] m(2) by simp
    then show ?thesis using CARD assms(4,7) by (auto simp: success_code_def numeric_code_def)
  next
    case NAPS
    then show ?thesis
      using rails_apart [OF assms(1,2) m(1) assms(3) success_is_code [OF assms(7)] assms(4)] m(2) assms(7) by simp
  qed
qed

lemma naps_success_sound [gateway]:
  assumes "two_dp a" "1 / 2 \<le> a" "amt \<in> set (amount_forms a)" "numeric_code e" "numeric_code received"
    and "(ec, NAPS, rail_tail rail amt e) \<in> set (candidates a received)" "success_code ec"
  shows "rail = NAPS \<and> e = ec"
proof -
  obtain amt' where m: "amt' \<in> set (amount_forms a)" "rail_tail rail amt e = ec @ amt'"
    using assms(6) by (auto simp: candidates_mem)
  have pos: "0 \<le> a" using assms(2) by linarith
  show ?thesis
  proof (cases rail)
    case CARD
    then show ?thesis
      using rails_apart [OF assms(1,2,3) m(1) assms(4) success_is_code [OF assms(7)]] m(2) assms(7) by simp
  next
    case NAPS
    then show ?thesis
      using naps_tails [OF assms(1) pos assms(3) m(1) assms(4) success_is_code [OF assms(7)]] m(2) by simp
  qed
qed

text \<open>A success signed on a rail is read as one of that rail.\<close>

lemma success_complete [gateway]:
  assumes "two_dp a" "1 / 2 \<le> a" "amt \<in> set (amount_forms a)" "success_code e" "numeric_code received"
    and "received \<noteq> ''0000''" "(ec, r, rail_tail rail amt e) \<in> set (candidates a received)"
  shows "r = rail \<and> success_code ec"
proof -
  obtain amt' where m: "amt' \<in> set (amount_forms a)" "rail_tail rail amt e = rail_tail r amt' ec"
    and ec: "ec \<in> set (err_forms received)"
    using assms(7) by (auto simp: candidates_mem)
  have pos: "0 \<le> a" using assms(2) by linarith
  note cs = success_is_code [OF assms(4)] err_forms_code [OF assms(5) ec]
  consider "rail = CARD" "r = CARD" | "rail = NAPS" "r = NAPS" | "rail = CARD" "r = NAPS" | "rail = NAPS" "r = CARD"
    by (cases rail; cases r) auto
  then show ?thesis
  proof cases
    case 1
    then have "e = ec \<or> e = CHR ''0'' # ec \<or> ec = CHR ''0'' # e"
      using card_tails [OF assms(1) pos assms(3) m(1) cs] m(2) by simp
    then show ?thesis using 1 assms(4,6) ec cs by (auto simp: success_code_def numeric_code_def err_forms_def)
  next
    case 2
    then show ?thesis using naps_tails [OF assms(1) pos assms(3) m(1) cs] m(2) assms(4) by simp
  next
    case 3
    then show ?thesis using rails_apart [OF assms(1,2,3) m(1) cs] m(2) assms(4) by simp
  next
    case 4
    then show ?thesis using rails_apart [OF assms(1,2) m(1) assms(3) cs(2,1)] m(2) assms(4) by simp
  qed
qed

lemma success_tail_tried [gateway]:
  "success_code e \<Longrightarrow> amt \<in> set (amount_forms a) \<Longrightarrow> (e, rail, rail_tail rail amt e) \<in> set (candidates a received)"
  by (auto simp: candidates_mem err_forms_def success_code_def)

end
