(* ===== verification/Initiate.thy ===== *)
theory Initiate
  imports Gateway CancelBooking
begin

text \<open>
  \<open>initiatePayment\<close> and \<open>getPaymentStatus\<close> of \<open>apps/api/src/payment/payment.service.ts\<close>: the hand-off
  of an unpaid booking to the gateway. The handler reads the payment before it takes the lock and
  writes outside a transaction, so the row keeps its basket also when the token request fails.
\<close>

named_theorems initiate \<open>facts about starting a payment\<close>

section \<open>Rows\<close>

definition set_payment :: "uid \<Rightarrow> (payment \<Rightarrow> payment) \<Rightarrow> db \<Rightarrow> db" where
  "set_payment pid f d = d\<lparr>payments := update_many (\<lambda>p. p_id p = pid) f (payments d)\<rparr>"

definition payment_row :: "uid \<Rightarrow> db \<Rightarrow> payment option" where
  "payment_row pid d = find_first (\<lambda>p. p_id p = pid) (payments d)"

text \<open>\<open>payment.booking\<close> is the booking whose \<open>paymentId\<close> points here.\<close>

definition booking_of_payment :: "db \<Rightarrow> uid \<Rightarrow> booking option" where
  "booking_of_payment d pid = find_first (\<lambda>b. b_paymentId b = Some pid) (bookings d)"

text \<open>\<open>s || ''\<close> of a nullable column, and a JavaScript truthiness test of an optional string.\<close>

fun truthy :: "string option \<Rightarrow> bool" where
  "truthy None = False"
| "truthy (Some s) = (s \<noteq> [])"

fun or_empty :: "string option \<Rightarrow> string" where
  "or_empty None = []"
| "or_empty (Some s) = s"

section \<open>Stages\<close>

definition RESERVATION_BUFFER :: ms where
  "RESERVATION_BUFFER = 60 * 1000"

text \<open>The booking and payment that may be paid, or why not.\<close>

definition payable :: "pay_env \<Rightarrow> db \<Rightarrow> uid \<Rightarrow> uid \<Rightarrow> exn + (booking \<times> payment)" where
  "payable env d bookingId userId =
     (case find_first (\<lambda>b. b_id b = bookingId \<and> b_customerId b = userId) (bookings d) of
        None \<Rightarrow> Inl (NotFound BookingNotFound)
      | Some b \<Rightarrow>
          throw_if (b_status b \<noteq> PENDING) (BadPayment NotPayable)
          (throw_if (case b_reservedUntil b of Some t \<Rightarrow> t < g_now env + RESERVATION_BUFFER | None \<Rightarrow> False)
             (BadPayment ReservationExpired)
          (throw_if (b_otpVerifiedAt b = None) (BadPayment EmailNotVerified)
          (case b_paymentId b of
             None \<Rightarrow> Inl (BadPayment NotPayable)
           | Some pid \<Rightarrow>
               (case payment_row pid d of
                  None \<Rightarrow> Inl (BadPayment NotPayable)
                | Some p \<Rightarrow> throw_if (p_status p \<noteq> PAY_PENDING) (BadPayment NotPayable) (Inr (b, p)))))))"

text \<open>A key this customer used before: for this payment a retry, for another one an error.\<close>

definition idempotent_retry :: "db \<Rightarrow> uid \<Rightarrow> uid \<Rightarrow> string option \<Rightarrow> exn + bool" where
  "idempotent_retry d userId pid key =
     (case key of
        None \<Rightarrow> Inr False
      | Some k \<Rightarrow>
          if k = [] then Inr False
          else (case find_first (\<lambda>p. p_idempotencyKey p = Some k \<and>
                        (case booking_of_payment d (p_id p) of Some b \<Rightarrow> b_customerId b = userId | None \<Rightarrow> False))
                      (payments d) of
                  None \<Rightarrow> Inr False
                | Some prior \<Rightarrow> if p_id prior \<noteq> pid then Inl (Conflict IdempotencyKeyReused) else Inr True))"

text \<open>
  The row update: basket and first hand-off once, the key once, the last hand-off always. \<open>read\<close> is
  the row as it was read before the lock. The unique columns answer a collision with a conflict.
\<close>

definition stamp_payment :: "pay_env \<Rightarrow> payment \<Rightarrow> string option \<Rightarrow> payment \<Rightarrow> payment" where
  "stamp_payment env read key p =
     (let p1 = (if p_gatewayBasketId read \<noteq> None then p
                else p\<lparr>p_gatewayBasketId := Some (g_newBasket env), p_firstInitiatedAt := Some (g_now env)\<rparr>);
          p2 = (if truthy (p_idempotencyKey read) \<or> \<not> truthy key then p1 else p1\<lparr>p_idempotencyKey := key\<rparr>)
      in p2\<lparr>p_initiatedAt := Some (g_now env)\<rparr>)"

definition payment_key_taken :: "payment \<Rightarrow> db \<Rightarrow> bool" where
  "payment_key_taken p' d =
     list_ex (\<lambda>p. p_id p \<noteq> p_id p' \<and>
        (p_gatewayBasketId p' \<noteq> None \<and> p_gatewayBasketId p = p_gatewayBasketId p' \<or>
         p_idempotencyKey p' \<noteq> None \<and> p_idempotencyKey p = p_idempotencyKey p')) (payments d)"

definition stamp_row :: "pay_env \<Rightarrow> payment \<Rightarrow> string option \<Rightarrow> db \<Rightarrow> exn + db" where
  "stamp_row env read key d =
     (case payment_row (p_id read) d of
        None \<Rightarrow> Inl (NotFound PaymentNotFound)
      | Some p \<Rightarrow>
          throw_if (payment_key_taken (stamp_payment env read key p) d) (Conflict UniqueViolation)
            (Inr (set_payment (p_id read) (stamp_payment env read key) d)))"

definition title_of :: "db \<Rightarrow> booking \<Rightarrow> string" where
  "title_of d b =
     (case find_first (\<lambda>a. a_id a = b_activityId b) (activities d) of
        Some a \<Rightarrow> if a_titleEn a = [] then ''Activity'' else a_titleEn a
      | None \<Rightarrow> ''Activity'')"

record payment_form =
  pf_action :: string
  pf_fields :: "(string \<times> string) list"
  pf_idempotent :: bool

definition payment_form_of ::
  "pay_env \<Rightarrow> db \<Rightarrow> uid \<Rightarrow> booking \<Rightarrow> string \<Rightarrow> payment \<Rightarrow> string \<Rightarrow> string \<Rightarrow> bool \<Rightarrow> payment_form" where
  "payment_form_of env d userId b title p basketId token retry =
     (let customer = find_first (\<lambda>u. u_id u = userId) (users d);
          email = (case customer of Some u \<Rightarrow> u_email u | None \<Rightarrow> []);
          phone = (if b_phone b \<noteq> [] then b_phone b
                   else case customer of Some u \<Rightarrow> or_empty (u_phone u) | None \<Rightarrow> []);
          dash = [CHR '' '', CHR 0xE2, CHR 0x80, CHR 0x94, CHR '' '']
      in \<lparr>pf_action = g_apiUrl env @ ''/PostTransaction'',
          pf_fields = buildFormPayload env token basketId (to_fixed2 (p_amount p)) (p_currency p) email phone
            (''Booking '' @ b_ref b @ dash @ title) (order_date (g_now env)),
          pf_idempotent = retry\<rparr>)"

section \<open>initiatePayment\<close>

definition PAYMENT_LOCK_MS :: ms where
  "PAYMENT_LOCK_MS = 30000"

text \<open>The part under the lock.\<close>

definition initiate_locked ::
  "pay_env \<Rightarrow> uid \<Rightarrow> booking \<Rightarrow> string \<Rightarrow> payment \<Rightarrow> string option \<Rightarrow> bool \<Rightarrow> world \<Rightarrow> breaker \<Rightarrow>
   (exn + payment_form) \<times> world \<times> breaker" where
  "initiate_locked env userId b title p key retry w brk =
     (case stamp_row env p key (w_db w) of
        Inl ex \<Rightarrow> (Inl ex, w, brk)
      | Inr d \<Rightarrow>
          let w1 = w\<lparr>w_db := d\<rparr>;
              basketId = (case p_gatewayBasketId p of Some x \<Rightarrow> x | None \<Rightarrow> g_newBasket env);
              (token, brk1) = getAccessToken env brk
          in case token of
               Inl ex \<Rightarrow> (Inl ex, w1, brk1)
             | Inr tok \<Rightarrow>
                 (Inr (payment_form_of env d userId b title p basketId tok retry),
                  emit [Audit CUSTOMER userId PAYMENT_INITIATED (p_id p)] w1, brk1))"

definition initiatePayment ::
  "pay_env \<Rightarrow> interference \<Rightarrow> uid \<Rightarrow> uid \<Rightarrow> string option \<Rightarrow> world \<times> redis \<times> breaker \<Rightarrow>
   (exn + payment_form) \<times> world \<times> redis \<times> breaker" where
  "initiatePayment env interfere bookingId userId key s =
     (case s of (w, r, brk) \<Rightarrow>
      if \<not> g_enabled env then (Inl (BadPayment PaymentDisabled), s)
      else case and_then (payable env (w_db w) bookingId userId) (\<lambda>(b, p).
                  and_then (idempotent_retry (w_db w) userId (p_id p) key) (\<lambda>retry. Inr (b, p, retry))) of
             Inl ex \<Rightarrow> (Inl ex, s)
           | Inr (b, p, retry) \<Rightarrow>
               let title = title_of (w_db w) b;
                   w1 = w\<lparr>w_db := interfere (w_db w)\<rparr>
               in case acquire r (PaymentLock (p_id p)) PAYMENT_LOCK_MS (g_lockToken env) of
                    (None, r1) \<Rightarrow> (Inl (BadPayment NotPayable), w1, r1, brk)
                  | (Some tok, r1) \<Rightarrow>
                      (case initiate_locked env userId b title p key retry w1 brk of
                         (res, w2, brk2) \<Rightarrow> (res, w2, release r1 (PaymentLock (p_id p)) tok, brk2)))"

section \<open>getPaymentStatus\<close>

datatype status_answer =
  NoPayment
| UnknownPayment
| PaymentStatus payment_status pay_method "ms option" "string option"

definition getPaymentStatus :: "db \<Rightarrow> uid \<Rightarrow> uid \<Rightarrow> exn + status_answer" where
  "getPaymentStatus d bookingId userId =
     (case find_first (\<lambda>b. b_id b = bookingId \<and> b_customerId b = userId) (bookings d) of
        None \<Rightarrow> Inl (NotFound BookingNotFound)
      | Some b \<Rightarrow>
          (case b_paymentId b of
             None \<Rightarrow> Inr NoPayment
           | Some pid \<Rightarrow>
               (case payment_row pid d of
                  None \<Rightarrow> Inr UnknownPayment
                | Some p \<Rightarrow> Inr (PaymentStatus (p_status p) (p_method p) (p_paidAt p)
                    (if truthy (p_gatewayErrCode p) then Some (mapErrorMessage (or_empty (p_gatewayErrCode p)))
                     else None)))))"

end
