(* ===== verification/Callback.thy ===== *)
theory Callback
  imports Initiate
begin

text \<open>
  \<open>handleCallback\<close> of \<open>apps/api/src/payment/payment.service.ts\<close> with the recovery of bookings that
  were deleted or cancelled while the customer paid. Each transaction works on the database as other
  writers have left it by then (\<open>races\<close>); the writes outside transactions stay when a later step
  throws.
\<close>

named_theorems callback \<open>facts about payment callbacks\<close>

section \<open>What arrives\<close>

record callback =
  cb_errCode :: string
  cb_basketId :: string
  cb_txn :: "string option"
  cb_responseKey :: string

text \<open>The browser redirect, or the server-to-server notification with the verdict on its source.\<close>

datatype via =
  Browser
| Ipn bool

datatype pay_outcome = OUTCOME_SUCCESS | OUTCOME_FAILED | OUTCOME_PENDING

record callback_result =
  cr_bookingId :: "uid option"
  cr_status :: pay_outcome
  cr_error :: "string option"

definition answer :: "uid option \<Rightarrow> pay_outcome \<Rightarrow> callback_result" where
  "answer bid st = \<lparr>cr_bookingId = bid, cr_status = st, cr_error = None\<rparr>"

definition answer_failed :: "uid option \<Rightarrow> string \<Rightarrow> callback_result" where
  "answer_failed bid msg = \<lparr>cr_bookingId = bid, cr_status = OUTCOME_FAILED, cr_error = Some msg\<rparr>"

text \<open>What other writers commit before the payment transaction, before the recovery, and inside it.\<close>

record races =
  rc_tx :: interference
  rc_recovery :: interference
  rc_recovery_tx :: interference

definition calm :: races where
  "calm = \<lparr>rc_tx = id, rc_recovery = id, rc_recovery_tx = id\<rparr>"

definition interfered :: "interference \<Rightarrow> world \<Rightarrow> world" where
  "interfered i w = w\<lparr>w_db := i (w_db w)\<rparr>"

definition gateway_actor :: uid where
  "gateway_actor = 0"

section \<open>Authenticity\<close>

definition card_success :: "(string \<times> rail) option \<Rightarrow> bool" where
  "card_success r = (case r of Some (ec, rail) \<Rightarrow> rail = CARD \<and> success_code ec | None \<Rightarrow> False)"

definition naps_success :: "(string \<times> rail) option \<Rightarrow> bool" where
  "naps_success r = (case r of Some (ec, rail) \<Rightarrow> rail = NAPS \<and> success_code ec | None \<Rightarrow> False)"

definition ipn_success :: "string \<Rightarrow> bool" where
  "ipn_success code \<longleftrightarrow> js_trim code \<in> {''00'', ''000'', ''0000''}"

definition authentic_success :: "pay_env \<Rightarrow> via \<Rightarrow> callback \<Rightarrow> payment \<Rightarrow> bool" where
  "authentic_success env via cb p =
     (case via of
        Ipn trusted \<Rightarrow> trusted \<and> ipn_success (cb_errCode cb)
      | Browser \<Rightarrow> card_success (resolveSignedErrCode env (cb_basketId cb) (p_amount p) (cb_errCode cb) (cb_responseKey cb)))"

text \<open>
  The verdict on a payment that is not settled: an IPN that is untrusted or no success changes
  nothing; otherwise whether the key verified, is a success to confirm, or a NAPS success to hold.
\<close>

datatype verdict =
  Ignore
| Judged bool bool bool

definition judge :: "pay_env \<Rightarrow> via \<Rightarrow> callback \<Rightarrow> payment \<Rightarrow> verdict" where
  "judge env via cb p =
     (case via of
        Ipn trusted \<Rightarrow>
          if \<not> trusted then Ignore
          else if \<not> ipn_success (cb_errCode cb) then Ignore
          else Judged True True False
      | Browser \<Rightarrow>
          let resolved = resolveSignedErrCode env (cb_basketId cb) (p_amount p) (cb_errCode cb) (cb_responseKey cb)
          in Judged (resolved \<noteq> None) (card_success resolved) (naps_success resolved))"

section \<open>Duplicate captures\<close>

definition DUP_CAPTURE_DEDUP_TTL_MS :: ms where
  "DUP_CAPTURE_DEDUP_TTL_MS = 30 * 24 * 60 * 60 * 1000"

text \<open>The audit row is written first; only the page to the admins is limited to one per transaction.\<close>

definition flagDuplicateCaptureIfDifferentTxn ::
  "pay_env \<Rightarrow> uid \<Rightarrow> string option \<Rightarrow> world \<times> redis \<Rightarrow> world \<times> redis" where
  "flagDuplicateCaptureIfDifferentTxn env pid incomingTxnRaw s =
     (case s of (w, r) \<Rightarrow>
      let incoming = js_trim (or_empty incomingTxnRaw) in
      if incoming = [] then s
      else
        let recorded = (case payment_row pid (w_db w) of
                          Some p \<Rightarrow> js_trim (or_empty (p_gatewayTxnId p)) | None \<Rightarrow> [])
        in if recorded = [] then s
           else if recorded = incoming then s
           else
             let w1 = emit [Audit SYSTEM gateway_actor PAYMENT_DUPLICATE_CAPTURE pid] w in
             (case acquire r (DupCapture pid incoming) DUP_CAPTURE_DEDUP_TTL_MS (g_lockToken env) of
                (None, r1) \<Rightarrow> (w1, r1)
              | (Some tok, r1) \<Rightarrow> (emit [NotifyAdmins SYSTEM_NOTICE] w1, r1)))"

section \<open>Holding a NAPS success\<close>

definition NAPS_HOLD_EXTENSION_MS :: ms where
  "NAPS_HOLD_EXTENSION_MS = 30 * 60000"

text \<open>\<open>reservedUntil < extendTo\<close> is SQL: a NULL is not selected.\<close>

definition hold_rows :: "pay_env \<Rightarrow> uid \<Rightarrow> db \<Rightarrow> db" where
  "hold_rows env bid d =
     (let extendTo = g_now env + NAPS_HOLD_EXTENSION_MS
      in d\<lparr>bookings := update_many
          (\<lambda>b. b_id b = bid \<and> b_status b = PENDING \<and> (case b_reservedUntil b of Some t \<Rightarrow> t < extendTo | None \<Rightarrow> False))
          (\<lambda>b. b\<lparr>b_reservedUntil := Some extendTo\<rparr>) (bookings d)\<rparr>)"

definition holdNapsSuccess :: "pay_env \<Rightarrow> uid \<Rightarrow> uid option \<Rightarrow> world \<Rightarrow> world" where
  "holdNapsSuccess env pid bookingId w =
     emit [Audit SYSTEM gateway_actor PAYMENT_NAPS_AWAITING_CAPTURE pid]
       (case bookingId of None \<Rightarrow> w | Some bid \<Rightarrow> w\<lparr>w_db := hold_rows env bid (w_db w)\<rparr>)"

section \<open>Slots of recovered bookings\<close>

definition recovery_rows :: "pay_env \<Rightarrow> db \<Rightarrow> uid \<Rightarrow> nat option \<Rightarrow> ms \<Rightarrow> ms \<Rightarrow> uid option \<Rightarrow> booking list" where
  "recovery_rows env d aid unit s e exclude =
     find_many (\<lambda>b. b_activityId b = aid \<and>
       (unit = None \<or> b_unit b = unit \<or> b_unit b = None) \<and>
       activeBookingFilter (g_now env) b \<and> overlaps s e b \<and> exclude \<noteq> Some (b_id b)) (bookings d)"

definition recoverySlotAvailable ::
  "pay_env \<Rightarrow> db \<Rightarrow> uid \<Rightarrow> nat option \<Rightarrow> ms \<Rightarrow> ms \<Rightarrow> int \<Rightarrow> uid option \<Rightarrow> bool" where
  "recoverySlotAvailable env d aid unit s e guests exclude =
     (case find_first (\<lambda>a. a_id a = aid) (activities d) of
        None \<Rightarrow> False
      | Some a \<Rightarrow>
          let overlapping = recovery_rows env d aid unit s e exclude;
              isUnit = (a_hasUnits a \<and> unit \<noteq> None)
          in if isUnit \<and> rentsWholeUnit a then overlapping = []
             else
               let peak = maxConcurrentInWindow overlapping s e;
                   cap = (if isUnit then Some (a_unitCapacity a) else a_capacity a)
               in case cap of None \<Rightarrow> True | Some c \<Rightarrow> peak + guests \<le> c)"

section \<open>Refunding a capture that has no booking\<close>

definition queueB2Refund :: "uid \<Rightarrow> num \<Rightarrow> world \<Rightarrow> world" where
  "queueB2Refund pid amount w =
     emit [Audit SYSTEM gateway_actor PAYMENT_RECOVERY_REFUND_QUEUED pid, NotifyAdmins SYSTEM_NOTICE]
       (w\<lparr>w_db := (w_db w)\<lparr>payments := update_many (\<lambda>p. p_id p = pid \<and> p_status p = SUCCESS)
          (\<lambda>p. p\<lparr>p_status := REFUND_PENDING, p_refundAmount := Some amount\<rparr>) (payments (w_db w))\<rparr>\<rparr>)"

text \<open>\<open>if (fresh) await queueB2Refund(\<dots>)\<close>.\<close>

definition refund_fresh :: "uid \<Rightarrow> world \<Rightarrow> world" where
  "refund_fresh pid w =
     (case payment_row pid (w_db w) of None \<Rightarrow> w | Some p \<Rightarrow> queueB2Refund pid (p_amount p) w)"

section \<open>Re-creating a deleted booking\<close>

definition recreated_booking :: "pay_env \<Rightarrow> uid \<Rightarrow> uid \<Rightarrow> snapshot \<Rightarrow> booking" where
  "recreated_booking env bid pid sn =
     \<lparr>b_id = bid, b_ref = sn_ref sn, b_activityId = sn_activityId sn, b_vendorId = sn_vendorId sn,
      b_customerId = sn_customerId sn, b_unit = sn_unit sn, b_start = sn_start sn, b_end = sn_end sn,
      b_guests = sn_guests sn, b_phone = sn_phone sn, b_breakdown = sn_breakdown sn,
      b_extras = sn_extras sn, b_totalPrice = sn_totalPrice sn, b_serviceFee = sn_serviceFee sn,
      b_commissionPct = sn_commissionPct sn, b_commissionAmount = sn_commissionAmount sn,
      b_couponCode = sn_couponCode sn, b_couponDiscount = sn_couponDiscount sn,
      b_pointsRedeemed = sn_pointsRedeemed sn, b_pointsDiscount = sn_pointsDiscount sn,
      b_pointsAwarded = False, b_currency = sn_currency sn, b_idempotencyKey = sn_idempotencyKey sn,
      b_status = CONFIRMED, b_reservedUntil = None, b_paymentId = Some pid, b_otpHash = None,
      b_otpExpiry = None, b_otpAttempts = 0, b_otpVerifiedAt = None, b_cancelledAt = None,
      b_cancelledBy = None, b_decisionAt = None, b_decisionBy = None, b_decisionActor = None,
      b_decisionNote = None, b_createdAt = sn_originalCreatedAt sn\<rparr>"

text \<open>Coupon roll-forward: counted again up to the limit, the customer's claim marked used.\<close>

definition recount_coupon :: "snapshot \<Rightarrow> db \<Rightarrow> db" where
  "recount_coupon sn tx =
     (case sn_couponCode sn of
        None \<Rightarrow> tx
      | Some code \<Rightarrow>
        if code = [] then tx
        else case find_first (\<lambda>c. cp_code c = code) (coupons tx) of
          None \<Rightarrow> tx
        | Some c \<Rightarrow>
            let tx1 = (case truthy_limit (cp_usageLimit c) of
                   Some limit \<Rightarrow> update_coupons (\<lambda>r. cp_id r = cp_id c \<and> cp_usedCount r < limit) bump_used tx
                 | None \<Rightarrow> update_coupons (\<lambda>r. cp_id r = cp_id c) bump_used tx)
            in tx1\<lparr>claimed := update_many
                 (\<lambda>r. cl_userId r = sn_customerId sn \<and> cl_couponId r = cp_id c \<and> \<not> cl_used r)
                 (\<lambda>r. r\<lparr>cl_used := True\<rparr>) (claimed tx1)\<rparr>)"

datatype recovery =
  AlreadyRecovered
| SlotConflict
| Recovered uid

definition recreate_tx :: "pay_env \<Rightarrow> uid \<Rightarrow> uid option \<Rightarrow> snapshot \<Rightarrow> db \<Rightarrow> exn + (recovery \<times> db)" where
  "recreate_tx env pid bookingId sn tx =
     (if g_conflict env then Inl (Conflict SlotBusy) else
      let sel = (\<lambda>p. p_id p = pid \<and> p_recreatedAt p = None);
          tx1 = tx\<lparr>payments := update_many sel (\<lambda>p. p\<lparr>p_recreatedAt := Some (g_now env)\<rparr>) (payments tx)\<rparr>
      in if count_rows sel (payments tx) = 0 then Inr (AlreadyRecovered, tx)
         else if \<not> recoverySlotAvailable env tx1 (sn_activityId sn) (sn_unit sn) (sn_start sn) (sn_end sn) (sn_guests sn) None
         then Inr (SlotConflict, tx1)
         else
           let b = recreated_booking env (case bookingId of Some x \<Rightarrow> x | None \<Rightarrow> g_newBookingId env) pid sn
           in if key_taken tx1 b \<or> booking_of_payment tx1 pid \<noteq> None then Inl (Conflict UniqueViolation)
              else
                let tx2 = set_payment pid (\<lambda>p. p\<lparr>p_bookingId := Some (b_id b)\<rparr>)
                            (tx1\<lparr>bookings := bookings tx1 @ [b]\<rparr>);
                    tx3 = recount_coupon sn tx2
                in if sn_pointsRedeemed sn > 0
                   then and_then (redeem tx3 (sn_customerId sn) (sn_pointsRedeemed sn) (b_id b))
                          (\<lambda>(_, tx4). Inr (Recovered (b_activityId b), tx4))
                   else Inr (Recovered (b_activityId b), tx3))"

text \<open>May the booking be delivered at all? \<open>False\<close> is one of the refund reasons of the pre-flight.\<close>

definition recreatable :: "pay_env \<Rightarrow> db \<Rightarrow> snapshot \<Rightarrow> bool" where
  "recreatable env d sn =
     (sn_v sn = 2 \<and>
      (case find_first (\<lambda>u. u_id u = sn_customerId sn) (users d) of
         None \<Rightarrow> False
       | Some u \<Rightarrow>
           u_deletedAt u = None \<and>
           (case find_first (\<lambda>a. a_id a = sn_activityId sn) (activities d) of
              None \<Rightarrow> False
            | Some a \<Rightarrow>
                let tz = (case find_first (\<lambda>c. co_id c = a_countryId a) (countries d) of
                            Some co \<Rightarrow> co_timezone co | None \<Rightarrow> ''UTC'')
                in \<not> sn_end sn \<le> nowInTimezone (g_tz env) tz (g_now env) \<and> a_status a = ACT_ACTIVE)))"

definition attemptB2OrphanRecovery :: "pay_env \<Rightarrow> races \<Rightarrow> uid \<Rightarrow> world \<Rightarrow> world" where
  "attemptB2OrphanRecovery env rc pid w =
     (case payment_row pid (w_db w) of
        None \<Rightarrow> w
      | Some fresh \<Rightarrow>
          if p_recreatedAt fresh \<noteq> None then w
          else case p_snapshot fresh of
            None \<Rightarrow> queueB2Refund pid (p_amount fresh) w
          | Some sn \<Rightarrow>
              if \<not> recreatable env (w_db w) sn then queueB2Refund pid (p_amount fresh) w
              else
                case transaction (recreate_tx env pid (p_bookingId fresh) sn) (interfered (rc_recovery_tx rc) w) of
                  (Inl ex, w1) \<Rightarrow> queueB2Refund pid (p_amount fresh) w1
                | (Inr AlreadyRecovered, w1) \<Rightarrow> w1
                | (Inr SlotConflict, w1) \<Rightarrow> queueB2Refund pid (p_amount fresh) w1
                | (Inr (Recovered aid), w1) \<Rightarrow>
                    emit [InvalidateAvailability aid, Audit SYSTEM gateway_actor PAYMENT_RECOVERED_VIA_RECREATE pid] w1)"

section \<open>Un-cancelling\<close>

definition uncancel_tx :: "pay_env \<Rightarrow> booking \<Rightarrow> db \<Rightarrow> exn + (recovery \<times> db)" where
  "uncancel_tx env b tx =
     (if g_conflict env then Inl (Conflict SlotBusy) else
      let sel = (\<lambda>r. b_id r = b_id b \<and> b_status r = CANCELLED \<and> b_cancelledBy r = Some SYSTEM);
          tx1 = tx\<lparr>bookings := update_many sel
                 (\<lambda>r. r\<lparr>b_status := CONFIRMED, b_cancelledAt := None, b_cancelledBy := None\<rparr>) (bookings tx)\<rparr>
      in if count_rows sel (bookings tx) = 0 then Inr (AlreadyRecovered, tx)
         else if \<not> recoverySlotAvailable env tx1 (b_activityId b) (b_unit b) (b_start b) (b_end b) (b_guests b) (Some (b_id b))
           \<or> (case find_first (\<lambda>a. a_id a = b_activityId b) (activities tx1) of
                Some a \<Rightarrow> a_status a = ACT_INACTIVE | None \<Rightarrow> False)
         then Inl (Conflict SlotBusy)
         else Inr (Recovered (b_activityId b), tx1))"

definition attemptM6UnCancel :: "pay_env \<Rightarrow> races \<Rightarrow> uid \<Rightarrow> uid \<Rightarrow> world \<Rightarrow> world" where
  "attemptM6UnCancel env rc pid bookingId w =
     (case find_first (\<lambda>b. b_id b = bookingId) (bookings (w_db w)) of
        None \<Rightarrow> refund_fresh pid w
      | Some b \<Rightarrow>
          if b_status b \<noteq> CANCELLED \<or> b_cancelledBy b \<noteq> Some SYSTEM then w
          else
            let d = w_db w;
                tz = (case find_first (\<lambda>a. a_id a = b_activityId b) (activities d) of
                        None \<Rightarrow> ''UTC''
                      | Some a \<Rightarrow> (case find_first (\<lambda>c. co_id c = a_countryId a) (countries d) of
                                    Some co \<Rightarrow> co_timezone co | None \<Rightarrow> ''UTC''))
            in if b_end b \<le> nowInTimezone (g_tz env) tz (g_now env) then refund_fresh pid w
               else case transaction (uncancel_tx env b) (interfered (rc_recovery_tx rc) w) of
                      (Inl ex, w1) \<Rightarrow> refund_fresh pid w1
                    | (Inr (Recovered aid), w1) \<Rightarrow>
                        emit [InvalidateAvailability aid,
                              Audit SYSTEM gateway_actor PAYMENT_RECOVERED_VIA_UNCANCEL bookingId] w1
                    | (Inr _, w1) \<Rightarrow> w1)"

section \<open>The payment transaction\<close>

datatype recovery_mode = B2_ORPHAN | M6_SYSTEM_CANCELLED | CANCELLED_REFUND

text \<open>\<open>Lost\<close>: another callback settled the payment first.\<close>

datatype tx_outcome =
  Lost
| Settled "recovery_mode option" "uid option"

definition success_tx :: "pay_env \<Rightarrow> callback \<Rightarrow> payment \<Rightarrow> db \<Rightarrow> exn + (tx_outcome \<times> db)" where
  "success_tx env cb p tx =
     (let sel = (\<lambda>r. p_id r = p_id p \<and> p_status r \<in> {PAY_PENDING, FAILED});
          tx1 = tx\<lparr>payments := update_many sel
                 (\<lambda>r. r\<lparr>p_status := SUCCESS, p_gatewayTxnId := (if truthy (cb_txn cb) then cb_txn cb else None),
                       p_gatewayErrCode := Some (cb_errCode cb), p_gatewayResponseKey := Some (cb_responseKey cb),
                       p_paidAt := Some (g_now env), p_method := PAY2M\<rparr>) (payments tx)\<rparr>
      in if count_rows sel (payments tx) = 0 then Inr (Lost, tx)
         else case p_bookingId p of
           None \<Rightarrow> Inl InternalError
         | Some bid \<Rightarrow>
             (case find_first (\<lambda>b. b_id b = bid) (bookings tx1) of
                None \<Rightarrow> Inr (Settled (Some B2_ORPHAN) None, tx1)
              | Some b \<Rightarrow>
                  if b_status b = CANCELLED then
                    Inr (Settled (Some (if b_cancelledBy b = Some SYSTEM then M6_SYSTEM_CANCELLED else CANCELLED_REFUND)) None, tx1)
                  else Inr (Settled None None, update_booking bid (\<lambda>r. r\<lparr>b_status := CONFIRMED\<rparr>) tx1)))"

text \<open>A decline deletes the unpaid booking, gives coupon and points back, and keeps the payment.\<close>

definition release_doomed :: "pay_env \<Rightarrow> uid \<Rightarrow> db \<Rightarrow> exn + (uid option \<times> db)" where
  "release_doomed env bid tx =
     (case find_first (\<lambda>b. b_id b = bid) (bookings tx) of
        None \<Rightarrow> Inr (None, tx)
      | Some b \<Rightarrow>
          let tx1 = refundCouponUsage tx (b_couponCode b) (b_customerId b) (g_now env)
          in if b_pointsRedeemed b > 0
             then and_then (refund tx1 (b_customerId b) (b_pointsRedeemed b) bid CANCEL_REFUND_UNPAID SYSTEM (Some gateway_actor))
                    (\<lambda>(_, tx2). Inr (Some (b_activityId b), tx2))
             else Inr (Some (b_activityId b), tx1))"

definition failure_tx :: "pay_env \<Rightarrow> payment \<Rightarrow> db \<Rightarrow> exn + (tx_outcome \<times> db)" where
  "failure_tx env p tx =
     (let sel = (\<lambda>r. p_id r = p_id p \<and> p_status r = PAY_PENDING);
          tx1 = tx\<lparr>payments := update_many sel (\<lambda>r. r\<lparr>p_status := FAILED, p_idempotencyKey := None\<rparr>) (payments tx)\<rparr>
      in if count_rows sel (payments tx) = 0 then Inr (Lost, tx)
         else case p_bookingId p of
           None \<Rightarrow> Inr (Settled None None, tx1)
         | Some bid \<Rightarrow>
             and_then (release_doomed env bid tx1) (\<lambda>(aid, tx2).
             and_then (update_booking_or_throw bid (\<lambda>r. r\<lparr>b_paymentId := None\<rparr>) tx2) (\<lambda>tx3.
             and_then (delete_booking_or_throw bid tx3) (\<lambda>tx4. Inr (Settled None aid, tx4)))))"

section \<open>After the commit\<close>

definition audit_coupon :: "pay_env \<Rightarrow> payment \<Rightarrow> world \<Rightarrow> world" where
  "audit_coupon env p w =
     (case booking_of_payment (w_db w) (p_id p) of
        None \<Rightarrow> w
      | Some b \<Rightarrow>
        if \<not> truthy (b_couponCode b) then w
        else
          let invalid = (case find_first (\<lambda>c. Some (cp_code c) = b_couponCode b) (coupons (w_db w)) of
                 None \<Rightarrow> True
               | Some c \<Rightarrow> cp_status c \<noteq> APPROVED \<or> cp_validTo c < g_now env \<or>
                   (case cp_usageLimit c of Some n \<Rightarrow> cp_usedCount c \<ge> n | None \<Rightarrow> False))
          in if invalid then emit [Audit SYSTEM gateway_actor PAYMENT_COUPON_INVALID_AT_CONFIRMATION (p_id p)] w else w)"

definition outbox_mail :: "pay_env \<Rightarrow> uid \<Rightarrow> email_type \<Rightarrow> string \<Rightarrow> uid option \<Rightarrow> world \<Rightarrow> world" where
  "outbox_mail env oid ty recipient bid w =
     (if g_outboxFails env then w
      else w\<lparr>w_db := (w_db w)\<lparr>outbox := outbox (w_db w) @
        [\<lparr>o_id = oid, o_type = ty, o_recipient = recipient, o_bookingId = bid, o_status = OUTBOX_PENDING,
          o_attempts = 0, o_nextAttemptAt = g_now env, o_sentAt = None, o_failedAt = None,
          o_createdAt = g_now env\<rparr>]\<rparr>\<rparr>)"

text \<open>Customer, vendor and admins hear of a paid booking; mails go to the outbox.\<close>

definition notify_paid :: "pay_env \<Rightarrow> uid option \<Rightarrow> world \<Rightarrow> world" where
  "notify_paid env bookingId w =
     (case Option.bind bookingId (\<lambda>bid. find_first (\<lambda>b. b_id b = bid) (bookings (w_db w))) of
        None \<Rightarrow> w
      | Some b \<Rightarrow>
          let w1 = emit [Notify (b_customerId b) PAYMENT_SUCCESS] w;
              vendor = find_first (\<lambda>v. v_id v = b_vendorId b) (vendors (w_db w));
              w2 = (case vendor of Some v \<Rightarrow> emit [Notify (v_userId v) BOOKING_NEW] w1 | None \<Rightarrow> w1);
              w3 = emit [NotifyAdmins BOOKING_NEW] w2;
              w4 = (case find_first (\<lambda>u. u_id u = b_customerId b) (users (w_db w)) of
                      None \<Rightarrow> w3
                    | Some u \<Rightarrow>
                        if ends_with (u_email u) deleted_suffix then w3
                        else outbox_mail env (fst (g_outboxIds env)) BOOKING_CONFIRMATION (u_email u) bookingId w3)
          in case Option.bind vendor (\<lambda>v. find_first (\<lambda>u. u_id u = v_userId v) (users (w_db w))) of
               None \<Rightarrow> w4
             | Some u \<Rightarrow>
                 if u_email u = [] \<or> ends_with (u_email u) deleted_suffix then w4
                 else outbox_mail env (snd (g_outboxIds env)) VENDOR_BOOKING_NOTIFICATION (u_email u) bookingId w4)"

definition recover :: "pay_env \<Rightarrow> races \<Rightarrow> payment \<Rightarrow> recovery_mode option \<Rightarrow> world \<Rightarrow> world" where
  "recover env rc p mode w =
     (case mode of
        None \<Rightarrow> w
      | Some B2_ORPHAN \<Rightarrow> attemptB2OrphanRecovery env rc (p_id p) w
      | Some M6_SYSTEM_CANCELLED \<Rightarrow>
          (case p_bookingId p of Some bid \<Rightarrow> attemptM6UnCancel env rc (p_id p) bid w | None \<Rightarrow> w)
      | Some CANCELLED_REFUND \<Rightarrow> queueB2Refund (p_id p) (p_amount p) w)"

text \<open>The answer when another callback settled the payment first.\<close>

definition lost_race ::
  "pay_env \<Rightarrow> callback \<Rightarrow> payment \<Rightarrow> bool \<Rightarrow> world \<times> redis \<Rightarrow> (exn + callback_result) \<times> world \<times> redis" where
  "lost_race env cb p isSuccess s =
     (case s of (w, r) \<Rightarrow>
      if map_option p_status (payment_row (p_id p) (w_db w)) = Some SUCCESS then
        (Inr (answer (p_bookingId p) OUTCOME_SUCCESS),
         if isSuccess then flagDuplicateCaptureIfDifferentTxn env (p_id p) (cb_txn cb) s else s)
      else (Inr (answer_failed (p_bookingId p) ''Payment was previously processed''), s))"

definition settle_callback ::
  "pay_env \<Rightarrow> races \<Rightarrow> callback \<Rightarrow> payment \<Rightarrow> bool \<Rightarrow> world \<times> redis \<Rightarrow> (exn + callback_result) \<times> world \<times> redis" where
  "settle_callback env rc cb p isSuccess s =
     (case s of (w, r) \<Rightarrow>
      case transaction (if isSuccess then success_tx env cb p else failure_tx env p) (interfered (rc_tx rc) w) of
        (Inl ex, w1) \<Rightarrow> (Inl ex, w1, r)
      | (Inr Lost, w1) \<Rightarrow> lost_race env cb p isSuccess (w1, r)
      | (Inr (Settled mode freed), w1) \<Rightarrow>
          let w2 = (case freed of Some aid \<Rightarrow> emit [InvalidateAvailability aid] w1 | None \<Rightarrow> w1);
              w3 = recover env rc p mode (interfered (rc_recovery rc) w2);
              w4 = emit [Audit SYSTEM gateway_actor (if isSuccess then PAYMENT_SUCCEEDED else PAYMENT_DECLINED) (p_id p)] w3
          in if \<not> isSuccess then (Inr (answer_failed (p_bookingId p) (mapErrorMessage (cb_errCode cb))), w4, r)
             else if mode = Some CANCELLED_REFUND then
               (Inr (answer_failed (p_bookingId p)
                  ''This booking was cancelled before payment completed. Your payment will be refunded.''), w4, r)
             else (Inr (answer (p_bookingId p) OUTCOME_SUCCESS), notify_paid env (p_bookingId p) w4, r))"

section \<open>handleCallback\<close>

definition handleCallback ::
  "pay_env \<Rightarrow> races \<Rightarrow> via \<Rightarrow> callback \<Rightarrow> world \<times> redis \<Rightarrow> (exn + callback_result) \<times> world \<times> redis" where
  "handleCallback env rc via cb s =
     (case s of (w, r) \<Rightarrow>
      if \<not> g_enabled env then (Inl (BadPayment PaymentDisabled), s)
      else case find_first (\<lambda>p. p_gatewayBasketId p = Some (cb_basketId cb)) (payments (w_db w)) of
        None \<Rightarrow> (Inl (BadPayment CallbackUnknownBasket), s)
      | Some p \<Rightarrow>
          if p_status p = SUCCESS then
            (Inr (answer (p_bookingId p) OUTCOME_SUCCESS),
             if authentic_success env via cb p then flagDuplicateCaptureIfDifferentTxn env (p_id p) (cb_txn cb) s else s)
          else case judge env via cb p of
            Ignore \<Rightarrow> (Inr (answer (p_bookingId p) OUTCOME_PENDING), s)
          | Judged hashValid isSuccess isNapsHeldSuccess \<Rightarrow>
              if p_status p = FAILED \<and> \<not> isSuccess then
                (if isNapsHeldSuccess
                 then (Inr (answer (p_bookingId p) OUTCOME_PENDING), holdNapsSuccess env (p_id p) (p_bookingId p) w, r)
                 else (Inr (answer_failed (p_bookingId p) ''Payment was previously declined''), s))
              else if \<not> hashValid then
                (Inl (BadPayment VerificationFailed),
                 emit [Audit SYSTEM gateway_actor PAYMENT_HASH_MISMATCH (p_id p)] w, r)
              else if isNapsHeldSuccess then
                (Inr (answer (p_bookingId p) OUTCOME_PENDING), holdNapsSuccess env (p_id p) (p_bookingId p) w, r)
              else settle_callback env rc cb p isSuccess (if isSuccess then audit_coupon env p w else w, r))"

section \<open>The endpoints\<close>

definition paymentStatusByBasket :: "db \<Rightarrow> string \<Rightarrow> (payment_status \<times> uid option) option" where
  "paymentStatusByBasket d basketId =
     map_option (\<lambda>p. (p_status p, p_bookingId p))
       (find_first (\<lambda>p. p_gatewayBasketId p = Some basketId) (payments d))"

text \<open>The page the browser is sent to: the outcome, the booking and the error shown.\<close>

definition redirect_outcome ::
  "pay_env \<Rightarrow> races \<Rightarrow> callback \<Rightarrow> world \<times> redis \<Rightarrow> callback_result \<times> world \<times> redis" where
  "redirect_outcome env rc cb s =
     (case handleCallback env rc Browser cb s of
        (Inr res, s') \<Rightarrow>
          ((if cr_status res = OUTCOME_FAILED
            then answer_failed (cr_bookingId res)
              (if truthy (cr_error res) then or_empty (cr_error res) else ''Payment failed'')
            else answer (cr_bookingId res) (cr_status res)), s')
      | (Inl ex, w', r') \<Rightarrow>
          ((case (if cb_basketId cb = [] then None else paymentStatusByBasket (w_db w') (cb_basketId cb)) of
              Some (PAY_PENDING, bid) \<Rightarrow>
                if js_trim (cb_errCode cb) \<in> {''00'', ''000'', ''0000'', ''001''}
                then answer bid OUTCOME_PENDING
                else answer_failed None ''Payment could not be verified''
            | _ \<Rightarrow> answer_failed None ''Payment could not be verified''), w', r'))"

text \<open>The notification: trust comes from the address Cloudflare saw, and the key is never stored.\<close>

definition handleIpn ::
  "pay_env \<Rightarrow> races \<Rightarrow> string option \<Rightarrow> callback \<Rightarrow> world \<times> redis \<Rightarrow> (exn + unit) \<times> world \<times> redis" where
  "handleIpn env rc cfIp dto s =
     (let cfSourceIp = (if truthy cfIp then cfIp else None) in
      case handleCallback env rc (Ipn (isTrustedIpnSource env cfSourceIp)) (dto\<lparr>cb_responseKey := []\<rparr>) s of
        (res, s') \<Rightarrow> (map_sum id (\<lambda>_. ()) res, s'))"

end
