(* ===== verification/CallbackProps.thy ===== *)
theory CallbackProps
  imports Callback CancelProps
begin

text \<open>
  What a callback does to the rows: the effect of the two payment transactions and of the recovery of
  lost bookings, from which the properties of payments follow.
\<close>

section \<open>Frames\<close>

lemma audit_coupon_db [simp]: "w_db (audit_coupon env p w) = w_db w"
  by (simp add: audit_coupon_def Let_def split: option.split)

lemma outbox_mail_tables [simp]:
  "payments (w_db (outbox_mail env oid ty rcp bid w)) = payments (w_db w)"
  "bookings (w_db (outbox_mail env oid ty rcp bid w)) = bookings (w_db w)"
  by (simp_all add: outbox_mail_def)

lemma notify_paid_tables [simp]:
  "payments (w_db (notify_paid env bid w)) = payments (w_db w)"
  "bookings (w_db (notify_paid env bid w)) = bookings (w_db w)"
  by (simp_all add: notify_paid_def Let_def split: option.split)

lemma recount_coupon_tables [simp]:
  "payments (recount_coupon sn tx) = payments tx" "bookings (recount_coupon sn tx) = bookings tx"
  by (simp_all add: recount_coupon_def Let_def split: option.split)

lemma set_payment_bookings [simp]: "bookings (set_payment pid f d) = bookings d"
  by (simp add: set_payment_def)

lemma flag_db [simp]: "w_db (fst (flagDuplicateCaptureIfDifferentTxn env pid txn (w, r))) = w_db w"
  by (simp add: flagDuplicateCaptureIfDifferentTxn_def Let_def split: option.split prod.split)

lemma interfered_db [simp]: "w_db (interfered i w) = i (w_db w)"
  by (simp add: interfered_def)

lemma interfered_calm [simp]:
  "interfered (rc_tx calm) w = w" "interfered (rc_recovery calm) w = w" "interfered (rc_recovery_tx calm) w = w"
  by (simp_all add: interfered_def calm_def)

lemma row_update [table]:
  assumes "find_first (\<lambda>r. k r = i) t = Some p" "\<And>r. k (f r) = k r"
  shows "find_first (\<lambda>r. k r = i) (update_many (\<lambda>r. k r = i \<and> c r) f t) = Some (if c p then f p else p)"
  using assms(1) by (induction t) (auto simp: assms(2) split: if_splits)

section \<open>Nothing is confirmed without a capture\<close>

lemma judge_success [callback]:
  "judge env via cb p = Judged v s h \<Longrightarrow> s \<longleftrightarrow> authentic_success env via cb p"
  by (auto simp: judge_def authentic_success_def Let_def split: via.splits if_splits)

definition confirmed_ids :: "db \<Rightarrow> uid set" where
  "confirmed_ids d = b_id ` {b \<in> set (bookings d). b_status b = CONFIRMED}"

definition paid_ids :: "db \<Rightarrow> uid set" where
  "paid_ids d = p_id ` {p \<in> set (payments d). p_status p = SUCCESS}"

lemma release_doomed_tables [callback]:
  "release_doomed env bid tx = Inr (aid, tx') \<Longrightarrow> payments tx' = payments tx \<and> bookings tx' = bookings tx"
  by (auto simp: release_doomed_def Let_def and_then_Inr dest: refund_tables split: option.splits if_splits)

lemma delete_updated [table]:
  "(\<And>r. k (f r) = k r) \<Longrightarrow> delete_many (\<lambda>r. k r = i) (update_many (\<lambda>r. k r = i) f t) = delete_many (\<lambda>r. k r = i) t"
  by (induction t) (auto simp: delete_many_def)

lemma failure_tx_rows [callback]:
  assumes "failure_tx env p tx = Inr (out, tx')"
  shows "out = Lost \<and> tx' = tx \<or>
    (\<exists>freed. out = Settled None freed) \<and>
    payments tx' = update_many (\<lambda>r. p_id r = p_id p \<and> p_status r = PAY_PENDING)
      (\<lambda>r. r\<lparr>p_status := FAILED, p_idempotencyKey := None\<rparr>) (payments tx) \<and>
    bookings tx' = (case p_bookingId p of None \<Rightarrow> bookings tx
      | Some bid \<Rightarrow> delete_many (\<lambda>b. b_id b = bid) (bookings tx))"
  using assms
  by (auto simp: failure_tx_def Let_def and_then_Inr update_booking_or_throw_Inr delete_booking_or_throw_def
      update_booking_def delete_updated dest!: release_doomed_tables split: if_splits option.splits prod.splits)

lemma failure_confirms_nothing [callback]:
  assumes "failure_tx env p tx = Inr (out, tx')"
  shows "confirmed_ids tx' \<subseteq> confirmed_ids tx" "paid_ids tx' \<subseteq> paid_ids tx"
proof -
  have "r \<in> set (payments tx)" if "r \<in> set (payments tx')" "p_status r = SUCCESS" for r
    using failure_tx_rows [OF assms] that by (auto simp: update_many_mem split: if_splits)
  then show "paid_ids tx' \<subseteq> paid_ids tx" unfolding paid_ids_def by blast
  have "b \<in> set (bookings tx)" if "b \<in> set (bookings tx')" for b
  proof -
    have "bookings tx' = bookings tx \<or> (\<exists>bid. bookings tx' = delete_many (\<lambda>b. b_id b = bid) (bookings tx))"
      using failure_tx_rows [OF assms] by (cases "p_bookingId p") auto
    then show ?thesis using that by (auto simp: delete_many_mem)
  qed
  then show "confirmed_ids tx' \<subseteq> confirmed_ids tx" unfolding confirmed_ids_def by blast
qed

lemma hold_rows_statuses [simp]:
  "payments (hold_rows env bid d) = payments d"
  "map (\<lambda>b. (b_id b, b_status b)) (bookings (hold_rows env bid d)) = map (\<lambda>b. (b_id b, b_status b)) (bookings d)"
  by (simp_all add: hold_rows_def Let_def update_many_def)

lemma confirmed_ids_statuses:
  "map (\<lambda>b. (b_id b, b_status b)) (bookings d) = map (\<lambda>b. (b_id b, b_status b)) (bookings d') \<Longrightarrow>
   confirmed_ids d = confirmed_ids d'"
proof -
  have *: "confirmed_ids d = fst ` {x \<in> set (map (\<lambda>b. (b_id b, b_status b)) (bookings d)). snd x = CONFIRMED}" for d
    by (force simp: confirmed_ids_def)
  show "map (\<lambda>b. (b_id b, b_status b)) (bookings d) = map (\<lambda>b. (b_id b, b_status b)) (bookings d') \<Longrightarrow>
     confirmed_ids d = confirmed_ids d'"
    unfolding * by simp
qed

lemma holdNaps_statuses [simp]:
  "payments (w_db (holdNapsSuccess env pid bid w)) = payments (w_db w)"
  "map (\<lambda>b. (b_id b, b_status b)) (bookings (w_db (holdNapsSuccess env pid bid w))) =
   map (\<lambda>b. (b_id b, b_status b)) (bookings (w_db w))"
  by (simp_all add: holdNapsSuccess_def split: option.split)

lemma holdNaps_confirms_nothing [simp]:
  "confirmed_ids (w_db (holdNapsSuccess env pid bid w)) = confirmed_ids (w_db w)"
  "paid_ids (w_db (holdNapsSuccess env pid bid w)) = paid_ids (w_db w)"
  by (rule confirmed_ids_statuses, simp) (simp add: paid_ids_def)

lemma settle_failure_confirms_nothing [callback]:
  assumes "settle_callback env calm cb p False (w, r) = (res, w', r')"
  shows "confirmed_ids (w_db w') \<subseteq> confirmed_ids (w_db w) \<and> paid_ids (w_db w') \<subseteq> paid_ids (w_db w)"
proof (cases "failure_tx env p (w_db w)")
  case (Inl ex)
  then show ?thesis using assms by (auto simp: settle_callback_def transaction_def)
next
  case (Inr y)
  then obtain out tx' where y: "failure_tx env p (w_db w) = Inr (out, tx')" by (cases y) auto
  note rows = failure_confirms_nothing [OF y]
  show ?thesis
  proof (cases out)
    case Lost
    then show ?thesis using assms y rows
      by (auto simp: settle_callback_def transaction_def lost_race_def split: if_splits)
  next
    case (Settled mode freed)
    then have "mode = None" using failure_tx_rows [OF y] by auto
    then show ?thesis using assms y rows Settled
      by (auto simp: settle_callback_def transaction_def recover_def Let_def split: option.splits)
  qed
qed

lemma not_captured_confirms_nothing [callback]:
  assumes h: "handleCallback env calm via cb (w, r) = (res, w', r')"
    and fake: "\<And>p. find_first (\<lambda>p. p_gatewayBasketId p = Some (cb_basketId cb)) (payments (w_db w)) = Some p \<Longrightarrow>
      \<not> authentic_success env via cb p"
  shows "confirmed_ids (w_db w') \<subseteq> confirmed_ids (w_db w) \<and> paid_ids (w_db w') \<subseteq> paid_ids (w_db w)"
proof (cases "find_first (\<lambda>p. p_gatewayBasketId p = Some (cb_basketId cb)) (payments (w_db w))")
  case None
  then show ?thesis using h by (auto simp: handleCallback_def split: if_splits)
next
  case (Some p)
  note no = fake [OF Some]
  show ?thesis
  proof (cases "judge env via cb p")
    case Ignore
    then show ?thesis using h Some no by (auto simp: handleCallback_def split: if_splits)
  next
    case (Judged v s n)
    then have s: "\<not> s" using no judge_success by blast
    show ?thesis
      using h Some no s Judged settle_failure_confirms_nothing [of env cb p w r res w' r']
      by (auto simp: handleCallback_def split: if_splits)
  qed
qed

section \<open>Captured money is accounted for\<close>

text \<open>A captured payment has its confirmed booking, or its full refund is queued.\<close>

definition has_booking :: "db \<Rightarrow> uid \<Rightarrow> bool" where
  "has_booking d bid \<longleftrightarrow> (\<exists>b. find_first (\<lambda>b. b_id b = bid) (bookings d) = Some b \<and> b_status b = CONFIRMED)"

definition accounted :: "db \<Rightarrow> uid \<Rightarrow> uid \<Rightarrow> num \<Rightarrow> bool" where
  "accounted d pid bid a \<longleftrightarrow>
     (\<exists>p. payment_row pid d = Some p \<and>
       (p_status p = SUCCESS \<and> has_booking d bid \<or> p_status p = REFUND_PENDING \<and> p_refundAmount p = Some a))"

lemma accounted_same:
  "payments d' = payments d \<Longrightarrow> bookings d' = bookings d \<Longrightarrow> accounted d' pid bid a = accounted d pid bid a"
  by (simp add: accounted_def has_booking_def payment_row_def)

lemma accounted_notified [simp]:
  "accounted (w_db (notify_paid env b w)) pid bid a = accounted (w_db w) pid bid a"
  by (rule accounted_same) simp_all

lemma queue_accounts [callback]:
  assumes "payment_row pid (w_db w) = Some q" "p_status q = SUCCESS"
  shows "accounted (w_db (queueB2Refund pid a w)) pid bid a"
  using row_update [of p_id pid "payments (w_db w)" q
      "\<lambda>p. p\<lparr>p_status := REFUND_PENDING, p_refundAmount := Some a\<rparr>" "\<lambda>p. p_status p = SUCCESS"] assms
  by (simp add: accounted_def queueB2Refund_def payment_row_def)

lemma refund_fresh_accounts [callback]:
  "payment_row pid (w_db w) = Some q \<Longrightarrow> p_status q = SUCCESS \<Longrightarrow> p_amount q = a \<Longrightarrow>
   accounted (w_db (refund_fresh pid w)) pid bid a"
  by (simp add: refund_fresh_def queue_accounts)

lemma recreate_rows [callback]:
  assumes "recreate_tx env pid (Some bid) sn tx = Inr (out, tx')" "payment_row pid tx = Some q" "p_recreatedAt q = None"
  shows "out \<noteq> AlreadyRecovered \<and> (\<exists>q'. payment_row pid tx' = Some q' \<and> p_status q' = p_status q) \<and>
    (out \<noteq> SlotConflict \<longrightarrow> has_booking tx' bid)"
proof -
  let ?sel = "\<lambda>p. p_id p = pid \<and> p_recreatedAt p = None"
  let ?tx1 = "tx\<lparr>payments := update_many ?sel (\<lambda>p. p\<lparr>p_recreatedAt := Some (g_now env)\<rparr>) (payments tx)\<rparr>"
  let ?b = "recreated_booking env bid pid sn"
  have q: "q \<in> set (payments tx)" "p_id q = pid"
    using assms(2) find_first_Some by (fastforce simp: payment_row_def)+
  then have cnt: "count_rows ?sel (payments tx) \<noteq> 0"
    using assms(3) by (auto simp: count_rows_0)
  have row1: "\<exists>q'. payment_row pid ?tx1 = Some q' \<and> p_status q' = p_status q"
    using row_update [of p_id pid "payments tx" q _ "\<lambda>p. p_recreatedAt p = None"] assms(2,3)
    by (simp add: payment_row_def)
  have row2: "\<exists>q'. payment_row pid (set_payment pid (\<lambda>p. p\<lparr>p_bookingId := Some bid\<rparr>) d) = Some q' \<and> p_status q' = p_status q"
    if "\<exists>q'. payment_row pid d = Some q' \<and> p_status q' = p_status q" for d
    using that by (auto simp: payment_row_def set_payment_def find_first_update)
  have bid: "b_id ?b = bid" "b_status ?b = CONFIRMED" by (simp_all add: recreated_booking_def)
  have new: "find_first (\<lambda>b. b_id b = bid) (bookings tx @ [?b]) = Some ?b" if "\<not> key_taken ?tx1 ?b"
    by (rule find_first_last) (use that bid in \<open>auto simp: key_taken_def list_ex_iff\<close>)
  show ?thesis
    using assms(1) cnt row1 row2 bid new
    by (auto simp: recreate_tx_def Let_def and_then_Inr has_booking_def payment_row_def recreated_booking_def
        dest!: redeem_tables split: if_splits)
qed

lemma B2_accounts [callback]:
  assumes "payment_row pid (w_db w) = Some q" "p_status q = SUCCESS" "p_recreatedAt q = None"
    and "p_bookingId q = Some bid" "p_amount q = a" "rc_recovery_tx rc = id"
  shows "accounted (w_db (attemptB2OrphanRecovery env rc pid w)) pid bid a"
proof (cases "p_snapshot q")
  case None
  then show ?thesis using assms by (simp add: attemptB2OrphanRecovery_def queue_accounts)
next
  case (Some sn)
  show ?thesis
  proof (cases "recreatable env (w_db w) sn")
    case False
    then show ?thesis using assms Some by (simp add: attemptB2OrphanRecovery_def queue_accounts)
  next
    case True
    have w: "interfered (rc_recovery_tx rc) w = w" by (simp add: interfered_def assms(6))
    show ?thesis
    proof (cases "recreate_tx env pid (Some bid) sn (w_db w)")
      case (Inl ex)
      then show ?thesis using assms Some True w
        by (simp add: attemptB2OrphanRecovery_def transaction_def queue_accounts)
    next
      case (Inr y)
      then obtain out d where y: "recreate_tx env pid (Some bid) sn (w_db w) = Inr (out, d)" by (cases y) auto
      note rows = recreate_rows [OF y assms(1,3)]
      then obtain q' where q': "payment_row pid d = Some q'" "p_status q' = SUCCESS" using assms(2) by auto
      show ?thesis
      proof (cases out)
        case SlotConflict
        then show ?thesis using assms Some True w y q'
          by (simp add: attemptB2OrphanRecovery_def transaction_def queue_accounts)
      next
        case (Recovered aid)
        then show ?thesis using assms Some True w y q' rows
          by (simp add: attemptB2OrphanRecovery_def transaction_def accounted_def)
      qed (use rows in simp)
    qed
  qed
qed

lemma uncancel_rows [callback]:
  assumes "uncancel_tx env b tx = Inr (out, tx')"
    and "find_first (\<lambda>r. b_id r = b_id b) (bookings tx) = Some b" "b_status b = CANCELLED" "b_cancelledBy b = Some SYSTEM"
  shows "payments tx' = payments tx \<and> out = Recovered (b_activityId b) \<and> has_booking tx' (b_id b)"
proof -
  have "b \<in> set (bookings tx)" using find_first_Some [OF assms(2)] by simp
  then show ?thesis
    using assms row_update [OF assms(2), of "\<lambda>r. r\<lparr>b_status := CONFIRMED, b_cancelledAt := None, b_cancelledBy := None\<rparr>"
        "\<lambda>r. b_status r = CANCELLED \<and> b_cancelledBy r = Some SYSTEM"]
    by (auto simp: uncancel_tx_def Let_def has_booking_def count_rows_0 split: if_splits)
qed

lemma M6_accounts [callback]:
  assumes "payment_row pid (w_db w) = Some q" "p_status q = SUCCESS" "p_amount q = a"
    and b: "find_first (\<lambda>b. b_id b = bid) (bookings (w_db w)) = Some b" "b_status b = CANCELLED" "b_cancelledBy b = Some SYSTEM"
    and rc: "rc_recovery_tx rc = id"
  shows "accounted (w_db (attemptM6UnCancel env rc pid bid w)) pid bid a"
proof -
  have w: "interfered (rc_recovery_tx rc) w = w" by (simp add: interfered_def rc)
  have bid: "b_id b = bid" using find_first_Some [OF b(1)] by simp
  note fresh = refund_fresh_accounts [OF assms(1-3)]
  show ?thesis
  proof (cases "uncancel_tx env b (w_db w)")
    case (Inl ex)
    then show ?thesis using b fresh w by (simp add: attemptM6UnCancel_def transaction_def Let_def)
  next
    case (Inr y)
    then obtain out d where y: "uncancel_tx env b (w_db w) = Inr (out, d)" by (cases y) auto
    have "payments d = payments (w_db w) \<and> out = Recovered (b_activityId b) \<and> has_booking d bid"
      using uncancel_rows [OF y _ b(2,3)] b(1) bid by simp
    then show ?thesis using b fresh w y assms(1,2)
      by (simp add: attemptM6UnCancel_def transaction_def Let_def accounted_def payment_row_def)
  qed
qed

lemma success_tx_rows [callback]:
  assumes "payment_row (p_id p) tx = Some q" "p_status q \<in> {PAY_PENDING, FAILED}" "p_bookingId p = Some bid"
  shows "\<exists>tx' mode q'. success_tx env cb p tx = Inr (Settled mode None, tx') \<and>
    payment_row (p_id p) tx' = Some q' \<and> p_status q' = SUCCESS \<and> p_recreatedAt q' = p_recreatedAt q \<and>
    p_bookingId q' = p_bookingId q \<and> p_amount q' = p_amount q \<and> p_snapshot q' = p_snapshot q \<and>
    (case mode of
       None \<Rightarrow> has_booking tx' bid
     | Some M6_SYSTEM_CANCELLED \<Rightarrow> \<exists>b. find_first (\<lambda>b. b_id b = bid) (bookings tx') = Some b \<and>
         b_status b = CANCELLED \<and> b_cancelledBy b = Some SYSTEM
     | _ \<Rightarrow> True)"
proof -
  let ?f = "\<lambda>r. r\<lparr>p_status := SUCCESS, p_gatewayTxnId := (if truthy (cb_txn cb) then cb_txn cb else None),
     p_gatewayErrCode := Some (cb_errCode cb), p_gatewayResponseKey := Some (cb_responseKey cb),
     p_paidAt := Some (g_now env), p_method := PAY2M\<rparr>"
  let ?sel = "\<lambda>r. p_id r = p_id p \<and> p_status r \<in> {PAY_PENDING, FAILED}"
  have "q \<in> set (payments tx)" "p_id q = p_id p"
    using assms(1) find_first_Some by (fastforce simp: payment_row_def)+
  then have cnt: "count_rows ?sel (payments tx) \<noteq> 0" using assms(2) by (auto simp: count_rows_0)
  have row: "find_first (\<lambda>r. p_id r = p_id p) (update_many ?sel ?f (payments tx)) = Some (?f q)"
    using row_update [of p_id "p_id p" "payments tx" q ?f "\<lambda>r. p_status r \<in> {PAY_PENDING, FAILED}"] assms(1,2)
    by (simp add: payment_row_def)
  show ?thesis
  proof (cases "find_first (\<lambda>b. b_id b = bid) (bookings tx)")
    case None
    then show ?thesis using cnt row assms(3) by (simp add: success_tx_def Let_def payment_row_def)
  next
    case (Some b)
    then show ?thesis using cnt row assms(3)
      by (simp add: success_tx_def Let_def payment_row_def update_booking_def has_booking_def find_first_update)
  qed
qed

lemma settle_success_accounts [callback]:
  assumes "payment_row (p_id p) (rc_tx rc (w_db w)) = Some q" "p_status q \<in> {PAY_PENDING, FAILED}"
    and "p_bookingId p = Some bid" "p_bookingId q = Some bid" "p_amount q = p_amount p" "p_recreatedAt q = None"
    and rc: "rc_recovery rc = id" "rc_recovery_tx rc = id"
    and s: "settle_callback env rc cb p True (w, r) = (res, w', r')"
  shows "isInr res \<and> accounted (w_db w') (p_id p) bid (p_amount p)"
proof -
  obtain tx' mode q' where t: "success_tx env cb p (rc_tx rc (w_db w)) = Inr (Settled mode None, tx')"
    and q': "payment_row (p_id p) tx' = Some q'" "p_status q' = SUCCESS" "p_recreatedAt q' = None"
      "p_bookingId q' = Some bid" "p_amount q' = p_amount p"
    and m: "case mode of None \<Rightarrow> has_booking tx' bid
     | Some M6_SYSTEM_CANCELLED \<Rightarrow> \<exists>b. find_first (\<lambda>b. b_id b = bid) (bookings tx') = Some b \<and>
         b_status b = CANCELLED \<and> b_cancelledBy b = Some SYSTEM
     | _ \<Rightarrow> True"
    using success_tx_rows [OF assms(1-3), of env cb] assms(4-6) by auto
  define w2 where "w2 = w\<lparr>w_db := tx'\<rparr>"
  have w2: "payment_row (p_id p) (w_db w2) = Some q'" by (simp add: w2_def q')
  have acc: "accounted (w_db (recover env rc p mode w2)) (p_id p) bid (p_amount p)"
  proof (cases mode)
    case None
    then show ?thesis using m q' w2 by (auto simp: recover_def accounted_def w2_def)
  next
    case (Some k)
    show ?thesis
    proof (cases k)
      case B2_ORPHAN
      then show ?thesis using Some B2_accounts [OF w2 q'(2-5) rc(2)] by (simp add: recover_def)
    next
      case M6_SYSTEM_CANCELLED
      then obtain b where "find_first (\<lambda>b. b_id b = bid) (bookings (w_db w2)) = Some b"
        "b_status b = CANCELLED" "b_cancelledBy b = Some SYSTEM"
        using m Some by (auto simp: w2_def)
      from M6_accounts [OF w2 q'(2,5) this rc(2)] show ?thesis
        using Some M6_SYSTEM_CANCELLED assms(3) by (simp add: recover_def)
    next
      case CANCELLED_REFUND
      then show ?thesis using Some queue_accounts [OF w2 q'(2)] by (simp add: recover_def)
    qed
  qed
  have i: "interfered (rc_recovery rc) v = v" for v by (simp add: interfered_def rc(1))
  have tr: "transaction (success_tx env cb p) (interfered (rc_tx rc) w) = (Inr (Settled mode None), w2)"
    using t by (simp add: transaction_def w2_def interfered_def)
  show ?thesis using s acc tr i
    by (auto simp: settle_callback_def Let_def split: if_splits)
qed

lemma captured_accounts [callback]:
  assumes "g_enabled env"
    and "find_first (\<lambda>p. p_gatewayBasketId p = Some (cb_basketId cb)) (payments (w_db w)) = Some p"
    and "p_status p \<in> {PAY_PENDING, FAILED}" "authentic_success env via cb p" "p_bookingId p = Some bid"
    and "payment_row (p_id p) (rc_tx rc (w_db w)) = Some q" "p_status q \<in> {PAY_PENDING, FAILED}"
    and "p_bookingId q = Some bid" "p_amount q = p_amount p" "p_recreatedAt q = None"
    and "rc_recovery rc = id" "rc_recovery_tx rc = id"
    and h: "handleCallback env rc via cb (w, r) = (res, w', r')"
  shows "isInr res \<and> accounted (w_db w') (p_id p) bid (p_amount p)"
proof -
  obtain v n where j: "judge env via cb p = Judged v True n" "v" "\<not> n"
    using assms(4) by (auto simp: judge_def authentic_success_def card_success_def naps_success_def Let_def
        split: via.splits option.splits)
  let ?w = "audit_coupon env p w"
  have "settle_callback env rc cb p True (?w, r) = (res, w', r')"
    using h assms(1-3) j by (auto simp: handleCallback_def)
  from settle_success_accounts [OF _ assms(7,5,8-12) this] show ?thesis using assms(6) by simp
qed

section \<open>Second captures\<close>

lemma flag_other_txn [callback]:
  assumes "payment_row pid (w_db w) = Some p" "js_trim (or_empty (p_gatewayTxnId p)) \<noteq> []"
    and "js_trim (or_empty txn) \<noteq> []" "js_trim (or_empty txn) \<noteq> js_trim (or_empty (p_gatewayTxnId p))"
    and "flagDuplicateCaptureIfDifferentTxn env pid txn (w, r) = (w', r')"
  shows "\<exists>fx. w_fx w' = w_fx w @ Audit SYSTEM gateway_actor PAYMENT_DUPLICATE_CAPTURE pid # fx \<and> w_db w' = w_db w \<and>
    (redis_get r (DupCapture pid (js_trim (or_empty txn))) = None \<longrightarrow> fx = [NotifyAdmins SYSTEM_NOTICE])"
  using assms
  by (auto simp: flagDuplicateCaptureIfDifferentTxn_def Let_def acquire_def redis_set_nx_def split: if_splits)

lemma flag_same_txn [callback]:
  "payment_row pid (w_db w) = Some p \<Longrightarrow> js_trim (or_empty txn) = js_trim (or_empty (p_gatewayTxnId p)) \<Longrightarrow>
   flagDuplicateCaptureIfDifferentTxn env pid txn (w, r) = (w, r)"
  by (auto simp: flagDuplicateCaptureIfDifferentTxn_def Let_def)

section \<open>A decline gives everything back\<close>

lemma release_doomed_returns [callback]:
  assumes ok: "points_ok tx" and b: "find_first (\<lambda>b. b_id b = bid) (bookings tx) = Some b"
    and pts: "0 \<le> b_pointsRedeemed b" "two_dp (b_pointsRedeemed b)" and u: "balance_of tx (b_customerId b) = Some y"
    and new: "\<not> ledger_taken tx (Some bid) CANCEL_REFUND_UNPAID"
  shows "\<exists>tx'. release_doomed env bid tx = Inr (Some (b_activityId b), tx') \<and>
    payments tx' = payments tx \<and> bookings tx' = bookings tx \<and> points_ok tx' \<and>
    balance_of tx' (b_customerId b) = Some (y + b_pointsRedeemed b) \<and>
    coupons tx' = coupons (refundCouponUsage tx (b_couponCode b) (b_customerId b) (g_now env))"
proof -
  let ?d = "refundCouponUsage tx (b_couponCode b) (b_customerId b) (g_now env)"
  have d: "points_ok ?d" "balance_of ?d = balance_of tx"
    using points_ok_same [of ?d tx] ok by simp_all
  show ?thesis
  proof (cases "b_pointsRedeemed b > 0")
    case True
    have y: "balance_of ?d (b_customerId b) = Some y" using d u by simp
    let ?d' = "post ?d (credit_row (b_customerId b) (b_pointsRedeemed b) bid CANCEL_REFUND_UNPAID SYSTEM
       (Some gateway_actor) (y + b_pointsRedeemed b))"
    have "\<not> ledger_taken ?d (Some bid) CANCEL_REFUND_UNPAID"
      using new ledger_taken_same [of ?d tx] by simp
    note rf = refund_succeeds [OF y True pts(2) this, of SYSTEM "Some gateway_actor"]
    have "refunds bid CANCEL_REFUND_UNPAID SYSTEM (Some gateway_actor) ?d (b_customerId b) (b_pointsRedeemed b) ?d'"
      using rf pts by (auto simp: refunds_def)
    from points.credit_inv [OF d(1) this] points.credit_bal [OF d(1) this, of "b_customerId b"]
    show ?thesis using b True rf y by (simp add: release_doomed_def Let_def)
  next
    case False
    then show ?thesis using b pts d u by (simp add: release_doomed_def Let_def)
  qed
qed

lemma decline_returns [callback]:
  assumes p: "payment_row (p_id p) tx = Some q" "p_status q = PAY_PENDING" "p_bookingId p = Some bid"
    and ok: "points_ok tx" and b: "find_first (\<lambda>b. b_id b = bid) (bookings tx) = Some b"
    and pts: "0 \<le> b_pointsRedeemed b" "two_dp (b_pointsRedeemed b)" and u: "balance_of tx (b_customerId b) = Some y"
    and new: "\<not> ledger_taken tx (Some bid) CANCEL_REFUND_UNPAID"
  shows "\<exists>tx'. failure_tx env p tx = Inr (Settled None (Some (b_activityId b)), tx') \<and>
    bookings tx' = delete_many (\<lambda>b. b_id b = bid) (bookings tx) \<and>
    payment_row (p_id p) tx' = Some (q\<lparr>p_status := FAILED, p_idempotencyKey := None\<rparr>) \<and>
    points_ok tx' \<and> balance_of tx' (b_customerId b) = Some (y + b_pointsRedeemed b) \<and>
    coupons tx' = coupons (refundCouponUsage tx (b_couponCode b) (b_customerId b) (g_now env))"
proof -
  let ?sel = "\<lambda>r. p_id r = p_id p \<and> p_status r = PAY_PENDING"
  let ?f = "\<lambda>r. r\<lparr>p_status := FAILED, p_idempotencyKey := None\<rparr>"
  let ?d = "tx\<lparr>payments := update_many ?sel ?f (payments tx)\<rparr>"
  have "q \<in> set (payments tx)" "p_id q = p_id p"
    using p(1) find_first_Some by (fastforce simp: payment_row_def)+
  then have cnt: "count_rows ?sel (payments tx) \<noteq> 0" using p(2) by (auto simp: count_rows_0)
  have row: "payment_row (p_id p) ?d = Some (?f q)"
    using row_update [of p_id "p_id p" "payments tx" q ?f "\<lambda>r. p_status r = PAY_PENDING"] p(1,2)
    by (simp add: payment_row_def)
  have "points_ok ?d" "balance_of ?d = balance_of tx"
    using points_ok_same [of ?d tx] ok by simp_all
  then obtain d2 where d2: "release_doomed env bid ?d = Inr (Some (b_activityId b), d2)"
    "payments d2 = payments ?d" "bookings d2 = bookings tx" "points_ok d2"
    "balance_of d2 (b_customerId b) = Some (y + b_pointsRedeemed b)"
    "coupons d2 = coupons (refundCouponUsage ?d (b_couponCode b) (b_customerId b) (g_now env))"
    using release_doomed_returns [of ?d bid b y env] b pts u new ledger_taken_same [of ?d tx] by auto
  have mem: "\<exists>x \<in> set (bookings tx). b_id x = bid" using find_first_Some [OF b] by auto
  then have mem': "find_first (\<lambda>x. b_id x = bid) (bookings (update_booking bid (\<lambda>r. r\<lparr>b_paymentId := None\<rparr>) d2)) \<noteq> None"
    using b by (simp add: update_booking_def find_first_update d2(3))
  define d4 where "d4 = d2\<lparr>bookings := delete_many (\<lambda>b. b_id b = bid) (bookings tx)\<rparr>"
  have "failure_tx env p tx = Inr (Settled None (Some (b_activityId b)), d4)"
    using cnt p(3) d2(1,3) mem mem'
    by (auto simp: failure_tx_def Let_def update_booking_or_throw_Inr and_then_Inr delete_booking_or_throw_def
        update_booking_def delete_updated d4_def)
  moreover have "points_ok d4" "balance_of d4 = balance_of d2"
    using points_ok_same [of d4 d2] d2(4) by (simp_all add: d4_def)
  moreover have "coupons d4 = coupons (refundCouponUsage tx (b_couponCode b) (b_customerId b) (g_now env))"
    using d2(6) refundCouponUsage_same [of ?d tx] by (simp add: d4_def)
  ultimately show ?thesis using row d2(2,5) by (simp add: d4_def payment_row_def)
qed

end
