(* ===== verification/PaymentTheorems.thy ===== *)
theory PaymentTheorems
  imports CallbackProps Scenario
begin

text \<open>
  The properties of payments: what a signature proves, what a callback may and may not do, what the
  hand-off to the gateway keeps, with examples on the installation of \<open>Scenario\<close>.
\<close>

section \<open>An example gateway\<close>

text \<open>A hash for the examples: the message with its few other characters made hexadecimal, padded to 64 digits.\<close>

fun hex_of :: "char \<Rightarrow> char" where
  "hex_of c = (if c = CHR ''.'' then CHR ''a'' else if c = CHR ''M'' \<or> c = CHR ''B'' \<or> c = CHR ''s'' then CHR ''b'' else c)"

definition sc_hash :: "string \<Rightarrow> string" where
  "sc_hash m = take 64 (map hex_of m @ replicate 64 CHR ''f'')"

definition sc_pay :: pay_env where
  "sc_pay = \<lparr>g_now = sc_now, g_tz = qatar_tz, g_enabled = True, g_merchantId = ''M'', g_merchantName = ''Jadwal'',
     g_secretWord = ''s'', g_apiUrl = ''https://g'', g_returnUrl = ''https://j'', g_storeId = ''1'',
     g_sha256 = sc_hash, g_ipnConfirmEnabled = True, g_ipnAllowedIps = [''34.18.115.33''],
     g_newBasket = ''B1'', g_signature = ''x'', g_lockToken = 104,
     g_breaker = \<lparr>k_threshold = 10, k_timeout = 30000, k_disabled = False\<rparr>,
     g_fetch = (\<lambda>i. Answer \<lparr>h_status = 200, h_contentLength = None, h_body = Some [''T'']\<rparr>),
     g_startAt = (\<lambda>i. sc_now), g_settleAt = (\<lambda>i. sc_now), g_others = (\<lambda>i b. b),
     g_parse = (\<lambda>s. JsonToken (Some s)), g_newBookingId = 105, g_outboxIds = (106, 107),
     g_conflict = False, g_outboxFails = False\<rparr>"

text \<open>The unpaid booking of the scenario, handed to the gateway, its code verified.\<close>

definition sc_paying :: payment where
  "sc_paying = sc_payment\<lparr>p_bookingId := Some 100, p_gatewayBasketId := Some ''B1'', p_snapshot := Some (buildBookingSnapshot sc_booking)\<rparr>"

definition sc_world_paying :: world where
  "sc_world_paying = sc_world_booked\<lparr>w_db := (w_db sc_world_booked)\<lparr>payments := [sc_paying]\<rparr>\<rparr>"

definition sc_signed :: "rail \<Rightarrow> string \<Rightarrow> callback" where
  "sc_signed rl ec = \<lparr>cb_errCode = ec, cb_basketId = ''B1'', cb_txn = Some ''T1'',
     cb_responseKey = sc_hash (''MB1s'' @ rail_tail rl ''111.00'' ec)\<rparr>"

section \<open>What a signature proves\<close>

text \<open>C21. The signature decides: for an amount of at least half a unit of currency, a callback is read as a
  card success only if the gateway signed a success on the card rail, as a held NAPS success only if
  it signed one on the NAPS rail, and a signed success is always read as one of its rail. Codes are
  digit strings; \<open>''0000''\<close> is the gateway's third spelling of success, used by its notifications.\<close>

theorem signature_decides:
  assumes "two_dp a" "1 / 2 \<le> a" "amt \<in> set (amount_forms a)" "numeric_code e" "numeric_code received"
    and "received \<noteq> ''0000''" "signs env basketId (rail_tail rl amt e) key"
    and "no_collision env basketId a received (rail_tail rl amt e)"
  defines "res \<equiv> resolveSignedErrCode env basketId a received key"
  shows "(card_success res \<longrightarrow> rl = CARD \<and> (success_code e \<or> e = ''0000'')) \<and>
    (naps_success res \<longrightarrow> rl = NAPS \<and> success_code e) \<and>
    (success_code e \<longrightarrow> (case rl of CARD \<Rightarrow> card_success res | NAPS \<Rightarrow> naps_success res))"
proof -
  note reads = resolve_reads [OF assms(7,8)]
  show ?thesis
  proof (cases res)
    case None
    then have "\<not> success_code e"
      using reads success_tail_tried [OF _ assms(3), of e rl received] by (auto simp: res_def)
    then show ?thesis using None by (simp add: card_success_def naps_success_def)
  next
    case (Some x)
    obtain ec r where x: "x = (ec, r)" by (cases x)
    have m: "(ec, r, rail_tail rl amt e) \<in> set (candidates a received)" using reads Some x by (simp add: res_def)
    have sound: "r = CARD \<Longrightarrow> success_code ec \<Longrightarrow> rl = CARD \<and> (success_code e \<or> e = ''0000'')"
      "r = NAPS \<Longrightarrow> success_code ec \<Longrightarrow> rl = NAPS \<and> e = ec"
      using m card_success_sound [OF assms(1-5), of ec rl] naps_success_sound [OF assms(1-5), of ec rl] by simp_all
    have complete: "success_code e \<Longrightarrow> r = rl \<and> success_code ec"
      using success_complete [OF assms(1-3) _ assms(5,6) m] by simp
    have res: "card_success res \<longleftrightarrow> r = CARD \<and> success_code ec" "naps_success res \<longleftrightarrow> r = NAPS \<and> success_code ec"
      by (simp_all add: Some x card_success_def naps_success_def)
    have "case rl of CARD \<Rightarrow> card_success res | NAPS \<Rightarrow> naps_success res" if "success_code e"
      using complete [OF that] res by (cases rl) simp_all
    then show ?thesis using sound res by blast
  qed
qed

lemma sc_no_collision: "no_collision sc_pay ''B1'' 111 ''001'' (rail_tail NAPS ''111'' ''00'')"
  by code_simp

theorem signature_decides_witness:
  "naps_success (resolveSignedErrCode sc_pay ''B1'' 111 ''001'' (sc_hash ''MB1s00111''))"
proof -
  have "two_dp 111" using two_dp_of_int [of 111] by simp
  moreover have "''111'' \<in> set (amount_forms 111)" "signs sc_pay ''B1'' (rail_tail NAPS ''111'' ''00'') (sc_hash ''MB1s00111'')"
    by code_simp+
  moreover have "numeric_code ''001''" "success_code ''00''" by code_simp+
  ultimately show ?thesis
    using signature_decides [of 111 "''111''" "''00''" "''001''" sc_pay "''B1''" NAPS] sc_no_collision by simp
qed

section \<open>What a callback may do\<close>

lemma sc_find_paying:
  "find_first (\<lambda>p. p_gatewayBasketId p = Some (cb_basketId (sc_signed rl ec))) (payments (w_db sc_world_paying)) = Some sc_paying"
  by (simp add: sc_signed_def sc_world_paying_def sc_paying_def sc_world_booked_def)

text \<open>C4. Only an authentic capture confirms: unless the callback is a success signed on the card rail, or a
  successful notification from a trusted address, no booking becomes confirmed and no payment paid.\<close>

theorem uncaptured_callback_confirms_nothing:
  assumes "handleCallback env calm via cb (w, r) = (res, w', r')"
    and "\<And>p. find_first (\<lambda>p. p_gatewayBasketId p = Some (cb_basketId cb)) (payments (w_db w)) = Some p \<Longrightarrow>
      \<not> authentic_success env via cb p"
  shows "confirmed_ids (w_db w') \<subseteq> confirmed_ids (w_db w) \<and> paid_ids (w_db w') \<subseteq> paid_ids (w_db w)"
  using assms by (rule not_captured_confirms_nothing)

lemma sc_naps_is_no_capture: "\<not> authentic_success sc_pay Browser (sc_signed NAPS ''00'') sc_paying"
  by code_simp

theorem uncaptured_callback_confirms_nothing_witness:
  "confirmed_ids (w_db (fst (snd (handleCallback sc_pay calm Browser (sc_signed NAPS ''00'') (sc_world_paying, sc_redis)))))
   \<subseteq> confirmed_ids (w_db sc_world_paying)"
proof -
  let ?x = "handleCallback sc_pay calm Browser (sc_signed NAPS ''00'') (sc_world_paying, sc_redis)"
  have "?x = (fst ?x, fst (snd ?x), snd (snd ?x))" by simp
  from uncaptured_callback_confirms_nothing [OF this] show ?thesis
    using sc_naps_is_no_capture by (simp add: sc_find_paying)
qed

text \<open>C3. Captured money is accounted for: an authentic capture for a payment that is still open or was given
  up ends with the payment paid and its booking confirmed (re-created from the snapshot or un-cancelled
  where needed), or with the refund of the whole amount queued, whatever other writers did to the
  booking between reading the payment and the transaction.\<close>

theorem captured_money_is_accounted_for:
  assumes "g_enabled env"
    and "find_first (\<lambda>p. p_gatewayBasketId p = Some (cb_basketId cb)) (payments (w_db w)) = Some p"
    and "p_status p \<in> {PAY_PENDING, FAILED}" "authentic_success env via cb p" "p_bookingId p = Some bid"
    and "payment_row (p_id p) (rc_tx rc (w_db w)) = Some q" "p_status q \<in> {PAY_PENDING, FAILED}"
    and "p_bookingId q = Some bid" "p_amount q = p_amount p" "p_recreatedAt q = None"
    and "rc_recovery rc = id" "rc_recovery_tx rc = id"
    and "handleCallback env rc via cb (w, r) = (res, w', r')"
  shows "isInr res \<and> (\<exists>p'. payment_row (p_id p) (w_db w') = Some p' \<and>
     (p_status p' = SUCCESS \<and> has_booking (w_db w') bid \<or>
      p_status p' = REFUND_PENDING \<and> p_refundAmount p' = Some (p_amount p)))"
  using captured_accounts [OF assms] unfolding accounted_def .

definition sc_deleted :: races where
  "sc_deleted = \<lparr>rc_tx = (\<lambda>d. d\<lparr>bookings := []\<rparr>), rc_recovery = id, rc_recovery_tx = id\<rparr>"

lemma sc_card_is_capture: "authentic_success sc_pay Browser (sc_signed CARD ''00'') sc_paying"
  by code_simp

lemma sc_paying_simps [simp]:
  "p_id sc_paying = 101" "p_status sc_paying = PAY_PENDING" "p_bookingId sc_paying = Some 100" "p_amount sc_paying = 111"
  "p_recreatedAt sc_paying = None" "payments (w_db sc_world_paying) = [sc_paying]" "g_enabled sc_pay"
  "bookings (w_db sc_world_paying) = [sc_booking]" "p_gatewayBasketId sc_paying = Some ''B1''"
  "p_gatewayTxnId sc_paying = None"
  by (simp_all add: sc_paying_def sc_payment_def new_payment_def sc_env_def sc_world_paying_def sc_pay_def
      sc_world_booked_def sc_db_booked_def)

theorem captured_money_is_accounted_for_witness:
  "isInr (fst (handleCallback sc_pay sc_deleted Browser (sc_signed CARD ''00'') (sc_world_paying, sc_redis)))"
proof -
  let ?x = "handleCallback sc_pay sc_deleted Browser (sc_signed CARD ''00'') (sc_world_paying, sc_redis)"
  have x: "?x = (fst ?x, fst (snd ?x), snd (snd ?x))" by simp
  have "payment_row (p_id sc_paying) (rc_tx sc_deleted (w_db sc_world_paying)) = Some sc_paying"
    by (simp add: sc_deleted_def payment_row_def)
  from captured_money_is_accounted_for [OF _ sc_find_paying _ sc_card_is_capture _ this _ _ _ _ _ _ x]
  show ?thesis by (simp add: sc_deleted_def)
qed

text \<open>A decline gives everything back and keeps the evidence: after a verified failure the booking is gone,
  its points and its coupon use are returned, and the payment row stays, failed, with basket and
  snapshot, so that a late capture can still be matched.\<close>

theorem decline_gives_back:
  assumes "g_enabled env" "unique_on p_id (payments (w_db w))"
    and p: "find_first (\<lambda>p. p_gatewayBasketId p = Some (cb_basketId cb)) (payments (w_db w)) = Some p"
    and "p_status p = PAY_PENDING" "judge env via cb p = Judged True False False" "p_bookingId p = Some bid"
    and "points_ok (w_db w)" "find_first (\<lambda>b. b_id b = bid) (bookings (w_db w)) = Some b"
    and "0 \<le> b_pointsRedeemed b" "two_dp (b_pointsRedeemed b)" "balance_of (w_db w) (b_customerId b) = Some y"
    and "\<not> ledger_taken (w_db w) (Some bid) CANCEL_REFUND_UNPAID"
    and h: "handleCallback env calm via cb (w, r) = (res, w', r')"
  shows "res = Inr (answer_failed (Some bid) (mapErrorMessage (cb_errCode cb))) \<and>
    bookings (w_db w') = delete_many (\<lambda>b. b_id b = bid) (bookings (w_db w)) \<and>
    payment_row (p_id p) (w_db w') = Some (p\<lparr>p_status := FAILED, p_idempotencyKey := None\<rparr>) \<and>
    points_ok (w_db w') \<and> balance_of (w_db w') (b_customerId b) = Some (y + b_pointsRedeemed b) \<and>
    coupons (w_db w') = coupons (refundCouponUsage (w_db w) (b_couponCode b) (b_customerId b) (g_now env))"
proof -
  have "p \<in> set (payments (w_db w))" using find_first_Some [OF p] by simp
  then have row: "payment_row (p_id p) (w_db w) = Some p"
    using find_first_key [OF assms(2)] by (simp add: payment_row_def)
  obtain tx' where "failure_tx env p (w_db w) = Inr (Settled None (Some (b_activityId b)), tx')"
    and "bookings tx' = delete_many (\<lambda>b. b_id b = bid) (bookings (w_db w))"
      "payment_row (p_id p) tx' = Some (p\<lparr>p_status := FAILED, p_idempotencyKey := None\<rparr>)"
      "points_ok tx'" "balance_of tx' (b_customerId b) = Some (y + b_pointsRedeemed b)"
      "coupons tx' = coupons (refundCouponUsage (w_db w) (b_couponCode b) (b_customerId b) (g_now env))"
    using decline_returns [OF row assms(4,6-12), of env] by auto
  then show ?thesis using h assms(1,4-6) p
    by (auto simp: handleCallback_def settle_callback_def transaction_def recover_def Let_def)
qed

lemma sc_declined: "judge sc_pay Browser (sc_signed CARD ''97'') sc_paying = Judged True False False"
  by code_simp

lemma sc_paying_points: "points_ok (w_db sc_world_paying)" "balance_of (w_db sc_world_paying) 7 = Some 80"
  by (simp_all add: sc_world_paying_def sc_world_booked_def sc_db_booked_def sc_db_coupon_def sc_db_def balance_of_def
      points_ok_def unique_on_def rows_ok_def ledger_sum_def sum_rows_def sc_grant_def sc_customer_def sc_vendor_user_def
      two_dp_def All_less_Suc nth_Cons' Let_def exI [of _ 8000])

theorem decline_gives_back_witness:
  "balance_of (w_db (fst (snd (handleCallback sc_pay calm Browser (sc_signed CARD ''97'') (sc_world_paying, sc_redis))))) 7
   = Some 100"
proof -
  let ?x = "handleCallback sc_pay calm Browser (sc_signed CARD ''97'') (sc_world_paying, sc_redis)"
  have x: "?x = (fst ?x, fst (snd ?x), snd (snd ?x))" by simp
  have b: "find_first (\<lambda>b. b_id b = 100) (bookings (w_db sc_world_paying)) = Some sc_booking" by simp
  have y: "balance_of (w_db sc_world_paying) (b_customerId sc_booking) = Some 80" using sc_paying_points by simp
  have n: "\<not> ledger_taken (w_db sc_world_paying) (Some 100) CANCEL_REFUND_UNPAID"
    by (simp add: ledger_taken_def sc_world_paying_def sc_world_booked_def sc_db_booked_def sc_grant_def)
  from decline_gives_back [OF _ _ sc_find_paying _ sc_declined _ sc_paying_points(1) b _ _ y n x]
  show ?thesis by (simp add: unique_on_def two_dp_of_int [of 20, simplified])
qed

text \<open>A second capture is never silent: an authentic success with another transaction id for a payment
  already paid leaves the database alone and writes a financial audit row, and pages the admins the
  first time; a repetition of the recorded capture changes nothing.\<close>

theorem second_capture_is_flagged:
  assumes "g_enabled env" "unique_on p_id (payments (w_db w))"
    and p: "find_first (\<lambda>p. p_gatewayBasketId p = Some (cb_basketId cb)) (payments (w_db w)) = Some p"
    and "p_status p = SUCCESS" "authentic_success env via cb p"
    and "js_trim (or_empty (p_gatewayTxnId p)) \<noteq> []" "js_trim (or_empty (cb_txn cb)) \<noteq> []"
    and h: "handleCallback env rc via cb (w, r) = (res, w', r')"
  shows "res = Inr (answer (p_bookingId p) OUTCOME_SUCCESS) \<and> w_db w' = w_db w \<and>
    (if js_trim (or_empty (cb_txn cb)) = js_trim (or_empty (p_gatewayTxnId p)) then w' = w \<and> r' = r
     else \<exists>fx. w_fx w' = w_fx w @ Audit SYSTEM gateway_actor PAYMENT_DUPLICATE_CAPTURE (p_id p) # fx \<and>
       (redis_get r (DupCapture (p_id p) (js_trim (or_empty (cb_txn cb)))) = None \<longrightarrow> fx = [NotifyAdmins SYSTEM_NOTICE]))"
proof -
  have "p \<in> set (payments (w_db w))" using find_first_Some [OF p] by simp
  then have row: "payment_row (p_id p) (w_db w) = Some p"
    using find_first_key [OF assms(2)] by (simp add: payment_row_def)
  have s: "res = Inr (answer (p_bookingId p) OUTCOME_SUCCESS)"
    "flagDuplicateCaptureIfDifferentTxn env (p_id p) (cb_txn cb) (w, r) = (w', r')"
    using h assms(1,4,5) p by (simp_all add: handleCallback_def)
  show ?thesis
  proof (cases "js_trim (or_empty (cb_txn cb)) = js_trim (or_empty (p_gatewayTxnId p))")
    case True
    then show ?thesis using s flag_same_txn [OF row] by simp
  next
    case False
    then show ?thesis using s(1) flag_other_txn [OF row assms(6,7) False s(2)] by auto
  qed
qed

definition sc_world_paid :: world where
  "sc_world_paid = sc_world_paying\<lparr>w_db := (w_db sc_world_paying)\<lparr>payments :=
     [sc_paying\<lparr>p_status := SUCCESS, p_gatewayTxnId := Some ''T0''\<rparr>]\<rparr>\<rparr>"

theorem second_capture_is_flagged_witness:
  "Audit SYSTEM gateway_actor PAYMENT_DUPLICATE_CAPTURE 101 \<in>
     set (w_fx (fst (snd (handleCallback sc_pay calm Browser (sc_signed CARD ''00'') (sc_world_paid, sc_redis)))))"
proof -
  let ?x = "handleCallback sc_pay calm Browser (sc_signed CARD ''00'') (sc_world_paid, sc_redis)"
  let ?p = "sc_paying\<lparr>p_status := SUCCESS, p_gatewayTxnId := Some ''T0''\<rparr>"
  have x: "?x = (fst ?x, fst (snd ?x), snd (snd ?x))" by simp
  have f: "find_first (\<lambda>p. p_gatewayBasketId p = Some (cb_basketId (sc_signed CARD ''00''))) (payments (w_db sc_world_paid)) = Some ?p"
    by (simp add: sc_world_paid_def sc_signed_def)
  have a: "authentic_success sc_pay Browser (sc_signed CARD ''00'') ?p"
    using sc_card_is_capture by (simp add: authentic_success_def)
  have t: "js_trim (or_empty (cb_txn (sc_signed CARD ''00''))) = ''T1''" "js_trim (or_empty (p_gatewayTxnId ?p)) = ''T0''"
    by (simp_all add: sc_signed_def js_trim_def js_space_def)
  show ?thesis
    using second_capture_is_flagged [OF _ _ f _ a _ _ x] t by (auto simp: sc_world_paid_def unique_on_def)
qed

section \<open>Handing over to the gateway\<close>

lemma stamp_payment_simps [simp]:
  "p_id (stamp_payment env read key p) = p_id p" "p_status (stamp_payment env read key p) = p_status p"
  "p_amount (stamp_payment env read key p) = p_amount p" "p_bookingId (stamp_payment env read key p) = p_bookingId p"
  "p_gatewayBasketId (stamp_payment env read key p) =
     (if p_gatewayBasketId read = None then Some (g_newBasket env) else p_gatewayBasketId p)"
  "p_firstInitiatedAt (stamp_payment env read key p) =
     (if p_gatewayBasketId read = None then Some (g_now env) else p_firstInitiatedAt p)"
  by (simp_all add: stamp_payment_def Let_def)

lemma payable_Inr [initiate]:
  "payable env d bid u = Inr (b, p) \<Longrightarrow>
   b \<in> set (bookings d) \<and> b_id b = bid \<and> b_customerId b = u \<and> b_status b = PENDING \<and> b_otpVerifiedAt b \<noteq> None \<and>
   (\<forall>t. b_reservedUntil b = Some t \<longrightarrow> g_now env + RESERVATION_BUFFER \<le> t) \<and>
   b_paymentId b = Some (p_id p) \<and> payment_row (p_id p) d = Some p \<and> p_status p = PAY_PENDING"
  using find_first_Some [of "\<lambda>b. b_id b = bid \<and> b_customerId b = u" "bookings d" b]
    find_first_Some [of "\<lambda>q. p_id q = the (b_paymentId b)" "payments d" p]
  by (auto simp: payable_def payment_row_def throw_if_def split: option.splits if_splits)

lemma initiate_Inr [initiate]:
  assumes "initiatePayment env ifr bid u key (w, r, brk) = (Inr form, w', r', brk')"
  obtains b p q retry tok where "payable env (w_db w) bid u = Inr (b, p)"
    "payment_row (p_id p) (ifr (w_db w)) = Some q"
    "w_db w' = set_payment (p_id p) (stamp_payment env p key) (ifr (w_db w))"
    "form = payment_form_of env (w_db w') u b (title_of (w_db w) b) p
       (case p_gatewayBasketId p of Some x \<Rightarrow> x | None \<Rightarrow> g_newBasket env) tok retry"
  using assms
  by (auto simp: initiatePayment_def initiate_locked_def stamp_row_def throw_if_def Let_def and_then_Inr
      split: if_splits sum.splits option.splits prod.splits)

lemma form_fields [initiate]:
  "map_of (pf_fields (payment_form_of env d u b t p basket tok retry)) ''BASKET_ID'' = Some basket"
  "map_of (pf_fields (payment_form_of env d u b t p basket tok retry)) ''TXNAMT'' = Some (to_fixed2 (p_amount p))"
  by (simp_all add: payment_form_of_def buildFormPayload_def Let_def)

text \<open>A hand-off quotes the amount on file under a basket that never changes: it succeeds only for the
  customer's own pending booking with a verified code and at least a minute of reservation left; basket
  and first hand-off are set once, every later hand-off posts the same basket, and neither status nor
  amount nor any booking is touched.\<close>

theorem initiate_keeps_basket:
  assumes "initiatePayment env id bid u key (w, r, brk) = (Inr form, w', r', brk')"
  shows "\<exists>b p p'. b \<in> set (bookings (w_db w)) \<and> b_id b = bid \<and> b_customerId b = u \<and> b_status b = PENDING \<and>
    b_otpVerifiedAt b \<noteq> None \<and> (\<forall>t. b_reservedUntil b = Some t \<longrightarrow> g_now env + RESERVATION_BUFFER \<le> t) \<and>
    payment_row (p_id p) (w_db w) = Some p \<and> payment_row (p_id p) (w_db w') = Some p' \<and>
    p_gatewayBasketId p' = map_of (pf_fields form) ''BASKET_ID'' \<and>
    map_of (pf_fields form) ''TXNAMT'' = Some (to_fixed2 (p_amount p)) \<and>
    (p_gatewayBasketId p \<noteq> None \<longrightarrow>
       p_gatewayBasketId p' = p_gatewayBasketId p \<and> p_firstInitiatedAt p' = p_firstInitiatedAt p) \<and>
    p_status p' = PAY_PENDING \<and> p_amount p' = p_amount p \<and> bookings (w_db w') = bookings (w_db w)"
proof (rule initiate_Inr [OF assms])
  fix b p q retry tok
  assume pay: "payable env (w_db w) bid u = Inr (b, p)" and row: "payment_row (p_id p) (id (w_db w)) = Some q"
    and d: "w_db w' = set_payment (p_id p) (stamp_payment env p key) (id (w_db w))"
    and form: "form = payment_form_of env (w_db w') u b (title_of (w_db w) b) p
       (case p_gatewayBasketId p of Some x \<Rightarrow> x | None \<Rightarrow> g_newBasket env) tok retry"
  note pb = payable_Inr [OF pay]
  then have "q = p" using row by simp
  then have row': "payment_row (p_id p) (w_db w') = Some (stamp_payment env p key p)"
    using row by (simp add: d payment_row_def set_payment_def find_first_update)
  show ?thesis
    using pb row' form form_fields by (intro exI [of _ b] exI [of _ p] exI [of _ "stamp_payment env p key p"])
      (auto simp: d split: option.splits)
qed

definition sc_world_unpaid :: world where
  "sc_world_unpaid = sc_world_booked\<lparr>w_db := sc_db_booked\<lparr>bookings := [sc_booking\<lparr>b_otpVerifiedAt := Some sc_now\<rparr>]\<rparr>\<rparr>"

definition sc_breaker :: breaker where
  "sc_breaker = \<lparr>k_state = CLOSED, k_failures = 0, k_openedAt = 0, k_probe = False\<rparr>"

lemma sc_initiate: "isInr (fst (initiatePayment sc_pay id 100 7 None (sc_world_unpaid, sc_redis, sc_breaker)))"
  by code_simp

theorem initiate_keeps_basket_witness:
  "\<exists>p'. payment_row 101 (w_db (fst (snd (initiatePayment sc_pay id 100 7 None (sc_world_unpaid, sc_redis, sc_breaker))))) = Some p' \<and>
     p_status p' = PAY_PENDING"
proof -
  let ?x = "initiatePayment sc_pay id 100 7 None (sc_world_unpaid, sc_redis, sc_breaker)"
  obtain form where "fst ?x = Inr form" using sc_initiate by (auto simp: isInr_iff)
  then have x: "?x = (Inr form, fst (snd ?x), fst (snd (snd ?x)), snd (snd (snd ?x)))" by (metis prod.collapse)
  have "payments (w_db sc_world_unpaid) = [sc_payment]"
    by (simp add: sc_world_unpaid_def sc_db_booked_def)
  moreover have "p_id sc_payment = 101" by (simp add: sc_payment_def new_payment_def sc_env_def)
  ultimately show ?thesis using initiate_keeps_basket [OF x] by (auto simp: payment_row_def split: if_splits)
qed

text \<open>The basket is read before the lock is taken, so the lock does not protect it: when a second hand-off
  has read the payment before the first one stored its basket, it stores another one, and a capture
  for the first form is answered as an unknown payment.\<close>

theorem concurrent_initiate_loses_basket:
  assumes "initiatePayment env1 id bid u key1 (w, r, brk) = (Inr form1, w1, r1, brk1)"
    and "initiatePayment env2 (\<lambda>_. w_db w1) bid u key2 (w, r1, brk1) = (Inr form2, w2, r2, brk2)"
    and "\<And>p. p \<in> set (payments (w_db w)) \<Longrightarrow> p_gatewayBasketId p \<noteq> Some (g_newBasket env1)"
    and "\<And>b p. find_first (\<lambda>b. b_id b = bid \<and> b_customerId b = u) (bookings (w_db w)) = Some b \<Longrightarrow>
       b_paymentId b = Some (p_id p) \<Longrightarrow> payment_row (p_id p) (w_db w) = Some p \<Longrightarrow> p_gatewayBasketId p = None"
    and "g_newBasket env1 \<noteq> g_newBasket env2" "cb_basketId cb = g_newBasket env1" "g_enabled env3"
  shows "map_of (pf_fields form1) ''BASKET_ID'' = Some (cb_basketId cb) \<and>
    handleCallback env3 rc via cb (w2, r2) = (Inl (BadPayment CallbackUnknownBasket), w2, r2)"
proof -
  obtain b p q retry tok where pay: "payable env1 (w_db w) bid u = Inr (b, p)"
    and d1: "w_db w1 = set_payment (p_id p) (stamp_payment env1 p key1) (w_db w)"
    and f1: "form1 = payment_form_of env1 (w_db w1) u b (title_of (w_db w) b) p
       (case p_gatewayBasketId p of Some x \<Rightarrow> x | None \<Rightarrow> g_newBasket env1) tok retry"
    by (rule initiate_Inr [OF assms(1)]) auto
  obtain b' p' q' retry' tok' where pay': "payable env2 (w_db w) bid u = Inr (b', p')"
    and d2: "w_db w2 = set_payment (p_id p') (stamp_payment env2 p' key2) (w_db w1)"
    by (rule initiate_Inr [OF assms(2)]) auto
  have same: "p' = p" "find_first (\<lambda>b. b_id b = bid \<and> b_customerId b = u) (bookings (w_db w)) = Some b"
    using pay pay' by (auto simp: payable_def throw_if_def split: option.splits if_splits)
  have none: "p_gatewayBasketId p = None" using assms(4) [OF same(2), of p] payable_Inr [OF pay] by simp
  have "\<exists>y \<in> set (payments (w_db w)). p_gatewayBasketId x =
      (if p_id y = p_id p then Some (g_newBasket env2) else p_gatewayBasketId y)" if "x \<in> set (payments (w_db w2))" for x
  proof -
    have "payments (w_db w2) = map (\<lambda>y. if p_id y = p_id p
        then stamp_payment env2 p key2 (stamp_payment env1 p key1 y) else y) (payments (w_db w))"
      by (simp add: d2 d1 same(1) set_payment_def update_many_def comp_def if_distrib cong: if_cong)
    then show ?thesis using that none by auto
  qed
  then have "p_gatewayBasketId x \<noteq> Some (g_newBasket env1)" if "x \<in> set (payments (w_db w2))" for x
    using that assms(3,5) by (metis option.inject)
  then have "find_first (\<lambda>x. p_gatewayBasketId x = Some (cb_basketId cb)) (payments (w_db w2)) = None"
    by (simp add: find_first_None assms(6))
  then show ?thesis using assms(6,7) none by (simp add: handleCallback_def f1 form_fields)
qed

definition sc_pay2 :: pay_env where
  "sc_pay2 = sc_pay\<lparr>g_newBasket := ''B2'', g_lockToken := 204\<rparr>"

text \<open>The other request has left \<open>d\<close> behind, whatever there was before.\<close>

definition overtaken :: "db \<Rightarrow> interference" where
  "overtaken d d0 = d"

fun second_request :: "(exn + payment_form) \<times> world \<times> redis \<times> breaker \<Rightarrow> (exn + payment_form) \<times> world \<times> redis \<times> breaker" where
  "second_request (f, w1, r1, k1) =
     initiatePayment sc_pay2 (overtaken (w_db w1)) 100 7 None (sc_world_unpaid, r1, k1)"

lemma sc_initiate_twice:
  "isInr (fst (second_request (initiatePayment sc_pay id 100 7 None (sc_world_unpaid, sc_redis, sc_breaker))))"
  by code_simp

theorem concurrent_initiate_loses_basket_witness:
  "\<exists>w2 r2. handleCallback sc_pay calm Browser (sc_signed CARD ''00'') (w2, r2) =
     (Inl (BadPayment CallbackUnknownBasket), w2, r2)"
proof -
  obtain f w1 r1 k1 where x: "initiatePayment sc_pay id 100 7 None (sc_world_unpaid, sc_redis, sc_breaker) = (f, w1, r1, k1)"
    by (metis prod.exhaust)
  obtain f2 w2 r2 k2 where y: "initiatePayment sc_pay2 (\<lambda>_. w_db w1) 100 7 None (sc_world_unpaid, r1, k1) = (f2, w2, r2, k2)"
    by (metis prod.exhaust)
  have ov: "overtaken (w_db w1) = (\<lambda>_. w_db w1)" by (simp add: overtaken_def fun_eq_iff)
  obtain g where g: "f = Inr g" using sc_initiate x by (auto simp: isInr_iff)
  obtain h where h: "f2 = Inr h" using sc_initiate_twice x y ov by (auto simp: isInr_iff)
  have p: "payments (w_db sc_world_unpaid) = [sc_payment]" "p_gatewayBasketId sc_payment = None"
    by (simp_all add: sc_world_unpaid_def sc_db_booked_def sc_payment_def new_payment_def)
  have "p_gatewayBasketId q = None" if "payment_row n (w_db sc_world_unpaid) = Some q" for n q
    using that p by (auto simp: payment_row_def split: if_splits)
  then show ?thesis
    using concurrent_initiate_loses_basket [OF x [unfolded g] y [unfolded h], of "sc_signed CARD ''00''" sc_pay calm Browser] p
    by (auto simp: sc_pay2_def sc_pay_def sc_signed_def)
qed

section \<open>Expired reservations\<close>

lemma clash_sym: "clash b c = clash c b"
  by (auto simp: clash_def)

lemma clash_breaks_exclusive:
  assumes "b \<in> set (active_rows d now aid)" "c \<in> set (active_rows d now aid)" "b \<noteq> c" "clash b c"
  shows "\<not> units_exclusive d now aid"
proof -
  obtain i j where ij: "i < length (active_rows d now aid)" "j < length (active_rows d now aid)"
    "active_rows d now aid ! i = b" "active_rows d now aid ! j = c"
    using assms(1,2) by (metis in_set_conv_nth)
  then have "i < j \<or> j < i" using assms(3) by (metis linorder_neqE_nat)
  then show ?thesis
    using ij assms(4) clash_sym [of b c] by (auto simp: units_exclusive_def sorted_wrt_iff_nth_less)
qed

lemma settle_pending_confirms [callback]:
  assumes row: "payment_row (p_id p) (w_db w) = Some p" "p_status p \<in> {PAY_PENDING, FAILED}" "p_bookingId p = Some bid"
    and b: "find_first (\<lambda>b. b_id b = bid) (bookings (w_db w)) = Some b" "b_status b = PENDING"
    and s: "settle_callback env calm cb p True (w, r) = (res, w', r')"
  shows "bookings (w_db w') = update_many (\<lambda>b. b_id b = bid) (\<lambda>b. b\<lparr>b_status := CONFIRMED\<rparr>) (bookings (w_db w))"
proof -
  let ?sel = "\<lambda>r. p_id r = p_id p \<and> p_status r \<in> {PAY_PENDING, FAILED}"
  have "p \<in> set (payments (w_db w))" using find_first_Some row(1) by (fastforce simp: payment_row_def)
  then have "count_rows ?sel (payments (w_db w)) \<noteq> 0" using row(2) by (auto simp: count_rows_0)
  then show ?thesis using s b row(3)
    by (auto simp: settle_callback_def transaction_def success_tx_def recover_def update_booking_def Let_def)
qed

text \<open>A late capture is confirmed without looking at the calendar again: when the reservation of a still
  pending booking has expired, its unit may have been sold since, and confirming the capture then
  leaves two active bookings in one unit. (The recovery of deleted and cancelled bookings does check.)\<close>

theorem late_capture_oversells_unit:
  assumes "g_enabled env" "unique_on p_id (payments (w_db w))"
    and p: "find_first (\<lambda>p. p_gatewayBasketId p = Some (cb_basketId cb)) (payments (w_db w)) = Some p"
    and "p_status p \<in> {PAY_PENDING, FAILED}" "authentic_success env via cb p" "p_bookingId p = Some bid"
    and b: "find_first (\<lambda>b. b_id b = bid) (bookings (w_db w)) = Some b" "b_status b = PENDING"
    and c: "c \<in> set (bookings (w_db w))" "activeBookingFilter (g_now env) c" "b_activityId c = b_activityId b"
      "b_id c \<noteq> bid" "clash b c"
    and h: "handleCallback env calm via cb (w, r) = (res, w', r')"
  shows "\<not> units_exclusive (w_db w') (g_now env) (b_activityId b)"
proof -
  have "p \<in> set (payments (w_db w))" using find_first_Some [OF p] by simp
  then have row: "payment_row (p_id p) (w_db w) = Some p"
    using find_first_key [OF assms(2)] by (simp add: payment_row_def)
  obtain v n where j: "judge env via cb p = Judged v True n" "v" "\<not> n"
    using assms(5) by (auto simp: judge_def authentic_success_def card_success_def naps_success_def Let_def
        split: via.splits option.splits)
  have "settle_callback env calm cb p True (audit_coupon env p w, r) = (res, w', r')"
    using h assms(1,3,4) j by (auto simp: handleCallback_def)
  from settle_pending_confirms [OF _ assms(4,6) _ b(2) this] have bs: "bookings (w_db w') =
      update_many (\<lambda>b. b_id b = bid) (\<lambda>b. b\<lparr>b_status := CONFIRMED\<rparr>) (bookings (w_db w))"
    using row b(1) by simp
  let ?b = "b\<lparr>b_status := CONFIRMED\<rparr>"
  have mem: "b \<in> set (bookings (w_db w))" "b_id b = bid" using find_first_Some [OF b(1)] by auto
  have "?b \<in> set (active_rows (w_db w') (g_now env) (b_activityId b))"
    using mem by (auto simp: active_rows_def bs update_many_def)
  moreover have "c \<in> set (active_rows (w_db w') (g_now env) (b_activityId b))"
    using c by (auto simp: active_rows_def bs update_many_def)
  moreover have "?b \<noteq> c" using c(4) mem(2) by auto
  moreover have "clash ?b c" using c(5) by (simp add: clash_def)
  ultimately show ?thesis by (rule clash_breaks_exclusive)
qed

text \<open>An hour later the reservation of the stay has lapsed and another guest has the room.\<close>

definition sc_stay_paying :: payment where
  "sc_stay_paying = (new_payment sc_env ''QAR'' 111 PAY_PENDING METHOD_PENDING None)
     \<lparr>p_bookingId := Some 100, p_gatewayBasketId := Some ''B1''\<rparr>"

definition sc_rebooked :: booking where
  "sc_rebooked = stay_booking\<lparr>b_id := 300, b_ref := ''JDWL-2'', b_customerId := 9, b_status := CONFIRMED, b_paymentId := None\<rparr>"

definition sc_world_rebooked :: world where
  "sc_world_rebooked = stay_world\<lparr>w_db := stay_db\<lparr>bookings := [stay_booking, sc_rebooked], payments := [sc_stay_paying]\<rparr>\<rparr>"

definition sc_later :: pay_env where
  "sc_later = sc_pay\<lparr>g_now := sc_now + hour_ms\<rparr>"

lemma sc_later_capture: "authentic_success sc_later Browser (sc_signed CARD ''00'') sc_stay_paying"
  by code_simp

lemma sc_was_exclusive: "units_exclusive (w_db sc_world_rebooked) (g_now sc_later) 11"
proof -
  have "active_rows (w_db sc_world_rebooked) (g_now sc_later) 11 = [sc_rebooked]" by code_simp
  then show ?thesis by (simp add: units_exclusive_def)
qed

lemma sc_clash: "activeBookingFilter (g_now sc_later) sc_rebooked" "clash stay_booking sc_rebooked"
proof -
  have "stay_start < stay_end" by code_simp
  then show "clash stay_booking sc_rebooked" by (simp add: clash_def sc_rebooked_def)
  show "activeBookingFilter (g_now sc_later) sc_rebooked" by code_simp
qed

theorem late_capture_oversells_unit_witness:
  "units_exclusive (w_db sc_world_rebooked) (g_now sc_later) 11 \<and>
   \<not> units_exclusive (w_db (fst (snd (handleCallback sc_later calm Browser (sc_signed CARD ''00'') (sc_world_rebooked, sc_redis)))))
       (g_now sc_later) 11"
proof -
  let ?x = "handleCallback sc_later calm Browser (sc_signed CARD ''00'') (sc_world_rebooked, sc_redis)"
  have x: "?x = (fst ?x, fst (snd ?x), snd (snd ?x))" by simp
  have rows: "payments (w_db sc_world_rebooked) = [sc_stay_paying]" "bookings (w_db sc_world_rebooked) = [stay_booking, sc_rebooked]"
    by (simp_all add: sc_world_rebooked_def)
  have p: "p_gatewayBasketId sc_stay_paying = Some ''B1''" "p_status sc_stay_paying = PAY_PENDING"
    "p_bookingId sc_stay_paying = Some 100"
    by (simp_all add: sc_stay_paying_def new_payment_def)
  have f: "find_first (\<lambda>p. p_gatewayBasketId p = Some (cb_basketId (sc_signed CARD ''00''))) (payments (w_db sc_world_rebooked)) = Some sc_stay_paying"
    by (simp add: rows p sc_signed_def)
  have "\<not> units_exclusive (w_db (fst (snd ?x))) (g_now sc_later) (b_activityId stay_booking)"
    by (rule late_capture_oversells_unit [OF _ _ f _ sc_later_capture _ _ _ _ sc_clash(1) _ _ sc_clash(2) x, of 100])
      (simp_all add: rows p unique_on_def sc_rebooked_def sc_later_def)
  then show ?thesis using sc_was_exclusive by simp
qed

section \<open>The token request\<close>

text \<open>An attempt that the code takes for a failure of the gateway, and the breaker before the next attempt
  when the first \<open>n\<close> were sent and failed.\<close>

definition failed_attempt :: "pay_env \<Rightarrow> nat \<Rightarrow> bool" where
  "failed_attempt env i = (case g_fetch env i of Answer r \<Rightarrow> h_status r \<ge> 500 \<or> h_status r = 429 | _ \<Rightarrow> True)"

fun breaker_after :: "pay_env \<Rightarrow> breaker \<Rightarrow> nat \<Rightarrow> breaker" where
  "breaker_after env b 0 = b"
| "breaker_after env b (Suc n) =
     (case admit (g_breaker env) (g_startAt env (Suc n)) (breaker_after env b n) of
        Inl _ \<Rightarrow> breaker_after env b n
      | Inr b1 \<Rightarrow> settle (g_breaker env) (g_settleAt env (Suc n)) False (g_others env (Suc n) b1))"

definition admitted :: "pay_env \<Rightarrow> breaker \<Rightarrow> nat \<Rightarrow> bool" where
  "admitted env b i \<longleftrightarrow> isInr (admit (g_breaker env) (g_startAt env i) (breaker_after env b (i - 1)))"

text \<open>The attempts from the one after \<open>k\<close> on, when \<open>k\<close> were sent and failed.\<close>

definition attempts_ok :: "pay_env \<Rightarrow> breaker \<Rightarrow> nat \<Rightarrow> http_response option \<Rightarrow> nat \<Rightarrow> bool" where
  "attempts_ok env b k got sent \<longleftrightarrow> k + sent \<le> MAX_ATTEMPTS \<and>
     (\<forall>i \<in> {k <.. k + sent}. admitted env b i) \<and> (\<forall>i \<in> {k <..< k + sent}. failed_attempt env i) \<and>
     (case got of
        Some r \<Rightarrow> 0 < sent \<and> g_fetch env (k + sent) = Answer r \<and> \<not> failed_attempt env (k + sent)
      | None \<Rightarrow> (0 < sent \<longrightarrow> failed_attempt env (k + sent)) \<and> (k + sent = MAX_ATTEMPTS \<or> \<not> admitted env b (k + sent + 1)))"

lemma attempts_ok_again:
  assumes "attempts_ok env b (Suc k) got sent" "admitted env b (Suc k)" "failed_attempt env (Suc k)"
  shows "attempts_ok env b k got (Suc sent)"
proof -
  have "{k <.. k + Suc sent} = insert (Suc k) {Suc k <.. Suc k + sent}" by auto
  moreover have "{k <..< k + Suc sent} \<subseteq> insert (Suc k) {Suc k <..< Suc k + sent}" by auto
  moreover have "got = None \<Longrightarrow> failed_attempt env (k + Suc sent)" using assms by (cases sent) (auto simp: attempts_ok_def)
  ultimately show ?thesis using assms by (auto simp: attempts_ok_def split: option.splits)
qed

lemma token_attempts_ok:
  "k + n = MAX_ATTEMPTS \<Longrightarrow> token_attempts env n (breaker_after env b k) = (got, b', sent) \<Longrightarrow> attempts_ok env b k got sent"
proof (induction n arbitrary: k got b' sent)
  case 0
  then show ?case by (simp add: attempts_ok_def)
next
  case (Suc n)
  let ?b = "breaker_after env b k"
  have i: "MAX_ATTEMPTS - n = Suc k" using Suc.prems(1) by simp
  show ?case
  proof (cases "admit (g_breaker env) (g_startAt env (Suc k)) ?b")
    case (Inl w)
    then have "got = None" "sent = 0" using Suc.prems(2) by (simp_all add: i)
    then show ?thesis using Inl Suc.prems(1) by (simp add: attempts_ok_def admitted_def)
  next
    case (Inr b1)
    have adm: "admitted env b (Suc k)" by (simp add: admitted_def Inr)
    show ?thesis
    proof (cases "failed_attempt env (Suc k)")
      case True
      obtain b3 m where rest: "token_attempts env n (breaker_after env b (Suc k)) = (got, b3, m)" and m: "sent = Suc m"
        using Suc.prems(2) Inr True
        by (auto simp: i Let_def failed_attempt_def split: attempt.splits prod.splits if_splits)
      have "attempts_ok env b (Suc k) got m" using Suc.prems(1) rest by (intro Suc.IH) simp_all
      then show ?thesis unfolding m using adm True by (rule attempts_ok_again)
    next
      case False
      then obtain r where r: "g_fetch env (Suc k) = Answer r" "got = Some r" "sent = 1"
        using Suc.prems(2) Inr by (auto simp: i Let_def failed_attempt_def split: attempt.splits)
      have "{k <.. k + 1} = {Suc k}" "{k <..< k + 1} = {}" by auto
      then show ?thesis using r False adm Suc.prems(1) by (simp add: attempts_ok_def)
    qed
  qed
qed

lemma read_body_stops:
  "got \<le> PAY2M_MAX_RESPONSE_BYTES \<Longrightarrow> \<exists>pulled. chunks = pulled @ snd (read_body got chunks) \<and>
     (if got + length (concat chunks) \<le> PAY2M_MAX_RESPONSE_BYTES
      then fst (read_body got chunks) = Some pulled \<and> snd (read_body got chunks) = []
      else fst (read_body got chunks) = None \<and> pulled \<noteq> [] \<and> got + length (concat (butlast pulled)) \<le> PAY2M_MAX_RESPONSE_BYTES \<and>
        PAY2M_MAX_RESPONSE_BYTES < got + length (concat pulled))"
proof (induction chunks arbitrary: got)
  case (Cons chunk rest)
  show ?case
  proof (cases "got + length chunk \<le> PAY2M_MAX_RESPONSE_BYTES")
    case True
    obtain p where p: "rest = p @ snd (read_body (got + length chunk) rest)"
      "if got + length chunk + length (concat rest) \<le> PAY2M_MAX_RESPONSE_BYTES
       then fst (read_body (got + length chunk) rest) = Some p \<and> snd (read_body (got + length chunk) rest) = []
       else fst (read_body (got + length chunk) rest) = None \<and> p \<noteq> [] \<and>
         got + length chunk + length (concat (butlast p)) \<le> PAY2M_MAX_RESPONSE_BYTES \<and>
         PAY2M_MAX_RESPONSE_BYTES < got + length chunk + length (concat p)"
      using Cons.IH [OF True] by blast
    show ?thesis using True p by (intro exI [of _ "chunk # p"]) (auto simp: Let_def split: prod.splits if_splits)
  next
    case False
    then show ?thesis using Cons.prems by (intro exI [of _ "[chunk]"]) simp
  qed
qed simp

lemma response_cap: "PAY2M_MAX_RESPONSE_BYTES = 16384"
  by (simp add: PAY2M_MAX_RESPONSE_BYTES_def)

lemmas read_body_from_start = read_body_stops [of 0, OF le0, unfolded add_0 response_cap]

lemma read_body_kept: "fst (read_body 0 chunks) = (if length (concat chunks) \<le> 16384 then Some chunks else None)"
  using read_body_from_start [of chunks] by (auto split: if_splits)

lemma read_token_Inr: "read_token env r = Inr t \<longleftrightarrow> 200 \<le> h_status r \<and> h_status r \<le> 299 \<and>
    (case h_contentLength r of Some n \<Rightarrow> n \<le> 16384 | None \<Rightarrow> True) \<and>
    (\<exists>chunks. h_body r = Some chunks \<and> length (concat chunks) \<le> 16384 \<and>
      g_parse env (concat chunks) = JsonToken (Some t) \<and> t \<noteq> [])"
  by (auto simp: read_token_def Let_def throw_if_def response_cap read_body_kept
      split: option.splits token_json.splits if_splits)

text \<open>C40. The request of a token, exactly. At most three requests are sent, each admitted by the breaker in
  the state the earlier ones and all other requests have left it in; another follows only upon a time-out,
  a network failure, a 5xx or a 429. The answer is the first that is none of these; there is none just
  when three attempts failed or the breaker refused the next. A token comes only from an answer with a
  2xx status whose body, and declared length, are at most 16 KiB. A body is read no further than to the
  first chunk that exceeds this: what was read before fits, the rest of the stream is left unread, and
  nothing of it is used.\<close>

theorem token_request_bounded:
  "(case token_attempts env MAX_ATTEMPTS b of (got, b', sent) \<Rightarrow>
      sent \<le> 3 \<and> (\<forall>i. 1 \<le> i \<and> i \<le> sent \<longrightarrow> admitted env b i) \<and> (\<forall>i. 1 \<le> i \<and> i < sent \<longrightarrow> failed_attempt env i) \<and>
      (case got of
         Some r \<Rightarrow> 1 \<le> sent \<and> g_fetch env sent = Answer r \<and> \<not> failed_attempt env sent
       | None \<Rightarrow> (1 \<le> sent \<longrightarrow> failed_attempt env sent) \<and> (sent = 3 \<or> \<not> admitted env b (sent + 1))) \<and>
      (fst (getAccessToken env b) = Inr t \<longleftrightarrow> (\<exists>r. got = Some r \<and> 200 \<le> h_status r \<and> h_status r \<le> 299 \<and>
        (case h_contentLength r of Some n \<Rightarrow> n \<le> 16384 | None \<Rightarrow> True) \<and>
        (\<exists>cs. h_body r = Some cs \<and> length (concat cs) \<le> 16384 \<and> g_parse env (concat cs) = JsonToken (Some t) \<and> t \<noteq> [])))) \<and>
   (\<exists>pulled. chunks = pulled @ snd (read_body 0 chunks) \<and>
      (if length (concat chunks) \<le> 16384 then fst (read_body 0 chunks) = Some pulled \<and> snd (read_body 0 chunks) = []
       else fst (read_body 0 chunks) = None \<and> pulled \<noteq> [] \<and> length (concat (butlast pulled)) \<le> 16384 \<and>
         16384 < length (concat pulled)))"
proof
  show "\<exists>pulled. chunks = pulled @ snd (read_body 0 chunks) \<and>
      (if length (concat chunks) \<le> 16384 then fst (read_body 0 chunks) = Some pulled \<and> snd (read_body 0 chunks) = []
       else fst (read_body 0 chunks) = None \<and> pulled \<noteq> [] \<and> length (concat (butlast pulled)) \<le> 16384 \<and>
         16384 < length (concat pulled))"
    by (rule read_body_from_start)
next
  obtain got b' sent where run: "token_attempts env MAX_ATTEMPTS b = (got, b', sent)" by (metis prod_cases3)
  have "attempts_ok env b 0 got sent" using token_attempts_ok [of 0 MAX_ATTEMPTS env b] run by simp
  moreover have "fst (getAccessToken env b) = Inr t \<longleftrightarrow> (\<exists>r. got = Some r \<and> read_token env r = Inr t)"
    by (auto simp: getAccessToken_def run split: option.split)
  ultimately show "case token_attempts env MAX_ATTEMPTS b of (got, b', sent) \<Rightarrow>
      sent \<le> 3 \<and> (\<forall>i. 1 \<le> i \<and> i \<le> sent \<longrightarrow> admitted env b i) \<and> (\<forall>i. 1 \<le> i \<and> i < sent \<longrightarrow> failed_attempt env i) \<and>
      (case got of
         Some r \<Rightarrow> 1 \<le> sent \<and> g_fetch env sent = Answer r \<and> \<not> failed_attempt env sent
       | None \<Rightarrow> (1 \<le> sent \<longrightarrow> failed_attempt env sent) \<and> (sent = 3 \<or> \<not> admitted env b (sent + 1))) \<and>
      (fst (getAccessToken env b) = Inr t \<longleftrightarrow> (\<exists>r. got = Some r \<and> 200 \<le> h_status r \<and> h_status r \<le> 299 \<and>
        (case h_contentLength r of Some n \<Rightarrow> n \<le> 16384 | None \<Rightarrow> True) \<and>
        (\<exists>cs. h_body r = Some cs \<and> length (concat cs) \<le> 16384 \<and> g_parse env (concat cs) = JsonToken (Some t) \<and> t \<noteq> [])))"
    unfolding run prod.case read_token_Inr [symmetric]
    by (auto simp: attempts_ok_def MAX_ATTEMPTS_def Suc_le_eq split: option.splits)
qed

text \<open>
  Two answers 503 open the breaker at its second failure in a row, so that the third attempt is not made;
  of a stream of a small, a large and a further chunk the last is never read.
\<close>

definition sc_flaky :: pay_env where
  "sc_flaky = sc_pay\<lparr>g_breaker := \<lparr>k_threshold = 2, k_timeout = 30000, k_disabled = False\<rparr>,
     g_fetch := (\<lambda>i. Answer \<lparr>h_status = 503, h_contentLength = None, h_body = Some []\<rparr>)\<rparr>"

theorem token_request_bounded_witness:
  "(case token_attempts sc_flaky MAX_ATTEMPTS sc_breaker of (got, b', sent) \<Rightarrow>
      got = None \<and> sent = 2 \<and> admitted sc_flaky sc_breaker 2 \<and> failed_attempt sc_flaky 1 \<and> \<not> admitted sc_flaky sc_breaker 3) \<and>
   snd (read_body 0 [''ab'', replicate 20000 CHR ''x'', ''cd'']) = [''cd'']"
proof
  have r: "fst (token_attempts sc_flaky MAX_ATTEMPTS sc_breaker) = None" "snd (snd (token_attempts sc_flaky MAX_ATTEMPTS sc_breaker)) = 2"
    by code_simp+
  show "case token_attempts sc_flaky MAX_ATTEMPTS sc_breaker of (got, b', sent) \<Rightarrow>
      got = None \<and> sent = 2 \<and> admitted sc_flaky sc_breaker 2 \<and> failed_attempt sc_flaky 1 \<and> \<not> admitted sc_flaky sc_breaker 3"
    using token_request_bounded [of sc_flaky sc_breaker] r by (auto split: prod.splits)
  show "snd (read_body 0 [''ab'', replicate 20000 CHR ''x'', ''cd'']) = [''cd'']"
    by (simp add: response_cap)
qed

section \<open>Amounts below one half\<close>

text \<open>Below half a unit of currency the rounded rendering is \<open>0\<close>: a NAPS success signed over it reads as a card success.\<close>

lemma small_amounts_confuse_rails:
  assumes "signs env basketId (rail_tail NAPS ''0'' ''00'') key"
    and "no_collision env basketId (1 / 4) ''00'' (rail_tail NAPS ''0'' ''00'')"
  shows "resolveSignedErrCode env basketId (1 / 4) ''00'' key = Some (''00'', CARD)"
proof -
  have c: "candidates (1 / 4) ''00'' =
      concat (map (\<lambda>ec. [(ec, CARD, ''0.25'' @ ec), (ec, NAPS, ec @ ''0.25''), (ec, CARD, ''0.25'' @ ec), (ec, NAPS, ec @ ''0.25''),
        (ec, CARD, ''0'' @ ec), (ec, NAPS, ec @ ''0''), (ec, CARD, ''0.25'' @ ec), (ec, NAPS, ec @ ''0.25'')]) [''00'', ''00'', ''000''])"
    by code_simp
  have ne: "g_sha256 env (signed_message env basketId t) \<noteq> g_sha256 env (signed_message env basketId ''000'')"
    if "(e, rl, t) \<in> set (candidates (1 / 4) ''00'')" "t \<noteq> ''000''" for e rl t
    using that assms(2) by (fastforce simp: no_collision_def list_all_iff)
  have "g_sha256 env (signed_message env basketId ''0.2500'') \<noteq> g_sha256 env (signed_message env basketId ''000'')"
    "g_sha256 env (signed_message env basketId ''000.25'') \<noteq> g_sha256 env (signed_message env basketId ''000'')"
    using ne [of "''00''" CARD "''0.2500''"] ne [of "''00''" NAPS "''000.25''"] by (simp_all add: c)
  then show ?thesis using assms(1) by (simp add: resolveSignedErrCode_def c signs_def)
qed

text \<open>Holding a NAPS success makes an expired reservation count again.\<close>

lemma hold_revives_expired:
  assumes "find_first (\<lambda>b. b_id b = bid) (bookings d) = Some b" "b_status b = PENDING"
    and "b_reservedUntil b = Some t" "t < g_now env"
  shows "\<exists>b'. find_first (\<lambda>b. b_id b = bid) (bookings (hold_rows env bid d)) = Some b' \<and>
    activeBookingFilter (g_now env) b' \<and> \<not> activeBookingFilter (g_now env) b"
proof -
  let ?until = "g_now env + NAPS_HOLD_EXTENSION_MS"
  have u: "t < ?until" "g_now env \<le> ?until" using assms(4) by (simp_all add: NAPS_HOLD_EXTENSION_MS_def)
  have "find_first (\<lambda>b. b_id b = bid) (bookings (hold_rows env bid d)) = Some (b\<lparr>b_reservedUntil := Some ?until\<rparr>)"
    using row_update [OF assms(1), of "\<lambda>b. b\<lparr>b_reservedUntil := Some ?until\<rparr>"
        "\<lambda>b. b_status b = PENDING \<and> (case b_reservedUntil b of Some t \<Rightarrow> t < ?until | None \<Rightarrow> False)"] assms(2,3) u(1)
    by (simp add: hold_rows_def Let_def)
  then show ?thesis using assms(2-4) u(2) by simp
qed

end
