(* ===== verification/Payouts.thy ===== *)
theory Payouts
  imports Initiate
begin

text \<open>
  Paying vendors: eligibility and requests of \<open>apps/api/src/vendor/vendor.service.ts\<close>, and the admin's
  processing of requests and payments in \<open>apps/api/src/admin/admin.service.ts\<close>. A request moves from
  pending over approved to completed or rejected; money leaves only when payments are marked paid.
  Handlers that write outside a transaction take what other writers commit between their reads and
  their write.
\<close>

named_theorems payout \<open>facts about payouts\<close>

section \<open>Environment and rows\<close>

record payout_env =
  po_now :: ms
  po_minimum :: num
  po_cooldownDays :: num
  po_bufferDays :: int
  po_newId :: uid
  po_conflict :: bool

definition payout_cutoff :: "payout_env \<Rightarrow> ms" where
  "payout_cutoff env = po_now env - max 0 (po_bufferDays env) * day_ms"

definition in_flight :: "payout_request \<Rightarrow> bool" where
  "in_flight r \<longleftrightarrow> pr_status r = REQ_PENDING \<or> pr_status r = REQ_APPROVED"

definition payable_out :: "payment \<Rightarrow> bool" where
  "payable_out p \<longleftrightarrow> p_status p = SUCCESS \<and> p_payoutStatus p = UNPAID"

definition vendor_share :: "booking \<Rightarrow> num" where
  "vendor_share b = b_totalPrice b - b_commissionAmount b"

definition update_requests :: "(payout_request \<Rightarrow> bool) \<Rightarrow> (payout_request \<Rightarrow> payout_request) \<Rightarrow> db \<Rightarrow> db" where
  "update_requests sel f d = d\<lparr>payoutRequests := update_many sel f (payoutRequests d)\<rparr>"

definition resolveVendor :: "db \<Rightarrow> uid \<Rightarrow> exn + vendor" where
  "resolveVendor d userId =
     (case find_first (\<lambda>v. v_userId v = userId) (vendors d) of
        None \<Rightarrow> Inl (NotFound VendorNotFound)
      | Some v \<Rightarrow> if v_status v = VENDOR_SUSPENDED then Inl Forbidden else Inr v)"

section \<open>Eligibility\<close>

definition locked_payment_ids :: "db \<Rightarrow> uid \<Rightarrow> uid list" where
  "locked_payment_ids d vid =
     concat (map pr_paymentIds (find_many (\<lambda>r. pr_vendorId r = vid \<and> pr_status r \<in> {REQ_APPROVED, REQ_COMPLETED})
       (payoutRequests d)))"

definition eligible_bookings :: "payout_env \<Rightarrow> db \<Rightarrow> uid \<Rightarrow> booking list" where
  "eligible_bookings env d vid =
     find_many (\<lambda>b. b_vendorId b = vid \<and> b_end b < payout_cutoff env \<and>
       (case payment_of d b of
          None \<Rightarrow> False
        | Some p \<Rightarrow> payable_out p \<and> p_id p \<notin> set (locked_payment_ids d vid))) (bookings d)"

definition available_amount :: "payout_env \<Rightarrow> db \<Rightarrow> uid \<Rightarrow> num" where
  "available_amount env d vid =
     (let bs = eligible_bookings env d vid
      in max 0 (cents (sum_list (map b_totalPrice bs) - sum_list (map b_commissionAmount bs))))"

definition evaluatePayoutEligibility :: "payout_env \<Rightarrow> db \<Rightarrow> uid \<Rightarrow> payout_reason + num" where
  "evaluatePayoutEligibility env d vid =
     (case find_first (\<lambda>v. v_id v = vid) (vendors d) of
        None \<Rightarrow> Inl VendorSuspended
      | Some v \<Rightarrow>
          throw_if (v_status v = VENDOR_SUSPENDED) VendorSuspended
          (case find_first (\<lambda>r. pr_vendorId r = vid \<and> in_flight r) (payoutRequests d) of
             Some r \<Rightarrow> Inl (if pr_status r = REQ_PENDING then InflightPending else InflightApproved)
           | None \<Rightarrow>
               throw_if (\<not> v_bankDetails v) NoBankDetails
               (throw_if (po_cooldownDays env > 0 \<and>
                    (case v_bankDetailsChangedAt v of
                       None \<Rightarrow> False
                     | Some t \<Rightarrow> of_int (po_now env - t) < po_cooldownDays env * of_int day_ms))
                  BankDetailsRecentlyChanged
               (let available = available_amount env d vid in
                throw_if (available \<le> 0) NoBalance
                (throw_if (available < max 0 (po_minimum env)) BelowMinimum (Inr available))))))"

section \<open>The vendor's operations\<close>

definition payout_currency :: "db \<Rightarrow> vendor \<Rightarrow> string" where
  "payout_currency d v =
     (case find_first (\<lambda>c. co_id c = v_countryId v) (countries d) of Some c \<Rightarrow> co_currency c | None \<Rightarrow> ''QAR'')"

definition request_tx :: "payout_env \<Rightarrow> uid \<Rightarrow> num \<Rightarrow> string \<Rightarrow> db \<Rightarrow> exn + (payout_request \<times> db)" where
  "request_tx env vid amount currency tx =
     (let r = \<lparr>pr_id = po_newId env, pr_vendorId = vid, pr_amount = amount, pr_currency = currency,
               pr_status = REQ_PENDING, pr_note = None, pr_processedAt = None, pr_paymentIds = [],
               pr_createdAt = po_now env\<rparr>
      in if po_conflict env then Inl (BadPayout InflightPending)
         else if find_first (\<lambda>r. pr_vendorId r = vid \<and> in_flight r) (payoutRequests tx) \<noteq> None
         then Inl (BadPayout InflightPending)
         else Inr (r, tx\<lparr>payoutRequests := payoutRequests tx @ [r]\<rparr>))"

definition requestPayout :: "payout_env \<Rightarrow> interference \<Rightarrow> uid \<Rightarrow> world \<Rightarrow> (exn + payout_request) \<times> world" where
  "requestPayout env interfere userId w =
     (case resolveVendor (w_db w) userId of
        Inl ex \<Rightarrow> (Inl ex, w)
      | Inr v \<Rightarrow>
          (case evaluatePayoutEligibility env (w_db w) (v_id v) of
             Inl reason \<Rightarrow> (Inl (BadPayout reason), w)
           | Inr available \<Rightarrow>
               (case transaction (request_tx env (v_id v) available (payout_currency (w_db w) v))
                       (w\<lparr>w_db := interfere (w_db w)\<rparr>) of
                  (Inl ex, w1) \<Rightarrow> (Inl ex, w1)
                | (Inr r, w1) \<Rightarrow> (Inr r, emit [NotifyAdmins PAYOUT_REQUESTED] w1))))"

definition deletePayoutRequest :: "interference \<Rightarrow> uid \<Rightarrow> uid \<Rightarrow> world \<Rightarrow> (exn + unit) \<times> world" where
  "deletePayoutRequest interfere userId requestId w =
     (case resolveVendor (w_db w) userId of
        Inl ex \<Rightarrow> (Inl ex, w)
      | Inr v \<Rightarrow>
          (case find_first (\<lambda>r. pr_id r = requestId) (payoutRequests (w_db w)) of
             None \<Rightarrow> (Inl (NotFound PayoutRequestNotFound), w)
           | Some r \<Rightarrow>
               if pr_vendorId r \<noteq> v_id v then (Inl (NotFound PayoutRequestNotFound), w)
               else if pr_status r \<noteq> REQ_REJECTED then (Inl (BadPayout OnlyRejectedDeletable), w)
               else
                 let d = interfere (w_db w);
                     sel = (\<lambda>r. pr_id r = requestId \<and> pr_vendorId r = v_id v \<and> pr_status r = REQ_REJECTED)
                 in if count_rows sel (payoutRequests d) = 0
                    then (Inl (BadPayout RequestChanged), w\<lparr>w_db := d\<rparr>)
                    else (Inr (), w\<lparr>w_db := d\<lparr>payoutRequests := delete_many sel (payoutRequests d)\<rparr>\<rparr>)))"

section \<open>Processing a request\<close>

datatype request_action = APPROVE_REQUEST | REJECT_REQUEST | COMPLETE_REQUEST

fun allowed_action :: "request_status \<Rightarrow> request_action \<Rightarrow> bool" where
  "allowed_action REQ_PENDING a = (a = APPROVE_REQUEST \<or> a = REJECT_REQUEST)"
| "allowed_action REQ_APPROVED a = (a = COMPLETE_REQUEST)"
| "allowed_action _ a = False"

text \<open>The payments an approval may lock, oldest first; earlier requests are not looked at here.\<close>

definition approvable :: "payout_env \<Rightarrow> db \<Rightarrow> uid \<Rightarrow> (uid \<times> num) list" where
  "approvable env d vid =
     map (\<lambda>p. (p_id p, case booking_of_payment d (p_id p) of Some b \<Rightarrow> vendor_share b | None \<Rightarrow> 0))
       (sort_key p_createdAt (find_many (\<lambda>p. payable_out p \<and>
          (case booking_of_payment d (p_id p) of
             None \<Rightarrow> False
           | Some b \<Rightarrow> b_vendorId b = vid \<and> b_end b < payout_cutoff env)) (payments d)))"

fun lock_greedily :: "num \<Rightarrow> num \<Rightarrow> (uid \<times> num) list \<Rightarrow> num \<times> uid list" where
  "lock_greedily requested acc [] = (acc, [])"
| "lock_greedily requested acc ((pid, share) # rest) =
     (if share \<le> 0 then lock_greedily requested acc rest
      else if acc \<ge> requested then (acc, [])
      else (case lock_greedily requested (cents (acc + share)) rest of (got, ids) \<Rightarrow> (got, pid # ids)))"

definition trimmed :: "string option \<Rightarrow> string" where
  "trimmed s = js_trim (or_empty s)"

definition joined_note :: "string \<Rightarrow> string \<Rightarrow> string" where
  "joined_note base sys = (if base = [] then sys else base @ CHR 0x0A # sys)"

definition em_dash :: string where
  "em_dash = [CHR 0xE2, CHR 0x80, CHR 0x94]"

definition adjustment_note :: "num \<Rightarrow> num \<Rightarrow> string" where
  "adjustment_note requested final =
     ''[System: amount auto-adjusted from '' @ to_fixed2 requested @ '' to '' @ to_fixed2 final @ '' '' @ em_dash @
     '' bookings were refunded after this request was submitted]''"

definition approve_tx :: "payout_env \<Rightarrow> payout_request \<Rightarrow> string option \<Rightarrow> db \<Rightarrow> exn + (unit \<times> db)" where
  "approve_tx env r note tx =
     (case lock_greedily (pr_amount r) 0 (approvable env tx (pr_vendorId r)) of (accumulated, ids) \<Rightarrow>
      if accumulated \<le> 0 then Inl (BadPayout NoEligiblePayments)
      else
        let finalAmount = min (pr_amount r) accumulated;
            base = trimmed note;
            finalNote = (if finalAmount < pr_amount r then Some (joined_note base (adjustment_note (pr_amount r) finalAmount))
                         else if base = [] then None else Some base);
            sel = (\<lambda>x. pr_id x = pr_id r \<and> pr_status x = REQ_PENDING)
        in if count_rows sel (payoutRequests tx) = 0 then Inl (Conflict AlreadyProcessed)
           else Inr ((), update_requests sel (\<lambda>x. x\<lparr>pr_status := REQ_APPROVED, pr_amount := finalAmount, pr_note := finalNote,
                  pr_paymentIds := ids, pr_processedAt := Some (po_now env)\<rparr>) tx))"

definition still_payable :: "uid list \<Rightarrow> db \<Rightarrow> nat" where
  "still_payable ids d = count_rows (\<lambda>p. p_id p \<in> set ids \<and> payable_out p) (payments d)"

definition drift_note :: "nat \<Rightarrow> nat \<Rightarrow> string" where
  "drift_note drift total_count =
     ''[System: payments no longer eligible ('' @ decimal (int drift) @ '' of '' @ decimal (int total_count) @
     '' refunded after approval). Re-evaluate.]''"

text \<open>When a locked payment changed state, the request goes back to pending, and the call fails.\<close>

definition revert_drifted :: "payout_request \<Rightarrow> string option \<Rightarrow> nat \<Rightarrow> db \<Rightarrow> exn \<times> db" where
  "revert_drifted r note payable_count d =
     (let ids = pr_paymentIds r;
          base = js_trim (case note of Some s \<Rightarrow> s | None \<Rightarrow> or_empty (pr_note r));
          sel = (\<lambda>x. pr_id x = pr_id r \<and> pr_status x = REQ_APPROVED)
      in if count_rows sel (payoutRequests d) = 0 then (Conflict AlreadyProcessed, d)
         else (BadPayout LockedDrifted,
               update_requests sel (\<lambda>x. x\<lparr>pr_status := REQ_PENDING,
                 pr_note := Some (joined_note base (drift_note (length ids - payable_count) (length ids))),
                 pr_paymentIds := [], pr_processedAt := None\<rparr>) d))"

definition complete_tx :: "payout_env \<Rightarrow> payout_request \<Rightarrow> string option \<Rightarrow> db \<Rightarrow> exn + (unit \<times> db)" where
  "complete_tx env r note tx =
     (let sel = (\<lambda>x. pr_id x = pr_id r \<and> pr_status x = REQ_APPROVED)
      in if still_payable (pr_paymentIds r) tx \<noteq> length (pr_paymentIds r) then Inl (Conflict EligibilityChanged)
         else if count_rows sel (payoutRequests tx) = 0 then Inl (Conflict AlreadyProcessed)
         else Inr ((), update_requests sel (\<lambda>x. x\<lparr>pr_status := REQ_COMPLETED,
                pr_note := (case note of Some s \<Rightarrow> Some s | None \<Rightarrow> pr_note r), pr_processedAt := Some (po_now env)\<rparr>) tx))"

text \<open>The vendor is told; the join with the vendor row always succeeds (a foreign key).\<close>

definition tell_vendor :: "uid \<Rightarrow> notification \<Rightarrow> world \<Rightarrow> world" where
  "tell_vendor vid n w = (case vendor_user (w_db w) vid of Some u \<Rightarrow> emit [Notify u n] w | None \<Rightarrow> w)"

definition processPayoutRequest ::
  "payout_env \<Rightarrow> interference \<Rightarrow> uid \<Rightarrow> request_action \<Rightarrow> string option \<Rightarrow> world \<Rightarrow> (exn + unit) \<times> world" where
  "processPayoutRequest env interfere requestId action note w =
     (case find_first (\<lambda>r. pr_id r = requestId) (payoutRequests (w_db w)) of
        None \<Rightarrow> (Inl (NotFound PayoutRequestNotFound), w)
      | Some r \<Rightarrow>
          if \<not> allowed_action (pr_status r) action then (Inl (BadPayout BadTransition), w)
          else
            let w1 = w\<lparr>w_db := interfere (w_db w)\<rparr>;
                told = (\<lambda>m. case m of (Inl ex, w2) \<Rightarrow> (Inl ex, w2)
                                   | (Inr _, w2) \<Rightarrow> (Inr (), tell_vendor (pr_vendorId r) PAYOUT_PROCESSED w2))
            in case action of
                 APPROVE_REQUEST \<Rightarrow> told (transaction (approve_tx env r note) w1)
               | COMPLETE_REQUEST \<Rightarrow>
                   if pr_paymentIds r = [] then (Inl (BadPayout NoLockedPayments), w1)
                   else
                     let n = still_payable (pr_paymentIds r) (w_db w1)
                     in if n \<noteq> length (pr_paymentIds r)
                        then (case revert_drifted r note n (w_db w1) of (ex, d) \<Rightarrow> (Inl ex, w1\<lparr>w_db := d\<rparr>))
                        else told (transaction (complete_tx env r note) w1)
               | REJECT_REQUEST \<Rightarrow>
                   if find_first (\<lambda>x. pr_id x = requestId) (payoutRequests (w_db w1)) = None
                   then (Inl (NotFound PayoutRequestNotFound), w1)
                   else told (Inr (), w1\<lparr>w_db := update_requests (\<lambda>x. pr_id x = requestId)
                          (\<lambda>x. x\<lparr>pr_status := REQ_REJECTED, pr_note := note, pr_processedAt := Some (po_now env)\<rparr>) (w_db w1)\<rparr>))"

section \<open>Re-opening a request\<close>

fun revert_target :: "request_status \<Rightarrow> request_status \<Rightarrow> bool" where
  "revert_target REQ_APPROVED t = (t = REQ_PENDING)"
| "revert_target REQ_COMPLETED t = (t = REQ_PENDING \<or> t = REQ_APPROVED)"
| "revert_target REQ_REJECTED t = (t = REQ_PENDING)"
| "revert_target REQ_PENDING t = False"

definition reopened :: "request_status \<Rightarrow> payout_request \<Rightarrow> payout_request" where
  "reopened target x =
     (if target = REQ_PENDING then x\<lparr>pr_status := target, pr_paymentIds := [], pr_processedAt := None\<rparr>
      else x\<lparr>pr_status := target\<rparr>)"

definition revertPayoutRequest ::
  "interference \<Rightarrow> uid \<Rightarrow> request_status \<Rightarrow> uid \<Rightarrow> world \<Rightarrow> (exn + unit) \<times> world" where
  "revertPayoutRequest interfere requestId target adminUserId w =
     (case find_first (\<lambda>r. pr_id r = requestId) (payoutRequests (w_db w)) of
        None \<Rightarrow> (Inl (NotFound PayoutRequestNotFound), w)
      | Some r \<Rightarrow>
          if \<not> revert_target (pr_status r) target then (Inl (BadPayout BadTransition), w)
          else if find_first (\<lambda>x. pr_vendorId x = pr_vendorId r \<and> in_flight x \<and> pr_id x \<noteq> requestId)
                    (payoutRequests (w_db w)) \<noteq> None
          then (Inl (BadPayout RequestInFlight), w)
          else if pr_status r = REQ_COMPLETED \<and> pr_paymentIds r \<noteq> [] \<and>
                  still_payable (pr_paymentIds r) (w_db w) \<noteq> length (pr_paymentIds r)
          then (Inl (BadPayout AlreadyMarkedPaid), w)
          else
            let d = interfere (w_db w);
                sel = (\<lambda>x. pr_id x = requestId \<and> pr_status x = pr_status r)
            in if count_rows sel (payoutRequests d) = 0 then (Inl (BadPayout RequestChanged), w\<lparr>w_db := d\<rparr>)
               else (Inr (), tell_vendor (pr_vendorId r) PAYOUT_PROCESSED
                      (emit [Audit ADMIN adminUserId PAYOUT_REQUEST_REVERTED requestId]
                        (w\<lparr>w_db := update_requests sel (reopened target) d\<rparr>))))"

section \<open>Marking payments\<close>

text \<open>Payments submitted, each with its booking if there is one.\<close>

definition submitted :: "db \<Rightarrow> uid list \<Rightarrow> (payment \<times> booking option) list" where
  "submitted d ids = map (\<lambda>p. (p, booking_of_payment d (p_id p))) (find_many (\<lambda>p. p_id p \<in> set ids) (payments d))"

definition vendor_active :: "db \<Rightarrow> booking \<Rightarrow> bool" where
  "vendor_active d b =
     (case find_first (\<lambda>v. v_id v = b_vendorId b) (vendors d) of Some v \<Rightarrow> v_status v = VENDOR_ACTIVE | None \<Rightarrow> True)"

text \<open>Claimed by a request in flight: a pending one claims the whole vendor, an approved one its payments.\<close>

definition claimed_by_request :: "db \<Rightarrow> (payment \<times> booking option) list \<Rightarrow> payment \<times> booking option \<Rightarrow> bool" where
  "claimed_by_request d rows x =
     (case x of
        (p, None) \<Rightarrow> False
      | (p, Some b) \<Rightarrow>
          list_ex (\<lambda>r. pr_vendorId r = b_vendorId b \<and> pr_status r = REQ_PENDING) (payoutRequests d) \<or>
          list_ex (\<lambda>r. pr_status r = REQ_APPROVED \<and> p_id p \<in> set (pr_paymentIds r) \<and>
             list_ex (\<lambda>(q, c). case c of Some b' \<Rightarrow> b_vendorId b' = pr_vendorId r | None \<Rightarrow> False) rows) (payoutRequests d))"

definition settles :: "payout_env \<Rightarrow> db \<Rightarrow> uid list \<Rightarrow> payment \<Rightarrow> bool" where
  "settles env d ids p =
     (p_id p \<in> set ids \<and> payable_out p \<and>
      (case booking_of_payment d (p_id p) of Some b \<Rightarrow> b_end b < payout_cutoff env | None \<Rightarrow> False))"

definition in_escrow :: "payout_env \<Rightarrow> db \<Rightarrow> uid list \<Rightarrow> payment \<Rightarrow> bool" where
  "in_escrow env d ids p =
     (p_id p \<in> set ids \<and> payable_out p \<and>
      (case booking_of_payment d (p_id p) of Some b \<Rightarrow> payout_cutoff env \<le> b_end b | None \<Rightarrow> False))"

definition paid_vendors :: "db \<Rightarrow> payment list \<Rightarrow> uid list" where
  "paid_vendors d ps =
     remdups (concat (map (\<lambda>p. case booking_of_payment d (p_id p) of
        Some b \<Rightarrow> (case vendor_user d (b_vendorId b) of Some u \<Rightarrow> [u] | None \<Rightarrow> []) | None \<Rightarrow> []) ps))"

definition markPayoutsPaid ::
  "payout_env \<Rightarrow> interference \<Rightarrow> uid list \<Rightarrow> string option \<Rightarrow> world \<Rightarrow> (exn + nat) \<times> world" where
  "markPayoutsPaid env interfere ids bankTransferRef w =
     (let rows = submitted (w_db w) ids; ref = trimmed bankTransferRef in
      if list_ex (\<lambda>(p, b). case b of Some b \<Rightarrow> \<not> vendor_active (w_db w) b | None \<Rightarrow> False) rows
      then (Inl (BadPayout VendorNotPayable), w)
      else if list_ex (claimed_by_request (w_db w) rows) rows then (Inl (BadPayout RequestInFlight), w)
      else if ref = [] then (Inl (BadPayout BankRefRequired), w)
      else if list_ex (in_escrow env (w_db w) ids) (payments (w_db w)) then (Inl (BadPayout InEscrow), w)
      else
        let d = interfere (w_db w);
            settled = find_many (settles env d ids) (payments d);
            d1 = d\<lparr>payments := update_many (settles env d ids)
                   (\<lambda>p. p\<lparr>p_payoutStatus := PAID, p_paidAt := Some (po_now env), p_bankTransferRef := Some ref\<rparr>) (payments d)\<rparr>;
            underRef = count_rows (\<lambda>p. p_id p \<in> set ids \<and> p_payoutStatus p = PAID \<and> p_bankTransferRef p = Some ref) (payments d1);
            w1 = w\<lparr>w_db := d1\<rparr>;
            w2 = (if underRef < card (set ids) then emit [NotifyAdmins SYSTEM_NOTICE] w1 else w1)
        in (Inr (length settled), emit (map (\<lambda>u. Notify u PAYOUT_PROCESSED) (paid_vendors d1 settled)) w2))"

definition markPayoutUnpaid :: "interference \<Rightarrow> uid \<Rightarrow> uid \<Rightarrow> world \<Rightarrow> (exn + unit) \<times> world" where
  "markPayoutUnpaid interfere paymentId adminUserId w =
     (case payment_row paymentId (w_db w) of
        None \<Rightarrow> (Inl (NotFound PaymentNotFound), w)
      | Some p \<Rightarrow>
          if p_status p \<noteq> SUCCESS then (Inl (BadPayout PaymentNotPaidOut), w)
          else if p_payoutStatus p \<noteq> PAID then (Inl (BadPayout PaymentNotPaidOut), w)
          else if find_first (\<lambda>r. pr_status r \<in> {REQ_APPROVED, REQ_COMPLETED} \<and> paymentId \<in> set (pr_paymentIds r))
                    (payoutRequests (w_db w)) \<noteq> None
          then (Inl (BadPayout RequestInFlight), w)
          else
            let d = interfere (w_db w);
                sel = (\<lambda>q. p_id q = paymentId \<and> p_status q = SUCCESS \<and> p_payoutStatus q = PAID)
            in if count_rows sel (payments d) = 0 then (Inl (BadPayout RequestChanged), w\<lparr>w_db := d\<rparr>)
               else
                 let w1 = emit [Audit ADMIN adminUserId PAYOUT_REVERTED paymentId]
                       (w\<lparr>w_db := d\<lparr>payments := update_many sel (\<lambda>q. q\<lparr>p_payoutStatus := UNPAID, p_paidAt := None\<rparr>) (payments d)\<rparr>\<rparr>)
                 in (Inr (), case booking_of_payment (w_db w) paymentId of
                        Some b \<Rightarrow> tell_vendor (b_vendorId b) SYSTEM_NOTICE w1
                      | None \<Rightarrow> w1))"

end
