(* ===== verification/PayoutProps.thy ===== *)
theory PayoutProps
  imports Payouts Scenario
begin

text \<open>
  What the payout operations guarantee over any sequence of calls, and where paying out goes wrong:
  a payment of a completed request can be locked a second time, and two guards block each other.
\<close>

section \<open>At most one request in flight\<close>

definition requests_ok :: "payout_request list \<Rightarrow> bool" where
  "requests_ok rs \<longleftrightarrow> unique_on pr_id rs \<and>
     (\<forall>r \<in> set rs. \<forall>s \<in> set rs. in_flight r \<and> in_flight s \<and> pr_vendorId r = pr_vendorId s \<longrightarrow> pr_id r = pr_id s) \<and>
     (\<forall>r \<in> set rs. pr_status r = REQ_PENDING \<longrightarrow> pr_paymentIds r = [])"

lemma requests_ok_Nil [simp]: "requests_ok []"
  by (simp add: requests_ok_def unique_on_def)

text \<open>A request in flight is the only one of its vendor.\<close>

lemma in_flight_alone:
  "requests_ok rs \<Longrightarrow> r \<in> set rs \<Longrightarrow> s \<in> set rs \<Longrightarrow> in_flight r \<Longrightarrow> in_flight s \<Longrightarrow>
   pr_vendorId r = pr_vendorId s \<Longrightarrow> pr_id r = pr_id s"
  unfolding requests_ok_def by blast

lemma pending_unlocked: "requests_ok rs \<Longrightarrow> r \<in> set rs \<Longrightarrow> pr_status r = REQ_PENDING \<Longrightarrow> pr_paymentIds r = []"
  unfolding requests_ok_def by blast

text \<open>A change of one request that keeps its vendor and puts no second one in flight.\<close>

lemma requests_ok_update [payout]:
  assumes ok: "requests_ok rs"
    and keys: "\<And>r. pr_id (f r) = pr_id r" "\<And>r. pr_vendorId (f r) = pr_vendorId r"
    and empty: "\<And>r. sel r \<Longrightarrow> r \<in> set rs \<Longrightarrow> pr_status (f r) = REQ_PENDING \<Longrightarrow> pr_paymentIds (f r) = []"
    and alone: "\<And>r s. sel r \<Longrightarrow> r \<in> set rs \<Longrightarrow> in_flight (f r) \<Longrightarrow> s \<in> set rs \<Longrightarrow> in_flight s \<Longrightarrow>
      pr_vendorId s = pr_vendorId r \<Longrightarrow> pr_id s = pr_id r"
    and one: "\<And>r s. sel r \<Longrightarrow> sel s \<Longrightarrow> pr_id r = pr_id s"
  shows "requests_ok (update_many sel f rs)"
  unfolding requests_ok_def
proof (intro conjI ballI impI)
  show "unique_on pr_id (update_many sel f rs)"
    using ok by (simp add: update_many_unique keys requests_ok_def)
next
  fix x y
  assume x: "x \<in> set (update_many sel f rs)" and y: "y \<in> set (update_many sel f rs)"
    and h: "in_flight x \<and> in_flight y \<and> pr_vendorId x = pr_vendorId y"
  obtain r where r: "r \<in> set rs" "x = (if sel r then f r else r)" using x by (auto simp: update_many_mem)
  obtain s where s: "s \<in> set rs" "y = (if sel s then f s else s)" using y by (auto simp: update_many_mem)
  have "pr_id r = pr_id s"
  proof (cases "sel r")
    case True
    show ?thesis
    proof (cases "sel s")
      case True
      then show ?thesis using one \<open>sel r\<close> by blast
    next
      case False
      then show ?thesis using alone [of r s] True r s h keys by simp
    qed
  next
    case False
    show ?thesis
    proof (cases "sel s")
      case True
      then show ?thesis using alone [of s r] False r s h keys by simp
    next
      case no: False
      then show ?thesis using in_flight_alone [OF ok r(1) s(1)] r s h False by simp
    qed
  qed
  then show "pr_id x = pr_id y" using r s keys by simp
next
  fix x
  assume "x \<in> set (update_many sel f rs)" "pr_status x = REQ_PENDING"
  then show "pr_paymentIds x = []"
    using pending_unlocked [OF ok] empty by (auto simp: update_many_mem split: if_splits)
qed

lemma requests_ok_flip [payout]:
  assumes ok: "requests_ok rs" and st: "st = REQ_PENDING \<or> st = REQ_APPROVED"
    and keys: "\<And>r. pr_id (f r) = pr_id r" "\<And>r. pr_vendorId (f r) = pr_vendorId r"
    and empty: "\<And>r. pr_status (f r) = REQ_PENDING \<Longrightarrow> pr_paymentIds (f r) = []"
  shows "requests_ok (update_many (\<lambda>x. pr_id x = i \<and> pr_status x = st) f rs)"
proof (rule requests_ok_update [OF ok keys])
  fix r s
  assume "pr_id r = i \<and> pr_status r = st" "r \<in> set rs" "s \<in> set rs" "in_flight s" "pr_vendorId s = pr_vendorId r"
  then show "pr_id s = pr_id r" using in_flight_alone [OF ok, of s r] st by (simp add: in_flight_def)
qed (use empty in auto)

lemma requests_ok_close [payout]:
  assumes ok: "requests_ok rs"
    and keys: "\<And>r. pr_id (f r) = pr_id r" "\<And>r. pr_vendorId (f r) = pr_vendorId r" "\<And>r. \<not> in_flight (f r)"
  shows "requests_ok (update_many (\<lambda>x. pr_id x = i) f rs)"
  by (rule requests_ok_update [OF ok keys(1,2)]) (use keys(3) in \<open>auto simp: in_flight_def\<close>)

lemma requests_ok_append [payout]:
  assumes "requests_ok rs" "pr_id r \<notin> pr_id ` set rs" "pr_paymentIds r = []"
    and "\<And>s. s \<in> set rs \<Longrightarrow> in_flight s \<Longrightarrow> pr_vendorId s \<noteq> pr_vendorId r"
  shows "requests_ok (rs @ [r])"
  unfolding requests_ok_def
proof (intro conjI ballI impI)
  show "unique_on pr_id (rs @ [r])" using assms(1,2) by (simp add: unique_on_append requests_ok_def)
  fix x y
  assume h: "x \<in> set (rs @ [r])" "y \<in> set (rs @ [r])" "in_flight x \<and> in_flight y \<and> pr_vendorId x = pr_vendorId y"
  then show "pr_id x = pr_id y"
    using in_flight_alone [OF assms(1), of x y] assms(4) [of x] assms(4) [of y] by auto
next
  fix x
  assume "x \<in> set (rs @ [r])" "pr_status x = REQ_PENDING"
  then show "pr_paymentIds x = []" using pending_unlocked [OF assms(1)] assms(3) by auto
qed

lemma requests_ok_delete [payout]: "requests_ok rs \<Longrightarrow> requests_ok (delete_many sel rs)"
  by (simp add: requests_ok_def delete_many_unique delete_many_mem)

section \<open>The operations\<close>

lemma transaction_db:
  "transaction body w = (res, w') \<Longrightarrow> w_db w' = (case body (w_db w) of Inl e \<Rightarrow> w_db w | Inr (a, d) \<Rightarrow> d)"
  by (auto simp: transaction_def split: sum.splits)

lemma tell_vendor_db [simp]: "w_db (tell_vendor vid n w) = w_db w"
  by (simp add: tell_vendor_def split: option.split)

lemma request_keeps [payout]:
  assumes ok: "requests_ok (payoutRequests (w_db w))" and new: "po_newId env \<notin> pr_id ` set (payoutRequests (w_db w))"
    and r: "requestPayout env id u w = (res, w')"
  shows "requests_ok (payoutRequests (w_db w'))"
proof -
  have "requests_ok (payoutRequests d)" if "request_tx env vid a cur (w_db w) = Inr (y, d)" for vid a cur y d
    using that ok new
    by (auto simp: request_tx_def Let_def find_first_None intro!: requests_ok_append split: if_splits)
  then show ?thesis using r ok
    by (auto simp: requestPayout_def transaction_def split: sum.splits)
qed

lemma approve_keeps [payout]:
  assumes ok: "requests_ok (payoutRequests tx)" and a: "approve_tx env r note tx = Inr (y, tx')"
  shows "requests_ok (payoutRequests tx')"
proof -
  obtain f where t: "tx' = update_requests (\<lambda>x. pr_id x = pr_id r \<and> pr_status x = REQ_PENDING) f tx"
    and f: "\<And>x. pr_id (f x) = pr_id x" "\<And>x. pr_vendorId (f x) = pr_vendorId x" "\<And>x. pr_status (f x) = REQ_APPROVED"
    using a by (auto simp: approve_tx_def Let_def split: prod.splits if_splits)
  show ?thesis unfolding t update_requests_def
    by simp (rule requests_ok_flip [OF ok], simp_all add: f)
qed

lemma complete_keeps [payout]:
  assumes ok: "requests_ok (payoutRequests tx)" and a: "complete_tx env r note tx = Inr (y, tx')"
  shows "requests_ok (payoutRequests tx')"
proof -
  obtain f where t: "tx' = update_requests (\<lambda>x. pr_id x = pr_id r \<and> pr_status x = REQ_APPROVED) f tx"
    and f: "\<And>x. pr_id (f x) = pr_id x" "\<And>x. pr_vendorId (f x) = pr_vendorId x" "\<And>x. pr_status (f x) = REQ_COMPLETED"
    using a by (auto simp: complete_tx_def Let_def split: if_splits)
  show ?thesis unfolding t update_requests_def
    by simp (rule requests_ok_flip [OF ok], simp_all add: f)
qed

lemma revert_drifted_keeps [payout]:
  assumes ok: "requests_ok (payoutRequests d)" and a: "revert_drifted r note n d = (ex, d')"
  shows "requests_ok (payoutRequests d')"
proof (cases "d' = d")
  case False
  then obtain f where t: "d' = update_requests (\<lambda>x. pr_id x = pr_id r \<and> pr_status x = REQ_APPROVED) f d"
    and f: "\<And>x. pr_id (f x) = pr_id x" "\<And>x. pr_vendorId (f x) = pr_vendorId x" "\<And>x. pr_paymentIds (f x) = []"
    using a by (auto simp: revert_drifted_def Let_def split: if_splits)
  show ?thesis unfolding t update_requests_def
    by simp (rule requests_ok_flip [OF ok], simp_all add: f)
qed (use ok in simp)

lemma transaction_keeps [payout]:
  assumes "requests_ok (payoutRequests (w_db w))"
    and "\<And>y d. body (w_db w) = Inr (y, d) \<Longrightarrow> requests_ok (payoutRequests d)"
  shows "requests_ok (payoutRequests (w_db (snd (transaction body w))))"
  using assms by (auto simp: transaction_def split: sum.split)

lemma process_keeps [payout]:
  assumes ok: "requests_ok (payoutRequests (w_db w))"
    and r: "processPayoutRequest env id rid action note w = (res, w')"
  shows "requests_ok (payoutRequests (w_db w'))"
proof -
  have reject: "requests_ok (payoutRequests (update_requests (\<lambda>x. pr_id x = rid)
      (\<lambda>x. x\<lparr>pr_status := REQ_REJECTED, pr_note := note, pr_processedAt := Some (po_now env)\<rparr>) (w_db w)))"
    unfolding update_requests_def by simp (rule requests_ok_close [OF ok], simp_all add: in_flight_def)
  have told: "w_db (snd (case m of (Inl ex, w2) \<Rightarrow> (Inl ex, w2) | (Inr y, w2) \<Rightarrow> (Inr z, tell_vendor v n w2))) = w_db (snd m)"
    for m :: "(exn + unit) \<times> world" and v n and z :: unit
    by (simp split: prod.split sum.split)
  have same: "w\<lparr>w_db := id (w_db w)\<rparr> = w" by simp
  show ?thesis
  proof (cases "find_first (\<lambda>r. pr_id r = rid) (payoutRequests (w_db w))")
    case None
    then show ?thesis using r ok by (simp add: processPayoutRequest_def)
  next
    case (Some x)
    have tx: "requests_ok (payoutRequests (w_db (snd (transaction (approve_tx env x note) w))))"
      "requests_ok (payoutRequests (w_db (snd (transaction (complete_tx env x note) w))))"
      using ok approve_keeps complete_keeps by (blast intro: transaction_keeps)+
    show ?thesis
    proof (cases "allowed_action (pr_status x) action")
      case False
      then show ?thesis using r ok Some by (simp add: processPayoutRequest_def)
    next
      case True
      have w': "w' = snd (processPayoutRequest env id rid action note w)" using r by simp
      show ?thesis
      proof (cases action)
        case APPROVE_REQUEST
        then show ?thesis using Some True tx(1) unfolding w' by (simp add: processPayoutRequest_def told same)
      next
        case COMPLETE_REQUEST
        then show ?thesis using Some True tx(2) ok revert_drifted_keeps [OF ok] unfolding w'
          by (auto simp: processPayoutRequest_def told same Let_def split: prod.split)
      next
        case REJECT_REQUEST
        then show ?thesis using Some True reject ok unfolding w'
          by (simp add: processPayoutRequest_def same)
      qed
    qed
  qed
qed

lemma revert_keeps [payout]:
  assumes ok: "requests_ok (payoutRequests (w_db w))"
    and r: "revertPayoutRequest id rid target admin w = (res, w')"
  shows "requests_ok (payoutRequests (w_db w'))"
proof (cases "payoutRequests (w_db w') = payoutRequests (w_db w)")
  case False
  then obtain x where x: "find_first (\<lambda>r. pr_id r = rid) (payoutRequests (w_db w)) = Some x"
    and tgt: "revert_target (pr_status x) target"
    and none: "find_first (\<lambda>y. pr_vendorId y = pr_vendorId x \<and> in_flight y \<and> pr_id y \<noteq> rid) (payoutRequests (w_db w)) = None"
    and t: "w_db w' = update_requests (\<lambda>y. pr_id y = rid \<and> pr_status y = pr_status x) (reopened target) (w_db w)"
    using r by (auto simp: revertPayoutRequest_def Let_def split: option.splits if_splits)
  have x': "x \<in> set (payoutRequests (w_db w))" "pr_id x = rid" using find_first_Some [OF x] by auto
  have uq: "unique_on pr_id (payoutRequests (w_db w))" using ok by (simp add: requests_ok_def)
  have only: "y = x" if "y \<in> set (payoutRequests (w_db w))" "pr_id y = rid" for y
    using unique_onD [OF uq that(1) x'(1)] that(2) x'(2) by simp
  have keys: "pr_id (reopened target y) = pr_id y" "pr_vendorId (reopened target y) = pr_vendorId y"
    "pr_status (reopened target y) = REQ_PENDING \<Longrightarrow> pr_paymentIds (reopened target y) = []" for y
    by (auto simp: reopened_def)
  have "requests_ok (update_many (\<lambda>y. pr_id y = rid \<and> pr_status y = pr_status x) (reopened target) (payoutRequests (w_db w)))"
  proof (rule requests_ok_update [OF ok keys(1,2)])
    fix y s
    assume "pr_id y = rid \<and> pr_status y = pr_status x" "y \<in> set (payoutRequests (w_db w))"
      "s \<in> set (payoutRequests (w_db w))" "in_flight s" "pr_vendorId s = pr_vendorId y"
    then show "pr_id s = pr_id y" using none only [of y] by (auto simp: find_first_None)
  qed (use keys(3) in auto)
  then show ?thesis by (simp add: t update_requests_def)
qed (use ok in simp)

lemma delete_keeps [payout]:
  assumes "requests_ok (payoutRequests (w_db w))" "deletePayoutRequest id u rid w = (res, w')"
  shows "requests_ok (payoutRequests (w_db w'))"
  using assms by (auto simp: deletePayoutRequest_def Let_def intro: requests_ok_delete split: sum.splits option.splits if_splits)

lemma mark_paid_requests [payout]:
  "markPayoutsPaid env id ids ref w = (res, w') \<Longrightarrow> payoutRequests (w_db w') = payoutRequests (w_db w)"
  by (auto simp: markPayoutsPaid_def Let_def split: if_splits)

lemma mark_unpaid_requests [payout]:
  "markPayoutUnpaid id pid admin w = (res, w') \<Longrightarrow> payoutRequests (w_db w') = payoutRequests (w_db w)"
  by (auto simp: markPayoutUnpaid_def Let_def split: option.splits if_splits)

section \<open>Histories\<close>

inductive payout_step :: "world \<Rightarrow> world \<Rightarrow> bool" where
  requested: "po_newId env \<notin> pr_id ` set (payoutRequests (w_db w)) \<Longrightarrow>
    requestPayout env id u w = (res, w') \<Longrightarrow> payout_step w w'"
| deleted: "deletePayoutRequest id u rid w = (res', w') \<Longrightarrow> payout_step w w'"
| processed: "processPayoutRequest env id rid action note w = (res', w') \<Longrightarrow> payout_step w w'"
| reverted: "revertPayoutRequest id rid target admin w = (res', w') \<Longrightarrow> payout_step w w'"
| marked: "markPayoutsPaid env id ids ref w = (n, w') \<Longrightarrow> payout_step w w'"
| unmarked: "markPayoutUnpaid id pid admin w = (res', w') \<Longrightarrow> payout_step w w'"

inductive payout_reach :: "world \<Rightarrow> world \<Rightarrow> bool" for w0 where
  payout_start: "payout_reach w0 w0"
| payout_next: "payout_reach w0 w \<Longrightarrow> payout_step w w' \<Longrightarrow> payout_reach w0 w'"

lemma step_keeps [payout]:
  assumes "payout_step w w'" "requests_ok (payoutRequests (w_db w))"
  shows "requests_ok (payoutRequests (w_db w'))"
  using assms(1)
proof cases
  case (requested env u res)
  then show ?thesis using request_keeps [OF assms(2)] by blast
next
  case (deleted u rid res')
  then show ?thesis using delete_keeps [OF assms(2)] by blast
next
  case (processed env rid action nt res')
  then show ?thesis using process_keeps [OF assms(2)] by blast
next
  case (reverted rid target admin res')
  then show ?thesis using revert_keeps [OF assms(2)] by blast
next
  case (marked env ids ref n)
  then show ?thesis using mark_paid_requests assms(2) by metis
next
  case (unmarked pid admin res')
  then show ?thesis using mark_unpaid_requests assms(2) by metis
qed

lemma reach_keeps [payout]:
  "payout_reach w0 w \<Longrightarrow> requests_ok (payoutRequests (w_db w0)) \<Longrightarrow> requests_ok (payoutRequests (w_db w))"
  by (induction rule: payout_reach.induct) (auto intro: step_keeps)

end
