(* ===== verification/PayoutTheorems.thy ===== *)
theory PayoutTheorems
  imports PayoutProps
begin

text \<open>
  The properties of paying vendors, each with a concrete run: one request at a time, what an approval
  locks and pays, what marking paid settles, and the histories in which a payment is claimed twice.
\<close>

section \<open>A vendor with a finished booking\<close>

definition sc_later :: ms where
  "sc_later = sc_now + 30 * day_ms"

definition sc_po :: payout_env where
  "sc_po = \<lparr>po_now = sc_later, po_minimum = 50, po_cooldownDays = 2, po_bufferDays = 3, po_newId = 300, po_conflict = False\<rparr>"

definition sc_earned :: payment where
  "sc_earned = sc_payment\<lparr>p_status := SUCCESS\<rparr>"

definition sc_done :: booking where
  "sc_done = sc_booking\<lparr>b_status := CONFIRMED\<rparr>"

definition sc_db_done :: db where
  "sc_db_done = sc_db_booked\<lparr>bookings := [sc_done], payments := [sc_earned]\<rparr>"

definition sc_world_done :: world where
  "sc_world_done = \<lparr>w_db = sc_db_done, w_fx = []\<rparr>"

definition sc_request :: payout_request where
  "sc_request = \<lparr>pr_id = 300, pr_vendorId = 3, pr_amount = 567 / 5, pr_currency = ''QAR'', pr_status = REQ_PENDING,
     pr_note = None, pr_processedAt = None, pr_paymentIds = [], pr_createdAt = sc_later\<rparr>"

definition with_requests :: "payout_request list \<Rightarrow> world" where
  "with_requests rs = \<lparr>w_db = sc_db_done\<lparr>payoutRequests := rs\<rparr>, w_fx = []\<rparr>"

lemma sc_eligible: "evaluatePayoutEligibility sc_po sc_db_done 3 = Inr (567 / 5)"
  by code_simp

lemma sc_requested:
  "fst (requestPayout sc_po id 8 sc_world_done) = Inr sc_request"
  "payoutRequests (w_db (snd (requestPayout sc_po id 8 sc_world_done))) = [sc_request]"
  by code_simp+

section \<open>One request in flight\<close>

text \<open>C6. Whatever sequence of requests, deletions, approvals, completions, rejections, re-openings and
  markings runs, each call on its own, a vendor has at most one payout request pending or approved.\<close>

theorem one_request_in_flight:
  assumes "payout_reach w0 w" "requests_ok (payoutRequests (w_db w0))"
    and "r \<in> set (payoutRequests (w_db w))" "s \<in> set (payoutRequests (w_db w))"
    and "in_flight r" "in_flight s" "pr_vendorId r = pr_vendorId s"
  shows "r = s"
proof -
  have ok: "requests_ok (payoutRequests (w_db w))" by (rule reach_keeps [OF assms(1,2)])
  then have "pr_id r = pr_id s" using in_flight_alone assms(3-7) by blast
  then show ?thesis using ok assms(3,4) unique_onD unfolding requests_ok_def by metis
qed

theorem one_request_in_flight_witness:
  "payout_reach sc_world_done (snd (requestPayout sc_po id 8 sc_world_done)) \<and>
   (\<exists>r. r \<in> set (payoutRequests (w_db (snd (requestPayout sc_po id 8 sc_world_done)))) \<and> in_flight r \<and> r = sc_request)"
proof -
  let ?w = "snd (requestPayout sc_po id 8 sc_world_done)"
  have none: "payoutRequests (w_db sc_world_done) = []"
    by (simp add: sc_world_done_def sc_db_done_def sc_db_booked_def sc_db_coupon_def sc_db_def)
  have x: "requestPayout sc_po id 8 sc_world_done = (fst (requestPayout sc_po id 8 sc_world_done), ?w)" by simp
  have reach: "payout_reach sc_world_done ?w"
    by (rule payout_next [OF payout_start], rule requested [OF _ x]) (simp add: none)
  have "sc_request = sc_request"
    by (rule one_request_in_flight [OF reach])
       (simp_all add: none sc_requested in_flight_def, simp_all add: sc_request_def)
  then show ?thesis using reach by (simp add: sc_requested in_flight_def) (simp add: sc_request_def)
qed

text \<open>The guard of \<open>revertPayoutRequest\<close> is read before the write and outside a transaction: when the
  vendor files a new request in between, both end up in flight.\<close>

theorem reopening_races_new_request:
  assumes "find_first (\<lambda>r. pr_id r = rid) (payoutRequests (w_db w)) = Some r" "pr_status r = REQ_REJECTED"
    and "requestPayout env id u w = (Inr s, w1)" "pr_vendorId s = pr_vendorId r"
    and "po_newId env \<noteq> rid"
    and "revertPayoutRequest (\<lambda>_. w_db w1) rid REQ_PENDING admin w = (res, w2)"
  shows "\<not> requests_ok (payoutRequests (w_db w2))"
proof -
  have w1: "payoutRequests (w_db w1) = payoutRequests (w_db w) @ [s]"
    and s: "pr_id s = po_newId env" "in_flight s"
    and none: "find_first (\<lambda>x. pr_vendorId x = pr_vendorId s \<and> in_flight x) (payoutRequests (w_db w)) = None"
    using assms(3) by (auto simp: requestPayout_def request_tx_def transaction_def Let_def in_flight_def split: sum.splits if_splits)
  have r: "r \<in> set (payoutRequests (w_db w))" "pr_id r = rid" using find_first_Some [OF assms(1)] by auto
  have free: "find_first (\<lambda>x. pr_vendorId x = pr_vendorId r \<and> in_flight x \<and> pr_id x \<noteq> rid) (payoutRequests (w_db w)) = None"
    using none assms(4) by (auto simp: find_first_None)
  have "count_rows (\<lambda>x. pr_id x = rid \<and> pr_status x = REQ_REJECTED) (payoutRequests (w_db w1)) \<noteq> 0"
    using r assms(2) w1 by (auto simp: count_rows_0)
  then have w2: "payoutRequests (w_db w2) = update_many (\<lambda>x. pr_id x = rid \<and> pr_status x = REQ_REJECTED)
      (reopened REQ_PENDING) (payoutRequests (w_db w1))"
    using assms(6,1,2) free by (auto simp: revertPayoutRequest_def update_requests_def Let_def)
  have "reopened REQ_PENDING r \<in> set (payoutRequests (w_db w2))" "s \<in> set (payoutRequests (w_db w2))"
    using r s assms(2,5) unfolding w2 w1 by (auto simp: update_many_mem)
  moreover have "in_flight (reopened REQ_PENDING r)" "pr_vendorId (reopened REQ_PENDING r) = pr_vendorId s"
    "pr_id (reopened REQ_PENDING r) \<noteq> pr_id s"
    using assms(4,5) s r by (simp_all add: reopened_def in_flight_def)
  ultimately show ?thesis using in_flight_alone s(2) by blast
qed

definition sc_rejected :: payout_request where
  "sc_rejected = sc_request\<lparr>pr_id := 299, pr_status := REQ_REJECTED\<rparr>"

theorem reopening_races_new_request_witness:
  "\<not> requests_ok (payoutRequests (w_db (snd (revertPayoutRequest
      (\<lambda>_. w_db (snd (requestPayout sc_po id 8 (with_requests [sc_rejected])))) 299 REQ_PENDING 9 (with_requests [sc_rejected])))))"
proof -
  let ?w = "with_requests [sc_rejected]"
  let ?x = "requestPayout sc_po id 8 ?w"
  let ?y = "revertPayoutRequest (\<lambda>_. w_db (snd ?x)) 299 REQ_PENDING 9 ?w"
  have "fst ?x = Inr sc_request" by code_simp
  then have x: "?x = (Inr sc_request, snd ?x)" by (metis prod.collapse)
  have y: "?y = (fst ?y, snd ?y)" by simp
  show ?thesis
    by (rule reopening_races_new_request [OF _ _ x _ _ y, of sc_rejected])
       (simp_all add: with_requests_def sc_rejected_def, simp_all add: sc_request_def sc_po_def)
qed

section \<open>What an approval locks\<close>

lemma lock_greedily_result [payout]:
  assumes "lock_greedily q acc rows = (got, ids)" "\<And>pid s. (pid, s) \<in> set rows \<Longrightarrow> two_dp s" "two_dp acc"
  shows "\<exists>taken. ids = map fst taken \<and> (\<forall>x \<in> set taken. x \<in> set rows \<and> 0 < snd x) \<and>
    got = acc + sum_list (map snd taken) \<and> (taken \<noteq> [] \<longrightarrow> got - snd (last taken) < q)"
  using assms
proof (induction q acc rows arbitrary: got ids rule: lock_greedily.induct)
  case (1 q acc)
  then show ?case by simp
next
  case (2 q acc pid share rest)
  consider "share \<le> 0" | "share > 0" "acc \<ge> q" | "share > 0" "acc < q" by linarith
  then show ?case
  proof cases
    case 1
    then have "lock_greedily q acc rest = (got, ids)" using "2.prems"(1) by simp
    then obtain taken where "ids = map fst taken \<and> (\<forall>x \<in> set taken. x \<in> set rest \<and> 0 < snd x) \<and>
        got = acc + sum_list (map snd taken) \<and> (taken \<noteq> [] \<longrightarrow> got - snd (last taken) < q)"
      using "2.IH"(1) [OF 1] "2.prems"(2,3) by auto
    then show ?thesis by (intro exI [of _ taken]) auto
  next
    case 2
    then show ?thesis using "2.prems"(1) by simp
  next
    case 3
    have c: "cents (acc + share) = acc + share" using "2.prems"(2) [of pid share] "2.prems"(3)
      by (intro cents_id two_dp_add) auto
    obtain ids' where r: "lock_greedily q (acc + share) rest = (got, ids')" "ids = pid # ids'"
      using "2.prems"(1) 3 c by (auto split: prod.splits)
    have "two_dp (acc + share)" using "2.prems"(2) [of pid share] "2.prems"(3) by (intro two_dp_add) auto
    then obtain taken where t: "ids' = map fst taken" "\<forall>x \<in> set taken. x \<in> set rest \<and> 0 < snd x"
        "got = acc + share + sum_list (map snd taken)" "taken \<noteq> [] \<longrightarrow> got - snd (last taken) < q"
      using "2.IH"(2) [of got ids'] "2.prems"(2) 3 c r(1) by auto
    show ?thesis using t 3 r(2) by (intro exI [of _ "(pid, share) # taken"]) auto
  qed
qed

lemma approve_Inr:
  assumes "unique_on pr_id (payoutRequests (w_db w))"
    and "find_first (\<lambda>r. pr_id r = rid) (payoutRequests (w_db w)) = Some r"
    and h: "processPayoutRequest env id rid APPROVE_REQUEST note w = (Inr (), w')"
  obtains got ids s where "lock_greedily (pr_amount r) 0 (approvable env (w_db w) (pr_vendorId r)) = (got, ids)" "0 < got"
    "find_first (\<lambda>r. pr_id r = rid) (payoutRequests (w_db w')) = Some s" "pr_status s = REQ_APPROVED"
    "pr_vendorId s = pr_vendorId r" "pr_paymentIds s = ids" "pr_amount s = min (pr_amount r) got"
    "w_db w' = (w_db w)\<lparr>payoutRequests := update_many (\<lambda>x. pr_id x = rid \<and> pr_status x = REQ_PENDING) (\<lambda>_. s) (payoutRequests (w_db w))\<rparr>"
proof -
  obtain got ids where g: "lock_greedily (pr_amount r) 0 (approvable env (w_db w) (pr_vendorId r)) = (got, ids)"
    by fastforce
  have r: "r \<in> set (payoutRequests (w_db w))" "pr_id r = rid" using find_first_Some [OF assms(2)] by auto
  have st: "pr_status r = REQ_PENDING"
    using h assms(2) by (cases "pr_status r") (auto simp: processPayoutRequest_def)
  have same: "w\<lparr>w_db := id (w_db w)\<rparr> = w" by simp
  obtain fn where tx: "0 < got" "w_db w' = update_requests (\<lambda>x. pr_id x = rid \<and> pr_status x = REQ_PENDING)
      (\<lambda>x. x\<lparr>pr_status := REQ_APPROVED, pr_amount := min (pr_amount r) got, pr_note := fn,
                  pr_paymentIds := ids, pr_processedAt := Some (po_now env)\<rparr>) (w_db w)"
    using h assms(2) st r g
    by (auto simp: processPayoutRequest_def same transaction_def approve_tx_def Let_def split: if_splits sum.splits)
  let ?f = "\<lambda>x. x\<lparr>pr_status := REQ_APPROVED, pr_amount := min (pr_amount r) got, pr_note := fn,
                  pr_paymentIds := ids, pr_processedAt := Some (po_now env)\<rparr>"
  have only: "x = r" if "x \<in> set (payoutRequests (w_db w))" "pr_id x = rid" for x
    using unique_onD [OF assms(1) that(1) r(1)] that(2) r(2) by simp
  have upd: "update_many (\<lambda>x. pr_id x = rid \<and> pr_status x = REQ_PENDING) ?f (payoutRequests (w_db w)) =
      update_many (\<lambda>x. pr_id x = rid \<and> pr_status x = REQ_PENDING) (\<lambda>_. ?f r) (payoutRequests (w_db w))"
    using only by (auto simp: update_many_def)
  have mem: "?f r \<in> set (payoutRequests (w_db w'))"
    using tx(2) r st by (auto simp: update_requests_def update_many_mem intro!: exI [of _ r] bexI [of _ r])
  have uq: "unique_on pr_id (payoutRequests (w_db w'))"
    using assms(1) tx(2) by (simp add: update_requests_def update_many_unique)
  have "find_first (\<lambda>x. pr_id x = rid) (payoutRequests (w_db w')) = Some (?f r)"
    using find_first_key [OF uq mem] r(2) by simp
  then show thesis using that [OF g tx(1), of "?f r"] tx(2) upd by (simp add: update_requests_def)
qed

lemma approvable_mem [payout]:
  "(pid, s) \<in> set (approvable env d vid) \<longleftrightarrow>
     (\<exists>p b. p \<in> set (payments d) \<and> p_id p = pid \<and> payable_out p \<and> booking_of_payment d pid = Some b \<and>
        b_vendorId b = vid \<and> b_end b < payout_cutoff env \<and> s = vendor_share b)"
  by (force simp: approvable_def find_many_def split: option.splits)

text \<open>An approved request locks only unpaid captures of its own vendor whose activity is past the settlement
  buffer, each with a positive share; it pays the smaller of what was asked and what these shares add
  up to, and it stops locking as soon as the amount asked is reached.\<close>

theorem approval_locks_what_it_pays:
  assumes "unique_on pr_id (payoutRequests (w_db w))"
    and "find_first (\<lambda>r. pr_id r = rid) (payoutRequests (w_db w)) = Some r"
    and "processPayoutRequest env id rid APPROVE_REQUEST note w = (Inr (), w')"
    and "\<forall>b \<in> set (bookings (w_db w)). two_dp (vendor_share b)"
  shows "\<exists>s taken. find_first (\<lambda>r. pr_id r = rid) (payoutRequests (w_db w')) = Some s \<and> pr_status s = REQ_APPROVED \<and>
    pr_paymentIds s = map fst taken \<and> pr_amount s = min (pr_amount r) (sum_list (map snd taken)) \<and>
    sum_list (map snd taken) - snd (last taken) < pr_amount r \<and> taken \<noteq> [] \<and>
    (\<forall>(pid, share) \<in> set taken. 0 < share \<and> (\<exists>p b. payable_out p \<and> p \<in> set (payments (w_db w')) \<and> p_id p = pid \<and>
       booking_of_payment (w_db w') pid = Some b \<and> b_vendorId b = pr_vendorId r \<and> b_end b < payout_cutoff env \<and>
       share = vendor_share b))"
proof -
  from approve_Inr [OF assms(1-3)] obtain got ids s where
    g: "lock_greedily (pr_amount r) 0 (approvable env (w_db w) (pr_vendorId r)) = (got, ids)" "0 < got" and
    s: "find_first (\<lambda>r. pr_id r = rid) (payoutRequests (w_db w')) = Some s" "pr_status s = REQ_APPROVED"
      "pr_paymentIds s = ids" "pr_amount s = min (pr_amount r) got" and
    d: "w_db w' = (w_db w)\<lparr>payoutRequests := update_many (\<lambda>x. pr_id x = rid \<and> pr_status x = REQ_PENDING) (\<lambda>_. s) (payoutRequests (w_db w))\<rparr>"
    by blast
  have dp: "two_dp share" if "(pid, share) \<in> set (approvable env (w_db w) (pr_vendorId r))" for pid share
    using that assms(4) find_first_Some by (fastforce simp: approvable_mem booking_of_payment_def)
  obtain taken where t: "ids = map fst taken" "got = sum_list (map snd taken)"
      "\<forall>x \<in> set taken. x \<in> set (approvable env (w_db w) (pr_vendorId r)) \<and> 0 < snd x"
      "taken \<noteq> [] \<longrightarrow> got - snd (last taken) < pr_amount r"
    using lock_greedily_result [OF g(1) _ two_dp_0] dp by auto
  have "taken \<noteq> []" using g(2) t(2) by auto
  moreover have "\<forall>(pid, share) \<in> set taken. 0 < share \<and> (\<exists>p b. payable_out p \<and> p \<in> set (payments (w_db w')) \<and> p_id p = pid \<and>
       booking_of_payment (w_db w') pid = Some b \<and> b_vendorId b = pr_vendorId r \<and> b_end b < payout_cutoff env \<and>
       share = vendor_share b)"
    using t(3) by (fastforce simp: approvable_mem d booking_of_payment_def)
  ultimately show ?thesis using s t by auto
qed

lemma sc_approved:
  "fst (processPayoutRequest sc_po id 300 APPROVE_REQUEST None (with_requests [sc_request])) = Inr ()"
  by code_simp

theorem approval_locks_what_it_pays_witness:
  "\<exists>s. \<exists>taken :: (uid \<times> num) list. find_first (\<lambda>r. pr_id r = 300) (payoutRequests (w_db (snd
      (processPayoutRequest sc_po id 300 APPROVE_REQUEST None (with_requests [sc_request]))))) = Some s \<and>
    pr_status s = REQ_APPROVED \<and> pr_amount s = min (567 / 5) (sum_list (map snd taken))"
proof -
  let ?x = "processPayoutRequest sc_po id 300 APPROVE_REQUEST None (with_requests [sc_request])"
  have x: "?x = (Inr (), snd ?x)" using sc_approved by (metis prod.collapse)
  have "two_dp (126 - 63 / 5)" using two_dp_div100 [of 11340] by simp
  then have dp: "\<forall>b \<in> set (bookings (w_db (with_requests [sc_request]))). two_dp (vendor_share b)"
    by (simp add: with_requests_def sc_db_done_def sc_done_def vendor_share_def sc_booking_def sc_quote_def)
  have f: "unique_on pr_id (payoutRequests (w_db (with_requests [sc_request])))"
    "find_first (\<lambda>r. pr_id r = 300) (payoutRequests (w_db (with_requests [sc_request]))) = Some sc_request"
    by (simp_all add: with_requests_def unique_on_def sc_request_def)
  have a: "pr_amount sc_request = 567 / 5" by (simp add: sc_request_def)
  show ?thesis using approval_locks_what_it_pays [OF f x dp] unfolding a by blast
qed

section \<open>Marking paid\<close>

lemma mark_paid_Inr:
  assumes "markPayoutsPaid env interfere ids ref w = (Inr n, w')"
  shows "w_db w' = (interfere (w_db w))\<lparr>payments := update_many (settles env (interfere (w_db w)) ids)
      (\<lambda>p. p\<lparr>p_payoutStatus := PAID, p_paidAt := Some (po_now env), p_bankTransferRef := Some (trimmed ref)\<rparr>)
      (payments (interfere (w_db w)))\<rparr>"
    and "trimmed ref \<noteq> []" "n = count_rows (settles env (interfere (w_db w)) ids) (payments (interfere (w_db w)))"
    and "\<not> list_ex (in_escrow env (w_db w) ids) (payments (w_db w))"
    and "\<not> list_ex (claimed_by_request (w_db w) (submitted (w_db w) ids)) (submitted (w_db w) ids)"
  using assms by (auto simp: markPayoutsPaid_def Let_def count_rows_def find_many_def emit_def split: if_splits)

text \<open>Marking paid settles exactly the submitted captures that are unpaid and past escrow at the moment of the
  write, under a bank reference, and reports how many. A payment settled before keeps its reference and
  its date, whatever is submitted and whoever else writes.\<close>

theorem marking_paid_settles_once:
  assumes "markPayoutsPaid env interfere ids ref w = (Inr n, w')" "p \<in> set (payments (interfere (w_db w)))"
  shows "(if settles env (interfere (w_db w)) ids p
    then p_payoutStatus p = UNPAID \<and> p_status p = SUCCESS \<and> 0 < n \<and> trimmed ref \<noteq> [] \<and>
      p\<lparr>p_payoutStatus := PAID, p_paidAt := Some (po_now env), p_bankTransferRef := Some (trimmed ref)\<rparr> \<in> set (payments (w_db w'))
    else p \<in> set (payments (w_db w'))) \<and>
    (p_payoutStatus p \<noteq> PAID \<or> p \<in> set (payments (w_db w'))) \<and>
    bookings (w_db w') = bookings (interfere (w_db w)) \<and> payoutRequests (w_db w') = payoutRequests (interfere (w_db w))"
  using mark_paid_Inr(1-3) [OF assms(1)] assms(2)
  by (auto simp: update_many_mem settles_def payable_out_def count_rows_pos)

definition sc_settle :: "(exn + nat) \<times> world" where
  "sc_settle = markPayoutsPaid sc_po id [101] (Some ''WIRE-1'') (with_requests [])"

lemma sc_settled: "fst sc_settle = Inr 1" "settles sc_po (w_db (with_requests [])) [101] sc_earned"
  by code_simp+

lemma sc_settle_eq: "markPayoutsPaid sc_po id [101] (Some ''WIRE-1'') (with_requests []) = (Inr 1, snd sc_settle)"
  using sc_settled(1) by (metis prod.collapse sc_settle_def)

theorem marking_paid_settles_once_witness:
  "p_payoutStatus sc_earned = UNPAID \<and>
   sc_earned\<lparr>p_payoutStatus := PAID, p_paidAt := Some sc_later, p_bankTransferRef := Some ''WIRE-1''\<rparr>
     \<in> set (payments (w_db (snd sc_settle)))"
proof -
  have "sc_earned \<in> set (payments (id (w_db (with_requests []))))" by (simp add: with_requests_def sc_db_done_def)
  moreover have "trimmed (Some ''WIRE-1'') = ''WIRE-1''" "po_now sc_po = sc_later" by (code_simp, simp add: sc_po_def)
  ultimately show ?thesis using marking_paid_settles_once [OF sc_settle_eq, of sc_earned] sc_settled(2) by simp
qed

section \<open>Paid out, then cancelled\<close>

lemma kept_unless [table]: "r \<in> set t \<Longrightarrow> \<not> sel r \<Longrightarrow> r \<in> set (update_many sel f t)"
  by (auto simp: update_many_def)

text \<open>C7. Once a capture has been paid out, the customer can no longer cancel the booking behind it: the activity
  ended before the settlement cut-off, and a cancellation is refused from its start on. This needs a
  zone that is not west of Greenwich, since the cut-off compares wall-clock ends with real time.\<close>

theorem paid_out_cannot_be_cancelled:
  assumes "markPayoutsPaid env interfere ids ref w = (Inr n, w')"
    and "p \<in> set (payments (interfere (w_db w)))" "p_payoutStatus p = UNPAID"
    and "p \<notin> set (payments (w_db w'))"
    and "booking_of_payment (interfere (w_db w)) (p_id p) = Some b" "b_start b + 1000 \<le> b_end b"
    and "find_first (\<lambda>x. b_id x = b_id b \<and> b_customerId x = u) (bookings (w_db w2)) = Some b"
    and "find_first (\<lambda>a. a_id a = b_activityId b) (activities (w_db w2)) = Some a"
    and "find_first (\<lambda>c. co_id c = a_countryId a) (countries (w_db w2)) = Some c"
    and "c_tz env2 (co_timezone c) (c_now env2) = Some off" "0 \<le> off" "po_now env \<le> c_now env2"
  shows "\<exists>ex. cancelBooking env2 interfere2 u (b_id b) w2 = (Inl ex, w2)"
proof -
  have "settles env (interfere (w_db w)) ids p"
  proof (rule ccontr)
    assume "\<not> ?thesis"
    from kept_unless [of p _ "settles env (interfere (w_db w)) ids", OF assms(2) this] show False
      using assms(4) mark_paid_Inr(1) [OF assms(1)] by simp
  qed
  then have "b_end b < payout_cutoff env" using assms(5) by (simp add: settles_def)
  moreover have "payout_cutoff env \<le> po_now env"
    by (simp add: payout_cutoff_def day_ms_def)
  ultimately have "b_start b + 1000 < c_now env2 + off"
    using assms(6,11,12) by linarith
  moreover have "c_now env2 + off - 1000 < (c_now env2 + off) div 1000 * 1000"
    using div_mult_mod_eq [of "c_now env2 + off" 1000] pos_mod_bound [of 1000 "c_now env2 + off"] by linarith
  ultimately have "b_start b < nowInTimezone (c_tz env2) (co_timezone c) (c_now env2)"
    using assms(10) by (simp add: nowInTimezone_def)
  then have "hours_until env2 (co_timezone c) b < 0"
    by (simp add: hours_until_def hour_ms_def divide_neg_pos)
  then show ?thesis using assms(7-9) by (simp add: cancelBooking_def Let_def)
qed

theorem paid_out_cannot_be_cancelled_witness:
  "\<exists>ex. cancelBooking (sc_cancel\<lparr>c_now := sc_later\<rparr>) id 7 100 (snd sc_settle) = (Inl ex, snd sc_settle)"
proof -
  have d: "w_db (snd sc_settle) = (w_db (with_requests []))\<lparr>payments :=
      update_many (settles sc_po (w_db (with_requests [])) [101])
      (\<lambda>p. p\<lparr>p_payoutStatus := PAID, p_paidAt := Some (po_now sc_po), p_bankTransferRef := Some (trimmed (Some ''WIRE-1''))\<rparr>)
      (payments (w_db (with_requests [])))\<rparr>"
    using mark_paid_Inr(1) [OF sc_settle_eq] by simp
  have p: "p_id sc_earned = 101" "p_payoutStatus sc_earned = UNPAID"
    by (simp_all add: sc_earned_def sc_payment_def new_payment_def sc_env_def)
  have b: "b_id sc_done = 100" "b_customerId sc_done = 7" "b_activityId sc_done = 10" "b_paymentId sc_done = Some 101"
    by (simp_all add: sc_done_def) (simp add: sc_booking_def sc_env_def)
  have rows: "bookings (w_db (with_requests [])) = [sc_done]" "payments (w_db (with_requests [])) = [sc_earned]"
    "activities (w_db (with_requests [])) = [sc_hourly, sc_daily, sc_shared]" "countries (w_db (with_requests [])) = [sc_country]"
    by (simp_all add: with_requests_def sc_db_done_def sc_db_booked_def sc_db_coupon_def sc_db_def)
  have paid_all: "\<forall>x \<in> set (payments (w_db (snd sc_settle))). p_payoutStatus x = PAID"
    using sc_settled(2) by (simp add: d rows)
  have paid: "sc_earned \<notin> set (payments (w_db (snd sc_settle)))"
    using paid_all p(2) by auto
  have len: "b_start sc_done + 1000 \<le> b_end sc_done" by code_simp
  show ?thesis
    using paid_out_cannot_be_cancelled [OF sc_settle_eq _ p(2) paid _ len, of 7 "snd sc_settle" sc_hourly sc_country
        "sc_cancel\<lparr>c_now := sc_later\<rparr>" "3 * hour_ms" id]
    by (simp add: rows d p b booking_of_payment_def)
       (simp add: sc_hourly_def sc_country_def sc_cancel_def qatar_tz_def sc_po_def hour_ms_def)
qed

section \<open>Where paying out goes wrong\<close>

text \<open>Eligibility leaves out every payment a completed request has locked, but approval does not: while a
  payment of a completed request waits to be marked paid, the next request of the vendor that is
  approved locks it again when it is the oldest, so two requests pay the same capture.\<close>

theorem payment_claimed_twice:
  assumes "unique_on pr_id (payoutRequests (w_db w))"
    and "find_first (\<lambda>r. pr_id r = rid) (payoutRequests (w_db w)) = Some r" "0 < pr_amount r"
    and "c \<in> set (payoutRequests (w_db w))" "pr_status c = REQ_COMPLETED" "pr_vendorId c = pr_vendorId r"
    and "pid \<in> set (pr_paymentIds c)"
    and "approvable env (w_db w) (pr_vendorId r) = (pid, share) # rest" "0 < share"
    and "processPayoutRequest env id rid APPROVE_REQUEST note w = (Inr (), w')"
  shows "(\<forall>b \<in> set (eligible_bookings env (w_db w) (pr_vendorId r)). b_paymentId b \<noteq> Some pid) \<and>
    (\<exists>s \<in> set (payoutRequests (w_db w')). pr_status s = REQ_APPROVED \<and> pid \<in> set (pr_paymentIds s)) \<and>
    c \<in> set (payoutRequests (w_db w'))"
proof (intro conjI ballI)
  fix b
  assume "b \<in> set (eligible_bookings env (w_db w) (pr_vendorId r))"
  moreover have "pid \<in> set (locked_payment_ids (w_db w) (pr_vendorId r))"
    using assms(4-7) by (auto simp: locked_payment_ids_def find_many_def)
  ultimately show "b_paymentId b \<noteq> Some pid"
    using find_first_Some by (fastforce simp: eligible_bookings_def find_many_def payment_of_def split: option.splits)
next
  from approve_Inr [OF assms(1,2,10)] obtain got ids s where
    g: "lock_greedily (pr_amount r) 0 (approvable env (w_db w) (pr_vendorId r)) = (got, ids)" and
    s: "find_first (\<lambda>r. pr_id r = rid) (payoutRequests (w_db w')) = Some s" "pr_status s = REQ_APPROVED" "pr_paymentIds s = ids" and
    d: "w_db w' = (w_db w)\<lparr>payoutRequests := update_many (\<lambda>x. pr_id x = rid \<and> pr_status x = REQ_PENDING) (\<lambda>_. s) (payoutRequests (w_db w))\<rparr>"
    by blast
  have "pid \<in> set ids" using g [unfolded assms(8)] assms(3,9) by (auto split: prod.splits)
  then show "\<exists>s \<in> set (payoutRequests (w_db w')). pr_status s = REQ_APPROVED \<and> pid \<in> set (pr_paymentIds s)"
    using s find_first_Some [OF s(1)] by blast
  show "c \<in> set (payoutRequests (w_db w'))" unfolding d using assms(4,5) by (simp add: kept_unless)
qed

text \<open>The vendor's second booking, paid and held after the first one was settled.\<close>

definition sc_db_two :: db where
  "sc_db_two = sc_db_done\<lparr>
     bookings := [sc_done, sc_done\<lparr>b_id := 110, b_paymentId := Some 111\<rparr>],
     payments := [sc_earned, sc_earned\<lparr>p_id := 111, p_createdAt := sc_now + day_ms\<rparr>],
     payoutRequests := [sc_request\<lparr>pr_id := 299, pr_status := REQ_COMPLETED, pr_paymentIds := [101]\<rparr>]\<rparr>"

definition sc_asked :: world where
  "sc_asked = snd (requestPayout sc_po id 8 \<lparr>w_db = sc_db_two, w_fx = []\<rparr>)"

lemma sc_asked_requests:
  "payoutRequests (w_db sc_asked) = [sc_request\<lparr>pr_id := 299, pr_status := REQ_COMPLETED, pr_paymentIds := [101]\<rparr>, sc_request]"
  "approvable sc_po (w_db sc_asked) 3 = [(101, 567 / 5), (111, 567 / 5)]"
  "fst (processPayoutRequest sc_po id 300 APPROVE_REQUEST None sc_asked) = Inr ()"
  by code_simp+

theorem payment_claimed_twice_witness:
  "\<exists>s \<in> set (payoutRequests (w_db (snd (processPayoutRequest sc_po id 300 APPROVE_REQUEST None sc_asked)))).
     pr_status s = REQ_APPROVED \<and> 101 \<in> set (pr_paymentIds s)"
proof -
  let ?x = "processPayoutRequest sc_po id 300 APPROVE_REQUEST None sc_asked"
  have x: "?x = (Inr (), snd ?x)" using sc_asked_requests(3) by (metis prod.collapse)
  have r: "pr_id sc_request = 300" "pr_vendorId sc_request = 3" "pr_amount sc_request = 567 / 5" by (simp_all add: sc_request_def)
  have "unique_on pr_id (payoutRequests (w_db sc_asked))"
    "find_first (\<lambda>r. pr_id r = 300) (payoutRequests (w_db sc_asked)) = Some sc_request"
    by (simp_all add: sc_asked_requests unique_on_def r)
  from payment_claimed_twice [OF this _ _ _ _ _ _ _ x, of "sc_request\<lparr>pr_id := 299, pr_status := REQ_COMPLETED, pr_paymentIds := [101]\<rparr>"]
  show ?thesis using r sc_asked_requests(1,2) by simp
qed

text \<open>A payment marked paid that belongs to a completed request is stuck: \<open>revertPayoutRequest\<close> refuses the
  request because of the payment and asks to revert the payment first, and \<open>markPayoutUnpaid\<close> refuses the
  payment because of the request.\<close>

theorem completed_and_paid_is_stuck:
  assumes "find_first (\<lambda>r. pr_id r = rid) (payoutRequests (w_db w)) = Some r" "pr_status r = REQ_COMPLETED"
    and "payment_row pid (w_db w) = Some p" "p_payoutStatus p = PAID" "pid \<in> set (pr_paymentIds r)"
    and "unique_on p_id (payments (w_db w))"
  shows "(\<exists>ex. revertPayoutRequest interfere rid target admin w = (Inl ex, w)) \<and>
    (\<exists>ex. markPayoutUnpaid interfere' pid admin' w = (Inl ex, w))"
proof
  have p: "p \<in> set (payments (w_db w))" "p_id p = pid" using find_first_Some assms(3) by (fastforce simp: payment_row_def)+
  have r: "r \<in> set (payoutRequests (w_db w))" using find_first_Some [OF assms(1)] by simp
  have only: "q = p" if "q \<in> set (payments (w_db w))" "p_id q = pid" for q
    using unique_onD [OF assms(6) that(1) p(1)] that(2) p(2) by simp
  have "still_payable (pr_paymentIds r) (w_db w) \<noteq> length (pr_paymentIds r)"
  proof -
    let ?ps = "filter (\<lambda>p. p_id p \<in> set (pr_paymentIds r) \<and> payable_out p) (payments (w_db w))"
    have "distinct (map p_id ?ps)" using assms(6) by (simp add: unique_on_def distinct_map_filter)
    then have "length ?ps = card (set (map p_id ?ps))" using distinct_card by fastforce
    also have "set (map p_id ?ps) \<subseteq> set (pr_paymentIds r) - {pid}"
      using only assms(4) by (auto simp: payable_out_def)
    then have "card (set (map p_id ?ps)) \<le> card (set (pr_paymentIds r) - {pid})" by (simp add: card_mono)
    also have "\<dots> < card (set (pr_paymentIds r))" using assms(5) by (intro card_Diff1_less) auto
    also have "\<dots> \<le> length (pr_paymentIds r)" by (rule card_length)
    finally show ?thesis by (simp add: still_payable_def count_rows_def)
  qed
  then show "\<exists>ex. revertPayoutRequest interfere rid target admin w = (Inl ex, w)"
    using assms(1,2,5) by (auto simp: revertPayoutRequest_def)
  have "find_first (\<lambda>r. pr_status r \<in> {REQ_APPROVED, REQ_COMPLETED} \<and> pid \<in> set (pr_paymentIds r)) (payoutRequests (w_db w)) \<noteq> None"
    using r assms(2,5) by (auto simp: find_first_None)
  then show "\<exists>ex. markPayoutUnpaid interfere' pid admin' w = (Inl ex, w)"
    using assms(3) by (simp add: markPayoutUnpaid_def)
qed

theorem completed_and_paid_is_stuck_witness:
  "\<exists>ex. revertPayoutRequest id 299 REQ_APPROVED 9 \<lparr>w_db = sc_db_two\<lparr>payments := [sc_earned\<lparr>p_payoutStatus := PAID\<rparr>]\<rparr>, w_fx = []\<rparr> =
     (Inl ex, \<lparr>w_db = sc_db_two\<lparr>payments := [sc_earned\<lparr>p_payoutStatus := PAID\<rparr>]\<rparr>, w_fx = []\<rparr>)"
proof -
  let ?r = "sc_request\<lparr>pr_id := 299, pr_status := REQ_COMPLETED, pr_paymentIds := [101]\<rparr>"
  have "p_id sc_earned = 101" by (simp add: sc_earned_def sc_payment_def new_payment_def sc_env_def)
  then show ?thesis
    using completed_and_paid_is_stuck [of 299 "\<lparr>w_db = sc_db_two\<lparr>payments := [sc_earned\<lparr>p_payoutStatus := PAID\<rparr>]\<rparr>, w_fx = []\<rparr>" ?r 101
        "sc_earned\<lparr>p_payoutStatus := PAID\<rparr>" id REQ_APPROVED 9 id 9]
    by (simp add: sc_db_two_def payment_row_def unique_on_def)
qed

text \<open>Rejecting writes whatever the status is by then: a request approved in between is rejected with its
  payments still locked in it, and the vendor is told both.\<close>

definition sc_approval :: payout_request where
  "sc_approval = sc_request\<lparr>pr_status := REQ_APPROVED, pr_paymentIds := [101], pr_processedAt := Some sc_later\<rparr>"

lemma sc_approval_db:
  "w_db (snd (processPayoutRequest sc_po id 300 APPROVE_REQUEST None (with_requests [sc_request]))) =
     sc_db_done\<lparr>payoutRequests := [sc_approval]\<rparr>"
  by code_simp

lemma reject_overrides_approval:
  "payoutRequests (w_db (snd (processPayoutRequest sc_po
      (\<lambda>_. w_db (snd (processPayoutRequest sc_po id 300 APPROVE_REQUEST None (with_requests [sc_request])))) 300 REJECT_REQUEST None
      (with_requests [sc_request])))) = [sc_approval\<lparr>pr_status := REQ_REJECTED\<rparr>]"
  unfolding sc_approval_db by code_simp

text \<open>An approval may lock more than it pays: a request for 100.00 locks a share of 113.40.\<close>

lemma approval_may_underpay:
  "map (\<lambda>s. (pr_amount s, pr_paymentIds s)) (payoutRequests (w_db (snd (processPayoutRequest sc_po id 300 APPROVE_REQUEST None
      (with_requests [sc_request\<lparr>pr_amount := 100\<rparr>]))))) = [(100, [101])]"
  by code_simp

end
