(* ===== verification/Cleanup.thy ===== *)
theory Cleanup
  imports CancelBooking
begin

text \<open>
  \<open>apps/api/src/common/services/cleanup.service.ts\<close>: the scheduled jobs. Abandoned reservations are
  reaped, loyalty points awarded when an activity has started and the booking completed when it has
  ended, coupons expired, old rows pruned; every job runs on the pod that wins its leader lock. What
  other requests do between a job's query and its writes is an argument of the job.
\<close>

named_theorems cron \<open>facts about the scheduled jobs\<close>

section \<open>Configuration\<close>

text \<open>\<open>Number(configService.get(\<dots>))\<close>: a finite number, or NaN and the infinities.\<close>

datatype env_number =
  Finite num
| NotFinite

definition is_integer :: "num \<Rightarrow> bool" where
  "is_integer q \<longleftrightarrow> of_int \<lfloor>q\<rfloor> = q"

definition clamp_outbox_retention :: "env_number \<Rightarrow> int" where
  "clamp_outbox_retention v =
     (case v of Finite q \<Rightarrow> if is_integer q \<and> q > 0 then \<lfloor>q\<rfloor> else 30 | NotFinite \<Rightarrow> 30)"

definition clamp_grace :: "env_number \<Rightarrow> int" where
  "clamp_grace v =
     (case v of Finite q \<Rightarrow> if is_integer q \<and> q > 0 \<and> q \<le> 1440 then \<lfloor>q\<rfloor> else 120 | NotFinite \<Rightarrow> 120)"

definition clamp_award_delay :: "env_number \<Rightarrow> num" where
  "clamp_award_delay v =
     (case v of Finite q \<Rightarrow> if q \<ge> 0 \<and> q \<le> 1440 then q else 5 | NotFinite \<Rightarrow> 5)"

record cleanup_config =
  kc_securityRetention :: env_number
  kc_auditRetention :: env_number
  kc_financialRetention :: env_number
  kc_couponRetention :: env_number
  kc_outboxRetention :: int
  kc_fallbackHours :: env_number
  kc_graceMinutes :: int
  kc_awardDelayMinutes :: num

text \<open>The constructor: three of the settings are clamped.\<close>

definition make_cleanup_config ::
  "env_number \<Rightarrow> env_number \<Rightarrow> env_number \<Rightarrow> env_number \<Rightarrow> env_number \<Rightarrow> env_number \<Rightarrow> env_number \<Rightarrow> env_number \<Rightarrow>
   cleanup_config" where
  "make_cleanup_config security audit financial expiredCoupon outboxDays fallbackHours grace awardDelay =
     \<lparr>kc_securityRetention = security, kc_auditRetention = audit, kc_financialRetention = financial,
      kc_couponRetention = expiredCoupon, kc_outboxRetention = clamp_outbox_retention outboxDays,
      kc_fallbackHours = fallbackHours, kc_graceMinutes = clamp_grace grace,
      kc_awardDelayMinutes = clamp_award_delay awardDelay\<rparr>"

record cron_env =
  k_now :: ms
  k_tz :: tzdb
  k_cfg :: cleanup_config

text \<open>The rows say \<open>actorId: 'cron'\<close>; a row about no entity in particular has the entity 0.\<close>

definition cron_actor :: uid where
  "cron_actor = 0"

section \<open>Stale reservations\<close>

text \<open>A comparison of SQL: unknown, so not selected, for NULL.\<close>

definition sql_lt :: "ms option \<Rightarrow> ms \<Rightarrow> bool" where
  "sql_lt x t = (case x of Some v \<Rightarrow> v < t | None \<Rightarrow> False)"

text \<open>\<open>new Date(x)\<close> keeps the integral part of \<open>x\<close>.\<close>

definition js_trunc :: "num \<Rightarrow> int" where
  "js_trunc x = (if 0 \<le> x then \<lfloor>x\<rfloor> else \<lceil>x\<rceil>)"

definition fallbackCutoff :: "num \<Rightarrow> ms \<Rightarrow> ms" where
  "fallbackCutoff hours now = js_trunc (of_int now - hours * of_int hour_ms)"

definition paymentInitiatedCutoff :: "cron_env \<Rightarrow> ms" where
  "paymentInitiatedCutoff env = k_now env - kc_graceMinutes (k_cfg env) * minute_ms"

definition payment_is :: "db \<Rightarrow> booking \<Rightarrow> (payment \<Rightarrow> bool) \<Rightarrow> bool" where
  "payment_is d b q = (case payment_of d b of None \<Rightarrow> False | Some p \<Rightarrow> q p)"

definition never_sent :: "payment \<Rightarrow> bool" where
  "never_sent p = (p_gatewayBasketId p = None)"

definition sent_long_ago :: "ms \<Rightarrow> payment \<Rightarrow> bool" where
  "sent_long_ago cutoff p =
     (p_gatewayBasketId p \<noteq> None \<and>
      (sql_lt (p_firstInitiatedAt p) cutoff \<or> p_firstInitiatedAt p = None \<and> sql_lt (p_initiatedAt p) cutoff))"

text \<open>The four cases of the query, in its order.\<close>

definition stale :: "cron_env \<Rightarrow> num \<Rightarrow> db \<Rightarrow> booking \<Rightarrow> bool" where
  "stale env hours d b =
     (b_status b = PENDING \<and>
      (b_paymentId b = None \<and> sql_lt (b_reservedUntil b) (k_now env) \<or>
       payment_is d b never_sent \<and> sql_lt (b_reservedUntil b) (k_now env) \<or>
       sql_lt (b_reservedUntil b) (k_now env) \<and> payment_is d b (sent_long_ago (paymentInitiatedCutoff env)) \<or>
       b_createdAt b < fallbackCutoff hours (k_now env)))"

definition REAP_BATCH :: nat where
  "REAP_BATCH = 1000"

definition stale_batch :: "cron_env \<Rightarrow> num \<Rightarrow> db \<Rightarrow> booking list" where
  "stale_batch env hours d = take REAP_BATCH (sort_key b_createdAt (find_many (stale env hours d) (bookings d)))"

section \<open>Reaping\<close>

text \<open>
  One booking: claimed by deleting it if it is still \<open>PENDING\<close>, and only then are the coupon use and
  the redeemed points of the scanned row returned.
\<close>

definition reap_one :: "cron_env \<Rightarrow> booking \<Rightarrow> db \<Rightarrow> exn + (uid option \<times> db)" where
  "reap_one env b tx =
     (let sel = (\<lambda>x. b_id x = b_id b \<and> b_status x = PENDING) in
      if count_rows sel (bookings tx) = 0 then Inr (None, tx)
      else
        let tx1 = tx\<lparr>bookings := delete_many sel (bookings tx)\<rparr>;
            tx2 = refundCouponUsage tx1 (b_couponCode b) (b_customerId b) (k_now env)
        in if b_pointsRedeemed b > 0
           then and_then (refund tx2 (b_customerId b) (b_pointsRedeemed b) (b_id b) CANCEL_REFUND_UNPAID SYSTEM
                   (Some cron_actor)) (\<lambda>(_, tx3). Inr (Some (b_id b), tx3))
           else Inr (Some (b_id b), tx2))"

fun reap_all :: "cron_env \<Rightarrow> booking list \<Rightarrow> db \<Rightarrow> exn + (uid list \<times> db)" where
  "reap_all env [] tx = Inr ([], tx)"
| "reap_all env (b # bs) tx =
     and_then (reap_one env b tx) (\<lambda>(claim, tx1).
     and_then (reap_all env bs tx1) (\<lambda>(claims, tx2).
     Inr (case claim of Some i \<Rightarrow> i # claims | None \<Rightarrow> claims, tx2)))"

definition payment_ids :: "booking list \<Rightarrow> uid list" where
  "payment_ids bs = concat (map (\<lambda>b. case b_paymentId b of Some p \<Rightarrow> [p] | None \<Rightarrow> []) bs)"

definition mark_failed :: "payment \<Rightarrow> payment" where
  "mark_failed p = p\<lparr>p_status := FAILED\<rparr>"

definition fail_pending :: "uid list \<Rightarrow> db \<Rightarrow> db" where
  "fail_pending ids tx =
     tx\<lparr>payments := update_many (\<lambda>p. p_id p \<in> set ids \<and> p_status p = PAY_PENDING) mark_failed (payments tx)\<rparr>"

definition reap_tx :: "cron_env \<Rightarrow> booking list \<Rightarrow> db \<Rightarrow> exn + (uid list \<times> db)" where
  "reap_tx env bs tx =
     and_then (reap_all env bs tx) (\<lambda>(claimed, tx1). Inr (claimed, fail_pending (payment_ids bs) tx1))"

definition at_db :: "interference \<Rightarrow> world \<Rightarrow> world" where
  "at_db i w = w\<lparr>w_db := i (w_db w)\<rparr>"

text \<open>A fallback that is not a number makes the cutoff an invalid date, and the query throws.\<close>

definition runAutoCancelStalePendingBookings :: "cron_env \<Rightarrow> interference \<Rightarrow> world \<Rightarrow> (exn + uid list) \<times> world" where
  "runAutoCancelStalePendingBookings env interfere w =
     (case kc_fallbackHours (k_cfg env) of
        NotFinite \<Rightarrow> (Inl InternalError, w)
      | Finite hours \<Rightarrow>
          let staleBookings = stale_batch env hours (w_db w) in
          if staleBookings = [] then (Inr [], w)
          else case transaction (reap_tx env staleBookings) (at_db interfere w) of
                 (Inl e, w1) \<Rightarrow> (Inl e, w1)
               | (Inr claims, w1) \<Rightarrow>
                   (Inr claims,
                    emit (map (\<lambda>b. InvalidateAvailability (b_activityId b)) (filter (\<lambda>b. b_id b \<in> set claims) staleBookings)
                          @ [Audit SYSTEM cron_actor AUTO_CANCEL_STALE_BOOKINGS 0]) w1))"

definition autoCancelStalePendingBookings ::
  "cron_env \<Rightarrow> uid \<Rightarrow> interference \<Rightarrow> redis \<times> world \<Rightarrow> (exn + uid list option) \<times> redis \<times> world" where
  "autoCancelStalePendingBookings env token interfere s =
     withLeaderLock (CronLock ''cron:cancel-stale-pending'') (10 * minute_ms) token
       (\<lambda>(r, w). case runAutoCancelStalePendingBookings env interfere w of (res, w') \<Rightarrow> (res, r, w')) s"

section \<open>Awarding points\<close>

definition awardable :: "uid \<Rightarrow> booking \<Rightarrow> bool" where
  "awardable bid x = (b_id x = bid \<and> (b_status x = CONFIRMED \<or> b_status x = COMPLETED) \<and> \<not> b_pointsAwarded x)"

definition mark_awarded :: "booking \<Rightarrow> booking" where
  "mark_awarded b = b\<lparr>b_pointsAwarded := True\<rparr>"

definition award_tx :: "booking \<Rightarrow> num \<Rightarrow> db \<Rightarrow> exn + (unit \<times> db)" where
  "award_tx b points tx =
     (if count_rows (awardable (b_id b)) (bookings tx) = 0 then Inr ((), tx)
      else and_then (earn (tx\<lparr>bookings := update_many (awardable (b_id b)) mark_awarded (bookings tx)\<rparr>)
              (b_customerId b) points (b_id b)) (\<lambda>(_, tx1). Inr ((), tx1)))"

definition points_for :: "num \<Rightarrow> booking \<Rightarrow> num" where
  "points_for rate b = computeEarnedPoints (b_totalPrice b) (b_pointsDiscount b) rate"

text \<open>The loop: an error of one booking is logged, and the next is tried.\<close>

fun award_each :: "(uid \<Rightarrow> interference) \<Rightarrow> num \<Rightarrow> booking list \<Rightarrow> world \<Rightarrow> num \<times> world" where
  "award_each races rate [] w = (0, w)"
| "award_each races rate (b # bs) w =
     (if points_for rate b \<le> 0 then award_each races rate bs w
      else case transaction (award_tx b (points_for rate b)) (at_db (races (b_id b)) w) of
             (Inl e, w1) \<Rightarrow> award_each races rate bs w1
           | (Inr _, w1) \<Rightarrow> (case award_each races rate bs w1 of (rest, w2) \<Rightarrow> (points_for rate b + rest, w2)))"

definition awardLoyaltyForBookings :: "(uid \<Rightarrow> interference) \<Rightarrow> booking list \<Rightarrow> world \<Rightarrow> num \<times> world" where
  "awardLoyaltyForBookings races bs w =
     (if bs = [] then (0, w)
      else case load_loyalty_config (w_db w) of
             (cfg, d) \<Rightarrow> award_each races (lc_pointsPerQar cfg) bs (w\<lparr>w_db := d\<rparr>))"

section \<open>Completing bookings\<close>

definition MAX_TZ_OFFSET_MS :: ms where
  "MAX_TZ_OFFSET_MS = 14 * 60 * 60 * 1000"

definition booking_tz :: "db \<Rightarrow> booking \<Rightarrow> string" where
  "booking_tz d b =
     (case find_first (\<lambda>a. a_id a = b_activityId b) (activities d) of
        None \<Rightarrow> ''UTC''
      | Some a \<Rightarrow> (case find_first (\<lambda>c. co_id c = a_countryId a) (countries d) of
                     None \<Rightarrow> ''UTC'' | Some c \<Rightarrow> co_timezone c))"

definition local_now :: "cron_env \<Rightarrow> db \<Rightarrow> booking \<Rightarrow> ms" where
  "local_now env d b = nowInTimezone (k_tz env) (booking_tz d b) (k_now env)"

definition award_candidate :: "ms \<Rightarrow> booking \<Rightarrow> bool" where
  "award_candidate coarseCutoff b = (b_status b = CONFIRMED \<and> \<not> b_pointsAwarded b \<and> b_start b < coarseCutoff)"

definition award_due :: "cron_env \<Rightarrow> db \<Rightarrow> booking \<Rightarrow> bool" where
  "award_due env d b =
     (of_int (b_start b) + kc_awardDelayMinutes (k_cfg env) * of_int minute_ms \<le> (of_int (local_now env d b) :: num))"

definition award_batch :: "cron_env \<Rightarrow> db \<Rightarrow> booking list" where
  "award_batch env d =
     filter (award_due env d) (take 1000 (sort_key b_start
       (find_many (award_candidate (k_now env + MAX_TZ_OFFSET_MS)) (bookings d))))"

definition has_ended :: "cron_env \<Rightarrow> db \<Rightarrow> booking \<Rightarrow> bool" where
  "has_ended env d b = (b_end b \<le> local_now env d b)"

definition complete_batch :: "cron_env \<Rightarrow> db \<Rightarrow> booking list" where
  "complete_batch env d =
     filter (has_ended env d)
       (find_many (\<lambda>b. b_status b = CONFIRMED \<and> b_end b < k_now env + MAX_TZ_OFFSET_MS) (bookings d))"

definition mark_completed :: "booking \<Rightarrow> booking" where
  "mark_completed b = b\<lparr>b_status := COMPLETED\<rparr>"

definition complete_rows :: "uid list \<Rightarrow> db \<Rightarrow> db" where
  "complete_rows ids d =
     d\<lparr>bookings := update_many (\<lambda>b. b_id b \<in> set ids \<and> b_status b = CONFIRMED) mark_completed (bookings d)\<rparr>"

text \<open>Where other requests can come in between.\<close>

record complete_races =
  cr_award :: "uid \<Rightarrow> interference"
  cr_scan :: interference
  cr_update :: interference
  cr_late :: "uid \<Rightarrow> interference"

definition award_pass :: "cron_env \<Rightarrow> complete_races \<Rightarrow> world \<Rightarrow> world" where
  "award_pass env rc w = snd (awardLoyaltyForBookings (cr_award rc) (award_batch env (w_db w)) w)"

definition complete_pass :: "cron_env \<Rightarrow> complete_races \<Rightarrow> world \<Rightarrow> world" where
  "complete_pass env rc w =
     (let bookingsToComplete = complete_batch env (w_db w) in
      if bookingsToComplete = [] then w
      else
        let w1 = at_db (complete_rows (map b_id bookingsToComplete)) (at_db (cr_update rc) w);
            w2 = snd (awardLoyaltyForBookings (cr_late rc) (filter (\<lambda>b. \<not> b_pointsAwarded b) bookingsToComplete) w1)
        in emit [Audit SYSTEM cron_actor AUTO_COMPLETE_PAST_BOOKINGS 0] w2)"

definition runAutoCompletePastBookings :: "cron_env \<Rightarrow> complete_races \<Rightarrow> world \<Rightarrow> world" where
  "runAutoCompletePastBookings env rc w = complete_pass env rc (at_db (cr_scan rc) (award_pass env rc w))"

definition autoCompletePastBookings ::
  "cron_env \<Rightarrow> uid \<Rightarrow> complete_races \<Rightarrow> redis \<times> world \<Rightarrow> (exn + unit option) \<times> redis \<times> world" where
  "autoCompletePastBookings env token rc s =
     withLeaderLock (CronLock ''cron:auto-complete-bookings'') (15 * minute_ms) token
       (\<lambda>(r, w). (Inr (), r, runAutoCompletePastBookings env rc w)) s"

section \<open>Coupons\<close>

definition past_validity :: "ms \<Rightarrow> coupon \<Rightarrow> bool" where
  "past_validity now c = (cp_status c = APPROVED \<and> cp_validTo c < now)"

definition runAutoExpireCoupons :: "cron_env \<Rightarrow> world \<Rightarrow> world" where
  "runAutoExpireCoupons env w =
     (let count = count_rows (past_validity (k_now env)) (coupons (w_db w));
          w1 = at_db (update_coupons (past_validity (k_now env)) (set_status EXPIRED)) w
      in if count > 0 then emit [Audit SYSTEM cron_actor AUTO_EXPIRE_COUPONS 0] w1 else w1)"

definition autoExpireCoupons :: "cron_env \<Rightarrow> uid \<Rightarrow> redis \<times> world \<Rightarrow> (exn + unit option) \<times> redis \<times> world" where
  "autoExpireCoupons env token s =
     withLeaderLock (CronLock ''cron:auto-expire-coupons'') (30 * minute_ms) token
       (\<lambda>(r, w). (Inr (), r, runAutoExpireCoupons env w)) s"

section \<open>Pruning\<close>

text \<open>
  \<open>cutoff.setDate(cutoff.getDate() - days)\<close> on a server that runs in UTC: the day of the month is
  truncated to an integer, and the date moves by whole days. NaN gives an invalid date, and the query throws.
\<close>

definition days_back :: "ms \<Rightarrow> env_number \<Rightarrow> exn + ms" where
  "days_back now days =
     (case days of
        NotFinite \<Rightarrow> Inl InternalError
      | Finite q \<Rightarrow>
          let dom = cd (civil_of_day (now div day_ms))
          in Inr (now + (js_trunc (of_int dom - q) - dom) * day_ms))"

text \<open>Tables only these jobs delete from: refresh tokens by expiry, security rows by creation, audit rows.\<close>

record audit_log =
  al_financial :: bool
  al_createdAt :: ms
  al_archivedAt :: "ms option"

record archive =
  ar_tokens :: "ms list"
  ar_security :: "ms list"
  ar_audit :: "audit_log list"

definition cleanExpiredRefreshTokens :: "cron_env \<Rightarrow> archive \<Rightarrow> exn + (nat \<times> archive)" where
  "cleanExpiredRefreshTokens env a =
     Inr (count_rows (\<lambda>t. t < k_now env) (ar_tokens a), a\<lparr>ar_tokens := delete_many (\<lambda>t. t < k_now env) (ar_tokens a)\<rparr>)"

definition cleanOldSecurityLogs :: "cron_env \<Rightarrow> archive \<Rightarrow> exn + (nat \<times> archive)" where
  "cleanOldSecurityLogs env a =
     and_then (days_back (k_now env) (kc_securityRetention (k_cfg env))) (\<lambda>cutoff.
       Inr (count_rows (\<lambda>t. t < cutoff) (ar_security a), a\<lparr>ar_security := delete_many (\<lambda>t. t < cutoff) (ar_security a)\<rparr>))"

definition archivable :: "bool \<Rightarrow> ms \<Rightarrow> audit_log \<Rightarrow> bool" where
  "archivable financial cutoff l = (al_financial l = financial \<and> al_createdAt l < cutoff \<and> al_archivedAt l = None)"

definition mark_archived :: "ms \<Rightarrow> audit_log \<Rightarrow> audit_log" where
  "mark_archived now l = l\<lparr>al_archivedAt := Some now\<rparr>"

text \<open>Two updates in parallel, of rows of different categories.\<close>

definition cleanOldAuditLogs :: "cron_env \<Rightarrow> archive \<Rightarrow> exn + (nat \<times> archive)" where
  "cleanOldAuditLogs env a =
     and_then (days_back (k_now env) (kc_auditRetention (k_cfg env))) (\<lambda>operationalCutoff.
     and_then (days_back (k_now env) (kc_financialRetention (k_cfg env))) (\<lambda>financialCutoff.
       let n1 = count_rows (archivable False operationalCutoff) (ar_audit a);
           ls = update_many (archivable False operationalCutoff) (mark_archived (k_now env)) (ar_audit a);
           n2 = count_rows (archivable True financialCutoff) ls
       in Inr (n1 + n2, a\<lparr>ar_audit := update_many (archivable True financialCutoff) (mark_archived (k_now env)) ls\<rparr>)))"

definition coupon_prunable :: "ms \<Rightarrow> coupon \<Rightarrow> bool" where
  "coupon_prunable cutoff c = (cp_status c = EXPIRED \<and> cp_validTo c < cutoff)"

text \<open>Claims of a deleted coupon go with it (\<open>onDelete: Cascade\<close>).\<close>

definition cleanOldExpiredCoupons :: "cron_env \<Rightarrow> db \<Rightarrow> exn + (nat \<times> db)" where
  "cleanOldExpiredCoupons env d =
     and_then (days_back (k_now env) (kc_couponRetention (k_cfg env))) (\<lambda>cutoff.
       let gone = map cp_id (find_many (coupon_prunable cutoff) (coupons d))
       in Inr (length gone, d\<lparr>coupons := delete_many (coupon_prunable cutoff) (coupons d),
                              claimed := delete_many (\<lambda>c. cl_couponId c \<in> set gone) (claimed d)\<rparr>))"

definition outbox_prunable :: "ms \<Rightarrow> outbox_row \<Rightarrow> bool" where
  "outbox_prunable cutoff o' =
     (o_status o' = OUTBOX_SENT \<and> sql_lt (o_sentAt o') cutoff \<or> o_status o' = OUTBOX_FAILED \<and> sql_lt (o_failedAt o') cutoff)"

definition cleanOldOutboxRows :: "cron_env \<Rightarrow> db \<Rightarrow> exn + (nat \<times> db)" where
  "cleanOldOutboxRows env d =
     and_then (days_back (k_now env) (Finite (of_int (kc_outboxRetention (k_cfg env))))) (\<lambda>cutoff.
       Inr (count_rows (outbox_prunable cutoff) (outbox d), d\<lparr>outbox := delete_many (outbox_prunable cutoff) (outbox d)\<rparr>))"

text \<open>\<open>Promise.allSettled\<close>: a task that is rejected leaves the others alone.\<close>

definition settled :: "('s \<Rightarrow> exn + (nat \<times> 's)) \<Rightarrow> 's \<Rightarrow> 's" where
  "settled task s = (case task s of Inl e \<Rightarrow> s | Inr (n, s') \<Rightarrow> s')"

definition run_daily_cleanup :: "cron_env \<Rightarrow> archive \<times> world \<Rightarrow> archive \<times> world" where
  "run_daily_cleanup env s =
     (case s of (a, w) \<Rightarrow>
        (settled (cleanOldAuditLogs env) (settled (cleanOldSecurityLogs env) (settled (cleanExpiredRefreshTokens env) a)),
         at_db (settled (cleanOldOutboxRows env)) (at_db (settled (cleanOldExpiredCoupons env)) w)))"

definition handleDailyCleanup ::
  "cron_env \<Rightarrow> uid \<Rightarrow> redis \<times> archive \<times> world \<Rightarrow> (exn + unit option) \<times> redis \<times> archive \<times> world" where
  "handleDailyCleanup env token s =
     withLeaderLock (CronLock ''cron:daily-cleanup'') (60 * minute_ms) token
       (\<lambda>(r, s). (Inr (), r, run_daily_cleanup env s)) s"

end
