(* ===== verification/CleanupProps.thy ===== *)
theory CleanupProps
  imports Cleanup CancelProps
begin

text \<open>
  The scheduled jobs: what a run of the reaper deletes and gives back, that it spares every booking
  that is no longer pending, that a backlog drains, that points are awarded at most once, and that
  the jobs keep the invariants of points and coupons.
\<close>

section \<open>Reaping one booking\<close>

definition reap_row :: "booking \<Rightarrow> num \<Rightarrow> ledger_row" where
  "reap_row b bal = credit_row (b_customerId b) (round2 (b_pointsRedeemed b)) (b_id b) CANCEL_REFUND_UNPAID SYSTEM
     (Some cron_actor) bal"

definition pending_row :: "uid \<Rightarrow> booking \<Rightarrow> bool" where
  "pending_row i x = (b_id x = i \<and> b_status x = PENDING)"

lemma at_db_db [simp]: "w_db (at_db i w) = i (w_db w)" "w_fx (at_db i w) = w_fx w"
  by (simp_all add: at_db_def)

text \<open>Either nothing is claimed and nothing changes, or the booking goes and its row is posted.\<close>

lemma reap_one_Inr [cron]:
  assumes "reap_one env b tx = Inr (c, tx')" "points_ok tx"
  shows "c = None \<and> tx' = tx \<and> (\<forall>x \<in> set (bookings tx). \<not> pending_row (b_id b) x) \<or>
    c = Some (b_id b) \<and> (\<exists>x \<in> set (bookings tx). pending_row (b_id b) x) \<and>
    bookings tx' = delete_many (pending_row (b_id b)) (bookings tx) \<and> payments tx' = payments tx \<and> points_ok tx' \<and>
    coupons tx' = coupons (refundCouponUsage tx (b_couponCode b) (b_customerId b) (k_now env)) \<and>
    (if b_pointsRedeemed b > 0 then \<exists>bal. ledger tx' = ledger tx @ [reap_row b bal] else ledger tx' = ledger tx)"
proof (cases "count_rows (pending_row (b_id b)) (bookings tx) = 0")
  case True
  then show ?thesis using assms by (auto simp: reap_one_def pending_row_def [abs_def] count_rows_0)
next
  case False
  let ?tx1 = "tx\<lparr>bookings := delete_many (pending_row (b_id b)) (bookings tx)\<rparr>"
  let ?tx2 = "refundCouponUsage ?tx1 (b_couponCode b) (b_customerId b) (k_now env)"
  have ok: "points_ok ?tx2" using points_ok_same [of ?tx2 tx] assms(2) by simp
  have cs: "coupons ?tx2 = coupons (refundCouponUsage tx (b_couponCode b) (b_customerId b) (k_now env))"
    by (rule refundCouponUsage_same) simp
  have ex: "\<exists>x \<in> set (bookings tx). pending_row (b_id b) x" using False by (auto simp: count_rows_0)
  show ?thesis
  proof (cases "b_pointsRedeemed b > 0")
    case True
    then obtain bal where r: "refund ?tx2 (b_customerId b) (b_pointsRedeemed b) (b_id b) CANCEL_REFUND_UNPAID SYSTEM
        (Some cron_actor) = Inr (bal, tx')" and c: "c = Some (b_id b)"
      using assms(1) False by (auto simp: reap_one_def pending_row_def [abs_def] and_then_Inr Let_def)
    have "ledger tx' = ledger tx @ [reap_row b bal]" "points_ok tx'"
      using refund_posting [OF ok r] post_points_ok [OF ok] by (auto simp: reap_row_def)
    then show ?thesis using refund_tables [OF r] cs c ex True by auto
  next
    case False': False
    then have "c = Some (b_id b)" "tx' = ?tx2"
      using assms(1) False by (auto simp: reap_one_def pending_row_def [abs_def] Let_def)
    then show ?thesis using cs ex ok False' by simp
  qed
qed

section \<open>Reaping a batch\<close>

definition claimed_ids :: "booking list \<Rightarrow> booking list \<Rightarrow> uid list" where
  "claimed_ids bs rows = filter (\<lambda>i. \<exists>x \<in> set rows. pending_row i x) (map b_id bs)"

definition spared :: "uid set \<Rightarrow> booking \<Rightarrow> bool" where
  "spared ids x = (b_status x \<noteq> PENDING \<or> b_id x \<notin> ids)"

text \<open>The ledger rows of a run: one for each claimed booking that had redeemed points.\<close>

definition reap_rows :: "uid list \<Rightarrow> booking list \<Rightarrow> ledger_row list \<Rightarrow> bool" where
  "reap_rows claims bs rs \<longleftrightarrow>
     list_all2 (\<lambda>b r. \<exists>bal. r = reap_row b bal) (filter (\<lambda>b. b_id b \<in> set claims \<and> b_pointsRedeemed b > 0) bs) rs"

lemma list_all2_mem [table]: "list_all2 P xs ys \<Longrightarrow> y \<in> set ys \<Longrightarrow> \<exists>x \<in> set xs. P x y"
  by (induction rule: list_all2_induct) auto

lemma reap_rows_mem [cron]:
  assumes "reap_rows claims bs rs" "r \<in> set rs"
  shows "\<exists>b \<in> set bs. b_id b \<in> set claims \<and> (\<exists>bal. r = reap_row b bal)"
  using list_all2_mem [OF assms(1) [unfolded reap_rows_def] assms(2)] by auto

lemma reap_all_Inr [cron]:
  assumes "reap_all env bs tx = Inr (claims, tx')" "points_ok tx" "distinct (map b_id bs)"
  shows "claims = claimed_ids bs (bookings tx) \<and> bookings tx' = filter (spared (b_id ` set bs)) (bookings tx) \<and>
    payments tx' = payments tx \<and> points_ok tx' \<and> (coupons_ok tx \<longrightarrow> coupons_ok tx') \<and>
    (\<exists>rs. ledger tx' = ledger tx @ rs \<and> reap_rows claims bs rs)"
  using assms
proof (induction bs arbitrary: tx claims)
  case Nil
  then show ?case by (simp add: claimed_ids_def spared_def reap_rows_def)
next
  case (Cons b bs)
  then obtain c tx1 cs where one: "reap_one env b tx = Inr (c, tx1)" and all: "reap_all env bs tx1 = Inr (cs, tx')"
    and cl: "claims = (case c of Some i \<Rightarrow> i # cs | None \<Rightarrow> cs)"
    by (auto simp: and_then_Inr split: prod.splits)
  note o = reap_one_Inr [OF one Cons.prems(2)]
  have ok1: "points_ok tx1" using o Cons.prems(2) by auto
  have co1: "coupons_ok tx \<longrightarrow> coupons_ok tx1"
    using o refundCouponUsage_ok coupons_ok_same by metis
  have d: "distinct (map b_id bs)" "b_id b \<notin> b_id ` set bs" using Cons.prems(3) by auto
  note IH = Cons.IH [OF all ok1 d(1)]
  have bk: "bookings tx1 = filter (\<lambda>x. \<not> pending_row (b_id b) x) (bookings tx)"
    using o by (auto simp: delete_many_def filter_id_conv)
  have "filter (spared (b_id ` set bs)) (bookings tx1) = filter (spared (b_id ` set (b # bs))) (bookings tx)"
    by (auto simp: bk spared_def pending_row_def intro!: filter_cong)
  moreover have "(\<exists>x \<in> set (bookings tx1). pending_row i x) = (\<exists>x \<in> set (bookings tx). pending_row i x)"
    if "i \<in> b_id ` set bs" for i
    using that d(2) by (auto simp: bk pending_row_def)
  then have "claimed_ids bs (bookings tx1) = claimed_ids bs (bookings tx)"
    unfolding claimed_ids_def by (intro filter_cong) auto
  then have cs: "cs = claimed_ids bs (bookings tx)" using IH by simp
  then have "claims = claimed_ids (b # bs) (bookings tx)"
    using cl o by (auto simp: claimed_ids_def)
  moreover have "\<exists>rs. ledger tx' = ledger tx @ rs \<and> reap_rows claims (b # bs) rs"
  proof -
    obtain rs where rs: "ledger tx' = ledger tx1 @ rs" "reap_rows cs bs rs" using IH by blast
    have other: "b_id x \<noteq> b_id b" if "x \<in> set bs" for x
      using d(2) that by (metis imageI)
    have notin: "b_id b \<notin> set cs" using d(2) by (auto simp: cs claimed_ids_def)
    have "filter (\<lambda>x. b_id x \<in> set claims \<and> 0 < b_pointsRedeemed x) bs =
        filter (\<lambda>x. b_id x \<in> set cs \<and> 0 < b_pointsRedeemed x) bs"
      using other cl o by (intro filter_cong) auto
    then show ?thesis using o rs cl notin by (auto simp: reap_rows_def split: if_splits)
  qed
  ultimately show ?case using IH o co1 by auto
qed

section \<open>A run of the reaper\<close>

lemma stale_batch_mem [cron]: "b \<in> set (stale_batch env h d) \<Longrightarrow> b \<in> set (bookings d) \<and> stale env h d b"
  by (auto simp: stale_batch_def find_many_def dest: in_set_takeD)

lemma distinct_ids_sublist:
  assumes "unique_on k t"
  shows "distinct (map k (take n (sort_key f (filter p t))))"
proof -
  have "distinct (map k (filter p t))" using assms by (simp add: unique_on_def distinct_map_filter)
  then have "distinct (map k (sort_key f (filter p t)))" by (simp add: distinct_map)
  then show ?thesis by (simp add: take_map [symmetric])
qed

lemma stale_batch_distinct [cron]: "unique_on b_id (bookings d) \<Longrightarrow> distinct (map b_id (stale_batch env h d))"
  by (simp add: stale_batch_def find_many_def distinct_ids_sublist)

lemma fail_pending_simps [simp]:
  "bookings (fail_pending ids d) = bookings d" "ledger (fail_pending ids d) = ledger d" "users (fail_pending ids d) = users d"
  "coupons (fail_pending ids d) = coupons d" "activities (fail_pending ids d) = activities d"
  by (simp_all add: fail_pending_def)

text \<open>What a run leaves: the claimed bookings are gone and everything else of them is accounted for.\<close>

definition reaped :: "db \<Rightarrow> booking list \<Rightarrow> uid list \<Rightarrow> db \<Rightarrow> bool" where
  "reaped d bs claims d' \<longleftrightarrow>
     claims = claimed_ids bs (bookings d) \<and> bookings d' = filter (spared (b_id ` set bs)) (bookings d) \<and>
     payments d' = update_many (\<lambda>p. p_id p \<in> set (payment_ids bs) \<and> p_status p = PAY_PENDING) mark_failed (payments d) \<and>
     points_ok d' \<and> (coupons_ok d \<longrightarrow> coupons_ok d') \<and> (\<exists>rs. ledger d' = ledger d @ rs \<and> reap_rows claims bs rs)"

lemma reap_tx_Inr [cron]:
  assumes "reap_tx env bs d = Inr (claims, d')" "points_ok d" "distinct (map b_id bs)"
  shows "reaped d bs claims d'"
proof -
  obtain d1 where all: "reap_all env bs d = Inr (claims, d1)" and d': "d' = fail_pending (payment_ids bs) d1"
    using assms(1) by (auto simp: reap_tx_def and_then_Inr)
  have "points_ok d'" if "points_ok d1" using points_ok_same [of d' d1] that by (simp add: d')
  moreover have "coupons_ok d'" if "coupons_ok d1" using coupons_ok_same [of d' d1] that by (simp add: d')
  ultimately show ?thesis using reap_all_Inr [OF all assms(2,3)] by (auto simp: reaped_def d' fail_pending_def)
qed

lemma run_reaper_Inr [cron]:
  assumes "runAutoCancelStalePendingBookings env ifr w = (Inr claims, w')"
  shows "\<exists>h. kc_fallbackHours (k_cfg env) = Finite h \<and>
    (stale_batch env h (w_db w) = [] \<and> claims = [] \<and> w' = w \<or>
     stale_batch env h (w_db w) \<noteq> [] \<and> reap_tx env (stale_batch env h (w_db w)) (ifr (w_db w)) = Inr (claims, w_db w'))"
  using assms
  by (auto simp: runAutoCancelStalePendingBookings_def Let_def transaction_def split: env_number.splits if_splits sum.splits)

lemma run_reaper_Inl [cron]:
  assumes "runAutoCancelStalePendingBookings env ifr w = (Inl e, w')"
  shows "w' = w \<or> w' = at_db ifr w"
  using assms
  by (auto simp: runAutoCancelStalePendingBookings_def Let_def transaction_def split: env_number.splits if_splits sum.splits)

section \<open>The reaper makes progress\<close>

text \<open>What a booking has to satisfy so that giving its points back cannot fail.\<close>

definition returnable :: "db \<Rightarrow> booking \<Rightarrow> bool" where
  "returnable d b \<longleftrightarrow> (b_pointsRedeemed b > 0 \<longrightarrow>
     two_dp (b_pointsRedeemed b) \<and> balance_of d (b_customerId b) \<noteq> None \<and>
     \<not> ledger_taken d (Some (b_id b)) CANCEL_REFUND_UNPAID)"

lemma reap_one_succeeds [cron]:
  assumes "points_ok tx" "returnable tx b" "\<exists>x \<in> set (bookings tx). pending_row (b_id b) x"
  shows "\<exists>tx'. reap_one env b tx = Inr (Some (b_id b), tx') \<and>
    (\<forall>x. returnable tx x \<and> b_id x \<noteq> b_id b \<longrightarrow> returnable tx' x)"
proof -
  let ?tx1 = "tx\<lparr>bookings := delete_many (pending_row (b_id b)) (bookings tx)\<rparr>"
  let ?tx2 = "refundCouponUsage ?tx1 (b_couponCode b) (b_customerId b) (k_now env)"
  have ok: "points_ok ?tx2" "balance_of ?tx2 = balance_of tx"
    using points_ok_same [of ?tx2 tx] assms(1) by simp_all
  have lt: "ledger_taken ?tx2 = ledger_taken tx" by (rule ledger_taken_same) simp
  have cnt: "count_rows (pending_row (b_id b)) (bookings tx) \<noteq> 0" using assms(3) by (auto simp: count_rows_0)
  show ?thesis
  proof (cases "b_pointsRedeemed b > 0")
    case True
    then obtain y where y: "balance_of ?tx2 (b_customerId b) = Some y" and t: "two_dp (b_pointsRedeemed b)"
      and n: "\<not> ledger_taken ?tx2 (Some (b_id b)) CANCEL_REFUND_UNPAID"
      using assms(2) ok(2) by (auto simp: returnable_def lt)
    note r = refund_succeeds [OF y True t n, of SYSTEM "Some cron_actor"]
    let ?tx3 = "post ?tx2 (credit_row (b_customerId b) (b_pointsRedeemed b) (b_id b) CANCEL_REFUND_UNPAID SYSTEM
        (Some cron_actor) (y + b_pointsRedeemed b))"
    have "reap_one env b tx = Inr (Some (b_id b), ?tx3)"
      using r cnt True by (simp add: reap_one_def pending_row_def [abs_def] Let_def)
    moreover have "returnable ?tx3 x" if "returnable tx x" "b_id x \<noteq> b_id b" for x
      using that ok(2) lt by (auto simp: returnable_def)
    ultimately show ?thesis by blast
  next
    case False
    then have "reap_one env b tx = Inr (Some (b_id b), ?tx2)"
      using cnt by (simp add: reap_one_def pending_row_def [abs_def] Let_def)
    moreover have "returnable ?tx2 x = returnable tx x" for x
      using ok(2) lt by (simp add: returnable_def)
    ultimately show ?thesis by blast
  qed
qed

lemma reap_all_succeeds [cron]:
  assumes "points_ok tx" "\<forall>b \<in> set bs. returnable tx b \<and> (\<exists>x \<in> set (bookings tx). pending_row (b_id b) x)"
    and "distinct (map b_id bs)"
  shows "\<exists>tx'. reap_all env bs tx = Inr (map b_id bs, tx') \<and>
    (\<forall>x. returnable tx x \<and> b_id x \<notin> b_id ` set bs \<longrightarrow> returnable tx' x)"
  using assms
proof (induction bs arbitrary: tx)
  case (Cons b bs)
  obtain tx1 where one: "reap_one env b tx = Inr (Some (b_id b), tx1)"
    and keep: "\<forall>x. returnable tx x \<and> b_id x \<noteq> b_id b \<longrightarrow> returnable tx1 x"
    using reap_one_succeeds [of tx b env] Cons.prems by auto
  note o = reap_one_Inr [OF one Cons.prems(1)]
  have ok1: "points_ok tx1" and bk: "bookings tx1 = delete_many (pending_row (b_id b)) (bookings tx)"
    using o by auto
  have "returnable tx1 x \<and> (\<exists>y \<in> set (bookings tx1). pending_row (b_id x) y)" if "x \<in> set bs" for x
  proof -
    have "b_id x \<noteq> b_id b" using Cons.prems(3) that by (metis distinct.simps(2) image_eqI list.set_map list.simps(9))
    moreover have "returnable tx x \<and> (\<exists>y \<in> set (bookings tx). pending_row (b_id x) y)"
      using Cons.prems(2) that by simp
    ultimately show ?thesis
      using keep by (auto simp: bk delete_many_mem pending_row_def)
  qed
  moreover have "distinct (map b_id bs)" using Cons.prems(3) by simp
  ultimately obtain tx' where all: "reap_all env bs tx1 = Inr (map b_id bs, tx')"
    and keep': "\<forall>x. returnable tx1 x \<and> b_id x \<notin> b_id ` set bs \<longrightarrow> returnable tx' x"
    using Cons.IH [OF ok1] by blast
  then show ?case using one keep by auto
qed simp

definition drainable :: "db \<Rightarrow> bool" where
  "drainable d \<longleftrightarrow> points_ok d \<and> unique_on b_id (bookings d) \<and>
     (\<forall>b \<in> set (bookings d). b_status b = PENDING \<longrightarrow> returnable d b)"

definition backlog :: "cron_env \<Rightarrow> num \<Rightarrow> db \<Rightarrow> nat" where
  "backlog env h d = count_rows (stale env h d) (bookings d)"

lemma payment_is_fail_pending [cron]:
  assumes "\<And>p. q (mark_failed p) = q p"
  shows "payment_is (fail_pending ids d) b q = payment_is d b q"
proof -
  have "find_first (\<lambda>p. p_id p = i) (update_many (\<lambda>p. p_id p \<in> set ids \<and> p_status p = PAY_PENDING) mark_failed ps) =
      map_option (\<lambda>p. if p_id p \<in> set ids \<and> p_status p = PAY_PENDING then mark_failed p else p)
        (find_first (\<lambda>p. p_id p = i) ps)" for i ps
    by (induction ps) (auto simp: mark_failed_def)
  then show ?thesis
    by (auto simp: payment_is_def payment_of_def fail_pending_def assms split: option.split bind_splits)
qed

lemma payment_is_same [cron]: "payments d = payments d' \<Longrightarrow> payment_is d b q = payment_is d' b q"
  by (simp add: payment_is_def payment_of_def)

lemma stale_reaped [cron]:
  assumes "payments d' = payments (fail_pending ids d)"
  shows "stale env h d' = stale env h d"
proof
  fix b
  have "payment_is d' b q = payment_is d b q" if "\<And>p. q (mark_failed p) = q p" for q
    using payment_is_same [OF assms] payment_is_fail_pending [of q, OF that] by simp
  then have "payment_is d' b never_sent = payment_is d b never_sent"
    "payment_is d' b (sent_long_ago c) = payment_is d b (sent_long_ago c)" for c
    by (simp_all add: never_sent_def sent_long_ago_def mark_failed_def)
  then show "stale env h d' b = stale env h d b" by (simp add: stale_def)
qed

lemma length_filter_notin:
  assumes "distinct ys" "set zs \<subseteq> set ys" "distinct zs"
  shows "length (filter (\<lambda>y. y \<notin> set zs) ys) = length ys - length zs"
proof -
  have "length (filter (\<lambda>y. y \<notin> set zs) ys) = card (set ys - set zs)"
    using assms(1) by (simp add: distinct_length_filter Diff_eq Int_commute Compl_eq)
  then show ?thesis using assms by (simp add: card_Diff_subset distinct_card)
qed

lemma unique_on_distinct: "unique_on k t \<Longrightarrow> distinct t"
  by (auto simp: unique_on_def distinct_map)

lemma reaper_round [cron]:
  assumes h: "kc_fallbackHours (k_cfg env) = Finite h" and dr: "drainable (w_db w)"
  shows "\<exists>w'. runAutoCancelStalePendingBookings env id w = (Inr (map b_id (stale_batch env h (w_db w))), w') \<and>
    drainable (w_db w') \<and> backlog env h (w_db w') = backlog env h (w_db w) - REAP_BATCH"
proof (cases "stale_batch env h (w_db w) = []")
  case True
  then have "sort_key b_createdAt (filter (stale env h (w_db w)) (bookings (w_db w))) = []"
    by (simp add: stale_batch_def find_many_def REAP_BATCH_def)
  then have "length (filter (stale env h (w_db w)) (bookings (w_db w))) = 0"
    by (metis length_sort list.size(3))
  then have "backlog env h (w_db w) = 0" by (simp add: backlog_def count_rows_def)
  then show ?thesis using True h dr by (simp add: runAutoCancelStalePendingBookings_def)
next
  case False
  let ?d = "w_db w" let ?bs = "stale_batch env h ?d" let ?ids = "b_id ` set ?bs"
  have ok: "points_ok ?d" and uq: "unique_on b_id (bookings ?d)" using dr by (simp_all add: drainable_def)
  have mem: "b \<in> set (bookings ?d) \<and> stale env h ?d b \<and> b_status b = PENDING" if "b \<in> set ?bs" for b
    using stale_batch_mem [OF that] by (simp add: stale_def)
  have "\<forall>b \<in> set ?bs. returnable ?d b \<and> (\<exists>x \<in> set (bookings ?d). pending_row (b_id b) x)"
    using mem dr by (auto simp: drainable_def pending_row_def)
  then obtain d1 where all: "reap_all env ?bs ?d = Inr (map b_id ?bs, d1)"
    and keep: "\<forall>x. returnable ?d x \<and> b_id x \<notin> ?ids \<longrightarrow> returnable d1 x"
    using reap_all_succeeds [OF ok _ stale_batch_distinct [OF uq]] by blast
  define d' where "d' = fail_pending (payment_ids ?bs) d1"
  have tx: "reap_tx env ?bs ?d = Inr (map b_id ?bs, d')" using all by (simp add: reap_tx_def d'_def)
  then obtain w' where run: "runAutoCancelStalePendingBookings env id w = (Inr (map b_id ?bs), w')" and w': "w_db w' = d'"
    using h False by (simp add: runAutoCancelStalePendingBookings_def transaction_def at_db_def Let_def)
  have d1: "payments d1 = payments ?d" using reap_all_Inr [OF all ok stale_batch_distinct [OF uq]] by simp
  have r: "reaped ?d ?bs (map b_id ?bs) d'" by (rule reap_tx_Inr [OF tx ok stale_batch_distinct [OF uq]])
  then have bk: "bookings d' = filter (spared ?ids) (bookings ?d)" and ok': "points_ok d'" by (simp_all add: reaped_def)
  have sp: "spared ?ids x \<longleftrightarrow> x \<notin> set ?bs" if "x \<in> set (bookings ?d)" for x
    using mem unique_onD [OF uq that] by (auto simp: spared_def)
  have st: "stale env h d' = stale env h ?d"
    by (rule stale_reaped [of _ "payment_ids ?bs"]) (simp add: d'_def fail_pending_def d1)
  have "filter (stale env h d') (bookings d') = filter (\<lambda>x. x \<notin> set ?bs) (filter (stale env h ?d) (bookings ?d))"
    unfolding bk st filter_filter by (intro filter_cong) (auto simp: sp)
  moreover have "distinct ?bs" using stale_batch_distinct [OF uq] by (simp add: distinct_map)
  ultimately have "backlog env h d' = backlog env h ?d - length ?bs"
    using length_filter_notin [of "filter (stale env h ?d) (bookings ?d)" ?bs] mem unique_on_distinct [OF uq]
    by (auto simp: backlog_def count_rows_def)
  moreover have "length ?bs = min REAP_BATCH (backlog env h ?d)"
    by (simp add: stale_batch_def backlog_def count_rows_def find_many_def min.commute)
  moreover have "drainable d'"
  proof -
    have "returnable d' x" if "returnable d1 x" for x
      using that points_ok_same [of d' d1] ledger_taken_same [of d' d1] by (simp add: returnable_def d'_def)
    moreover have "unique_on b_id (bookings d')" using uq by (simp add: bk unique_on_def distinct_map_filter)
    ultimately show ?thesis using ok' keep dr by (auto simp: drainable_def bk spared_def)
  qed
  ultimately show ?thesis using run w' by auto
qed

definition reap_round :: "cron_env \<Rightarrow> world \<Rightarrow> world" where
  "reap_round env w = snd (runAutoCancelStalePendingBookings env id w)"

lemma reaper_rounds [cron]:
  assumes "kc_fallbackHours (k_cfg env) = Finite h" "drainable (w_db w)"
  shows "drainable (w_db ((reap_round env ^^ n) w)) \<and>
    backlog env h (w_db ((reap_round env ^^ n) w)) = backlog env h (w_db w) - n * REAP_BATCH"
proof (induction n)
  case 0
  then show ?case using assms(2) by simp
next
  case (Suc n)
  let ?v = "(reap_round env ^^ n) w"
  obtain w' where run: "runAutoCancelStalePendingBookings env id ?v = (Inr (map b_id (stale_batch env h (w_db ?v))), w')"
    and w': "drainable (w_db w')" "backlog env h (w_db w') = backlog env h (w_db ?v) - REAP_BATCH"
    using reaper_round [OF assms(1) conjunct1 [OF Suc]] by blast
  have "reap_round env ?v = w'" by (simp add: reap_round_def run)
  then show ?case using Suc w' by simp
qed

section \<open>Awarding\<close>

definition earn_row :: "num \<Rightarrow> booking \<Rightarrow> num \<Rightarrow> ledger_row" where
  "earn_row rate b bal = credit_row (b_customerId b) (round2 (points_for rate b)) (b_id b) BOOKING_EARN SYSTEM None bal"

lemma earn_row_simps [simp]:
  "l_bookingId (earn_row rate b bal) = Some (b_id b)" "l_source (earn_row rate b bal) = BOOKING_EARN"
  "l_userId (earn_row rate b bal) = b_customerId b"
  by (simp_all add: earn_row_def)

text \<open>The rows of a database that the award passes do not touch.\<close>

definition earn_rate :: "db \<Rightarrow> num" where
  "earn_rate d = lc_pointsPerQar (or_default default_loyalty (loyaltyConfig d))"

definition same_tables :: "db \<Rightarrow> db \<Rightarrow> bool" where
  "same_tables d d' \<longleftrightarrow> payments d' = payments d \<and> activities d' = activities d \<and> countries d' = countries d \<and>
     coupons d' = coupons d \<and> earn_rate d' = earn_rate d"

lemma same_tables_refl [simp]: "same_tables d d"
  by (simp add: same_tables_def)

lemma same_tables_trans: "same_tables d d1 \<Longrightarrow> same_tables d1 d2 \<Longrightarrow> same_tables d d2"
  by (simp add: same_tables_def)

definition flag_awarded :: "uid option set \<Rightarrow> booking \<Rightarrow> booking" where
  "flag_awarded ids x = (if Some (b_id x) \<in> ids \<and> awardable (b_id x) x then mark_awarded x else x)"

lemma flag_awarded_simps [simp]:
  "b_id (flag_awarded ids x) = b_id x" "b_status (flag_awarded ids x) = b_status x" "flag_awarded {} x = x"
  by (simp_all add: flag_awarded_def mark_awarded_def)

lemma award_tx_Inr [cron]:
  assumes "award_tx b p tx = Inr ((), tx')" "points_ok tx"
  shows "tx' = tx \<or>
    (\<exists>x \<in> set (bookings tx). awardable (b_id b) x) \<and> same_tables tx tx' \<and> points_ok tx' \<and>
    (\<exists>bal. ledger tx' = ledger tx @ [credit_row (b_customerId b) (round2 p) (b_id b) BOOKING_EARN SYSTEM None bal]) \<and>
    bookings tx' = map (flag_awarded {Some (b_id b)}) (bookings tx)"
proof (cases "count_rows (awardable (b_id b)) (bookings tx) = 0")
  case True
  then show ?thesis using assms(1) by (simp add: award_tx_def)
next
  case False
  let ?tx1 = "tx\<lparr>bookings := update_many (awardable (b_id b)) mark_awarded (bookings tx)\<rparr>"
  have ok: "points_ok ?tx1" using points_ok_same [of ?tx1 tx] assms(2) by simp
  obtain bal where e: "refund ?tx1 (b_customerId b) p (b_id b) BOOKING_EARN SYSTEM None = Inr (bal, tx')"
    using assms(1) False by (auto simp: award_tx_def and_then_Inr earn_eq_refund)
  have "bookings tx' = map (flag_awarded {Some (b_id b)}) (bookings tx)"
    using refund_tables [OF e] by (auto simp: update_many_def flag_awarded_def awardable_def)
  moreover have "\<exists>x \<in> set (bookings tx). awardable (b_id b) x" using False by (auto simp: count_rows_0)
  moreover note p = refund_posting [OF ok e]
  moreover have "points_ok tx'" using p post_points_ok [OF ok] by metis
  moreover have "same_tables tx tx'" using p by (auto simp: same_tables_def post_def earn_rate_def)
  moreover have "\<exists>bal. ledger tx' = ledger tx @ [credit_row (b_customerId b) (round2 p) (b_id b) BOOKING_EARN SYSTEM None bal]"
    using p by auto
  ultimately show ?thesis by blast
qed

text \<open>What the loop leaves when nothing comes in between.\<close>

definition awarded_rows :: "num \<Rightarrow> booking list \<Rightarrow> booking list \<Rightarrow> ledger_row list \<Rightarrow> bool" where
  "awarded_rows rate bs rows rs \<longleftrightarrow> distinct (map l_bookingId rs) \<and>
     (\<forall>r \<in> set rs. \<exists>b \<in> set bs. \<exists>bal. r = earn_row rate b bal \<and> 0 < points_for rate b \<and>
        (\<exists>x \<in> set rows. awardable (b_id b) x))"

definition awarded :: "num \<Rightarrow> booking list \<Rightarrow> db \<Rightarrow> db \<Rightarrow> bool" where
  "awarded rate bs d d' \<longleftrightarrow> points_ok d' \<and> same_tables d d' \<and>
     (\<exists>rs. ledger d' = ledger d @ rs \<and> awarded_rows rate bs (bookings d) rs \<and>
        bookings d' = map (flag_awarded (l_bookingId ` set rs)) (bookings d))"

lemma awarded_refl [cron]: "points_ok d \<Longrightarrow> awarded rate bs d d"
  by (auto simp: awarded_def awarded_rows_def map_idI intro!: exI [of _ "[]"])

lemma awardable_flag [simp]:
  "awardable i (flag_awarded ids x) \<longleftrightarrow> awardable i x \<and> Some i \<notin> ids"
  by (auto simp: awardable_def flag_awarded_def mark_awarded_def)

lemma flag_awarded_twice: "flag_awarded A (flag_awarded B x) = flag_awarded (A \<union> B) x"
  by (auto simp: flag_awarded_def awardable_def mark_awarded_def)

lemma awarded_then [cron]:
  assumes a: "awarded rate bs d d1" and b: "awarded rate cs d1 d2"
  shows "awarded rate (bs @ cs) d d2"
proof -
  obtain rs1 where 1: "ledger d1 = ledger d @ rs1" "awarded_rows rate bs (bookings d) rs1"
    "bookings d1 = map (flag_awarded (l_bookingId ` set rs1)) (bookings d)"
    using a by (auto simp: awarded_def)
  obtain rs2 where 2: "ledger d2 = ledger d1 @ rs2" "awarded_rows rate cs (bookings d1) rs2"
    "bookings d2 = map (flag_awarded (l_bookingId ` set rs2)) (bookings d1)"
    using b by (auto simp: awarded_def)
  have "l_bookingId r \<notin> l_bookingId ` set rs1" if r: "r \<in> set rs2" for r
    using r 2(2) by (fastforce simp: awarded_rows_def 1(3))
  then have "x \<notin> l_bookingId ` set rs1" if "x \<in> l_bookingId ` set rs2" for x using that by (elim imageE) simp
  then have "l_bookingId ` set rs1 \<inter> l_bookingId ` set rs2 = {}" by blast
  then have "distinct (map l_bookingId (rs1 @ rs2))"
    using 1(2) 2(2) by (simp add: awarded_rows_def)
  moreover have "\<exists>b \<in> set (bs @ cs). \<exists>bal. r = earn_row rate b bal \<and> 0 < points_for rate b \<and>
      (\<exists>x \<in> set (bookings d). awardable (b_id b) x)" if "r \<in> set (rs1 @ rs2)" for r
    using that 1(2) 2(2) unfolding awarded_rows_def 1(3) set_append by (fastforce simp: awarded_rows_def)
  ultimately have "awarded_rows rate (bs @ cs) (bookings d) (rs1 @ rs2)" by (simp add: awarded_rows_def)
  moreover have "bookings d2 = map (flag_awarded (l_bookingId ` set (rs1 @ rs2))) (bookings d)"
    by (auto simp: 1(3) 2(3) flag_awarded_twice Un_commute image_Un)
  ultimately show ?thesis using a b 1(1) 2(1) same_tables_trans by (auto simp: awarded_def)
qed

lemma awarded_mono: "awarded rate bs d d' \<Longrightarrow> set bs \<subseteq> set cs \<Longrightarrow> awarded rate cs d d'"
  by (fastforce simp: awarded_def awarded_rows_def)

text \<open>No other request.\<close>

definition quiet :: "uid \<Rightarrow> interference" where
  "quiet i d = d"

lemma at_db_quiet [simp]: "at_db (quiet i) w = w"
  by (simp add: at_db_def quiet_def)

lemma award_each_calm [cron]:
  assumes "points_ok (w_db w)"
  shows "awarded rate bs (w_db w) (w_db (snd (award_each quiet rate bs w)))"
  using assms
proof (induction bs arbitrary: w)
  case Nil
  then show ?case by (simp add: awarded_refl)
next
  case (Cons b bs)
  have skip: "awarded rate (b # bs) (w_db w) (w_db (snd (award_each quiet rate bs w)))"
    by (rule awarded_mono [OF Cons.IH [OF Cons.prems]]) auto
  show ?case
  proof (cases "points_for rate b \<le> 0")
    case True
    then show ?thesis using skip by simp
  next
    case False
    show ?thesis
    proof (cases "award_tx b (points_for rate b) (w_db w)")
      case (Inl e)
      then show ?thesis using False skip by (auto simp: transaction_def)
    next
      case (Inr y)
      then obtain d1 where d1: "award_tx b (points_for rate b) (w_db w) = Inr ((), d1)" by (cases y) auto
      have "awarded rate [b] (w_db w) d1"
        using award_tx_Inr [OF d1 Cons.prems] awarded_refl [OF Cons.prems] False
        by (fastforce simp: awarded_def awarded_rows_def earn_row_def)
      moreover have "awarded rate bs d1 (w_db (snd (award_each quiet rate bs (w\<lparr>w_db := d1\<rparr>))))"
        using Cons.IH [of "w\<lparr>w_db := d1\<rparr>"] calculation by (auto simp: awarded_def)
      ultimately show ?thesis
        using awarded_then [of rate "[b]" _ d1 bs] False by (auto simp: transaction_def d1 split: prod.splits)
    qed
  qed
qed

section \<open>A run of the completion job\<close>

definition quiet_run :: complete_races where
  "quiet_run = \<lparr>cr_award = quiet, cr_scan = quiet 0, cr_update = quiet 0, cr_late = quiet\<rparr>"

lemma awardLoyalty_calm [cron]:
  assumes "points_ok (w_db w)"
  shows "awarded (earn_rate (w_db w)) bs (w_db w) (w_db (snd (awardLoyaltyForBookings quiet bs w)))"
proof (cases "bs = []")
  case True
  then show ?thesis using assms by (simp add: awardLoyaltyForBookings_def awarded_refl)
next
  case False
  obtain cfg d where ld: "load_loyalty_config (w_db w) = (cfg, d)" by (cases "load_loyalty_config (w_db w)") auto
  then have d: "d = w_db w \<or> d = (w_db w)\<lparr>loyaltyConfig := Some cfg\<rparr>"
    by (auto simp: load_loyalty_config_def split: option.splits)
  have ok: "points_ok d" using d points_ok_same [of d "w_db w"] assms by auto
  have "earn_rate d = earn_rate (w_db w)" "lc_pointsPerQar cfg = earn_rate (w_db w)"
    using ld d by (auto simp: earn_rate_def load_loyalty_config_def or_default_def split: option.splits)
  moreover have "awarded (lc_pointsPerQar cfg) bs d (w_db (snd (award_each quiet (lc_pointsPerQar cfg) bs (w\<lparr>w_db := d\<rparr>))))"
    using award_each_calm [of "w\<lparr>w_db := d\<rparr>"] ok by simp
  ultimately show ?thesis
    using d False ld by (auto simp: awardLoyaltyForBookings_def awarded_def same_tables_def)
qed

lemma complete_rows_simps [simp]:
  "points_ok (complete_rows ids d) = points_ok d" "ledger (complete_rows ids d) = ledger d"
  "same_tables (complete_rows ids d) d' = same_tables d d'" "same_tables d' (complete_rows ids d) = same_tables d' d"
  "earn_rate (complete_rows ids d) = earn_rate d"
  using points_ok_same [of "complete_rows ids d" d]
  by (simp_all add: complete_rows_def same_tables_def earn_rate_def)

lemma local_now_same: "same_tables d d' \<Longrightarrow> local_now env d' = local_now env d"
  by (simp add: local_now_def booking_tz_def same_tables_def fun_eq_iff cong: option.case_cong)

text \<open>What the job may do to a booking: complete it when it has ended there, flag it when it earned.\<close>

definition ends :: "cron_env \<Rightarrow> db \<Rightarrow> booking \<Rightarrow> bool" where
  "ends env d b \<longleftrightarrow> b_status b = CONFIRMED \<and> has_ended env d b \<and> b_end b < k_now env + MAX_TZ_OFFSET_MS"

definition advanced :: "cron_env \<Rightarrow> db \<Rightarrow> uid option set \<Rightarrow> booking \<Rightarrow> booking" where
  "advanced env d ids b = b\<lparr>b_status := if ends env d b then COMPLETED else b_status b,
     b_pointsAwarded := b_pointsAwarded b \<or> Some (b_id b) \<in> ids\<rparr>"

text \<open>A row the job posts: for a confirmed booking not yet awarded that has started or ended.\<close>

definition earned :: "cron_env \<Rightarrow> db \<Rightarrow> ledger_row \<Rightarrow> bool" where
  "earned env d r \<longleftrightarrow> (\<exists>b \<in> set (bookings d). \<exists>bal. r = earn_row (earn_rate d) b bal \<and> 0 < points_for (earn_rate d) b \<and>
     b_status b = CONFIRMED \<and> \<not> b_pointsAwarded b \<and> (award_due env d b \<or> has_ended env d b))"

lemma flag_fields [simp]:
  "b_end (flag_awarded A x) = b_end x" "b_activityId (flag_awarded A x) = b_activityId x"
  "b_customerId (flag_awarded A x) = b_customerId x" "b_pointsRedeemed (flag_awarded A x) = b_pointsRedeemed x"
  "b_totalPrice (flag_awarded A x) = b_totalPrice x" "b_pointsDiscount (flag_awarded A x) = b_pointsDiscount x"
  by (simp_all add: flag_awarded_def mark_awarded_def)

lemma flag_earn [simp]: "earn_row rate (flag_awarded A x) bal = earn_row rate x bal" "points_for rate (flag_awarded A x) = points_for rate x"
  by (simp_all add: earn_row_def points_for_def)

lemma flag_local [simp]: "has_ended env d (flag_awarded A x) = has_ended env d x"
  by (simp add: has_ended_def local_now_def booking_tz_def)

lemma complete_batch_flagged [cron]:
  assumes "bookings d1 = map (flag_awarded A) (bookings d)" "same_tables d d1"
  shows "complete_batch env d1 = map (flag_awarded A) (filter (ends env d) (bookings d))"
proof -
  have "has_ended env d1 = has_ended env d" using local_now_same [OF assms(2)] by (simp add: has_ended_def fun_eq_iff)
  then show ?thesis
    by (auto simp: complete_batch_def find_many_def assms(1) filter_map comp_def ends_def conj_ac intro!: arg_cong [of _ _ "map _"] filter_cong)
qed

lemma awardable_self: "unique_on b_id t \<Longrightarrow> b \<in> set t \<Longrightarrow> \<exists>x \<in> set t. awardable (b_id b) x \<Longrightarrow> awardable (b_id b) b"
  using unique_onD by (fastforce simp: awardable_def)

lemma awarded_rows_ids: "awarded_rows rate bs rows rs \<Longrightarrow> Some i \<in> l_bookingId ` set rs \<Longrightarrow> \<exists>x \<in> set rows. awardable i x"
  by (force simp: awarded_rows_def)

definition completed_if :: "bool \<Rightarrow> booking \<Rightarrow> booking" where
  "completed_if c x = (if c then mark_completed x else x)"

lemma completed_if_simps [simp]:
  "b_id (completed_if c x) = b_id x" "b_pointsAwarded (completed_if c x) = b_pointsAwarded x"
  "b_status (completed_if c x) = (if c then COMPLETED else b_status x)"
  by (simp_all add: completed_if_def mark_completed_def)

lemma awardable_completed [simp]:
  "awardable i (completed_if (ends env d x) (flag_awarded A x)) \<longleftrightarrow> awardable i x \<and> Some i \<notin> A"
  by (auto simp: awardable_def ends_def completed_if_def mark_completed_def flag_awarded_def mark_awarded_def)

lemma advanced_eq:
  assumes "Some (b_id x) \<in> A \<union> B \<Longrightarrow> awardable (b_id x) x"
  shows "flag_awarded B (completed_if (ends env d x) (flag_awarded A x)) = advanced env d (A \<union> B) x"
proof (cases "Some (b_id x) \<in> A \<union> B")
  case True
  then have "awardable (b_id x) x" by (rule assms)
  then show ?thesis using True
    by (intro booking.equality) (auto simp: advanced_def flag_awarded_def completed_if_def mark_awarded_def mark_completed_def awardable_def)
next
  case False
  then show ?thesis
    by (intro booking.equality) (auto simp: advanced_def flag_awarded_def completed_if_def mark_completed_def)
qed

lemma complete_rows_flagged [cron]:
  assumes uq: "unique_on b_id (bookings d)" and b1: "bookings d1 = map (flag_awarded A) (bookings d)"
  shows "bookings (complete_rows (map b_id (map (flag_awarded A) (filter (ends env d) (bookings d)))) d1) =
    map (\<lambda>x. completed_if (ends env d x) (flag_awarded A x)) (bookings d)"
proof -
  have "b_id x \<in> b_id ` set (filter (ends env d) (bookings d)) \<and> b_status x = CONFIRMED \<longleftrightarrow> ends env d x"
    if "x \<in> set (bookings d)" for x
    using that unique_onD [OF uq that] by (auto simp: ends_def)
  then show ?thesis
    by (auto simp: complete_rows_def b1 update_many_def completed_if_def image_image)
qed

lemma completion_run [cron]:
  assumes ok: "points_ok (w_db w)" and uq: "unique_on b_id (bookings (w_db w))"
  shows "\<exists>rs. let d = w_db w; d' = w_db (runAutoCompletePastBookings env quiet_run w) in
    points_ok d' \<and> payments d' = payments d \<and> ledger d' = ledger d @ rs \<and> distinct (map l_bookingId rs) \<and>
    list_all (earned env d) rs \<and> bookings d' = map (advanced env d (l_bookingId ` set rs)) (bookings d)"
proof -
  let ?d = "w_db w" let ?rate = "earn_rate ?d"
  define w1 where "w1 = award_pass env quiet_run w"
  let ?d1 = "w_db w1"
  have "awarded ?rate (award_batch env ?d) ?d ?d1"
    using awardLoyalty_calm [OF ok] by (simp add: w1_def award_pass_def quiet_run_def)
  then obtain rs1 where ok1: "points_ok ?d1" and st1: "same_tables ?d ?d1" and l1: "ledger ?d1 = ledger ?d @ rs1"
    and r1: "awarded_rows ?rate (award_batch env ?d) (bookings ?d) rs1"
    and b1: "bookings ?d1 = map (flag_awarded (l_bookingId ` set rs1)) (bookings ?d)"
    by (auto simp: awarded_def)
  let ?A = "l_bookingId ` set rs1"
  let ?ended = "filter (ends env ?d) (bookings ?d)"
  have batch: "complete_batch env ?d1 = map (flag_awarded ?A) ?ended" by (rule complete_batch_flagged [OF b1 st1])
  have run: "runAutoCompletePastBookings env quiet_run w = complete_pass env quiet_run w1"
    by (simp add: runAutoCompletePastBookings_def w1_def) (simp add: quiet_run_def)
  have e1: "earned env ?d r" if r: "r \<in> set rs1" for r
  proof -
    obtain b bal where b: "b \<in> set (award_batch env ?d)" "r = earn_row ?rate b bal" "0 < points_for ?rate b"
      using r r1 by (auto simp: awarded_rows_def)
    then show ?thesis
      by (auto simp: earned_def award_batch_def find_many_def award_candidate_def dest!: in_set_takeD)
  qed
  show ?thesis
  proof (cases "?ended = []")
    case True
    then have fin: "runAutoCompletePastBookings env quiet_run w = w1" by (simp add: run complete_pass_def batch)
    have "flag_awarded ?A b = advanced env ?d ?A b" if b: "b \<in> set (bookings ?d)" for b
      using advanced_eq [of b ?A "{}" env ?d] awardable_self [OF uq b] awarded_rows_ids [OF r1] True b
      by (auto simp: filter_empty_conv completed_if_def)
    then show ?thesis using ok1 st1 l1 b1 e1 r1
      by (auto simp: fin Let_def same_tables_def list_all_iff awarded_rows_def intro!: exI [of _ rs1])
  next
    case False
    define d2 where "d2 = complete_rows (map b_id (map (flag_awarded ?A) ?ended)) ?d1"
    have b2: "bookings d2 = map (\<lambda>x. completed_if (ends env ?d x) (flag_awarded ?A x)) (bookings ?d)"
      unfolding d2_def by (rule complete_rows_flagged [OF uq b1])
    let ?late = "filter (\<lambda>b. \<not> b_pointsAwarded b) (map (flag_awarded ?A) ?ended)"
    define d3 where "d3 = w_db (snd (awardLoyaltyForBookings quiet ?late (w1\<lparr>w_db := d2\<rparr>)))"
    have fin: "w_db (runAutoCompletePastBookings env quiet_run w) = d3"
      using False by (simp add: run complete_pass_def batch Let_def d3_def d2_def) (simp add: quiet_run_def at_db_def quiet_def)
    have st2: "same_tables ?d d2" and ok2: "points_ok d2" and l2: "ledger d2 = ledger ?d @ rs1"
      using st1 ok1 l1 by (simp_all add: d2_def)
    have "awarded (earn_rate d2) ?late d2 d3"
      using awardLoyalty_calm [of "w1\<lparr>w_db := d2\<rparr>"] ok2 by (simp add: d3_def)
    then obtain rs2 where ok3: "points_ok d3" and st3: "same_tables d2 d3" and l3: "ledger d3 = ledger d2 @ rs2"
      and r2: "awarded_rows ?rate ?late (bookings d2) rs2"
      and b3: "bookings d3 = map (flag_awarded (l_bookingId ` set rs2)) (bookings d2)"
      using st2 by (auto simp: awarded_def same_tables_def)
    let ?B = "l_bookingId ` set rs2"
    have ids2: "Some i \<notin> ?A \<and> (\<exists>x \<in> set (bookings ?d). awardable i x)" if "Some i \<in> ?B" for i
      using awarded_rows_ids [OF r2 that] by (auto simp: b2)
    have "bookings d3 = map (advanced env ?d (?A \<union> ?B)) (bookings ?d)"
      using awardable_self [OF uq] awarded_rows_ids [OF r1] ids2 by (auto simp: b3 b2 intro!: advanced_eq)
    moreover have "earned env ?d r" if r: "r \<in> set rs2" for r
    proof -
      obtain x bal where x: "x \<in> set ?ended" "\<not> b_pointsAwarded (flag_awarded ?A x)" "r = earn_row ?rate x bal"
        "0 < points_for ?rate x"
        using r r2 by (auto simp: awarded_rows_def)
      then show ?thesis by (auto simp: earned_def ends_def flag_awarded_def mark_awarded_def split: if_splits)
    qed
    moreover have "distinct (map l_bookingId (rs1 @ rs2))"
    proof -
      have "l_bookingId r \<notin> ?A" if r: "r \<in> set rs2" for r
      proof -
        obtain i where i: "l_bookingId r = Some i" using r r2 by (auto simp: awarded_rows_def)
        then have "Some i \<in> ?B" using imageI [OF r, of l_bookingId] by simp
        then show ?thesis using ids2 i by simp
      qed
      then have "x \<notin> ?A" if "x \<in> ?B" for x using that by (elim imageE) simp
      then have "?A \<inter> ?B = {}" by blast
      then show ?thesis using r1 r2 by (simp add: awarded_rows_def)
    qed
    ultimately show ?thesis using e1 ok3 l3 l2 st2 st3
      by (intro exI [of _ "rs1 @ rs2"]) (auto simp: fin Let_def same_tables_def list_all_iff image_Un)
  qed
qed

section \<open>Cancellations that come in between\<close>

definition cancelled_in :: "uid \<Rightarrow> db \<Rightarrow> bool" where
  "cancelled_in i d \<longleftrightarrow> (\<forall>x \<in> set (bookings d). b_id x = i \<longrightarrow> b_status x = CANCELLED)"

definition earn_count :: "uid \<Rightarrow> db \<Rightarrow> nat" where
  "earn_count i d = count_rows (\<lambda>l. l_source l = BOOKING_EARN \<and> l_bookingId l = Some i) (ledger d)"

lemma award_tx_spares [cron]:
  assumes "award_tx b p tx = Inr ((), tx')"
  shows "(cancelled_in i tx \<longrightarrow> cancelled_in i tx') \<and> (cancelled_in i tx \<or> b_id b \<noteq> i \<longrightarrow> earn_count i tx' = earn_count i tx)"
proof (cases "count_rows (awardable (b_id b)) (bookings tx) = 0")
  case True
  then show ?thesis using assms by (simp add: award_tx_def)
next
  case False
  let ?tx1 = "tx\<lparr>bookings := update_many (awardable (b_id b)) mark_awarded (bookings tx)\<rparr>"
  obtain bal where e: "refund ?tx1 (b_customerId b) p (b_id b) BOOKING_EARN SYSTEM None = Inr (bal, tx')"
    using assms False by (auto simp: award_tx_def and_then_Inr earn_eq_refund)
  then have "bookings tx' = bookings ?tx1" "\<exists>r. ledger tx' = ledger tx @ [r] \<and> l_bookingId r = Some (b_id b)"
    using refund_tables [OF e] by (auto simp: refund_cases Let_def split: if_splits option.splits)
  moreover have "b_id b \<noteq> i" if "cancelled_in i tx"
    using False that by (auto simp: count_rows_0 awardable_def cancelled_in_def)
  ultimately show ?thesis
    by (auto simp: cancelled_in_def earn_count_def count_rows_def update_many_mem mark_awarded_def)
qed

lemma award_each_spares [cron]:
  assumes "\<And>j d. earn_count i (races j d) = earn_count i d"
    and "(\<forall>d. cancelled_in i (races i d)) \<or> cancelled_in i (w_db w) \<and> (\<forall>j d. cancelled_in i d \<longrightarrow> cancelled_in i (races j d))"
  shows "earn_count i (w_db (snd (award_each races rate bs w))) = earn_count i (w_db w) \<and>
    (cancelled_in i (w_db w) \<and> (\<forall>j d. cancelled_in i d \<longrightarrow> cancelled_in i (races j d)) \<longrightarrow>
     cancelled_in i (w_db (snd (award_each races rate bs w))))"
  using assms(2)
proof (induction bs arbitrary: w)
  case (Cons b bs)
  let ?keep = "\<forall>j d. cancelled_in i d \<longrightarrow> cancelled_in i (races j d)"
  let ?d = "races (b_id b) (w_db w)"
  show ?case
  proof (cases "points_for rate b \<le> 0")
    case True
    then show ?thesis using Cons.IH [of w] Cons.prems by simp
  next
    case False
    show ?thesis
    proof (cases "award_tx b (points_for rate b) ?d")
      case (Inl e)
      have "cancelled_in i (w_db w) \<and> ?keep \<longrightarrow> cancelled_in i ?d" by blast
      then show ?thesis using Cons.IH [of "at_db (races (b_id b)) w"] Cons.prems False Inl assms(1)
        by (auto simp: transaction_def)
    next
      case (Inr y)
      then obtain d1 where d1: "award_tx b (points_for rate b) ?d = Inr ((), d1)" by (cases y) auto
      have "cancelled_in i (w_db w) \<and> ?keep \<longrightarrow> cancelled_in i ?d" by blast
      moreover have "cancelled_in i ?d \<or> b_id b \<noteq> i" using Cons.prems by auto
      ultimately show ?thesis
        using Cons.IH [of "(at_db (races (b_id b)) w)\<lparr>w_db := d1\<rparr>"] award_tx_spares [OF d1, of i] Cons.prems False d1 assms(1)
        by (auto simp: transaction_def split: prod.splits)
    qed
  qed
qed simp

lemma awardLoyalty_spares [cron]:
  assumes "\<And>j d. earn_count i (races j d) = earn_count i d"
    and "(\<forall>d. cancelled_in i (races i d)) \<or> cancelled_in i (w_db w) \<and> (\<forall>j d. cancelled_in i d \<longrightarrow> cancelled_in i (races j d))"
  shows "earn_count i (w_db (snd (awardLoyaltyForBookings races bs w))) = earn_count i (w_db w) \<and>
    (cancelled_in i (w_db w) \<and> (\<forall>j d. cancelled_in i d \<longrightarrow> cancelled_in i (races j d)) \<longrightarrow>
     cancelled_in i (w_db (snd (awardLoyaltyForBookings races bs w))))"
proof -
  obtain cfg d where ld: "load_loyalty_config (w_db w) = (cfg, d)" by (cases "load_loyalty_config (w_db w)") auto
  then have "cancelled_in i d = cancelled_in i (w_db w)" "earn_count i d = earn_count i (w_db w)"
    by (auto simp: load_loyalty_config_def cancelled_in_def earn_count_def split: option.splits)
  then show ?thesis
    using award_each_spares [of i races "w\<lparr>w_db := d\<rparr>" "lc_pointsPerQar cfg" bs] assms ld
    by (simp add: awardLoyaltyForBookings_def)
qed

lemma complete_rows_spare [cron]:
  assumes "cancelled_in i d"
  shows "cancelled_in i (complete_rows ids d)"
  unfolding cancelled_in_def
proof (intro ballI impI)
  fix x assume "x \<in> set (bookings (complete_rows ids d))" and i: "b_id x = i"
  then obtain r where r: "r \<in> set (bookings d)"
    and x: "x = (if b_id r \<in> set ids \<and> b_status r = CONFIRMED then mark_completed r else r)"
    by (auto simp: complete_rows_def update_many_mem)
  then have "b_id r = i" using i by (simp add: mark_completed_def split: if_splits)
  then show "b_status x = CANCELLED" using r x assms by (simp add: cancelled_in_def)
qed

lemma complete_rows_earn [simp]: "earn_count i (complete_rows ids d) = earn_count i d"
  by (simp add: earn_count_def)

lemma completion_spares [cron]:
  assumes "\<And>d. cancelled_in i (cr_award rc i d)" "\<And>d. cancelled_in i (cr_update rc d)"
    and "\<And>j d. cancelled_in i d \<Longrightarrow> cancelled_in i (cr_late rc j d)"
    and "\<And>j d. earn_count i (cr_award rc j d) = earn_count i d" "\<And>d. earn_count i (cr_scan rc d) = earn_count i d"
      "\<And>d. earn_count i (cr_update rc d) = earn_count i d" "\<And>j d. earn_count i (cr_late rc j d) = earn_count i d"
  shows "let d' = w_db (runAutoCompletePastBookings env rc w) in
    earn_count i d' = earn_count i (w_db w) \<and>
    (d' = cr_scan rc (w_db (award_pass env rc w)) \<or> cancelled_in i d')"
proof -
  let ?w1 = "at_db (cr_scan rc) (award_pass env rc w)"
  let ?bs = "complete_batch env (w_db ?w1)"
  let ?w2 = "at_db (complete_rows (map b_id ?bs)) (at_db (cr_update rc) ?w1)"
  have 1: "earn_count i (w_db ?w1) = earn_count i (w_db w)"
    using awardLoyalty_spares [of i "cr_award rc" w] assms(1,4,5) by (simp add: award_pass_def)
  have e2: "earn_count i (w_db ?w2) = earn_count i (w_db ?w1)" using assms(6) by simp
  have c2: "cancelled_in i (w_db ?w2)" using assms(2) by (simp add: complete_rows_spare)
  have "earn_count i (w_db (snd (awardLoyaltyForBookings (cr_late rc) bs ?w2))) = earn_count i (w_db ?w2) \<and>
      cancelled_in i (w_db (snd (awardLoyaltyForBookings (cr_late rc) bs ?w2)))" for bs
  proof -
    have keep: "\<forall>j d. cancelled_in i d \<longrightarrow> cancelled_in i (cr_late rc j d)" using assms(3) by simp
    show ?thesis
      using awardLoyalty_spares [of i "cr_late rc" ?w2 bs, OF assms(7) disjI2 [OF conjI [OF c2 keep]]] c2 keep by simp
  qed
  then show ?thesis using 1 e2 by (simp add: runAutoCompletePastBookings_def complete_pass_def Let_def)
qed

section \<open>Coupons\<close>

lemma wf_set_status: "coupon_wf (set_status st c) = coupon_wf c"
  by (simp add: coupon_wf_def set_status_def split: option.split)

lemma expire_coupons_ok [cron]: "coupons_ok d \<Longrightarrow> coupons_ok (update_coupons (past_validity now) (set_status EXPIRED) d)"
  by (auto simp: coupons_ok_def update_coupons_def list_all_iff update_many_mem update_many_unique wf_set_status)

lemma prune_coupons_ok [cron]: "cleanOldExpiredCoupons env d = Inr (n, d') \<Longrightarrow> coupons_ok d \<Longrightarrow> coupons_ok d'"
  by (auto simp: cleanOldExpiredCoupons_def and_then_Inr Let_def coupons_ok_def list_all_iff delete_many_mem delete_many_unique)

end
