(* ===== verification/CleanupTheorems.thy ===== *)
theory CleanupTheorems
  imports CleanupProps PaymentTheorems
begin

text \<open>
  The properties of the scheduled jobs, with an example of each, and how the reaper and the recovery of
  late payments meet.
\<close>

section \<open>The reaper\<close>

text \<open>C13. The reaper never takes more than an abandoned reservation: whatever happened between its query and its
  transaction, a booking that is no longer pending stays as it is, points go back only for bookings that
  were still pending and are gone, one ledger row each, no payment row is deleted or leaves a state other
  than pending, and the invariants of points and coupons hold.\<close>

theorem reaper_spares_settled:
  assumes run: "runAutoCancelStalePendingBookings env ifr w = (Inr claims, w')" and "claims \<noteq> []"
    and "unique_on b_id (bookings (w_db w))" "points_ok (ifr (w_db w))" "coupons_ok (ifr (w_db w))"
  shows "(\<forall>b \<in> set (bookings (ifr (w_db w))). b_status b \<noteq> PENDING \<longrightarrow> b \<in> set (bookings (w_db w'))) \<and>
    (\<forall>i \<in> set claims. (\<exists>b \<in> set (bookings (ifr (w_db w))). pending_row i b) \<and>
       \<not> (\<exists>b \<in> set (bookings (w_db w')). pending_row i b)) \<and>
    (\<exists>rs. ledger (w_db w') = ledger (ifr (w_db w)) @ rs \<and> distinct (map l_bookingId rs) \<and>
       (\<forall>r \<in> set rs. \<exists>b \<in> set (bookings (w_db w)). b_id b \<in> set claims \<and> (\<exists>bal. r = reap_row b bal))) \<and>
    list_all2 (\<lambda>p p'. p' = p \<or> p_status p = PAY_PENDING \<and> p' = mark_failed p)
      (payments (ifr (w_db w))) (payments (w_db w')) \<and>
    points_ok (w_db w') \<and> coupons_ok (w_db w')"
proof -
  let ?d = "ifr (w_db w)" let ?d' = "w_db w'"
  obtain h where tx: "reap_tx env (stale_batch env h (w_db w)) ?d = Inr (claims, ?d')"
    using run_reaper_Inr [OF run] assms(2) by blast
  let ?bs = "stale_batch env h (w_db w)"
  note dist = stale_batch_distinct [OF assms(3), of env h]
  have r: "reaped ?d ?bs claims ?d'" by (rule reap_tx_Inr [OF tx assms(4) dist])
  then obtain rs where rs: "ledger ?d' = ledger ?d @ rs" "reap_rows claims ?bs rs" by (auto simp: reaped_def)
  have ids: "map l_bookingId rs = map (\<lambda>b. Some (b_id b)) (filter (\<lambda>b. b_id b \<in> set claims \<and> 0 < b_pointsRedeemed b) ?bs)"
    using rs(2) unfolding reap_rows_def by (induction rule: list_all2_induct) (auto simp: reap_row_def)
  have "distinct (map l_bookingId rs)"
    unfolding ids using dist by (auto simp: distinct_map inj_on_def)
  moreover have "\<exists>b \<in> set (bookings (w_db w)). b_id b \<in> set claims \<and> (\<exists>bal. r = reap_row b bal)" if "r \<in> set rs" for r
    using reap_rows_mem [OF rs(2) that] stale_batch_mem by blast
  moreover have "list_all2 (\<lambda>p p'. p' = p \<or> p_status p = PAY_PENDING \<and> p' = mark_failed p) (payments ?d) (payments ?d')"
    using r by (auto simp: reaped_def update_many_def list_all2_map2 list_all2_same)
  moreover have "\<forall>i \<in> set claims. (\<exists>b \<in> set (bookings ?d). pending_row i b) \<and> \<not> (\<exists>b \<in> set (bookings ?d'). pending_row i b)"
    using r by (auto simp: reaped_def claimed_ids_def spared_def pending_row_def)
  ultimately show ?thesis using r rs(1) assms(5) by (auto simp: reaped_def spared_def)
qed

definition sc_cron_config :: cleanup_config where
  "sc_cron_config = make_cleanup_config (Finite 90) (Finite 180) (Finite 2555) (Finite 30) (Finite 30) (Finite 4)
     (Finite 120) (Finite 5)"

text \<open>An hour after the example booking was made, and days later, when it has started.\<close>

definition sc_cron :: cron_env where
  "sc_cron = \<lparr>k_now = sc_now + hour_ms, k_tz = qatar_tz, k_cfg = sc_cron_config\<rparr>"

definition sc_cron_started :: cron_env where
  "sc_cron_started = sc_cron\<lparr>k_now := sc_start - 2 * hour_ms\<rparr>"

definition leave_as_is :: interference where
  "leave_as_is d = d"

lemma sc_reap:
  "fst (runAutoCancelStalePendingBookings sc_cron leave_as_is sc_world_booked) = Inr [100]"
  by code_simp

lemma sc_booked_points: "points_ok sc_db_booked"
  by (simp add: sc_db_booked_def sc_db_coupon_def sc_db_def balance_of_def
      points_ok_def unique_on_def rows_ok_def ledger_sum_def sum_rows_def sc_grant_def sc_customer_def sc_vendor_user_def
      two_dp_def All_less_Suc nth_Cons' Let_def exI [of _ 8000])

lemma sc_booked_coupons: "coupons_ok sc_db_booked"
  by (simp add: coupons_ok_def sc_db_booked_def sc_db_coupon_def unique_on_def coupon_wf_def sc_coupon_def)

lemma sc_booked_rows: "w_db sc_world_booked = sc_db_booked" "bookings sc_db_booked = [sc_booking]"
  by (simp_all add: sc_world_booked_def sc_db_booked_def)

theorem reaper_spares_settled_witness:
  "points_ok (w_db (snd (runAutoCancelStalePendingBookings sc_cron leave_as_is sc_world_booked)))"
proof -
  let ?x = "runAutoCancelStalePendingBookings sc_cron leave_as_is sc_world_booked"
  have x: "?x = (Inr [100], snd ?x)" using sc_reap by (metis prod.collapse)
  show ?thesis
    using reaper_spares_settled [OF x] sc_booked_points sc_booked_coupons
    by (simp add: leave_as_is_def sc_booked_rows unique_on_def)
qed

text \<open>Abandoned reservations do not pile up: when their points can be given back, every run of the reaper
  removes a thousand of them, oldest first, so that a backlog of \<open>n\<close> is gone after \<open>n / 1000\<close> runs.\<close>

theorem backlog_drains:
  assumes "kc_fallbackHours (k_cfg env) = Finite h" "drainable (w_db w)"
    and "backlog env h (w_db w) \<le> n * REAP_BATCH"
  shows "backlog env h (w_db ((reap_round env ^^ n) w)) = 0"
  using reaper_rounds [OF assms(1,2), of n] assms(3) by simp

theorem backlog_drains_witness:
  "backlog sc_cron 4 (w_db ((reap_round sc_cron ^^ 1) sc_world_booked)) = 0"
proof (rule backlog_drains)
  show "kc_fallbackHours (k_cfg sc_cron) = Finite 4" by (simp add: sc_cron_def sc_cron_config_def make_cleanup_config_def)
  have b: "balance_of sc_db_booked 7 = Some 80" by code_simp
  have "\<not> ledger_taken sc_db_booked (Some 100) CANCEL_REFUND_UNPAID" by code_simp
  then show "drainable (w_db sc_world_booked)"
    using sc_booked_points b two_dp_of_int [of 20]
    by (simp add: drainable_def sc_booked_rows unique_on_def returnable_def)
  show "backlog sc_cron 4 (w_db sc_world_booked) \<le> 1 * REAP_BATCH"
    by (simp add: backlog_def sc_booked_rows count_rows_def REAP_BATCH_def)
qed

section \<open>Awarding and completing\<close>

text \<open>C14. A run of the completion job, undisturbed: a booking becomes completed exactly when it is confirmed and
  has ended at the place of its activity; points are earned only for confirmed bookings that were not
  awarded before and have started (or ended) there, at most one ledger row per booking, and the flag is
  set for exactly those; nothing else of the bookings changes and the balances stay consistent.\<close>

theorem completion_run_exact:
  assumes "points_ok (w_db w)" "unique_on b_id (bookings (w_db w))"
  shows "\<exists>rs. let d = w_db w; d' = w_db (runAutoCompletePastBookings env quiet_run w) in
    points_ok d' \<and> payments d' = payments d \<and> ledger d' = ledger d @ rs \<and> distinct (map l_bookingId rs) \<and>
    list_all (earned env d) rs \<and> bookings d' = map (advanced env d (l_bookingId ` set rs)) (bookings d)"
  by (rule completion_run [OF assms])

definition sc_world_confirmed :: world where
  "sc_world_confirmed = \<lparr>w_db = sc_db_booked\<lparr>bookings := [sc_booking\<lparr>b_status := CONFIRMED, b_reservedUntil := None\<rparr>]\<rparr>, w_fx = []\<rparr>"

theorem completion_run_exact_witness:
  "points_ok (w_db (runAutoCompletePastBookings sc_cron_started quiet_run sc_world_confirmed))"
proof -
  have "points_ok (w_db sc_world_confirmed)"
    using points_ok_same [of "w_db sc_world_confirmed" sc_db_booked] sc_booked_points by (simp add: sc_world_confirmed_def)
  moreover have "unique_on b_id (bookings (w_db sc_world_confirmed))" by (simp add: sc_world_confirmed_def unique_on_def)
  ultimately show ?thesis using completion_run_exact [of sc_world_confirmed sc_cron_started] by (auto simp: Let_def)
qed

text \<open>A cancellation that gets in before the job's writes wins: the booking earns no points, and the job
  does not turn it into a completed one.\<close>

theorem cancellation_wins:
  assumes "\<And>d. cancelled_in i (cr_award rc i d)" "\<And>d. cancelled_in i (cr_update rc d)"
    and "\<And>j d. cancelled_in i d \<Longrightarrow> cancelled_in i (cr_late rc j d)"
    and "\<And>j d. earn_count i (cr_award rc j d) = earn_count i d" "\<And>d. earn_count i (cr_scan rc d) = earn_count i d"
      "\<And>d. earn_count i (cr_update rc d) = earn_count i d" "\<And>j d. earn_count i (cr_late rc j d) = earn_count i d"
  shows "let d' = w_db (runAutoCompletePastBookings env rc w) in
    earn_count i d' = earn_count i (w_db w) \<and>
    (d' = cr_scan rc (w_db (award_pass env rc w)) \<or> cancelled_in i d')"
  by (rule completion_spares [OF assms])

text \<open>The vendor cancels booking 100 whenever he gets the chance.\<close>

definition vendor_cancels :: interference where
  "vendor_cancels d = update_booking 100 (cancelled_by sc_now VENDOR) d"

definition sc_cancel_races :: complete_races where
  "sc_cancel_races = \<lparr>cr_award = \<lambda>_. vendor_cancels, cr_scan = leave_as_is, cr_update = vendor_cancels, cr_late = \<lambda>_. leave_as_is\<rparr>"

theorem cancellation_wins_witness:
  "earn_count 100 (w_db (runAutoCompletePastBookings sc_cron_started sc_cancel_races sc_world_confirmed)) =
   earn_count 100 (w_db sc_world_confirmed)"
proof -
  have c: "cancelled_in 100 (vendor_cancels d)" "earn_count 100 (vendor_cancels d) = earn_count 100 d" for d
    by (auto simp: vendor_cancels_def cancelled_in_def update_booking_def update_many_mem cancelled_by_def earn_count_def)
  show ?thesis
    using cancellation_wins [of 100 sc_cancel_races sc_cron_started sc_world_confirmed] c
    by (simp add: sc_cancel_races_def leave_as_is_def Let_def)
qed
section \<open>Late captures of reaped bookings\<close>

lemma redeem_refused [cron]: "ledger_taken tx (Some b) BOOKING_REDEEM \<Longrightarrow> redeem tx u a b \<noteq> Inr y"
  by (cases y) (auto simp: redeem_def Let_def and_then_Inr writeLedger_def ledger_taken_def split: option.splits if_splits)

lemma recount_ledger [simp]: "ledger (recount_coupon sn tx) = ledger tx"
  by (simp add: recount_coupon_def update_coupons_def Let_def split: option.split)

lemma set_payment_ledger [simp]: "ledger (set_payment pid f d) = ledger d"
  by (simp add: set_payment_def)

text \<open>The re-creation writes a second redemption row for the booking, which the unique index refuses.\<close>

lemma recreate_refused [cron]:
  assumes "ledger_taken tx (Some bid) BOOKING_REDEEM" "0 < sn_pointsRedeemed sn"
    and "payment_row pid tx = Some q" "p_recreatedAt q = None"
  shows "(\<exists>e. recreate_tx env pid (Some bid) sn tx = Inl e) \<or>
    (\<exists>tx'. recreate_tx env pid (Some bid) sn tx = Inr (SlotConflict, tx') \<and> bookings tx' = bookings tx \<and>
       payment_row pid tx' = Some (q\<lparr>p_recreatedAt := Some (g_now env)\<rparr>))"
proof -
  let ?sel = "\<lambda>p. p_id p = pid \<and> p_recreatedAt p = None"
  let ?tx1 = "tx\<lparr>payments := update_many ?sel (\<lambda>p. p\<lparr>p_recreatedAt := Some (g_now env)\<rparr>) (payments tx)\<rparr>"
  have "q \<in> set (payments tx)" "p_id q = pid"
    using assms(3) find_first_Some by (fastforce simp: payment_row_def)+
  then have cnt: "count_rows ?sel (payments tx) \<noteq> 0" using assms(4) by (auto simp: count_rows_0)
  have row: "payment_row pid ?tx1 = Some (q\<lparr>p_recreatedAt := Some (g_now env)\<rparr>)"
    using row_update [of p_id pid "payments tx" q "\<lambda>p. p\<lparr>p_recreatedAt := Some (g_now env)\<rparr>" "\<lambda>p. p_recreatedAt p = None"]
      assms(3,4) by (simp add: payment_row_def)
  have ref: "\<exists>e. and_then (redeem tx3 u (sn_pointsRedeemed sn) bid) f = Inl e" if "ledger tx3 = ledger tx" for tx3 u f
    using redeem_refused [of tx3 bid u "sn_pointsRedeemed sn"] assms(1) that ledger_taken_same [of tx3 tx]
    by (cases "redeem tx3 u (sn_pointsRedeemed sn) bid") auto
  have id: "b_id (recreated_booking env bid pid sn) = bid" by (simp add: recreated_booking_def)
  show ?thesis
    using cnt row assms(2) by (auto simp: recreate_tx_def Let_def id intro!: ref)
qed

lemma queued_row [cron]:
  assumes "payment_row pid (w_db w) = Some q" "p_status q = SUCCESS"
  shows "payment_row pid (w_db (queueB2Refund pid a w)) = Some (q\<lparr>p_status := REFUND_PENDING, p_refundAmount := Some a\<rparr>)"
    and "bookings (w_db (queueB2Refund pid a w)) = bookings (w_db w)"
  using row_update [of p_id pid "payments (w_db w)" q
      "\<lambda>p. p\<lparr>p_status := REFUND_PENDING, p_refundAmount := Some a\<rparr>" "\<lambda>p. p_status p = SUCCESS"] assms
  by (simp_all add: queueB2Refund_def payment_row_def)

lemma recovery_refused [cron]:
  assumes "payment_row pid (w_db w) = Some q" "p_status q = SUCCESS" "p_recreatedAt q = None" "p_bookingId q = Some bid"
    and "p_snapshot q = Some sn" "0 < sn_pointsRedeemed sn" "ledger_taken (w_db w) (Some bid) BOOKING_REDEEM"
  shows "bookings (w_db (attemptB2OrphanRecovery env calm pid w)) = bookings (w_db w) \<and>
    (\<exists>q'. payment_row pid (w_db (attemptB2OrphanRecovery env calm pid w)) = Some q' \<and> p_status q' = REFUND_PENDING \<and>
       p_refundAmount q' = Some (p_amount q))"
proof (cases "recreatable env (w_db w) sn")
  case False
  then show ?thesis using assms queued_row [OF assms(1,2)] by (simp add: attemptB2OrphanRecovery_def)
next
  case True
  from recreate_refused [OF assms(7,6,1,3), of env] show ?thesis
  proof (elim disjE exE conjE)
    fix e assume "recreate_tx env pid (Some bid) sn (w_db w) = Inl e"
    then show ?thesis
      using assms True queued_row [OF assms(1,2)] by (simp add: attemptB2OrphanRecovery_def transaction_def)
  next
    fix tx' assume r: "recreate_tx env pid (Some bid) sn (w_db w) = Inr (SlotConflict, tx')"
      and b: "bookings tx' = bookings (w_db w)" and p: "payment_row pid tx' = Some (q\<lparr>p_recreatedAt := Some (g_now env)\<rparr>)"
    then show ?thesis
      using assms True queued_row [of pid "w\<lparr>w_db := tx'\<rparr>" "q\<lparr>p_recreatedAt := Some (g_now env)\<rparr>"]
      by (simp add: attemptB2OrphanRecovery_def transaction_def)
  qed
qed

text \<open>A late capture of a reaped booking that was paid partly with points never brings the booking back, even
  with the slot free and the points returned: the ledger already holds the booking's redemption row, the
  re-creation's second one violates the unique index, and the whole amount is queued for refund.\<close>

theorem late_points_capture_is_refunded:
  assumes "g_enabled env" "unique_on p_id (payments (w_db w))"
    and p: "find_first (\<lambda>p. p_gatewayBasketId p = Some (cb_basketId cb)) (payments (w_db w)) = Some p"
    and st: "p_status p \<in> {PAY_PENDING, FAILED}" "authentic_success env via cb p"
    and rec: "p_bookingId p = Some bid" "p_recreatedAt p = None" "p_snapshot p = Some sn" "0 < sn_pointsRedeemed sn"
    and led: "ledger_taken (w_db w) (Some bid) BOOKING_REDEEM"
    and gone: "\<forall>b \<in> set (bookings (w_db w)). b_id b \<noteq> bid"
    and h: "handleCallback env calm via cb (w, r) = (res, w', r')"
  shows "bookings (w_db w') = bookings (w_db w) \<and>
    (\<exists>p'. payment_row (p_id p) (w_db w') = Some p' \<and> p_status p' = REFUND_PENDING \<and> p_refundAmount p' = Some (p_amount p))"
proof -
  have "p \<in> set (payments (w_db w))" using find_first_Some [OF p] by simp
  then have row: "payment_row (p_id p) (w_db w) = Some p"
    using find_first_key [OF assms(2)] by (simp add: payment_row_def)
  define f where "f = (\<lambda>r :: payment. r\<lparr>p_status := SUCCESS, p_gatewayTxnId := (if truthy (cb_txn cb) then cb_txn cb else None),
     p_gatewayErrCode := Some (cb_errCode cb), p_gatewayResponseKey := Some (cb_responseKey cb),
     p_paidAt := Some (g_now env), p_method := PAY2M\<rparr>)"
  define d1 where "d1 = (w_db w)\<lparr>payments := update_many (\<lambda>r. p_id r = p_id p \<and> p_status r \<in> {PAY_PENDING, FAILED}) f (payments (w_db w))\<rparr>"
  have row1: "payment_row (p_id p) d1 = Some (f p)"
    using row_update [of p_id "p_id p" "payments (w_db w)" p f "\<lambda>r. p_status r \<in> {PAY_PENDING, FAILED}"] row st(1)
    by (simp add: payment_row_def d1_def f_def)
  have "count_rows (\<lambda>r. p_id r = p_id p \<and> p_status r \<in> {PAY_PENDING, FAILED}) (payments (w_db w)) \<noteq> 0"
    using \<open>p \<in> set (payments (w_db w))\<close> st(1) by (auto simp: count_rows_0)
  moreover have "find_first (\<lambda>b. b_id b = bid) (bookings (w_db w)) = None" using gone by (simp add: find_first_None)
  ultimately have tx: "success_tx env cb p (w_db w) = Inr (Settled (Some B2_ORPHAN) None, d1)"
    using rec(1) by (simp add: success_tx_def Let_def d1_def f_def)
  obtain v nh where j: "judge env via cb p = Judged v True nh" "v" "\<not> nh"
    using st(2) by (auto simp: judge_def authentic_success_def card_success_def naps_success_def Let_def split: via.splits option.splits)
  let ?w1 = "(audit_coupon env p w)\<lparr>w_db := d1\<rparr>"
  have "ledger_taken d1 (Some bid) BOOKING_REDEEM" using led ledger_taken_same [of d1 "w_db w"] by (simp add: d1_def)
  then have "bookings (w_db (attemptB2OrphanRecovery env calm (p_id p) ?w1)) = bookings d1 \<and>
    (\<exists>q'. payment_row (p_id p) (w_db (attemptB2OrphanRecovery env calm (p_id p) ?w1)) = Some q' \<and> p_status q' = REFUND_PENDING \<and>
       p_refundAmount q' = Some (p_amount p))"
    using recovery_refused [of "p_id p" ?w1 "f p" bid sn env] row1 rec by (simp add: f_def)
  moreover have "settle_callback env calm cb p True (audit_coupon env p w, r) = (res, w', r')"
    using h assms(1) p st(1) j by (auto simp: handleCallback_def)
  ultimately show ?thesis
    using tx by (auto simp: settle_callback_def transaction_def recover_def Let_def payment_row_def d1_def)
qed

definition sc_world_reaped :: world where
  "sc_world_reaped = sc_world_paying\<lparr>w_db := (w_db sc_world_paying)\<lparr>bookings := [], payments := [mark_failed sc_paying]\<rparr>\<rparr>"

lemma sc_reaped_find:
  "find_first (\<lambda>p. p_gatewayBasketId p = Some (cb_basketId (sc_signed CARD ''00''))) (payments (w_db sc_world_reaped)) =
     Some (mark_failed sc_paying)"
  by code_simp

lemma sc_reaped_capture: "authentic_success sc_pay Browser (sc_signed CARD ''00'') (mark_failed sc_paying)"
  by code_simp

lemma sc_reaped_ledger: "ledger_taken (w_db sc_world_reaped) (Some 100) BOOKING_REDEEM"
  by code_simp

theorem late_points_capture_is_refunded_witness:
  "bookings (w_db (fst (snd (handleCallback sc_pay calm Browser (sc_signed CARD ''00'') (sc_world_reaped, sc_redis))))) = []"
proof -
  let ?x = "handleCallback sc_pay calm Browser (sc_signed CARD ''00'') (sc_world_reaped, sc_redis)"
  have x: "?x = (fst ?x, fst (snd ?x), snd (snd ?x))" by simp
  have s: "p_snapshot (mark_failed sc_paying) = Some (buildBookingSnapshot sc_booking)" "0 < sn_pointsRedeemed (buildBookingSnapshot sc_booking)"
    by (simp_all add: mark_failed_def sc_paying_def sc_payment_def buildBookingSnapshot_def)
  show ?thesis
    using late_points_capture_is_refunded [OF _ _ sc_reaped_find _ sc_reaped_capture _ _ s sc_reaped_ledger _ x]
    by (simp add: sc_world_reaped_def unique_on_def mark_failed_def)
qed

end
