(* ===== verification/Outbox.thy ===== *)
theory Outbox
  imports Locks Gateway
begin

text \<open>
  \<open>apps/api/src/email/outbox-drain.service.ts\<close>: the job that sends the mails the payment path has put
  into the outbox, with retries, back-off and a limit of attempts. Whether the mail service accepts a
  mail is an argument, as are the random jitter and the writes of other drainers; the abstract
  contract is a job with a budget of attempts.
\<close>

section \<open>Rows\<close>

text \<open>The \<open>payload\<close> column is JSON.\<close>

datatype json =
  JNull
| JBool bool
| JNum num
| JStr string
| JArr "json list"
| JObj "(string \<times> json) list"

record mail = outbox_row +
  m_payload :: json
  m_lastError :: "string option"

definition DRAIN_MAX_ATTEMPTS :: int where
  "DRAIN_MAX_ATTEMPTS = 5"

definition BATCH_SIZE :: nat where
  "BATCH_SIZE = 50"

section \<open>Dispatch\<close>

definition property_of :: "json \<Rightarrow> string \<Rightarrow> json option" where
  "property_of j k = (case j of JObj kvs \<Rightarrow> map_of kvs k | _ \<Rightarrow> None)"

definition nonblank :: "json option \<Rightarrow> bool" where
  "nonblank v = (case v of Some (JStr s) \<Rightarrow> js_trim s \<noteq> [] | _ \<Rightarrow> False)"

definition number_value :: "json option \<Rightarrow> bool" where
  "number_value v = (case v of Some (JNum x) \<Rightarrow> True | _ \<Rightarrow> False)"

definition absent_or_string :: "json option \<Rightarrow> bool" where
  "absent_or_string v = (case v of None \<Rightarrow> True | Some (JStr s) \<Rightarrow> True | _ \<Rightarrow> False)"

definition requiredStrings :: "string list" where
  "requiredStrings = [''vendorName'', ''bookingRef'', ''bookingId'', ''vendorSlug'', ''activityTitle'', ''date'',
     ''totalAmount'', ''currency'', ''customerName'', ''customerPhone'']"

text \<open>An array is an object too, but has none of the properties; JSON numbers are finite.\<close>

definition isVendorBookingNotificationPayload :: "json \<Rightarrow> bool" where
  "isVendorBookingNotificationPayload p =
     ((case p of JArr _ \<Rightarrow> True | JObj _ \<Rightarrow> True | _ \<Rightarrow> False) \<and>
      list_all (\<lambda>k. nonblank (property_of p k)) requiredStrings \<and>
      number_value (property_of p ''guests'') \<and>
      absent_or_string (property_of p ''time'') \<and>
      absent_or_string (property_of p ''locationAddress''))"

text \<open>The mail service answers whether it is done with the mail, or throws an error of some class.\<close>

datatype send_result =
  SendOk
| SendFalse
| SendThrows string

datatype dispatch_result =
  Sent
| Send_failed
| Unknown_type

definition sent_or_failed :: "send_result \<Rightarrow> string + dispatch_result" where
  "sent_or_failed r = (case r of SendOk \<Rightarrow> Inr Sent | SendFalse \<Rightarrow> Inr Send_failed | SendThrows k \<Rightarrow> Inl k)"

definition dispatch :: "send_result \<Rightarrow> mail \<Rightarrow> string + dispatch_result" where
  "dispatch r row =
     (case o_type row of
        BOOKING_CONFIRMATION \<Rightarrow> sent_or_failed r
      | VENDOR_BOOKING_NOTIFICATION \<Rightarrow>
          if \<not> isVendorBookingNotificationPayload (m_payload row) then Inr Unknown_type else sent_or_failed r)"

section \<open>Writes\<close>

text \<open>Every write is conditional on the state the row was picked up in.\<close>

definition picked :: "mail \<Rightarrow> mail \<Rightarrow> bool" where
  "picked row x = (o_id x = o_id row \<and> o_status x = OUTBOX_PENDING \<and> o_attempts x = o_attempts row)"

definition mark_sent :: "ms \<Rightarrow> mail \<Rightarrow> mail \<Rightarrow> mail" where
  "mark_sent now row x = x\<lparr>o_status := OUTBOX_SENT, o_sentAt := Some now, o_attempts := o_attempts row + 1, m_lastError := None\<rparr>"

definition mark_gave_up :: "ms \<Rightarrow> int \<Rightarrow> string \<Rightarrow> mail \<Rightarrow> mail" where
  "mark_gave_up now attempts err x =
     x\<lparr>o_status := OUTBOX_FAILED, o_failedAt := Some now, o_attempts := attempts, m_lastError := Some err\<rparr>"

definition mark_retry :: "ms \<Rightarrow> int \<Rightarrow> string \<Rightarrow> mail \<Rightarrow> mail" where
  "mark_retry next_due attempts err x = x\<lparr>o_attempts := attempts, m_lastError := Some err, o_nextAttemptAt := next_due\<rparr>"

definition backoff_base :: "int \<Rightarrow> num" where
  "backoff_base attempts = min (60000 * 4 ^ nat (attempts - 1)) (60 * 60000)"

text \<open>\<open>rnd\<close> is the value of \<open>Math.random()\<close>.\<close>

definition backoff :: "int \<Rightarrow> num \<Rightarrow> num" where
  "backoff attempts rnd =
     (let base = backoff_base attempts in base + of_int \<lfloor>rnd * min (base * (1 / 5)) 30000\<rfloor>)"

datatype outcome = Was_sent | Gave_up | Retried | Skipped

definition scheduleRetryOrGiveUp :: "ms \<Rightarrow> num \<Rightarrow> mail \<Rightarrow> string \<Rightarrow> mail list \<Rightarrow> outcome \<times> mail list" where
  "scheduleRetryOrGiveUp now rnd row errKind t =
     (let attempts = o_attempts row + 1;
          lastError = utf16_take 300 errKind;
          matched = count_rows (picked row) t
      in if attempts \<ge> DRAIN_MAX_ATTEMPTS then
           (if matched = 0 then Skipped else Gave_up,
            update_many (picked row) (mark_gave_up now attempts lastError) t)
         else
           (if matched = 0 then Skipped else Retried,
            update_many (picked row) (mark_retry (now + \<lfloor>backoff attempts rnd\<rfloor>) attempts lastError) t))"

section \<open>Draining\<close>

record drain_env =
  dr_now :: ms
  dr_send :: "mail \<Rightarrow> send_result"
  dr_random :: "uid \<Rightarrow> num"

definition drain_row :: "drain_env \<Rightarrow> mail \<Rightarrow> mail list \<Rightarrow> outcome \<times> mail list" where
  "drain_row env row t =
     (let retry = (\<lambda>kind. scheduleRetryOrGiveUp (dr_now env) (dr_random env (o_id row)) row kind t) in
      case dispatch (dr_send env row) row of
        Inl kind \<Rightarrow> retry kind
      | Inr Sent \<Rightarrow>
          (if count_rows (picked row) t = 0 then Skipped else Was_sent,
           update_many (picked row) (mark_sent (dr_now env) row) t)
      | Inr Unknown_type \<Rightarrow> retry ''EMAIL_OUTBOX_UNKNOWN_TYPE''
      | Inr Send_failed \<Rightarrow> retry ''EMAIL_SEND_FAILED'')"

type_synonym drainer = "uid \<Rightarrow> mail list \<Rightarrow> mail list"

text \<open>Another drainer may write before each row is dealt with.\<close>

fun drain_rows :: "drain_env \<Rightarrow> drainer \<Rightarrow> mail list \<Rightarrow> mail list \<Rightarrow> outcome list \<times> mail list" where
  "drain_rows env races [] t = ([], t)"
| "drain_rows env races (row # rows) t =
     (case drain_row env row (races (o_id row) t) of
        (x, t1) \<Rightarrow> (case drain_rows env races rows t1 of (xs, t2) \<Rightarrow> (x # xs, t2)))"

definition due :: "ms \<Rightarrow> mail \<Rightarrow> bool" where
  "due now m = (o_status m = OUTBOX_PENDING \<and> o_nextAttemptAt m \<le> now)"

definition due_batch :: "ms \<Rightarrow> mail list \<Rightarrow> mail list" where
  "due_batch now t = take BATCH_SIZE (sort_key o_nextAttemptAt (find_many (due now) t))"

definition drain_body :: "drain_env \<Rightarrow> drainer \<Rightarrow> mail list \<Rightarrow> outcome list \<times> mail list" where
  "drain_body env races t = drain_rows env races (due_batch (dr_now env) t) t"

definition drain ::
  "drain_env \<Rightarrow> uid \<Rightarrow> drainer \<Rightarrow> redis \<times> mail list \<Rightarrow> (exn + outcome list option) \<times> redis \<times> mail list" where
  "drain env token races s =
     withLeaderLock (CronLock ''cron:email-outbox-drain'') (2 * minute_ms) token
       (\<lambda>(r, t). case drain_body env races t of (xs, t') \<Rightarrow> (Inr xs, r, t')) s"

end
