(* ===== verification/OutboxProps.thy ===== *)
theory OutboxProps
  imports Outbox Scenario
begin

text \<open>
  The outbox against its contract: a mail is a job with a budget of attempts; draining, alone or next
  to other drainers, only ever delivers it, uses up an attempt or gives it up, and in the end settles it.
\<close>

named_theorems mailbox \<open>facts about the e-mail outbox\<close>

section \<open>The contract\<close>

datatype job =
  Waiting nat
| Delivered
| Given_up

text \<open>One attempt at one job.\<close>

inductive job_step :: "('i \<Rightarrow> job option) \<Rightarrow> ('i \<Rightarrow> job option) \<Rightarrow> bool" where
  deliver: "J i = Some (Waiting (Suc n)) \<Longrightarrow> job_step J (J(i \<mapsto> Delivered))"
| retry: "J i = Some (Waiting (Suc (Suc n))) \<Longrightarrow> job_step J (J(i \<mapsto> Waiting (Suc n)))"
| give_up: "J i = Some (Waiting (Suc 0)) \<Longrightarrow> job_step J (J(i \<mapsto> Given_up))"

inductive_cases job_stepE: "job_step J J'"

definition settled_job :: "job option \<Rightarrow> bool" where
  "settled_job j \<longleftrightarrow> j = Some Delivered \<or> j = Some Given_up"

definition budget_of_job :: "job option \<Rightarrow> nat" where
  "budget_of_job j = (case j of Some (Waiting n) \<Rightarrow> n | _ \<Rightarrow> 0)"

lemma job_step_settled: "job_step J J' \<Longrightarrow> settled_job (J i) \<Longrightarrow> J' i = J i"
  by (erule job_stepE) (auto simp: settled_job_def)

lemma job_step_budget: "job_step J J' \<Longrightarrow> budget_of_job (J' i) \<le> budget_of_job (J i)"
  by (erule job_stepE) (auto simp: budget_of_job_def)

text \<open>What a client may rely on when a system implements the contract.\<close>

locale retry_queue =
  fixes state :: "'s \<Rightarrow> 'i \<Rightarrow> job option" and runs :: "'s \<Rightarrow> 's \<Rightarrow> bool"
  assumes refines: "runs s s' \<Longrightarrow> job_step\<^sup>*\<^sup>* (state s) (state s')"
begin

lemma history: "runs\<^sup>*\<^sup>* s s' \<Longrightarrow> job_step\<^sup>*\<^sup>* (state s) (state s')"
  by (induction rule: rtranclp_induct) (auto intro: rtranclp_trans dest: refines)

lemma settled_stays: "runs\<^sup>*\<^sup>* s s' \<Longrightarrow> settled_job (state s i) \<Longrightarrow> state s' i = state s i"
proof -
  have "job_step\<^sup>*\<^sup>* J J' \<Longrightarrow> settled_job (J i) \<Longrightarrow> J' i = J i" for J J'
  proof (induction rule: rtranclp_induct)
    case (step y z)
    then show ?case using job_step_settled [of y z i] by simp
  qed simp
  then show "runs\<^sup>*\<^sup>* s s' \<Longrightarrow> settled_job (state s i) \<Longrightarrow> state s' i = state s i" using history by blast
qed

lemma budget_antimono: "runs\<^sup>*\<^sup>* s s' \<Longrightarrow> budget_of_job (state s' i) \<le> budget_of_job (state s i)"
proof -
  have "job_step\<^sup>*\<^sup>* J J' \<Longrightarrow> budget_of_job (J' i) \<le> budget_of_job (J i)" for J J'
    by (induction rule: rtranclp_induct) (auto dest: job_step_budget [of _ _ i])
  then show "runs\<^sup>*\<^sup>* s s' \<Longrightarrow> budget_of_job (state s' i) \<le> budget_of_job (state s i)" using history by blast
qed

end

section \<open>Well-formed rows\<close>

definition mail_ok :: "mail \<Rightarrow> bool" where
  "mail_ok m \<longleftrightarrow> (case o_status m of
     OUTBOX_PENDING \<Rightarrow> 0 \<le> o_attempts m \<and> o_attempts m < DRAIN_MAX_ATTEMPTS
   | OUTBOX_SENT \<Rightarrow> 1 \<le> o_attempts m \<and> o_attempts m \<le> DRAIN_MAX_ATTEMPTS \<and> o_sentAt m \<noteq> None
   | OUTBOX_FAILED \<Rightarrow> o_attempts m = DRAIN_MAX_ATTEMPTS \<and> o_failedAt m \<noteq> None)"

definition box_ok :: "mail list \<Rightarrow> bool" where
  "box_ok t \<longleftrightarrow> unique_on o_id t \<and> (\<forall>m \<in> set t. mail_ok m)"

definition job_of :: "mail \<Rightarrow> job" where
  "job_of m = (case o_status m of
     OUTBOX_PENDING \<Rightarrow> Waiting (nat (DRAIN_MAX_ATTEMPTS - o_attempts m))
   | OUTBOX_SENT \<Rightarrow> Delivered
   | OUTBOX_FAILED \<Rightarrow> Given_up)"

definition jobs :: "mail list \<Rightarrow> uid \<Rightarrow> job option" where
  "jobs t i = map_option job_of (find_first (\<lambda>m. o_id m = i) t)"

section \<open>One row\<close>

definition attempted :: "ms \<Rightarrow> num \<Rightarrow> mail \<Rightarrow> (mail \<Rightarrow> mail) \<Rightarrow> bool" where
  "attempted now rnd row f \<longleftrightarrow> f = mark_sent now row \<or>
     DRAIN_MAX_ATTEMPTS \<le> o_attempts row + 1 \<and> (\<exists>err. f = mark_gave_up now (o_attempts row + 1) err) \<or>
     o_attempts row + 1 < DRAIN_MAX_ATTEMPTS \<and>
       (\<exists>err. f = mark_retry (now + \<lfloor>backoff (o_attempts row + 1) rnd\<rfloor>) (o_attempts row + 1) err)"

lemma drain_row_attempted [mailbox]:
  "\<exists>f. snd (drain_row env row t) = update_many (picked row) f t \<and> attempted (dr_now env) (dr_random env (o_id row)) row f"
proof -
  have "\<exists>f. snd (scheduleRetryOrGiveUp now rnd row kind t) = update_many (picked row) f t \<and> attempted now rnd row f" for now rnd kind
    by (auto simp: scheduleRetryOrGiveUp_def Let_def attempted_def not_le)
  moreover have "\<exists>f. update_many (picked row) (mark_sent now row) t = update_many (picked row) f t \<and> attempted now rnd row f" for now rnd
    by (auto simp: attempted_def)
  ultimately show ?thesis
    by (auto simp: drain_row_def Let_def split: sum.split dispatch_result.split)
qed

lemma attempted_fields [mailbox]:
  assumes "attempted now rnd row f"
  shows "o_id (f x) = o_id x" "mail_ok x \<Longrightarrow> picked row x \<Longrightarrow> mail_ok (f x)"
    and "mail_ok x \<Longrightarrow> picked row x \<Longrightarrow>
      \<exists>n. job_of x = Waiting (Suc n) \<and> (job_of (f x) = Delivered \<or> job_of (f x) = Given_up \<and> n = 0 \<or>
        (\<exists>k. n = Suc k \<and> job_of (f x) = Waiting n))"
proof -
  note defs = attempted_def mark_sent_def mark_gave_up_def mark_retry_def DRAIN_MAX_ATTEMPTS_def
  show "o_id (f x) = o_id x" using assms by (auto simp: defs)
  show "mail_ok x \<Longrightarrow> picked row x \<Longrightarrow> mail_ok (f x)" using assms by (auto simp: defs mail_ok_def picked_def)
  assume x: "mail_ok x" "picked row x"
  define n where "n = nat (4 - o_attempts x)"
  have "job_of x = Waiting (Suc n)" 
    using x by (simp add: job_of_def mail_ok_def picked_def DRAIN_MAX_ATTEMPTS_def n_def) linarith
  moreover have "job_of (f x) = Delivered \<or> job_of (f x) = Given_up \<and> n = 0 \<or> (\<exists>k. n = Suc k \<and> job_of (f x) = Waiting n)"
    using assms x by (auto simp: defs job_of_def mail_ok_def picked_def n_def intro!: exI [of _ "nat (3 - o_attempts row)"])
  ultimately show "\<exists>n. job_of x = Waiting (Suc n) \<and> (job_of (f x) = Delivered \<or> job_of (f x) = Given_up \<and> n = 0 \<or>
      (\<exists>k. n = Suc k \<and> job_of (f x) = Waiting n))" by blast
qed

lemma find_update_picked [mailbox]:
  assumes "\<And>x. o_id (f x) = o_id x"
  shows "find_first (\<lambda>m. o_id m = i) (update_many (picked row) f t) =
    map_option (\<lambda>x. if picked row x then f x else x) (find_first (\<lambda>m. o_id m = i) t)"
  by (induction t) (auto simp: assms)

lemma attempted_step [mailbox]:
  assumes "attempted now rnd row f" "box_ok t"
  shows "box_ok (update_many (picked row) f t) \<and> job_step\<^sup>*\<^sup>* (jobs t) (jobs (update_many (picked row) f t))"
proof
  show "box_ok (update_many (picked row) f t)"
    using assms(2) attempted_fields [OF assms(1)] by (auto simp: box_ok_def update_many_unique update_many_mem)
  note f = find_update_picked [OF attempted_fields(1) [OF assms(1)], of _ row t]
  show "job_step\<^sup>*\<^sup>* (jobs t) (jobs (update_many (picked row) f t))"
  proof (cases "find_first (\<lambda>m. o_id m = o_id row) t")
    case None
    then have "\<not> picked row x" if "x \<in> set t" for x using that by (auto simp: find_first_None picked_def)
    then show ?thesis by (simp add: update_many_none)
  next
    case (Some x)
    have x: "x \<in> set t" "o_id x = o_id row" using find_first_Some [OF Some] by auto
    have other: "jobs (update_many (picked row) f t) i = jobs t i" if "i \<noteq> o_id row" for i
    proof (cases "find_first (\<lambda>m. o_id m = i) t")
      case (Some y)
      then have "\<not> picked row y" using find_first_Some [OF Some] that by (simp add: picked_def)
      then show ?thesis using Some by (simp add: jobs_def f)
    qed (simp add: jobs_def f)
    show ?thesis
    proof (cases "picked row x")
      case False
      then have "jobs (update_many (picked row) f t) (o_id row) = jobs t (o_id row)" using Some by (simp add: jobs_def f)
      then have "jobs (update_many (picked row) f t) = jobs t" using other by (metis ext)
      then show ?thesis by simp
    next
      case True
      have "mail_ok x" using assms(2) x(1) by (simp add: box_ok_def)
      then obtain n where n: "job_of x = Waiting (Suc n)" "job_of (f x) = Delivered \<or> job_of (f x) = Given_up \<and> n = 0 \<or>
          (\<exists>k. n = Suc k \<and> job_of (f x) = Waiting n)"
        using attempted_fields(3) [OF assms(1) _ True] by blast
      have "jobs (update_many (picked row) f t) = (jobs t)(o_id row \<mapsto> job_of (f x))"
      proof
        fix i show "jobs (update_many (picked row) f t) i = ((jobs t)(o_id row \<mapsto> job_of (f x))) i"
          using other [of i] Some True by (cases "i = o_id row") (simp_all add: jobs_def f)
      qed
      moreover have "jobs t (o_id row) = Some (Waiting (Suc n))" using Some n(1) by (simp add: jobs_def)
      ultimately show ?thesis using n(2) job_step.intros [of "jobs t" "o_id row"] by auto
    qed
  qed
qed
section \<open>A run of the drain\<close>

text \<open>Other drainers keep to the contract.\<close>

definition fair_drainer :: "drainer \<Rightarrow> bool" where
  "fair_drainer races \<longleftrightarrow> (\<forall>i t. box_ok t \<longrightarrow> box_ok (races i t) \<and> job_step\<^sup>*\<^sup>* (jobs t) (jobs (races i t)))"

lemma drain_rows_refine [mailbox]:
  assumes "box_ok t" "fair_drainer races"
  shows "box_ok (snd (drain_rows env races rows t)) \<and> job_step\<^sup>*\<^sup>* (jobs t) (jobs (snd (drain_rows env races rows t)))"
  using assms(1)
proof (induction rows arbitrary: t)
  case (Cons row rows)
  let ?t1 = "races (o_id row) t"
  have 1: "box_ok ?t1" "job_step\<^sup>*\<^sup>* (jobs t) (jobs ?t1)" using assms(2) Cons.prems by (simp_all add: fair_drainer_def)
  obtain x t2 where row: "drain_row env row ?t1 = (x, t2)" by (cases "drain_row env row ?t1") auto
  obtain f where f: "t2 = update_many (picked row) f ?t1" "attempted (dr_now env) (dr_random env (o_id row)) row f"
    using drain_row_attempted [of env row ?t1] row by auto
  have 2: "box_ok t2" "job_step\<^sup>*\<^sup>* (jobs ?t1) (jobs t2)" using attempted_step [OF f(2) 1(1)] f(1) by simp_all
  show ?case
    using Cons.IH [OF 2(1)] rtranclp_trans [OF rtranclp_trans [OF 1(2) 2(2)]] row by (auto split: prod.split)
qed simp

definition drains_to :: "mail list \<Rightarrow> mail list \<Rightarrow> bool" where
  "drains_to t t' \<longleftrightarrow> box_ok t \<and> (\<exists>env races. fair_drainer races \<and> t' = snd (drain_body env races t))"

interpretation outbox_jobs: retry_queue jobs drains_to
  by unfold_locales (auto simp: drains_to_def drain_body_def dest: drain_rows_refine)

section \<open>Back-off\<close>

definition MAX_BACKOFF :: ms where
  "MAX_BACKOFF = 3630000"

lemma backoff_base_bounds [mailbox]: "1 \<le> a \<Longrightarrow> 60000 \<le> backoff_base a \<and> backoff_base a \<le> 3600000"
  by (simp add: backoff_base_def)

lemma backoff_base_mono [mailbox]: "a \<le> b \<Longrightarrow> backoff_base a \<le> backoff_base b"
  by (auto simp: backoff_base_def min_le_iff_disj intro!: power_increasing)

lemma backoff_bounds [mailbox]:
  assumes "1 \<le> a" "0 \<le> rnd" "rnd < 1"
  shows "backoff_base a \<le> backoff a rnd \<and> backoff a rnd < backoff_base a + min (backoff_base a / 5) 30000"
proof -
  let ?m = "min (backoff_base a * (1 / 5)) 30000"
  have m: "0 < ?m" using backoff_base_bounds [OF assms(1)] by simp
  have r: "0 \<le> rnd * ?m" "rnd * ?m < ?m" using assms m mult_strict_right_mono [OF assms(3) m] by simp_all
  have "(0::num) \<le> of_int \<lfloor>rnd * ?m\<rfloor>" using r(1) by simp
  moreover have "of_int \<lfloor>rnd * ?m\<rfloor> < ?m" using r(2) of_int_floor_le [of "rnd * ?m"] by linarith
  ultimately show ?thesis by (simp add: backoff_def Let_def)
qed

section \<open>Draining settles every mail\<close>

definition pending_mail :: "mail \<Rightarrow> bool" where
  "pending_mail m \<longleftrightarrow> o_status m = OUTBOX_PENDING"

definition budget_of :: "mail \<Rightarrow> nat" where
  "budget_of m = (if pending_mail m then nat (DRAIN_MAX_ATTEMPTS - o_attempts m) else 0)"

definition budget :: "mail list \<Rightarrow> nat" where
  "budget t = sum_list (map budget_of t)"

lemma sum_list_update_le [table]:
  assumes "\<And>x. x \<in> set t \<Longrightarrow> p x \<Longrightarrow> g (f x) \<le> (g x :: nat)"
  shows "sum_list (map g (update_many p f t)) \<le> sum_list (map g t)"
  using assms by (induction t) (auto intro: add_mono)

lemma sum_list_update_less [table]:
  assumes "\<And>x. x \<in> set t \<Longrightarrow> p x \<Longrightarrow> g (f x) < (g x :: nat)" "y \<in> set t" "p y"
  shows "sum_list (map g (update_many p f t)) < sum_list (map g t)"
  using assms
proof (induction t)
  case (Cons x t)
  have le: "sum_list (map g (update_many p f t)) \<le> sum_list (map g t)"
    using Cons.prems(1) by (intro sum_list_update_le) (auto intro: less_imp_le)
  show ?case
  proof (cases "p x")
    case True
    then show ?thesis using le Cons.prems(1) [of x] by simp
  next
    case False
    then show ?thesis using Cons by auto
  qed
qed simp

lemma attempted_budget [mailbox]:
  assumes "attempted now rnd row f" "mail_ok x" "picked row x"
  shows "budget_of (f x) < budget_of x"
  using assms
  by (auto simp: attempted_def mark_sent_def mark_gave_up_def mark_retry_def budget_of_def pending_mail_def picked_def
      mail_ok_def DRAIN_MAX_ATTEMPTS_def)

definition alone :: drainer where
  "alone i t = t"

lemma drain_rows_alone [simp]:
  "snd (drain_rows env alone (row # rows) t) = snd (drain_rows env alone rows (snd (drain_row env row t)))"
  by (simp add: alone_def split: prod.split)

lemma alone_fair [simp]: "fair_drainer alone"
  by (simp add: fair_drainer_def alone_def)

lemma drain_rows_budget [mailbox]:
  assumes "box_ok t" "set rows \<subseteq> set t" "distinct rows" "\<forall>m \<in> set rows. pending_mail m"
  shows "budget (snd (drain_rows env alone rows t)) + length rows \<le> budget t"
  using assms
proof (induction rows arbitrary: t)
  case (Cons row rows)
  obtain x t1 where row: "drain_row env row t = (x, t1)" by (cases "drain_row env row t") auto
  obtain f where f: "t1 = update_many (picked row) f t" "attempted (dr_now env) (dr_random env (o_id row)) row f"
    using drain_row_attempted [of env row t] row by auto
  have uq: "unique_on o_id t" and mem: "row \<in> set t" using Cons.prems by (auto simp: box_ok_def)
  have "picked row row" using Cons.prems(4) by (simp add: picked_def pending_mail_def)
  then have less: "budget t1 < budget t"
    unfolding budget_def f(1) using sum_list_update_less [of t "picked row" budget_of f row] mem attempted_budget [OF f(2)] Cons.prems(1)
    by (auto simp: box_ok_def)
  have "set rows \<subseteq> set t1"
  proof
    fix m assume m: "m \<in> set rows"
    then have "m \<in> set t" "m \<noteq> row" using Cons.prems by auto
    then have "\<not> picked row m" using unique_onD [OF uq mem \<open>m \<in> set t\<close>] by (auto simp: picked_def)
    then show "m \<in> set t1" using \<open>m \<in> set t\<close> by (auto simp: f(1) update_many_mem intro!: bexI [of _ m])
  qed
  then have "budget (snd (drain_rows env alone rows t1)) + length rows \<le> budget t1"
    using Cons.IH [of t1] Cons.prems attempted_step [OF f(2) Cons.prems(1)] f(1) by simp
  then show ?case using less row by (simp del: drain_rows.simps)
qed simp

definition due_by :: "ms \<Rightarrow> mail list \<Rightarrow> bool" where
  "due_by T t \<longleftrightarrow> (\<forall>m \<in> set t. pending_mail m \<longrightarrow> o_nextAttemptAt m \<le> T)"

definition fair_random :: "drain_env \<Rightarrow> bool" where
  "fair_random env \<longleftrightarrow> (\<forall>i. 0 \<le> dr_random env i \<and> dr_random env i < 1)"

lemma attempted_due [mailbox]:
  assumes "attempted now rnd row f" "mail_ok x" "picked row x" "0 \<le> rnd" "rnd < 1" "pending_mail (f x)"
  shows "o_nextAttemptAt (f x) \<le> now + MAX_BACKOFF"
proof -
  have a: "1 \<le> o_attempts row + 1" using assms(2,3) by (simp add: mail_ok_def picked_def)
  have "backoff (o_attempts row + 1) rnd < 3630000"
    using backoff_bounds [OF a assms(4,5)] backoff_base_bounds [OF a] by linarith
  then have "\<lfloor>backoff (o_attempts row + 1) rnd\<rfloor> \<le> MAX_BACKOFF" by (simp add: MAX_BACKOFF_def floor_le_iff)
  then show ?thesis
    using assms(1,6) by (auto simp: attempted_def mark_sent_def mark_gave_up_def mark_retry_def pending_mail_def)
qed

lemma drain_rows_due [mailbox]:
  assumes "box_ok t" "fair_random env" "due_by (dr_now env + MAX_BACKOFF) t"
  shows "due_by (dr_now env + MAX_BACKOFF) (snd (drain_rows env alone rows t))"
  using assms(1,3)
proof (induction rows arbitrary: t)
  case (Cons row rows)
  obtain x t1 where row: "drain_row env row t = (x, t1)" by (cases "drain_row env row t") auto
  obtain f where f: "t1 = update_many (picked row) f t" "attempted (dr_now env) (dr_random env (o_id row)) row f"
    using drain_row_attempted [of env row t] row by auto
  have "o_nextAttemptAt (f m) \<le> dr_now env + MAX_BACKOFF" if "m \<in> set t" "picked row m" "pending_mail (f m)" for m
    by (rule attempted_due [OF f(2)]) (use that Cons.prems assms(2) in \<open>auto simp: box_ok_def fair_random_def\<close>)
  then have "due_by (dr_now env + MAX_BACKOFF) t1"
    using Cons.prems(2) by (auto simp: due_by_def f(1) update_many_mem)
  then show ?case
    using Cons.IH [of t1] Cons.prems(1) attempted_step [OF f(2)] f(1) row by (simp del: drain_rows.simps)
qed simp

text \<open>Drains at least the longest back-off apart.\<close>

fun spaced :: "ms \<Rightarrow> drain_env list \<Rightarrow> bool" where
  "spaced T [] = True"
| "spaced T (e # es) = (T \<le> dr_now e \<and> spaced (dr_now e + MAX_BACKOFF) es)"

fun drains :: "drain_env list \<Rightarrow> mail list \<Rightarrow> mail list" where
  "drains [] t = t"
| "drains (e # es) t = drains es (snd (drain_body e alone t))"

lemma due_batch_props [mailbox]:
  assumes "box_ok t"
  shows "set (due_batch now t) \<subseteq> set t" "distinct (due_batch now t)" "\<forall>m \<in> set (due_batch now t). pending_mail m"
proof -
  have "distinct (map o_id t)" using assms by (simp add: box_ok_def unique_on_def)
  then show "distinct (due_batch now t)" by (auto simp: due_batch_def find_many_def distinct_map)
  show "set (due_batch now t) \<subseteq> set t" "\<forall>m \<in> set (due_batch now t). pending_mail m"
    by (auto simp: due_batch_def find_many_def due_def pending_mail_def dest!: in_set_takeD)
qed

lemma due_batch_nonempty [mailbox]:
  assumes "due_by T t" "T \<le> now" "m \<in> set t" "pending_mail m"
  shows "due_batch now t \<noteq> []"
proof -
  have "m \<in> set (sort_key o_nextAttemptAt (find_many (due now) t))"
    using assms by (auto simp: find_many_def due_def due_by_def pending_mail_def)
  then have "sort_key o_nextAttemptAt (find_many (due now) t) \<noteq> []" by (metis empty_iff empty_set)
  then show ?thesis by (simp add: due_batch_def BATCH_SIZE_def)
qed

lemma budget_0:
  assumes "box_ok t" "budget t = 0" "m \<in> set t"
  shows "\<not> pending_mail m"
proof
  assume p: "pending_mail m"
  have "budget_of m \<le> budget t" unfolding budget_def using assms(3) by (simp add: member_le_sum_list)
  moreover have "mail_ok m" using assms(1,3) by (simp add: box_ok_def)
  ultimately show False using p assms(2) by (simp add: budget_of_def pending_mail_def mail_ok_def)
qed

lemma drains_settle [mailbox]:
  assumes "box_ok t" "due_by T t" "spaced T es" "list_all fair_random es" "budget t \<le> length es" "m \<in> set (drains es t)"
  shows "\<not> pending_mail m"
  using assms
proof (induction es arbitrary: t T)
  case Nil
  then show ?case using budget_0 by simp
next
  case (Cons e es)
  let ?t1 = "snd (drain_body e alone t)"
  have T: "T \<le> dr_now e" "spaced (dr_now e + MAX_BACKOFF) es" using Cons.prems(3) by simp_all
  have ok: "box_ok ?t1" using drain_rows_refine [OF Cons.prems(1) alone_fair] by (simp add: drain_body_def)
  have "due_by (dr_now e + MAX_BACKOFF) t" using Cons.prems(2) T(1) by (auto simp: due_by_def MAX_BACKOFF_def)
  then have due: "due_by (dr_now e + MAX_BACKOFF) ?t1"
    unfolding drain_body_def using Cons.prems(1,4) by (intro drain_rows_due) auto
  have le: "budget ?t1 + length (due_batch (dr_now e) t) \<le> budget t"
    unfolding drain_body_def by (rule drain_rows_budget [OF Cons.prems(1) due_batch_props [OF Cons.prems(1)]])
  have "budget ?t1 \<le> length es"
  proof (cases "budget t = 0")
    case False
    then obtain x where "x \<in> set t" "pending_mail x" by (auto simp: budget_def budget_of_def split: if_splits)
    then have "due_batch (dr_now e) t \<noteq> []" using due_batch_nonempty [OF Cons.prems(2) T(1)] by blast
    then have "1 \<le> length (due_batch (dr_now e) t)" by (simp add: Suc_le_eq)
    then show ?thesis using le Cons.prems(5) by simp
  qed (use le in simp)
  then show ?case using Cons.IH [OF ok due T(2)] Cons.prems(4,6) by simp
qed

section \<open>Properties\<close>

text \<open>C15. The drain implements the contract of a queue with a budget of attempts, next to any other drainers that
  do: whatever they write in between, it only ever delivers a waiting mail, takes one attempt from it or
  gives it up with the last one, so that no mail that was sent or given up is touched again, and it keeps
  the rows well-formed.\<close>

theorem drain_refines_queue:
  assumes "box_ok t" "fair_drainer races"
  shows "box_ok (snd (drain_body env races t)) \<and> job_step\<^sup>*\<^sup>* (jobs t) (jobs (snd (drain_body env races t))) \<and>
    (\<forall>i. settled_job (jobs t i) \<longrightarrow> jobs (snd (drain_body env races t)) i = jobs t i)"
proof -
  have "drains_to t (snd (drain_body env races t))" using assms unfolding drains_to_def by metis
  then have "drains_to\<^sup>*\<^sup>* t (snd (drain_body env races t))" by (rule r_into_rtranclp)
  then show ?thesis
    using drain_rows_refine [OF assms] outbox_jobs.settled_stays by (simp add: drain_body_def)
qed

definition sc_mail :: mail where
  "sc_mail = \<lparr>o_id = 102, o_type = BOOKING_CONFIRMATION, o_recipient = ''c@x.qa'', o_bookingId = Some 100,
     o_status = OUTBOX_PENDING, o_attempts = 0, o_nextAttemptAt = sc_now, o_sentAt = None, o_failedAt = None,
     o_createdAt = sc_now, m_payload = JObj [], m_lastError = None\<rparr>"

text \<open>The provider is down.\<close>

definition sc_drain :: "ms \<Rightarrow> drain_env" where
  "sc_drain now = \<lparr>dr_now = now, dr_send = (\<lambda>_. SendFalse), dr_random = (\<lambda>_. 0)\<rparr>"

lemma sc_box: "box_ok [sc_mail]"
  by (simp add: box_ok_def unique_on_def mail_ok_def sc_mail_def DRAIN_MAX_ATTEMPTS_def)

theorem drain_refines_queue_witness:
  "job_step\<^sup>*\<^sup>* (jobs [sc_mail]) (jobs (snd (drain_body (sc_drain sc_now) alone [sc_mail])))"
  using drain_refines_queue [OF sc_box alone_fair] by blast

text \<open>C16. Every mail is settled in the end, even when the provider never accepts one: drains the longest back-off
  apart leave nothing pending after at most as many runs as there were attempts left in the box.\<close>

theorem drains_settle_every_mail:
  assumes "box_ok t" "due_by T t" "spaced T es" "list_all fair_random es" "budget t \<le> length es"
  shows "count_rows pending_mail (drains es t) = 0"
  using drains_settle [OF assms] by (simp add: count_rows_0)

definition sc_drains :: "drain_env list" where
  "sc_drains = map (\<lambda>k. sc_drain (sc_now + k * MAX_BACKOFF)) [0, 1, 2, 3, 4]"

theorem drains_settle_every_mail_witness:
  "count_rows pending_mail (drains sc_drains [sc_mail]) = 0"
proof (rule drains_settle_every_mail [OF sc_box, of sc_now])
  show "due_by sc_now [sc_mail]" by (simp add: due_by_def sc_mail_def)
  show "spaced sc_now sc_drains" by (simp add: sc_drains_def sc_drain_def)
  show "list_all fair_random sc_drains" by (simp add: sc_drains_def sc_drain_def fair_random_def)
  show "budget [sc_mail] \<le> length sc_drains"
    by (simp add: budget_def budget_of_def pending_mail_def sc_mail_def DRAIN_MAX_ATTEMPTS_def sc_drains_def)
qed

text \<open>The delay before a retry stays in its bounds: at least a minute, never more than an hour and half a
  minute, and the base grows with the attempts.\<close>

theorem backoff_in_bounds:
  assumes "1 \<le> a" "0 \<le> rnd" "rnd < 1"
  shows "60000 \<le> backoff a rnd \<and> backoff a rnd < 3630000 \<and> backoff_base a \<le> backoff_base (a + 1)"
  using backoff_bounds [OF assms] backoff_base_bounds [OF assms(1)] backoff_base_mono [of a "a + 1"] by linarith

theorem backoff_in_bounds_witness: "60000 \<le> backoff 4 (1 / 2) \<and> backoff 4 (1 / 2) < 3630000 \<and> backoff_base 4 \<le> backoff_base 5"
  using backoff_in_bounds [of 4 "1 / 2"] by simp

end
