(* ===== verification/Blocks.thy ===== *)
theory Blocks
  imports Payouts
begin

text \<open>
  Availability blocks: \<open>createActivityBlockCore\<close> of \<open>apps/api/src/vendor/activity-blocks.logic.ts\<close> with
  its weekly, time-slot and whole-day branches, and the handlers of \<open>vendor.service.ts\<close> and
  \<open>admin.service.ts\<close> around it. The exclusion constraint of the table is checked row by row at the
  insert; what other requests commit between the scan and the insert is an argument.
\<close>

named_theorems blocking \<open>facts about availability blocks\<close>

section \<open>Request, environment, rows\<close>

text \<open>\<open>CreateActivityBlockDto\<close>, after validation.\<close>

record block_dto =
  bd_date :: civil
  bd_endDate :: "civil option"
  bd_slotTimes :: "hm list option"
  bd_repeatWeekly :: bool

record block_env =
  be_now :: ms
  be_ids :: "nat \<Rightarrow> uid"

definition BLOCK_MAX_ADVANCE_MONTHS :: int where
  "BLOCK_MAX_ADVANCE_MONTHS = 6"

definition SLOT_MS :: ms where
  "SLOT_MS = hour_ms"

definition last_day :: "block_dto \<Rightarrow> civil" where
  "last_day dto = or_default (bd_date dto) (bd_endDate dto)"

text \<open>The test of the \<open>some\<close> callbacks on rows the query has already restricted to active ones.\<close>

definition covers_part :: "ms \<Rightarrow> ms \<Rightarrow> block \<Rightarrow> bool" where
  "covers_part s e bl = (bl_start bl < e \<and> s < bl_end bl)"

definition scan_blocks :: "db \<Rightarrow> uid \<Rightarrow> ms \<Rightarrow> ms \<Rightarrow> block list" where
  "scan_blocks d aid s e = find_many (block_overlaps aid s e) (blocks d)"

text \<open>
  The constraint \<open>activity_blocks_no_overlap\<close>: half-open ranges of active rows of one activity do not
  overlap. An insert of several rows is one statement: the first violation undoes it.
\<close>

definition block_clash :: "block \<Rightarrow> block \<Rightarrow> bool" where
  "block_clash r r' =
     (bl_activityId r = bl_activityId r' \<and> bl_deletedAt r = None \<and> bl_deletedAt r' = None \<and>
      bl_start r < bl_end r' \<and> bl_start r' < bl_end r)"

fun insert_blocks :: "block list \<Rightarrow> block list \<Rightarrow> block list option" where
  "insert_blocks t [] = Some t"
| "insert_blocks t (r # rs) =
     (if list_ex (block_clash r) t then None else insert_blocks (t @ [r]) rs)"

definition new_block :: "block_env \<Rightarrow> activity \<Rightarrow> nat \<Rightarrow> ms \<times> ms \<Rightarrow> block" where
  "new_block env a i win =
     \<lparr>bl_id = be_ids env i, bl_activityId = a_id a, bl_vendorId = a_vendorId a,
      bl_start = fst win, bl_end = snd win, bl_deletedAt = None\<rparr>"

definition new_blocks :: "block_env \<Rightarrow> activity \<Rightarrow> (ms \<times> ms) list \<Rightarrow> block list" where
  "new_blocks env a wins = map2 (new_block env a) [0..<length wins] wins"

datatype block_result =
  BlockCreated block nat
| BlocksCreated nat nat

section \<open>Days and times\<close>

text \<open>The loops over midnights, \<open>for (t = first; t <= last; t += DAY_MS)\<close>.\<close>

function day_loop :: "ms \<Rightarrow> ms \<Rightarrow> ms list" where
  "day_loop t final = (if t \<le> final then t # day_loop (t + day_ms) final else [])"
  by auto
termination
  by (relation "measure (\<lambda>(t, l). nat (l - t + 1))") (auto simp: day_ms_def)

declare day_loop.simps [simp del]

definition utc_weekday :: "ms \<Rightarrow> int" where
  "utc_weekday t = weekday (t div day_ms)"

definition block_weekdays :: "block_dto \<Rightarrow> int list" where
  "block_weekdays dto = map utc_weekday (day_loop (midnight (bd_date dto)) (midnight (last_day dto)))"

text \<open>The last day of the month six months after the first day.\<close>

definition weekly_horizon :: "block_dto \<Rightarrow> ms" where
  "weekly_horizon dto =
     (let c = utc_date (addMonthsClamped (midnight (bd_date dto)) BLOCK_MAX_ADVANCE_MONTHS)
      in utc_day (cy c) (cm c) 0 * day_ms)"

definition open_window :: "ms \<Rightarrow> block list \<Rightarrow> ms \<times> ms \<Rightarrow> bool" where
  "open_window now existing win =
     (now < snd win \<and> \<not> list_ex (covers_part (fst win) (snd win)) existing)"

definition day_window :: "ms \<Rightarrow> ms \<times> ms" where
  "day_window t = (t, t + day_ms)"

definition weekly_windows :: "ms \<Rightarrow> block list \<Rightarrow> block_dto \<Rightarrow> (ms \<times> ms) list" where
  "weekly_windows now existing dto =
     (let weekdays = block_weekdays dto in
      filter (open_window now existing)
        (map day_window (filter (\<lambda>t. utc_weekday t \<in> set weekdays)
          (day_loop (midnight (bd_date dto)) (weekly_horizon dto)))))"

text \<open>\<open>Array.from(new Set(xs))\<close> keeps the first occurrences.\<close>

definition js_unique :: "'a list \<Rightarrow> 'a list" where
  "js_unique xs = rev (remdups (rev xs))"

definition slot_window :: "civil \<Rightarrow> hm \<Rightarrow> ms \<times> ms" where
  "slot_window date t = (buildDatetime date t, buildDatetime date t + SLOT_MS)"

definition slot_windows :: "ms \<Rightarrow> block list \<Rightarrow> civil \<Rightarrow> hm list \<Rightarrow> (ms \<times> ms) list" where
  "slot_windows now existing date ts =
     filter (open_window now existing) (map (slot_window date) (js_unique ts))"

text \<open>\<open>validSlots\<close>; \<open>None\<close> when the opening hours or the duration are missing.\<close>

definition bookable_starts :: "activity \<Rightarrow> hm list option" where
  "bookable_starts a =
     (case (a_checkIn a, a_checkOut a, a_duration a) of
        (Some ci, Some co, Some dur) \<Rightarrow> if dur = 0 then None else Some (computeSlots ci co dur)
      | _ \<Rightarrow> None)"

section \<open>Affected bookings\<close>

definition affected_by :: "block_env \<Rightarrow> db \<Rightarrow> uid \<Rightarrow> (booking \<Rightarrow> bool) \<Rightarrow> nat" where
  "affected_by env d aid hit =
     count_rows (\<lambda>b. b_activityId b = aid \<and> activeBookingFilter (be_now env) b \<and> hit b) (bookings d)"

definition hits_some :: "(ms \<times> ms) list \<Rightarrow> booking \<Rightarrow> bool" where
  "hits_some wins b = list_ex (\<lambda>(s, e). overlaps s e b) wins"

text \<open>The time-slot branch counts the bookings that start in a locked window only.\<close>

definition starts_in_some :: "(ms \<times> ms) list \<Rightarrow> booking \<Rightarrow> bool" where
  "starts_in_some wins b = list_ex (\<lambda>(s, e). s \<le> b_start b \<and> b_start b < e) wins"

section \<open>The shared core\<close>

definition check_block_dto :: "block_env \<Rightarrow> block_dto \<Rightarrow> exn + unit" where
  "check_block_dto env dto =
     (let maxAhead = utc_date (addMonthsClamped (be_now env) BLOCK_MAX_ADVANCE_MONTHS) in
      throw_if (\<not> isValidCivil (bd_date dto)) (BadBlock BlockDateInvalid)
     (throw_if (case bd_endDate dto of Some c \<Rightarrow> \<not> isValidCivil c | None \<Rightarrow> False) (BadBlock BlockEndDateInvalid)
     (throw_if (case bd_endDate dto of Some c \<Rightarrow> c < bd_date dto | None \<Rightarrow> False) (BadBlock BlockEndBeforeStart)
     (throw_if (maxAhead < bd_date dto \<or> (case bd_endDate dto of Some c \<Rightarrow> maxAhead < c | None \<Rightarrow> False))
        (BadBlock BlockTooFarAhead)
     (Inr ())))))"

text \<open>\<open>createMany\<close> with the exclusion constraint, and the count of affected bookings after it.\<close>

definition create_many ::
  "block_env \<Rightarrow> activity \<Rightarrow> ((ms \<times> ms) list \<Rightarrow> booking \<Rightarrow> bool) \<Rightarrow> (ms \<times> ms) list \<Rightarrow> db \<Rightarrow>
   (exn + block_result) \<times> db" where
  "create_many env a hit wins d =
     (case insert_blocks (blocks d) (new_blocks env a wins) of
        None \<Rightarrow> (Inl (Conflict BlockOverlaps), d)
      | Some t \<Rightarrow> let d' = d\<lparr>blocks := t\<rparr>
                  in (Inr (BlocksCreated (length wins) (affected_by env d' (a_id a) (hit wins))), d'))"

definition block_weekly ::
  "interference \<Rightarrow> block_env \<Rightarrow> activity \<Rightarrow> block_dto \<Rightarrow> db \<Rightarrow> (exn + block_result) \<times> db" where
  "block_weekly interfere env a dto d =
     (if (case bd_slotTimes dto of Some ts \<Rightarrow> ts \<noteq> [] | None \<Rightarrow> False)
      then (Inl (BadBlock RepeatWithSlots), d)
      else
        let existing = scan_blocks d (a_id a) (midnight (bd_date dto)) (weekly_horizon dto + day_ms);
            wins = weekly_windows (be_now env) existing dto
        in if wins = [] then (Inl (Conflict AlreadyBlocked), d)
           else create_many env a hits_some wins (interfere d))"

definition block_slots ::
  "interference \<Rightarrow> block_env \<Rightarrow> activity \<Rightarrow> block_dto \<Rightarrow> hm list \<Rightarrow> db \<Rightarrow> (exn + block_result) \<times> db" where
  "block_slots interfere env a dto ts d =
     (if a_bookingType a \<noteq> HOURLY then (Inl (BadBlock SlotsNotHourly), d)
      else if last_day dto \<noteq> bd_date dto then (Inl (BadBlock SlotsSingleDate), d)
      else case bookable_starts a of
        None \<Rightarrow> (Inl (BadSlot ActivityConfigIncomplete), d)
      | Some valid \<Rightarrow>
          if list_ex (\<lambda>t. t \<notin> set valid) ts then (Inl (BadBlock SlotNotBookable), d)
          else
            let dayStart = midnight (bd_date dto);
                existing = scan_blocks d (a_id a) dayStart (dayStart + day_ms);
                wins = slot_windows (be_now env) existing (bd_date dto) ts
            in if wins = [] then (Inl (Conflict AlreadyBlocked), d)
               else create_many env a starts_in_some wins (interfere d))"

definition block_days ::
  "interference \<Rightarrow> block_env \<Rightarrow> activity \<Rightarrow> block_dto \<Rightarrow> db \<Rightarrow> (exn + block_result) \<times> db" where
  "block_days interfere env a dto d =
     (let win = (midnight (bd_date dto), midnight (last_day dto) + day_ms) in
      if snd win \<le> be_now env then (Inl (BadBlock BlockInPast), d)
      else if find_first (block_overlaps (a_id a) (fst win) (snd win)) (blocks d) \<noteq> None
      then (Inl (Conflict BlockOverlaps), d)
      else
        let d1 = interfere d; bl = new_block env a 0 win in
        case insert_blocks (blocks d1) [bl] of
          None \<Rightarrow> (Inl (Conflict BlockOverlaps), d1)
        | Some t \<Rightarrow> let d2 = d1\<lparr>blocks := t\<rparr>
                    in (Inr (BlockCreated bl (affected_by env d2 (a_id a) (overlaps (fst win) (snd win)))), d2))"

definition createActivityBlockCore ::
  "interference \<Rightarrow> block_env \<Rightarrow> activity \<Rightarrow> block_dto \<Rightarrow> db \<Rightarrow> (exn + block_result) \<times> db" where
  "createActivityBlockCore interfere env a dto d =
     (case check_block_dto env dto of
        Inl ex \<Rightarrow> (Inl ex, d)
      | Inr _ \<Rightarrow>
          if bd_repeatWeekly dto then block_weekly interfere env a dto d
          else case bd_slotTimes dto of
            Some (t # ts) \<Rightarrow> block_slots interfere env a dto (t # ts) d
          | _ \<Rightarrow> block_days interfere env a dto d)"

section \<open>The handlers of the vendor and of the administrator\<close>

definition owned_activity :: "db \<Rightarrow> uid \<Rightarrow> uid \<Rightarrow> exn + activity" where
  "owned_activity d userId activityId =
     and_then (resolveVendor d userId) (\<lambda>v.
       case find_first (\<lambda>a. a_id a = activityId \<and> a_vendorId a = v_id v) (activities d) of
         None \<Rightarrow> Inl (NotFound ActivityNotFound)
       | Some a \<Rightarrow> Inr a)"

definition any_activity :: "db \<Rightarrow> uid \<Rightarrow> exn + activity" where
  "any_activity d activityId =
     (case find_first (\<lambda>a. a_id a = activityId) (activities d) of
        None \<Rightarrow> Inl (NotFound ActivityNotFound)
      | Some a \<Rightarrow> Inr a)"

definition active_blocks :: "db \<Rightarrow> uid \<Rightarrow> block list" where
  "active_blocks d aid =
     sort_key bl_start (find_many (\<lambda>bl. bl_activityId bl = aid \<and> bl_deletedAt bl = None) (blocks d))"

definition run_core :: "interference \<Rightarrow> block_env \<Rightarrow> activity \<Rightarrow> block_dto \<Rightarrow> world \<Rightarrow> (exn + block_result) \<times> world" where
  "run_core interfere env a dto w =
     (case createActivityBlockCore interfere env a dto (w_db w) of
        (Inl ex, d) \<Rightarrow> (Inl ex, w\<lparr>w_db := d\<rparr>)
      | (Inr r, d) \<Rightarrow> (Inr r, emit [InvalidateAvailability (a_id a)] (w\<lparr>w_db := d\<rparr>)))"

text \<open>The soft delete of the selected active rows.\<close>

definition soft_delete :: "ms \<Rightarrow> (block \<Rightarrow> bool) \<Rightarrow> db \<Rightarrow> nat \<times> db" where
  "soft_delete now sel d =
     (let sel' = (\<lambda>bl. sel bl \<and> bl_deletedAt bl = None)
      in (count_rows sel' (blocks d),
          d\<lparr>blocks := update_many sel' (\<lambda>bl. bl\<lparr>bl_deletedAt := Some now\<rparr>) (blocks d)\<rparr>))"

definition getActivityBlocks :: "uid \<Rightarrow> uid \<Rightarrow> db \<Rightarrow> exn + block list" where
  "getActivityBlocks userId activityId d =
     and_then (owned_activity d userId activityId) (\<lambda>_. Inr (active_blocks d activityId))"

definition createActivityBlock ::
  "interference \<Rightarrow> block_env \<Rightarrow> uid \<Rightarrow> uid \<Rightarrow> block_dto \<Rightarrow> world \<Rightarrow> (exn + block_result) \<times> world" where
  "createActivityBlock interfere env userId activityId dto w =
     (case owned_activity (w_db w) userId activityId of
        Inl ex \<Rightarrow> (Inl ex, w)
      | Inr a \<Rightarrow> run_core interfere env a dto w)"

definition deleteActivityBlock :: "ms \<Rightarrow> uid \<Rightarrow> uid \<Rightarrow> uid \<Rightarrow> world \<Rightarrow> (exn + uid) \<times> world" where
  "deleteActivityBlock now userId activityId blockId w =
     (case owned_activity (w_db w) userId activityId of
        Inl ex \<Rightarrow> (Inl ex, w)
      | Inr a \<Rightarrow>
          (case soft_delete now (\<lambda>bl. bl_id bl = blockId \<and> bl_activityId bl = activityId \<and>
                  bl_vendorId bl = a_vendorId a) (w_db w) of
             (n, d) \<Rightarrow> if n = 0 then (Inl (NotFound BlockNotFound), w)
                       else (Inr blockId, emit [InvalidateAvailability activityId] (w\<lparr>w_db := d\<rparr>))))"

definition deleteActivityBlocksBulk :: "ms \<Rightarrow> uid \<Rightarrow> uid \<Rightarrow> uid list \<Rightarrow> world \<Rightarrow> (exn + nat) \<times> world" where
  "deleteActivityBlocksBulk now userId activityId ids w =
     (case owned_activity (w_db w) userId activityId of
        Inl ex \<Rightarrow> (Inl ex, w)
      | Inr a \<Rightarrow>
          (case soft_delete now (\<lambda>bl. bl_id bl \<in> set ids \<and> bl_activityId bl = activityId \<and>
                  bl_vendorId bl = a_vendorId a) (w_db w) of
             (n, d) \<Rightarrow> (Inr n, if n = 0 then w
                               else emit [InvalidateAvailability activityId] (w\<lparr>w_db := d\<rparr>))))"

definition admin_getActivityBlocks :: "uid \<Rightarrow> db \<Rightarrow> exn + block list" where
  "admin_getActivityBlocks activityId d =
     and_then (any_activity d activityId) (\<lambda>_. Inr (active_blocks d activityId))"

definition admin_createActivityBlock ::
  "interference \<Rightarrow> block_env \<Rightarrow> uid \<Rightarrow> block_dto \<Rightarrow> world \<Rightarrow> (exn + block_result) \<times> world" where
  "admin_createActivityBlock interfere env activityId dto w =
     (case any_activity (w_db w) activityId of
        Inl ex \<Rightarrow> (Inl ex, w)
      | Inr a \<Rightarrow> run_core interfere env a dto w)"

definition admin_deleteActivityBlock :: "ms \<Rightarrow> uid \<Rightarrow> uid \<Rightarrow> world \<Rightarrow> (exn + uid) \<times> world" where
  "admin_deleteActivityBlock now activityId blockId w =
     (case any_activity (w_db w) activityId of
        Inl ex \<Rightarrow> (Inl ex, w)
      | Inr a \<Rightarrow>
          (case soft_delete now (\<lambda>bl. bl_id bl = blockId \<and> bl_activityId bl = activityId) (w_db w) of
             (n, d) \<Rightarrow> if n = 0 then (Inl (NotFound BlockNotFound), w)
                       else (Inr blockId, emit [InvalidateAvailability activityId] (w\<lparr>w_db := d\<rparr>))))"

definition admin_deleteActivityBlocksBulk :: "ms \<Rightarrow> uid \<Rightarrow> uid list \<Rightarrow> world \<Rightarrow> (exn + nat) \<times> world" where
  "admin_deleteActivityBlocksBulk now activityId ids w =
     (case any_activity (w_db w) activityId of
        Inl ex \<Rightarrow> (Inl ex, w)
      | Inr a \<Rightarrow>
          (case soft_delete now (\<lambda>bl. bl_id bl \<in> set ids \<and> bl_activityId bl = activityId) (w_db w) of
             (n, d) \<Rightarrow> (Inr n, if n = 0 then w
                               else emit [InvalidateAvailability activityId] (w\<lparr>w_db := d\<rparr>))))"

end
