(* ===== verification/BlockProps.thy ===== *)
theory BlockProps
  imports Blocks CreateProps
begin

text \<open>
  Facts about availability blocks: the loops over days in terms of the calendar, what an insert under
  the exclusion constraint yields, the invariant that active blocks of an activity are disjoint, and
  the outcome of each branch of the core.
\<close>

section \<open>Days\<close>

lemma day_loop_mem [blocking]:
  "t \<in> set (day_loop a b) \<longleftrightarrow> a \<le> t \<and> t \<le> b \<and> (t - a) mod day_ms = 0"
proof (induction a b rule: day_loop.induct)
  case (1 a b)
  show ?case
  proof (cases "a \<le> b")
    case True
    have "a + day_ms \<le> t" if "a \<le> t" "t \<noteq> a" "(t - a) mod day_ms = 0" for t
      using that zdvd_imp_le [of day_ms "t - a"] by (auto simp: dvd_eq_mod_eq_0)
    then show ?thesis
      using True 1 [OF True] by (subst day_loop.simps) (auto simp: day_ms_def diff_diff_eq2 algebra_simps)
  next
    case False
    then show ?thesis by (subst day_loop.simps) auto
  qed
qed

lemma midnight_day: "midnight c div day_ms = day_of_civil c" "midnight c mod day_ms = 0"
  by (simp_all add: midnight_def day_ms_def)

lemma midnight_in_loop [blocking]:
  assumes "valid_civil a" "valid_civil b" "valid_civil c"
  shows "midnight c \<in> set (day_loop (midnight a) (midnight b)) \<longleftrightarrow> a \<le> c \<and> c \<le> b"
proof -
  have "(midnight c - midnight a) mod day_ms = 0"
    by (simp add: midnight_def flip: left_diff_distrib)
  then show ?thesis by (simp add: day_loop_mem midnight_le assms)
qed

lemma loop_midnight [blocking]:
  assumes "t \<in> set (day_loop (midnight a) b)"
  shows "t = midnight (utc_date t)"
proof -
  have "(t - midnight a) mod day_ms = 0" using assms by (simp add: day_loop_mem)
  then have "t mod day_ms = 0" using midnight_day(2) [of a] by (metis diff_zero mod_diff_right_eq)
  then have "t = t div day_ms * day_ms" by (metis add.right_neutral div_mult_mod_eq)
  then show ?thesis
    by (simp add: midnight_def utc_date_def day_of_civil_of_day)
qed

lemma utc_weekday_midnight [blocking]: "utc_weekday (midnight c) = weekday (day_of_civil c)"
  by (simp add: utc_weekday_def midnight_day)

text \<open>The months of a date counted from the year 0: the horizon is the end of the sixth next month.\<close>

definition month_no :: "civil \<Rightarrow> int" where
  "month_no c = 12 * cy c + cm c"

lemma horizon_is_midnight [blocking]:
  assumes "valid_civil (bd_date dto)" "100 \<le> cy (bd_date dto)"
  obtains h where "valid_civil h" "weekly_horizon dto = midnight h"
    "month_no h = month_no (bd_date dto) + 6" "cd h = days_in_month (cy h) (cm h)"
proof -
  let ?c = "bd_date dto"
  define y m where "y = cy ?c + (cm ?c - 1 + 6) div 12" and "m = (cm ?c - 1 + 6) mod 12 + 1"
  have cm: "1 \<le> cm ?c" "cm ?c \<le> 12" using assms(1) by (auto simp: valid_civil_def)
  then have y: "100 \<le> y" using assms(2) by (simp add: y_def)
  have m: "1 \<le> m" "m \<le> 12" by (simp_all add: m_def)
  have date: "utc_date (midnight ?c) = ?c" using assms(1) by simp
  have "utc_date (addMonthsClamped (midnight ?c) 6) = Civil y m (min (cd ?c) (days_in_month y m))"
    using addMonthsClamped_date [of "midnight ?c" 6] y unfolding date y_def m_def by simp
  then have "weekly_horizon dto = utc_day y m 0 * day_ms"
    by (simp add: weekly_horizon_def BLOCK_MAX_ADVANCE_MONTHS_def)
  also have "utc_day y m 0 = day_of_civil (Civil y m (days_in_month y m))"
    using y last_day_of_month [OF m, of y] by (simp add: utc_day_def day_of_civil_def)
  finally have "weekly_horizon dto = midnight (Civil y m (days_in_month y m))"
    by (simp add: midnight_def)
  moreover have "valid_civil (Civil y m (days_in_month y m))"
    using m days_in_month_pos(1) [of y m] by (simp add: valid_civil_def)
  moreover have "month_no (Civil y m (days_in_month y m)) = month_no ?c + 6"
  proof -
    have "12 * ((cm ?c + 5) div 12) + (cm ?c + 5) mod 12 = cm ?c + 5" by simp
    then show ?thesis by (simp add: month_no_def y_def m_def)
  qed
  ultimately show thesis by (intro that) auto
qed

lemma within_horizon [blocking]:
  assumes "valid_civil c" "valid_civil h" "cd h = days_in_month (cy h) (cm h)" "month_no c \<le> month_no h"
  shows "c \<le> h"
proof -
  have "1 \<le> cm c" "cm c \<le> 12" "cd c \<le> days_in_month (cy c) (cm c)" "1 \<le> cm h" "cm h \<le> 12"
    using assms(1,2) by (auto simp: valid_civil_def)
  moreover from this have "cy c < cy h \<or> cy c = cy h \<and> cm c \<le> cm h"
    using assms(4) by (auto simp: month_no_def)
  ultimately show ?thesis using assms(3) by (cases c; cases h) auto
qed

section \<open>Inserting under the exclusion constraint\<close>

lemma block_clash_sym: "block_clash r r' = block_clash r' r"
  by (auto simp: block_clash_def)

definition blocks_ok :: "block list \<Rightarrow> bool" where
  "blocks_ok t = sorted_wrt (\<lambda>r r'. \<not> block_clash r r') t"

lemma insert_blocks_Some [blocking]:
  assumes "insert_blocks t rs = Some t'"
  shows "t' = t @ rs" and "blocks_ok t \<Longrightarrow> blocks_ok t'"
    and "\<And>r r'. r \<in> set t \<Longrightarrow> r' \<in> set rs \<Longrightarrow> \<not> block_clash r' r"
proof -
  show "t' = t @ rs"
    using assms by (induction t rs rule: insert_blocks.induct) (auto split: if_splits)
  show "blocks_ok t'" if "blocks_ok t"
    using assms that
  proof (induction t rs rule: insert_blocks.induct)
    case (2 t r rs)
    then have "\<not> list_ex (block_clash r) t" by (auto split: if_splits)
    then have "\<forall>r' \<in> set t. \<not> block_clash r' r" using block_clash_sym [of r] by (auto simp: list_ex_iff)
    then have "blocks_ok (t @ [r])" using 2(3) by (simp add: blocks_ok_def sorted_wrt_append)
    then show ?case using 2 by (auto split: if_splits)
  qed simp
  show "\<not> block_clash r' r" if "r \<in> set t" "r' \<in> set rs" for r r'
    using assms that by (induction t rs rule: insert_blocks.induct) (auto simp: list_ex_iff split: if_splits)
qed

lemma insert_blocks_None [blocking]:
  "insert_blocks t (rs @ r # us) = None" if "\<exists>r' \<in> set (t @ rs). block_clash r r'" for t rs r us
  using that
proof (induction rs arbitrary: t)
  case (Cons a rs)
  show ?case
  proof (cases "list_ex (block_clash a) t")
    case False
    then show ?thesis using Cons.IH [of "t @ [a]"] Cons.prems by auto
  qed simp
qed (auto simp: list_ex_iff)

lemma blocks_ok_update [blocking]:
  assumes "blocks_ok t" "\<And>r. bl_deletedAt (f r) \<noteq> None"
  shows "blocks_ok (update_many p f t)"
proof -
  have "\<not> block_clash (if p r then f r else r) (if p r' then f r' else r')" if "\<not> block_clash r r'" for r r'
    using that assms(2) [of r] assms(2) [of r'] by (auto simp: block_clash_def)
  then have "sorted_wrt (\<lambda>r r'. \<not> block_clash (if p r then f r else r) (if p r' then f r' else r')) t"
    using assms(1) unfolding blocks_ok_def
    by (elim sorted_wrt_mono_rel [of t "\<lambda>r r'. \<not> block_clash r r'", rotated]) blast
  then show ?thesis by (simp add: blocks_ok_def update_many_def sorted_wrt_map)
qed

lemma blocks_okD [blocking]:
  assumes "blocks_ok t" "r \<in> set t" "r' \<in> set t" "r \<noteq> r'"
  shows "\<not> block_clash r r'"
proof -
  obtain i j where ij: "i < length t" "j < length t" "t ! i = r" "t ! j = r'" "i \<noteq> j"
    using assms(2-4) by (auto simp: in_set_conv_nth)
  then have "i < j \<or> j < i" by linarith
  then show ?thesis
    using assms(1) ij block_clash_sym [of r r']
    by (auto simp: blocks_ok_def sorted_wrt_iff_nth_less)
qed

section \<open>The branches of the core\<close>

lemma new_blocks_simps [simp]:
  "length (new_blocks env a wins) = length wins"
  "i < length wins \<Longrightarrow> new_blocks env a wins ! i = new_block env a i (wins ! i)"
  by (simp_all add: new_blocks_def)

lemma new_blocks_mem [blocking]:
  "r \<in> set (new_blocks env a wins) \<longleftrightarrow> (\<exists>i < length wins. r = new_block env a i (wins ! i))"
  by (auto simp: in_set_conv_nth)

lemma create_many_cases [blocking]:
  "create_many env a hit wins d = (Inl (Conflict BlockOverlaps), d) \<and> insert_blocks (blocks d) (new_blocks env a wins) = None \<or>
   (\<exists>n. create_many env a hit wins d = (Inr (BlocksCreated (length wins) n), d\<lparr>blocks := blocks d @ new_blocks env a wins\<rparr>) \<and>
     insert_blocks (blocks d) (new_blocks env a wins) = Some (blocks d @ new_blocks env a wins))"
  using insert_blocks_Some(1) by (auto simp: create_many_def Let_def split: option.splits)

text \<open>Other requests keep the constraint; so does every branch.\<close>

definition keeps_blocks :: "interference \<Rightarrow> bool" where
  "keeps_blocks f \<longleftrightarrow> (\<forall>d. blocks_ok (blocks d) \<longrightarrow> blocks_ok (blocks (f d)))"

lemma create_many_keeps [blocking]:
  "blocks_ok (blocks d) \<Longrightarrow> blocks_ok (blocks (snd (create_many env a hit wins d)))"
  using insert_blocks_Some(2) by (auto simp: create_many_def Let_def split: option.splits)

lemma core_keeps [blocking]:
  assumes "keeps_blocks f" "blocks_ok (blocks d)"
  shows "blocks_ok (blocks (snd (createActivityBlockCore f env a dto d)))"
proof -
  have f: "blocks_ok (blocks (f d))" using assms by (simp add: keeps_blocks_def)
  have "blocks_ok (blocks (snd (block_weekly f env a dto d)))"
    using f assms(2) create_many_keeps [OF f] by (auto simp: block_weekly_def Let_def)
  moreover have "blocks_ok (blocks (snd (block_slots f env a dto ts d)))" for ts
    using f assms(2) create_many_keeps [OF f] by (auto simp: block_slots_def Let_def split: option.splits)
  moreover have "blocks_ok (blocks (snd (block_days f env a dto d)))"
    using f assms(2) insert_blocks_Some(2) [OF _ f]
    by (auto simp: block_days_def Let_def simp del: insert_blocks.simps split: option.splits)
  ultimately show ?thesis
    using assms(2) by (auto simp: createActivityBlockCore_def split: sum.splits option.splits list.splits)
qed

lemma run_core_keeps [blocking]:
  assumes "keeps_blocks f" "blocks_ok (blocks (w_db w))"
  shows "blocks_ok (blocks (w_db (snd (run_core f env a dto w))))"
  using core_keeps [OF assms, of env a dto]
  by (auto simp: run_core_def split: prod.splits sum.splits)

lemma soft_delete_keeps [blocking]:
  "blocks_ok (blocks d) \<Longrightarrow> blocks_ok (blocks (snd (soft_delete now sel d)))"
  by (auto simp: soft_delete_def Let_def intro: blocks_ok_update)

text \<open>The operations on blocks, in any order and next to anybody.\<close>

inductive block_step :: "world \<Rightarrow> world \<Rightarrow> bool" where
  vendor_blocks: "keeps_blocks f \<Longrightarrow> createActivityBlock f env u aid dto w = (res, w') \<Longrightarrow> block_step w w'"
| vendor_unblocks: "deleteActivityBlock now u aid bid w = (res', w') \<Longrightarrow> block_step w w'"
| vendor_unblocks_many: "deleteActivityBlocksBulk now u aid ids w = (res'', w') \<Longrightarrow> block_step w w'"
| admin_blocks: "keeps_blocks f \<Longrightarrow> admin_createActivityBlock f env aid dto w = (res, w') \<Longrightarrow> block_step w w'"
| admin_unblocks: "admin_deleteActivityBlock now aid bid w = (res', w') \<Longrightarrow> block_step w w'"
| admin_unblocks_many: "admin_deleteActivityBlocksBulk now aid ids w = (res'', w') \<Longrightarrow> block_step w w'"

inductive block_reach :: "world \<Rightarrow> world \<Rightarrow> bool" for w0 where
  block_start: "block_reach w0 w0"
| block_next: "block_reach w0 w \<Longrightarrow> block_step w w' \<Longrightarrow> block_reach w0 w'"

lemma block_delete_keeps [blocking]:
  assumes "blocks_ok (blocks (w_db w))"
  shows "blocks_ok (blocks (w_db (snd (deleteActivityBlock now u aid bid w))))"
    "blocks_ok (blocks (w_db (snd (deleteActivityBlocksBulk now u aid ids w))))"
    "blocks_ok (blocks (w_db (snd (admin_deleteActivityBlock now aid bid w))))"
    "blocks_ok (blocks (w_db (snd (admin_deleteActivityBlocksBulk now aid ids w))))"
proof -
  have sd: "blocks_ok (blocks d)" if "soft_delete now sel (w_db w) = (n, d)" for sel n d
    using soft_delete_keeps [OF assms, of now sel] that by simp
  show "blocks_ok (blocks (w_db (snd (deleteActivityBlock now u aid bid w))))"
    "blocks_ok (blocks (w_db (snd (deleteActivityBlocksBulk now u aid ids w))))"
    "blocks_ok (blocks (w_db (snd (admin_deleteActivityBlock now aid bid w))))"
    "blocks_ok (blocks (w_db (snd (admin_deleteActivityBlocksBulk now aid ids w))))"
    using assms by (auto simp: deleteActivityBlock_def deleteActivityBlocksBulk_def admin_deleteActivityBlock_def
      admin_deleteActivityBlocksBulk_def dest: sd split: sum.splits prod.splits)
qed

lemma create_keeps [blocking]:
  assumes "keeps_blocks f" "blocks_ok (blocks (w_db w))"
  shows "blocks_ok (blocks (w_db (snd (createActivityBlock f env u aid dto w))))"
    "blocks_ok (blocks (w_db (snd (admin_createActivityBlock f env aid dto w))))"
  using assms(2) run_core_keeps [OF assms]
  by (simp_all add: createActivityBlock_def admin_createActivityBlock_def split: sum.splits)

lemma block_step_keeps [blocking]:
  assumes "block_step w w'" "blocks_ok (blocks (w_db w))"
  shows "blocks_ok (blocks (w_db w'))"
  using assms create_keeps block_delete_keeps by (cases rule: block_step.cases) (metis snd_conv)+

lemma block_reach_keeps [blocking]:
  "block_reach w w' \<Longrightarrow> blocks_ok (blocks (w_db w)) \<Longrightarrow> blocks_ok (blocks (w_db w'))"
  by (induction rule: block_reach.induct) (auto intro: block_step_keeps)

section \<open>What a block keeps out\<close>

lemma booking_window_days [blocking]:
  assumes "booking_window env dto a tz today = Inr (s, e)" "a_bookingType a = HOURLY"
    and "pred_option valid_hm (d_slotTime dto)"
  shows "midnight (d_checkInDate dto) \<le> s \<and> s < midnight (d_checkInDate dto) + day_ms \<and> s < e"
proof -
  obtain t ci co dur end_mins where w: "d_slotTime dto = Some t" "a_duration a = Some dur" "0 < dur"
    "slot_end_mins env (d_slotEndTime dto) (toMinutes t) (dur * 60) = Inr end_mins"
    "s = buildDatetime (d_checkInDate dto) t" "e = buildDatetime (d_checkInDate dto) (fromMinutes end_mins)"
    using assms(1,2)
    by (auto simp: booking_window_def hourly_window_def Let_def and_then_Inr split: option.splits if_splits)
  have "toMinutes t < end_mins"
    using w(3,4) by (auto simp: slot_end_mins_def Let_def split: option.splits if_splits)
  moreover have "0 \<le> toMinutes t" "toMinutes t < 1440"
    using assms(3) w(1) by (auto simp: valid_hm_def toMinutes_def)
  ultimately show ?thesis
    by (simp add: w(5,6) buildDatetime_def midnight_def ms_units)
qed

lemma not_blocked [blocking]:
  assumes "check_blocks_and_duplicates env d u dto a s e = Inr ()" "block_window dto a s e = (bs, be)"
    and "bl \<in> set (blocks d)" "bl_activityId bl = d_activityId dto" "bl_deletedAt bl = None"
  shows "be \<le> bl_start bl \<or> bl_end bl \<le> bs"
  using assms by (auto simp: check_blocks_and_duplicates_def find_first_None block_overlaps_def not_less split: if_splits)

text \<open>The days a booking occupies: the nights of a stay, the day of an hourly booking.\<close>

definition occupies :: "activity \<Rightarrow> booking_dto \<Rightarrow> civil \<Rightarrow> bool" where
  "occupies a dto c =
     (d_checkInDate dto \<le> c \<and>
      (if a_bookingType a = DAILY then c < or_default (d_checkInDate dto) (d_checkOutDate dto)
       else c = d_checkInDate dto))"

lemma closed_days [blocking]:
  assumes created: "createBooking env u dto r w = (Inr (Created b rem), r', w')"
    and a: "find_first (\<lambda>a. a_id a = d_activityId dto) (activities (w_db w)) = Some a"
    and slot: "pred_option valid_hm (d_slotTime dto)"
    and bl: "bl \<in> set (blocks (w_db w))" "bl_activityId bl = d_activityId dto" "bl_deletedAt bl = None"
      "bl_start bl = midnight from" "bl_end bl = midnight until + day_ms" "valid_civil from" "valid_civil until"
    and c: "valid_civil c" "occupies a dto c"
  shows "c < from \<or> until < c"
proof (rule createBooking_tx [OF created a])
  fix v co today s e b0 cap d
  assume v: "validate_request env (w_db w) dto = Inr (a, v, co, today)"
    and bw: "booking_window env dto a (co_timezone co) today = Inr (s, e)"
    and cb: "check_blocks_and_duplicates env (w_db w) u dto a s e = Inr ()"
  obtain bs be where win: "block_window dto a s e = (bs, be)" by fastforce
  have free: "be \<le> midnight from \<or> midnight until + day_ms \<le> bs"
    using not_blocked [OF cb win bl(1-3)] bl(4,5) by simp
  have ci: "valid_civil (d_checkInDate dto)"
    using validate_request_Inr [OF v] by (cases "d_checkInDate dto") (simp add: isValidCivil_def isValidYMD_iff)
  have co: "valid_civil (or_default (d_checkInDate dto) (d_checkOutDate dto))"
    using validate_request_Inr [OF v] ci
    by (cases "d_checkOutDate dto"; cases "the (d_checkOutDate dto)")
      (simp_all add: or_default_def isValidCivil_def isValidYMD_iff)
  have day: "midnight x < midnight until + day_ms" if "x \<le> until" "valid_civil x" for x
    using midnight_le [OF that(2) bl(7)] that by (simp add: day_ms_def)
  show ?thesis
  proof (rule ccontr)
    assume "\<not> ?thesis"
    then have fc: "from \<le> c" "c \<le> until" by auto
    then have "midnight from \<le> midnight c" using midnight_le [OF bl(6) c(1)] by simp
    moreover have "bs < midnight until + day_ms \<and> midnight c < be"
    proof (cases "a_bookingType a = DAILY")
      case True
      have "midnight (d_checkInDate dto) \<le> midnight c"
        "midnight c < midnight (or_default (d_checkInDate dto) (d_checkOutDate dto))"
        using c True midnight_le [OF ci c(1)] midnight_less [OF c(1) co] by (simp_all add: occupies_def)
      then show ?thesis using True win day [OF fc(2) c(1)] by (auto simp: block_window_def)
    next
      case False
      then have "a_bookingType a = HOURLY" by (cases "a_bookingType a") auto
      from booking_window_days [OF bw this slot] False win c
      have "bs < midnight c + day_ms" "midnight c < be" by (auto simp: block_window_def occupies_def)
      moreover have "midnight c \<le> midnight until" using midnight_le [OF c(1) bl(7)] fc(2) by simp
      ultimately show ?thesis by simp
    qed
    ultimately show False using free by linarith
  qed
qed

lemma block_days_Created [blocking]:
  assumes "createActivityBlockCore f env a dto d = (Inr (BlockCreated bl n), d')"
  shows "bl \<in> set (blocks d') \<and> bl_activityId bl = a_id a \<and> bl_vendorId bl = a_vendorId a \<and> bl_deletedAt bl = None \<and>
    bl_start bl = midnight (bd_date dto) \<and> bl_end bl = midnight (last_day dto) + day_ms \<and>
    valid_civil (bd_date dto) \<and> valid_civil (last_day dto)"
proof -
  have core: "check_block_dto env dto = Inr ()" "block_days f env a dto d = (Inr (BlockCreated bl n), d')"
    using assms by (auto simp: createActivityBlockCore_def block_weekly_def block_slots_def create_many_def Let_def
        split: sum.splits option.splits list.splits if_splits)
  have v: "valid_civil c" if "isValidCivil c" for c
    using that by (cases c) (simp add: isValidCivil_def isValidYMD_iff)
  have "valid_civil (bd_date dto)" "valid_civil (last_day dto)"
    using core(1) v by (auto simp: check_block_dto_def Let_def last_day_def or_default_def split: option.splits)
  moreover have "bl = new_block env a 0 (midnight (bd_date dto), midnight (last_day dto) + day_ms)"
    "blocks d' = blocks (f d) @ [bl]"
    using core(2) by (auto simp: block_days_def Let_def split: if_splits option.splits)
  ultimately show ?thesis by (simp add: new_block_def)
qed

section \<open>Locking slots\<close>

lemma js_unique_mem [simp]: "set (js_unique xs) = set xs" "distinct (js_unique xs)"
  by (simp_all add: js_unique_def)

text \<open>Two windows of one insert that overlap: the constraint refuses the statement.\<close>

lemma overlapping_windows [blocking]:
  assumes "x \<in> set wins" "y \<in> set wins" "x \<noteq> y" "fst x < snd y" "fst y < snd x"
  shows "insert_blocks t (new_blocks env a wins) = None"
proof -
  have clash: "block_clash (new_block env a i (wins ! i)) (new_block env a j (wins ! j))"
    if "wins ! i = x \<and> wins ! j = y \<or> wins ! i = y \<and> wins ! j = x" for i j
    using that assms(4,5) by (auto simp: block_clash_def new_block_def)
  obtain i j where ij: "i < length wins" "j < length wins" "i \<noteq> j" "wins ! i = x" "wins ! j = y"
    using assms(1-3) by (auto simp: in_set_conv_nth)
  define lo hi where "lo = min i j" and "hi = max i j"
  have lh: "lo < hi" "hi < length wins" "wins ! hi = x \<and> wins ! lo = y \<or> wins ! hi = y \<and> wins ! lo = x"
    using ij by (auto simp: lo_def hi_def min_def max_def)
  let ?rs = "new_blocks env a wins"
  have split: "?rs = take hi ?rs @ new_block env a hi (wins ! hi) # drop (Suc hi) ?rs"
    using lh(2) by (metis id_take_nth_drop new_blocks_simps)
  have "new_block env a lo (wins ! lo) \<in> set (take hi ?rs)"
    using lh(1,2) by (auto simp: in_set_conv_nth intro!: exI [of _ lo])
  then have "\<exists>r' \<in> set (t @ take hi ?rs). block_clash (new_block env a hi (wins ! hi)) r'"
    using clash [OF lh(3)] by auto
  then show ?thesis using insert_blocks_None by (subst split) blast
qed

lemma close_slots [blocking]:
  assumes dto: "check_block_dto env dto = Inr ()" "\<not> bd_repeatWeekly dto" "bd_slotTimes dto = Some ts" "last_day dto = bd_date dto"
    and a: "a_bookingType a = HOURLY" "bookable_starts a = Some valid" "set ts \<subseteq> set valid"
    and t: "t1 \<in> set ts" "t2 \<in> set ts" "toMinutes t1 < toMinutes t2" "toMinutes t2 < toMinutes t1 + 60"
    and free: "open_window (be_now env) (scan_blocks d (a_id a) (midnight (bd_date dto)) (midnight (bd_date dto) + day_ms))
        (slot_window (bd_date dto) t1)"
      "open_window (be_now env) (scan_blocks d (a_id a) (midnight (bd_date dto)) (midnight (bd_date dto) + day_ms))
        (slot_window (bd_date dto) t2)"
  shows "createActivityBlockCore f env a dto d = (Inl (Conflict BlockOverlaps), f d)"
proof -
  let ?ex = "scan_blocks d (a_id a) (midnight (bd_date dto)) (midnight (bd_date dto) + day_ms)"
  let ?wins = "slot_windows (be_now env) ?ex (bd_date dto) ts"
  obtain t0 tr where ts: "ts = t0 # tr" using t(1) by (cases ts) auto
  have valid: "\<not> list_ex (\<lambda>t. t \<notin> set valid) ts"
    using a(3) by (auto simp: list_ex_iff)
  have "slot_window (bd_date dto) t1 \<in> set ?wins" "slot_window (bd_date dto) t2 \<in> set ?wins"
    using t(1,2) free by (auto simp: slot_windows_def)
  moreover have "fst (slot_window (bd_date dto) t1) < snd (slot_window (bd_date dto) t2)"
    "fst (slot_window (bd_date dto) t2) < snd (slot_window (bd_date dto) t1)"
    "slot_window (bd_date dto) t1 \<noteq> slot_window (bd_date dto) t2"
    using t(3,4) by (simp_all add: slot_window_def buildDatetime_def SLOT_MS_def ms_units)
  ultimately have none: "insert_blocks (blocks (f d)) (new_blocks env a ?wins) = None" and ne: "?wins \<noteq> []"
    using overlapping_windows by fastforce+
  have "block_slots f env a dto ts d = (Inl (Conflict BlockOverlaps), f d)"
    using a(1,2) dto(4) valid none ne by (simp add: block_slots_def Let_def create_many_def)
  then show ?thesis using dto(1-3) by (simp add: createActivityBlockCore_def ts)
qed

section \<open>The weekly block\<close>

text \<open>A day of the weekly block: in the six months, and of a weekday of the range.\<close>

definition weekly_day :: "block_dto \<Rightarrow> civil \<Rightarrow> bool" where
  "weekly_day dto c =
     (bd_date dto \<le> c \<and> month_no c \<le> month_no (bd_date dto) + 6 \<and>
      list_ex (\<lambda>n. weekday n = weekday (day_of_civil c)) [day_of_civil (bd_date dto)..day_of_civil (last_day dto)])"

lemma block_weekdays_mem [blocking]:
  assumes "valid_civil (bd_date dto)" "valid_civil (last_day dto)"
  shows "k \<in> set (block_weekdays dto) \<longleftrightarrow>
    list_ex (\<lambda>n. weekday n = k) [day_of_civil (bd_date dto)..day_of_civil (last_day dto)]"
proof -
  let ?a = "bd_date dto" and ?b = "last_day dto"
  have "k \<in> set (block_weekdays dto) \<longleftrightarrow> (\<exists>n. day_of_civil ?a \<le> n \<and> n \<le> day_of_civil ?b \<and> weekday n = k)"
  proof
    assume "k \<in> set (block_weekdays dto)"
    then obtain t where t: "t \<in> set (day_loop (midnight ?a) (midnight ?b))" "k = utc_weekday t"
      by (auto simp: block_weekdays_def)
    define n where "n = day_of_civil (utc_date t)"
    have n: "t = n * day_ms" using loop_midnight [OF t(1)] by (simp add: midnight_def n_def)
    then have "day_of_civil ?a \<le> n" "n \<le> day_of_civil ?b"
      using t(1) by (simp_all add: day_loop_mem midnight_def day_ms_def)
    moreover have "weekday n = k" using t(2) n by (simp add: utc_weekday_def day_ms_def)
    ultimately show "\<exists>n. day_of_civil ?a \<le> n \<and> n \<le> day_of_civil ?b \<and> weekday n = k" by blast
  next
    assume "\<exists>n. day_of_civil ?a \<le> n \<and> n \<le> day_of_civil ?b \<and> weekday n = k"
    then obtain n where n: "day_of_civil ?a \<le> n" "n \<le> day_of_civil ?b" "weekday n = k" by blast
    have "n * day_ms - midnight ?a = (n - day_of_civil ?a) * day_ms"
      by (simp add: midnight_def left_diff_distrib)
    then have "(n * day_ms - midnight ?a) mod day_ms = 0" by simp
    moreover have "midnight ?a \<le> n * day_ms" "n * day_ms \<le> midnight ?b"
      using n(1,2) by (simp_all add: midnight_def day_ms_def)
    ultimately have "n * day_ms \<in> set (day_loop (midnight ?a) (midnight ?b))" by (simp add: day_loop_mem)
    moreover have "utc_weekday (n * day_ms) = k" using n(3) by (simp add: utc_weekday_def day_ms_def)
    ultimately show "k \<in> set (block_weekdays dto)" by (force simp: block_weekdays_def)
  qed
  then show ?thesis by (auto simp: list_ex_iff)
qed

lemma weekly_windows_mem [blocking]:
  assumes "valid_civil (bd_date dto)" "valid_civil (last_day dto)" "100 \<le> cy (bd_date dto)" "valid_civil c"
  shows "day_window (midnight c) \<in> set (weekly_windows now existing dto) \<longleftrightarrow>
    weekly_day dto c \<and> open_window now existing (day_window (midnight c))"
proof -
  obtain h where h: "valid_civil h" "weekly_horizon dto = midnight h"
    "month_no h = month_no (bd_date dto) + 6" "cd h = days_in_month (cy h) (cm h)"
    using horizon_is_midnight [OF assms(1,3)] by blast
  have "c \<le> h \<longleftrightarrow> month_no c \<le> month_no (bd_date dto) + 6"
  proof
    assume "c \<le> h"
    then show "month_no c \<le> month_no (bd_date dto) + 6"
      using assms(4) h(1,3) by (cases c; cases h) (auto simp: month_no_def valid_civil_def)
  next
    assume "month_no c \<le> month_no (bd_date dto) + 6"
    then show "c \<le> h" using within_horizon [OF assms(4) h(1,4)] h(3) by simp
  qed
  then have "midnight c \<in> set (day_loop (midnight (bd_date dto)) (weekly_horizon dto)) \<longleftrightarrow>
      bd_date dto \<le> c \<and> month_no c \<le> month_no (bd_date dto) + 6"
    using midnight_in_loop [OF assms(1) h(1) assms(4)] h(2) by simp
  moreover have "inj day_window" by (auto simp: inj_on_def day_window_def)
  ultimately show ?thesis
    using block_weekdays_mem [OF assms(1,2), of "weekday (day_of_civil c)"]
    by (simp add: weekly_windows_def Let_def weekly_day_def utc_weekday_midnight inj_image_mem_iff)
qed

lemma check_block_dto_Inr [blocking]:
  assumes "check_block_dto env dto = Inr ()"
  shows "valid_civil (bd_date dto)" "valid_civil (last_day dto)" "bd_date dto \<le> last_day dto"
proof -
  have v: "valid_civil c" if "isValidCivil c" for c
    using that by (cases c) (simp add: isValidCivil_def isValidYMD_iff)
  show "valid_civil (bd_date dto)" "valid_civil (last_day dto)" "bd_date dto \<le> last_day dto"
    using assms v by (auto simp: check_block_dto_def Let_def last_day_def or_default_def split: option.splits)
qed

lemma weekly_result [blocking]:
  assumes core: "createActivityBlockCore f env a dto d = (Inr (BlocksCreated n k), d')"
    and dto: "bd_repeatWeekly dto" "100 \<le> cy (bd_date dto)" and c: "valid_civil c"
  shows "blocks d' = blocks (f d) @ drop (length (blocks (f d))) (blocks d')"
    and "(\<exists>bl \<in> set (drop (length (blocks (f d))) (blocks d')). bl_activityId bl = a_id a \<and> bl_deletedAt bl = None \<and>
        bl_start bl = midnight c \<and> bl_end bl = midnight c + day_ms) \<longleftrightarrow>
      weekly_day dto c \<and> be_now env < midnight c + day_ms \<and>
      find_first (block_overlaps (a_id a) (midnight c) (midnight c + day_ms)) (blocks d) = None"
proof -
  let ?ex = "scan_blocks d (a_id a) (midnight (bd_date dto)) (weekly_horizon dto + day_ms)"
  let ?wins = "weekly_windows (be_now env) ?ex dto"
  have chk: "check_block_dto env dto = Inr ()" and w: "block_weekly f env a dto d = (Inr (BlocksCreated n k), d')"
    using core dto(1) by (auto simp: createActivityBlockCore_def split: sum.splits)
  note v = check_block_dto_Inr [OF chk]
  have "create_many env a hits_some ?wins (f d) = (Inr (BlocksCreated n k), d')"
    using w by (auto simp: block_weekly_def Let_def split: if_splits)
  then have rows: "blocks d' = blocks (f d) @ new_blocks env a ?wins"
    using create_many_cases [of env a hits_some ?wins "f d"] by auto
  then show "blocks d' = blocks (f d) @ drop (length (blocks (f d))) (blocks d')" by simp
  have "(\<exists>bl \<in> set (new_blocks env a ?wins). bl_activityId bl = a_id a \<and> bl_deletedAt bl = None \<and>
      bl_start bl = midnight c \<and> bl_end bl = midnight c + day_ms) \<longleftrightarrow> day_window (midnight c) \<in> set ?wins"
    unfolding Bex_def new_blocks_mem by (auto simp: new_block_def day_window_def in_set_conv_nth prod_eq_iff)
  also have "\<dots> \<longleftrightarrow> weekly_day dto c \<and> open_window (be_now env) ?ex (day_window (midnight c))"
    by (rule weekly_windows_mem [OF v(1,2) dto(2) c])
  also have "\<dots> \<longleftrightarrow> weekly_day dto c \<and> be_now env < midnight c + day_ms \<and>
      find_first (block_overlaps (a_id a) (midnight c) (midnight c + day_ms)) (blocks d) = None"
  proof -
    have "midnight (bd_date dto) \<le> midnight c \<and> midnight c \<le> weekly_horizon dto" if "weekly_day dto c"
    proof -
      obtain h where h: "valid_civil h" "weekly_horizon dto = midnight h"
        "month_no h = month_no (bd_date dto) + 6" "cd h = days_in_month (cy h) (cm h)"
        using horizon_is_midnight [OF v(1) dto(2)] by blast
      then show ?thesis
        using that within_horizon [OF c h(1,4)] midnight_le [OF c h(1)] midnight_le [OF v(1) c]
        by (simp add: weekly_day_def)
    qed
    then have "(\<exists>bl \<in> set ?ex. covers_part (midnight c) (midnight c + day_ms) bl) \<longleftrightarrow>
        (\<exists>bl \<in> set (blocks d). block_overlaps (a_id a) (midnight c) (midnight c + day_ms) bl)" if "weekly_day dto c"
      using that by (auto simp: scan_blocks_def find_many_def covers_part_def block_overlaps_def)
    then show ?thesis
      by (auto simp: open_window_def day_window_def list_ex_iff find_first_None)
  qed
  finally show "(\<exists>bl \<in> set (drop (length (blocks (f d))) (blocks d')). bl_activityId bl = a_id a \<and> bl_deletedAt bl = None \<and>
        bl_start bl = midnight c \<and> bl_end bl = midnight c + day_ms) \<longleftrightarrow>
      weekly_day dto c \<and> be_now env < midnight c + day_ms \<and>
      find_first (block_overlaps (a_id a) (midnight c) (midnight c + day_ms)) (blocks d) = None"
    by (simp add: rows)
qed

end
