(* ===== verification/BlockTheorems.thy ===== *)
theory BlockTheorems
  imports BlockProps Scenario
begin

text \<open>
  The properties of availability blocks, each with an application to the sample installation of
  \<open>Scenario\<close>.
\<close>

definition sc_block_env :: block_env where
  "sc_block_env = \<lparr>be_now = sc_now, be_ids = (\<lambda>i. 700 + i)\<rparr>"

section \<open>Active blocks are disjoint\<close>

text \<open>Two active blocks of one activity never overlap, whatever vendor and administrator create and remove,
  also when other requests insert between the scan and the insert of a creation.\<close>

theorem blocks_never_overlap:
  assumes "block_reach w w'" "blocks_ok (blocks (w_db w))"
    and "bl \<in> set (blocks (w_db w'))" "bl' \<in> set (blocks (w_db w'))" "bl \<noteq> bl'"
    and "bl_activityId bl = bl_activityId bl'" "bl_deletedAt bl = None" "bl_deletedAt bl' = None"
  shows "bl_end bl \<le> bl_start bl' \<or> bl_end bl' \<le> bl_start bl"
  using blocks_okD [OF block_reach_keeps [OF assms(1,2)] assms(3-5)] assms(6-8)
  by (auto simp: block_clash_def not_less)

text \<open>The vendor closes 11 March, then every Wednesday.\<close>

definition sc_closing :: block_dto where
  "sc_closing = \<lparr>bd_date = Civil 2026 3 11, bd_endDate = None, bd_slotTimes = None, bd_repeatWeekly = False\<rparr>"

definition sc_closed :: world where
  "sc_closed = snd (createActivityBlock id sc_block_env 8 11 sc_closing sc_world)"

lemma sc_closing_result:
  "fst (createActivityBlock id sc_block_env 8 11 sc_closing sc_world) =
     Inr (BlockCreated (new_block sc_block_env sc_daily 0 (midnight (Civil 2026 3 11), midnight (Civil 2026 3 12))) 0)"
  by code_simp

lemma sc_closed_blocks:
  "blocks (w_db sc_closed) = [new_block sc_block_env sc_daily 0 (midnight (Civil 2026 3 11), midnight (Civil 2026 3 12))]"
  by code_simp

definition sc_weekly :: block_dto where
  "sc_weekly = sc_closing\<lparr>bd_date := Civil 2026 3 4, bd_repeatWeekly := True\<rparr>"

lemma sc_weekly_result:
  "fst (createActivityBlockCore id sc_block_env sc_daily sc_weekly (w_db sc_closed)) = Inr (BlocksCreated 30 0)"
  by code_simp

lemma sc_closed_reach: "block_reach sc_world sc_closed"
proof -
  have "createActivityBlock id sc_block_env 8 11 sc_closing sc_world =
      (fst (createActivityBlock id sc_block_env 8 11 sc_closing sc_world), sc_closed)"
    by (simp add: sc_closed_def)
  then have "block_step sc_world sc_closed" by (rule vendor_blocks [rotated]) (simp add: keeps_blocks_def)
  then show ?thesis by (rule block_next [OF block_start])
qed

text \<open>A second block, on another day, by the administrator.\<close>

definition sc_closed_twice :: world where
  "sc_closed_twice = snd (admin_createActivityBlock id (sc_block_env\<lparr>be_ids := (\<lambda>i. 800 + i)\<rparr>) 11
     (sc_closing\<lparr>bd_date := Civil 2026 3 20\<rparr>) sc_closed)"

lemma sc_closed_twice_blocks:
  "blocks (w_db sc_closed_twice) =
     [\<lparr>bl_id = 700, bl_activityId = 11, bl_vendorId = 3, bl_start = midnight (Civil 2026 3 11),
       bl_end = midnight (Civil 2026 3 12), bl_deletedAt = None\<rparr>,
      \<lparr>bl_id = 800, bl_activityId = 11, bl_vendorId = 3, bl_start = midnight (Civil 2026 3 20),
       bl_end = midnight (Civil 2026 3 21), bl_deletedAt = None\<rparr>]"
  by code_simp

theorem blocks_never_overlap_witness:
  "midnight (Civil 2026 3 12) \<le> midnight (Civil 2026 3 20) \<or> midnight (Civil 2026 3 21) \<le> midnight (Civil 2026 3 11)"
proof -
  have "admin_createActivityBlock id (sc_block_env\<lparr>be_ids := (\<lambda>i. 800 + i)\<rparr>) 11
      (sc_closing\<lparr>bd_date := Civil 2026 3 20\<rparr>) sc_closed =
      (fst (admin_createActivityBlock id (sc_block_env\<lparr>be_ids := (\<lambda>i. 800 + i)\<rparr>) 11
        (sc_closing\<lparr>bd_date := Civil 2026 3 20\<rparr>) sc_closed), sc_closed_twice)"
    by (simp add: sc_closed_twice_def)
  then have "block_step sc_closed sc_closed_twice" by (rule admin_blocks [rotated]) (simp add: keeps_blocks_def)
  then have r: "block_reach sc_world sc_closed_twice" by (rule block_next [OF sc_closed_reach])
  have "blocks_ok (blocks (w_db sc_world))" by (simp add: blocks_ok_def sc_world_def sc_db_def)
  from blocks_never_overlap [OF r this, of "blocks (w_db sc_closed_twice) ! 0" "blocks (w_db sc_closed_twice) ! 1"]
  show ?thesis by (simp add: sc_closed_twice_blocks)
qed

section \<open>Closed days\<close>

text \<open>C17. A vendor who closes days of an activity gets no new booking there: while the block stands, no request
  whose nights (or, by the hour, whose day) touch a closed day creates a booking. A stay may still leave on the
  morning of a closed day.\<close>

theorem closed_days_cannot_be_booked:
  assumes "createActivityBlock f benv vu aid bdto w0 = (Inr (BlockCreated bl n), w1)"
    and "bl \<in> set (blocks (w_db w))"
    and "find_first (\<lambda>a. a_id a = d_activityId dto) (activities (w_db w)) = Some a" "d_activityId dto = aid"
    and "pred_option valid_hm (d_slotTime dto)"
    and "valid_civil c" "occupies a dto c" "bd_date bdto \<le> c" "c \<le> last_day bdto"
  shows "fst (createBooking env u dto r w) \<noteq> Inr (Created b rem)"
proof
  assume "fst (createBooking env u dto r w) = Inr (Created b rem)"
  then obtain r' w' where cr: "createBooking env u dto r w = (Inr (Created b rem), r', w')"
    by (metis prod.collapse)
  obtain a0 where a0: "owned_activity (w_db w0) vu aid = Inr a0"
    "createActivityBlockCore f benv a0 bdto (w_db w0) = (Inr (BlockCreated bl n), w_db w1)"
    using assms(1) by (auto simp: createActivityBlock_def run_core_def split: sum.splits prod.splits)
  then have "a_id a0 = aid"
    by (auto simp: owned_activity_def and_then_Inr split: option.splits dest: find_first_Some)
  then show False
    using closed_days [OF cr assms(3,5,2) _ _ _ _ _ _ assms(6,7), of "bd_date bdto" "last_day bdto"]
      block_days_Created [OF a0(2)] assms(4,8,9) by auto
qed

theorem closed_days_cannot_be_booked_witness:
  "fst (createBooking sc_env 7 sc_stay sc_redis sc_closed) \<noteq> Inr (Created stay_booking None)"
proof -
  let ?bl = "new_block sc_block_env sc_daily 0 (midnight (Civil 2026 3 11), midnight (Civil 2026 3 12))"
  have cr: "createActivityBlock id sc_block_env 8 11 sc_closing sc_world = (Inr (BlockCreated ?bl 0), sc_closed)"
    using sc_closing_result by (metis prod.collapse sc_closed_def)
  have act: "find_first (\<lambda>a. a_id a = d_activityId sc_stay) (activities (w_db sc_closed)) = Some sc_daily"
    by code_simp
  have occ: "occupies sc_daily sc_stay (Civil 2026 3 11)" "valid_civil (Civil 2026 3 11)" by code_simp+
  show ?thesis
    by (rule closed_days_cannot_be_booked [OF cr _ act _ _ occ(2,1)])
      (simp_all add: sc_closed_blocks sc_stay_def sc_dto_def sc_closing_def last_day_def or_default_def)
qed

section \<open>Weekly blocks\<close>

text \<open>A weekly block closes exactly the coming days of its weekdays, from its first day to the end of the sixth
  next month, on which the activity had no block at all, and it leaves the rows that were there alone.\<close>

theorem weekly_block_exact:
  assumes "createActivityBlockCore f env a dto d = (Inr (BlocksCreated n k), d')"
    and "bd_repeatWeekly dto" "100 \<le> cy (bd_date dto)" "valid_civil c"
  shows "take (length (blocks (f d))) (blocks d') = blocks (f d) \<and>
    ((\<exists>bl \<in> set (drop (length (blocks (f d))) (blocks d')). bl_activityId bl = a_id a \<and> bl_deletedAt bl = None \<and>
        bl_start bl = midnight c \<and> bl_end bl = midnight c + day_ms) \<longleftrightarrow>
      weekly_day dto c \<and> be_now env < midnight c + day_ms \<and>
      find_first (block_overlaps (a_id a) (midnight c) (midnight c + day_ms)) (blocks d) = None)"
  using weekly_result [OF assms] by (metis append_eq_conv_conj)

definition sc_closed_wednesdays :: db where
  "sc_closed_wednesdays = snd (createActivityBlockCore id sc_block_env sc_daily sc_weekly (w_db sc_closed))"

theorem weekly_block_exact_witness:
  "\<exists>bl \<in> set (drop 1 (blocks sc_closed_wednesdays)). bl_activityId bl = 11 \<and> bl_deletedAt bl = None \<and>
     bl_start bl = midnight (Civil 2026 3 18) \<and> bl_end bl = midnight (Civil 2026 3 18) + day_ms"
proof -
  have cr: "createActivityBlockCore id sc_block_env sc_daily sc_weekly (w_db sc_closed) =
      (Inr (BlocksCreated 30 0), sc_closed_wednesdays)"
    using sc_weekly_result by (metis prod.collapse sc_closed_wednesdays_def)
  have "weekly_day sc_weekly (Civil 2026 3 18)" "be_now sc_block_env < midnight (Civil 2026 3 18) + day_ms"
    "valid_civil (Civil 2026 3 18)" "100 \<le> cy (bd_date sc_weekly)" "bd_repeatWeekly sc_weekly" "a_id sc_daily = 11"
    by code_simp+
  moreover have "find_first (block_overlaps (a_id sc_daily) (midnight (Civil 2026 3 18))
      (midnight (Civil 2026 3 18) + day_ms)) (blocks (w_db sc_closed)) = None"
    unfolding sc_closed_blocks by code_simp
  ultimately show ?thesis
    using weekly_block_exact [OF cr, of "Civil 2026 3 18"] by (simp add: sc_closed_blocks)
qed

text \<open>
  A day on which as little as an hour was locked is left out of the weekly block: whatever was open on it
  stays open, although the answer reports success.
\<close>

lemma weekly_leaves_touched_day_open:
  assumes "createActivityBlockCore f env a dto d = (Inr (BlocksCreated n k), d')"
    and "bd_repeatWeekly dto" "100 \<le> cy (bd_date dto)" "valid_civil c"
    and "find_first (block_overlaps (a_id a) (midnight c) (midnight c + day_ms)) (blocks d) \<noteq> None"
    and "bl \<in> set (blocks d')" "bl_activityId bl = a_id a" "bl_start bl = midnight c" "bl_end bl = midnight c + day_ms"
      "bl_deletedAt bl = None"
  shows "bl \<in> set (blocks (f d))"
  using weekly_result [OF assms(1-4)] assms(5-) by (metis Un_iff set_append)

section \<open>Locking slots\<close>

text \<open>Two start times less than an hour apart cannot be locked in one request, although both can be booked and
  neither is locked: the hours the request itself inserts overlap each other, and the answer speaks of an
  existing block. (Start times are offered every half hour.)\<close>

theorem close_slots_refused:
  assumes "check_block_dto env dto = Inr ()" "\<not> bd_repeatWeekly dto" "bd_slotTimes dto = Some ts" "last_day dto = bd_date dto"
    and "a_bookingType a = HOURLY" "bookable_starts a = Some valid" "set ts \<subseteq> set valid"
    and "t \<in> set ts" "t' \<in> set ts" "toMinutes t < toMinutes t'" "toMinutes t' < toMinutes t + 60"
    and "open_window (be_now env) (scan_blocks d (a_id a) (midnight (bd_date dto)) (midnight (bd_date dto) + day_ms))
        (slot_window (bd_date dto) t)"
      "open_window (be_now env) (scan_blocks d (a_id a) (midnight (bd_date dto)) (midnight (bd_date dto) + day_ms))
        (slot_window (bd_date dto) t')"
  shows "createActivityBlockCore f env a dto d = (Inl (Conflict BlockOverlaps), f d)"
  by (rule close_slots [OF assms])

theorem close_slots_refused_witness:
  "createActivityBlockCore id sc_block_env sc_hourly
     (sc_closing\<lparr>bd_slotTimes := Some [HM 9 0, HM 9 30]\<rparr>) sc_db = (Inl (Conflict BlockOverlaps), id sc_db)"
  by (rule close_slots_refused [where t = "HM 9 0" and t' = "HM 9 30" and ts = "[HM 9 0, HM 9 30]"
        and valid = "computeSlots (HM 8 0) (HM 18 0) 1"]) code_simp+

end
