(* ===== verification/SpecialPrices.thy ===== *)
theory SpecialPrices
  imports Blocks
begin

text \<open>
  Special prices: \<open>apps/api/src/vendor/activity-special-prices.logic.ts\<close> and the handlers of
  \<open>vendor.service.ts\<close> and \<open>admin.service.ts\<close> around it. At most one active override exists per activity
  and date (a partial unique index); setting a price again updates the row; a list and a range of dates
  are set in one transaction.
\<close>

named_theorems special \<open>facts about special prices\<close>

section \<open>Requests and environment\<close>

record special_dto =
  sd_date :: civil
  sd_price :: num

record bulk_special_dto =
  bs_dates :: "civil list option"
  bs_startDate :: "civil option"
  bs_endDate :: "civil option"
  bs_price :: num

text \<open>
  The clock, fresh identifiers, and whether another request inserts an override of one of the dates of
  a bulk request before its transaction does (P2002).
\<close>

record special_env =
  se_now :: ms
  se_ids :: "nat \<Rightarrow> uid"
  se_race :: bool

definition SPECIAL_PRICE_MAX_ADVANCE_MONTHS :: int where
  "SPECIAL_PRICE_MAX_ADVANCE_MONTHS = 6"

definition MAX_PRICE :: num where
  "MAX_PRICE = 1000000"

definition BULK_SPECIAL_PRICE_MAX_DATES :: nat where
  "BULK_SPECIAL_PRICE_MAX_DATES = 200"

datatype special_result = SpecialUpdated special_price | SpecialCreated special_price

section \<open>One date\<close>

definition special_on :: "uid \<Rightarrow> civil \<Rightarrow> special_price \<Rightarrow> bool" where
  "special_on aid date s = (sp_activityId s = aid \<and> sp_date s = date \<and> sp_deletedAt s = None)"

definition check_special_dto :: "special_env \<Rightarrow> special_dto \<Rightarrow> exn + unit" where
  "check_special_dto env dto =
     throw_if (\<not> isValidCivil (sd_date dto)) (BadPrice PriceDateInvalid)
    (throw_if (sd_date dto < utc_date (se_now env)) (BadPrice PriceDatePast)
    (throw_if (utc_date (addMonthsClamped (se_now env) SPECIAL_PRICE_MAX_ADVANCE_MONTHS) < sd_date dto)
       (BadPrice PriceTooFarAhead)
    (throw_if (\<not> 0 < sd_price dto \<or> MAX_PRICE < sd_price dto) (BadPrice PriceInvalid)
    (Inr ()))))"

text \<open>
  The row is looked up, then updated by its identifier, or inserted under the unique index; between the
  lookup and the write other requests may commit.
\<close>

definition write_special ::
  "special_price option \<Rightarrow> uid \<Rightarrow> activity \<Rightarrow> special_dto \<Rightarrow> db \<Rightarrow> (exn + special_result) \<times> db" where
  "write_special existing fresh a dto d =
     (case existing of
        Some s0 \<Rightarrow>
          (case find_first (\<lambda>s. sp_id s = sp_id s0) (specials d) of
             None \<Rightarrow> (Inl (NotFound SpecialPriceNotFound), d)
           | Some s \<Rightarrow>
               (Inr (SpecialUpdated (s\<lparr>sp_price := sd_price dto\<rparr>)),
                d\<lparr>specials := update_many (\<lambda>s. sp_id s = sp_id s0) (\<lambda>s. s\<lparr>sp_price := sd_price dto\<rparr>) (specials d)\<rparr>))
      | None \<Rightarrow>
          if list_ex (special_on (a_id a) (sd_date dto)) (specials d)
          then (Inl (Conflict UniqueViolation), d)
          else
            let s = \<lparr>sp_id = fresh, sp_activityId = a_id a, sp_vendorId = a_vendorId a, sp_date = sd_date dto,
                     sp_price = sd_price dto, sp_deletedAt = None\<rparr>
            in (Inr (SpecialCreated s), d\<lparr>specials := specials d @ [s]\<rparr>))"

definition createSpecialPriceCore ::
  "interference \<Rightarrow> special_env \<Rightarrow> uid \<Rightarrow> activity \<Rightarrow> special_dto \<Rightarrow> db \<Rightarrow> (exn + special_result) \<times> db" where
  "createSpecialPriceCore interfere env fresh a dto d =
     (case check_special_dto env dto of
        Inl ex \<Rightarrow> (Inl ex, d)
      | Inr _ \<Rightarrow>
          write_special (find_first (special_on (a_id a) (sd_date dto)) (specials d)) fresh a dto (interfere d))"

section \<open>Many dates\<close>

text \<open>
  The loop over a range, with its backstop: \<open>n\<close> dates have been added. A day that does not exist, such
  as 30 February, is read as the day it overflows to.
\<close>

function price_range :: "nat \<Rightarrow> ms \<Rightarrow> ms \<Rightarrow> civil list" where
  "price_range n cursor final =
     (if cursor \<le> final
      then utc_date cursor #
        (if n + 1 > BULK_SPECIAL_PRICE_MAX_DATES + 1 then [] else price_range (n + 1) (cursor + day_ms) final)
      else [])"
  by auto
termination
  by (relation "measure (\<lambda>(n, c, e). nat (e - c + 1))") (auto simp: day_ms_def)

declare price_range.simps [simp del]

definition requested_range :: "bulk_special_dto \<Rightarrow> exn + civil list" where
  "requested_range dto =
     (case (bs_startDate dto, bs_endDate dto) of
        (None, None) \<Rightarrow> Inr []
      | (Some s, Some e) \<Rightarrow>
          if e < s then Inl (BadPrice RangeInverted) else Inr (price_range 0 (midnight s) (midnight e))
      | _ \<Rightarrow> Inl (BadPrice RangeIncomplete))"

definition expandSpecialPriceDates :: "bulk_special_dto \<Rightarrow> exn + civil list" where
  "expandSpecialPriceDates dto =
     and_then (requested_range dto) (\<lambda>range.
       let dates = sort (remdups (or_default [] (bs_dates dto) @ range)) in
       if length dates = 0 then Inl (BadPrice NoDates)
       else if length dates > BULK_SPECIAL_PRICE_MAX_DATES then Inl (BadPrice TooManyDates)
       else Inr dates)"

text \<open>The loop over the dates; the \<open>i\<close>-th insert takes the \<open>i\<close>-th fresh identifier.\<close>

fun set_prices :: "special_env \<Rightarrow> activity \<Rightarrow> num \<Rightarrow> nat \<Rightarrow> civil list \<Rightarrow> db \<Rightarrow> exn + db" where
  "set_prices env a price i [] d = Inr d"
| "set_prices env a price i (date # dates) d =
     (case createSpecialPriceCore id env (se_ids env i) a \<lparr>sd_date = date, sd_price = price\<rparr> d of
        (Inl ex, _) \<Rightarrow> Inl ex
      | (Inr _, d') \<Rightarrow> set_prices env a price (i + 1) dates d')"

definition bulkCreateSpecialPricesCore ::
  "special_env \<Rightarrow> activity \<Rightarrow> bulk_special_dto \<Rightarrow> db \<Rightarrow> exn + (civil list \<times> db)" where
  "bulkCreateSpecialPricesCore env a dto d =
     and_then (expandSpecialPriceDates dto) (\<lambda>dates.
       if se_race env then Inl (Conflict UniqueViolation)
       else and_then (set_prices env a (bs_price dto) 0 dates d) (\<lambda>d'. Inr (dates, d')))"

section \<open>The handlers of the vendor and of the administrator\<close>

definition upcoming_specials :: "ms \<Rightarrow> db \<Rightarrow> uid \<Rightarrow> special_price list" where
  "upcoming_specials now d aid =
     sort_key sp_date (find_many (\<lambda>s. sp_activityId s = aid \<and> sp_deletedAt s = None \<and> utc_date now \<le> sp_date s) (specials d))"

definition run_special ::
  "interference \<Rightarrow> special_env \<Rightarrow> activity \<Rightarrow> special_dto \<Rightarrow> world \<Rightarrow> (exn + special_result) \<times> world" where
  "run_special interfere env a dto w =
     (case createSpecialPriceCore interfere env (se_ids env 0) a dto (w_db w) of
        (Inl ex, d) \<Rightarrow> (Inl ex, w\<lparr>w_db := d\<rparr>)
      | (Inr r, d) \<Rightarrow> (Inr r, emit [InvalidateAvailability (a_id a)] (w\<lparr>w_db := d\<rparr>)))"

definition run_bulk ::
  "special_env \<Rightarrow> activity \<Rightarrow> bulk_special_dto \<Rightarrow> world \<Rightarrow> (exn + civil list) \<times> world" where
  "run_bulk env a dto w =
     (case transaction (bulkCreateSpecialPricesCore env a dto) w of
        (Inl ex, w1) \<Rightarrow> (Inl ex, w1)
      | (Inr dates, w1) \<Rightarrow> (Inr dates, emit [InvalidateAvailability (a_id a)] w1))"

definition run_unset :: "ms \<Rightarrow> uid \<Rightarrow> uid \<Rightarrow> (special_price \<Rightarrow> bool) \<Rightarrow> world \<Rightarrow> (exn + uid) \<times> world" where
  "run_unset now activityId priceId mine w =
     (let sel = (\<lambda>s. sp_id s = priceId \<and> sp_activityId s = activityId \<and> mine s \<and> sp_deletedAt s = None);
          d = w_db w
      in if count_rows sel (specials d) = 0 then (Inl (NotFound SpecialPriceNotFound), w)
         else (Inr priceId, emit [InvalidateAvailability activityId]
                (w\<lparr>w_db := d\<lparr>specials := update_many sel (\<lambda>s. s\<lparr>sp_deletedAt := Some now\<rparr>) (specials d)\<rparr>\<rparr>)))"

definition getActivitySpecialPrices :: "ms \<Rightarrow> uid \<Rightarrow> uid \<Rightarrow> db \<Rightarrow> exn + special_price list" where
  "getActivitySpecialPrices now userId activityId d =
     and_then (owned_activity d userId activityId) (\<lambda>_. Inr (upcoming_specials now d activityId))"

definition createActivitySpecialPrice ::
  "interference \<Rightarrow> special_env \<Rightarrow> uid \<Rightarrow> uid \<Rightarrow> special_dto \<Rightarrow> world \<Rightarrow> (exn + special_result) \<times> world" where
  "createActivitySpecialPrice interfere env userId activityId dto w =
     (case owned_activity (w_db w) userId activityId of
        Inl ex \<Rightarrow> (Inl ex, w)
      | Inr a \<Rightarrow> run_special interfere env a dto w)"

definition bulkCreateActivitySpecialPrices ::
  "special_env \<Rightarrow> uid \<Rightarrow> uid \<Rightarrow> bulk_special_dto \<Rightarrow> world \<Rightarrow> (exn + civil list) \<times> world" where
  "bulkCreateActivitySpecialPrices env userId activityId dto w =
     (case owned_activity (w_db w) userId activityId of
        Inl ex \<Rightarrow> (Inl ex, w)
      | Inr a \<Rightarrow> run_bulk env a dto w)"

definition deleteActivitySpecialPrice :: "ms \<Rightarrow> uid \<Rightarrow> uid \<Rightarrow> uid \<Rightarrow> world \<Rightarrow> (exn + uid) \<times> world" where
  "deleteActivitySpecialPrice now userId activityId priceId w =
     (case owned_activity (w_db w) userId activityId of
        Inl ex \<Rightarrow> (Inl ex, w)
      | Inr a \<Rightarrow> run_unset now activityId priceId (\<lambda>s. sp_vendorId s = a_vendorId a) w)"

definition admin_getActivitySpecialPrices :: "ms \<Rightarrow> uid \<Rightarrow> db \<Rightarrow> exn + special_price list" where
  "admin_getActivitySpecialPrices now activityId d =
     and_then (any_activity d activityId) (\<lambda>_. Inr (upcoming_specials now d activityId))"

definition admin_createActivitySpecialPrice ::
  "interference \<Rightarrow> special_env \<Rightarrow> uid \<Rightarrow> special_dto \<Rightarrow> world \<Rightarrow> (exn + special_result) \<times> world" where
  "admin_createActivitySpecialPrice interfere env activityId dto w =
     (case any_activity (w_db w) activityId of
        Inl ex \<Rightarrow> (Inl ex, w)
      | Inr a \<Rightarrow> run_special interfere env a dto w)"

definition admin_bulkCreateActivitySpecialPrices ::
  "special_env \<Rightarrow> uid \<Rightarrow> bulk_special_dto \<Rightarrow> world \<Rightarrow> (exn + civil list) \<times> world" where
  "admin_bulkCreateActivitySpecialPrices env activityId dto w =
     (case any_activity (w_db w) activityId of
        Inl ex \<Rightarrow> (Inl ex, w)
      | Inr a \<Rightarrow> run_bulk env a dto w)"

definition admin_deleteActivitySpecialPrice :: "ms \<Rightarrow> uid \<Rightarrow> uid \<Rightarrow> world \<Rightarrow> (exn + uid) \<times> world" where
  "admin_deleteActivitySpecialPrice now activityId priceId w =
     (case any_activity (w_db w) activityId of
        Inl ex \<Rightarrow> (Inl ex, w)
      | Inr a \<Rightarrow> run_unset now activityId priceId (\<lambda>_. True) w)"

end
