(* ===== verification/SpecialProps.thy ===== *)
theory SpecialProps
  imports SpecialPrices BlockProps Scenario
begin

text \<open>
  The properties of special prices: one active override per activity and date under any sequence of
  operations, what a bulk request sets, and what a stay costs afterwards.
\<close>

section \<open>One active override per date\<close>

definition special_clash :: "special_price \<Rightarrow> special_price \<Rightarrow> bool" where
  "special_clash s s' =
     (sp_activityId s = sp_activityId s' \<and> sp_date s = sp_date s' \<and> sp_deletedAt s = None \<and> sp_deletedAt s' = None)"

definition specials_ok :: "special_price list \<Rightarrow> bool" where
  "specials_ok t = (unique_on sp_id t \<and> sorted_wrt (\<lambda>s s'. \<not> special_clash s s') t)"

lemma special_clash_sym: "special_clash s s' = special_clash s' s"
  by (auto simp: special_clash_def)

lemma specials_ok_append [special]:
  assumes "specials_ok t" "\<not> list_ex (special_on (sp_activityId s) (sp_date s)) t" "sp_id s \<notin> sp_id ` set t"
  shows "specials_ok (t @ [s])"
  using assms by (auto simp: specials_ok_def sorted_wrt_append unique_on_append list_ex_iff special_clash_def special_on_def)

lemma specials_ok_update [special]:
  assumes "specials_ok t"
    "\<And>s. sp_id (f s) = sp_id s \<and> sp_activityId (f s) = sp_activityId s \<and> sp_date (f s) = sp_date s"
    "\<And>s. sp_deletedAt (f s) = None \<Longrightarrow> sp_deletedAt s = None"
  shows "specials_ok (update_many p f t)"
proof -
  have "\<not> special_clash (if p s then f s else s) (if p s' then f s' else s')" if "\<not> special_clash s s'" for s s'
    using that assms(2) [of s] assms(2) [of s'] assms(3) [of s] assms(3) [of s'] by (auto simp: special_clash_def)
  then have "sorted_wrt (\<lambda>s s'. \<not> special_clash (if p s then f s else s) (if p s' then f s' else s')) t"
    using assms(1) unfolding specials_ok_def
    by (elim conjE sorted_wrt_mono_rel [of t "\<lambda>s s'. \<not> special_clash s s'", rotated]) blast
  then show ?thesis
    using assms(1,2) update_many_unique [of p sp_id f t] by (simp add: specials_ok_def update_many_def sorted_wrt_map)
qed

lemma special_onD [special]:
  assumes "specials_ok t" "s \<in> set t" "s' \<in> set t" "special_on aid c s" "special_on aid c s'"
  shows "s = s'"
proof (rule ccontr)
  assume "s \<noteq> s'"
  obtain i j where ij: "i < length t" "j < length t" "t ! i = s" "t ! j = s'" "i \<noteq> j"
    using assms(2,3) \<open>s \<noteq> s'\<close> by (auto simp: in_set_conv_nth)
  have "special_clash s s'" "special_clash s' s" using assms(4,5) by (auto simp: special_clash_def special_on_def)
  moreover from ij have "i < j \<or> j < i" by linarith
  ultimately show False using assms(1) ij by (auto simp: specials_ok_def sorted_wrt_iff_nth_less)
qed

text \<open>Setting the price of rows, or removing them.\<close>

lemma set_price_ok [special]: "specials_ok t \<Longrightarrow> specials_ok (update_many p (\<lambda>s. s\<lparr>sp_price := x\<rparr>) t)"
  by (erule specials_ok_update) simp_all

lemma unset_ok [special]: "specials_ok t \<Longrightarrow> specials_ok (update_many p (\<lambda>s. s\<lparr>sp_deletedAt := Some x\<rparr>) t)"
  by (erule specials_ok_update) simp_all

lemma write_special_ok [special]:
  assumes "specials_ok (specials d)" "fresh \<notin> sp_id ` set (specials d)"
  shows "specials_ok (specials (snd (write_special ex fresh a dto d)))"
  using assms set_price_ok [OF assms(1)]
  by (auto simp: write_special_def Let_def intro!: specials_ok_append split: option.splits)

section \<open>One date\<close>

text \<open>What the override of a date says.\<close>

definition special_of :: "db \<Rightarrow> uid \<Rightarrow> civil \<Rightarrow> num option" where
  "special_of d aid c = map_option sp_price (find_first (special_on aid c) (specials d))"

lemma special_of_Some [special]:
  assumes "specials_ok (specials d)"
  shows "special_of d aid c = Some x \<longleftrightarrow> (\<exists>s \<in> set (specials d). special_on aid c s \<and> sp_price s = x)"
proof
  assume "special_of d aid c = Some x"
  then show "\<exists>s \<in> set (specials d). special_on aid c s \<and> sp_price s = x"
    by (auto simp: special_of_def dest: find_first_Some)
next
  assume "\<exists>s \<in> set (specials d). special_on aid c s \<and> sp_price s = x"
  then obtain s where s: "s \<in> set (specials d)" "special_on aid c s" "sp_price s = x" by blast
  then obtain s' where f: "find_first (special_on aid c) (specials d) = Some s'"
    using find_first_None [of "special_on aid c" "specials d"] by (cases "find_first (special_on aid c) (specials d)") auto
  have "s' = s" using special_onD [OF assms _ s(1) _ s(2)] find_first_Some [OF f] by blast
  then show "special_of d aid c = Some x" using f s(3) by (simp add: special_of_def)
qed

lemma special_of_eqI [special]:
  assumes "specials_ok (specials d)" "specials_ok (specials d')"
    and "\<And>x. (\<exists>s \<in> set (specials d). special_on aid c s \<and> sp_price s = x) \<longleftrightarrow>
      (\<exists>s \<in> set (specials d'). special_on aid' c' s \<and> sp_price s = x)"
  shows "special_of d aid c = special_of d' aid' c'"
proof -
  have "special_of d aid c = Some x \<longleftrightarrow> special_of d' aid' c' = Some x" for x
    using special_of_Some [OF assms(1)] special_of_Some [OF assms(2)] assms(3) by simp
  then show ?thesis by (metis not_Some_eq)
qed

text \<open>Setting one price, undisturbed.\<close>

lemma core_sets [special]:
  assumes ok: "specials_ok (specials d)" and fresh: "fresh \<notin> sp_id ` set (specials d)"
    and core: "createSpecialPriceCore id env fresh a dto d = (Inr r, d')"
  shows "specials_ok (specials d')"
    and "special_of d' aid c = (if aid = a_id a \<and> c = sd_date dto then Some (sd_price dto) else special_of d aid c)"
    and "d' = d\<lparr>specials := specials d'\<rparr>" and "sp_id ` set (specials d') \<subseteq> insert fresh (sp_id ` set (specials d))"
proof -
  let ?f = "find_first (special_on (a_id a) (sd_date dto)) (specials d)"
  have w: "write_special ?f fresh a dto d = (Inr r, d')"
    using core by (auto simp: createSpecialPriceCore_def split: sum.splits)
  show ok': "specials_ok (specials d')" using write_special_ok [OF ok fresh, of ?f a dto] w by simp
  have ids: "sp_id ` set (update_many p (\<lambda>s. s\<lparr>sp_price := x\<rparr>) t) = sp_id ` set t" for p x t
    by (metis (no_types, lifting) list.set_map special_price.ext_inject special_price.surjective
        special_price.update_convs(5) update_many_map)
  obtain t where t: "d' = d\<lparr>specials := t\<rparr>" "sp_id ` set t \<subseteq> insert fresh (sp_id ` set (specials d))"
    using w ids by (fastforce simp: write_special_def Let_def split: option.splits if_splits)
  show "d' = d\<lparr>specials := specials d'\<rparr>" unfolding t(1) by simp
  show "sp_id ` set (specials d') \<subseteq> insert fresh (sp_id ` set (specials d))" using t by simp
  show "special_of d' aid c = (if aid = a_id a \<and> c = sd_date dto then Some (sd_price dto) else special_of d aid c)"
  proof (cases ?f)
    case None
    then have none: "\<not> special_on (a_id a) (sd_date dto) s" if "s \<in> set (specials d)" for s
      using that by (simp add: find_first_None)
    let ?s = "\<lparr>sp_id = fresh, sp_activityId = a_id a, sp_vendorId = a_vendorId a, sp_date = sd_date dto,
      sp_price = sd_price dto, sp_deletedAt = None\<rparr>"
    have d': "specials d' = specials d @ [?s]"
      using w None by (auto simp: write_special_def Let_def split: if_splits)
    show ?thesis
    proof (cases "aid = a_id a \<and> c = sd_date dto")
      case True
      then show ?thesis using special_of_Some [OF ok', of aid c "sd_price dto"] by (simp add: d' special_on_def)
    next
      case False
      then show ?thesis
        by (simp only: if_False) (rule special_of_eqI [OF ok' ok], auto simp: d' special_on_def)
    qed
  next
    case (Some s0)
    then have s0: "s0 \<in> set (specials d)" "special_on (a_id a) (sd_date dto) s0" using find_first_Some [OF Some] by auto
    have uq: "unique_on sp_id (specials d)" using ok by (simp add: specials_ok_def)
    have d': "specials d' = update_many (\<lambda>s. sp_id s = sp_id s0) (\<lambda>s. s\<lparr>sp_price := sd_price dto\<rparr>) (specials d)"
      using w Some by (auto simp: write_special_def Let_def split: option.splits)
    have only: "sp_id s = sp_id s0 \<longleftrightarrow> s = s0" if "s \<in> set (specials d)" for s
      using unique_onD [OF uq that s0(1)] by blast
    show ?thesis
    proof (cases "aid = a_id a \<and> c = sd_date dto")
      case True
      have "s0\<lparr>sp_price := sd_price dto\<rparr> \<in> set (specials d')" using s0(1) by (auto simp: d' update_many_mem)
      then show ?thesis
        using True s0(2) special_of_Some [OF ok', of aid c "sd_price dto"]
        by (auto simp: special_on_def intro!: bexI [of _ "s0\<lparr>sp_price := sd_price dto\<rparr>"])
    next
      case False
      then have "\<not> special_on aid c s0" using s0(2) by (auto simp: special_on_def)
      then show ?thesis
        using False only by (simp only: if_False) (rule special_of_eqI [OF ok' ok],
          auto simp: d' update_many_def special_on_def)
    qed
  qed
qed

section \<open>The requested dates\<close>

lemma price_range_take [special]:
  "n \<le> 201 \<Longrightarrow> price_range n a b = map utc_date (take (202 - n) (day_loop a b))"
proof (induction n a b rule: price_range.induct)
  case (1 n a b)
  show ?case
  proof (cases "a \<le> b \<and> n < 201")
    case True
    then have "202 - n = Suc (202 - (n + 1))" by arith
    then show ?thesis
      using True 1 by (subst price_range.simps, subst day_loop.simps) (simp add: BULK_SPECIAL_PRICE_MAX_DATES_def)
  next
    case False
    then show ?thesis
      using "1.prems" by (subst price_range.simps, subst day_loop.simps) (auto simp: BULK_SPECIAL_PRICE_MAX_DATES_def)
  qed
qed

lemma range_complete [special]:
  assumes "length (price_range 0 a b) \<le> 200"
  shows "price_range 0 a b = map utc_date (day_loop a b)"
  using assms by (simp add: price_range_take min_def split: if_splits)

lemma utc_date_loop [special]:
  assumes "valid_civil a" "valid_civil b" "valid_civil c"
  shows "c \<in> utc_date ` set (day_loop (midnight a) (midnight b)) \<longleftrightarrow> a \<le> c \<and> c \<le> b"
proof -
  have "c \<in> utc_date ` set (day_loop (midnight a) (midnight b)) \<longleftrightarrow> midnight c \<in> set (day_loop (midnight a) (midnight b))"
  proof
    assume "c \<in> utc_date ` set (day_loop (midnight a) (midnight b))"
    then show "midnight c \<in> set (day_loop (midnight a) (midnight b))" using loop_midnight by (metis imageE)
  next
    assume "midnight c \<in> set (day_loop (midnight a) (midnight b))"
    then show "c \<in> utc_date ` set (day_loop (midnight a) (midnight b))"
      using assms(3) by (metis image_eqI utc_date_midnight)
  qed
  then show ?thesis using midnight_in_loop [OF assms] by simp
qed

text \<open>A date is asked for by the list or by the range.\<close>

definition requested :: "bulk_special_dto \<Rightarrow> civil \<Rightarrow> bool" where
  "requested dto c =
     (c \<in> set (or_default [] (bs_dates dto)) \<or>
      (case (bs_startDate dto, bs_endDate dto) of (Some s, Some e) \<Rightarrow> s \<le> c \<and> c \<le> e | _ \<Rightarrow> False))"

lemma day_loop_length [special]:
  "distinct (map utc_date (day_loop (midnight a) b))"
proof -
  have "sorted_wrt (<) (day_loop t b)" for t
    by (induction t b rule: day_loop.induct, subst day_loop.simps) (auto simp: day_loop_mem day_ms_def)
  then have "distinct (day_loop (midnight a) b)" by (simp add: strict_sorted_iff)
  moreover have "inj_on utc_date (set (day_loop (midnight a) b))"
    using loop_midnight by (metis inj_onI)
  ultimately show ?thesis by (simp add: distinct_map)
qed

lemma expand_Inr [special]:
  assumes ex: "expandSpecialPriceDates dto = Inr dates"
    and valid: "pred_option valid_civil (bs_startDate dto)" "pred_option valid_civil (bs_endDate dto)"
  shows "sorted dates" "distinct dates" "1 \<le> length dates" "length dates \<le> 200"
    and "valid_civil c \<Longrightarrow> c \<in> set dates \<longleftrightarrow> requested dto c"
proof -
  obtain range where r: "requested_range dto = Inr range"
    "dates = sort (remdups (or_default [] (bs_dates dto) @ range))" "dates \<noteq> []" "length dates \<le> 200"
    using ex by (auto simp: expandSpecialPriceDates_def and_then_Inr Let_def BULK_SPECIAL_PRICE_MAX_DATES_def split: if_splits)
  show "1 \<le> length dates" using r(3) by (cases dates) simp_all
  show "sorted dates" "distinct dates" "length dates \<le> 200" using r(2,4) by simp_all
  assume c: "valid_civil c"
  have set: "set dates = set (or_default [] (bs_dates dto)) \<union> set range" using r(2) by simp
  show "c \<in> set dates \<longleftrightarrow> requested dto c"
  proof (cases "(bs_startDate dto, bs_endDate dto)")
    case (Pair s e)
    show ?thesis
    proof (cases s; cases e)
      fix s' e' assume se: "s = Some s'" "e = Some e'"
      have rng: "range = price_range 0 (midnight s') (midnight e')" using r(1) Pair se by (auto simp: requested_range_def split: if_splits)
      have "distinct range"
        using day_loop_length [of s' "midnight e'"] unfolding rng by (simp add: price_range_take take_map distinct_take flip: take_map)
      then have "length range \<le> length dates"
        using set by (metis card_mono distinct_card finite_set sup_ge2 \<open>distinct dates\<close>)
      then have "range = map utc_date (day_loop (midnight s') (midnight e'))"
        using range_complete r(4) unfolding rng by simp
      then show ?thesis
        using utc_date_loop [OF _ _ c, of s' e'] valid Pair se by (simp add: set requested_def)
    qed (use r(1) Pair set in \<open>auto simp: requested_range_def requested_def\<close>)
  qed
qed

section \<open>The loop\<close>

text \<open>Fresh identifiers: none is in use, and they differ.\<close>

definition fresh_ids :: "special_env \<Rightarrow> db \<Rightarrow> bool" where
  "fresh_ids env d \<longleftrightarrow> inj (se_ids env) \<and> range (se_ids env) \<inter> sp_id ` set (specials d) = {}"

lemma set_prices_sets [special]:
  assumes "set_prices env a x i dates d = Inr d'" "specials_ok (specials d)" "inj (se_ids env)"
    "\<And>j. i \<le> j \<Longrightarrow> se_ids env j \<notin> sp_id ` set (specials d)"
  shows "specials_ok (specials d')" "d' = d\<lparr>specials := specials d'\<rparr>"
    "special_of d' aid c = (if aid = a_id a \<and> c \<in> set dates then Some x else special_of d aid c)"
proof -
  have "specials_ok (specials d') \<and> d' = d\<lparr>specials := specials d'\<rparr> \<and>
      special_of d' aid c = (if aid = a_id a \<and> c \<in> set dates then Some x else special_of d aid c)"
    using assms
  proof (induction dates arbitrary: i d)
    case (Cons date dates)
    let ?dto = "\<lparr>sd_date = date, sd_price = x\<rparr>"
    obtain r d1 where one: "createSpecialPriceCore id env (se_ids env i) a ?dto d = (Inr r, d1)"
      and rest: "set_prices env a x (i + 1) dates d1 = Inr d'"
      using Cons.prems(1) by (auto split: prod.splits sum.splits)
    note s = core_sets [OF Cons.prems(2) Cons.prems(4) [OF order_refl] one]
    have "se_ids env j \<notin> sp_id ` set (specials d1)" if "i + 1 \<le> j" for j
      using s(4) that Cons.prems(4) [of j] injD [OF Cons.prems(3), of j i] by fastforce
    from Cons.IH [OF rest s(1) Cons.prems(3) this]
    show ?case using s(2) [of aid c] s(3) by (metis (no_types, lifting) db.surjective db.update_convs(7)
        list.set_intros(1) list.set_intros(2) set_ConsD special_dto.select_convs(1,2))
  qed simp
  then show "specials_ok (specials d')" "d' = d\<lparr>specials := specials d'\<rparr>"
    "special_of d' aid c = (if aid = a_id a \<and> c \<in> set dates then Some x else special_of d aid c)" by blast+
qed

section \<open>Operations in any order\<close>

definition keeps_specials :: "interference \<Rightarrow> bool" where
  "keeps_specials f \<longleftrightarrow> (\<forall>d. specials_ok (specials d) \<longrightarrow> specials_ok (specials (f d)))"

inductive special_step :: "world \<Rightarrow> world \<Rightarrow> bool" where
  vendor_sets: "keeps_specials f \<Longrightarrow> se_ids env 0 \<notin> sp_id ` set (specials (f (w_db w))) \<Longrightarrow>
    createActivitySpecialPrice f env u aid dto w = (res, w') \<Longrightarrow> special_step w w'"
| vendor_sets_many: "fresh_ids env (w_db w) \<Longrightarrow>
    bulkCreateActivitySpecialPrices env u aid bdto w = (res', w') \<Longrightarrow> special_step w w'"
| vendor_unsets: "deleteActivitySpecialPrice now u aid pid w = (res'', w') \<Longrightarrow> special_step w w'"
| admin_sets: "keeps_specials f \<Longrightarrow> se_ids env 0 \<notin> sp_id ` set (specials (f (w_db w))) \<Longrightarrow>
    admin_createActivitySpecialPrice f env aid dto w = (res, w') \<Longrightarrow> special_step w w'"
| admin_sets_many: "fresh_ids env (w_db w) \<Longrightarrow>
    admin_bulkCreateActivitySpecialPrices env aid bdto w = (res', w') \<Longrightarrow> special_step w w'"
| admin_unsets: "admin_deleteActivitySpecialPrice now aid pid w = (res'', w') \<Longrightarrow> special_step w w'"

inductive special_reach :: "world \<Rightarrow> world \<Rightarrow> bool" for w0 where
  special_start: "special_reach w0 w0"
| special_next: "special_reach w0 w \<Longrightarrow> special_step w w' \<Longrightarrow> special_reach w0 w'"

lemma run_special_keeps [special]:
  assumes "keeps_specials f" "specials_ok (specials (w_db w))" "se_ids env 0 \<notin> sp_id ` set (specials (f (w_db w)))"
  shows "specials_ok (specials (w_db (snd (run_special f env a dto w))))"
  using assms(2) write_special_ok [OF _ assms(3)] assms(1)
  by (auto simp: run_special_def createSpecialPriceCore_def keeps_specials_def split: sum.splits prod.splits)
    (metis snd_conv)+

lemma bulk_Inr [special]:
  assumes "bulkCreateSpecialPricesCore env a dto d = Inr (dates, d')"
  shows "expandSpecialPriceDates dto = Inr dates" "set_prices env a (bs_price dto) 0 dates d = Inr d'"
  using assms by (auto simp: bulkCreateSpecialPricesCore_def and_then_Inr split: if_splits)

lemma run_bulk_keeps [special]:
  assumes "fresh_ids env (w_db w)" "specials_ok (specials (w_db w))"
  shows "specials_ok (specials (w_db (snd (run_bulk env a dto w))))"
proof (cases "bulkCreateSpecialPricesCore env a dto (w_db w)")
  case (Inr r)
  then obtain dates d' where d: "bulkCreateSpecialPricesCore env a dto (w_db w) = Inr (dates, d')" by (cases r) auto
  have "specials_ok (specials d')"
    using assms by (intro set_prices_sets(1) [OF bulk_Inr(2) [OF d]]) (auto simp: fresh_ids_def)
  then show ?thesis by (simp add: run_bulk_def transaction_def d)
qed (use assms(2) in \<open>simp add: run_bulk_def transaction_def\<close>)

lemma run_unset_keeps [special]:
  "specials_ok (specials (w_db w)) \<Longrightarrow> specials_ok (specials (w_db (snd (run_unset now aid pid mine w))))"
  by (simp add: run_unset_def Let_def unset_ok)

lemma special_step_keeps [special]:
  assumes "special_step w w'" "specials_ok (specials (w_db w))"
  shows "specials_ok (specials (w_db w'))"
  using assms(1)
proof cases
  case (vendor_sets f env u aid dto res)
  then show ?thesis using assms(2) run_special_keeps [OF vendor_sets(1) assms(2) vendor_sets(2)]
    by (auto simp: createActivitySpecialPrice_def split: sum.splits) (metis snd_conv)
next
  case (vendor_sets_many env u aid bdto res')
  then show ?thesis using assms(2) run_bulk_keeps [OF vendor_sets_many(1) assms(2)]
    by (auto simp: bulkCreateActivitySpecialPrices_def split: sum.splits) (metis snd_conv)
next
  case (vendor_unsets now u aid pid res'')
  then show ?thesis using assms(2) run_unset_keeps [OF assms(2)]
    by (auto simp: deleteActivitySpecialPrice_def split: sum.splits) (metis snd_conv)
next
  case (admin_sets f env aid dto res)
  then show ?thesis using assms(2) run_special_keeps [OF admin_sets(1) assms(2) admin_sets(2)]
    by (auto simp: admin_createActivitySpecialPrice_def split: sum.splits) (metis snd_conv)
next
  case (admin_sets_many env aid bdto res')
  then show ?thesis using assms(2) run_bulk_keeps [OF admin_sets_many(1) assms(2)]
    by (auto simp: admin_bulkCreateActivitySpecialPrices_def split: sum.splits) (metis snd_conv)
next
  case (admin_unsets now aid pid res'')
  then show ?thesis using assms(2) run_unset_keeps [OF assms(2)]
    by (auto simp: admin_deleteActivitySpecialPrice_def split: sum.splits) (metis snd_conv)
qed

lemma special_reach_keeps [special]:
  "special_reach w w' \<Longrightarrow> specials_ok (specials (w_db w)) \<Longrightarrow> specials_ok (specials (w_db w'))"
  by (induction rule: special_reach.induct) (auto intro: special_step_keeps)

section \<open>What a night costs\<close>

lemma night_price_special [special]:
  assumes "specials_ok (specials d)"
  shows "night_price d a c = (case special_of d (a_id a) c of Some x \<Rightarrow> price_cents x | None \<Rightarrow> price_cents (a_price a))"
proof -
  let ?p = "special_on (a_id a) c"
  have "find_first ?p (rev (specials d)) = find_first ?p (specials d)"
  proof (cases "find_first ?p (specials d)")
    case None
    then have "find_first ?p (rev (specials d)) = None" by (simp add: find_first_None)
    then show ?thesis using None by simp
  next
    case (Some s)
    then have s: "s \<in> set (specials d)" "?p s" by (auto dest: find_first_Some)
    then obtain s' where s': "find_first ?p (rev (specials d)) = Some s'"
      using find_first_None [of ?p "rev (specials d)"] by (cases "find_first ?p (rev (specials d))") auto
    have "s' \<in> set (specials d)" "?p s'" using find_first_Some [OF s'] by auto
    then have "s' = s" using special_onD [OF assms _ s(1) _ s(2)] by blast
    then show ?thesis using Some s' by simp
  qed
  moreover have "(\<lambda>s. sp_activityId s = a_id a \<and> sp_deletedAt s = None \<and> sp_date s = c) = ?p"
    by (auto simp: special_on_def)
  ultimately show ?thesis by (simp add: night_price_def special_of_def split: option.splits)
qed

lemma run_bulk_Inr [special]:
  assumes "run_bulk env a dto w = (Inr dates, w')" "specials_ok (specials (w_db w))" "fresh_ids env (w_db w)"
  shows "expandSpecialPriceDates dto = Inr dates" "specials_ok (specials (w_db w'))"
    "w_db w' = (w_db w)\<lparr>specials := specials (w_db w')\<rparr>"
    "special_of (w_db w') aid c =
      (if aid = a_id a \<and> c \<in> set dates then Some (bs_price dto) else special_of (w_db w) aid c)"
proof -
  obtain d' where b: "bulkCreateSpecialPricesCore env a dto (w_db w) = Inr (dates, d')" "w_db w' = d'"
    using assms(1) by (auto simp: run_bulk_def transaction_def split: sum.splits)
  have fresh: "inj (se_ids env)" "\<And>j. 0 \<le> j \<Longrightarrow> se_ids env j \<notin> sp_id ` set (specials (w_db w))"
    using assms(3) by (auto simp: fresh_ids_def)
  note s = set_prices_sets [OF bulk_Inr(2) [OF b(1)] assms(2) fresh]
  show "expandSpecialPriceDates dto = Inr dates" by (rule bulk_Inr(1) [OF b(1)])
  show "specials_ok (specials (w_db w'))" "w_db w' = (w_db w)\<lparr>specials := specials (w_db w')\<rparr>"
    "special_of (w_db w') aid c =
      (if aid = a_id a \<and> c \<in> set dates then Some (bs_price dto) else special_of (w_db w) aid c)"
    using s b(2) by auto
qed

lemma stay_costs [special]:
  assumes "run_bulk env a dto w = (Inr dates, w')" "specials_ok (specials (w_db w))" "fresh_ids env (w_db w)"
    and "valid_civil ci" "valid_civil co" "ci < co"
  shows "daily_total_cents (w_db w') a ci co =
    (\<Sum>n \<leftarrow> [0..<nat (day_of_civil co - day_of_civil ci)]. let c = civil_of_day (day_of_civil ci + int n) in
       if c \<in> set dates then price_cents (bs_price dto) else night_price (w_db w) a c)"
proof -
  note r = run_bulk_Inr [OF assms(1-3)]
  have "night_price (w_db w') a c = (if c \<in> set dates then price_cents (bs_price dto) else night_price (w_db w) a c)" for c
    using r(4) [of "a_id a" c] by (simp add: night_price_special [OF r(2)] night_price_special [OF assms(2)])
  then show ?thesis by (simp add: daily_total_sum [OF assms(4-6)] Let_def)
qed

section \<open>The properties\<close>

text \<open>An activity never has two active special prices for one date, whatever vendor and administrator set and
  remove, one by one or in bulk, also when others write between a lookup and its write.\<close>

theorem one_active_special_per_date:
  assumes "special_reach w w'" "specials_ok (specials (w_db w))"
    and "s \<in> set (specials (w_db w'))" "s' \<in> set (specials (w_db w'))"
    and "special_on aid c s" "special_on aid c s'"
  shows "s = s'"
  using special_onD [OF special_reach_keeps [OF assms(1,2)] assms(3-6)] .

text \<open>The vendor sets two dates of March, listed and as a range.\<close>

definition sc_special_env :: special_env where
  "sc_special_env = \<lparr>se_now = sc_now, se_ids = (\<lambda>i. 900 + i), se_race = False\<rparr>"

definition sc_bulk :: bulk_special_dto where
  "sc_bulk = \<lparr>bs_dates = Some [Civil 2026 3 12], bs_startDate = Some (Civil 2026 3 10),
     bs_endDate = Some (Civil 2026 3 11), bs_price = 450\<rparr>"

definition sc_special_world :: world where
  "sc_special_world = snd (bulkCreateActivitySpecialPrices sc_special_env 8 11 sc_bulk sc_world)"

lemma sc_bulk_result:
  "bulkCreateActivitySpecialPrices sc_special_env 8 11 sc_bulk sc_world =
     (Inr [Civil 2026 3 10, Civil 2026 3 11, Civil 2026 3 12], sc_special_world)"
proof -
  have "fst (bulkCreateActivitySpecialPrices sc_special_env 8 11 sc_bulk sc_world) =
      Inr [Civil 2026 3 10, Civil 2026 3 11, Civil 2026 3 12]" by code_simp
  then show ?thesis unfolding sc_special_world_def by (metis prod.collapse)
qed

lemma sc_special_start: "specials_ok (specials (w_db sc_world))" "fresh_ids sc_special_env (w_db sc_world)"
  by (auto simp: specials_ok_def unique_on_def sc_world_def sc_db_def fresh_ids_def sc_special_env_def inj_def)

lemma sc_special_rows:
  "map (\<lambda>s. (sp_id s, sp_date s, sp_price s)) (specials (w_db sc_special_world)) =
     [(60, Civil 2026 3 11, 450), (900, Civil 2026 3 10, 450), (902, Civil 2026 3 12, 450)]"
  by code_simp

theorem one_active_special_per_date_witness:
  "specials (w_db sc_special_world) ! 1 = specials (w_db sc_special_world) ! 1"
proof -
  have step: "special_step sc_world sc_special_world"
    by (rule vendor_sets_many [OF sc_special_start(2) sc_bulk_result])
  have "special_on 11 (Civil 2026 3 10) (specials (w_db sc_special_world) ! 1)"
    "specials (w_db sc_special_world) ! 1 \<in> set (specials (w_db sc_special_world))" by code_simp+
  then show ?thesis
    using one_active_special_per_date [OF special_next [OF special_start step] sc_special_start(1)] by blast
qed

text \<open>C19. A bulk request sets its price on exactly the dates it lists or spans, at most two hundred of them, each once
  and in order, in one transaction; the prices of all other dates and activities stay as they were, and
  nothing else in the database changes.\<close>

theorem bulk_sets_requested_dates:
  assumes "bulkCreateActivitySpecialPrices env u aid dto w = (Inr dates, w')"
    and "specials_ok (specials (w_db w))" "fresh_ids env (w_db w)"
    and "pred_option valid_civil (bs_startDate dto)" "pred_option valid_civil (bs_endDate dto)" "valid_civil c"
  shows "sorted dates \<and> distinct dates \<and> 1 \<le> length dates \<and> length dates \<le> 200 \<and>
    (c \<in> set dates \<longleftrightarrow> requested dto c) \<and>
    special_of (w_db w') aid' c =
      (if aid' = aid \<and> requested dto c then Some (bs_price dto) else special_of (w_db w) aid' c) \<and>
    w_db w' = (w_db w)\<lparr>specials := specials (w_db w')\<rparr>"
proof -
  obtain a where a: "owned_activity (w_db w) u aid = Inr a" "run_bulk env a dto w = (Inr dates, w')"
    using assms(1) by (auto simp: bulkCreateActivitySpecialPrices_def split: sum.splits)
  have "a_id a = aid"
    using a(1) by (auto simp: owned_activity_def and_then_Inr split: option.splits dest: find_first_Some)
  then show ?thesis
    using run_bulk_Inr [OF a(2) assms(2,3)] expand_Inr [OF run_bulk_Inr(1) [OF a(2) assms(2,3)] assms(4,5)] assms(6)
    by auto
qed

theorem bulk_sets_requested_dates_witness:
  "special_of (w_db sc_special_world) 11 (Civil 2026 3 12) = Some 450"
proof -
  have "valid_civil (Civil 2026 3 10)" "valid_civil (Civil 2026 3 11)" "valid_civil (Civil 2026 3 12)" by code_simp+
  then show ?thesis
    using bulk_sets_requested_dates [OF sc_bulk_result sc_special_start, of "Civil 2026 3 12" 11]
    by (simp add: sc_bulk_def requested_def or_default_def)
qed

text \<open>A stay booked after a bulk request costs the new price on the nights of the requested dates and what it
  cost before on the others.\<close>

theorem stay_costs_special_price:
  assumes "bulkCreateActivitySpecialPrices env u aid dto w = (Inr dates, w')"
    and "specials_ok (specials (w_db w))" "fresh_ids env (w_db w)"
    and "find_first (\<lambda>a. a_id a = aid \<and> a_vendorId a = v_id v) (activities (w_db w)) = Some a"
      "resolveVendor (w_db w) u = Inr v"
    and "valid_civil ci" "valid_civil co" "ci < co"
  shows "daily_total_cents (w_db w') a ci co =
    (\<Sum>n \<leftarrow> [0..<nat (day_of_civil co - day_of_civil ci)]. let c = civil_of_day (day_of_civil ci + int n) in
       if c \<in> set dates then price_cents (bs_price dto) else night_price (w_db w) a c)"
proof -
  have "owned_activity (w_db w) u aid = Inr a" using assms(4,5) by (simp add: owned_activity_def)
  then have "run_bulk env a dto w = (Inr dates, w')"
    using assms(1) by (simp add: bulkCreateActivitySpecialPrices_def)
  then show ?thesis by (rule stay_costs [OF _ assms(2,3,6-8)])
qed

theorem stay_costs_special_price_witness:
  "daily_total_cents (w_db sc_special_world) sc_daily (Civil 2026 3 10) (Civil 2026 3 14) = 3 * 45000 + 30000"
proof -
  have "find_first (\<lambda>a. a_id a = 11 \<and> a_vendorId a = v_id sc_vendor) (activities (w_db sc_world)) = Some sc_daily"
    "resolveVendor (w_db sc_world) 8 = Inr sc_vendor"
    "valid_civil (Civil 2026 3 10)" "valid_civil (Civil 2026 3 14)" "Civil 2026 3 10 < Civil 2026 3 14"
    by code_simp+
  note eq = stay_costs_special_price [OF sc_bulk_result sc_special_start this]
  show ?thesis unfolding eq by code_simp
qed

text \<open>
  The update goes by the identifier of the row found before: when the override is removed in between, the
  answer says it was updated, and the date has no special price.
\<close>

lemma update_after_removal:
  assumes "find_first (special_on (a_id a) (sd_date dto)) (specials d) = Some s0" "check_special_dto env dto = Inr ()"
    and "specials_ok (specials d)"
    and "f d = d\<lparr>specials := update_many (\<lambda>s. sp_id s = sp_id s0) (\<lambda>s. s\<lparr>sp_deletedAt := Some t\<rparr>) (specials d)\<rparr>"
  shows "\<exists>s d'. createSpecialPriceCore f env fresh a dto d = (Inr (SpecialUpdated s), d') \<and>
    special_of d' (a_id a) (sd_date dto) = None"
proof -
  have s0: "s0 \<in> set (specials d)" "special_on (a_id a) (sd_date dto) s0" using find_first_Some [OF assms(1)] by auto
  have "s0\<lparr>sp_deletedAt := Some t\<rparr> \<in> set (specials (f d))"
    using s0(1) by (auto simp: assms(4) update_many_mem)
  then have "find_first (\<lambda>s. sp_id s = sp_id s0) (specials (f d)) \<noteq> None"
    unfolding find_first_None by (intro notI) (drule bspec, assumption, simp)
  then obtain s1 where s1: "find_first (\<lambda>s. sp_id s = sp_id s0) (specials (f d)) = Some s1" by blast
  have "\<not> special_on (a_id a) (sd_date dto) s" if "s \<in> set (specials d)" "sp_id s \<noteq> sp_id s0" for s
    using special_onD [OF assms(3) that(1) s0(1) _ s0(2)] that(2) by blast
  then have "special_of (f d\<lparr>specials := update_many (\<lambda>s. sp_id s = sp_id s0) (\<lambda>s. s\<lparr>sp_price := sd_price dto\<rparr>)
      (specials (f d))\<rparr>) (a_id a) (sd_date dto) = None"
    by (auto simp: special_of_def find_first_None assms(4) update_many_def special_on_def)
  then show ?thesis using assms(1,2) s1 by (simp add: createSpecialPriceCore_def write_special_def)
qed

end
