(* ===== verification/Availability.thy ===== *)
theory Availability
  imports Blocks
begin

text \<open>
  The public availability views of \<open>apps/api/src/bookings/bookings.service.ts\<close>: the slots of a day, the
  units of a stay and the days of a month, computed from the same rows and capacity functions as
  \<open>createBooking\<close>, and the cache of the monthly view (\<open>availability-cache.service.ts\<close>). A requested unit
  number is positive (the controller checks it).
\<close>

named_theorems availability \<open>facts about the availability views\<close>

section \<open>Rows and environment\<close>

record avail_env =
  av_now :: ms
  av_tz :: tzdb
  av_dayCap :: nat
  av_monthCap :: nat

record unit_view =
  uv_number :: nat
  uv_capacity :: int
  uv_booked :: int
  uv_available :: int

text \<open>A slot of a day: by unit, or in seats (\<open>None\<close> is an unlimited number).\<close>

datatype slot_places =
  UnitPlaces "unit_view list" int
| SeatPlaces "int option" int "int option"

record slot_view =
  sv_start :: hm
  sv_end :: hm
  sv_places :: slot_places
  sv_isPast :: bool
  sv_isBlocked :: bool

datatype daily_view =
  DailyUnits "unit_view list" bool
| DailyUnit unit_view bool
| DailySeats "int option" int "int option" bool

record day_view =
  dv_date :: civil
  dv_dayOfWeek :: string
  dv_price :: num
  dv_isSpecialPrice :: bool
  dv_isActiveDay :: bool
  dv_isPast :: bool
  dv_capacity :: "int option"
  dv_booked :: int
  dv_available :: "int option"
  dv_isFullyBooked :: bool
  dv_isBlocked :: bool
  dv_isFullyBlocked :: bool

definition getBlocksInWindow :: "db \<Rightarrow> uid \<Rightarrow> ms \<Rightarrow> ms \<Rightarrow> block list" where
  "getBlocksInWindow d activityId windowStart windowEnd =
     find_many (block_overlaps activityId windowStart windowEnd) (blocks d)"

definition available_activity :: "db \<Rightarrow> uid \<Rightarrow> exn + activity" where
  "available_activity d activityId =
     (case find_first (\<lambda>a. a_id a = activityId) (activities d) of
        None \<Rightarrow> Inl (NotFound ActivityNotFound)
      | Some a \<Rightarrow> if a_status a \<noteq> ACT_ACTIVE then Inl (NotFound ActivityNotFound) else Inr a)"

definition zone_of :: "db \<Rightarrow> activity \<Rightarrow> string" where
  "zone_of d a =
     (case find_first (\<lambda>c. co_id c = a_countryId a) (countries d) of Some c \<Rightarrow> co_timezone c | None \<Rightarrow> ''UTC'')"

definition active_overlapping :: "avail_env \<Rightarrow> db \<Rightarrow> uid \<Rightarrow> ms \<Rightarrow> ms \<Rightarrow> booking list" where
  "active_overlapping env d aid s e =
     find_many (\<lambda>b. b_activityId b = aid \<and> activeBookingFilter (av_now env) b \<and> overlaps s e b) (bookings d)"

section \<open>Units\<close>

definition unit_numbers :: "activity \<Rightarrow> nat list" where
  "unit_numbers a = [1..<a_unitCount a + 1]"

definition sum_available :: "unit_view list \<Rightarrow> int" where
  "sum_available us = sum_list (map uv_available us)"

text \<open>The loop that takes one unit off the board for every booking without a unit.\<close>

fun retire :: "(unit_view \<Rightarrow> bool) \<Rightarrow> nat \<Rightarrow> unit_view list \<Rightarrow> unit_view list" where
  "retire candidate toRetire [] = []"
| "retire candidate toRetire (u # us) =
     (if toRetire = 0 then u # us
      else if candidate u then u\<lparr>uv_booked := uv_capacity u, uv_available := 0\<rparr> # retire candidate (toRetire - 1) us
      else u # retire candidate toRetire us)"

definition has_room :: "unit_view \<Rightarrow> bool" where
  "has_room u = (uv_available u > 0)"

definition guests_of :: "booking list \<Rightarrow> int" where
  "guests_of bs = sum_list (map b_guests bs)"

section \<open>The slots of a day\<close>

definition slot_unit :: "activity \<Rightarrow> booking list \<Rightarrow> booking list \<Rightarrow> ms \<Rightarrow> ms \<Rightarrow> nat \<Rightarrow> unit_view" where
  "slot_unit a dayBookings orphans s e u =
     (let unitBookings = filter (in_unit u) dayBookings;
          peak = maxConcurrentInWindow (if rentsWholeUnit a then unitBookings else unitBookings @ orphans) s e
      in \<lparr>uv_number = u, uv_capacity = a_unitCapacity a, uv_booked = peak,
          uv_available = (if rentsWholeUnit a then (if peak > 0 then 0 else a_unitCapacity a)
                          else max 0 (a_unitCapacity a - peak))\<rparr>)"

definition slot_places_of :: "activity \<Rightarrow> booking list \<Rightarrow> ms \<Rightarrow> ms \<Rightarrow> slot_places" where
  "slot_places_of a dayBookings s e =
     (if a_hasUnits a \<and> a_unitCount a > 0 then
        let orphans = unassignedOverlapping dayBookings s e;
            units = map (slot_unit a dayBookings orphans s e) (unit_numbers a);
            units' = (if rentsWholeUnit a then retire has_room (length orphans) units else units)
        in UnitPlaces units' (sum_available units')
      else
        let peak = maxConcurrentInWindow dayBookings s e
        in SeatPlaces (a_capacity a) peak (map_option (\<lambda>cap. max 0 (cap - peak)) (a_capacity a)))"

definition slot_of ::
  "activity \<Rightarrow> civil \<Rightarrow> int \<Rightarrow> booking list \<Rightarrow> block list \<Rightarrow> (hm \<Rightarrow> bool) \<Rightarrow> hm \<Rightarrow> slot_view" where
  "slot_of a date dur dayBookings dayBlocks past slotStart =
     (let slotEnd = fromMinutes (toMinutes slotStart + dur * 60);
          startDatetime = buildDatetime date slotStart;
          endDatetime = buildDatetime date slotEnd
      in \<lparr>sv_start = slotStart, sv_end = slotEnd,
          sv_places = slot_places_of a dayBookings startDatetime endDatetime,
          sv_isPast = past slotStart,
          sv_isBlocked = list_ex (\<lambda>bl. bl_start bl \<le> startDatetime \<and> startDatetime < bl_end bl) dayBlocks\<rparr>)"

definition slot_past :: "avail_env \<Rightarrow> string \<Rightarrow> civil \<Rightarrow> hm \<Rightarrow> bool" where
  "slot_past env tz date slotStart =
     (let today = todayInTimezone (av_tz env) tz (av_now env) in
      date < today \<or> date = today \<and> slotStart \<le> nowTimeLocal (av_tz env) tz (av_now env))"

definition getHourlyAvailability :: "avail_env \<Rightarrow> uid \<Rightarrow> civil \<Rightarrow> db \<Rightarrow> exn + slot_view list" where
  "getHourlyAvailability env activityId date d =
     (if \<not> isValidCivil date then Inl (BadSlot InvalidDate)
      else and_then (available_activity d activityId) (\<lambda>a.
        if a_bookingType a \<noteq> HOURLY then Inl (BadSlot WrongBookingType)
        else case (a_checkIn a, a_checkOut a, a_duration a) of
          (Some ci, Some co, Some dur) \<Rightarrow>
            if dur = 0 then Inl (BadSlot ActivityConfigIncomplete)
            else if dur \<le> 0 then Inl (BadSlot DurationNotPositive)
            else
              let dayStart = buildDatetime date ci; dayEnd = buildDatetime date co;
                  dayBookings = take (av_dayCap env) (active_overlapping env d activityId dayStart dayEnd);
                  dayBlocks = getBlocksInWindow d activityId dayStart dayEnd
              in Inr (map (slot_of a date dur dayBookings dayBlocks (slot_past env (zone_of d a) date))
                        (computeSlots ci co dur))
        | _ \<Rightarrow> Inl (BadSlot ActivityConfigIncomplete)))"

section \<open>The units of a stay\<close>

text \<open>\<open>groupBy unitNumber\<close> with the sum of the guests: the group of a unit, and the group of no unit.\<close>

definition booked_in :: "booking list \<Rightarrow> nat \<Rightarrow> int" where
  "booked_in rows u = guests_of (filter (in_unit u) rows)"

definition without_unit :: "booking list \<Rightarrow> booking list" where
  "without_unit rows = filter (\<lambda>b. b_unit b = None) rows"

definition stay_unit :: "activity \<Rightarrow> booking list \<Rightarrow> bool \<Rightarrow> nat \<Rightarrow> unit_view" where
  "stay_unit a rows blocked u =
     (let booked = booked_in rows u + (if rentsWholeUnit a then 0 else guests_of (without_unit rows))
      in \<lparr>uv_number = u, uv_capacity = a_unitCapacity a, uv_booked = booked,
          uv_available = (if blocked then 0
                          else if rentsWholeUnit a then (if booked > 0 then 0 else a_unitCapacity a)
                          else max 0 (a_unitCapacity a - booked))\<rparr>)"

definition not_taken :: "booking list \<Rightarrow> unit_view \<Rightarrow> bool" where
  "not_taken rows u = (\<not> booked_in rows (uv_number u) > 0)"

definition stay_units :: "activity \<Rightarrow> booking list \<Rightarrow> bool \<Rightarrow> unit_view list" where
  "stay_units a rows blocked =
     (let units = map (stay_unit a rows blocked) (unit_numbers a)
      in if rentsWholeUnit a then retire (not_taken rows) (length (without_unit rows)) units else units)"

definition one_unit :: "activity \<Rightarrow> booking list \<Rightarrow> bool \<Rightarrow> nat \<Rightarrow> unit_view" where
  "one_unit a rows blocked u =
     (let booked = booked_in rows u + (if rentsWholeUnit a then 0 else guests_of (without_unit rows))
      in \<lparr>uv_number = u, uv_capacity = a_unitCapacity a, uv_booked = booked,
          uv_available = (if blocked then 0
                          else if rentsWholeUnit a then (if booked > 0 \<or> without_unit rows \<noteq> [] then 0 else a_unitCapacity a)
                          else max 0 (a_unitCapacity a - booked))\<rparr>)"

definition getDailyAvailability ::
  "avail_env \<Rightarrow> uid \<Rightarrow> civil \<Rightarrow> civil \<Rightarrow> nat option \<Rightarrow> db \<Rightarrow> exn + daily_view" where
  "getDailyAvailability env activityId checkInDate checkOutDate unitNumber d =
     (if \<not> isValidCivil checkInDate \<or> \<not> isValidCivil checkOutDate then Inl (BadSlot InvalidDate)
      else and_then (available_activity d activityId) (\<lambda>a.
        if a_bookingType a \<noteq> DAILY then Inl (BadSlot WrongBookingType)
        else
          let startDatetime = buildDatetime checkInDate (or_default default_check_in (a_checkIn a));
              endDatetime = buildDatetime checkOutDate (or_default default_check_out (a_checkOut a));
              blocked = (getBlocksInWindow d activityId (midnight checkInDate) (midnight checkOutDate) \<noteq> []);
              rows = active_overlapping env d activityId startDatetime endDatetime
          in if a_hasUnits a then
               (case unitNumber of
                  None \<Rightarrow> Inr (DailyUnits (stay_units a rows blocked) blocked)
                | Some u \<Rightarrow>
                    if u < 1 \<or> u > a_unitCount a then Inl (NotFound UnitNotFound)
                    else Inr (DailyUnit (one_unit a rows blocked u) blocked))
             else
               let booked = guests_of rows
               in Inr (DailySeats (a_capacity a) booked
                    (if blocked then Some 0 else map_option (\<lambda>cap. max 0 (cap - booked)) (a_capacity a)) blocked)))"

section \<open>The days of a month\<close>

text \<open>\<open>month\<close> as \<open>YYYY-MM\<close> or \<open>YYYY-M\<close>, between 2000 and 2100.\<close>

definition month_parts :: "string \<Rightarrow> (int \<times> int) option" where
  "month_parts month =
     (case split_on CHR ''-'' month of
        [y, m] \<Rightarrow>
          (case (js_number y, js_number m) of
             (Some year, Some mon) \<Rightarrow>
               if length y = 4 \<and> (length m = 1 \<or> length m = 2) \<and> list_all (\<lambda>c. char_digit c \<noteq> None) (y @ m) \<and>
                  1 \<le> mon \<and> mon \<le> 12 \<and> 2000 \<le> year \<and> year \<le> 2100
               then Some (year, mon) else None
           | _ \<Rightarrow> None)
      | _ \<Rightarrow> None)"

definition month_bookings :: "avail_env \<Rightarrow> db \<Rightarrow> uid \<Rightarrow> nat option \<Rightarrow> ms \<Rightarrow> ms \<Rightarrow> booking list" where
  "month_bookings env d aid unitNumber monthStart monthEnd =
     take (av_monthCap env)
       (find_many (\<lambda>b. b_activityId b = aid \<and> activeBookingFilter (av_now env) b \<and>
            b_start b \<le> monthEnd \<and> monthStart \<le> b_end b \<and>
            (case unitNumber of Some u \<Rightarrow> b_unit b = Some u \<or> b_unit b = None | None \<Rightarrow> True)) (bookings d))"

definition special_by_date :: "special_price list \<Rightarrow> civil \<Rightarrow> num option" where
  "special_by_date rows = foldl (\<lambda>m s. m(sp_date s \<mapsto> sp_price s)) (\<lambda>_. None) rows"

definition last_slot :: "activity \<Rightarrow> hm option" where
  "last_slot a =
     (if a_bookingType a = HOURLY then
        (case bookable_starts a of Some (s # ss) \<Rightarrow> Some (last (s # ss)) | _ \<Rightarrow> None)
      else None)"

definition day_past :: "avail_env \<Rightarrow> string \<Rightarrow> activity \<Rightarrow> civil \<Rightarrow> bool" where
  "day_past env tz a date =
     (let today = todayInTimezone (av_tz env) tz (av_now env) in
      date < today \<or>
      date = today \<and> (case last_slot a of Some t \<Rightarrow> t \<le> nowTimeLocal (av_tz env) tz (av_now env) | None \<Rightarrow> False))"

text \<open>The distinct units of some bookings, and how many of them have none.\<close>

definition occupied_units :: "booking list \<Rightarrow> nat list" where
  "occupied_units bs = remdups (concat (map (\<lambda>b. case b_unit b of Some u \<Rightarrow> [u] | None \<Rightarrow> []) bs))"

definition units_in_use :: "booking list \<Rightarrow> nat" where
  "units_in_use bs = length (occupied_units bs) + length (without_unit bs)"

text \<open>Seats free when every unit may hold the guests without a unit.\<close>

definition used_seats :: "activity \<Rightarrow> booking list \<Rightarrow> ms \<Rightarrow> ms \<Rightarrow> int" where
  "used_seats a bs s e = (if a_bookingType a = HOURLY then maxConcurrentInWindow bs s e else guests_of bs)"

definition free_by_unit :: "activity \<Rightarrow> booking list \<Rightarrow> ms \<Rightarrow> ms \<Rightarrow> int" where
  "free_by_unit a dayBookings s e =
     sum_list (map (\<lambda>u. max 0 (a_unitCapacity a -
       used_seats a (filter (in_unit u) dayBookings @ without_unit dayBookings) s e)) (unit_numbers a))"

text \<open>Capacity, booked and available of a day, before slots and blocks; \<open>dayBookings\<close> overlap the day.\<close>

definition seat_day :: "activity \<Rightarrow> nat option \<Rightarrow> booking list \<Rightarrow> ms \<Rightarrow> ms \<Rightarrow> int option \<times> int \<times> int option" where
  "seat_day a unitNumber dayBookings s e =
     (let booked = used_seats a dayBookings s e;
          capacity = (if unitNumber \<noteq> None then Some (a_unitCapacity a)
                      else if a_hasUnits a then Some (int (a_unitCount a) * a_unitCapacity a)
                      else a_capacity a)
      in case capacity of
           None \<Rightarrow> (None, booked, None)
         | Some cap \<Rightarrow>
             if a_hasUnits a \<and> unitNumber = None \<and> without_unit dayBookings \<noteq> []
             then let free = free_by_unit a dayBookings s e in (Some cap, cap - free, Some free)
             else (Some cap, booked, Some (max 0 (cap - booked))))"

definition day_places :: "activity \<Rightarrow> nat option \<Rightarrow> booking list \<Rightarrow> ms \<Rightarrow> ms \<Rightarrow> int option \<times> int \<times> int option" where
  "day_places a unitNumber dayBookings s e =
     (if rentsWholeUnit a \<and> unitNumber \<noteq> None then
        (if dayBookings \<noteq> [] then (Some 1, 1, Some 0) else (Some 1, 0, Some 1))
      else if rentsWholeUnit a then
        let booked = min (a_unitCount a) (units_in_use dayBookings)
        in (Some (int (a_unitCount a)), int booked, Some (int (a_unitCount a - booked)))
      else seat_day a unitNumber dayBookings s e)"

definition slot_full :: "activity \<Rightarrow> nat option \<Rightarrow> int option \<Rightarrow> booking list \<Rightarrow> civil \<Rightarrow> int \<Rightarrow> hm \<Rightarrow> bool" where
  "slot_full a unitNumber capacity dayBookings date dur slotStart =
     (let sStart = buildDatetime date slotStart; sEnd = sStart + dur * hour_ms
      in if rentsWholeUnit a
         then units_in_use (filter (overlaps sStart sEnd) dayBookings) \<ge> (if unitNumber \<noteq> None then 1 else a_unitCount a)
         else (case capacity of Some c \<Rightarrow> maxConcurrentInWindow dayBookings sStart sEnd \<ge> c | None \<Rightarrow> False))"

definition fully_booked ::
  "activity \<Rightarrow> nat option \<Rightarrow> int option \<Rightarrow> int option \<Rightarrow> booking list \<Rightarrow> civil \<Rightarrow> bool" where
  "fully_booked a unitNumber capacity available dayBookings date =
     (case (a_bookingType a, a_checkIn a, a_checkOut a, a_duration a) of
        (HOURLY, Some ci, Some co, Some dur) \<Rightarrow>
          if dur = 0 then capacity \<noteq> None \<and> available = Some 0
          else let slots = computeSlots ci co dur
               in slots \<noteq> [] \<and> list_all (slot_full a unitNumber capacity dayBookings date dur) slots
      | _ \<Rightarrow> capacity \<noteq> None \<and> available = Some 0)"

definition day_of_month ::
  "avail_env \<Rightarrow> string \<Rightarrow> activity \<Rightarrow> nat option \<Rightarrow> booking list \<Rightarrow> block list \<Rightarrow> (civil \<Rightarrow> num option) \<Rightarrow> civil \<Rightarrow> day_view" where
  "day_of_month env tz a unitNumber rows monthBlocks specialPrice date =
     (let dayDate = midnight date; dayEndUtc = dayDate + day_ms;
          dayCheckIn = buildDatetime date (or_default default_check_in (a_checkIn a));
          dayCheckOut = buildDatetime (civil_of_day (day_of_civil date + 1)) (or_default default_check_out (a_checkOut a));
          dayBookings = filter (overlaps dayCheckIn dayCheckOut) rows;
          (capacity, booked, available) = day_places a unitNumber dayBookings dayCheckIn dayCheckOut;
          full = fully_booked a unitNumber capacity available dayBookings date;
          fullyBlocked = list_ex (\<lambda>bl. bl_start bl \<le> dayDate \<and> dayEndUtc \<le> bl_end bl) monthBlocks
      in \<lparr>dv_date = date, dv_dayOfWeek = weekdayOf date,
          dv_price = (case specialPrice date of Some p \<Rightarrow> p | None \<Rightarrow> a_price a),
          dv_isSpecialPrice = (specialPrice date \<noteq> None),
          dv_isActiveDay = active_on a date, dv_isPast = day_past env tz a date,
          dv_capacity = capacity, dv_booked = booked,
          dv_available = (if fullyBlocked then Some 0 else available),
          dv_isFullyBooked = (fullyBlocked \<or> full),
          dv_isBlocked = list_ex (covers_part dayDate dayEndUtc) monthBlocks,
          dv_isFullyBlocked = fullyBlocked\<rparr>)"

definition month_days :: "avail_env \<Rightarrow> activity \<Rightarrow> int \<Rightarrow> int \<Rightarrow> nat option \<Rightarrow> db \<Rightarrow> day_view list" where
  "month_days env a year mon unitNumber d =
     (let daysInMonth = cd (civil_of_day (utc_day year mon 0));
          monthStart = utc_day year (mon - 1) 1 * day_ms;
          monthEnd = utc_day year (mon - 1) daysInMonth * day_ms + (day_ms - 1000);
          rows = month_bookings env d (a_id a) unitNumber monthStart monthEnd;
          monthBlocks = getBlocksInWindow d (a_id a) monthStart monthEnd;
          specialPrice = special_by_date (find_many (\<lambda>s. sp_activityId s = a_id a \<and> sp_deletedAt s = None \<and>
              monthStart \<le> midnight (sp_date s) \<and> midnight (sp_date s) \<le> monthEnd) (specials d))
      in map (\<lambda>k. day_of_month env (zone_of d a) a unitNumber rows monthBlocks specialPrice (Civil year mon k))
           [1..daysInMonth])"

end
