(* ===== verification/AvailabilityProps.thy ===== *)
theory AvailabilityProps
  imports Availability CreateProps Scenario
begin

text \<open>
  The availability views agree with the booking path: what the slots of a day and the units of a stay
  offer is what the capacity stage of \<open>createBooking\<close> accepts on the same rows, and the monthly view
  shows a night of a whole-rented activity as free exactly when it can be booked.
\<close>

section \<open>Rows of a window\<close>

definition row_ok :: "booking \<Rightarrow> bool" where
  "row_ok b = (1 \<le> b_guests b \<and> b_start b < b_end b)"

lemma rows_nonneg [availability]: "list_all row_ok bs \<Longrightarrow> list_all nonneg_guests bs"
  by (auto simp: list_all_iff row_ok_def nonneg_guests_def)

lemma peak_filter [availability]:
  assumes "list_all nonneg_guests bs"
  shows "maxConcurrentInWindow (filter (overlaps s e) bs) s e = maxConcurrentInWindow bs s e"
proof -
  have l: "load_at (filter (overlaps s e) bs) t = load_at bs t" if "s \<le> t" "t < e" for t
    using load_in_window [OF that] .
  have f: "list_all nonneg_guests (filter (overlaps s e) bs)" using assms by simp
  show ?thesis
  proof (rule order_antisym)
    show "maxConcurrentInWindow (filter (overlaps s e) bs) s e \<le> maxConcurrentInWindow bs s e"
      using seats.peak_le_iff [OF f seats.peak_nonneg] seats.peak_upper [of s _ e bs] l by auto
    show "maxConcurrentInWindow bs s e \<le> maxConcurrentInWindow (filter (overlaps s e) bs) s e"
      using seats.peak_le_iff [OF assms seats.peak_nonneg] seats.peak_upper [of s _ e "filter (overlaps s e) bs"] l
      by fastforce
  qed
qed

lemma peak_pos [availability]:
  assumes "list_all row_ok bs" "s < e"
  shows "0 < maxConcurrentInWindow bs s e \<longleftrightarrow> filter (overlaps s e) bs \<noteq> []"
proof -
  note n = rows_nonneg [OF assms(1)]
  have "maxConcurrentInWindow bs s e \<le> 0 \<longleftrightarrow> (\<forall>t. s \<le> t \<and> t < e \<longrightarrow> load_at bs t \<le> 0)"
    by (rule seats.peak_le_iff [OF n order_refl])
  also have "\<dots> \<longleftrightarrow> filter (overlaps s e) bs = []"
  proof
    assume all: "\<forall>t. s \<le> t \<and> t < e \<longrightarrow> load_at bs t \<le> 0"
    show "filter (overlaps s e) bs = []"
    proof (rule ccontr)
      assume "filter (overlaps s e) bs \<noteq> []"
      then obtain b where "b \<in> set (filter (overlaps s e) bs)" by (meson list.set_sel(1))
      then have b: "b \<in> set bs" "b_start b < e" "s < b_end b" by (auto simp: overlaps_def)
      then have ok: "1 \<le> b_guests b" "b_start b < b_end b" using assms(1) by (auto simp: list_all_iff row_ok_def)
      define t where "t = max s (b_start b)"
      have t: "s \<le> t" "t < e" "b_start b \<le> t" "t < b_end b" using b ok assms(2) by (auto simp: t_def)
      obtain xs ys where split: "bs = xs @ b # ys" using b(1) by (meson split_list)
      have "list_all nonneg_guests xs" "list_all nonneg_guests ys" using n by (auto simp: split)
      then have "1 \<le> load_at bs t"
        using load_at_nonneg [of xs t] load_at_nonneg [of ys t] ok(1) t(3,4) by (simp add: split)
      then show False using all t(1,2) by fastforce
    qed
  next
    assume none: "filter (overlaps s e) bs = []"
    then show "\<forall>t. s \<le> t \<and> t < e \<longrightarrow> load_at bs t \<le> 0"
      using load_in_window [of s _ e bs] by auto
  qed
  finally show ?thesis by linarith
qed

section \<open>What the booking path accepts\<close>

text \<open>The capacity stage of \<open>createBooking\<close> on the rows of the window.\<close>

definition room_for :: "activity \<Rightarrow> int \<Rightarrow> booking list \<Rightarrow> ms \<Rightarrow> ms \<Rightarrow> bool" where
  "room_for a guests rows s e =
     isInr (and_then (assign_unit a guests rows s e) (\<lambda>(un, cap). check_capacity guests rows un cap s e))"

lemma room_seats [availability]:
  "\<not> a_hasUnits a \<Longrightarrow> room_for a g rows s e \<longleftrightarrow>
     (case a_capacity a of None \<Rightarrow> True | Some c \<Rightarrow> g \<le> c - maxConcurrentInWindow rows s e)"
  by (auto simp: room_for_def assign_unit_def check_capacity_def Let_def split: option.splits)

lemma in_unit_nil [availability]:
  "maxConcurrentInWindow [] s e = 0"
  by (rule disjE [OF seats.peak_attained [of "[]" s e]]) auto

lemma room_whole_units [availability]:
  assumes "rentsWholeUnit a" "0 < a_unitCount a"
  shows "room_for a g rows s e \<longleftrightarrow>
    length (unassignedOverlapping rows s e) < length (filter (\<lambda>u. filter (in_unit u) rows = []) (unit_numbers a)) \<and>
    g \<le> a_unitCapacity a"
proof -
  let ?free = "filter (\<lambda>u. filter (in_unit u) rows = []) (unit_numbers a)"
  have free: "free_units a g rows s e = ?free"
    using assms(1) unfolding free_units_def unit_numbers_def by (intro filter_cong refl) (simp add: unit_free_def Let_def)
  have hd: "filter (in_unit (hd ?free)) rows = []" if "?free \<noteq> []" using hd_in_set [OF that] by simp
  have "a_hasUnits a" using assms(1) by (simp add: rentsWholeUnit_def)
  then show ?thesis
    using assms free hd
    by (cases "?free = []") (auto simp: room_for_def assign_unit_def check_capacity_def Let_def in_unit_nil)
qed

lemma room_shared_units [availability]:
  assumes "a_hasUnits a" "\<not> rentsWholeUnit a" "0 < a_unitCount a" "list_all nonneg_guests rows"
  shows "room_for a g rows s e \<longleftrightarrow>
    (\<exists>u \<in> set (unit_numbers a). g \<le> a_unitCapacity a -
       maxConcurrentInWindow (filter (in_unit u) rows @ unassignedOverlapping rows s e) s e)"
proof -
  let ?o = "unassignedOverlapping rows s e"
  have free: "u \<in> set (free_units a g rows s e) \<longleftrightarrow> u \<in> set (unit_numbers a) \<and>
      g \<le> a_unitCapacity a - maxConcurrentInWindow (filter (in_unit u) rows @ ?o) s e" for u
    using assms(2) by (auto simp: free_units_def unit_free_def unit_numbers_def Let_def)
  have mono: "maxConcurrentInWindow (filter (in_unit u) rows) s e \<le>
      maxConcurrentInWindow (filter (in_unit u) rows @ ?o) s e" for u
    by (rule seats.peak_append_mono) (use assms(4) in \<open>simp_all add: unassignedOverlapping_def\<close>)
  show ?thesis
  proof (cases "free_units a g rows s e = []")
    case True
    then have "\<not> (\<exists>u \<in> set (unit_numbers a). g \<le> a_unitCapacity a -
       maxConcurrentInWindow (filter (in_unit u) rows @ ?o) s e)" using free by (metis list.set(1) empty_iff)
    then show ?thesis using True assms by (simp add: room_for_def assign_unit_def)
  next
    case False
    let ?u = "hd (free_units a g rows s e)"
    have u: "?u \<in> set (unit_numbers a)" "g \<le> a_unitCapacity a - maxConcurrentInWindow (filter (in_unit ?u) rows @ ?o) s e"
      using hd_in_set [OF False] free by blast+
    then have "g \<le> a_unitCapacity a - maxConcurrentInWindow (filter (in_unit ?u) rows) s e"
      using mono [of ?u] by linarith
    then have "room_for a g rows s e"
      using False assms by (simp add: room_for_def assign_unit_def check_capacity_def Let_def)
    then show ?thesis using u by blast
  qed
qed

section \<open>Taking units off the board\<close>

lemma retire_some [availability]:
  assumes "\<And>u. u \<in> set us \<Longrightarrow> uv_available u = (if candidate u then cap else 0)" "1 \<le> g"
  shows "(\<exists>u \<in> set (retire candidate n us). g \<le> uv_available u) \<longleftrightarrow> n < length (filter candidate us) \<and> g \<le> cap"
  using assms
proof (induction us arbitrary: n)
  case (Cons u us)
  have av: "uv_available v = (if candidate v then cap else 0)" if "v \<in> set us" for v using Cons.prems(1) that by simp
  have u: "uv_available u = (if candidate u then cap else 0)" using Cons.prems(1) by simp
  show ?case
  proof (cases "n = 0")
    case True
    have "(\<exists>v \<in> set us. g \<le> uv_available v) \<longleftrightarrow> filter candidate us \<noteq> [] \<and> g \<le> cap"
      using av assms(2) by (auto simp: filter_empty_conv)
    then show ?thesis using True u assms(2) by auto
  next
    case False
    then show ?thesis
      using Cons.IH [OF av assms(2), of "n - 1"] Cons.IH [OF av assms(2), of n] u assms(2)
      by (cases "candidate u") auto
  qed
qed simp

text \<open>The places a view offers to a party of \<open>g\<close>.\<close>

fun offers :: "slot_places \<Rightarrow> int \<Rightarrow> bool" where
  "offers (UnitPlaces us n) g = (\<exists>u \<in> set us. g \<le> uv_available u)"
| "offers (SeatPlaces cap booked None) g = True"
| "offers (SeatPlaces cap booked (Some n)) g = (g \<le> n)"

section \<open>The slots of a day\<close>

lemma unassigned_filter [availability]:
  "unassignedOverlapping (filter (overlaps s e) bs) s e = unassignedOverlapping bs s e"
  by (auto simp: unassignedOverlapping_def overlaps_def intro!: filter_cong)

lemma unit_filter: "filter (in_unit u) (filter (overlaps s e) bs) = filter (overlaps s e) (filter (in_unit u) bs)"
  by (simp add: conj_commute)

lemma slot_places_iff [availability]:
  assumes rows: "list_all row_ok D" and g: "1 \<le> g" and se: "s < e" and units: "\<not> (a_hasUnits a \<and> a_unitCount a = 0)"
  shows "room_for a g (filter (overlaps s e) D) s e \<longleftrightarrow> offers (slot_places_of a D s e) g"
proof (cases "a_hasUnits a")
  case False
  then show ?thesis
    using g by (auto simp: room_seats slot_places_of_def Let_def peak_filter [OF rows_nonneg [OF rows]] split: option.splits)
next
  case True
  then have cnt: "0 < a_unitCount a" using units by simp
  let ?R = "filter (overlaps s e) D" and ?o = "unassignedOverlapping D s e"
  have nn: "list_all nonneg_guests D" by (rule rows_nonneg [OF rows])
  show ?thesis
  proof (cases "rentsWholeUnit a")
    case whole: True
    let ?us = "map (slot_unit a D ?o s e) (unit_numbers a)"
    have busy: "maxConcurrentInWindow (filter (in_unit u) D) s e > 0 \<longleftrightarrow> filter (in_unit u) ?R \<noteq> []" for u
      unfolding unit_filter by (rule peak_pos) (use rows se in simp_all)
    have av: "uv_available (slot_unit a D ?o s e u) = (if filter (in_unit u) ?R = [] then a_unitCapacity a else 0)" for u
      using whole busy [of u] by (simp add: slot_unit_def Let_def)
    show ?thesis
    proof (cases "0 < a_unitCapacity a")
      case pos: True
      have room: "has_room (slot_unit a D ?o s e u) \<longleftrightarrow> filter (in_unit u) ?R = []" for u
        using pos by (simp add: has_room_def av)
      have "length (filter has_room ?us) = length (filter (\<lambda>u. filter (in_unit u) ?R = []) (unit_numbers a))"
        by (simp only: filter_map length_map comp_def room)
      moreover have "(\<exists>u \<in> set (retire has_room (length ?o) ?us). g \<le> uv_available u) \<longleftrightarrow>
          length ?o < length (filter has_room ?us) \<and> g \<le> a_unitCapacity a"
        by (rule retire_some [OF _ g]) (auto simp: room av simp del: filter_filter)
      ultimately show ?thesis
        using True cnt whole by (simp add: room_whole_units [OF whole cnt] slot_places_of_def Let_def unassigned_filter del: filter_filter)
    next
      case neg: False
      have "uv_available v \<le> 0" if "v \<in> set (retire has_room n us)" "\<forall>u \<in> set us. uv_available u \<le> 0" for v n us
        using that by (induction us arbitrary: n) (auto split: if_splits)
      moreover have "\<forall>u \<in> set ?us. uv_available u \<le> 0" using neg by (auto simp: av simp del: filter_filter)
      ultimately have "\<not> (\<exists>u \<in> set (retire has_room (length ?o) ?us). g \<le> uv_available u)" using g by fastforce
      moreover have "\<not> g \<le> a_unitCapacity a" using neg g by simp
      ultimately show ?thesis
        using True cnt whole by (simp add: room_whole_units [OF whole cnt] slot_places_of_def Let_def del: filter_filter)
    qed
  next
    case shared: False
    have "filter (in_unit u) ?R @ ?o = filter (overlaps s e) (filter (in_unit u) D @ ?o)" for u
      by (simp add: unit_filter unassignedOverlapping_def overlaps_def conj_ac)
    then have "maxConcurrentInWindow (filter (in_unit u) ?R @ ?o) s e = maxConcurrentInWindow (filter (in_unit u) D @ ?o) s e" for u
      using peak_filter [of "filter (in_unit u) D @ ?o" s e] nn by (simp add: unassignedOverlapping_def)
    moreover have "list_all nonneg_guests ?R" using nn by simp
    moreover have "offers (slot_places_of a D s e) g \<longleftrightarrow> (\<exists>u \<in> set (unit_numbers a).
        g \<le> a_unitCapacity a - maxConcurrentInWindow (filter (in_unit u) D @ ?o) s e)"
    proof -
      have "g \<le> max 0 x \<longleftrightarrow> g \<le> x" for x using g by auto
      then show ?thesis using True cnt shared by (simp add: slot_places_of_def slot_unit_def Let_def)
    qed
    ultimately show ?thesis
      using room_shared_units [OF True shared cnt, of ?R g s e] by (simp add: unassigned_filter del: filter_filter)
  qed
qed

text \<open>The rows a view reads, and the rows \<open>createBooking\<close> reads, are the active ones in the window.\<close>

lemma active_overlapping_eq [availability]:
  "active_overlapping env d aid s e = filter (overlaps s e) (active_rows d (av_now env) aid)"
  by (simp only: active_overlapping_def find_many_def active_rows_def filter_filter conj_assoc)

lemma view_rows [availability]:
  assumes "length (active_rows d (av_now env) aid) \<le> av_dayCap env" "length (active_rows d (av_now env) aid) \<le> e_dayCap benv"
    and "e_now benv = av_now env" "ds \<le> s" "e \<le> de"
  shows "window_bookings benv d aid s e =
    filter (overlaps s e) (take (av_dayCap env) (active_overlapping env d aid ds de))"
proof -
  let ?A = "active_rows d (av_now env) aid"
  have len: "length (filter P ?A) \<le> length ?A" for P by simp
  have "window_bookings benv d aid s e = filter (overlaps s e) ?A"
    using window_bookings_eq [of benv d aid s e] assms(2,3) le_trans [OF len] by (simp add: scan_complete_def)
  moreover have "take (av_dayCap env) (active_overlapping env d aid ds de) = filter (overlaps ds de) ?A"
    using assms(1) le_trans [OF len] by (simp add: active_overlapping_eq)
  moreover have "filter (overlaps s e) (filter (overlaps ds de) ?A) = filter (overlaps s e) ?A"
    using assms(4,5) by (auto simp: overlaps_def intro!: filter_cong)
  ultimately show ?thesis by simp
qed

lemma active_rows_ok [availability]:
  "list_all row_ok (bookings d) \<Longrightarrow> list_all row_ok (active_rows d now aid)"
  by (simp add: active_rows_def)

lemma computeSlots_window [availability]:
  assumes "t \<in> set (computeSlots ci co dur)"
  shows "toMinutes ci \<le> toMinutes t \<and> toMinutes t + dur * 60 \<le> toMinutes co \<and> 0 < dur"
proof -
  obtain i where i: "i < length (slot_loop (toMinutes co) (dur * 60) 0 (toMinutes ci))"
    "t = slot_loop (toMinutes co) (dur * 60) 0 (toMinutes ci) ! i" "0 < dur"
    using assms by (auto simp: computeSlots_def Let_def in_set_conv_nth split: if_splits)
  then show ?thesis using slot_loop_nth [OF i(1)] by simp
qed

lemma hourly_views [availability]:
  assumes view: "getHourlyAvailability env aid date d = Inr views" "sv \<in> set views"
    and a: "find_first (\<lambda>a. a_id a = aid) (activities d) = Some a"
    and rows: "list_all row_ok (bookings d)" and units: "\<not> (a_hasUnits a \<and> a_unitCount a = 0)"
    and now: "e_now benv = av_now env"
    and caps: "length (active_rows d (av_now env) aid) \<le> av_dayCap env"
      "length (active_rows d (av_now env) aid) \<le> e_dayCap benv" and g: "1 \<le> g"
  shows "let s = buildDatetime date (sv_start sv); e = buildDatetime date (sv_end sv) in
    room_for a g (window_bookings benv d aid s e) s e \<longleftrightarrow> offers (sv_places sv) g"
proof -
  obtain ci co dur where c: "a_checkIn a = Some ci" "a_checkOut a = Some co" "a_duration a = Some dur" "0 < dur"
    and vs: "views = map (slot_of a date dur
        (take (av_dayCap env) (active_overlapping env d aid (buildDatetime date ci) (buildDatetime date co)))
        (getBlocksInWindow d aid (buildDatetime date ci) (buildDatetime date co))
        (slot_past env (zone_of d a) date)) (computeSlots ci co dur)"
    using view(1) a by (auto simp: getHourlyAvailability_def available_activity_def and_then_Inr Let_def
        split: option.splits if_splits)
  let ?D = "take (av_dayCap env) (active_overlapping env d aid (buildDatetime date ci) (buildDatetime date co))"
  obtain t where t: "t \<in> set (computeSlots ci co dur)"
    "sv = slot_of a date dur ?D (getBlocksInWindow d aid (buildDatetime date ci) (buildDatetime date co))
        (slot_past env (zone_of d a) date) t"
    using view(2) unfolding vs by auto
  let ?s = "buildDatetime date t" and ?e = "buildDatetime date (fromMinutes (toMinutes t + dur * 60))"
  have sv: "sv_start sv = t" "sv_end sv = fromMinutes (toMinutes t + dur * 60)" "sv_places sv = slot_places_of a ?D ?s ?e"
    by (simp_all add: t(2) slot_of_def Let_def)
  have win: "buildDatetime date ci \<le> ?s" "?e \<le> buildDatetime date co" "?s < ?e"
    using computeSlots_window [OF t(1)] by (simp_all add: buildDatetime_def minute_ms_def)
  have D: "list_all row_ok ?D"
    using active_rows_ok [OF rows, of "av_now env" aid]
    by (auto simp: active_overlapping_eq list_all_iff dest: in_set_takeD)
  show ?thesis
    using slot_places_iff [OF D g win(3) units] view_rows [OF caps now win(1,2)] by (simp add: sv Let_def)
qed

section \<open>The units of a stay\<close>

lemma guests_pos [availability]:
  assumes "list_all row_ok bs"
  shows "0 < guests_of bs \<longleftrightarrow> bs \<noteq> []"
proof -
  have "0 \<le> guests_of bs \<and> (bs \<noteq> [] \<longrightarrow> 0 < guests_of bs)"
    using assms by (induction bs) (auto simp: guests_of_def row_ok_def)
  then show ?thesis by (auto simp: guests_of_def)
qed

lemma unassigned_is_without_unit [availability]:
  "unassignedOverlapping (filter (overlaps s e) rows) s e = without_unit (filter (overlaps s e) rows)"
  by (auto simp: unassignedOverlapping_def without_unit_def overlaps_def intro!: filter_cong)

lemma stay_units_iff [availability]:
  assumes rows: "list_all row_ok R" "filter (overlaps s e) R = R" and g: "1 \<le> g"
    and whole: "rentsWholeUnit a" and cnt: "0 < a_unitCount a"
  shows "room_for a g R s e \<longleftrightarrow> (\<exists>u \<in> set (stay_units a R False). g \<le> uv_available u)"
proof -
  have free: "(0 < booked_in R u) = (filter (in_unit u) R \<noteq> [])" for u
    unfolding booked_in_def by (rule guests_pos) (use rows in simp)
  have av: "uv_available (stay_unit a R False u) = (if filter (in_unit u) R = [] then a_unitCapacity a else 0)" for u
    using whole free [of u] by (simp add: stay_unit_def Let_def)
  have cand: "not_taken R (stay_unit a R False u) \<longleftrightarrow> filter (in_unit u) R = []" for u
    using free [of u] by (simp add: not_taken_def stay_unit_def Let_def)
  have "(\<exists>u \<in> set (stay_units a R False). g \<le> uv_available u) \<longleftrightarrow>
      length (without_unit R) < length (filter (not_taken R) (map (stay_unit a R False) (unit_numbers a))) \<and> g \<le> a_unitCapacity a"
    unfolding stay_units_def Let_def if_P [OF whole]
    by (rule retire_some [OF _ g]) (auto simp: av cand simp del: filter_empty_conv)
  also have "length (filter (not_taken R) (map (stay_unit a R False) (unit_numbers a))) =
      length (filter (\<lambda>u. filter (in_unit u) R = []) (unit_numbers a))"
    by (simp only: filter_map length_map comp_def cand)
  finally show ?thesis
    using unassigned_is_without_unit [of s e R] unfolding rows(2) by (simp add: room_whole_units [OF whole cnt])
qed

text \<open>Seats: the view adds up all bookings that touch the stay, which is never less than the peak.\<close>

lemma load_le_guests [availability]:
  "list_all nonneg_guests bs \<Longrightarrow> load_at bs t \<le> guests_of bs"
  by (induction bs) (auto simp: guests_of_def nonneg_guests_def)

lemma peak_le_guests [availability]:
  assumes "list_all nonneg_guests bs"
  shows "maxConcurrentInWindow bs s e \<le> guests_of bs"
proof -
  have "0 \<le> guests_of bs" using assms by (induction bs) (auto simp: guests_of_def nonneg_guests_def)
  then show ?thesis using seats.peak_le_iff [OF assms] load_le_guests [OF assms] by blast
qed

lemma stay_window [availability]:
  assumes "getDailyAvailability env aid ci co un d = Inr v" "find_first (\<lambda>a. a_id a = aid) (activities d) = Some a"
  shows "a_bookingType a = DAILY"
    and "v = DailyUnits us blocked \<Longrightarrow> a_hasUnits a \<and> us = stay_units a (active_overlapping env d aid
        (buildDatetime ci (or_default default_check_in (a_checkIn a)))
        (buildDatetime co (or_default default_check_out (a_checkOut a)))) blocked"
    and "v = DailySeats cap booked av blocked \<Longrightarrow> \<not> a_hasUnits a \<and> (\<not> blocked \<longrightarrow>
        av = map_option (\<lambda>c. max 0 (c - guests_of (active_overlapping env d aid
          (buildDatetime ci (or_default default_check_in (a_checkIn a)))
          (buildDatetime co (or_default default_check_out (a_checkOut a)))))) (a_capacity a))"
  using assms by (cases "a_bookingType a"; auto simp: getDailyAvailability_def available_activity_def and_then_Inr Let_def
      split: option.splits if_splits)+

lemma stay_rows [availability]:
  assumes "length (active_rows d (av_now env) aid) \<le> e_dayCap benv" "e_now benv = av_now env"
  shows "window_bookings benv d aid s e = active_overlapping env d aid s e"
proof -
  have len: "length (filter P (active_rows d (av_now env) aid)) \<le> length (active_rows d (av_now env) aid)" for P by simp
  show ?thesis
    using window_bookings_eq [of benv d aid s e] assms le_trans [OF len] by (simp add: scan_complete_def active_overlapping_eq)
qed

end
