(* ===== verification/AvailabilityCache.thy ===== *)
theory AvailabilityCache
  imports Availability
begin

text \<open>
  The cache of the monthly view (\<open>apps/api/src/redis/availability-cache.service.ts\<close>) and
  \<open>getCalendarAvailability\<close> over it. Entries are keyed by a version of the activity that an invalidation
  increments; Redis is a map with expiry, and any of its failures makes an operation do nothing. Between
  the rows a call reads and the entry it writes other requests may use the cache.
\<close>

type_synonym cache_key = "uid \<times> nat \<times> string \<times> nat option"

record 'v avail_cache =
  ac_version :: "uid \<Rightarrow> nat"
  ac_data :: "cache_key \<Rightarrow> ('v \<times> ms) option"

text \<open>The configuration, whether a payload is small enough, and whether Redis answers.\<close>

record 'v cache_env =
  ce_enabled :: bool
  ce_ttlSec :: int
  ce_fits :: "'v \<Rightarrow> bool"
  ce_up :: bool

definition MAX_CACHEABLE_UNIT :: nat where
  "MAX_CACHEABLE_UNIT = 1000"

text \<open>The constructor: \<open>None\<close> is a setting that is no finite number.\<close>

definition cache_ttl :: "num option \<Rightarrow> int" where
  "cache_ttl rawTtl =
     (case rawTtl of Some t \<Rightarrow> if 0 < t \<and> t \<le> 3600 then \<lfloor>t\<rfloor> else 180 | None \<Rightarrow> 180)"

text \<open>\<open>MONTH_RE\<close> wants two digits for the month; identifiers of activities are well formed here.\<close>

definition cacheable_month :: "string \<Rightarrow> bool" where
  "cacheable_month month = (month_parts month \<noteq> None \<and> length month = 7)"

definition isSafe :: "string \<Rightarrow> nat option \<Rightarrow> bool" where
  "isSafe month unitNumber =
     (cacheable_month month \<and>
      (case unitNumber of None \<Rightarrow> True | Some u \<Rightarrow> 1 \<le> u \<and> u \<le> MAX_CACHEABLE_UNIT))"

definition dataKey :: "'v avail_cache \<Rightarrow> uid \<Rightarrow> string \<Rightarrow> nat option \<Rightarrow> cache_key" where
  "dataKey c activityId month unitNumber = (activityId, ac_version c activityId, month, unitNumber)"

definition cache_get :: "'v cache_env \<Rightarrow> ms \<Rightarrow> 'v avail_cache \<Rightarrow> uid \<Rightarrow> string \<Rightarrow> nat option \<Rightarrow> 'v option" where
  "cache_get env now c activityId month unitNumber =
     (if ce_enabled env \<and> isSafe month unitNumber \<and> ce_up env
      then (case ac_data c (dataKey c activityId month unitNumber) of
              Some (v, expiry) \<Rightarrow> if now < expiry then Some v else None
            | None \<Rightarrow> None)
      else None)"

definition cache_set ::
  "'v cache_env \<Rightarrow> ms \<Rightarrow> uid \<Rightarrow> string \<Rightarrow> 'v \<Rightarrow> nat option \<Rightarrow> 'v avail_cache \<Rightarrow> 'v avail_cache" where
  "cache_set env now activityId month v unitNumber c =
     (if ce_enabled env \<and> isSafe month unitNumber \<and> ce_fits env v \<and> ce_up env
      then c\<lparr>ac_data := (ac_data c)(dataKey c activityId month unitNumber \<mapsto> (v, now + ce_ttlSec env * 1000))\<rparr>
      else c)"

definition invalidate :: "'v cache_env \<Rightarrow> uid \<Rightarrow> 'v avail_cache \<Rightarrow> 'v avail_cache" where
  "invalidate env activityId c =
     (if ce_enabled env \<and> ce_up env
      then c\<lparr>ac_version := (ac_version c)(activityId := ac_version c activityId + 1)\<rparr> else c)"

definition invalidateMany :: "'v cache_env \<Rightarrow> uid list \<Rightarrow> 'v avail_cache \<Rightarrow> 'v avail_cache" where
  "invalidateMany env activityIds c = fold (invalidate env) (js_unique activityIds) c"

section \<open>The monthly view\<close>

text \<open>
  The view of the calendar is its days; the other fields of the answer copy columns of the activity and
  its country. \<open>meanwhile\<close> is what other requests do to the cache while the rows are read and the days
  computed.
\<close>

definition getCalendarAvailability ::
  "avail_env \<Rightarrow> day_view list cache_env \<Rightarrow> (day_view list avail_cache \<Rightarrow> day_view list avail_cache) \<Rightarrow>
   uid \<Rightarrow> string \<Rightarrow> nat option \<Rightarrow> db \<Rightarrow> day_view list avail_cache \<Rightarrow> (exn + day_view list) \<times> day_view list avail_cache" where
  "getCalendarAvailability env cenv meanwhile activityId month unitNumber d c =
     (case available_activity d activityId of
        Inl ex \<Rightarrow> (Inl ex, c)
      | Inr a \<Rightarrow>
          (case month_parts month of
             None \<Rightarrow> (Inl (BadSlot InvalidDate), c)
           | Some (year, mon) \<Rightarrow>
               (case cache_get cenv (av_now env) c activityId month unitNumber of
                  Some v \<Rightarrow> (Inr v, c)
                | None \<Rightarrow>
                    let days = month_days env a year mon unitNumber d
                    in (Inr days, cache_set cenv (av_now env) activityId month days unitNumber (meanwhile c)))))"

end
