(* ===== verification/AvailabilityTheorems.thy ===== *)
theory AvailabilityTheorems
  imports AvailabilityProps AvailabilityCache
begin

text \<open>
  The properties of the availability views with their applications to the sample installation, and the
  two places where a view and the booking path part.
\<close>

section \<open>The slots of a day\<close>

definition sc_avail :: avail_env where
  "sc_avail = \<lparr>av_now = sc_now, av_tz = qatar_tz, av_dayCap = 5, av_monthCap = 5\<rparr>"

text \<open>C18. What the slots of a day offer is what the capacity stage of createBooking accepts: on the same rows a party
  gets a place in a slot (seats, a unit of its own, or seats of a shared unit) exactly when the view offers it,
  also when bookings without a unit hold units or seats nobody can name.\<close>

theorem hourly_view_matches_booking:
  assumes "getHourlyAvailability env aid date d = Inr views" "sv \<in> set views"
    and "find_first (\<lambda>a. a_id a = aid) (activities d) = Some a"
    and "list_all row_ok (bookings d)" "\<not> (a_hasUnits a \<and> a_unitCount a = 0)"
    and "e_now benv = av_now env"
    and "length (active_rows d (av_now env) aid) \<le> av_dayCap env"
      "length (active_rows d (av_now env) aid) \<le> e_dayCap benv" "1 \<le> g"
  shows "let s = buildDatetime date (sv_start sv); e = buildDatetime date (sv_end sv) in
    room_for a g (window_bookings benv d aid s e) s e \<longleftrightarrow> offers (sv_places sv) g"
  by (rule hourly_views [OF assms])

lemma sc_slots: "isInr (getHourlyAvailability sc_avail 10 (Civil 2026 3 10) sc_db_booked)"
  by code_simp

lemma sc_first_slots:
  "map (\<lambda>sv. (sv_start sv, sv_places sv)) (take 3 (projr (getHourlyAvailability sc_avail 10 (Civil 2026 3 10) sc_db_booked))) =
     [(HM 8 0, SeatPlaces (Some 4) 0 (Some 4)), (HM 8 30, SeatPlaces (Some 4) 2 (Some 2)), (HM 9 0, SeatPlaces (Some 4) 2 (Some 2))]"
  by code_simp

lemma sc_booked_active: "active_rows sc_db_booked sc_now 10 = [sc_booking]"
  by code_simp

lemma sc_views: "getHourlyAvailability sc_avail 10 (Civil 2026 3 10) sc_db_booked =
    Inr (projr (getHourlyAvailability sc_avail 10 (Civil 2026 3 10) sc_db_booked))"
  using sc_slots by (metis isInr_iff sum.sel(2))

lemma sc_nine: "\<exists>sv \<in> set (projr (getHourlyAvailability sc_avail 10 (Civil 2026 3 10) sc_db_booked)).
    sv_start sv = HM 9 0 \<and> sv_end sv = HM 10 0 \<and> sv_places sv = SeatPlaces (Some 4) 2 (Some 2)"
  by code_simp

theorem hourly_view_matches_booking_witness:
  "room_for sc_hourly 2 (window_bookings sc_env sc_db_booked 10 (buildDatetime (Civil 2026 3 10) (HM 9 0))
      (buildDatetime (Civil 2026 3 10) (HM 10 0))) (buildDatetime (Civil 2026 3 10) (HM 9 0)) (buildDatetime (Civil 2026 3 10) (HM 10 0))"
proof -
  obtain sv where sv: "sv \<in> set (projr (getHourlyAvailability sc_avail 10 (Civil 2026 3 10) sc_db_booked))"
    "sv_start sv = HM 9 0" "sv_end sv = HM 10 0" "sv_places sv = SeatPlaces (Some 4) 2 (Some 2)" using sc_nine by blast
  have f: "find_first (\<lambda>a. a_id a = 10) (activities sc_db_booked) = Some sc_hourly"
    "list_all row_ok (bookings sc_db_booked)" "\<not> (a_hasUnits sc_hourly \<and> a_unitCount sc_hourly = 0)"
    "e_now sc_env = av_now sc_avail" "length (active_rows sc_db_booked (av_now sc_avail) 10) \<le> av_dayCap sc_avail"
    "length (active_rows sc_db_booked (av_now sc_avail) 10) \<le> e_dayCap sc_env" by code_simp+
  show ?thesis
    using hourly_view_matches_booking [OF sc_views sv(1) f, of 2] by (simp add: sv Let_def)
qed

section \<open>The units of a stay\<close>

text \<open>For an activity rented by whole units the view of a stay agrees with createBooking too: a unit is offered to
  a party, in a window no block touches, exactly when the capacity stage gives it one.\<close>

theorem stay_view_matches_booking:
  assumes "getDailyAvailability env aid ci co None d = Inr (DailyUnits us False)"
    and "find_first (\<lambda>a. a_id a = aid) (activities d) = Some a" "0 < a_unitCount a"
    and "list_all row_ok (bookings d)" "e_now benv = av_now env"
    and "length (active_rows d (av_now env) aid) \<le> e_dayCap benv" "1 \<le> g"
  shows "let s = buildDatetime ci (or_default default_check_in (a_checkIn a));
             e = buildDatetime co (or_default default_check_out (a_checkOut a)) in
    room_for a g (window_bookings benv d aid s e) s e \<longleftrightarrow> (\<exists>u \<in> set us. g \<le> uv_available u)"
proof -
  let ?s = "buildDatetime ci (or_default default_check_in (a_checkIn a))"
    and ?e = "buildDatetime co (or_default default_check_out (a_checkOut a))"
  let ?R = "active_overlapping env d aid ?s ?e"
  note w = stay_window(1) [OF assms(1,2)] stay_window(2) [OF assms(1,2) refl]
  have whole: "rentsWholeUnit a" using w by (simp add: rentsWholeUnit_def)
  have ok: "list_all row_ok ?R" using active_rows_ok [OF assms(4)] by (simp add: active_overlapping_eq)
  have "filter (overlaps ?s ?e) ?R = ?R" by (simp add: active_overlapping_eq)
  from stay_units_iff [OF ok this assms(7) whole assms(3)] w(2) stay_rows [OF assms(6,5)]
  show ?thesis by (simp add: Let_def)
qed

definition sc_stay_view :: daily_view where
  "sc_stay_view = DailyUnits [\<lparr>uv_number = 1, uv_capacity = 4, uv_booked = 2, uv_available = 0\<rparr>,
     \<lparr>uv_number = 2, uv_capacity = 4, uv_booked = 0, uv_available = 4\<rparr>] False"

lemma sc_stay_view_result:
  "getDailyAvailability sc_avail 11 (Civil 2026 3 11) (Civil 2026 3 13) None stay_db = Inr sc_stay_view"
  by code_simp

theorem stay_view_matches_booking_witness:
  "let s = buildDatetime (Civil 2026 3 11) (HM 15 0); e = buildDatetime (Civil 2026 3 13) (HM 12 0) in
    room_for sc_daily 4 (window_bookings sc_env stay_db 11 s e) s e"
proof -
  have f: "find_first (\<lambda>a. a_id a = 11) (activities stay_db) = Some sc_daily" "0 < a_unitCount sc_daily"
    "list_all row_ok (bookings stay_db)" "e_now sc_env = av_now sc_avail"
    "length (active_rows stay_db (av_now sc_avail) 11) \<le> e_dayCap sc_env" by code_simp+
  have "a_checkIn sc_daily = Some (HM 15 0)" "a_checkOut sc_daily = Some (HM 12 0)" by code_simp+
  then show ?thesis
    using stay_view_matches_booking [OF sc_stay_view_result [unfolded sc_stay_view_def] f, of 4]
    by (simp add: or_default_def)
qed

text \<open>For an activity sold by seats the view of a stay never promises more than createBooking accepts. (It may
  promise less: it adds up the guests of all bookings that touch the stay, createBooking takes the peak.)\<close>

theorem seat_view_is_safe:
  assumes "getDailyAvailability env aid ci co None d = Inr (DailySeats cap booked av False)"
    and "find_first (\<lambda>a. a_id a = aid) (activities d) = Some a"
    and "list_all row_ok (bookings d)" "e_now benv = av_now env"
    and "length (active_rows d (av_now env) aid) \<le> e_dayCap benv" "1 \<le> g" "offers (SeatPlaces cap booked av) g"
  shows "let s = buildDatetime ci (or_default default_check_in (a_checkIn a));
             e = buildDatetime co (or_default default_check_out (a_checkOut a)) in
    room_for a g (window_bookings benv d aid s e) s e"
proof -
  let ?s = "buildDatetime ci (or_default default_check_in (a_checkIn a))"
    and ?e = "buildDatetime co (or_default default_check_out (a_checkOut a))"
  let ?R = "active_overlapping env d aid ?s ?e"
  note w = stay_window(3) [OF assms(1,2) refl]
  have ok: "list_all nonneg_guests ?R"
    using rows_nonneg [OF active_rows_ok [OF assms(3)]] by (simp add: active_overlapping_eq)
  have "room_for a g ?R ?s ?e"
    using w assms(6,7) peak_le_guests [OF ok, of ?s ?e] by (auto simp: room_seats split: option.splits)
  then show ?thesis using stay_rows [OF assms(5,4)] by (simp add: Let_def)
qed

text \<open>A day activity for six, two parties of three in successive nights.\<close>

definition sc_camp :: activity where
  "sc_camp = sc_daily\<lparr>a_id := 15, a_hasUnits := False, a_unitCount := 0, a_capacity := Some 6\<rparr>"

definition sc_camp_db :: db where
  "sc_camp_db = sc_db\<lparr>activities := [sc_camp],
     bookings := [stay_booking\<lparr>b_id := 500, b_activityId := 15, b_unit := None, b_guests := 3,
         b_start := buildDatetime (Civil 2026 3 10) (HM 15 0), b_end := buildDatetime (Civil 2026 3 11) (HM 12 0)\<rparr>,
       stay_booking\<lparr>b_id := 501, b_activityId := 15, b_unit := None, b_guests := 3,
         b_start := buildDatetime (Civil 2026 3 11) (HM 15 0), b_end := buildDatetime (Civil 2026 3 12) (HM 12 0)\<rparr>]\<rparr>"

theorem seat_view_is_safe_witness:
  "let s = buildDatetime (Civil 2026 3 11) (HM 15 0); e = buildDatetime (Civil 2026 3 12) (HM 12 0) in
    room_for sc_camp 3 (window_bookings sc_env sc_camp_db 15 s e) s e"
proof -
  have v: "getDailyAvailability sc_avail 15 (Civil 2026 3 11) (Civil 2026 3 12) None sc_camp_db =
      Inr (DailySeats (Some 6) 3 (Some 3) False)" by code_simp
  have f: "find_first (\<lambda>a. a_id a = 15) (activities sc_camp_db) = Some sc_camp"
    "list_all row_ok (bookings sc_camp_db)" "e_now sc_env = av_now sc_avail"
    "length (active_rows sc_camp_db (av_now sc_avail) 15) \<le> e_dayCap sc_env" by code_simp+
  have "a_checkIn sc_camp = Some (HM 15 0)" "a_checkOut sc_camp = Some (HM 12 0)" by code_simp+
  then show ?thesis using seat_view_is_safe [OF v f, of 3] by (simp add: or_default_def)
qed

text \<open>The two nights together: the view offers nothing, createBooking accepts three guests.\<close>

lemma seat_view_underreports:
  "getDailyAvailability sc_avail 15 (Civil 2026 3 10) (Civil 2026 3 12) None sc_camp_db =
     Inr (DailySeats (Some 6) 6 (Some 0) False)"
  "let s = buildDatetime (Civil 2026 3 10) (HM 15 0); e = buildDatetime (Civil 2026 3 12) (HM 12 0) in
    room_for sc_camp 3 (window_bookings sc_env sc_camp_db 15 s e) s e"
  by code_simp+

section \<open>The nights of a month\<close>

lemma occupied_mem [availability]: "u \<in> set (occupied_units bs) \<longleftrightarrow> filter (in_unit u) bs \<noteq> []"
  by (force simp: occupied_units_def filter_empty_conv in_unit_def split: option.splits)

lemma units_in_use_iff [availability]:
  assumes "list_all (\<lambda>b. pred_option (\<lambda>u. u \<in> set (unit_numbers a)) (b_unit b)) bs"
  shows "units_in_use bs < a_unitCount a \<longleftrightarrow>
    length (without_unit bs) < length (filter (\<lambda>u. filter (in_unit u) bs = []) (unit_numbers a))"
proof -
  let ?taken = "filter (\<lambda>u. filter (in_unit u) bs \<noteq> []) (unit_numbers a)"
  have "u \<in> set (unit_numbers a)" if "filter (in_unit u) bs \<noteq> []" for u
    using that assms by (auto simp: filter_empty_conv in_unit_def list_all_iff)
  then have "set (occupied_units bs) = set ?taken" by (auto simp: occupied_mem)
  moreover have "distinct (occupied_units bs)" "distinct ?taken" by (simp_all add: occupied_units_def unit_numbers_def)
  ultimately have "length (occupied_units bs) = length ?taken" by (metis distinct_card)
  moreover have "length (filter (\<lambda>u. filter (in_unit u) bs = []) (unit_numbers a)) + length ?taken = a_unitCount a"
    using sum_length_filter_compl [of "\<lambda>u. filter (in_unit u) bs = []" "unit_numbers a"] by (simp add: unit_numbers_def)
  ultimately show ?thesis by (auto simp: units_in_use_def)
qed

definition night_start :: "activity \<Rightarrow> civil \<Rightarrow> ms" where
  "night_start a date = buildDatetime date (or_default default_check_in (a_checkIn a))"

definition night_end :: "activity \<Rightarrow> civil \<Rightarrow> ms" where
  "night_end a date = buildDatetime (civil_of_day (day_of_civil date + 1)) (or_default default_check_out (a_checkOut a))"

lemma day_whole_units [availability]:
  assumes whole: "rentsWholeUnit a" "a_bookingType a = DAILY" "0 < a_unitCount a" "1 \<le> a_unitCapacity a"
    and rng: "list_all (\<lambda>b. pred_option (\<lambda>u. u \<in> set (unit_numbers a)) (b_unit b)) rows"
    and unblocked: "\<not> dv_isFullyBlocked (day_of_month env tz a None rows bls sp date)"
  shows "\<not> dv_isFullyBooked (day_of_month env tz a None rows bls sp date) \<longleftrightarrow>
    room_for a 1 (filter (overlaps (night_start a date) (night_end a date)) rows) (night_start a date) (night_end a date)"
proof -
  let ?s = "night_start a date" and ?e = "night_end a date"
  let ?R = "filter (overlaps ?s ?e) rows"
  have "dv_isFullyBooked (day_of_month env tz a None rows bls sp date) \<longleftrightarrow>
      int (a_unitCount a - min (a_unitCount a) (units_in_use ?R)) = 0"
    using whole(1,2) unblocked
    by (simp add: day_of_month_def Let_def day_places_def fully_booked_def night_start_def night_end_def)
  then have "\<not> dv_isFullyBooked (day_of_month env tz a None rows bls sp date) \<longleftrightarrow> units_in_use ?R < a_unitCount a"
    by auto
  also have "\<dots> \<longleftrightarrow> length (without_unit ?R) < length (filter (\<lambda>u. filter (in_unit u) ?R = []) (unit_numbers a))"
    by (rule units_in_use_iff) (use rng in simp)
  finally show ?thesis
    using whole(4) room_whole_units [OF whole(1,3), of 1 ?R ?s ?e]
    by (simp add: unassigned_is_without_unit)
qed

lemma month_frame [availability]:
  assumes "1 \<le> m" "m \<le> 12" "2000 \<le> y"
  shows "cd (civil_of_day (utc_day y m 0)) = days_in_month y m"
    and "utc_day y (m - 1) k = day_of_civil (Civil y m 1) + (k - 1)"
    and "day_of_civil (Civil y m k) = day_of_civil (Civil y m 1) + (k - 1)"
proof -
  show "day_of_civil (Civil y m k) = day_of_civil (Civil y m 1) + (k - 1)"
    by (simp add: day_of_civil_def make_day_def Let_def)
  show "utc_day y (m - 1) k = day_of_civil (Civil y m 1) + (k - 1)"
    using assms(3) by (simp add: utc_day_def day_of_civil_def make_day_def Let_def)
  have "utc_day y m 0 = day_of_civil (Civil y m (days_in_month y m))"
    using assms last_day_of_month [OF assms(1,2), of y] by (simp add: utc_day_def day_of_civil_def)
  then show "cd (civil_of_day (utc_day y m 0)) = days_in_month y m"
    using assms days_in_month_pos(1) [of y m] civil_of_day_of_civil [of "Civil y m (days_in_month y m)"]
    by (simp add: valid_civil_def)
qed

lemma month_parts_Some [availability]:
  "month_parts month = Some (y, m) \<Longrightarrow> 1 \<le> m \<and> m \<le> 12 \<and> 2000 \<le> y \<and> y \<le> 2100"
  by (auto simp: month_parts_def split: list.splits option.splits if_splits)

lemma night_in_month [availability]:
  assumes ym: "1 \<le> m" "m \<le> 12" "2000 \<le> y" and k: "1 \<le> k" "k < days_in_month y m"
    and hm: "pred_option valid_hm (a_checkIn a)" "pred_option valid_hm (a_checkOut a)"
  shows "utc_day y (m - 1) 1 * day_ms \<le> night_start a (Civil y m k)"
    "night_end a (Civil y m k) \<le> utc_day y (m - 1) (days_in_month y m) * day_ms + (day_ms - 1000)"
proof -
  have v: "valid_hm (or_default default_check_in (a_checkIn a))" "valid_hm (or_default default_check_out (a_checkOut a))"
    using hm by (auto simp: or_default_def default_check_in_def default_check_out_def valid_hm_def split: option.splits)
  then have t: "0 \<le> toMinutes (or_default default_check_in (a_checkIn a))" "toMinutes (or_default default_check_out (a_checkOut a)) \<le> 1439"
    by (auto simp: valid_hm_def toMinutes_def)
  show "utc_day y (m - 1) 1 * day_ms \<le> night_start a (Civil y m k)"
    using t(1) k(1) by (simp add: night_start_def buildDatetime_def month_frame(2,3) [OF ym, of k] month_frame(2) [OF ym] day_ms_def minute_ms_def)
  have "day_of_civil (civil_of_day (day_of_civil (Civil y m k) + 1)) = day_of_civil (Civil y m k) + 1"
    by (rule day_of_civil_of_day)
  then show "night_end a (Civil y m k) \<le> utc_day y (m - 1) (days_in_month y m) * day_ms + (day_ms - 1000)"
    using t(2) k(2) by (simp add: night_end_def buildDatetime_def month_frame(3) [OF ym, of k] month_frame(2) [OF ym] day_ms_def minute_ms_def)
qed

text \<open>The calendar shows a night of an activity rented by whole units as fully booked exactly when createBooking
  has no unit left for it, on every day of the month but the last (whose night ends outside the rows read).\<close>

theorem calendar_night_matches_booking:
  assumes "month_parts month = Some (y, m)" "dv \<in> set (month_days env a y m None d)" "dv_date dv \<noteq> Civil y m (days_in_month y m)"
    and "a_bookingType a = DAILY" "a_hasUnits a" "0 < a_unitCount a" "1 \<le> a_unitCapacity a"
    and "pred_option valid_hm (a_checkIn a)" "pred_option valid_hm (a_checkOut a)"
    and "list_all (\<lambda>b. pred_option (\<lambda>u. u \<in> set (unit_numbers a)) (b_unit b)) (active_rows d (av_now env) (a_id a))"
    and "length (active_rows d (av_now env) (a_id a)) \<le> av_monthCap env"
      "length (active_rows d (av_now env) (a_id a)) \<le> e_dayCap benv" "e_now benv = av_now env"
    and "\<not> dv_isFullyBlocked dv"
  shows "\<not> dv_isFullyBooked dv \<longleftrightarrow>
    room_for a 1 (window_bookings benv d (a_id a) (night_start a (dv_date dv)) (night_end a (dv_date dv)))
      (night_start a (dv_date dv)) (night_end a (dv_date dv))"
proof -
  note ym = month_parts_Some [OF assms(1)]
  then have ym': "1 \<le> m" "m \<le> 12" "2000 \<le> y" by auto
  let ?ms = "utc_day y (m - 1) 1 * day_ms" and ?me = "utc_day y (m - 1) (days_in_month y m) * day_ms + (day_ms - 1000)"
  let ?A = "active_rows d (av_now env) (a_id a)" and ?rows = "month_bookings env d (a_id a) None
    (utc_day y (m - 1) 1 * day_ms) (utc_day y (m - 1) (days_in_month y m) * day_ms + (day_ms - 1000))"
  obtain k bls sp where k: "1 \<le> k" "k \<le> days_in_month y m"
    "dv = day_of_month env (zone_of d a) a None ?rows bls sp (Civil y m k)"
    using assms(2) by (auto simp: month_days_def Let_def month_frame(1) [OF ym'])
  have date: "dv_date dv = Civil y m k" by (simp add: k(3) day_of_month_def Let_def split: prod.splits)
  then have lt: "k < days_in_month y m" using assms(3) k(2) by auto
  have "?rows = filter (\<lambda>b. b_start b \<le> ?me \<and> ?ms \<le> b_end b) ?A"
    using assms(11) le_trans [OF length_filter_le assms(11)]
    by (simp add: month_bookings_def find_many_def active_rows_def conj_assoc)
  then have rows: "filter (overlaps (night_start a (Civil y m k)) (night_end a (Civil y m k))) ?rows =
      filter (overlaps (night_start a (Civil y m k)) (night_end a (Civil y m k))) ?A"
    "list_all (\<lambda>b. pred_option (\<lambda>u. u \<in> set (unit_numbers a)) (b_unit b)) ?rows"
    using night_in_month [OF ym' k(1) lt assms(8,9)] assms(10) by (auto simp: overlaps_def list_all_iff intro!: filter_cong)
  have whole: "rentsWholeUnit a" using assms(4,5) by (simp add: rentsWholeUnit_def)
  have "\<not> dv_isFullyBooked dv \<longleftrightarrow> room_for a 1 (filter (overlaps (night_start a (Civil y m k)) (night_end a (Civil y m k))) ?A)
      (night_start a (Civil y m k)) (night_end a (Civil y m k))"
    using day_whole_units [OF whole assms(4,6,7) rows(2) assms(14) [unfolded k(3)]] unfolding k(3) rows(1) .
  moreover have "window_bookings benv d (a_id a) s e = filter (overlaps s e) ?A" for s e
    using stay_rows [OF assms(12,13)] by (simp add: active_overlapping_eq)
  ultimately show ?thesis by (simp add: date)
qed

text \<open>One day of the view.\<close>

lemma month_days_nth [availability]:
  assumes "1 \<le> m" "m \<le> 12" "2000 \<le> y" "int i < days_in_month y m"
  shows "i < length (month_days env a y m un d)"
    and "month_days env a y m un d ! i =
      (let monthStart = utc_day y (m - 1) 1 * day_ms;
           monthEnd = utc_day y (m - 1) (days_in_month y m) * day_ms + (day_ms - 1000)
       in day_of_month env (zone_of d a) a un (month_bookings env d (a_id a) un monthStart monthEnd)
            (getBlocksInWindow d (a_id a) monthStart monthEnd)
            (special_by_date (find_many (\<lambda>s. sp_activityId s = a_id a \<and> sp_deletedAt s = None \<and>
              monthStart \<le> midnight (sp_date s) \<and> midnight (sp_date s) \<le> monthEnd) (specials d)))
            (Civil y m (1 + int i)))"
  using assms(4) unfolding month_days_def Let_def month_frame(1) [OF assms(1-3)] by simp_all

definition sc_march :: day_view where
  "sc_march = month_days sc_avail sc_daily 2026 3 None stay_db ! 9"

lemma sc_march_day: "dv_date sc_march = Civil 2026 3 10" "\<not> dv_isFullyBlocked sc_march" "\<not> dv_isFullyBooked sc_march"
  "sc_march \<in> set (month_days sc_avail sc_daily 2026 3 None stay_db)"
proof -
  have i: "1 \<le> (3::int)" "(3::int) \<le> 12" "2000 \<le> (2026::int)" "int 9 < days_in_month 2026 3"
    by (simp_all add: days_in_month_def)
  have m: "sc_march = day_of_month sc_avail (zone_of stay_db sc_daily) sc_daily None
      (month_bookings sc_avail stay_db (a_id sc_daily) None (utc_day 2026 2 1 * day_ms) (utc_day 2026 2 31 * day_ms + (day_ms - 1000)))
      (getBlocksInWindow stay_db (a_id sc_daily) (utc_day 2026 2 1 * day_ms) (utc_day 2026 2 31 * day_ms + (day_ms - 1000)))
      (special_by_date (find_many (\<lambda>s. sp_activityId s = a_id sc_daily \<and> sp_deletedAt s = None \<and>
        utc_day 2026 2 1 * day_ms \<le> midnight (sp_date s) \<and> midnight (sp_date s) \<le> utc_day 2026 2 31 * day_ms + (day_ms - 1000))
        (specials stay_db))) (Civil 2026 3 10)"
    using month_days_nth(2) [OF i] by (simp add: sc_march_def Let_def days_in_month_def)
  have r: "month_bookings sc_avail stay_db (a_id sc_daily) None (utc_day 2026 2 1 * day_ms) (utc_day 2026 2 31 * day_ms + (day_ms - 1000)) = [stay_booking]"
    "getBlocksInWindow stay_db (a_id sc_daily) (utc_day 2026 2 1 * day_ms) (utc_day 2026 2 31 * day_ms + (day_ms - 1000)) = []"
    by code_simp+
  let ?s = "night_start sc_daily (Civil 2026 3 10)" and ?e = "night_end sc_daily (Civil 2026 3 10)"
  have p: "day_places sc_daily None (filter (overlaps ?s ?e) [stay_booking]) ?s ?e = (Some 2, 1, Some 1)" by code_simp
  have t: "a_bookingType sc_daily = DAILY" by code_simp
  have d: "dv_date (day_of_month sc_avail tz sc_daily None [stay_booking] [] sp (Civil 2026 3 10)) = Civil 2026 3 10"
    "\<not> dv_isFullyBlocked (day_of_month sc_avail tz sc_daily None [stay_booking] [] sp (Civil 2026 3 10))"
    "\<not> dv_isFullyBooked (day_of_month sc_avail tz sc_daily None [stay_booking] [] sp (Civil 2026 3 10))" for tz sp
    unfolding day_of_month_def Let_def night_start_def [symmetric] night_end_def [symmetric] p
    by (simp_all add: fully_booked_def t)
  show "dv_date sc_march = Civil 2026 3 10" "\<not> dv_isFullyBlocked sc_march" "\<not> dv_isFullyBooked sc_march"
    unfolding m r by (rule d)+
  show "sc_march \<in> set (month_days sc_avail sc_daily 2026 3 None stay_db)"
    unfolding sc_march_def using month_days_nth(1) [OF i] by (rule nth_mem)
qed

theorem calendar_night_matches_booking_witness:
  "room_for sc_daily 1 (window_bookings sc_env stay_db (a_id sc_daily) (night_start sc_daily (dv_date sc_march)) (night_end sc_daily (dv_date sc_march)))
     (night_start sc_daily (dv_date sc_march)) (night_end sc_daily (dv_date sc_march))"
proof -
  have rows: "active_rows stay_db (av_now sc_avail) (a_id sc_daily) = [stay_booking]" "b_unit stay_booking = Some 1"
    "1 \<in> set (unit_numbers sc_daily)" by code_simp+
  have f: "month_parts ''2026-03'' = Some (2026, 3)" "a_bookingType sc_daily = DAILY" "a_hasUnits sc_daily"
    "0 < a_unitCount sc_daily" "1 \<le> a_unitCapacity sc_daily" by code_simp+
  have h: "pred_option valid_hm (a_checkIn sc_daily)" "pred_option valid_hm (a_checkOut sc_daily)"
    by (simp_all add: sc_daily_def sc_hourly_def valid_hm_def)
  have l: "list_all (\<lambda>b. pred_option (\<lambda>u. u \<in> set (unit_numbers sc_daily)) (b_unit b)) (active_rows stay_db (av_now sc_avail) (a_id sc_daily))"
    "length (active_rows stay_db (av_now sc_avail) (a_id sc_daily)) \<le> av_monthCap sc_avail"
    "length (active_rows stay_db (av_now sc_avail) (a_id sc_daily)) \<le> e_dayCap sc_env" "e_now sc_env = av_now sc_avail"
    unfolding rows(1) by (simp_all add: rows(2) rows(3) [simplified] sc_avail_def sc_env_def)
  have "dv_date sc_march \<noteq> Civil 2026 3 (days_in_month 2026 3)" using sc_march_day(1) by (simp add: days_in_month_def)
  from calendar_night_matches_booking [OF f(1) sc_march_day(4) this f(2-5) h l sc_march_day(2)] sc_march_day(3)
  show ?thesis by blast
qed

text \<open>
  The window of a day runs to the check-out hour of the next day, also for an activity by the hour: the
  calendar counts tomorrow's bookings as today's. Here 9 March is empty and 10 March sold out at nine.
\<close>

lemma hourly_day_counts_tomorrow:
  "let rows = [sc_booking\<lparr>b_guests := 4\<rparr>]; s = night_start sc_hourly (Civil 2026 3 9); e = night_end sc_hourly (Civil 2026 3 9) in
     day_places sc_hourly None (filter (overlaps s e) rows) s e = (Some 4, 4, Some 0) \<and>
     filter (overlaps (midnight (Civil 2026 3 9)) (midnight (Civil 2026 3 10))) rows = [] \<and>
     \<not> fully_booked sc_hourly None (Some 4) (Some 0) (filter (overlaps s e) rows) (Civil 2026 3 9)"
  by code_simp

section \<open>The cache of the calendar\<close>

text \<open>Once an activity is invalidated no view cached before is served: as long as nobody invalidates again while
  it works, the next call computes the calendar from the database it reads.\<close>

theorem invalidation_hides_older_views:
  assumes "\<And>k. k \<in> dom (ac_data c) \<Longrightarrow> fst (snd k) \<le> ac_version c (fst k)"
    and "ce_enabled cenv" "ce_up cenv" "month_parts month = Some (y, m)" "available_activity d aid = Inr a"
  shows "fst (getCalendarAvailability env cenv' meanwhile aid month un d (invalidate cenv aid c)) = Inr (month_days env a y m un d)"
proof -
  have "(aid, Suc (ac_version c aid), month, un) \<notin> dom (ac_data c)" using assms(1) by force
  then have none: "ac_data c (aid, Suc (ac_version c aid), month, un) = None" by blast
  have "cache_get cenv' now (invalidate cenv aid c) aid month un = None" for now
    using assms(2,3) by (simp add: cache_get_def invalidate_def dataKey_def none)
  then show ?thesis using assms(4,5) by (simp add: getCalendarAvailability_def Let_def)
qed

definition sc_cache_env :: "day_view list cache_env" where
  "sc_cache_env = \<lparr>ce_enabled = True, ce_ttlSec = 180, ce_fits = (\<lambda>_. True), ce_up = True\<rparr>"

text \<open>A cache that holds an outdated view of March.\<close>

definition sc_cache :: "day_view list avail_cache" where
  "sc_cache = \<lparr>ac_version = (\<lambda>_. 0), ac_data = [(11, 0, ''2026-03'', None) \<mapsto> ([], sc_now + 180000)]\<rparr>"

theorem invalidation_hides_older_views_witness:
  "fst (getCalendarAvailability sc_avail sc_cache_env id 11 ''2026-03'' None stay_db (invalidate sc_cache_env 11 sc_cache)) =
     Inr (month_days sc_avail sc_daily 2026 3 None stay_db)"
proof (rule invalidation_hides_older_views)
  show "fst (snd k) \<le> ac_version sc_cache (fst k)" if "k \<in> dom (ac_data sc_cache)" for k
    using that by (simp add: sc_cache_def)
  show "ce_enabled sc_cache_env" "ce_up sc_cache_env" by (simp_all add: sc_cache_env_def)
  show "month_parts ''2026-03'' = Some (2026, 3)" "available_activity stay_db 11 = Inr sc_daily" by code_simp+
qed

text \<open>A calendar call that an invalidation overtakes writes the view it computed before under the new version:
  until it expires every later call serves it, whatever the database holds by then.\<close>

theorem overtaken_view_is_served:
  assumes "getCalendarAvailability env cenv (invalidate cenv aid) aid month un d c = (Inr days, c1)"
    and "cache_get cenv (av_now env) c aid month un = None"
    and "ce_enabled cenv" "ce_up cenv" "isSafe month un" "ce_fits cenv days"
    and "available_activity d' aid = Inr a'" "av_now env' < av_now env + ce_ttlSec cenv * 1000"
  shows "getCalendarAvailability env' cenv meanwhile' aid month un d' c1 = (Inr days, c1)"
proof -
  obtain y m where ym: "month_parts month = Some (y, m)"
    using assms(5) by (auto simp: isSafe_def cacheable_month_def)
  have c1: "c1 = cache_set cenv (av_now env) aid month days un (invalidate cenv aid c)"
    using assms(1,2) ym by (auto simp: getCalendarAvailability_def Let_def split: sum.splits)
  have "cache_get cenv (av_now env') c1 aid month un = Some days"
    using assms(3-6,8) by (simp add: c1 cache_get_def cache_set_def dataKey_def)
  then show ?thesis using assms(7) ym by (simp add: getCalendarAvailability_def)
qed

text \<open>The room is booked while the calendar is computed; the next caller still sees the empty month.\<close>

theorem overtaken_view_is_served_witness:
  "getCalendarAvailability sc_avail sc_cache_env id 11 ''2026-03'' None stay_db
     (snd (getCalendarAvailability sc_avail sc_cache_env (invalidate sc_cache_env 11) 11 ''2026-03'' None sc_db
        \<lparr>ac_version = (\<lambda>_. 0), ac_data = (\<lambda>_. None)\<rparr>)) =
   (Inr (month_days sc_avail sc_daily 2026 3 None sc_db),
    snd (getCalendarAvailability sc_avail sc_cache_env (invalidate sc_cache_env 11) 11 ''2026-03'' None sc_db
        \<lparr>ac_version = (\<lambda>_. 0), ac_data = (\<lambda>_. None)\<rparr>))"
proof (rule overtaken_view_is_served)
  let ?c = "\<lparr>ac_version = (\<lambda>_. 0), ac_data = (\<lambda>_. None)\<rparr> :: day_view list avail_cache"
  have a: "available_activity sc_db 11 = Inr sc_daily" "month_parts ''2026-03'' = Some (2026, 3)" by code_simp+
  show miss: "cache_get sc_cache_env (av_now sc_avail) ?c 11 ''2026-03'' None = None" by (simp add: cache_get_def)
  show "getCalendarAvailability sc_avail sc_cache_env (invalidate sc_cache_env 11) 11 ''2026-03'' None sc_db ?c =
      (Inr (month_days sc_avail sc_daily 2026 3 None sc_db),
       snd (getCalendarAvailability sc_avail sc_cache_env (invalidate sc_cache_env 11) 11 ''2026-03'' None sc_db ?c))"
    using miss a by (simp add: getCalendarAvailability_def Let_def)
  show "available_activity stay_db 11 = Inr sc_daily" "isSafe ''2026-03'' None" by code_simp+
qed (simp_all add: sc_cache_env_def sc_avail_def)

end
