(* ===== verification/StatusChange.thy ===== *)
theory StatusChange
  imports Payouts
begin

text \<open>
  Status changes by staff: \<open>updateBookingStatus\<close> of \<open>admin.service.ts\<close> and of \<open>vendor.service.ts\<close>,
  and what happens to the bookings of an activity that is taken off the catalogue
  (\<open>updateActivityStatus\<close>, \<open>updateVendorStatus\<close>, \<open>cascadeCancelFutureBookings\<close>, the bulk updates and
  \<open>toggleActivityStatus\<close>).
\<close>

named_theorems staffing \<open>facts about status changes by staff\<close>

section \<open>Who acts\<close>

record staff_env =
  st_now :: ms
  st_tz :: tzdb

text \<open>
  The two services run the same steps and record different actors: the admin's ledger rows carry no
  actor id, the vendor's carry the user's.
\<close>

record staff =
  sf_actor :: actor
  sf_userId :: uid
  sf_ledgerId :: "uid option"
  sf_source :: ledger_source

definition as_admin :: "uid \<Rightarrow> staff" where
  "as_admin u = \<lparr>sf_actor = ADMIN, sf_userId = u, sf_ledgerId = None, sf_source = ADMIN_REFUND_APPROVED\<rparr>"

definition as_vendor :: "uid \<Rightarrow> staff" where
  "as_vendor u = \<lparr>sf_actor = VENDOR, sf_userId = u, sf_ledgerId = Some u, sf_source = VENDOR_REFUND_APPROVED\<rparr>"

section \<open>Cancelling in full\<close>

definition staff_stamp :: "staff_env \<Rightarrow> staff \<Rightarrow> booking \<Rightarrow> booking" where
  "staff_stamp env st b = (cancelled_by (st_now env) (sf_actor st) b)
     \<lparr>b_decisionAt := Some (st_now env), b_decisionBy := Some (sf_userId st), b_decisionActor := Some (sf_actor st)\<rparr>"

text \<open>The claim: \<open>updateMany\<close> over the booking unless it is cancelled; \<open>None\<close> when no row was changed.\<close>

definition claim_cancel :: "staff_env \<Rightarrow> staff \<Rightarrow> uid \<Rightarrow> db \<Rightarrow> db option" where
  "claim_cancel env st bid tx =
     (let sel = (\<lambda>b. b_id b = bid \<and> b_status b \<noteq> CANCELLED) in
      if count_rows sel (bookings tx) = 0 then None
      else Some (tx\<lparr>bookings := update_many sel (staff_stamp env st) (bookings tx)\<rparr>))"

text \<open>\<open>Math.round((paidAmount / qarPerPoint) * 100) / 100\<close>, or nothing when points are worth nothing.\<close>

definition whole_refund :: "num \<Rightarrow> num \<Rightarrow> num" where
  "whole_refund paidAmount qarPerPoint = (if qarPerPoint > 0 then cents (paidAmount / qarPerPoint) else 0)"

definition refunded_whole :: "ms \<Rightarrow> payment \<Rightarrow> payment" where
  "refunded_whole now p = p\<lparr>p_status := REFUNDED, p_refundAmount := Some (p_amount p), p_refundedAt := Some now\<rparr>"

text \<open>A captured payment is refunded as points; \<open>Some\<close> amount when the vendor was already paid for it.\<close>

definition refund_captured :: "staff_env \<Rightarrow> staff \<Rightarrow> booking \<Rightarrow> payment \<Rightarrow> db \<Rightarrow> exn + (num option \<times> db)" where
  "refund_captured env st b p tx =
     (let tx1 = tx\<lparr>payments := update_many (\<lambda>r. p_id r = p_id p) (refunded_whole (st_now env)) (payments tx)\<rparr>;
          clawback = (if p_payoutStatus p = PAID then Some (p_amount p) else None);
          (cfg, tx2) = load_loyalty_config tx1;
          refundPoints = whole_refund (p_amount p) (lc_qarPerPoint cfg)
      in if refundPoints > 0
         then and_then (refund tx2 (b_customerId b) refundPoints (b_id b) (sf_source st) (sf_actor st) (sf_ledgerId st))
                (\<lambda>(_, tx3). Inr (clawback, tx3))
         else Inr (clawback, tx2))"

definition settle_payment :: "staff_env \<Rightarrow> staff \<Rightarrow> booking \<Rightarrow> payment \<Rightarrow> db \<Rightarrow> exn + (num option \<times> db)" where
  "settle_payment env st b p tx =
     (if p_status p = SUCCESS then refund_captured env st b p tx
      else if p_status p = PAY_PENDING
        then and_then (flip_payment (p_id p) PAY_PENDING (\<lambda>r. r\<lparr>p_status := FAILED\<rparr>) StateChanged tx)
               (\<lambda>tx1. Inr (None, tx1))
      else Inr (None, tx))"

definition return_redeemed :: "staff \<Rightarrow> booking \<Rightarrow> db \<Rightarrow> exn + db" where
  "return_redeemed st b tx =
     (if b_pointsRedeemed b > 0
      then and_then (refund tx (b_customerId b) (b_pointsRedeemed b) (b_id b) CANCEL_REFUND_PAID (sf_actor st)
             (sf_ledgerId st)) (\<lambda>(_, tx1). Inr tx1)
      else Inr tx)"

definition reverse_award :: "staff \<Rightarrow> booking \<Rightarrow> db \<Rightarrow> exn + db" where
  "reverse_award st b tx =
     (let awardedPoints = getEarnedPoints tx (b_id b) in
      if b_pointsAwarded b \<and> awardedPoints > 0
      then and_then (reverseAwarded tx (b_customerId b) awardedPoints (b_id b) (sf_actor st) (sf_ledgerId st))
             (\<lambda>(_, tx1). update_booking_or_throw (b_id b) (\<lambda>r. r\<lparr>b_pointsAwarded := False\<rparr>) tx1)
      else Inr tx)"

definition settle_cancelled :: "staff_env \<Rightarrow> staff \<Rightarrow> booking \<Rightarrow> payment \<Rightarrow> db \<Rightarrow> exn + (num option \<times> db)" where
  "settle_cancelled env st b p tx =
     and_then (settle_payment env st b p tx) (\<lambda>(clawback, tx1).
     and_then (return_redeemed st b tx1) (\<lambda>tx2.
     and_then (reverse_award st b tx2) (\<lambda>tx3. Inr (clawback, tx3))))"

text \<open>What the transaction hands to the code after it: the row, whether this call cancelled it, the clawback.\<close>

record staff_result =
  sr_booking :: booking
  sr_cancelledNow :: bool
  sr_clawback :: "num option"

definition current_row :: "uid \<Rightarrow> db \<Rightarrow> exn + booking" where
  "current_row bid tx =
     (case find_first (\<lambda>b. b_id b = bid) (bookings tx) of
        None \<Rightarrow> Inl (NotFound BookingNotFound) | Some b \<Rightarrow> Inr b)"

definition already_cancelled :: "uid \<Rightarrow> db \<Rightarrow> exn + (staff_result \<times> db)" where
  "already_cancelled bid tx =
     and_then (current_row bid tx) (\<lambda>b.
       Inr (\<lparr>sr_booking = b, sr_cancelledNow = False, sr_clawback = None\<rparr>, tx))"

text \<open>The admin's branch returns the coupon use whether or not there is a payment.\<close>

definition admin_cancel_tx :: "staff_env \<Rightarrow> uid \<Rightarrow> uid \<Rightarrow> db \<Rightarrow> exn + (staff_result \<times> db)" where
  "admin_cancel_tx env adminUserId bid tx =
     (let st = as_admin adminUserId in
      case claim_cancel env st bid tx of
        None \<Rightarrow> already_cancelled bid tx
      | Some tx1 \<Rightarrow>
          and_then (current_row bid tx1) (\<lambda>b.
          and_then (case payment_of tx1 b of
                      None \<Rightarrow> Inr (None, tx1)
                    | Some p \<Rightarrow> settle_cancelled env st b p tx1) (\<lambda>(clawback, tx2).
          Inr (\<lparr>sr_booking = b, sr_cancelledNow = True, sr_clawback = clawback\<rparr>,
               refundCouponUsage tx2 (b_couponCode b) (b_customerId b) (st_now env)))))"

text \<open>
  The vendor's branch first refuses a booking that was paid out, and returns the coupon use only
  with a payment.
\<close>

definition vendor_cancel_tx :: "staff_env \<Rightarrow> uid \<Rightarrow> uid \<Rightarrow> db \<Rightarrow> exn + (staff_result \<times> db)" where
  "vendor_cancel_tx env userId bid tx =
     (let st = as_vendor userId;
          paidOut = Option.bind (find_first (\<lambda>b. b_id b = bid) (bookings tx)) (payment_of tx)
      in if (case paidOut of Some p \<Rightarrow> p_payoutStatus p = PAID | None \<Rightarrow> False) then Inl Forbidden
         else case claim_cancel env st bid tx of
           None \<Rightarrow> already_cancelled bid tx
         | Some tx1 \<Rightarrow>
             and_then (current_row bid tx1) (\<lambda>b.
             and_then (case payment_of tx1 b of
                         None \<Rightarrow> Inr (None, tx1)
                       | Some p \<Rightarrow>
                           and_then (settle_cancelled env st b p tx1) (\<lambda>(clawback, tx2).
                           Inr (clawback, refundCouponUsage tx2 (b_couponCode b) (b_customerId b) (st_now env))))
               (\<lambda>(clawback, tx2).
             Inr (\<lparr>sr_booking = b, sr_cancelledNow = True, sr_clawback = clawback\<rparr>, tx2))))"

section \<open>The other transitions\<close>

text \<open>
  Completion awards points: \<open>b0\<close> is the row read before the transaction, the award is claimed on
  the row inside it. The flag says whether points were earned.
\<close>

definition award_completed :: "booking \<Rightarrow> db \<Rightarrow> exn + (bool \<times> db)" where
  "award_completed b0 tx =
     (if b_pointsAwarded b0 then Inr (False, tx)
      else
        let (cfg, tx1) = load_loyalty_config tx;
            points = computeEarnedPoints (b_totalPrice b0) (b_pointsDiscount b0) (lc_pointsPerQar cfg);
            sel = (\<lambda>b. b_id b = b_id b0 \<and> \<not> b_pointsAwarded b);
            tx2 = tx1\<lparr>bookings := update_many sel (\<lambda>b. b\<lparr>b_pointsAwarded := True\<rparr>) (bookings tx1)\<rparr>
        in if points > 0 then
             if count_rows sel (bookings tx1) = 1
             then and_then (earn tx2 (b_customerId b0) points (b_id b0)) (\<lambda>(_, tx3). Inr (True, tx3))
             else Inr (False, tx2)
           else Inr (False, tx1))"

definition set_status_tx :: "booking_status \<Rightarrow> booking \<Rightarrow> db \<Rightarrow> exn + ((staff_result \<times> bool) \<times> db)" where
  "set_status_tx status b0 tx =
     and_then (update_booking_or_throw (b_id b0) (\<lambda>r. r\<lparr>b_status := status\<rparr>) tx) (\<lambda>tx1.
     and_then (current_row (b_id b0) tx1) (\<lambda>b.
     and_then (if status = COMPLETED then award_completed b0 tx1 else Inr (False, tx1)) (\<lambda>(earned, tx2).
     Inr ((\<lparr>sr_booking = b, sr_cancelledNow = False, sr_clawback = None\<rparr>, earned), tx2))))"

definition status_tx ::
  "(db \<Rightarrow> exn + (staff_result \<times> db)) \<Rightarrow> booking_status \<Rightarrow> booking \<Rightarrow> db \<Rightarrow> exn + ((staff_result \<times> bool) \<times> db)" where
  "status_tx cancel_tx status b0 tx =
     (if status = CANCELLED then and_then (cancel_tx tx) (\<lambda>(r, tx'). Inr ((r, False), tx'))
      else set_status_tx status b0 tx)"

text \<open>After the commit: the customer hears of points earned and of a cancellation, admins of a clawback.\<close>

definition after_status :: "booking \<Rightarrow> staff_result \<times> bool \<Rightarrow> world \<Rightarrow> world" where
  "after_status b0 = (\<lambda>(r, earned) w.
     emit ((if earned then [Notify (b_customerId b0) SYSTEM_NOTICE] else []) @
           (if sr_cancelledNow r then
              [InvalidateAvailability (b_activityId b0), Notify (b_customerId b0) BOOKING_CANCELLED] @
              (if sr_clawback r \<noteq> None then [NotifyAdmins SYSTEM_NOTICE] else [])
            else [])) w)"

definition run_status ::
  "interference \<Rightarrow> booking \<Rightarrow> (db \<Rightarrow> exn + ((staff_result \<times> bool) \<times> db)) \<Rightarrow> world \<Rightarrow> (exn + staff_result) \<times> world" where
  "run_status interfere b0 body w =
     (case transaction body (w\<lparr>w_db := interfere (w_db w)\<rparr>) of
        (Inl ex, w') \<Rightarrow> (Inl ex, w')
      | (Inr r, w') \<Rightarrow> (Inr (fst r), after_status b0 r w'))"

section \<open>updateBookingStatus\<close>

definition captured :: "db \<Rightarrow> booking \<Rightarrow> bool" where
  "captured d b = (case payment_of d b of Some p \<Rightarrow> p_status p = SUCCESS | None \<Rightarrow> False)"

definition admin_updateBookingStatus ::
  "staff_env \<Rightarrow> interference \<Rightarrow> uid \<Rightarrow> uid \<Rightarrow> booking_status \<Rightarrow> world \<Rightarrow> (exn + staff_result) \<times> world" where
  "admin_updateBookingStatus env interfere adminUserId bookingId status w =
     (case find_first (\<lambda>b. b_id b = bookingId) (bookings (w_db w)) of
        None \<Rightarrow> (Inl (NotFound BookingNotFound), w)
      | Some b0 \<Rightarrow>
          if status = CONFIRMED \<and> \<not> captured (w_db w) b0
          then (Inl (BadBooking ConfirmWithoutPayment), w)
          else run_status interfere b0 (status_tx (admin_cancel_tx env adminUserId bookingId) status b0) w)"

definition activity_tz :: "db \<Rightarrow> uid \<Rightarrow> string" where
  "activity_tz d aid =
     (case find_first (\<lambda>a. a_id a = aid) (activities d) of
        None \<Rightarrow> ''UTC''
      | Some a \<Rightarrow> (case find_first (\<lambda>c. co_id c = a_countryId a) (countries d) of
                     None \<Rightarrow> ''UTC'' | Some co \<Rightarrow> co_timezone co))"

definition vendor_updateBookingStatus ::
  "staff_env \<Rightarrow> interference \<Rightarrow> uid \<Rightarrow> uid \<Rightarrow> booking_status \<Rightarrow> world \<Rightarrow> (exn + staff_result) \<times> world" where
  "vendor_updateBookingStatus env interfere userId bookingId newStatus w =
     (case resolveVendor (w_db w) userId of
        Inl ex \<Rightarrow> (Inl ex, w)
      | Inr v \<Rightarrow>
        case find_first (\<lambda>b. b_id b = bookingId \<and> b_vendorId b = v_id v) (bookings (w_db w)) of
          None \<Rightarrow> (Inl (NotFound BookingNotFound), w)
        | Some b0 \<Rightarrow>
            if newStatus \<notin> {CONFIRMED, COMPLETED, CANCELLED} then (Inl Forbidden, w)
            else if newStatus = COMPLETED \<and>
                    b_end b0 > nowInTimezone (st_tz env) (activity_tz (w_db w) (b_activityId b0)) (st_now env)
            then (Inl Forbidden, w)
            else run_status interfere b0 (status_tx (vendor_cancel_tx env userId bookingId) newStatus b0) w)"

end
