(* ===== verification/Cascade.thy ===== *)
theory Cascade
  imports StatusChange
begin

text \<open>
  An activity leaves the catalogue: \<open>updateActivityStatus\<close> and \<open>updateVendorStatus\<close> of
  \<open>admin.service.ts\<close> cancel and refund its future bookings (\<open>cascadeCancelFutureBookings\<close>); the bulk
  updates of the same file and \<open>toggleActivityStatus\<close> of \<open>vendor.service.ts\<close> only write the status.
\<close>

section \<open>One booking\<close>

definition CASCADE_MAX :: nat where
  "CASCADE_MAX = 1000"

definition live :: "booking \<Rightarrow> bool" where
  "live b \<longleftrightarrow> b_status b = PENDING \<or> b_status b = CONFIRMED"

definition cascade_staff :: "uid \<Rightarrow> staff" where
  "cascade_staff u = \<lparr>sf_actor = ADMIN, sf_userId = u, sf_ledgerId = Some u, sf_source = ADMIN_REFUND_APPROVED\<rparr>"

definition refund_note :: "bool \<Rightarrow> string option \<Rightarrow> string" where
  "refund_note blocked adminReason =
     (let base = ''Activity '' @ (if blocked then ''blocked'' else ''deactivated'') @ '' by admin'' in
      case adminReason of
        None \<Rightarrow> base
      | Some s \<Rightarrow> if s = [] then base else base @ '': '' @ utf16_take 500 s)"

text \<open>\<open>payment.update\<close> throws when the row is gone.\<close>

definition update_payment_or_throw :: "uid \<Rightarrow> (payment \<Rightarrow> payment) \<Rightarrow> db \<Rightarrow> exn + db" where
  "update_payment_or_throw pid f d =
     (if find_first (\<lambda>p. p_id p = pid) (payments d) = None then Inl (NotFound PaymentNotFound)
      else Inr (d\<lparr>payments := update_many (\<lambda>p. p_id p = pid) f (payments d)\<rparr>))"

definition cascade_settle ::
  "staff_env \<Rightarrow> uid \<Rightarrow> num \<Rightarrow> booking \<Rightarrow> payment option \<Rightarrow> db \<Rightarrow> exn + db" where
  "cascade_settle env adminUserId qarPerPoint bk pay tx =
     (case pay of
        None \<Rightarrow> Inr tx
      | Some p \<Rightarrow>
          if p_status p = SUCCESS then
            and_then (update_payment_or_throw (p_id p)
               (\<lambda>r. r\<lparr>p_status := REFUNDED, p_refundAmount := Some (p_amount p), p_refundedAt := Some (st_now env)\<rparr>) tx)
              (\<lambda>tx1. let refundPoints = whole_refund (p_amount p) qarPerPoint in
                 if refundPoints > 0
                 then and_then (refund tx1 (b_customerId bk) refundPoints (b_id bk) ADMIN_REFUND_APPROVED ADMIN
                        (Some adminUserId)) (\<lambda>(_, tx2). Inr tx2)
                 else Inr tx1)
          else if p_status p = PAY_PENDING then
            flip_payment (p_id p) PAY_PENDING (\<lambda>r. r\<lparr>p_status := FAILED\<rparr>) StateChanged tx
          else Inr tx)"

text \<open>
  \<open>bk\<close> and \<open>pay\<close> are the rows the batch read; the transaction acts only when the booking is still
  live in it, and returns without an error when it is not.
\<close>

definition cascade_stamp :: "staff_env \<Rightarrow> uid \<Rightarrow> string \<Rightarrow> booking \<Rightarrow> booking" where
  "cascade_stamp env adminUserId note b =
     (staff_stamp env (cascade_staff adminUserId) b)\<lparr>b_decisionNote := Some note\<rparr>"

definition cascade_tx ::
  "staff_env \<Rightarrow> uid \<Rightarrow> string \<Rightarrow> num \<Rightarrow> booking \<Rightarrow> payment option \<Rightarrow> db \<Rightarrow> exn + (unit \<times> db)" where
  "cascade_tx env adminUserId note qarPerPoint bk pay tx =
     (let sel = (\<lambda>b. b_id b = b_id bk \<and> live b) in
      if count_rows sel (bookings tx) = 0 then Inr ((), tx)
      else
        let tx1 = tx\<lparr>bookings := update_many sel (cascade_stamp env adminUserId note) (bookings tx)\<rparr> in
        and_then (cascade_settle env adminUserId qarPerPoint bk pay tx1) (\<lambda>tx2.
        and_then (return_redeemed (cascade_staff adminUserId) bk tx2) (\<lambda>tx3.
        Inr ((), refundCouponUsage tx3 (b_couponCode bk) (b_customerId bk) (st_now env)))))"

section \<open>The batch\<close>

type_synonym counts = "nat \<times> nat"

text \<open>\<open>interfere\<close> is what other writers commit before the transaction of a booking.\<close>

fun cascade_loop ::
  "staff_env \<Rightarrow> (uid \<Rightarrow> interference) \<Rightarrow> uid \<Rightarrow> string \<Rightarrow> num \<Rightarrow> (booking \<times> payment option) list \<Rightarrow> counts \<times> world \<Rightarrow>
   counts \<times> world" where
  "cascade_loop env interfere adminUserId note q [] s = s"
| "cascade_loop env interfere adminUserId note q ((bk, pay) # rest) ((cancelled, failed), w) =
     cascade_loop env interfere adminUserId note q rest
       (case run_cancel (interfere (b_id bk)) (cascade_tx env adminUserId note q bk pay) w of
          (Inl _, w') \<Rightarrow> ((cancelled, failed + 1), w')
        | (Inr _, w') \<Rightarrow> ((cancelled + 1, failed), emit [Notify (b_customerId bk) BOOKING_CANCELLED] w'))"

text \<open>A booking its customer cancelled, whose refund nobody decided yet, is approved in full.\<close>

definition orphan_tx ::
  "staff_env \<Rightarrow> uid \<Rightarrow> string \<Rightarrow> num \<Rightarrow> booking \<Rightarrow> payment \<Rightarrow> db \<Rightarrow> exn + (bool \<times> db)" where
  "orphan_tx env adminUserId note qarPerPoint bk p tx =
     (let refundPoints = whole_refund (p_amount p) qarPerPoint;
          sel = (\<lambda>r. p_id r = p_id p \<and> p_status r = REFUND_PENDING)
      in if count_rows sel (payments tx) = 0 then Inr (False, tx)
         else
           let tx1 = tx\<lparr>payments := update_many sel (\<lambda>r. r\<lparr>p_status := REFUNDED, p_refundAmount := Some (p_amount p),
                         p_refundedAt := Some (st_now env)\<rparr>) (payments tx)\<rparr> in
           and_then (update_booking_or_throw (b_id bk)
              (\<lambda>b. b\<lparr>b_decisionAt := Some (st_now env), b_decisionBy := Some adminUserId,
                    b_decisionActor := Some ADMIN, b_decisionNote := Some note\<rparr>) tx1) (\<lambda>tx2.
           if refundPoints > 0
           then and_then (refund tx2 (b_customerId bk) refundPoints (b_id bk) ADMIN_REFUND_APPROVED ADMIN
                  (Some adminUserId)) (\<lambda>(_, tx3). Inr (True, tx3))
           else Inr (True, tx2)))"

fun orphan_loop ::
  "staff_env \<Rightarrow> (uid \<Rightarrow> interference) \<Rightarrow> uid \<Rightarrow> string \<Rightarrow> num \<Rightarrow> (booking \<times> payment option) list \<Rightarrow> nat \<times> world \<Rightarrow>
   nat \<times> world" where
  "orphan_loop env interfere adminUserId note q [] s = s"
| "orphan_loop env interfere adminUserId note q ((bk, None) # rest) s =
     orphan_loop env interfere adminUserId note q rest s"
| "orphan_loop env interfere adminUserId note q ((bk, Some p) # rest) (failed, w) =
     orphan_loop env interfere adminUserId note q rest
       (case transaction (orphan_tx env adminUserId note q bk p) (w\<lparr>w_db := interfere (b_id bk) (w_db w)\<rparr>) of
          (Inl _, w') \<Rightarrow> (failed + 1, w')
        | (Inr committed, w') \<Rightarrow>
            (failed, if committed then emit [Notify (b_customerId bk) BOOKING_CANCELLED] w' else w'))"

definition with_payment :: "db \<Rightarrow> booking list \<Rightarrow> (booking \<times> payment option) list" where
  "with_payment d bs = map (\<lambda>b. (b, payment_of d b)) bs"

text \<open>The bookings that have not started, judged in the time zone of the activity.\<close>

definition future_live :: "staff_env \<Rightarrow> uid \<Rightarrow> db \<Rightarrow> booking \<Rightarrow> bool" where
  "future_live env aid d b \<longleftrightarrow> b_activityId b = aid \<and> live b \<and>
     b_start b \<ge> nowInTimezone (st_tz env) (activity_tz d aid) (st_now env)"

definition orphaned :: "uid \<Rightarrow> db \<Rightarrow> booking \<Rightarrow> bool" where
  "orphaned aid d b \<longleftrightarrow> b_activityId b = aid \<and> b_status b = CANCELLED \<and>
     (case payment_of d b of Some p \<Rightarrow> p_status p = REFUND_PENDING | None \<Rightarrow> False)"

definition cascadeCancelFutureBookings ::
  "staff_env \<Rightarrow> (uid \<Rightarrow> interference) \<Rightarrow> uid \<Rightarrow> uid \<Rightarrow> bool \<Rightarrow> string option \<Rightarrow> world \<Rightarrow> counts \<times> world" where
  "cascadeCancelFutureBookings env interfere aid adminUserId blocked adminReason w =
     (let batch = take CASCADE_MAX (find_many (future_live env aid (w_db w)) (bookings (w_db w))) in
      if batch = [] then ((0, 0), w)
      else
        let (cfg, d1) = load_loyalty_config (w_db w);
            q = lc_qarPerPoint cfg;
            note = refund_note blocked adminReason;
            ((cancelled, failed), w1) =
              cascade_loop env interfere adminUserId note q (with_payment (w_db w) batch) ((0, 0), w\<lparr>w_db := d1\<rparr>);
            orphans = take CASCADE_MAX (find_many (orphaned aid (w_db w1)) (bookings (w_db w1)));
            (failed', w2) = orphan_loop env interfere adminUserId note q (with_payment (w_db w1) orphans) (failed, w1)
        in ((cancelled, failed'),
            if cancelled > 0 then emit [InvalidateAvailability aid] w2 else w2))"

section \<open>Status of an activity and of a vendor\<close>

definition set_activity_status :: "(activity \<Rightarrow> bool) \<Rightarrow> activity_status \<Rightarrow> db \<Rightarrow> db" where
  "set_activity_status sel s d = d\<lparr>activities := update_many sel (\<lambda>a. a\<lparr>a_status := s\<rparr>) (activities d)\<rparr>"

definition updateActivityStatus ::
  "staff_env \<Rightarrow> (uid \<Rightarrow> interference) \<Rightarrow> uid \<Rightarrow> activity_status \<Rightarrow> uid \<Rightarrow> string option \<Rightarrow> world \<Rightarrow>
   (exn + counts option) \<times> world" where
  "updateActivityStatus env interfere activityId status adminUserId reason w =
     (case find_first (\<lambda>a. a_id a = activityId) (activities (w_db w)) of
        None \<Rightarrow> (Inl (NotFound ActivityNotFound), w)
      | Some a \<Rightarrow>
          let w1 = w\<lparr>w_db := set_activity_status (\<lambda>a. a_id a = activityId) status (w_db w)\<rparr>;
              w2 = (case vendor_user (w_db w1) (a_vendorId a) of
                      None \<Rightarrow> w1
                    | Some vu \<Rightarrow>
                        if status = ACT_ACTIVE then emit [Notify vu ACTIVITY_APPROVED] w1
                        else if status = ACT_BLOCKED then emit [Notify vu ACTIVITY_REJECTED] w1
                        else w1)
          in if status = ACT_INACTIVE \<or> status = ACT_BLOCKED
             then let (cs, w3) = cascadeCancelFutureBookings env interfere activityId adminUserId
                                   (status = ACT_BLOCKED) reason w2
                  in (Inr (Some cs), w3)
             else (Inr None, w2))"

fun suspend_loop ::
  "staff_env \<Rightarrow> (uid \<Rightarrow> interference) \<Rightarrow> uid \<Rightarrow> uid list \<Rightarrow> world \<Rightarrow> world" where
  "suspend_loop env interfere adminUserId [] w = w"
| "suspend_loop env interfere adminUserId (aid # rest) w =
     suspend_loop env interfere adminUserId rest
       (snd (cascadeCancelFutureBookings env interfere aid adminUserId False (Some ''Vendor account suspended'')
          (w\<lparr>w_db := set_activity_status (\<lambda>a. a_id a = aid) ACT_INACTIVE (w_db w)\<rparr>)))"

definition updateVendorStatus ::
  "staff_env \<Rightarrow> (uid \<Rightarrow> interference) \<Rightarrow> uid \<Rightarrow> vendor_status \<Rightarrow> uid option \<Rightarrow> world \<Rightarrow> (exn + vendor) \<times> world" where
  "updateVendorStatus env interfere vendorId status adminUserId w =
     (case find_first (\<lambda>v. v_id v = vendorId) (vendors (w_db w)) of
        None \<Rightarrow> (Inl (NotFound VendorNotFound), w)
      | Some v \<Rightarrow>
          let d1 = (w_db w)\<lparr>vendors := update_many (\<lambda>v. v_id v = vendorId) (\<lambda>v. v\<lparr>v_status := status\<rparr>) (vendors (w_db w))\<rparr>;
              w1 = emit ((if status = VENDOR_SUSPENDED then [KillSessions (v_userId v)] else []) @
                         (if status = VENDOR_ACTIVE then [Notify (v_userId v) VENDOR_APPROVED]
                          else if status = VENDOR_SUSPENDED then [Notify (v_userId v) VENDOR_SUSPENDED_NOTICE] else []))
                     (w\<lparr>w_db := d1\<rparr>);
              listed = map a_id (take 500 (find_many
                (\<lambda>a. a_vendorId a = vendorId \<and> (a_status a = ACT_ACTIVE \<or> a_status a = ACT_PENDING)) (activities d1)))
          in (Inr (v\<lparr>v_status := status\<rparr>),
              case adminUserId of
                Some adm \<Rightarrow> if status = VENDOR_SUSPENDED then suspend_loop env interfere adm listed w1 else w1
              | None \<Rightarrow> w1))"

text \<open>\<open>bulkUpdateActivityStatus\<close> and \<open>bulkUpdateVendorStatus\<close> write the status and nothing else.\<close>

definition bulkUpdateActivityStatus :: "uid list \<Rightarrow> activity_status \<Rightarrow> world \<Rightarrow> nat \<times> world" where
  "bulkUpdateActivityStatus ids status w =
     (let sel = (\<lambda>a. a_id a \<in> set ids) in
      (count_rows sel (activities (w_db w)), w\<lparr>w_db := set_activity_status sel status (w_db w)\<rparr>))"

definition bulkUpdateVendorStatus :: "uid list \<Rightarrow> vendor_status \<Rightarrow> world \<Rightarrow> nat \<times> world" where
  "bulkUpdateVendorStatus ids status w =
     (let sel = (\<lambda>v. v_id v \<in> set ids) in
      (count_rows sel (vendors (w_db w)),
       w\<lparr>w_db := (w_db w)\<lparr>vendors := update_many sel (\<lambda>v. v\<lparr>v_status := status\<rparr>) (vendors (w_db w))\<rparr>\<rparr>))"

text \<open>The vendor's own switch refuses while bookings are upcoming, by the raw clock.\<close>

definition toggleActivityStatus :: "staff_env \<Rightarrow> uid \<Rightarrow> uid \<Rightarrow> world \<Rightarrow> (exn + activity_status) \<times> world" where
  "toggleActivityStatus env userId activityId w =
     (case resolveVendor (w_db w) userId of
        Inl ex \<Rightarrow> (Inl ex, w)
      | Inr v \<Rightarrow>
        case find_first (\<lambda>a. a_id a = activityId \<and> a_vendorId a = v_id v) (activities (w_db w)) of
          None \<Rightarrow> (Inl (NotFound ActivityNotFound), w)
        | Some a \<Rightarrow>
            if a_status a \<notin> {ACT_ACTIVE, ACT_INACTIVE} then (Inl Forbidden, w)
            else
              let newStatus = (if a_status a = ACT_ACTIVE then ACT_INACTIVE else ACT_ACTIVE);
                  futureBookings = count_rows
                    (\<lambda>b. b_activityId b = activityId \<and> live b \<and> b_start b \<ge> st_now env) (bookings (w_db w))
              in if newStatus = ACT_INACTIVE \<and> futureBookings > 0 then (Inl Forbidden, w)
                 else
                   let w1 = w\<lparr>w_db := set_activity_status (\<lambda>a. a_id a = activityId) newStatus (w_db w)\<rparr> in
                   (Inr newStatus, if newStatus = ACT_INACTIVE then emit [NotifyAdmins SYSTEM_NOTICE] w1 else w1))"

end
