(* ===== verification/StatusProps.thy ===== *)
theory StatusProps
  imports Cascade CancelProps
begin

text \<open>
  Lemmas about status changes by staff: what each stage of a cancellation does to the rows and the
  points, that a claim is won once, and that a cascade leaves no live booking behind.
\<close>

section \<open>Points\<close>

lemma balance_post_debited: "balance_of (post d r) = debited (balance_of d) (l_userId r) (- l_delta r)"
  by (simp add: debited_def fun_eq_iff cong: if_cong)

lemma refund_effect [staffing]:
  assumes "points_ok tx" "refund tx u a b src act i = Inr (bal, tx')"
  shows "points_ok tx' \<and> balance_of tx' = debited (balance_of tx) u (- round2 a) \<and>
    (src \<noteq> BOOKING_EARN \<longrightarrow> getEarnedPoints tx' = getEarnedPoints tx)"
proof -
  let ?r = "credit_row u (round2 a) b src act i bal"
  have r: "tx' = post tx ?r" "posting tx ?r" using refund_posting [OF assms] by simp_all
  have "balance_of (post tx ?r) = debited (balance_of tx) u (- round2 a)"
    by (simp add: balance_post_debited)
  moreover have "src \<noteq> BOOKING_EARN \<longrightarrow> getEarnedPoints (post tx ?r) = getEarnedPoints tx"
    by (simp add: getEarnedPoints_def fun_eq_iff)
  ultimately show ?thesis using r post_points_ok [OF assms(1)] by simp
qed

lemma reverse_effect [staffing]:
  assumes "points_ok tx" "reverseAwarded tx u a b act i = Inr (y, tx')"
  shows "points_ok tx' \<and> (\<exists>bal. balance_of tx u = Some bal \<and>
    balance_of tx' = debited (balance_of tx) u (min (round2 a) bal)) \<and> bookings tx' = bookings tx \<and> payments tx' = payments tx"
proof -
  obtain bal where b: "balance_of tx u = Some bal"
    using assms(2) by (auto simp: reverse_cases [OF assms(1)] Let_def split: if_splits option.splits)
  have pos: "0 \<le> bal" "0 < round2 a"
    using assms(2) balance_of_Some [OF assms(1) b]
    by (auto simp: reverse_cases [OF assms(1)] Let_def split: if_splits option.splits)
  have ok: "points_ok tx'" using reverse_posting [OF assms(1)] assms post_points_ok by (metis prod.collapse)
  show ?thesis
  proof (cases "min (round2 a) bal \<le> 0")
    case True
    then have "min (round2 a) bal = 0" using pos by simp
    then show ?thesis using assms(2) b ok pos by (auto simp: reverse_cases [OF assms(1)] Let_def)
  next
    case False
    then have "tx' = post tx (credit_row u (- min (round2 a) bal) b CANCEL_REVERSE_AWARDED act i (bal - min (round2 a) bal))"
      using assms(2) b pos by (auto simp: reverse_cases [OF assms(1)] Let_def split: if_splits)
    then show ?thesis using b ok by (simp add: balance_post_debited)
  qed
qed

lemma debited_twice [simp]: "debited (debited bal u x) u y = debited bal u (x + y)"
  by (auto simp: debited_def fun_eq_iff option.map_comp comp_def algebra_simps intro!: option.map_cong)

lemma load_loyalty_effect [staffing]:
  assumes "load_loyalty_config tx = (cfg, tx')"
  shows "users tx' = users tx \<and> ledger tx' = ledger tx \<and> bookings tx' = bookings tx \<and> payments tx' = payments tx \<and>
    loyaltyConfig tx' = Some cfg \<and> points_ok tx' = points_ok tx \<and> balance_of tx' = balance_of tx \<and>
    getEarnedPoints tx' = getEarnedPoints tx"
proof -
  have s: "users tx' = users tx \<and> ledger tx' = ledger tx \<and> bookings tx' = bookings tx \<and> payments tx' = payments tx \<and>
    loyaltyConfig tx' = Some cfg"
    using assms by (auto simp: load_loyalty_config_def split: option.splits)
  then show ?thesis using points_ok_same [of tx' tx] by (simp add: getEarnedPoints_def fun_eq_iff)
qed

lemma count_rows_unique [table]:
  assumes "unique_on k t" "r \<in> set t" "q r"
  shows "count_rows (\<lambda>x. k x = k r \<and> q x) t = 1"
proof -
  have "filter (\<lambda>x. k x = k r \<and> q x) t = filter (\<lambda>x. x = r) t"
    using assms by (intro filter_cong) (auto dest: unique_onD)
  moreover have "distinct t" using assms(1) by (simp add: unique_on_def distinct_map)
  moreover have "{x. x = r} \<inter> set t = {r}" using assms(2) by auto
  ultimately show ?thesis
    using distinct_length_filter [of t "\<lambda>x. x = r"] by (simp add: count_rows_def)
qed

section \<open>The stages of a cancellation\<close>

lemma whole_refund_cents [staffing]: "0 \<le> x \<Longrightarrow> 0 \<le> whole_refund x q" "two_dp (whole_refund x q)"
  by (auto simp: whole_refund_def intro: cents_nonneg)

lemma refund_captured_effect [staffing]:
  assumes ok: "points_ok tx" and r: "refund_captured env st b p tx = Inr (cb, tx')"
    and amt: "0 \<le> p_amount p" and src: "sf_source st \<noteq> BOOKING_EARN"
  shows "points_ok tx' \<and>
    balance_of tx' = debited (balance_of tx) (b_customerId b)
      (- whole_refund (p_amount p) (lc_qarPerPoint (fst (load_loyalty_config tx)))) \<and>
    getEarnedPoints tx' = getEarnedPoints tx \<and> bookings tx' = bookings tx \<and>
    payments tx' = update_many (\<lambda>r. p_id r = p_id p) (refunded_whole (st_now env)) (payments tx) \<and>
    cb = (if p_payoutStatus p = PAID then Some (p_amount p) else None)"
proof -
  define tx1 where "tx1 = tx\<lparr>payments := update_many (\<lambda>r. p_id r = p_id p) (refunded_whole (st_now env)) (payments tx)\<rparr>"
  obtain cfg tx2 where l: "load_loyalty_config tx1 = (cfg, tx2)" by fastforce
  have cfg: "cfg = fst (load_loyalty_config tx)"
    using l by (auto simp: load_loyalty_config_def tx1_def split: option.splits)
  let ?x = "whole_refund (p_amount p) (lc_qarPerPoint cfg)"
  have t1: "points_ok tx1" "balance_of tx1 = balance_of tx" "getEarnedPoints tx1 = getEarnedPoints tx"
    using points_ok_same [of tx1 tx] ok by (simp_all add: tx1_def getEarnedPoints_def fun_eq_iff)
  note e = load_loyalty_effect [OF l]
  have x: "0 \<le> ?x" "round2 ?x = ?x" using whole_refund_cents amt by (simp_all add: round2_id)
  show ?thesis
  proof (cases "?x > 0")
    case True
    then obtain bal where rf: "refund tx2 (b_customerId b) ?x (b_id b) (sf_source st) (sf_actor st) (sf_ledgerId st) = Inr (bal, tx')"
      and cb: "cb = (if p_payoutStatus p = PAID then Some (p_amount p) else None)"
      using r by (auto simp: refund_captured_def Let_def l tx1_def [symmetric] and_then_Inr)
    show ?thesis using refund_effect [OF _ rf] refund_tables [OF rf] e t1 src x cb unfolding cfg [symmetric]
      by (simp add: tx1_def)
  next
    case False
    then have "tx' = tx2" "cb = (if p_payoutStatus p = PAID then Some (p_amount p) else None)"
      using r by (auto simp: refund_captured_def Let_def l tx1_def [symmetric])
    then show ?thesis using e t1 x False unfolding cfg [symmetric] by (simp add: tx1_def)
  qed
qed

lemma return_redeemed_effect [staffing]:
  assumes ok: "points_ok tx" and r: "return_redeemed st b tx = Inr tx'"
    and x: "0 \<le> b_pointsRedeemed b" "two_dp (b_pointsRedeemed b)"
  shows "points_ok tx' \<and> balance_of tx' = debited (balance_of tx) (b_customerId b) (- b_pointsRedeemed b) \<and>
    getEarnedPoints tx' = getEarnedPoints tx \<and> bookings tx' = bookings tx \<and> payments tx' = payments tx"
proof (cases "b_pointsRedeemed b > 0")
  case True
  then obtain bal where "refund tx (b_customerId b) (b_pointsRedeemed b) (b_id b) CANCEL_REFUND_PAID (sf_actor st) (sf_ledgerId st) = Inr (bal, tx')"
    using r by (auto simp: return_redeemed_def and_then_Inr)
  then show ?thesis using refund_effect [OF ok] refund_tables x(2) by (simp add: round2_id)
next
  case False
  then have "b_pointsRedeemed b = 0" "tx' = tx" using r x(1) by (auto simp: return_redeemed_def)
  then show ?thesis using ok by simp
qed

text \<open>What a cancellation takes back of an award: what was earned, as far as the balance reaches.\<close>

definition taken_back :: "db \<Rightarrow> booking \<Rightarrow> num \<Rightarrow> num" where
  "taken_back d b bal =
     (if b_pointsAwarded b \<and> 0 < getEarnedPoints d (b_id b) then min (round2 (getEarnedPoints d (b_id b))) bal else 0)"

lemma reverse_award_effect [staffing]:
  assumes ok: "points_ok tx" and r: "reverse_award st b tx = Inr tx'" and bal: "balance_of tx (b_customerId b) = Some y"
  shows "points_ok tx' \<and> balance_of tx' = debited (balance_of tx) (b_customerId b) (taken_back tx b y) \<and>
    payments tx' = payments tx \<and>
    (\<exists>sel. bookings tx' = update_many sel (\<lambda>r. r\<lparr>b_pointsAwarded := False\<rparr>) (bookings tx))"
proof (cases "b_pointsAwarded b \<and> 0 < getEarnedPoints tx (b_id b)")
  case True
  then obtain v tx1 where rv: "reverseAwarded tx (b_customerId b) (getEarnedPoints tx (b_id b)) (b_id b) (sf_actor st) (sf_ledgerId st) = Inr (v, tx1)"
    and up: "update_booking_or_throw (b_id b) (\<lambda>r. r\<lparr>b_pointsAwarded := False\<rparr>) tx1 = Inr tx'"
    using r by (auto simp: reverse_award_def Let_def and_then_Inr)
  note e = reverse_effect [OF ok rv]
  have t: "tx' = tx1\<lparr>bookings := update_many (\<lambda>r. b_id r = b_id b) (\<lambda>r. r\<lparr>b_pointsAwarded := False\<rparr>) (bookings tx1)\<rparr>"
    using up by (simp add: update_booking_or_throw_Inr update_booking_def)
  have "points_ok tx' = points_ok tx1 \<and> balance_of tx' = balance_of tx1"
    by (rule points_ok_same) (simp_all add: t)
  then show ?thesis using e bal True by (auto simp: taken_back_def t)
next
  case False
  then have "tx' = tx" "taken_back tx b y = 0" using r by (auto simp: reverse_award_def Let_def taken_back_def)
  moreover have "bookings tx = update_many (\<lambda>_. False) (\<lambda>r. r\<lparr>b_pointsAwarded := False\<rparr>) (bookings tx)"
    by (simp add: update_many_none)
  ultimately show ?thesis using ok by auto
qed

section \<open>A cancellation as a whole\<close>

text \<open>Booking rows under a claim: the one booking is cancelled, nothing else changes.\<close>

lemma claim_cancel_Some [staffing]:
  "claim_cancel env st bid tx = Some tx1 \<longleftrightarrow>
   (\<exists>b \<in> set (bookings tx). b_id b = bid \<and> b_status b \<noteq> CANCELLED) \<and>
   tx1 = tx\<lparr>bookings := update_many (\<lambda>b. b_id b = bid \<and> b_status b \<noteq> CANCELLED) (staff_stamp env st) (bookings tx)\<rparr>"
  by (auto simp: claim_cancel_def Let_def count_rows_0)

lemma claim_cancel_None [staffing]:
  "claim_cancel env st bid tx = None \<longleftrightarrow> (\<forall>b \<in> set (bookings tx). b_id b = bid \<longrightarrow> b_status b = CANCELLED)"
  by (auto simp: claim_cancel_def Let_def count_rows_0)

lemma staff_stamp_simps [simp]:
  "b_id (staff_stamp env st b) = b_id b" "b_status (staff_stamp env st b) = CANCELLED"
  "b_customerId (staff_stamp env st b) = b_customerId b" "b_paymentId (staff_stamp env st b) = b_paymentId b"
  "b_pointsRedeemed (staff_stamp env st b) = b_pointsRedeemed b"
  "b_pointsAwarded (staff_stamp env st b) = b_pointsAwarded b" "b_couponCode (staff_stamp env st b) = b_couponCode b"
  "b_activityId (staff_stamp env st b) = b_activityId b" "b_start (staff_stamp env st b) = b_start b"
  by (simp_all add: staff_stamp_def cancelled_by_def)

lemma current_row_Inr [staffing]:
  "current_row bid tx = Inr b \<longleftrightarrow> find_first (\<lambda>b. b_id b = bid) (bookings tx) = Some b"
  by (simp add: current_row_def split: option.split)

lemma find_claimed [staffing]:
  assumes "unique_on b_id bs" "b \<in> set bs" "b_status b \<noteq> CANCELLED"
  shows "find_first (\<lambda>r. b_id r = b_id b)
    (update_many (\<lambda>r. b_id r = b_id b \<and> b_status r \<noteq> CANCELLED) (staff_stamp env st) bs) = Some (staff_stamp env st b)"
proof -
  let ?bs = "update_many (\<lambda>r. b_id r = b_id b \<and> b_status r \<noteq> CANCELLED) (staff_stamp env st) bs"
  have "unique_on b_id ?bs" using assms(1) by (simp add: update_many_unique)
  moreover have "staff_stamp env st b \<in> set ?bs" using assms(2,3) by (auto simp: update_many_mem)
  ultimately show ?thesis using find_first_key [of b_id ?bs "staff_stamp env st b"] by simp
qed

lemma as_staff_source [simp]:
  "sf_source (as_admin u) \<noteq> BOOKING_EARN" "sf_source (as_vendor u) \<noteq> BOOKING_EARN"
  by (simp_all add: as_admin_def as_vendor_def)

text \<open>What the customer of a captured booking ends up with.\<close>

definition owed :: "db \<Rightarrow> booking \<Rightarrow> payment \<Rightarrow> num" where
  "owed d b p = whole_refund (p_amount p) (lc_qarPerPoint (fst (load_loyalty_config d))) + b_pointsRedeemed b"

lemma settle_captured_effect [staffing]:
  assumes ok: "points_ok tx" and r: "settle_cancelled env st b p tx = Inr (cb, tx')"
    and paid: "p_status p = SUCCESS" "0 \<le> p_amount p" and src: "sf_source st \<noteq> BOOKING_EARN"
    and x: "0 \<le> b_pointsRedeemed b" "two_dp (b_pointsRedeemed b)"
    and bal: "balance_of tx (b_customerId b) = Some y"
  shows "points_ok tx' \<and>
    balance_of tx' = debited (balance_of tx) (b_customerId b) (taken_back tx b (y + owed tx b p) - owed tx b p) \<and>
    payments tx' = update_many (\<lambda>r. p_id r = p_id p) (refunded_whole (st_now env)) (payments tx) \<and>
    (\<exists>sel. bookings tx' = update_many sel (\<lambda>r. r\<lparr>b_pointsAwarded := False\<rparr>) (bookings tx)) \<and>
    cb = (if p_payoutStatus p = PAID then Some (p_amount p) else None)"
proof -
  obtain tx1 tx2 where 1: "refund_captured env st b p tx = Inr (cb, tx1)"
    and 2: "return_redeemed st b tx1 = Inr tx2" and 3: "reverse_award st b tx2 = Inr tx'"
    using r paid by (auto simp: settle_cancelled_def settle_payment_def and_then_Inr)
  note e1 = refund_captured_effect [OF ok 1 paid(2) src]
  note e2 = return_redeemed_effect [OF _ 2 x]
  have bal2: "balance_of tx2 = debited (balance_of tx) (b_customerId b) (- owed tx b p)"
    using e1 e2 by (simp add: owed_def)
  then have y: "balance_of tx2 (b_customerId b) = Some (y + owed tx b p)" using bal by (simp add: debited_def)
  have "taken_back tx2 b z = taken_back tx b z" for z using e1 e2 by (simp add: taken_back_def)
  then show ?thesis using reverse_award_effect [OF _ 3 y] e1 e2 bal2 by simp
qed

lemma update_many_status [staffing]:
  assumes "r \<in> set (update_many sel (\<lambda>r. r\<lparr>b_pointsAwarded := x\<rparr>) bs)"
  shows "\<exists>b \<in> set bs. b_id r = b_id b \<and> b_status r = b_status b"
  using assms by (auto simp: update_many_mem)

lemma claimed_rows_cancelled [staffing]:
  assumes "r \<in> set (update_many (\<lambda>b. b_id b = bid \<and> b_status b \<noteq> CANCELLED) (staff_stamp env st) bs)" "b_id r = bid"
  shows "b_status r = CANCELLED"
proof -
  obtain b where "r = (if b_id b = bid \<and> b_status b \<noteq> CANCELLED then staff_stamp env st b else b)"
    using assms(1) unfolding update_many_mem by blast
  then show ?thesis using assms(2) by (cases "b_id b = bid \<and> b_status b \<noteq> CANCELLED") auto
qed

lemma status_tx_handler [staffing]:
  "run_status ifr b0 body w = (Inr r, w') \<Longrightarrow> \<exists>x. body (ifr (w_db w)) = Inr ((r, x), w_db w')"
  by (auto simp: run_status_def transaction_Inr after_status_def split: prod.splits sum.splits)

lemma admin_cancel_handler [staffing]:
  assumes "admin_updateBookingStatus env ifr adm bid CANCELLED w = (Inr r, w')"
  shows "admin_cancel_tx env adm bid (ifr (w_db w)) = Inr (r, w_db w')"
  using assms status_tx_handler
  by (fastforce simp: admin_updateBookingStatus_def status_tx_def and_then_Inr split: option.splits)

lemma admin_cancel_captured [staffing]:
  assumes r: "admin_cancel_tx env adm bid d = Inr (res, d')" "sr_cancelledNow res"
    and ok: "points_ok d" "unique_on b_id (bookings d)"
    and b: "b \<in> set (bookings d)" "b_id b = bid" "payment_of d b = Some p"
    and paid: "p_status p = SUCCESS" "0 \<le> p_amount p" and x: "0 \<le> b_pointsRedeemed b" "two_dp (b_pointsRedeemed b)"
    and bal: "balance_of d (b_customerId b) = Some y"
  shows "points_ok d' \<and>
    balance_of d' = debited (balance_of d) (b_customerId b) (taken_back d b (y + owed d b p) - owed d b p) \<and>
    payments d' = update_many (\<lambda>r. p_id r = p_id p) (refunded_whole (st_now env)) (payments d) \<and>
    sr_clawback res = (if p_payoutStatus p = PAID then Some (p_amount p) else None) \<and>
    (\<forall>r \<in> set (bookings d'). b_id r = bid \<longrightarrow> b_status r = CANCELLED) \<and>
    map b_id (bookings d') = map b_id (bookings d)"
proof -
  define bs where "bs = update_many (\<lambda>r. b_id r = bid \<and> b_status r \<noteq> CANCELLED) (staff_stamp env (as_admin adm)) (bookings d)"
  define d1 where "d1 = d\<lparr>bookings := bs\<rparr>"
  have won: "claim_cancel env (as_admin adm) bid d = Some d1"
  proof (rule ccontr)
    assume "\<not> ?thesis"
    then have "claim_cancel env (as_admin adm) bid d = None"
      by (auto simp: claim_cancel_def Let_def d1_def bs_def split: if_splits)
    then show False using r by (auto simp: admin_cancel_tx_def already_cancelled_def and_then_Inr Let_def)
  qed
  then have live: "b_status b \<noteq> CANCELLED"
    using ok(2) b(1,2) by (auto simp: claim_cancel_Some dest: unique_onD)
  let ?b = "staff_stamp env (as_admin adm) b"
  have row: "current_row bid d1 = Inr ?b"
    using find_claimed [OF ok(2) b(1) live] b(2) by (simp add: current_row_Inr d1_def bs_def)
  have pay: "payment_of d1 ?b = Some p" using b(3) by (simp add: payment_of_def d1_def)
  obtain tx2 where s: "settle_cancelled env (as_admin adm) ?b p d1 = Inr (sr_clawback res, tx2)"
    and d': "d' = refundCouponUsage tx2 (b_couponCode b) (b_customerId b) (st_now env)"
    using r(1) by (auto simp: admin_cancel_tx_def Let_def won row pay and_then_Inr)
  have p1: "points_ok d1" "balance_of d1 = balance_of d" using points_ok_same [of d1 d] ok(1) by (simp_all add: d1_def)
  have bal1: "balance_of d1 (b_customerId ?b) = Some y" using bal p1 by simp
  have same: "owed d1 ?b p = owed d b p" "taken_back d1 ?b z = taken_back d b z" for z
    by (simp_all add: owed_def taken_back_def load_loyalty_config_def getEarnedPoints_def d1_def b(2) split: option.split)
  have px: "0 \<le> b_pointsRedeemed ?b" "two_dp (b_pointsRedeemed ?b)" using x by simp_all
  have rows: "payments d1 = payments d" "bookings d1 = bs" by (simp_all add: d1_def)
  have e: "points_ok tx2 \<and>
    balance_of tx2 = debited (balance_of d) (b_customerId b) (taken_back d b (y + owed d b p) - owed d b p) \<and>
    payments tx2 = update_many (\<lambda>r. p_id r = p_id p) (refunded_whole (st_now env)) (payments d) \<and>
    (\<exists>sel. bookings tx2 = update_many sel (\<lambda>r. r\<lparr>b_pointsAwarded := False\<rparr>) bs) \<and>
    sr_clawback res = (if p_payoutStatus p = PAID then Some (p_amount p) else None)"
    using settle_captured_effect [OF p1(1) s paid as_staff_source(1) px bal1]
    by (simp only: same p1(2) rows staff_stamp_simps)
  have "b_status r = CANCELLED" if r: "r \<in> set (bookings tx2)" "b_id r = bid" for r
  proof -
    obtain sel where sel: "bookings tx2 = update_many sel (\<lambda>r. r\<lparr>b_pointsAwarded := False\<rparr>) bs" using e by blast
    obtain c where c: "c \<in> set bs" "b_id r = b_id c" "b_status r = b_status c"
      using update_many_status [of r sel False bs] r(1) sel by auto
    have "b_id c = bid" using c(2) r(2) by argo
    with c(1) have "b_status c = CANCELLED" unfolding bs_def by (rule claimed_rows_cancelled)
    then show ?thesis using c(3) by argo
  qed
  moreover have "map b_id (bookings tx2) = map b_id (bookings d)"
    using e by (auto simp: bs_def update_many_map)
  ultimately show ?thesis using e points_ok_same [of d' tx2] d' by simp
qed

lemma admin_cancel_again [staffing]:
  assumes "\<And>r. r \<in> set (bookings d) \<Longrightarrow> b_id r = bid \<Longrightarrow> b_status r = CANCELLED"
    and "find_first (\<lambda>b. b_id b = bid) (bookings d) = Some b"
  shows "admin_cancel_tx env adm bid d = Inr (\<lparr>sr_booking = b, sr_cancelledNow = False, sr_clawback = None\<rparr>, d)"
proof -
  have "claim_cancel env (as_admin adm) bid d = None" using assms(1) by (auto simp: claim_cancel_None)
  then show ?thesis using assms(2) by (simp add: admin_cancel_tx_def Let_def already_cancelled_def current_row_def)
qed

lemma emit_nothing [simp]: "emit [] w = w"
  by (simp add: emit_def)

end
