(* ===== verification/CascadeProps.thy ===== *)
theory CascadeProps
  imports StatusProps
begin

text \<open>
  Lemmas about the cascade: each transaction only ends live bookings, those it handled are no longer
  live, and it keeps the points ledger consistent.
\<close>

section \<open>Live bookings\<close>

text \<open>A live booking by what a cascade selects on.\<close>

definition live_keys :: "db \<Rightarrow> (uid \<times> uid \<times> ms) set" where
  "live_keys d = (\<lambda>b. (b_id b, b_activityId b, b_start b)) ` {b \<in> set (bookings d). live b}"

lemma live_keys_ids: "fst ` live_keys d = b_id ` {b \<in> set (bookings d). live b}"
  by (simp add: live_keys_def image_image)

text \<open>Other writers may end bookings while a cascade runs, but neither create nor revive any.\<close>

definition quiet :: "interference \<Rightarrow> bool" where
  "quiet ifr \<longleftrightarrow> (\<forall>d. live_keys (ifr d) \<subseteq> live_keys d \<and> activities (ifr d) = activities d \<and> countries (ifr d) = countries d)"

definition ends_only :: "db \<Rightarrow> db \<Rightarrow> bool" where
  "ends_only d d' \<longleftrightarrow> live_keys d' \<subseteq> live_keys d \<and> activities d' = activities d \<and> countries d' = countries d"

lemma quietD [staffing]: "quiet ifr \<Longrightarrow> ends_only d (ifr d)"
  by (simp add: quiet_def ends_only_def)

lemma ends_only_refl [simp]: "ends_only d d"
  by (simp add: ends_only_def)

lemma ends_only_trans [trans]: "ends_only d d1 \<Longrightarrow> ends_only d1 d2 \<Longrightarrow> ends_only d d2"
  by (auto simp: ends_only_def)

lemma live_keys_same: "bookings d' = bookings d \<Longrightarrow> live_keys d' = live_keys d"
  by (simp add: live_keys_def)

text \<open>A step that writes neither bookings nor the catalogue.\<close>

definition apart :: "db \<Rightarrow> db \<Rightarrow> bool" where
  "apart d d' \<longleftrightarrow> static d d' \<and> bookings d' = bookings d"

lemma apart_refl [simp]: "apart d d"
  by (simp add: apart_def)

lemma apart_trans [trans]: "apart d d1 \<Longrightarrow> apart d1 d2 \<Longrightarrow> apart d d2"
  unfolding apart_def by (metis static_trans)

lemma apart_payments [simp]: "apart d (d\<lparr>payments := ps\<rparr>)"
  by (simp add: apart_def)

lemma apart_refund: "refund tx u x b src act i = Inr (bal, tx') \<Longrightarrow> apart tx tx'"
  by (auto simp: refund_cases Let_def post_def apart_def split: if_splits option.splits)

lemma apart_coupon_return [simp]: "apart tx (refundCouponUsage tx c u now)"
  by (simp add: refundCouponUsage_def update_coupons_def Let_def static_def apart_def split: option.split)

lemma apart_config: "load_loyalty_config tx = (cfg, tx') \<Longrightarrow> apart tx tx'"
  by (auto simp: load_loyalty_config_def apart_def split: option.splits)

lemma apart_return_redeemed: "return_redeemed st b tx = Inr tx' \<Longrightarrow> apart tx tx'"
  by (auto simp: return_redeemed_def and_then_Inr dest: apart_refund split: if_splits)

lemma apart_settle:
  assumes "cascade_settle env adm q bk pay tx = Inr tx'"
  shows "apart tx tx'"
  using assms
  by (auto simp: cascade_settle_def update_payment_or_throw_def flip_payment_Inr and_then_Inr Let_def
      dest!: apart_refund intro: apart_trans [OF apart_payments] split: option.splits if_splits)

lemma ends_only_apart [staffing]: "apart d d' \<Longrightarrow> ends_only d d'"
  unfolding ends_only_def apart_def static_def by (metis live_keys_same subset_refl)

section \<open>One transaction\<close>

lemma cascade_stamp_simps [simp]:
  "b_status (cascade_stamp env adm note b) = CANCELLED" "b_id (cascade_stamp env adm note b) = b_id b"
  by (simp_all add: cascade_stamp_def)

lemma cascade_rows:
  assumes "r \<in> set (update_many (\<lambda>b. b_id b = i \<and> live b) (cascade_stamp env adm note) bs)" "live r"
  shows "r \<in> set bs \<and> b_id r \<noteq> i"
proof -
  obtain b where b: "b \<in> set bs" "r = (if b_id b = i \<and> live b then cascade_stamp env adm note b else b)"
    using assms(1) unfolding update_many_mem by blast
  show ?thesis
  proof (cases "b_id b = i \<and> live b")
    case True
    then show ?thesis using b(2) assms(2) by (simp add: live_def)
  next
    case False
    then have "r = b" using b(2) by (simp only: if_False)
    then show ?thesis using b(1) False assms(2) by blast
  qed
qed

lemma cascade_tx_ends [staffing]:
  assumes "cascade_tx env adm note q bk pay d = Inr (x, d')"
  shows "ends_only d d' \<and> b_id bk \<notin> fst ` live_keys d'"
proof (cases "count_rows (\<lambda>b. b_id b = b_id bk \<and> live b) (bookings d) = 0")
  case True
  then have "d' = d" using assms by (simp add: cascade_tx_def)
  then show ?thesis using True by (auto simp: live_keys_def count_rows_0)
next
  case False
  define d1 where "d1 = d\<lparr>bookings := update_many (\<lambda>b. b_id b = b_id bk \<and> live b) (cascade_stamp env adm note) (bookings d)\<rparr>"
  obtain tx2 tx3 where "cascade_settle env adm q bk pay d1 = Inr tx2" "return_redeemed (cascade_staff adm) bk tx2 = Inr tx3"
    "d' = refundCouponUsage tx3 (b_couponCode bk) (b_customerId bk) (st_now env)"
    using assms False by (auto simp: cascade_tx_def Let_def and_then_Inr d1_def)
  then have "apart d1 d'" by (meson apart_settle apart_return_redeemed apart_coupon_return apart_trans)
  then have "ends_only d1 d'" by (rule ends_only_apart)
  moreover have rows: "r \<in> set (bookings d) \<and> b_id r \<noteq> b_id bk" if "r \<in> set (bookings d1)" "live r" for r
    by (rule cascade_rows [OF _ that(2), of "b_id bk" env adm "note"]) (use that(1) in \<open>simp add: d1_def\<close>)
  have "live_keys d1 \<subseteq> live_keys d" unfolding live_keys_def by (rule image_mono) (use rows in blast)
  moreover have "b_id bk \<notin> fst ` live_keys d1" unfolding live_keys_ids by (rule notI, elim imageE) (use rows in force)
  moreover have "activities d1 = activities d" "countries d1 = countries d" by (simp_all add: d1_def)
  ultimately show ?thesis by (auto simp: ends_only_def)
qed

lemma live_keys_update:
  assumes "\<And>b. live (f b) = live b \<and> b_id (f b) = b_id b \<and> b_activityId (f b) = b_activityId b \<and> b_start (f b) = b_start b"
  shows "live_keys (d\<lparr>bookings := update_many sel f bs\<rparr>) = live_keys (d\<lparr>bookings := bs\<rparr>)"
proof -
  have "map (\<lambda>b. (b_id b, b_activityId b, b_start b)) (filter live (update_many sel f bs)) =
      map (\<lambda>b. (b_id b, b_activityId b, b_start b)) (filter live bs)"
    by (induction bs) (use assms in auto)
  then have "set (map (\<lambda>b. (b_id b, b_activityId b, b_start b)) (filter live (update_many sel f bs))) =
      set (map (\<lambda>b. (b_id b, b_activityId b, b_start b)) (filter live bs))" by (rule arg_cong)
  then show ?thesis by (simp add: live_keys_def)
qed

lemma orphan_tx_ends [staffing]:
  assumes "orphan_tx env adm note q bk p d = Inr (x, d')"
  shows "ends_only d d'"
proof (cases "count_rows (\<lambda>r. p_id r = p_id p \<and> p_status r = REFUND_PENDING) (payments d) = 0")
  case True
  then show ?thesis using assms by (simp add: orphan_tx_def)
next
  case False
  define ps where "ps = update_many (\<lambda>r. p_id r = p_id p \<and> p_status r = REFUND_PENDING)
    (\<lambda>r. r\<lparr>p_status := REFUNDED, p_refundAmount := Some (p_amount p), p_refundedAt := Some (st_now env)\<rparr>) (payments d)"
  define f :: "booking \<Rightarrow> booking" where "f = (\<lambda>b. b\<lparr>b_decisionAt := Some (st_now env), b_decisionBy := Some adm,
    b_decisionActor := Some ADMIN, b_decisionNote := Some note\<rparr>)"
  define d1 where "d1 = d\<lparr>payments := ps, bookings := update_many (\<lambda>r. b_id r = b_id bk) f (bookings d)\<rparr>"
  have "d' = d1 \<or> (\<exists>x bal. refund d1 (b_customerId bk) x (b_id bk) ADMIN_REFUND_APPROVED ADMIN (Some adm) = Inr (bal, d'))"
    using assms False
    by (auto simp: orphan_tx_def Let_def and_then_Inr update_booking_or_throw_Inr update_booking_def
        ps_def [symmetric] f_def [symmetric] d1_def split: if_splits)
  then have "ends_only d1 d'" using apart_refund ends_only_apart by auto
  moreover have "live_keys d1 = live_keys d"
    using live_keys_update [where f = f and d = "d\<lparr>payments := ps\<rparr>" and sel = "\<lambda>r. b_id r = b_id bk" and bs = "bookings d"]
    by (simp add: d1_def f_def live_def live_keys_def)
  ultimately show ?thesis by (simp add: ends_only_def d1_def)
qed

section \<open>The batch\<close>

lemma run_cascade_ends:
  assumes "quiet ifr" "run_cancel ifr (cascade_tx env adm note q bk pay) w = (r, w')"
  shows "ends_only (w_db w) (w_db w') \<and> (isInr r \<longrightarrow> b_id bk \<notin> fst ` live_keys (w_db w'))"
proof (cases r)
  case (Inl ex)
  then show ?thesis using run_cancel_Inl [of ifr _ w ex w'] assms quietD by simp
next
  case (Inr x)
  then obtain d where d: "cascade_tx env adm note q bk pay (ifr (w_db w)) = Inr (x, d)" "w_db w' = d"
    using assms(2) by (auto simp: run_cancel_Inr)
  show ?thesis using cascade_tx_ends [OF d(1)] quietD [OF assms(1)] d(2) ends_only_trans by blast
qed

text \<open>A booking that is not live stays so.\<close>

lemma ends_only_dead: "ends_only d d' \<Longrightarrow> i \<notin> fst ` live_keys d \<Longrightarrow> i \<notin> fst ` live_keys d'"
  by (auto simp: ends_only_def)

lemma cascade_loop_ends [staffing]:
  assumes "\<And>i. quiet (ifr i)"
    and "cascade_loop env ifr adm note q batch ((c, f), w) = ((c', f'), w')"
  shows "ends_only (w_db w) (w_db w') \<and> f \<le> f' \<and>
    (f' = f \<longrightarrow> (\<forall>x \<in> set batch. b_id (fst x) \<notin> fst ` live_keys (w_db w')))"
  using assms(2)
proof (induction batch arbitrary: c f w)
  case (Cons x batch)
  obtain bk pay where x: "x = (bk, pay)" by fastforce
  obtain r w1 where r: "run_cancel (ifr (b_id bk)) (cascade_tx env adm note q bk pay) w = (r, w1)" by fastforce
  note e = run_cascade_ends [OF assms(1) r]
  show ?case
  proof (cases r)
    case (Inl ex)
    then have "cascade_loop env ifr adm note q batch ((c, f + 1), w1) = ((c', f'), w')"
      using Cons.prems r by (simp add: x)
    from Cons.IH [OF this] show ?thesis using e ends_only_trans by auto
  next
    case (Inr y)
    define w2 where "w2 = emit [Notify (b_customerId bk) BOOKING_CANCELLED] w1"
    have "cascade_loop env ifr adm note q batch ((c + 1, f), w2) = ((c', f'), w')"
      using Cons.prems r Inr by (simp add: x w2_def)
    note ih = Cons.IH [OF this]
    have db: "w_db w2 = w_db w1" by (simp add: w2_def)
    have "b_id bk \<notin> fst ` live_keys (w_db w')" using ends_only_dead ih e db Inr by (metis isInr.simps(2))
    then show ?thesis using ih e db ends_only_trans x by (metis fst_conv set_ConsD)
  qed
qed simp

lemma orphan_loop_ends [staffing]:
  assumes "\<And>i. quiet (ifr i)"
    and "orphan_loop env ifr adm note q batch (f, w) = (f', w')"
  shows "ends_only (w_db w) (w_db w') \<and> f \<le> f'"
  using assms(2)
proof (induction batch arbitrary: f w)
  case (Cons x batch)
  show ?case
  proof (cases "snd x")
    case None
    then show ?thesis using Cons by (cases x) simp
  next
    case (Some p)
    obtain bk where x: "x = (bk, Some p)" using Some by (cases x) simp
    let ?w = "w\<lparr>w_db := ifr (b_id bk) (w_db w)\<rparr>"
    obtain r w1 where r: "transaction (orphan_tx env adm note q bk p) ?w = (r, w1)" by fastforce
    have e: "ends_only (w_db w) (w_db w1)"
    proof (cases r)
      case (Inl ex)
      then show ?thesis using r quietD [OF assms(1)] by (auto simp: transaction_Inl)
    next
      case (Inr y)
      then obtain d where "orphan_tx env adm note q bk p (ifr (b_id bk) (w_db w)) = Inr (y, d)" "w_db w1 = d"
        using r by (auto simp: transaction_Inr)
      then show ?thesis using orphan_tx_ends quietD [OF assms(1)] ends_only_trans by blast
    qed
    define s where "s = (case r of Inl _ \<Rightarrow> (f + 1, w1)
      | Inr committed \<Rightarrow> (f, if committed then emit [Notify (b_customerId bk) BOOKING_CANCELLED] w1 else w1))"
    have s: "w_db (snd s) = w_db w1" "f \<le> fst s" by (auto simp: s_def split: sum.split)
    have "orphan_loop env ifr adm note q batch (fst s, snd s) = (f', w')"
      using Cons.prems r by (simp add: x s_def)
    from Cons.IH [OF this] show ?thesis using s e ends_only_trans by (metis le_trans)
  qed
qed simp

lemma cascade_ends_all [staffing]:
  assumes q: "\<And>i. quiet (ifr i)"
    and r: "cascadeCancelFutureBookings env ifr aid adm blocked reason w = ((c, 0), w')"
    and few: "length (find_many (future_live env aid (w_db w)) (bookings (w_db w))) \<le> CASCADE_MAX"
  shows "ends_only (w_db w) (w_db w') \<and> (\<forall>b \<in> set (bookings (w_db w')). \<not> future_live env aid (w_db w') b)"
proof -
  define batch where "batch = find_many (future_live env aid (w_db w)) (bookings (w_db w))"
  have full: "take CASCADE_MAX batch = batch" using few by (simp add: batch_def)
  have dead: "ends_only (w_db w) (w_db w') \<and> (\<forall>x \<in> set batch. b_id x \<notin> fst ` live_keys (w_db w'))"
  proof (cases "batch = []")
    case True
    then show ?thesis using r full by (simp add: cascadeCancelFutureBookings_def batch_def [symmetric])
  next
    case False
    obtain cfg d1 where cfg: "load_loyalty_config (w_db w) = (cfg, d1)" by fastforce
    let ?q = "lc_qarPerPoint cfg" and ?n = "refund_note blocked reason"
    obtain c1 f1 w1 where l: "cascade_loop env ifr adm ?n ?q (with_payment (w_db w) batch) ((0, 0), w\<lparr>w_db := d1\<rparr>) = ((c1, f1), w1)"
      by (metis prod.collapse)
    define orphans where "orphans = with_payment (w_db w1) (take CASCADE_MAX (find_many (orphaned aid (w_db w1)) (bookings (w_db w1))))"
    obtain f2 w2 where o: "orphan_loop env ifr adm ?n ?q orphans (f1, w1) = (f2, w2)" by fastforce
    have w': "w_db w' = w_db w2" "f2 = 0"
      using r False full cfg l o by (auto simp: cascadeCancelFutureBookings_def Let_def batch_def [symmetric] orphans_def split: if_splits)
    note e1 = cascade_loop_ends [OF q l] and e2 = orphan_loop_ends [OF q o]
    have f1: "f1 = 0" using e2 w'(2) by simp
    have "ends_only (w_db w) d1" using apart_config [OF cfg] by (rule ends_only_apart)
    also have "ends_only d1 (w_db w1)" using e1 by simp
    also have e: "ends_only (w_db w1) (w_db w')" using e2 w'(1) by simp
    finally have "ends_only (w_db w) (w_db w')" .
    moreover have "b_id x \<notin> fst ` live_keys (w_db w')" if "x \<in> set batch" for x
      by (rule ends_only_dead [OF e]) (use e1 f1 that in \<open>auto simp: with_payment_def\<close>)
    ultimately show ?thesis by blast
  qed
  have "\<not> future_live env aid (w_db w') b" if b: "b \<in> set (bookings (w_db w'))" for b
  proof
    assume fl: "future_live env aid (w_db w') b"
    then have "(b_id b, b_activityId b, b_start b) \<in> live_keys (w_db w')"
      using b by (auto simp: live_keys_def future_live_def)
    then have k: "b_id b \<in> fst ` live_keys (w_db w')" "(b_id b, b_activityId b, b_start b) \<in> live_keys (w_db w)"
      using dead by (force simp: ends_only_def)+
    then obtain b0 where b0: "b0 \<in> set (bookings (w_db w))" "live b0" "b_id b0 = b_id b"
      "b_activityId b0 = b_activityId b" "b_start b0 = b_start b"
      by (force simp: live_keys_def)
    have "activity_tz (w_db w') aid = activity_tz (w_db w) aid" using dead by (simp add: activity_tz_def ends_only_def cong: option.case_cong)
    then have "b0 \<in> set batch" using b0 fl by (simp add: batch_def find_many_def future_live_def)
    then show False using dead k(1) b0(3) by metis
  qed
  then show ?thesis using dead by blast
qed

end
