(* ===== verification/StatusTheorems.thy ===== *)
theory StatusTheorems
  imports CascadeProps PaymentTheorems PayoutTheorems
begin

text \<open>
  The properties of status changes by staff, each with a concrete run: a cancellation settles the
  booking once and in full, a cascade leaves nothing live, and what the handlers do not check.
\<close>

section \<open>Cancelling once, in full\<close>

definition sc_staff :: staff_env where
  "sc_staff = \<lparr>st_now = sc_now, st_tz = qatar_tz\<rparr>"

text \<open>C31. When an admin's cancellation of a captured booking wins, the customer gets the whole price as
  points and the redeemed points back, less what the booking had earned as far as the balance
  reaches; the payment is refunded in its full amount, the ledger stays consistent, and any later
  cancellation of the booking changes nothing.\<close>

theorem admin_cancel_settles_once:
  assumes r: "admin_updateBookingStatus env ifr adm bid CANCELLED w = (Inr res, w')" "sr_cancelledNow res"
    and d: "ifr (w_db w) = d" "points_ok d" "unique_on b_id (bookings d)" "unique_on p_id (payments d)"
    and b: "b \<in> set (bookings d)" "b_id b = bid" "payment_of d b = Some p" "0 \<le> b_pointsRedeemed b" "two_dp (b_pointsRedeemed b)"
    and p: "p_status p = SUCCESS" "0 \<le> p_amount p"
    and bal: "balance_of d (b_customerId b) = Some y"
  shows "points_ok (w_db w') \<and>
    balance_of (w_db w') (b_customerId b) = Some (y + owed d b p - taken_back d b (y + owed d b p)) \<and>
    (\<exists>q \<in> set (payments (w_db w')). p_id q = p_id p \<and> p_status q = REFUNDED \<and> p_refundAmount q = Some (p_amount p)) \<and>
    (\<exists>res2. admin_updateBookingStatus env2 id adm2 bid CANCELLED w' = (Inr res2, w') \<and> \<not> sr_cancelledNow res2)"
proof -
  have tx: "admin_cancel_tx env adm bid d = Inr (res, w_db w')" using admin_cancel_handler [OF r(1)] d(1) by simp
  note e = admin_cancel_captured [OF tx r(2) d(2,3) b(1-3) p b(4,5) bal]
  have "p \<in> set (payments d)" using b(3) by (auto simp: payment_of_def bind_eq_Some_conv dest: find_first_Some)
  then have "refunded_whole (st_now env) p \<in> set (payments (w_db w'))" using e by (auto simp: update_many_set)
  moreover have "p_id (refunded_whole (st_now env) p) = p_id p \<and> p_status (refunded_whole (st_now env) p) = REFUNDED \<and>
      p_refundAmount (refunded_whole (st_now env) p) = Some (p_amount p)"
    by (simp add: refunded_whole_def)
  ultimately have paid: "\<exists>q \<in> set (payments (w_db w')). p_id q = p_id p \<and> p_status q = REFUNDED \<and> p_refundAmount q = Some (p_amount p)"
    by blast
  have "bid \<in> set (map b_id (bookings (w_db w')))" using b e by force
  then obtain b' where b': "find_first (\<lambda>b. b_id b = bid) (bookings (w_db w')) = Some b'"
    by (cases "find_first (\<lambda>b. b_id b = bid) (bookings (w_db w'))") (auto simp: find_first_None)
  have "admin_cancel_tx env2 adm2 bid (w_db w') = Inr (\<lparr>sr_booking = b', sr_cancelledNow = False, sr_clawback = None\<rparr>, w_db w')"
    by (rule admin_cancel_again [OF _ b']) (use e in blast)
  then have "admin_updateBookingStatus env2 id adm2 bid CANCELLED w' = (Inr \<lparr>sr_booking = b', sr_cancelledNow = False, sr_clawback = None\<rparr>, w')"
    by (simp add: admin_updateBookingStatus_def b' run_status_def status_tx_def transaction_def after_status_def)
  then show ?thesis using e paid bal by (auto simp: debited_def)
qed

lemma sc_done_rows:
  "bookings sc_db_done = [sc_done]" "payments sc_db_done = [sc_earned]" "w_db sc_world_done = sc_db_done"
  "activities sc_db_done = [sc_hourly, sc_daily, sc_shared]"
  by (simp_all add: sc_db_done_def sc_world_done_def sc_db_booked_def sc_db_coupon_def sc_db_def)

lemma sc_done_booking:
  "b_id sc_done = 100" "payment_of sc_db_done sc_done = Some sc_earned" "b_customerId sc_done = 7"
  "b_pointsRedeemed sc_done = 20" "p_status sc_earned = SUCCESS" "p_amount sc_earned = 111" "p_id sc_earned = 101"
  "balance_of sc_db_done 7 = Some 80" "owed sc_db_done sc_done sc_earned = 131" "taken_back sc_db_done sc_done 211 = 0"
  by code_simp+

lemma sc_points_done: "points_ok sc_db_done"
  by (simp add: points_ok_def sc_db_done_def sc_db_booked_def sc_db_coupon_def sc_db_def unique_on_def rows_ok_def ledger_sum_def
      sum_rows_def sc_grant_def sc_customer_def sc_vendor_user_def two_dp_def All_less_Suc less_Suc_eq nth_Cons')

definition sc_cancelled :: "(exn + staff_result) \<times> world" where
  "sc_cancelled = admin_updateBookingStatus sc_staff id 9 100 CANCELLED sc_world_done"

lemma sc_cancelled_now: "(case fst sc_cancelled of Inr r \<Rightarrow> sr_cancelledNow r | Inl _ \<Rightarrow> False)"
  by code_simp

theorem admin_cancel_settles_once_witness:
  "balance_of (w_db (snd sc_cancelled)) 7 = Some 211 \<and>
   (\<exists>res2. admin_updateBookingStatus sc_staff id 9 100 CANCELLED (snd sc_cancelled) = (Inr res2, snd sc_cancelled) \<and>
     \<not> sr_cancelledNow res2)"
proof -
  obtain res where res: "fst sc_cancelled = Inr res" "sr_cancelledNow res"
    using sc_cancelled_now by (cases "fst sc_cancelled") auto
  then have x: "admin_updateBookingStatus sc_staff id 9 100 CANCELLED sc_world_done = (Inr res, snd sc_cancelled)"
    unfolding sc_cancelled_def by (metis prod.collapse)
  show ?thesis
    using admin_cancel_settles_once [OF x res(2) _ sc_points_done, of sc_done sc_earned 80 sc_staff 9]
    by (simp add: sc_done_rows sc_done_booking unique_on_def two_dp_of_int [of 20, simplified])
qed

section \<open>Nothing is left live\<close>

text \<open>C32. An admin who blocks or deactivates an activity, with at most a thousand upcoming bookings and no
  failure reported, leaves no pending or confirmed booking of it that has not started, provided
  the writers interfering with the batch create and revive none.\<close>

theorem cascade_clears_activity:
  assumes "\<forall>i. quiet (ifr i)" "status = ACT_BLOCKED \<or> status = ACT_INACTIVE"
    and r: "updateActivityStatus env ifr aid status adm reason w = (Inr (Some (n, 0)), w')"
    and "length (find_many (future_live env aid (w_db w)) (bookings (w_db w))) \<le> CASCADE_MAX"
  shows "(\<forall>b \<in> set (bookings (w_db w')). \<not> future_live env aid (w_db w') b) \<and>
    (\<forall>a \<in> set (activities (w_db w')). a_id a = aid \<longrightarrow> a_status a = status)"
proof -
  obtain w2 where c: "cascadeCancelFutureBookings env ifr aid adm (status = ACT_BLOCKED) reason w2 = ((n, 0), w')"
    and d: "w_db w2 = set_activity_status (\<lambda>a. a_id a = aid) status (w_db w)"
    using r assms(2)
    by (auto simp: updateActivityStatus_def Let_def split: option.splits prod.splits if_splits)
  have tz: "activity_tz (w_db w2) aid = activity_tz (w_db w) aid"
    using find_first_update [of a_id "\<lambda>a. a\<lparr>a_status := status\<rparr>" aid aid "activities (w_db w)"]
    by (simp add: activity_tz_def d set_activity_status_def split: option.split)
  have "future_live env aid (w_db w2) = future_live env aid (w_db w)" by (simp add: future_live_def tz fun_eq_iff)
  then have "length (find_many (future_live env aid (w_db w2)) (bookings (w_db w2))) \<le> CASCADE_MAX"
    using assms(4) by (simp add: d set_activity_status_def)
  with c have e: "ends_only (w_db w2) (w_db w')" "\<forall>b \<in> set (bookings (w_db w')). \<not> future_live env aid (w_db w') b"
    using cascade_ends_all assms(1) by blast+
  have "a_status a = status" if a: "a \<in> set (activities (w_db w'))" "a_id a = aid" for a
  proof -
    have "a \<in> set (update_many (\<lambda>a. a_id a = aid) (\<lambda>a. a\<lparr>a_status := status\<rparr>) (activities (w_db w)))"
      using e(1) a(1) by (simp add: ends_only_def d set_activity_status_def)
    then obtain a0 where "a = (if a_id a0 = aid then a0\<lparr>a_status := status\<rparr> else a0)"
      unfolding update_many_mem by blast
    then show ?thesis using a(2) by (cases "a_id a0 = aid") simp_all
  qed
  then show ?thesis using e(2) by blast
qed

lemma sc_blocked: "fst (updateActivityStatus sc_staff (\<lambda>_. id) 10 ACT_BLOCKED 9 None sc_world_done) = Inr (Some (1, 0))"
  by code_simp

theorem cascade_clears_activity_witness:
  "\<exists>w'. updateActivityStatus sc_staff (\<lambda>_. id) 10 ACT_BLOCKED 9 None sc_world_done = (Inr (Some (1, 0)), w') \<and>
    \<not> list_ex (future_live sc_staff 10 (w_db w')) (bookings (w_db w'))"
proof -
  obtain w' where x: "updateActivityStatus sc_staff (\<lambda>_. id) 10 ACT_BLOCKED 9 None sc_world_done = (Inr (Some (1, 0)), w')"
    using sc_blocked by (metis prod.collapse)
  have "length (find_many (future_live sc_staff 10 (w_db sc_world_done)) (bookings (w_db sc_world_done))) \<le> CASCADE_MAX"
    by (simp add: sc_done_rows find_many_def CASCADE_MAX_def)
  then show ?thesis
    using cascade_clears_activity [OF _ _ x] x by (auto simp: quiet_def list_ex_iff)
qed

section \<open>What the handlers do not check\<close>

lemma status_tx_other [staffing]: "st \<noteq> CANCELLED \<Longrightarrow> status_tx c st b = set_status_tx st b"
  by (simp add: status_tx_def fun_eq_iff)

lemma vendor_status_handler [staffing]:
  assumes "resolveVendor (w_db w) u = Inr v"
    and "find_first (\<lambda>b. b_id b = bid \<and> b_vendorId b = v_id v) (bookings (w_db w)) = Some b"
    and "st \<in> {CONFIRMED, COMPLETED}" "st = COMPLETED \<Longrightarrow>
      b_end b \<le> nowInTimezone (st_tz env) (activity_tz (w_db w) (b_activityId b)) (st_now env)"
  shows "vendor_updateBookingStatus env id u bid st w = run_status id b (set_status_tx st b) w"
  using assms by (auto simp: vendor_updateBookingStatus_def status_tx_other)

lemma set_status_row [staffing]:
  assumes "find_first (\<lambda>r. b_id r = b_id b \<and> q r) (bookings d) = Some b"
  shows "update_booking_or_throw (b_id b) (\<lambda>r. r\<lparr>b_status := st\<rparr>) d = Inr (update_booking (b_id b) (\<lambda>r. r\<lparr>b_status := st\<rparr>) d)"
    "\<exists>b'. current_row (b_id b) (update_booking (b_id b) (\<lambda>r. r\<lparr>b_status := st\<rparr>) d) = Inr b'"
proof -
  have b: "b \<in> set (bookings d)" using find_first_Some [OF assms] by simp
  then show "update_booking_or_throw (b_id b) (\<lambda>r. r\<lparr>b_status := st\<rparr>) d = Inr (update_booking (b_id b) (\<lambda>r. r\<lparr>b_status := st\<rparr>) d)"
    by (auto simp: update_booking_or_throw_Inr)
  have "b\<lparr>b_status := st\<rparr> \<in> set (bookings (update_booking (b_id b) (\<lambda>r. r\<lparr>b_status := st\<rparr>) d))"
    using b by (auto simp: update_booking_def update_many_set)
  then have "find_first (\<lambda>r. b_id r = b_id b) (bookings (update_booking (b_id b) (\<lambda>r. r\<lparr>b_status := st\<rparr>) d)) \<noteq> None"
    unfolding find_first_None by force
  then show "\<exists>b'. current_row (b_id b) (update_booking (b_id b) (\<lambda>r. r\<lparr>b_status := st\<rparr>) d) = Inr b'"
    by (auto simp: current_row_Inr)
qed

text \<open>Neither handler looks at the status it leaves: once its end has passed, a vendor may complete a
  booking that was cancelled and refunded in full, and the customer then also earns the points of a
  consumed booking, although the payment stays refunded.\<close>

theorem refunded_booking_still_earns:
  assumes v: "resolveVendor (w_db w) u = Inr v"
    and b: "find_first (\<lambda>b. b_id b = bid \<and> b_vendorId b = v_id v) (bookings (w_db w)) = Some b"
      "unique_on b_id (bookings (w_db w))" "b_status b = CANCELLED" "\<not> b_pointsAwarded b"
      "b_end b \<le> nowInTimezone (st_tz env) (activity_tz (w_db w) (b_activityId b)) (st_now env)"
    and p: "payment_of (w_db w) b = Some p" "p_status p = REFUNDED"
    and cfg: "loyaltyConfig (w_db w) = Some cfg"
    and pts: "x = computeEarnedPoints (b_totalPrice b) (b_pointsDiscount b) (lc_pointsPerQar cfg)" "0 < x"
    and user: "points_ok (w_db w)" "balance_of (w_db w) (b_customerId b) = Some y"
      "\<not> ledger_taken (w_db w) (Some bid) BOOKING_EARN"
  shows "\<exists>res w'. vendor_updateBookingStatus env id u bid COMPLETED w = (Inr res, w') \<and>
    balance_of (w_db w') (b_customerId b) = Some (y + x) \<and> payments (w_db w') = payments (w_db w)"
proof -
  have bid: "b_id b = bid" "b \<in> set (bookings (w_db w))" using find_first_Some [OF b(1)] by simp_all
  have f: "find_first (\<lambda>r. b_id r = b_id b \<and> b_vendorId r = v_id v) (bookings (w_db w)) = Some b"
    using b(1) bid by simp
  note up = set_status_row [OF f, of COMPLETED]
  obtain b' where b': "current_row (b_id b) (update_booking (b_id b) (\<lambda>r. r\<lparr>b_status := COMPLETED\<rparr>) (w_db w)) = Inr b'"
    using up(2) by blast
  define d1 where "d1 = update_booking (b_id b) (\<lambda>r. r\<lparr>b_status := COMPLETED\<rparr>) (w_db w)"
  define sel :: "booking \<Rightarrow> bool" where "sel = (\<lambda>r. b_id r = b_id b \<and> \<not> b_pointsAwarded r)"
  define d2 where "d2 = d1\<lparr>bookings := update_many sel (\<lambda>r. r\<lparr>b_pointsAwarded := True\<rparr>) (bookings d1)\<rparr>"
  have uq: "unique_on b_id (bookings d1)" using b(2) by (simp add: d1_def update_booking_def update_many_unique)
  have "b\<lparr>b_status := COMPLETED\<rparr> \<in> set (bookings d1)" using bid by (auto simp: d1_def update_booking_def update_many_set)
  then have "count_rows sel (bookings d1) = 1"
    using count_rows_unique [OF uq, of "b\<lparr>b_status := COMPLETED\<rparr>" "\<lambda>r. \<not> b_pointsAwarded r"] b(4) by (simp add: sel_def)
  moreover have "load_loyalty_config d1 = (cfg, d1)"
    using cfg by (simp add: load_loyalty_config_def d1_def update_booking_def)
  moreover have same: "users d2 = users (w_db w)" "ledger d2 = ledger (w_db w)" "payments d2 = payments (w_db w)"
    by (simp_all add: d2_def d1_def update_booking_def)
  have r: "round2 x = x" using pts by (simp add: computeEarnedPoints_def round2_id Let_def split: if_splits)
  have e: "earn d2 (b_customerId b) x (b_id b) = Inr (y + x, post d2 (credit_row (b_customerId b) x (b_id b) BOOKING_EARN SYSTEM None (y + x)))"
    unfolding earn_eq_refund
    by (rule refund_succeeds)
      (use points_ok_same [OF same(1,2)] user pts r bid same round2_two_dp [of x] in \<open>simp_all add: ledger_taken_def\<close>)
  ultimately have aw: "award_completed b d1 = Inr (True, post d2 (credit_row (b_customerId b) x (b_id b) BOOKING_EARN SYSTEM None (y + x)))"
    using b(4) pts by (simp add: award_completed_def Let_def sel_def d2_def)
  have "vendor_updateBookingStatus env id u bid COMPLETED w = run_status id b (set_status_tx COMPLETED b) w"
    by (rule vendor_status_handler [OF v b(1)]) (use b in auto)
  then show ?thesis
    using up(1) b' aw user points_ok_same [OF same(1,2)] same(3)
    by (simp add: run_status_def set_status_tx_def transaction_def d1_def [symmetric] after_status_def post_tables)
qed

text \<open>The vendor cancels the confirmed booking, which refunds it, and marks it completed after its day.\<close>

definition sc_refunded :: world where
  "sc_refunded = sc_world_done\<lparr>w_db := sc_db_done
     \<lparr>bookings := [sc_done\<lparr>b_status := CANCELLED\<rparr>], payments := [sc_earned\<lparr>p_status := REFUNDED\<rparr>]\<rparr>\<rparr>"

definition sc_staff_later :: staff_env where
  "sc_staff_later = sc_staff\<lparr>st_now := sc_now + 30 * day_ms\<rparr>"

lemma sc_refunded_rows:
  "bookings (w_db sc_refunded) = [sc_done\<lparr>b_status := CANCELLED\<rparr>]" "payments (w_db sc_refunded) = [sc_earned\<lparr>p_status := REFUNDED\<rparr>]"
  "users (w_db sc_refunded) = users sc_db_done" "ledger (w_db sc_refunded) = ledger sc_db_done"
  by (simp_all add: sc_refunded_def)

lemma sc_refunded_facts:
  "resolveVendor (w_db sc_refunded) 8 = Inr sc_vendor" "v_id sc_vendor = 3" "b_vendorId sc_done = 3" "\<not> b_pointsAwarded sc_done"
  "b_end sc_done \<le> nowInTimezone (st_tz sc_staff_later) (activity_tz (w_db sc_refunded) (b_activityId sc_done)) (st_now sc_staff_later)"
  "payment_of (w_db sc_refunded) sc_done = Some (sc_earned\<lparr>p_status := REFUNDED\<rparr>)"
  "loyaltyConfig (w_db sc_refunded) = Some \<lparr>lc_pointsPerQar = 1 / 100, lc_qarPerPoint = 1, lc_minRedemption = 1\<rparr>"
  "computeEarnedPoints (b_totalPrice sc_done) (b_pointsDiscount sc_done) (1 / 100) = 53 / 50"
  "\<not> ledger_taken sc_db_done (Some 100) BOOKING_EARN"
  by code_simp+

theorem refunded_booking_still_earns_witness:
  "\<exists>res w'. vendor_updateBookingStatus sc_staff_later id 8 100 COMPLETED sc_refunded = (Inr res, w') \<and>
    balance_of (w_db w') 7 = Some (80 + 53 / 50) \<and> payments (w_db w') = [sc_earned\<lparr>p_status := REFUNDED\<rparr>]"
proof -
  have ok: "points_ok (w_db sc_refunded)" "balance_of (w_db sc_refunded) = balance_of sc_db_done"
    "ledger_taken (w_db sc_refunded) = ledger_taken sc_db_done"
    using points_ok_same [of "w_db sc_refunded" sc_db_done] sc_points_done ledger_taken_same [of "w_db sc_refunded" sc_db_done]
    by (simp_all add: sc_refunded_rows)
  have f: "find_first (\<lambda>b. b_id b = 100 \<and> b_vendorId b = v_id sc_vendor) (bookings (w_db sc_refunded)) = Some (sc_done\<lparr>b_status := CANCELLED\<rparr>)"
    by (simp add: sc_refunded_rows sc_refunded_facts sc_done_booking)
  have p: "payment_of (w_db sc_refunded) (sc_done\<lparr>b_status := CANCELLED\<rparr>) = Some (sc_earned\<lparr>p_status := REFUNDED\<rparr>)"
    using sc_refunded_facts(6) by (simp add: payment_of_def)
  show ?thesis
    using refunded_booking_still_earns [OF sc_refunded_facts(1) f _ _ _ _ p _ sc_refunded_facts(7) refl _ ok(1), of sc_staff_later 80]
      sc_refunded_facts sc_done_booking ok by (simp add: sc_refunded_rows unique_on_def)
qed

text \<open>A vendor may set a cancelled booking back to confirmed without the calendar being looked at:
  where its unit has been sold again for the same time, two active bookings then share the unit.\<close>

theorem revived_booking_clashes:
  assumes v: "resolveVendor (w_db w) u = Inr v"
    and b: "find_first (\<lambda>b. b_id b = bid \<and> b_vendorId b = v_id v) (bookings (w_db w)) = Some b" "b_status b = CANCELLED"
    and c: "c \<in> set (bookings (w_db w))" "activeBookingFilter now c" "b_activityId c = b_activityId b" "b_id c \<noteq> bid" "clash b c"
  shows "\<exists>res w'. vendor_updateBookingStatus env id u bid CONFIRMED w = (Inr res, w') \<and>
    \<not> units_exclusive (w_db w') now (b_activityId b)"
proof -
  have bid: "b_id b = bid" "b \<in> set (bookings (w_db w))" using find_first_Some [OF b(1)] by simp_all
  have f: "find_first (\<lambda>r. b_id r = b_id b \<and> b_vendorId r = v_id v) (bookings (w_db w)) = Some b" using b(1) bid by simp
  note up = set_status_row [OF f, of CONFIRMED]
  define d1 where "d1 = update_booking (b_id b) (\<lambda>r. r\<lparr>b_status := CONFIRMED\<rparr>) (w_db w)"
  obtain b' where b': "current_row (b_id b) d1 = Inr b'" using up(2) by (auto simp: d1_def)
  have "vendor_updateBookingStatus env id u bid CONFIRMED w = run_status id b (set_status_tx CONFIRMED b) w"
    by (rule vendor_status_handler [OF v b(1)]) simp_all
  then have run: "vendor_updateBookingStatus env id u bid CONFIRMED w =
      (Inr \<lparr>sr_booking = b', sr_cancelledNow = False, sr_clawback = None\<rparr>, w\<lparr>w_db := d1\<rparr>)"
    using up(1) b' by (simp add: run_status_def set_status_tx_def transaction_def d1_def [symmetric] after_status_def)
  let ?b = "b\<lparr>b_status := CONFIRMED\<rparr>"
  have rows: "bookings d1 = update_many (\<lambda>r. b_id r = b_id b) (\<lambda>r. r\<lparr>b_status := CONFIRMED\<rparr>) (bookings (w_db w))"
    by (simp add: d1_def update_booking_def)
  have "?b \<in> set (active_rows d1 now (b_activityId b))" using bid(2) by (auto simp: active_rows_def rows update_many_set)
  moreover have "c \<in> set (active_rows d1 now (b_activityId b))" using c(1-4) bid(1) by (auto simp: active_rows_def rows update_many_set)
  moreover have "?b \<noteq> c" using c(4) bid(1) by auto
  moreover have "clash ?b c" using c(5) by (simp add: clash_def)
  ultimately have "\<not> units_exclusive d1 now (b_activityId b)" by (rule clash_breaks_exclusive)
  then show ?thesis using run by simp
qed

definition sc_world_resold :: world where
  "sc_world_resold = stay_world\<lparr>w_db := stay_db\<lparr>bookings := [stay_booking\<lparr>b_status := CANCELLED\<rparr>, sc_rebooked], payments := []\<rparr>\<rparr>"

lemma sc_resold_facts:
  "resolveVendor (w_db sc_world_resold) 8 = Inr sc_vendor" "b_vendorId stay_booking = 3" "b_id stay_booking = 100"
  "b_activityId stay_booking = 11" "b_activityId sc_rebooked = 11" "b_id sc_rebooked = 300" "activeBookingFilter sc_now sc_rebooked"
  by code_simp+

lemma sc_resold_exclusive: "units_exclusive (w_db sc_world_resold) sc_now 11"
proof -
  have "active_rows (w_db sc_world_resold) sc_now 11 = [sc_rebooked]" by code_simp
  then show ?thesis by (simp add: units_exclusive_def)
qed

theorem revived_booking_clashes_witness:
  "units_exclusive (w_db sc_world_resold) sc_now 11 \<and>
   (\<exists>res w'. vendor_updateBookingStatus sc_staff id 8 100 CONFIRMED sc_world_resold = (Inr res, w') \<and>
      \<not> units_exclusive (w_db w') sc_now 11)"
proof -
  have rows: "bookings (w_db sc_world_resold) = [stay_booking\<lparr>b_status := CANCELLED\<rparr>, sc_rebooked]"
    by (simp add: sc_world_resold_def)
  have f: "find_first (\<lambda>b. b_id b = 100 \<and> b_vendorId b = v_id sc_vendor) (bookings (w_db sc_world_resold)) =
      Some (stay_booking\<lparr>b_status := CANCELLED\<rparr>)"
    by (simp add: rows sc_resold_facts sc_refunded_facts(2))
  have "clash (stay_booking\<lparr>b_status := CANCELLED\<rparr>) sc_rebooked" using sc_clash(2) by (simp add: clash_def)
  then show ?thesis
    using revived_booking_clashes [OF sc_resold_facts(1) f, of sc_rebooked sc_now sc_staff] sc_resold_facts sc_resold_exclusive
    by (simp add: rows)
qed

text \<open>The cascade returns before its second part when the activity has no upcoming live booking: the
  refunds its customers are waiting for are then not approved, although the activity is blocked.\<close>

theorem block_leaves_refunds_undecided:
  assumes "\<forall>b \<in> set (bookings (w_db w)). \<not> future_live env aid (w_db w) b" "\<exists>a \<in> set (activities (w_db w)). a_id a = aid"
    and "b \<in> set (bookings (w_db w))" "orphaned aid (w_db w) b"
  shows "\<exists>w'. updateActivityStatus env ifr aid ACT_BLOCKED adm reason w = (Inr (Some (0, 0)), w') \<and>
    b \<in> set (bookings (w_db w')) \<and> orphaned aid (w_db w') b"
proof -
  obtain a where a: "find_first (\<lambda>a. a_id a = aid) (activities (w_db w)) = Some a"
    using assms(2) by (cases "find_first (\<lambda>a. a_id a = aid) (activities (w_db w))") (auto simp: find_first_None)
  have "activity_tz (set_activity_status (\<lambda>a. a_id a = aid) ACT_BLOCKED (w_db w)) aid = activity_tz (w_db w) aid"
    using find_first_update [of a_id "\<lambda>a. a\<lparr>a_status := ACT_BLOCKED\<rparr>" aid aid "activities (w_db w)"]
    by (simp add: activity_tz_def set_activity_status_def split: option.split)
  then have none: "find_many (future_live env aid (set_activity_status (\<lambda>a. a_id a = aid) ACT_BLOCKED (w_db w))) (bookings (w_db w)) = []"
    using assms(1) by (simp add: find_many_def filter_empty_conv future_live_def)
  have keeps: "orphaned aid (set_activity_status sel st d) b = orphaned aid d b" "bookings (set_activity_status sel st d) = bookings d" for sel st d
    by (simp_all add: orphaned_def payment_of_def set_activity_status_def)
  show ?thesis
    using a none assms(3,4)
    by (simp add: updateActivityStatus_def Let_def cascadeCancelFutureBookings_def keeps split: option.split)
qed

definition sc_world_waiting :: world where
  "sc_world_waiting = sc_world_done\<lparr>w_db := sc_db_done
     \<lparr>bookings := [sc_done\<lparr>b_status := CANCELLED\<rparr>], payments := [sc_earned\<lparr>p_status := REFUND_PENDING\<rparr>]\<rparr>\<rparr>"

theorem block_leaves_refunds_undecided_witness:
  "\<exists>w'. updateActivityStatus sc_staff (\<lambda>_. id) 10 ACT_BLOCKED 9 None sc_world_waiting = (Inr (Some (0, 0)), w') \<and>
    orphaned 10 (w_db w') (sc_done\<lparr>b_status := CANCELLED\<rparr>)"
proof -
  have rows: "bookings (w_db sc_world_waiting) = [sc_done\<lparr>b_status := CANCELLED\<rparr>]"
    "activities (w_db sc_world_waiting) = [sc_hourly, sc_daily, sc_shared]"
    by (simp_all add: sc_world_waiting_def sc_done_rows)
  have "orphaned 10 (w_db sc_world_waiting) (sc_done\<lparr>b_status := CANCELLED\<rparr>)" "a_id sc_hourly = 10" by code_simp+
  then show ?thesis
    using block_leaves_refunds_undecided [of sc_world_waiting sc_staff 10 "sc_done\<lparr>b_status := CANCELLED\<rparr>" "\<lambda>_. id" 9 None]
    by (auto simp: rows future_live_def live_def)
qed

end
