(* ===== verification/Sessions.thy ===== *)
theory Sessions
  imports Model
begin

text \<open>
  Sessions: \<open>issueTokens\<close>, \<open>refreshTokens\<close>, \<open>logout\<close> of \<open>apps/api/src/auth/auth.service.ts\<close>, the denylist of
  \<open>redis/session-denylist.service.ts\<close>, \<open>JwtStrategy.validate\<close> and the session endpoints of
  \<open>auth.controller.ts\<close>. A session is a family of refresh tokens, of which all but the newest are
  tombstones; an access token names its family. The signature check of \<open>passport-jwt\<close>, SHA-256 and
  bcrypt are parameters.
\<close>

named_theorems session \<open>facts about sessions and accounts\<close>

section \<open>State\<close>

datatype user_role = IS_CUSTOMER | IS_VENDOR | IS_ADMIN

record account =
  ac_id :: uid
  ac_email :: string
  ac_role :: user_role
  ac_password :: "string option"
  ac_failed :: int
  ac_lockedUntil :: "ms option"
  ac_emailVerified :: bool
  ac_deactivated :: bool
  ac_deletedAt :: "ms option"
  ac_resetToken :: "string option"
  ac_resetExpiry :: "ms option"
  ac_verifyToken :: "string option"
  ac_verifyExpiry :: "ms option"
  ac_phone :: "string option"
  ac_googleId :: "string option"
  ac_terms :: "(ms \<times> string) option"

record refresh_token =
  rt_id :: uid
  rt_userId :: uid
  rt_hash :: string
  rt_expiresAt :: ms
  rt_createdAt :: ms
  rt_startedAt :: ms
  rt_family :: uid
  rt_rotatedAt :: "ms option"

text \<open>The payload of an access token, and when it was signed; tokens of older releases have no \<open>sid\<close>.\<close>

record access_token =
  at_sub :: uid
  at_role :: user_role
  at_sid :: "uid option"
  at_iat :: ms

datatype auth_event =
  SetCookies access_token string
| ClearCookies
| SecurityLog string uid
| ResetMail string string
| VerifyMail string string
| AccountExistsMail string

text \<open>
  \<open>a_denied\<close> and \<open>a_logins\<close> are the Redis keys of the denylist and of the login counter, with the
  instant at which each expires; \<open>a_up\<close> tells whether Redis answers (in time).
\<close>

record auth =
  a_now :: ms
  a_accounts :: "account list"
  a_vendors :: "vendor list"
  a_tokens :: "refresh_token list"
  a_denied :: "uid \<Rightarrow> ms option"
  a_logins :: "string \<Rightarrow> (nat \<times> ms) option"
  a_cooldown :: "string \<Rightarrow> ms option"
  a_up :: bool
  a_fx :: "auth_event list"

record auth_config =
  k_accessExpiry :: int
  k_refreshDays :: int
  k_sessionMaxDays :: int
  k_graceMs :: int
  k_maxTokens :: int
  k_lockThreshold :: int
  k_lockMinutes :: int
  k_globalThreshold :: nat
  k_globalWindowSec :: int
  k_cooldownSec :: int
  k_resetHours :: int
  k_sha :: "string \<Rightarrow> string"
  k_bcrypt :: "string \<Rightarrow> string \<Rightarrow> bool"
  k_bcryptHash :: "string \<Rightarrow> string"
  k_jwt :: "access_token \<Rightarrow> ms \<Rightarrow> bool"

text \<open>The identifiers and random strings a call draws.\<close>

record fresh =
  f_id :: uid
  f_family :: uid
  f_raw :: string

datatype auth_error =
  SessionExpired | InvalidCredentials | EmailNotVerified | AccountDeactivated | VendorProfileMissing
| VendorAwaitsApproval | AccountSuspended | TooManyLogins | InvalidLink | WrongCurrentPassword | SamePassword
| NoLocalPassword | NotForCustomers | NotYourSession | NoSuchUser | AdminProtected | TokenCollision
| PhoneTaken | TooManyMails | UnverifiedAddress | WrongConfirmation | AccountNotFound | VendorsMayNotDelete

type_synonym race = "auth \<Rightarrow> auth"

definition auth_emit :: "auth_event list \<Rightarrow> auth \<Rightarrow> auth" where
  "auth_emit fx s = s\<lparr>a_fx := a_fx s @ fx\<rparr>"

definition account_of :: "uid \<Rightarrow> auth \<Rightarrow> account option" where
  "account_of uid s = find_first (\<lambda>a. ac_id a = uid) (a_accounts s)"

definition update_account :: "uid \<Rightarrow> (account \<Rightarrow> account) \<Rightarrow> auth \<Rightarrow> auth" where
  "update_account uid f s = s\<lparr>a_accounts := update_many (\<lambda>a. ac_id a = uid) f (a_accounts s)\<rparr>"

definition token_row :: "string \<Rightarrow> auth \<Rightarrow> refresh_token option" where
  "token_row h s = find_first (\<lambda>t. rt_hash t = h) (a_tokens s)"

definition delete_tokens :: "(refresh_token \<Rightarrow> bool) \<Rightarrow> auth \<Rightarrow> auth" where
  "delete_tokens sel s = s\<lparr>a_tokens := delete_many sel (a_tokens s)\<rparr>"

section \<open>The denylist\<close>

definition denylist_ttl :: "auth_config \<Rightarrow> ms" where
  "denylist_ttl c = (k_accessExpiry c + 60) * 1000"

text \<open>A write that fails is swallowed.\<close>

definition denylistSession :: "auth_config \<Rightarrow> uid \<Rightarrow> auth \<Rightarrow> auth" where
  "denylistSession c fam s =
     (if a_up s then s\<lparr>a_denied := (a_denied s)(fam \<mapsto> a_now s + denylist_ttl c)\<rparr> else s)"

definition live_families :: "uid \<Rightarrow> uid option \<Rightarrow> auth \<Rightarrow> uid list" where
  "live_families uid keep s =
     remdups (map rt_family (find_many (\<lambda>t. rt_userId t = uid \<and> rt_rotatedAt t = None \<and> Some (rt_family t) \<noteq> keep) (a_tokens s)))"

definition denylist_all :: "auth_config \<Rightarrow> uid list \<Rightarrow> auth \<Rightarrow> auth" where
  "denylist_all c fams s = fold (denylistSession c) fams s"

definition denylistUserSessions :: "auth_config \<Rightarrow> uid \<Rightarrow> uid option \<Rightarrow> auth \<Rightarrow> auth" where
  "denylistUserSessions c uid keep s = denylist_all c (live_families uid keep s) s"

text \<open>A read that fails or is late allows.\<close>

definition isDenied :: "uid option \<Rightarrow> auth \<Rightarrow> bool" where
  "isDenied sid s =
     (case sid of None \<Rightarrow> False
      | Some fam \<Rightarrow> a_up s \<and> (case a_denied s fam of Some until \<Rightarrow> a_now s < until | None \<Rightarrow> False))"

text \<open>\<open>JwtStrategy.validate\<close>, after \<open>passport-jwt\<close> accepted the token: the user of the request and the role in the database.\<close>

definition validate :: "auth_config \<Rightarrow> access_token \<Rightarrow> auth \<Rightarrow> auth_error + (uid \<times> user_role)" where
  "validate c a s =
     (if \<not> k_jwt c a (a_now s) \<or> isDenied (at_sid a) s then Inl SessionExpired
      else case account_of (at_sub a) s of
             None \<Rightarrow> Inl SessionExpired
           | Some u \<Rightarrow> if ac_deactivated u \<or> ac_deletedAt u \<noteq> None then Inl SessionExpired
                       else Inr (ac_id u, ac_role u))"

section \<open>Issuing a pair of tokens\<close>

text \<open>\<open>xs.slice(k)\<close> of JavaScript: a negative start counts from the end.\<close>

definition slice_from :: "int \<Rightarrow> 'a list \<Rightarrow> 'a list" where
  "slice_from k xs = (if 0 \<le> k then drop (nat k) xs else drop (length xs - nat (- k)) xs)"

definition active_tokens :: "uid \<Rightarrow> auth \<Rightarrow> refresh_token list" where
  "active_tokens uid s =
     sort_key (\<lambda>t. - rt_createdAt t) (find_many (\<lambda>t. rt_userId t = uid \<and> rt_rotatedAt t = None) (a_tokens s))"

definition evicted :: "auth_config \<Rightarrow> uid \<Rightarrow> auth \<Rightarrow> uid list" where
  "evicted c uid s =
     (let active = active_tokens uid s in
      if int (length active) \<ge> k_maxTokens c then map rt_id (slice_from (k_maxTokens c - 1) active) else [])"

definition new_token :: "auth_config \<Rightarrow> fresh \<Rightarrow> uid \<Rightarrow> ms \<Rightarrow> uid \<Rightarrow> ms \<Rightarrow> refresh_token" where
  "new_token c f uid started family now = \<lparr>rt_id = f_id f, rt_userId = uid, rt_hash = k_sha c (f_raw f),
     rt_expiresAt = now + k_refreshDays c * day_ms, rt_createdAt = now, rt_startedAt = started,
     rt_family = family, rt_rotatedAt = None\<rparr>"

definition store_token ::
  "auth_config \<Rightarrow> fresh \<Rightarrow> uid \<Rightarrow> ms option \<Rightarrow> uid \<Rightarrow> access_token \<Rightarrow> auth \<Rightarrow> (auth_error + access_token) \<times> auth" where
  "store_token c f uid started family access s =
     (let row = new_token c f uid (case started of Some t \<Rightarrow> t | None \<Rightarrow> a_now s) family (a_now s)
      in if list_ex (\<lambda>t. rt_id t = rt_id row \<or> rt_hash t = rt_hash row) (a_tokens s) then (Inl TokenCollision, s)
         else (Inr access, auth_emit [SetCookies access (f_raw f)] (s\<lparr>a_tokens := a_tokens s @ [row]\<rparr>)))"

text \<open>
  The statements run outside a transaction; the races are what other requests do before the active
  tokens are read, before the superfluous ones are deleted and before the new one is stored. A caller
  that is not interrupted there passes \<open>calm\<close>; overlapping calls are the subject of \<open>IssueOverlap\<close>.
\<close>

type_synonym issue_races = "race \<times> race \<times> race"

definition calm :: issue_races where
  "calm = (id, id, id)"

definition issueTokens ::
  "auth_config \<Rightarrow> fresh \<Rightarrow> issue_races \<Rightarrow> account \<Rightarrow> ms option \<Rightarrow> uid option \<Rightarrow> auth \<Rightarrow> (auth_error + access_token) \<times> auth" where
  "issueTokens c f races user started familyId s =
     (case races of (race1, race2, race3) \<Rightarrow>
      let family = (case familyId of Some fam \<Rightarrow> fam | None \<Rightarrow> f_family f);
          access = \<lparr>at_sub = ac_id user, at_role = ac_role user, at_sid = Some family, at_iat = a_now s\<rparr>;
          s1 = race1 (delete_tokens (\<lambda>t. rt_userId t = ac_id user \<and> rt_expiresAt t < a_now s) s);
          ids = evicted c (ac_id user) s1;
          s2 = race3 (delete_tokens (\<lambda>t. rt_id t \<in> set ids) (race2 s1))
      in store_token c f (ac_id user) started family access s2)"

section \<open>Rotation\<close>

definition revoke_family :: "auth_config \<Rightarrow> uid \<Rightarrow> auth \<Rightarrow> auth" where
  "revoke_family c fam s = delete_tokens (\<lambda>t. rt_family t = fam) (denylistSession c fam s)"

definition cleanupExpiredTokens :: "auth \<Rightarrow> auth" where
  "cleanupExpiredTokens s = delete_tokens (\<lambda>t. rt_expiresAt t < a_now s) s"

definition session_max :: "auth_config \<Rightarrow> ms" where
  "session_max c = k_sessionMaxDays c * day_ms"

text \<open>The user behind a consumed token, and the new pair.\<close>

definition renew :: "auth_config \<Rightarrow> fresh \<Rightarrow> refresh_token \<Rightarrow> auth \<Rightarrow> (auth_error + access_token) \<times> auth" where
  "renew c f t s =
     (case account_of (rt_userId t) s of
        None \<Rightarrow> (Inl SessionExpired, auth_emit [ClearCookies]
          (delete_tokens (\<lambda>r. rt_userId r = rt_userId t) (denylistSession c (rt_family t) s)))
      | Some u \<Rightarrow>
          if ac_deactivated u then (Inl SessionExpired, auth_emit [ClearCookies]
            (delete_tokens (\<lambda>r. rt_userId r = rt_userId t) (denylistSession c (rt_family t) s)))
          else if ac_role u = IS_VENDOR \<and>
              (case find_first (\<lambda>v. v_userId v = ac_id u) (a_vendors s) of
                 None \<Rightarrow> True | Some v \<Rightarrow> v_status v = VENDOR_SUSPENDED)
          then (Inl AccountSuspended, auth_emit [ClearCookies]
            (delete_tokens (\<lambda>r. rt_userId r = ac_id u) (denylistUserSessions c (ac_id u) None s)))
          else issueTokens c f calm u (Some (rt_startedAt t)) (Some (rt_family t))
                 (cleanupExpiredTokens (auth_emit [SecurityLog ''TOKEN_REFRESH'' (ac_id u)] s)))"

text \<open>
  Other requests run while this one awaits: \<open>race1\<close> between reading the token and consuming it,
  \<open>race2\<close> between consuming it and issuing the new pair.
\<close>

definition refreshTokens ::
  "auth_config \<Rightarrow> fresh \<Rightarrow> race \<Rightarrow> race \<Rightarrow> string \<Rightarrow> auth \<Rightarrow> (auth_error + access_token) \<times> auth" where
  "refreshTokens c f race1 race2 raw s =
     (case token_row (k_sha c raw) s of
        None \<Rightarrow> (Inl SessionExpired, s)
      | Some t \<Rightarrow>
          case rt_rotatedAt t of
            Some rotated \<Rightarrow>
              if a_now s - rotated > k_graceMs c
              then (Inl SessionExpired, auth_emit [ClearCookies, SecurityLog ''REFRESH_REUSE_DETECTED'' (rt_userId t)]
                      (revoke_family c (rt_family t) s))
              else (Inl SessionExpired, s)
          | None \<Rightarrow>
              if rt_expiresAt t < a_now s
              then (Inl SessionExpired, delete_tokens (\<lambda>r. rt_id r = rt_id t) s)
              else if a_now s - rt_startedAt t > session_max c
              then (Inl SessionExpired, auth_emit [ClearCookies] (revoke_family c (rt_family t) s))
              else
                let s1 = race1 s;
                    sel = (\<lambda>r. rt_id r = rt_id t \<and> rt_rotatedAt r = None)
                in if count_rows sel (a_tokens s1) = 0 then (Inl SessionExpired, s1)
                   else renew c f t (race2 (s1\<lparr>a_tokens := update_many sel
                          (\<lambda>r. r\<lparr>rt_rotatedAt := Some (a_now s1)\<rparr>) (a_tokens s1)\<rparr>)))"

section \<open>Ending sessions\<close>

definition logout :: "auth_config \<Rightarrow> string option \<Rightarrow> uid option \<Rightarrow> auth \<Rightarrow> auth" where
  "logout c raw userId s =
     auth_emit (ClearCookies # (case userId of Some u \<Rightarrow> [SecurityLog ''LOGOUT'' u] | None \<Rightarrow> []))
       (case raw of
          None \<Rightarrow> s
        | Some r \<Rightarrow> (case token_row (k_sha c r) s of None \<Rightarrow> s | Some t \<Rightarrow> revoke_family c (rt_family t) s))"

definition revokeSession :: "auth_config \<Rightarrow> uid \<Rightarrow> user_role \<Rightarrow> uid \<Rightarrow> auth \<Rightarrow> (auth_error + unit) \<times> auth" where
  "revokeSession c uid urole sessionId s =
     (if urole = IS_CUSTOMER then (Inl NotForCustomers, s)
      else case find_first (\<lambda>t. rt_id t = sessionId) (a_tokens s) of
        None \<Rightarrow> (Inl NotYourSession, s)
      | Some t \<Rightarrow>
          if rt_userId t \<noteq> uid then (Inl NotYourSession, s)
          else (Inr (), delete_tokens (\<lambda>r. rt_family r = rt_family t \<and> rt_userId r = uid)
                  (denylistSession c (rt_family t) s)))"

definition family_of_cookie :: "auth_config \<Rightarrow> string option \<Rightarrow> auth \<Rightarrow> uid option" where
  "family_of_cookie c raw s = Option.bind raw (\<lambda>r. map_option rt_family (token_row (k_sha c r) s))"

definition revokeAllOtherSessions ::
  "auth_config \<Rightarrow> uid \<Rightarrow> user_role \<Rightarrow> string option \<Rightarrow> auth \<Rightarrow> (auth_error + nat) \<times> auth" where
  "revokeAllOtherSessions c uid urole raw s =
     (if urole = IS_CUSTOMER then (Inl NotForCustomers, s)
      else
        let fams = live_families uid (family_of_cookie c raw s) s in
        (Inr (length fams), delete_tokens (\<lambda>r. rt_userId r = uid \<and> rt_family r \<in> set fams) (denylist_all c fams s)))"

text \<open>Every session of a user: \<open>denylistAllUserSessions\<close> and the deletion of the rows, as each caller runs them.\<close>

definition kill_sessions :: "auth_config \<Rightarrow> uid \<Rightarrow> auth \<Rightarrow> auth" where
  "kill_sessions c uid s = delete_tokens (\<lambda>r. rt_userId r = uid) (denylistUserSessions c uid None s)"

definition updateUserRole :: "auth_config \<Rightarrow> uid \<Rightarrow> user_role \<Rightarrow> auth \<Rightarrow> (auth_error + unit) \<times> auth" where
  "updateUserRole c uid urole s =
     (case account_of uid s of
        None \<Rightarrow> (Inl NoSuchUser, s)
      | Some u \<Rightarrow> if ac_role u = IS_ADMIN then (Inl AdminProtected, s)
                  else (Inr (), kill_sessions c uid (update_account uid (\<lambda>a. a\<lparr>ac_role := urole\<rparr>) s)))"

definition deactivateUser :: "auth_config \<Rightarrow> uid \<Rightarrow> bool \<Rightarrow> auth \<Rightarrow> (auth_error + unit) \<times> auth" where
  "deactivateUser c uid off s =
     (case account_of uid s of
        None \<Rightarrow> (Inl NoSuchUser, s)
      | Some u \<Rightarrow> if ac_role u = IS_ADMIN then (Inl AdminProtected, s)
                  else let s1 = update_account uid (\<lambda>a. a\<lparr>ac_deactivated := off\<rparr>) s in
                       (Inr (), if off then kill_sessions c uid s1 else s1))"

end
