(* ===== verification/Accounts.thy ===== *)
theory Accounts
  imports Sessions Gateway Pricing
begin

text \<open>
  Credentials of \<open>apps/api/src/auth/auth.service.ts\<close>: \<open>loginWithCheck\<close> with its two counters,
  \<open>forgotPassword\<close>, \<open>resetPassword\<close>, \<open>changePassword\<close>, \<open>verifyEmail\<close>, and the password changes of
  \<open>admin.service.ts\<close> and \<open>vendor.service.ts\<close>. The audit lines of refused attempts, and the hash
  comparisons that only equalise the duration of an answer, are left out.
\<close>

section \<open>The counter over all addresses\<close>

definition hashEmail :: "auth_config \<Rightarrow> string \<Rightarrow> string" where
  "hashEmail c email = take 32 (k_sha c (js_trim (to_lower email)))"

text \<open>\<open>INCR\<close>, and \<open>EXPIRE\<close> on the first; the answer is whether the login may go on.\<close>

definition checkGlobalLoginRate :: "auth_config \<Rightarrow> string \<Rightarrow> auth \<Rightarrow> bool \<times> auth" where
  "checkGlobalLoginRate c email s =
     (if \<not> a_up s then (True, s)
      else
        let key = hashEmail c email;
            (count, until) =
              (case a_logins s key of
                 Some (n, u) \<Rightarrow> if a_now s < u then (n + 1, u) else (1, a_now s + k_globalWindowSec c * 1000)
               | None \<Rightarrow> (1, a_now s + k_globalWindowSec c * 1000))
        in (count \<le> k_globalThreshold c, s\<lparr>a_logins := (a_logins s)(key \<mapsto> (count, until))\<rparr>))"

definition resetGlobalLoginRate :: "auth_config \<Rightarrow> string \<Rightarrow> auth \<Rightarrow> auth" where
  "resetGlobalLoginRate c email s =
     (if a_up s then s\<lparr>a_logins := (a_logins s)(hashEmail c email := None)\<rparr> else s)"

section \<open>Login\<close>

definition clear_lock :: "account \<Rightarrow> account" where
  "clear_lock a = a\<lparr>ac_failed := 0, ac_lockedUntil := None\<rparr>"

definition locked :: "account \<Rightarrow> auth \<Rightarrow> bool" where
  "locked u s = (case ac_lockedUntil u of Some t \<Rightarrow> t > a_now s | None \<Rightarrow> False)"

text \<open>A wrong password counts one up, and at the threshold stamps the lock if the row still has it.\<close>

definition count_failure :: "auth_config \<Rightarrow> account \<Rightarrow> auth \<Rightarrow> auth" where
  "count_failure c u s =
     (let s1 = update_account (ac_id u) (\<lambda>a. a\<lparr>ac_failed := ac_failed a + 1\<rparr>) s;
          attempts = (case account_of (ac_id u) s1 of Some a \<Rightarrow> ac_failed a | None \<Rightarrow> 0)
      in if attempts \<ge> k_lockThreshold c
         then s1\<lparr>a_accounts := update_many (\<lambda>a. ac_id a = ac_id u \<and> ac_failed a \<ge> k_lockThreshold c)
                (\<lambda>a. a\<lparr>ac_lockedUntil := Some (a_now s1 + k_lockMinutes c * 60000)\<rparr>) (a_accounts s1)\<rparr>
         else s1)"

definition vendor_may_enter :: "account \<Rightarrow> auth \<Rightarrow> auth_error + unit" where
  "vendor_may_enter u s =
     (if ac_role u \<noteq> IS_VENDOR then Inr ()
      else case find_first (\<lambda>v. v_userId v = ac_id u) (a_vendors s) of
             None \<Rightarrow> Inl VendorProfileMissing
           | Some v \<Rightarrow> (case v_status v of
                           VENDOR_PENDING \<Rightarrow> Inl VendorAwaitsApproval
                         | VENDOR_SUSPENDED \<Rightarrow> Inl AccountSuspended
                         | VENDOR_ACTIVE \<Rightarrow> Inr ()))"

definition no_password :: "account \<Rightarrow> bool" where
  "no_password u \<longleftrightarrow> ac_password u = None \<or> ac_password u = Some ''''"

text \<open>
  One step, though the source awaits between the check of the lock, the comparison of the password and
  the count of the failure: logins that overlap are not modelled.
\<close>

definition loginWithCheck ::
  "auth_config \<Rightarrow> fresh \<Rightarrow> string \<Rightarrow> string \<Rightarrow> auth \<Rightarrow> (auth_error + access_token) \<times> auth" where
  "loginWithCheck c f email pw s0 =
     (case checkGlobalLoginRate c email s0 of (allowed, s) \<Rightarrow>
      if \<not> allowed then (Inl TooManyLogins, s)
      else case find_first (\<lambda>a. ac_email a = email) (a_accounts s) of
        None \<Rightarrow> (Inl InvalidCredentials, s)
      | Some u0 \<Rightarrow>
          if locked u0 s then (Inl InvalidCredentials, s)
          else
            let u = (if ac_lockedUntil u0 = None then u0 else clear_lock u0);
                s1 = (if ac_lockedUntil u0 = None then s else update_account (ac_id u0) clear_lock s)
            in if no_password u then (Inl InvalidCredentials, s1)
               else if \<not> k_bcrypt c pw (the (ac_password u)) then (Inl InvalidCredentials, count_failure c u s1)
               else if ac_role u = IS_CUSTOMER \<and> \<not> ac_emailVerified u then (Inl EmailNotVerified, s1)
               else if ac_deactivated u then (Inl AccountDeactivated, s1)
               else case vendor_may_enter u s1 of
                 Inl ex \<Rightarrow> (Inl ex, s1)
               | Inr _ \<Rightarrow>
                   let s2 = (if ac_failed u > 0 then update_account (ac_id u) clear_lock s1 else s1)
                   in issueTokens c f calm u None None
                        (auth_emit [SecurityLog ''LOGIN_SUCCESS'' (ac_id u)] (resetGlobalLoginRate c email s2)))"

section \<open>Links by e-mail\<close>

text \<open>
  \<open>forgotPassword\<close>; \<open>quota\<close> is the answer of the e-mail quotas. The answer to the client is always
  the same, so only the state is of interest.
\<close>

definition forgotPassword :: "auth_config \<Rightarrow> fresh \<Rightarrow> bool \<Rightarrow> string \<Rightarrow> auth \<Rightarrow> auth" where
  "forgotPassword c f quota email s =
     (let key = hashEmail c email;
          cooling = (a_up s \<and> (case a_cooldown s key of Some t \<Rightarrow> a_now s < t | None \<Rightarrow> False))
      in if cooling then s
         else
           let s1 = (if a_up s then s\<lparr>a_cooldown := (a_cooldown s)(key \<mapsto> a_now s + k_cooldownSec c * 1000)\<rparr> else s)
           in case find_first (\<lambda>a. ac_email a = email) (a_accounts s1) of
                None \<Rightarrow> s1
              | Some u \<Rightarrow>
                  if ac_password u = None \<or> ac_role u = IS_ADMIN then s1
                  else
                    let s2 = update_account (ac_id u) (\<lambda>a. a\<lparr>ac_resetToken := Some (k_sha c (f_raw f)),
                               ac_resetExpiry := Some (a_now s + k_resetHours c * hour_ms)\<rparr>) s1
                    in auth_emit ((if quota then [ResetMail email (f_raw f)] else []) @
                         [SecurityLog ''PASSWORD_RESET_REQUESTED'' (ac_id u)]) s2)"

text \<open>The regular expression \<open>/^[a-f0-9]{64}$/\<close>.\<close>

definition reset_format :: "string \<Rightarrow> bool" where
  "reset_format t \<longleftrightarrow> length t = 64 \<and> list_all (\<lambda>x. x \<in> set ''0123456789abcdef'') t"

text \<open>\<open>race\<close> is what runs between the snapshot of the live sessions and the transaction.\<close>

definition resetPassword :: "auth_config \<Rightarrow> race \<Rightarrow> string \<Rightarrow> string \<Rightarrow> auth \<Rightarrow> (auth_error + unit) \<times> auth" where
  "resetPassword c race tok pw s =
     (if \<not> reset_format tok then (Inl InvalidLink, s)
      else case find_first (\<lambda>a. ac_resetToken a = Some (k_sha c tok) \<and>
                 (case ac_resetExpiry a of Some t \<Rightarrow> t > a_now s | None \<Rightarrow> False)) (a_accounts s) of
        None \<Rightarrow> (Inl InvalidLink, s)
      | Some u \<Rightarrow>
          let fams = live_families (ac_id u) None s;
              s1 = race s;
              s2 = update_account (ac_id u) (\<lambda>a. a\<lparr>ac_password := Some (k_bcryptHash c pw), ac_resetToken := None,
                     ac_resetExpiry := None, ac_failed := 0, ac_lockedUntil := None\<rparr>) s1;
              s3 = delete_tokens (\<lambda>t. rt_userId t = ac_id u) s2
          in (Inr (), auth_emit [SecurityLog ''PASSWORD_RESET_COMPLETED'' (ac_id u)] (denylist_all c fams s3)))"

definition verifyEmail :: "auth_config \<Rightarrow> fresh \<Rightarrow> string \<Rightarrow> auth \<Rightarrow> (auth_error + access_token) \<times> auth" where
  "verifyEmail c f tok s =
     (case find_first (\<lambda>a. ac_verifyToken a = Some (k_sha c tok)) (a_accounts s) of
        None \<Rightarrow> (Inl InvalidLink, s)
      | Some u \<Rightarrow>
          if (case ac_verifyExpiry u of None \<Rightarrow> True | Some t \<Rightarrow> t < a_now s) then (Inl InvalidLink, s)
          else
            let upd = (\<lambda>a. a\<lparr>ac_emailVerified := True, ac_verifyToken := None, ac_verifyExpiry := None\<rparr>)
            in issueTokens c f calm (upd u) None None
                 (auth_emit [SecurityLog ''LOGIN_SUCCESS'' (ac_id u)] (update_account (ac_id u) upd s)))"

section \<open>Changing the password\<close>

text \<open>The current session keeps its one row; every other row of the user goes.\<close>

definition changePassword ::
  "auth_config \<Rightarrow> race \<Rightarrow> uid \<Rightarrow> string \<Rightarrow> string \<Rightarrow> string option \<Rightarrow> auth \<Rightarrow> (auth_error + unit) \<times> auth" where
  "changePassword c race uid current new raw s =
     (case account_of uid s of
        None \<Rightarrow> (Inl SessionExpired, s)
      | Some u \<Rightarrow>
          if no_password u then (Inl NoLocalPassword, s)
          else if \<not> k_bcrypt c current (the (ac_password u)) then (Inl WrongCurrentPassword, s)
          else if k_bcrypt c new (the (ac_password u)) then (Inl SamePassword, s)
          else
            let fams = live_families uid (family_of_cookie c raw s) s;
                s1 = race s;
                s2 = update_account uid (\<lambda>a. clear_lock (a\<lparr>ac_password := Some (k_bcryptHash c new)\<rparr>)) s1;
                s3 = delete_tokens (\<lambda>t. rt_userId t = uid \<and> Some (rt_hash t) \<noteq> map_option (k_sha c) raw) s2
            in (Inr (), auth_emit [SecurityLog ''PASSWORD_CHANGE_COMPLETED'' uid] (denylist_all c fams s3)))"

text \<open>\<open>changeAdminPassword\<close>, and the same steps in \<open>VendorService.changePassword\<close>: every session goes.\<close>

definition changeAdminPassword :: "auth_config \<Rightarrow> uid \<Rightarrow> string \<Rightarrow> string \<Rightarrow> auth \<Rightarrow> (auth_error + unit) \<times> auth" where
  "changeAdminPassword c uid current new s =
     (case account_of uid s of
        None \<Rightarrow> (Inl NoSuchUser, s)
      | Some u \<Rightarrow>
          if no_password u then (Inl NoLocalPassword, s)
          else if \<not> k_bcrypt c current (the (ac_password u)) then (Inl WrongCurrentPassword, s)
          else (Inr (), delete_tokens (\<lambda>t. rt_userId t = uid)
                  (update_account uid (\<lambda>a. a\<lparr>ac_password := Some (k_bcryptHash c new)\<rparr>)
                    (denylistUserSessions c uid None s))))"

definition vendor_changePassword :: "auth_config \<Rightarrow> uid \<Rightarrow> string \<Rightarrow> string \<Rightarrow> auth \<Rightarrow> (auth_error + unit) \<times> auth" where
  "vendor_changePassword c uid current new s =
     (case account_of uid s of
        None \<Rightarrow> (Inl NoSuchUser, s)
      | Some u \<Rightarrow>
          if no_password u then (Inl NoLocalPassword, s)
          else if \<not> k_bcrypt c current (the (ac_password u)) then (Inl WrongCurrentPassword, s)
          else (Inr (), delete_tokens (\<lambda>t. rt_userId t = uid)
                  (update_account uid (\<lambda>a. a\<lparr>ac_password := Some (k_bcryptHash c new)\<rparr>)
                    (denylistUserSessions c uid None s))))"

end
