(* ===== verification/Registration.thy ===== *)
theory Registration
  imports Accounts Coupons
begin

text \<open>
  How accounts begin and end, from \<open>apps/api/src/auth/auth.service.ts\<close>: \<open>registerAndLogin\<close>,
  \<open>resendVerification\<close>, \<open>handleGoogleAuth\<close>, \<open>acceptTerms\<close> and \<open>deleteOwnAccount\<close>. The padding of the
  answer's duration and the names, languages and pictures of users are left out; so are the rows of other
  tables that a deletion removes. The answers of the e-mail quotas are arguments.
\<close>

section \<open>Registration\<close>

text \<open>The new hash is stored whether or not the quotas let the e-mail go.\<close>

definition sendVerificationEmail :: "auth_config \<Rightarrow> fresh \<Rightarrow> int \<Rightarrow> bool \<Rightarrow> uid \<Rightarrow> string \<Rightarrow> auth \<Rightarrow> auth" where
  "sendVerificationEmail c f hours quota uid email s =
     auth_emit (if quota then [VerifyMail email (f_raw f)] else [])
       (update_account uid (\<lambda>a. a\<lparr>ac_verifyToken := Some (k_sha c (f_raw f)),
          ac_verifyExpiry := Some (a_now s + hours * hour_ms)\<rparr>) s)"

definition TERMS_VERSION :: string where
  "TERMS_VERSION = ''2026-06-23''"

definition new_customer :: "auth_config \<Rightarrow> uid \<Rightarrow> string \<Rightarrow> string \<Rightarrow> string option \<Rightarrow> ms \<Rightarrow> account" where
  "new_customer c i email pw phone now = \<lparr>ac_id = i, ac_email = email, ac_role = IS_CUSTOMER,
     ac_password = Some (k_bcryptHash c pw), ac_failed = 0, ac_lockedUntil = None, ac_emailVerified = False,
     ac_deactivated = False, ac_deletedAt = None, ac_resetToken = None, ac_resetExpiry = None,
     ac_verifyToken = None, ac_verifyExpiry = None, ac_phone = phone, ac_googleId = None,
     ac_terms = Some (now, TERMS_VERSION)\<rparr>"

text \<open>An empty string counts as no value.\<close>

definition some_text :: "string option \<Rightarrow> string option" where
  "some_text x = (case x of Some t \<Rightarrow> if t = [] then None else Some t | None \<Rightarrow> None)"

definition registerAndLogin ::
  "auth_config \<Rightarrow> fresh \<Rightarrow> int \<Rightarrow> bool \<Rightarrow> string option \<Rightarrow> string \<Rightarrow> string \<Rightarrow> string option \<Rightarrow> auth \<Rightarrow> (auth_error + unit) \<times> auth" where
  "registerAndLogin c f hours quota website email pw phone s =
     (if (case website of Some w \<Rightarrow> js_trim w \<noteq> [] | None \<Rightarrow> False) then (Inr (), s)
      else if list_ex (\<lambda>a. ac_email a = email) (a_accounts s) then (Inr (), auth_emit [AccountExistsMail email] s)
      else if some_text phone \<noteq> None \<and> list_ex (\<lambda>a. ac_phone a = phone) (a_accounts s) then (Inl PhoneTaken, s)
      else
        let u = new_customer c (f_id f) email pw (some_text phone) (a_now s);
            s1 = s\<lparr>a_accounts := a_accounts s @ [u]\<rparr>
        in (Inr (), auth_emit [SecurityLog ''LOGIN_SUCCESS'' (ac_id u)]
              (sendVerificationEmail c f hours quota (ac_id u) (ac_email u) s1)))"

definition resendVerification ::
  "auth_config \<Rightarrow> fresh \<Rightarrow> int \<Rightarrow> int \<Rightarrow> bool \<Rightarrow> string \<Rightarrow> auth \<Rightarrow> (auth_error + unit) \<times> auth" where
  "resendVerification c f hours cooldownSec quota email s =
     (case find_first (\<lambda>a. ac_email a = email) (a_accounts s) of
        None \<Rightarrow> (Inr (), s)
      | Some u \<Rightarrow>
          if ac_role u \<noteq> IS_CUSTOMER \<or> ac_emailVerified u then (Inr (), s)
          else if cooldownSec > 0 then (Inl TooManyMails, s)
          else (Inr (), sendVerificationEmail c f hours quota (ac_id u) (ac_email u) s))"

definition acceptTerms :: "uid \<Rightarrow> auth \<Rightarrow> auth" where
  "acceptTerms uid s = update_account uid (\<lambda>a. a\<lparr>ac_terms := Some (a_now s, TERMS_VERSION)\<rparr>) s"

section \<open>Google\<close>

record google_profile =
  gp_id :: string
  gp_email :: string

definition google_customer :: "uid \<Rightarrow> google_profile \<Rightarrow> account" where
  "google_customer i g = \<lparr>ac_id = i, ac_email = gp_email g, ac_role = IS_CUSTOMER, ac_password = None, ac_failed = 0,
     ac_lockedUntil = None, ac_emailVerified = True, ac_deactivated = False, ac_deletedAt = None, ac_resetToken = None,
     ac_resetExpiry = None, ac_verifyToken = None, ac_verifyExpiry = None, ac_phone = None,
     ac_googleId = Some (gp_id g), ac_terms = None\<rparr>"

text \<open>The account of a profile: known, linked by its address, or new.\<close>

definition google_account :: "uid \<Rightarrow> google_profile \<Rightarrow> auth \<Rightarrow> auth_error + account \<times> auth" where
  "google_account i g s =
     (case find_first (\<lambda>a. ac_googleId a = Some (gp_id g)) (a_accounts s) of
        Some u \<Rightarrow> Inr (u, s)
      | None \<Rightarrow> (case find_first (\<lambda>a. ac_email a = gp_email g) (a_accounts s) of
            Some u \<Rightarrow>
              if \<not> ac_emailVerified u then Inl UnverifiedAddress
              else let upd = (\<lambda>a. a\<lparr>ac_googleId := Some (gp_id g)\<rparr>) in Inr (upd u, update_account (ac_id u) upd s)
          | None \<Rightarrow> Inr (google_customer i g, s\<lparr>a_accounts := a_accounts s @ [google_customer i g]\<rparr>)))"

definition suspended_vendor :: "account \<Rightarrow> auth \<Rightarrow> bool" where
  "suspended_vendor u s \<longleftrightarrow> ac_role u = IS_VENDOR \<and>
     (case find_first (\<lambda>v. v_userId v = ac_id u) (a_vendors s) of Some v \<Rightarrow> v_status v = VENDOR_SUSPENDED | None \<Rightarrow> False)"

definition handleGoogleAuth ::
  "auth_config \<Rightarrow> uid \<Rightarrow> fresh \<Rightarrow> google_profile \<Rightarrow> auth \<Rightarrow> (auth_error + access_token) \<times> auth" where
  "handleGoogleAuth c i f g s =
     (case google_account i g s of
        Inl ex \<Rightarrow> (Inl ex, s)
      | Inr (u, s1) \<Rightarrow>
          if ac_deactivated u then (Inl AccountDeactivated, auth_emit [SecurityLog ''DEACTIVATED_ACCESS'' (ac_id u)] s1)
          else if suspended_vendor u s1 then (Inl AccountSuspended, auth_emit [SecurityLog ''SUSPENDED_VENDOR_ACCESS'' (ac_id u)] s1)
          else issueTokens c f calm u None None (auth_emit [SecurityLog ''LOGIN_SUCCESS'' (ac_id u)] s1))"

section \<open>Deletion\<close>

definition anonymise :: "ms \<Rightarrow> account \<Rightarrow> account" where
  "anonymise now a = a\<lparr>ac_email := decimal (ac_id a) @ ''@deleted.local'', ac_phone := None, ac_password := None,
     ac_googleId := None, ac_verifyToken := None, ac_verifyExpiry := None, ac_resetToken := None,
     ac_resetExpiry := None, ac_deactivated := True, ac_emailVerified := False, ac_deletedAt := Some now\<rparr>"

definition deleteOwnAccount :: "auth_config \<Rightarrow> race \<Rightarrow> uid \<Rightarrow> string \<Rightarrow> auth \<Rightarrow> (auth_error + unit) \<times> auth" where
  "deleteOwnAccount c race uid confirmation s =
     (if to_upper (js_trim confirmation) \<noteq> ''DELETE''
      then (Inl WrongConfirmation, auth_emit [SecurityLog ''ACCOUNT_DELETE_FAILED'' uid] s)
      else case account_of uid s of
        None \<Rightarrow> (Inl AccountNotFound, s)
      | Some u \<Rightarrow>
          if ac_deletedAt u \<noteq> None then (Inl AccountNotFound, s)
          else if ac_role u = IS_VENDOR \<or> list_ex (\<lambda>v. v_userId v = uid) (a_vendors s) then (Inl VendorsMayNotDelete, s)
          else
            let fams = live_families uid None s;
                s1 = race s;
                s2 = update_account uid (anonymise (a_now s1)) (delete_tokens (\<lambda>r. rt_userId r = uid) s1)
            in (Inr (), auth_emit [ClearCookies, SecurityLog ''ACCOUNT_SELF_DELETED'' uid] (denylist_all c fams s2)))"

end
