(* ===== verification/SessionProps.thy ===== *)
theory SessionProps
  imports Registration
begin

text \<open>
  Lemmas about sessions. Every handler is a sequence of four primitive changes of the token table, so
  that an invariant is checked on the four only: what a revocation leaves, that a consumed token stays
  consumed, the number and the age of sessions.
\<close>

section \<open>Handlers as steps\<close>

text \<open>
  What a call draws at random is none of what exists, neither when it is made nor in the reference
  state \<open>s0\<close> of a history.
\<close>

definition new_to :: "auth_config \<Rightarrow> auth \<Rightarrow> fresh \<Rightarrow> bool" where
  "new_to c s0 f \<longleftrightarrow> (\<forall>t \<in> set (a_tokens s0). rt_id t \<noteq> f_id f \<and> rt_family t \<noteq> f_family f \<and> rt_hash t \<noteq> k_sha c (f_raw f))"

definition new_account :: "uid \<Rightarrow> auth \<Rightarrow> bool" where
  "new_account i s \<longleftrightarrow> (\<forall>a \<in> set (a_accounts s). ac_id a \<noteq> i)"

inductive session_step :: "auth_config \<Rightarrow> auth \<Rightarrow> auth \<Rightarrow> auth \<Rightarrow> bool" for c s0 where
  tick: "a_now s \<le> t \<Longrightarrow> session_step c s0 s (s\<lparr>a_now := t\<rparr>)"
| outage: "session_step c s0 s (s\<lparr>a_up := b\<rparr>)"
| login: "new_to c s0 f \<Longrightarrow> new_to c s f \<Longrightarrow> session_step c s0 s (snd (loginWithCheck c f email pw s))"
| verify: "new_to c s0 f \<Longrightarrow> new_to c s f \<Longrightarrow> session_step c s0 s (snd (verifyEmail c f tok s))"
| refresh: "new_to c s0 f \<Longrightarrow> new_to c s f \<Longrightarrow> session_step c s0 s (snd (refreshTokens c f id id raw s))"
| sign_out: "session_step c s0 s (logout c cookie uid s)"
| revoke: "session_step c s0 s (snd (revokeSession c uid urole i s))"
| revoke_others: "session_step c s0 s (snd (revokeAllOtherSessions c uid urole cookie s))"
| set_role: "session_step c s0 s (snd (updateUserRole c uid urole s))"
| deactivate: "session_step c s0 s (snd (deactivateUser c uid off s))"
| forgot: "session_step c s0 s (forgotPassword c f quota email s)"
| reset: "session_step c s0 s (snd (resetPassword c id tok pw s))"
| change: "session_step c s0 s (snd (changePassword c id uid current new cookie s))"
| admin_change: "session_step c s0 s (snd (changeAdminPassword c uid current new s))"
| vendor_change: "session_step c s0 s (snd (vendor_changePassword c uid current new s))"
| register: "new_account (f_id f) s \<Longrightarrow> session_step c s0 s (snd (registerAndLogin c f hours quota website email pw phone s))"
| resend: "session_step c s0 s (snd (resendVerification c f hours cooldown quota email s))"
| terms: "session_step c s0 s (acceptTerms uid s)"
| google: "new_to c s0 f \<Longrightarrow> new_to c s f \<Longrightarrow> new_account i s \<Longrightarrow> session_step c s0 s (snd (handleGoogleAuth c i f g s))"
| delete_own: "session_step c s0 s (snd (deleteOwnAccount c id uid confirmation s))"
| cleanup: "session_step c s0 s (cleanupExpiredTokens s)"

text \<open>Issuing a pair without interruption, in one step.\<close>

definition evict :: "auth_config \<Rightarrow> uid \<Rightarrow> auth \<Rightarrow> auth" where
  "evict c uid s = delete_tokens (\<lambda>t. rt_id t \<in> set (evicted c uid s)) s"

lemma issueTokens_calm: "issueTokens c f calm user started familyId s =
    (let family = (case familyId of Some fam \<Rightarrow> fam | None \<Rightarrow> f_family f);
         access = \<lparr>at_sub = ac_id user, at_role = ac_role user, at_sid = Some family, at_iat = a_now s\<rparr>;
         s1 = evict c (ac_id user) (delete_tokens (\<lambda>t. rt_userId t = ac_id user \<and> rt_expiresAt t < a_now s) s);
         row = new_token c f (ac_id user) (case started of Some t \<Rightarrow> t | None \<Rightarrow> a_now s) family (a_now s)
     in if list_ex (\<lambda>t. rt_id t = rt_id row \<or> rt_hash t = rt_hash row) (a_tokens s1) then (Inl TokenCollision, s1)
        else (Inr access, auth_emit [SetCookies access (f_raw f)] (s1\<lparr>a_tokens := a_tokens s1 @ [row]\<rparr>)))"
  by (simp add: issueTokens_def store_token_def calm_def evict_def Let_def delete_tokens_def cong: option.case_cong)

section \<open>Primitive changes\<close>

abbreviation families :: "auth \<Rightarrow> uid set" where
  "families s \<equiv> rt_family ` set (a_tokens s)"

definition consume :: "uid \<Rightarrow> auth \<Rightarrow> auth" where
  "consume i s = s\<lparr>a_tokens := update_many (\<lambda>r. rt_id r = i \<and> rt_rotatedAt r = None)
     (\<lambda>r. r\<lparr>rt_rotatedAt := Some (a_now s)\<rparr>) (a_tokens s)\<rparr>"

text \<open>A new pair belongs to a new session, or to one that has a row and is not over its age.\<close>

definition may_issue :: "auth_config \<Rightarrow> account \<Rightarrow> ms option \<Rightarrow> uid option \<Rightarrow> auth \<Rightarrow> bool" where
  "may_issue c u started fam s \<longleftrightarrow> started = None \<and> fam = None \<or>
     (\<exists>t \<in> set (a_tokens s). started = Some (rt_startedAt t) \<and> fam = Some (rt_family t) \<and> rt_userId t = ac_id u \<and>
        a_now s - rt_startedAt t \<le> session_max c)"

inductive prim :: "auth_config \<Rightarrow> auth \<Rightarrow> auth \<Rightarrow> auth \<Rightarrow> bool" for c s0 where
  other: "a_tokens s' = a_tokens s \<Longrightarrow> a_now s \<le> a_now s' \<Longrightarrow>
    (\<And>fam. fam \<notin> families s \<Longrightarrow> a_denied s' fam = a_denied s fam) \<Longrightarrow> prim c s0 s s'"
| remove: "prim c s0 s (delete_tokens sel s)"
| rotate: "prim c s0 s (consume i s)"
| issue: "new_to c s0 f \<Longrightarrow> new_to c s f \<Longrightarrow> may_issue c u started fam s \<Longrightarrow> prim c s0 s (snd (issueTokens c f calm u started fam s))"

lemmas prims_one = r_into_rtranclp [where r = "prim c s0" for c s0]
lemmas prims_trans = rtranclp_trans [where r = "prim c s0" for c s0]

lemma prims_other: "a_tokens s' = a_tokens s \<Longrightarrow> a_now s' = a_now s \<Longrightarrow> a_denied s' = a_denied s \<Longrightarrow> (prim c s0)\<^sup>*\<^sup>* s s'"
  by (rule prims_one, rule prim.other) simp_all

lemma prims_remove: "(prim c s0)\<^sup>*\<^sup>* s s' \<Longrightarrow> (prim c s0)\<^sup>*\<^sup>* s (delete_tokens sel s')"
  by (erule rtranclp.rtrancl_into_rtrancl, rule prim.remove)

text \<open>Changes of anything but the token table, the clock and the denylist do not matter.\<close>

definition alike :: "auth \<Rightarrow> auth \<Rightarrow> bool" where
  "alike s s' \<longleftrightarrow> a_tokens s' = a_tokens s \<and> a_now s' = a_now s \<and> a_denied s' = a_denied s"

lemma prims_alike: "(prim c s0)\<^sup>*\<^sup>* s s' \<Longrightarrow> alike s' s'' \<Longrightarrow> (prim c s0)\<^sup>*\<^sup>* s s''"
  unfolding alike_def by (meson prims_other prims_trans)

lemma alike_refl [simp]: "alike s s"
  by (simp add: alike_def)

lemma alike_trans: "alike s s1 \<Longrightarrow> alike s1 s2 \<Longrightarrow> alike s s2"
  by (simp add: alike_def)

lemma alike_simps [simp]:
  "alike s (auth_emit fx s') = alike s s'" "alike s (update_account u f s') = alike s s'"
  "alike s (s'\<lparr>a_accounts := as\<rparr>) = alike s s'" "alike s (s'\<lparr>a_logins := lg\<rparr>) = alike s s'"
  "alike s (s'\<lparr>a_cooldown := cool\<rparr>) = alike s s'" "alike s (s'\<lparr>a_up := b\<rparr>) = alike s s'"
  by (simp_all add: alike_def auth_emit_def update_account_def)

lemma prims_emit: "(prim c s0)\<^sup>*\<^sup>* s s' \<Longrightarrow> (prim c s0)\<^sup>*\<^sup>* s (auth_emit fx s')"
  by (erule prims_alike) simp

lemma prims_account: "(prim c s0)\<^sup>*\<^sup>* s s' \<Longrightarrow> (prim c s0)\<^sup>*\<^sup>* s (update_account u f s')"
  by (erule prims_alike) simp

lemma alike_D: "alike s s' \<Longrightarrow> a_tokens s' = a_tokens s \<and> a_now s' = a_now s \<and> a_denied s' = a_denied s"
  by (simp add: alike_def)

section \<open>The denylist\<close>

lemma denylistSession_simps [simp]:
  "a_tokens (denylistSession c fam s) = a_tokens s" "a_now (denylistSession c fam s) = a_now s"
  "a_accounts (denylistSession c fam s) = a_accounts s" "a_up (denylistSession c fam s) = a_up s"
  "a_vendors (denylistSession c fam s) = a_vendors s"
  by (simp_all add: denylistSession_def)

lemma denylist_all_simps [simp]:
  "a_tokens (denylist_all c fams s) = a_tokens s" "a_now (denylist_all c fams s) = a_now s"
  "a_accounts (denylist_all c fams s) = a_accounts s" "a_up (denylist_all c fams s) = a_up s"
  by (induction fams arbitrary: s) (simp_all add: denylist_all_def)

lemma denied_other: "fam \<noteq> g \<Longrightarrow> a_denied (denylistSession c g s) fam = a_denied s fam"
  by (simp add: denylistSession_def)

lemma denylist_all_other: "fam \<notin> set fams \<Longrightarrow> a_denied (denylist_all c fams s) fam = a_denied s fam"
  by (induction fams arbitrary: s) (simp_all add: denylist_all_def denied_other)

lemma denylist_commute:
  "denylistSession c fam (delete_tokens sel s) = delete_tokens sel (denylistSession c fam s)"
  "denylistSession c fam (update_account u f s) = update_account u f (denylistSession c fam s)"
  by (simp_all add: denylistSession_def delete_tokens_def update_account_def)

lemma denylist_all_commute:
  "denylist_all c fams (delete_tokens sel s) = delete_tokens sel (denylist_all c fams s)"
  "denylist_all c fams (update_account u f s) = update_account u f (denylist_all c fams s)"
  by (induction fams arbitrary: s) (simp_all add: denylist_all_def denylist_commute)

lemma live_families_sub: "set (live_families uid keep s) \<subseteq> families s"
  by (auto simp: live_families_def find_many_def)

lemma prims_denylist: "(prim c s0)\<^sup>*\<^sup>* s s' \<Longrightarrow> fam \<in> families s' \<Longrightarrow> (prim c s0)\<^sup>*\<^sup>* s (denylistSession c fam s')"
  by (erule rtranclp.rtrancl_into_rtrancl, rule prim.other) (auto simp: denylistSession_def)

lemma prims_denylist_all:
  "(prim c s0)\<^sup>*\<^sup>* s s' \<Longrightarrow> set fams \<subseteq> families s' \<Longrightarrow> (prim c s0)\<^sup>*\<^sup>* s (denylist_all c fams s')"
  by (erule rtranclp.rtrancl_into_rtrancl, rule prim.other) (auto intro: denylist_all_other)

section \<open>Every handler is a sequence of primitive changes\<close>

lemma prims_revoke: "fam \<in> families s' \<Longrightarrow> (prim c s0)\<^sup>*\<^sup>* s s' \<Longrightarrow> (prim c s0)\<^sup>*\<^sup>* s (revoke_family c fam s')"
  unfolding revoke_family_def by (intro prims_remove prims_denylist)

lemma prims_kill: "(prim c s0)\<^sup>*\<^sup>* s s' \<Longrightarrow> (prim c s0)\<^sup>*\<^sup>* s (kill_sessions c uid s')"
  unfolding kill_sessions_def denylistUserSessions_def
  by (intro prims_remove prims_denylist_all live_families_sub)

lemma prims_issue:
  "(prim c s0)\<^sup>*\<^sup>* s s' \<Longrightarrow> new_to c s0 f \<Longrightarrow> new_to c s' f \<Longrightarrow> may_issue c u started fam s' \<Longrightarrow>
   (prim c s0)\<^sup>*\<^sup>* s (snd (issueTokens c f calm u started fam s'))"
  by (erule rtranclp.rtrancl_into_rtrancl) (rule prim.issue)

lemma new_to_delete: "new_to c s f \<Longrightarrow> new_to c (delete_tokens sel s) f"
  by (simp add: new_to_def delete_tokens_def delete_many_mem)

lemma new_to_alike: "new_to c s f \<Longrightarrow> alike s s' \<Longrightarrow> new_to c s' f"
  by (simp add: new_to_def alike_def)

lemma may_issue_new [simp]: "may_issue c u None None s"
  by (simp add: may_issue_def)

lemma token_row_mem: "token_row h s = Some t \<Longrightarrow> t \<in> set (a_tokens s) \<and> rt_hash t = h"
  by (auto simp: token_row_def dest: find_first_Some)

text \<open>Consuming keeps every row, with its family, user and start.\<close>

lemma consume_mem:
  "r \<in> set (a_tokens (consume i s)) \<Longrightarrow> \<exists>r0 \<in> set (a_tokens s). rt_id r = rt_id r0 \<and> rt_hash r = rt_hash r0 \<and>
     rt_family r = rt_family r0 \<and> rt_userId r = rt_userId r0 \<and> rt_startedAt r = rt_startedAt r0 \<and>
     rt_createdAt r = rt_createdAt r0 \<and> rt_expiresAt r = rt_expiresAt r0 \<and>
     (rt_rotatedAt r = rt_rotatedAt r0 \<or> rt_rotatedAt r = Some (a_now s)) \<and>
     (rt_id r = i \<longrightarrow> rt_rotatedAt r \<noteq> None)"
  unfolding consume_def by (auto simp: update_many_def)

lemma new_to_consume: "new_to c s f \<Longrightarrow> new_to c (consume i s) f"
  unfolding new_to_def by (metis consume_mem)

lemma consume_keeps:
  assumes "t \<in> set (a_tokens s)"
  shows "\<exists>r \<in> set (a_tokens (consume i s)). rt_family r = rt_family t \<and> rt_userId r = rt_userId t \<and>
    rt_startedAt r = rt_startedAt t \<and> rt_expiresAt r = rt_expiresAt t"
proof -
  let ?t = "if rt_id t = i \<and> rt_rotatedAt t = None then t\<lparr>rt_rotatedAt := Some (a_now s)\<rparr> else t"
  have "?t \<in> set (a_tokens (consume i s))"
    unfolding consume_def update_many_def using assms by simp
  then show ?thesis by (rule rev_bexI) simp
qed

lemma prims_renew:
  assumes s: "(prim c s0)\<^sup>*\<^sup>* s s'" and f: "new_to c s0 f" "new_to c s' f"
    and t: "t \<in> set (a_tokens s')" "a_now s' - rt_startedAt t \<le> session_max c" "a_now s' \<le> rt_expiresAt t"
  shows "(prim c s0)\<^sup>*\<^sup>* s (snd (renew c f t s'))"
proof -
  have off: "(prim c s0)\<^sup>*\<^sup>* s (auth_emit fx (delete_tokens sel (denylistSession c (rt_family t) s')))" for fx sel
    by (intro prims_emit prims_remove prims_denylist [OF s]) (use t(1) in simp)
  show ?thesis
  proof (cases "account_of (rt_userId t) s'")
  case None
  then show ?thesis using off by (simp add: renew_def)
next
  case (Some u)
  define s1 where "s1 = cleanupExpiredTokens (auth_emit [SecurityLog ''TOKEN_REFRESH'' (ac_id u)] s')"
  have new: "new_to c s1 f" unfolding s1_def cleanupExpiredTokens_def
    by (intro new_to_delete new_to_alike [OF f(2)]) simp
  have uid: "ac_id u = rt_userId t" using Some by (auto simp: account_of_def dest: find_first_Some)
  have 1: "(prim c s0)\<^sup>*\<^sup>* s s1" unfolding s1_def cleanupExpiredTokens_def
    by (intro prims_remove prims_alike [OF s]) simp
  have "t \<in> set (a_tokens s1)" "a_now s1 = a_now s'"
    using t by (simp_all add: s1_def cleanupExpiredTokens_def delete_tokens_def delete_many_mem auth_emit_def)
  then have "may_issue c u (Some (rt_startedAt t)) (Some (rt_family t)) s1"
    using t uid by (auto simp: may_issue_def)
  then have issue: "(prim c s0)\<^sup>*\<^sup>* s (snd (issueTokens c f calm u (Some (rt_startedAt t)) (Some (rt_family t)) s1))"
    by (rule prims_issue [OF 1 f(1) new])
  have gone: "(prim c s0)\<^sup>*\<^sup>* s (auth_emit fx (delete_tokens sel (denylistUserSessions c (ac_id u) None s')))" for fx sel
    unfolding denylistUserSessions_def
    by (intro prims_emit prims_remove prims_denylist_all [OF s] live_families_sub)
  show ?thesis using issue off gone Some by (simp add: renew_def s1_def [symmetric])
  qed
qed

lemma prims_refresh:
  assumes f: "new_to c s0 f" "new_to c s f"
  shows "(prim c s0)\<^sup>*\<^sup>* s (snd (refreshTokens c f id id raw s))"
proof (cases "token_row (k_sha c raw) s")
  case None
  then show ?thesis by (simp add: refreshTokens_def)
next
  case (Some t)
  note t = token_row_mem [OF Some]
  have revoke: "(prim c s0)\<^sup>*\<^sup>* s (auth_emit fx (revoke_family c (rt_family t) s))" for fx
    by (intro prims_emit prims_revoke rtranclp.rtrancl_refl) (use t in simp)
  show ?thesis
  proof (cases "rt_rotatedAt t")
    case None
    have "(prim c s0)\<^sup>*\<^sup>* s (snd (renew c f t' (consume (rt_id t) s)))"
      if "rt_family t' = rt_family t" "rt_userId t' = rt_userId t" "rt_startedAt t' = rt_startedAt t"
        "rt_expiresAt t' = rt_expiresAt t" "t' \<in> set (a_tokens (consume (rt_id t) s))"
        "a_now s - rt_startedAt t \<le> session_max c" "a_now s \<le> rt_expiresAt t" for t'
      by (rule prims_renew [OF prims_one [OF prim.rotate] f(1) new_to_consume [OF f(2)]])
        (use that in \<open>simp_all add: consume_def\<close>)
    moreover have "renew c f t' x = renew c f t x"
      if "rt_family t' = rt_family t" "rt_userId t' = rt_userId t" "rt_startedAt t' = rt_startedAt t" for t' x
      unfolding renew_def that by (rule refl)
    ultimately have "a_now s - rt_startedAt t \<le> session_max c \<Longrightarrow> a_now s \<le> rt_expiresAt t \<Longrightarrow>
        (prim c s0)\<^sup>*\<^sup>* s (snd (renew c f t (consume (rt_id t) s)))"
      using consume_keeps [of t s "rt_id t"] t by metis
    then show ?thesis
      using Some None revoke prims_remove [OF rtranclp.rtrancl_refl, of c s0 s]
      by (auto simp: refreshTokens_def Let_def consume_def)
  next
    case (Some r)
    then show ?thesis using revoke \<open>token_row (k_sha c raw) s = Some t\<close> by (simp add: refreshTokens_def)
  qed
qed

lemma prims_login:
  assumes f: "new_to c s0 f" "new_to c s f"
  shows "(prim c s0)\<^sup>*\<^sup>* s (snd (loginWithCheck c f email pw s))"
proof -
  obtain ok s1 where g: "checkGlobalLoginRate c email s = (ok, s1)" by fastforce
  have a1: "alike s s1" using g by (auto simp: checkGlobalLoginRate_def Let_def split: if_splits prod.splits)
  have cf: "alike s (count_failure c u s2) = alike s s2" for u s2 by (simp add: count_failure_def Let_def)
  have rg: "alike s (resetGlobalLoginRate c email s2) = alike s s2" for s2 by (simp add: resetGlobalLoginRate_def)
  have issue: "alike s s2 \<Longrightarrow> (prim c s0)\<^sup>*\<^sup>* s (snd (issueTokens c f calm u None None s2))" for u s2
    by (rule prims_issue [OF prims_alike [OF rtranclp.rtrancl_refl] f(1) new_to_alike [OF f(2)]]) simp_all
  have stay: "alike s s2 \<Longrightarrow> (prim c s0)\<^sup>*\<^sup>* s s2" for s2 by (rule prims_alike [OF rtranclp.rtrancl_refl])
  show ?thesis
  proof (cases "find_first (\<lambda>a. ac_email a = email) (a_accounts s1)")
    case None
    then show ?thesis using stay a1 by (simp add: loginWithCheck_def g)
  next
    case (Some u0)
    show ?thesis
    proof (cases "ac_lockedUntil u0")
      case None
      then show ?thesis using stay issue a1
        by (simp add: loginWithCheck_def g Some Let_def cf rg split: sum.split)
    next
      case (Some t)
      then show ?thesis using stay issue a1 \<open>find_first _ _ = Some u0\<close>
        by (simp add: loginWithCheck_def g Let_def cf rg split: sum.split)
    qed
  qed
qed

lemma prims_google:
  assumes f: "new_to c s0 f" "new_to c s f"
  shows "(prim c s0)\<^sup>*\<^sup>* s (snd (handleGoogleAuth c i f g s))"
proof (cases "google_account i g s")
  case (Inl ex)
  then show ?thesis by (simp add: handleGoogleAuth_def)
next
  case (Inr r)
  obtain u s1 where r: "r = (u, s1)" by fastforce
  have a: "alike s s1" using Inr r by (auto simp: google_account_def Let_def split: option.splits if_splits)
  have stay: "(prim c s0)\<^sup>*\<^sup>* s (auth_emit fx s1)" for fx
    by (rule prims_alike [OF rtranclp.rtrancl_refl]) (simp add: a)
  have "(prim c s0)\<^sup>*\<^sup>* s (snd (issueTokens c f calm u None None (auth_emit fx s1)))" for fx
    by (rule prims_issue [OF stay f(1) new_to_alike [OF f(2)]]) (simp_all add: a)
  then show ?thesis using stay Inr r by (simp add: handleGoogleAuth_def)
qed

lemma session_prims:
  assumes "session_step c s0 s s'"
  shows "(prim c s0)\<^sup>*\<^sup>* s s'"
  using assms
proof cases
  case (tick t)
  then show ?thesis by (intro prims_one prim.other) simp_all
next
  case (login f email pw)
  then show ?thesis using prims_login by blast
next
  case (verify f tok)
  then show ?thesis
    by (auto simp: verifyEmail_def Let_def intro!: prims_issue prims_emit prims_account elim: new_to_alike split: option.split)
next
  case (refresh f raw)
  then show ?thesis using prims_refresh by blast
next
  case (sign_out cookie uid)
  then show ?thesis
    by (auto simp: logout_def intro!: prims_emit prims_revoke dest: token_row_mem split: option.split)
next
  case (revoke uid urole i)
  then show ?thesis
    by (auto simp: revokeSession_def intro!: prims_remove prims_denylist dest: find_first_Some split: option.split)
next
  case (revoke_others uid urole cookie)
  then show ?thesis
    by (simp add: revokeAllOtherSessions_def Let_def prims_remove prims_denylist_all live_families_sub)
next
  case (set_role uid urole)
  then show ?thesis by (auto simp: updateUserRole_def intro!: prims_kill prims_account split: option.split)
next
  case (deactivate uid off)
  then show ?thesis by (auto simp: deactivateUser_def Let_def intro!: prims_kill prims_account split: option.split)
next
  case (forgot f quota email)
  have "alike s (forgotPassword c f quota email s)" by (simp add: forgotPassword_def Let_def split: option.split)
  then show ?thesis using forgot prims_alike by blast
next
  case (reset tok pw)
  then show ?thesis
    by (auto simp: resetPassword_def Let_def denylist_all_commute dest: live_families_sub [THEN subsetD]
        intro!: prims_emit prims_remove prims_account prims_denylist_all split: option.split)
next
  case (change uid current new cookie)
  then show ?thesis
    by (auto simp: changePassword_def Let_def denylist_all_commute dest: live_families_sub [THEN subsetD]
        intro!: prims_emit prims_remove prims_account prims_denylist_all split: option.split)
next
  case (admin_change uid current new)
  then show ?thesis
    by (auto simp: changeAdminPassword_def denylistUserSessions_def dest: live_families_sub [THEN subsetD]
        intro!: prims_remove prims_account prims_denylist_all split: option.split)
next
  case (vendor_change uid current new)
  then show ?thesis
    by (auto simp: vendor_changePassword_def denylistUserSessions_def dest: live_families_sub [THEN subsetD]
        intro!: prims_remove prims_account prims_denylist_all split: option.split)
next
  case (register f hours quota website email pw phone)
  have "alike s (snd (registerAndLogin c f hours quota website email pw phone s))"
    by (simp add: registerAndLogin_def sendVerificationEmail_def Let_def)
  then show ?thesis using register prims_alike by blast
next
  case (resend f hours cooldown quota email)
  have "alike s (snd (resendVerification c f hours cooldown quota email s))"
    by (simp add: resendVerification_def sendVerificationEmail_def split: option.split)
  then show ?thesis using resend prims_alike by blast
next
  case (terms uid)
  have "alike s (acceptTerms uid s)" by (simp add: acceptTerms_def)
  then show ?thesis using terms prims_alike by blast
next
  case (google f i g)
  then show ?thesis using prims_google by blast
next
  case (delete_own uid confirmation)
  then show ?thesis
    by (auto simp: deleteOwnAccount_def Let_def denylist_all_commute dest: live_families_sub [THEN subsetD]
        intro!: prims_emit prims_remove prims_account prims_denylist_all split: option.split)
next
  case cleanup
  then show ?thesis by (simp add: cleanupExpiredTokens_def prims_remove)
qed (auto intro: prims_alike)

lemma session_run_prims: "(session_step c s0)\<^sup>*\<^sup>* s s' \<Longrightarrow> (prim c s0)\<^sup>*\<^sup>* s s'"
  by (induction rule: rtranclp_induct) (auto intro: prims_trans session_prims)

end
