(* ===== verification/SessionInvariants.thy ===== *)
theory SessionInvariants
  imports SessionProps
begin

text \<open>
  Invariants of the session table, each checked on the primitive changes: an ended session stays
  ended, a consumed token stays consumed, the rows are well-formed, the number of sessions is bounded.
\<close>

section \<open>Rows after a primitive change\<close>

lemma issueTokens_simps [simp]:
  "a_now (snd (issueTokens c f calm u started fam s)) = a_now s"
  "a_denied (snd (issueTokens c f calm u started fam s)) = a_denied s"
  by (simp_all add: issueTokens_calm evict_def delete_tokens_def auth_emit_def Let_def)

definition started_at :: "ms option \<Rightarrow> auth \<Rightarrow> ms" where
  "started_at started s = (case started of Some t \<Rightarrow> t | None \<Rightarrow> a_now s)"

definition family_for :: "fresh \<Rightarrow> uid option \<Rightarrow> uid" where
  "family_for f fam = (case fam of Some g \<Rightarrow> g | None \<Rightarrow> f_family f)"

definition kept_rows :: "auth_config \<Rightarrow> account \<Rightarrow> auth \<Rightarrow> auth" where
  "kept_rows c u s = evict c (ac_id u) (delete_tokens (\<lambda>t. rt_userId t = ac_id u \<and> rt_expiresAt t < a_now s) s)"

lemma delete_tokens_mem: "r \<in> set (a_tokens (delete_tokens sel s)) \<longleftrightarrow> r \<in> set (a_tokens s) \<and> \<not> sel r"
  by (simp add: delete_tokens_def delete_many_mem)

lemma delete_tokens_simps [simp]:
  "a_now (delete_tokens sel s) = a_now s" "a_denied (delete_tokens sel s) = a_denied s" "a_up (delete_tokens sel s) = a_up s"
  by (simp_all add: delete_tokens_def)

lemma kept_rows_sub: "set (a_tokens (kept_rows c u s)) \<subseteq> set (a_tokens s)"
  by (auto simp: kept_rows_def evict_def Let_def delete_tokens_mem split: if_splits)

lemma issueTokens_cases:
  obtains "a_tokens (snd (issueTokens c f calm u started fam s)) = a_tokens (kept_rows c u s)"
    "fst (issueTokens c f calm u started fam s) = Inl TokenCollision"
  | "a_tokens (snd (issueTokens c f calm u started fam s)) = a_tokens (kept_rows c u s) @
      [new_token c f (ac_id u) (started_at started s) (family_for f fam) (a_now s)]"
    "fst (issueTokens c f calm u started fam s) = Inr \<lparr>at_sub = ac_id u, at_role = ac_role u,
       at_sid = Some (family_for f fam), at_iat = a_now s\<rparr>"
    "\<forall>t \<in> set (a_tokens (kept_rows c u s)). rt_id t \<noteq> f_id f \<and> rt_hash t \<noteq> k_sha c (f_raw f)"
proof (cases "list_ex (\<lambda>t. rt_id t = f_id f \<or> rt_hash t = k_sha c (f_raw f)) (a_tokens (kept_rows c u s))")
  case True
  then have "issueTokens c f calm u started fam s = (Inl TokenCollision, kept_rows c u s)"
    by (simp add: issueTokens_calm kept_rows_def Let_def new_token_def)
  then show ?thesis using that(1) by simp
next
  case False
  then show ?thesis
    by (intro that(2))
      (simp_all add: issueTokens_calm kept_rows_def Let_def new_token_def auth_emit_def started_at_def family_for_def list_ex_iff)
qed

lemma issued_rows:
  "r \<in> set (a_tokens (snd (issueTokens c f calm u started fam s))) \<Longrightarrow> r \<in> set (a_tokens s) \<or>
     r = new_token c f (ac_id u) (started_at started s) (family_for f fam) (a_now s)"
  by (rule issueTokens_cases [of c f u started fam s]) (use kept_rows_sub in fastforce)+

lemma new_token_simps [simp]:
  "rt_id (new_token c f u st fam now) = f_id f" "rt_hash (new_token c f u st fam now) = k_sha c (f_raw f)"
  "rt_userId (new_token c f u st fam now) = u" "rt_startedAt (new_token c f u st fam now) = st"
  "rt_family (new_token c f u st fam now) = fam" "rt_rotatedAt (new_token c f u st fam now) = None"
  "rt_createdAt (new_token c f u st fam now) = now" "rt_expiresAt (new_token c f u st fam now) = now + k_refreshDays c * day_ms"
  by (simp_all add: new_token_def)

lemma consume_now [simp]: "a_now (consume i s) = a_now s" "a_denied (consume i s) = a_denied s"
  by (simp_all add: consume_def)

lemma consume_row:
  assumes "s' = consume i s" "r \<in> set (a_tokens s')"
  obtains r0 where "r0 \<in> set (a_tokens s)" "rt_id r = rt_id r0" "rt_hash r = rt_hash r0" "rt_family r = rt_family r0"
    "rt_userId r = rt_userId r0" "rt_startedAt r = rt_startedAt r0" "rt_createdAt r = rt_createdAt r0"
    "rt_expiresAt r = rt_expiresAt r0" "rt_rotatedAt r = rt_rotatedAt r0 \<or> rt_rotatedAt r = Some (a_now s)"
  using consume_mem [OF assms(2) [unfolded assms(1)]] by blast

lemma prims_keep: "(prim c s0)\<^sup>*\<^sup>* s s' \<Longrightarrow> P s \<Longrightarrow> (\<And>x y. prim c s0 x y \<Longrightarrow> P x \<Longrightarrow> P y) \<Longrightarrow> P s'"
  by (induction rule: rtranclp_induct) blast+

section \<open>An ended session stays ended\<close>

definition ended :: "auth_config \<Rightarrow> ms \<Rightarrow> uid \<Rightarrow> auth \<Rightarrow> bool" where
  "ended c t0 fam s \<longleftrightarrow> fam \<notin> families s \<and> a_denied s fam = Some (t0 + denylist_ttl c) \<and> t0 \<le> a_now s"

lemma may_issue_family:
  "may_issue c u started fam s \<Longrightarrow> family_for f fam = f_family f \<and> started = None \<and> fam = None \<or>
     (\<exists>t \<in> set (a_tokens s). family_for f fam = rt_family t \<and> started_at started s = rt_startedAt t \<and> rt_userId t = ac_id u \<and>
        a_now s - rt_startedAt t \<le> session_max c)"
  by (auto simp: may_issue_def family_for_def started_at_def)

lemma families_prim:
  assumes "prim c s0 s s'" "g \<in> families s0" "g \<notin> families s"
  shows "g \<notin> families s'"
  using assms(1)
proof cases
  case other
  then show ?thesis using assms(3) by simp
next
  case (remove sel)
  then show ?thesis using assms(3) by (auto simp: delete_tokens_mem)
next
  case (rotate i)
  then show ?thesis using assms(3) consume_mem by (metis (no_types, lifting) image_iff)
next
  case (issue f u started fam)
  have "f_family f \<noteq> g" using assms(2) issue(2) by (auto simp: new_to_def)
  then have "family_for f fam \<noteq> g" using may_issue_family [OF issue(4), of f] assms(3) by (metis image_eqI)
  then show ?thesis using issued_rows assms(3) unfolding issue(1) by fastforce
qed

lemma ended_prim:
  assumes "prim c s0 s s'" "fam \<in> families s0" "ended c t0 fam s"
  shows "ended c t0 fam s'"
proof -
  have "a_denied s' fam = a_denied s fam \<and> a_now s \<le> a_now s'"
    using assms(1)
  proof cases
    case other
    then show ?thesis using assms(3) by (simp add: ended_def)
  qed simp_all
  then show ?thesis using assms families_prim by (fastforce simp: ended_def)
qed

lemma ended_run:
  assumes "(prim c s0)\<^sup>*\<^sup>* s s'" "fam \<in> families s0" "ended c t0 fam s"
  shows "ended c t0 fam s'"
  by (rule prims_keep [where P = "ended c t0 fam", OF assms(1,3)]) (rule ended_prim [OF _ assms(2)])

text \<open>An accepted access token is not older than its lifetime.\<close>

definition jwt_expires :: "auth_config \<Rightarrow> bool" where
  "jwt_expires c \<longleftrightarrow> (\<forall>a t. k_jwt c a t \<longrightarrow> t < at_iat a + k_accessExpiry c * 1000)"

lemma ended_rejects:
  assumes "jwt_expires c" "ended c t0 fam s" "a_up s" "at_sid a = Some fam" "at_iat a \<le> t0"
  shows "validate c a s = Inl SessionExpired"
proof (cases "a_now s < t0 + denylist_ttl c")
  case True
  then show ?thesis using assms by (simp add: validate_def isDenied_def ended_def)
next
  case False
  then have "\<not> k_jwt c a (a_now s)" using assms(1,5) by (fastforce simp: jwt_expires_def denylist_ttl_def)
  then show ?thesis by (simp add: validate_def)
qed

lemma renew_family:
  assumes "fst (renew c f t s) = Inr a"
  shows "at_sid a = Some (rt_family t) \<and> at_sub a = rt_userId t \<and> at_iat a = a_now s"
proof -
  obtain u where u: "account_of (rt_userId t) s = Some u"
    using assms by (auto simp: renew_def split: option.splits)
  have uid: "ac_id u = rt_userId t" using u by (auto simp: account_of_def dest: find_first_Some)
  let ?s = "cleanupExpiredTokens (auth_emit [SecurityLog ''TOKEN_REFRESH'' (ac_id u)] s)"
  have "fst (issueTokens c f calm u (Some (rt_startedAt t)) (Some (rt_family t)) ?s) = Inr a"
    using assms u by (auto simp: renew_def split: if_splits)
  moreover have "a_now ?s = a_now s" by (simp add: cleanupExpiredTokens_def auth_emit_def)
  ultimately show ?thesis
    by (cases rule: issueTokens_cases [of c f u "Some (rt_startedAt t)" "Some (rt_family t)" ?s])
      (auto simp: family_for_def uid)
qed

lemma refresh_Inr:
  assumes "fst (refreshTokens c f r1 r2 raw s) = Inr a"
  obtains t where "token_row (k_sha c raw) s = Some t" "rt_rotatedAt t = None" "a_now s \<le> rt_expiresAt t"
    "a_now s - rt_startedAt t \<le> session_max c"
    "\<exists>r \<in> set (a_tokens (r1 s)). rt_id r = rt_id t \<and> rt_rotatedAt r = None"
    "fst (renew c f t (r2 (consume (rt_id t) (r1 s)))) = Inr a"
    "refreshTokens c f r1 r2 raw s = renew c f t (r2 (consume (rt_id t) (r1 s)))"
  using assms
  by (auto simp: refreshTokens_def Let_def consume_def count_rows_0 not_less split: option.splits if_splits)

lemma ended_never_renewed:
  assumes "fam \<notin> families s" "fst (refreshTokens c f id id raw s) = Inr a"
  shows "at_sid a \<noteq> Some fam"
proof (rule refresh_Inr [OF assms(2)])
  fix t assume "token_row (k_sha c raw) s = Some t" "fst (renew c f t (id (consume (rt_id t) (id s)))) = Inr a"
  then show ?thesis using token_row_mem renew_family assms(1) by fastforce
qed

lemma revoke_ends:
  "a_up s \<Longrightarrow> ended c (a_now s) fam (auth_emit fx (revoke_family c fam s))"
  by (auto simp: ended_def revoke_family_def auth_emit_def denylistSession_def delete_tokens_def delete_many_def)

section \<open>A consumed token stays consumed\<close>

definition spent :: "string \<Rightarrow> auth \<Rightarrow> bool" where
  "spent h s \<longleftrightarrow> (\<forall>r \<in> set (a_tokens s). rt_hash r = h \<longrightarrow> rt_rotatedAt r \<noteq> None)"

lemma spent_prim:
  assumes "prim c s0 s s'" "h \<in> rt_hash ` set (a_tokens s0)" "spent h s"
  shows "spent h s'"
  using assms(1)
proof cases
  case other
  then show ?thesis using assms(3) by (simp add: spent_def)
next
  case (remove sel)
  then show ?thesis using assms(3) by (simp add: spent_def delete_tokens_mem)
next
  case (rotate i)
  show ?thesis unfolding spent_def
  proof (intro ballI impI)
    fix r assume r: "r \<in> set (a_tokens s')" "rt_hash r = h"
    obtain r0 where r0: "r0 \<in> set (a_tokens s)" "rt_hash r = rt_hash r0"
      "rt_rotatedAt r = rt_rotatedAt r0 \<or> rt_rotatedAt r = Some (a_now s)"
      using consume_row [OF rotate r(1)] by metis
    then have "rt_rotatedAt r0 \<noteq> None" using assms(3) r(2) by (simp add: spent_def)
    then show "rt_rotatedAt r \<noteq> None" using r0(3) by auto
  qed
next
  case (issue f u started fam)
  have "k_sha c (f_raw f) \<noteq> h" using assms(2) issue(2) by (auto simp: new_to_def)
  then show ?thesis using issued_rows assms(3) unfolding issue(1) spent_def by fastforce
qed

lemma spent_run:
  assumes "(prim c s0)\<^sup>*\<^sup>* s s'" "h \<in> rt_hash ` set (a_tokens s0)" "spent h s"
  shows "spent h s'"
  by (rule prims_keep [where P = "spent h", OF assms(1,3)]) (rule spent_prim [OF _ assms(2)])

lemma spent_refuses:
  assumes "spent (k_sha c raw) s"
  shows "fst (refreshTokens c f r1 r2 raw s) \<noteq> Inr a"
proof
  assume "fst (refreshTokens c f r1 r2 raw s) = Inr a"
  then show False
    by (rule refresh_Inr) (use assms in \<open>auto simp: spent_def dest!: token_row_mem\<close>)
qed

text \<open>Rows with a known hash or identifier stem from the reference state.\<close>

definition stems :: "auth \<Rightarrow> auth \<Rightarrow> bool" where
  "stems s0 s \<longleftrightarrow> (\<forall>r \<in> set (a_tokens s). \<forall>t \<in> set (a_tokens s0). rt_hash r = rt_hash t \<or> rt_id r = rt_id t \<longrightarrow>
     (\<exists>t' \<in> set (a_tokens s0). rt_hash r = rt_hash t' \<and> rt_id r = rt_id t'))"

lemma stems_prim:
  assumes "prim c s0 s s'" "stems s0 s"
  shows "stems s0 s'"
  using assms(1)
proof cases
  case other
  then show ?thesis using assms(2) by (simp add: stems_def)
next
  case (remove sel)
  then show ?thesis using assms(2) by (simp add: stems_def delete_tokens_mem)
next
  case (rotate i)
  show ?thesis unfolding stems_def
  proof (intro ballI impI)
    fix r t assume r: "r \<in> set (a_tokens s')" "t \<in> set (a_tokens s0)" "rt_hash r = rt_hash t \<or> rt_id r = rt_id t"
    obtain r0 where "r0 \<in> set (a_tokens s)" "rt_id r = rt_id r0" "rt_hash r = rt_hash r0"
      using consume_row [OF rotate r(1)] by metis
    then show "\<exists>t' \<in> set (a_tokens s0). rt_hash r = rt_hash t' \<and> rt_id r = rt_id t'"
      using assms(2) r(2,3) unfolding stems_def by metis
  qed
next
  case (issue f u started fam)
  have "f_id f \<noteq> rt_id t \<and> k_sha c (f_raw f) \<noteq> rt_hash t" if "t \<in> set (a_tokens s0)" for t
    using that issue(2) by (auto simp: new_to_def)
  then show ?thesis using issued_rows assms(2) unfolding issue(1) stems_def by (metis new_token_simps(1,2))
qed

lemma stems_run: "(prim c s0)\<^sup>*\<^sup>* s s' \<Longrightarrow> stems s0 s \<Longrightarrow> stems s0 s'"
  by (erule prims_keep [where P = "stems s0"]) (auto intro: stems_prim)

lemma stems_refl [simp]: "stems s s"
  unfolding stems_def by blast

section \<open>Well-formed rows\<close>

definition token_ok :: "auth_config \<Rightarrow> auth \<Rightarrow> refresh_token \<Rightarrow> bool" where
  "token_ok c s t \<longleftrightarrow> rt_startedAt t \<le> rt_createdAt t \<and> rt_createdAt t \<le> a_now s \<and>
     rt_createdAt t - rt_startedAt t \<le> session_max c \<and> rt_expiresAt t = rt_createdAt t + k_refreshDays c * day_ms"

definition sessions_ok :: "auth_config \<Rightarrow> auth \<Rightarrow> bool" where
  "sessions_ok c s \<longleftrightarrow> unique_on rt_id (a_tokens s) \<and> unique_on rt_hash (a_tokens s) \<and>
     (\<forall>t \<in> set (a_tokens s). token_ok c s t) \<and>
     (\<forall>t \<in> set (a_tokens s). \<forall>t' \<in> set (a_tokens s). rt_family t = rt_family t' \<longrightarrow>
        rt_userId t = rt_userId t' \<and> rt_startedAt t = rt_startedAt t')"

lemma sessions_ok_token: "sessions_ok c s \<Longrightarrow> t \<in> set (a_tokens s) \<Longrightarrow> token_ok c s t"
  unfolding sessions_ok_def by blast

lemma sessions_ok_unique: "sessions_ok c s \<Longrightarrow> unique_on rt_id (a_tokens s) \<and> unique_on rt_hash (a_tokens s)"
  unfolding sessions_ok_def by blast

lemma sessions_ok_family:
  "sessions_ok c s \<Longrightarrow> t \<in> set (a_tokens s) \<Longrightarrow> t' \<in> set (a_tokens s) \<Longrightarrow> rt_family t = rt_family t' \<Longrightarrow>
   rt_userId t = rt_userId t' \<and> rt_startedAt t = rt_startedAt t'"
  unfolding sessions_ok_def by blast

lemma sessions_ok_same:
  assumes "sessions_ok c s" "a_tokens s' = a_tokens s" "a_now s \<le> a_now s'"
  shows "sessions_ok c s'"
proof -
  have "token_ok c s' t" if "t \<in> set (a_tokens s)" for t
    using sessions_ok_token [OF assms(1) that] assms(3) by (simp add: token_ok_def)
  then show ?thesis using assms(1) unfolding sessions_ok_def assms(2) by blast
qed

lemma sessions_ok_delete: "sessions_ok c s \<Longrightarrow> sessions_ok c (delete_tokens sel s)"
  by (simp add: sessions_ok_def delete_tokens_def delete_many_unique delete_many_mem token_ok_def)

lemma kept_rows_simps [simp]: "a_now (kept_rows c u s) = a_now s"
  by (simp add: kept_rows_def evict_def Let_def)

lemma sessions_ok_kept: "sessions_ok c s \<Longrightarrow> sessions_ok c (kept_rows c u s)"
  by (simp add: kept_rows_def evict_def Let_def sessions_ok_delete)

lemma sessions_ok_prim:
  assumes p: "prim c s0 s s'" and ok: "sessions_ok c s" and max: "0 \<le> session_max c"
  shows "sessions_ok c s'"
  using p
proof cases
  case other
  then show ?thesis using sessions_ok_same [OF ok] by blast
next
  case (remove sel)
  then show ?thesis using sessions_ok_delete [OF ok] by simp
next
  case (rotate i)
  have "unique_on rt_id (a_tokens s')" "unique_on rt_hash (a_tokens s')"
    using ok by (simp_all add: rotate consume_def update_many_unique sessions_ok_def)
  moreover have "token_ok c s' t" if t: "t \<in> set (a_tokens s')" for t
  proof (rule consume_row [OF rotate t])
    fix t0 assume "t0 \<in> set (a_tokens s)" "rt_startedAt t = rt_startedAt t0" "rt_createdAt t = rt_createdAt t0"
      "rt_expiresAt t = rt_expiresAt t0"
    then show ?thesis using sessions_ok_token [OF ok] by (simp add: token_ok_def rotate)
  qed
  moreover have "rt_userId t = rt_userId t' \<and> rt_startedAt t = rt_startedAt t'"
    if t: "t \<in> set (a_tokens s')" "t' \<in> set (a_tokens s')" "rt_family t = rt_family t'" for t t'
  proof (rule consume_row [OF rotate t(1)], rule consume_row [OF rotate t(2)])
    fix t0 t1 assume t0: "t0 \<in> set (a_tokens s)" "rt_family t = rt_family t0" "rt_userId t = rt_userId t0" "rt_startedAt t = rt_startedAt t0"
      and t1: "t1 \<in> set (a_tokens s)" "rt_family t' = rt_family t1" "rt_userId t' = rt_userId t1" "rt_startedAt t' = rt_startedAt t1"
    then have "rt_family t0 = rt_family t1" using t(3) by simp
    then have "rt_userId t0 = rt_userId t1 \<and> rt_startedAt t0 = rt_startedAt t1"
      using ok t0(1) t1(1) unfolding sessions_ok_def by blast
    then show ?thesis using t0 t1 by simp
  qed
  ultimately show ?thesis unfolding sessions_ok_def by blast
next
  case (issue f u started fam)
  note kept = sessions_ok_kept [OF ok, of u]
  have now: "a_now s' = a_now s" by (simp add: issue)
  show ?thesis
  proof (cases rule: issueTokens_cases [of c f u started fam s])
    case 1
    then show ?thesis using sessions_ok_same [OF kept] by (simp add: issue)
  next
    case 2
    let ?r = "new_token c f (ac_id u) (started_at started s) (family_for f fam) (a_now s)"
    have rows: "a_tokens s' = a_tokens (kept_rows c u s) @ [?r]" using 2(1) by (simp add: issue)
    have st: "started_at started s \<le> a_now s \<and> a_now s - started_at started s \<le> session_max c"
      using issue(4) max sessions_ok_token [OF ok] by (fastforce simp: may_issue_def started_at_def token_ok_def)
    have fam: "rt_userId t = ac_id u \<and> rt_startedAt t = started_at started s"
      if t: "t \<in> set (a_tokens s)" "rt_family t = family_for f fam" for t
    proof -
      have "f_family f \<noteq> rt_family t" using issue(3) t(1) by (auto simp: new_to_def)
      then obtain t0 where "t0 \<in> set (a_tokens s)" "rt_family t0 = rt_family t" "rt_startedAt t0 = started_at started s" "rt_userId t0 = ac_id u"
        using may_issue_family [OF issue(4), of f] t(2) by metis
      then show ?thesis using sessions_ok_family [OF ok] t(1) by metis
    qed
    have "token_ok c s' ?r" using st by (simp add: token_ok_def now)
    moreover have "token_ok c s' t" if "t \<in> set (a_tokens (kept_rows c u s))" for t
      using sessions_ok_token [OF kept that] by (simp add: token_ok_def now)
    ultimately have "token_ok c s' t" if "t \<in> set (a_tokens s')" for t
      using that unfolding rows by auto
    moreover have "unique_on rt_id (a_tokens s')" "unique_on rt_hash (a_tokens s')"
      using sessions_ok_unique [OF kept] 2(3) by (auto simp: rows unique_on_append)
    moreover have "rt_userId t = rt_userId t' \<and> rt_startedAt t = rt_startedAt t'"
      if t: "t \<in> set (a_tokens s')" "t' \<in> set (a_tokens s')" "rt_family t = rt_family t'" for t t'
    proof -
      have "r = ?r \<or> r \<in> set (a_tokens (kept_rows c u s)) \<and> r \<in> set (a_tokens s)" if "r \<in> set (a_tokens s')" for r
        using that kept_rows_sub [of c u s] unfolding rows by auto
      note rows2 = this [OF t(1)] this [OF t(2)]
      show ?thesis
      proof (cases "t = ?r \<or> t' = ?r")
        case True
        then show ?thesis using rows2 t(3) fam [of t] fam [of t'] by (metis new_token_simps(3,4,5))
      next
        case False
        then show ?thesis using rows2 sessions_ok_family [OF kept _ _ t(3)] by blast
      qed
    qed
    ultimately show ?thesis unfolding sessions_ok_def by blast
  qed
qed

lemma sessions_ok_run:
  assumes "(prim c s0)\<^sup>*\<^sup>* s s'" "sessions_ok c s" "0 \<le> session_max c"
  shows "sessions_ok c s'"
  by (rule prims_keep [where P = "sessions_ok c", OF assms(1,2)]) (rule sessions_ok_prim [OF _ _ assms(3)])

section \<open>The number of sessions of a user\<close>

definition live_count :: "uid \<Rightarrow> auth \<Rightarrow> nat" where
  "live_count u s = count_rows (\<lambda>t. rt_userId t = u \<and> rt_rotatedAt t = None) (a_tokens s)"

lemma live_count_delete: "live_count u (delete_tokens sel s) \<le> live_count u s"
proof -
  let ?p = "\<lambda>t. rt_userId t = u \<and> rt_rotatedAt t = None"
  have "length (filter ?p (filter (\<lambda>r. \<not> sel r) xs)) \<le> length (filter ?p xs)" for xs
    by (induction xs) auto
  then show ?thesis unfolding live_count_def count_rows_def delete_tokens_def delete_many_def by simp
qed

lemma live_count_consume: "live_count u (consume i s) \<le> live_count u s"
proof -
  let ?p = "\<lambda>t. rt_userId t = u \<and> rt_rotatedAt t = None"
  let ?f = "\<lambda>r. if rt_id r = i \<and> rt_rotatedAt r = None then r\<lparr>rt_rotatedAt := Some (a_now s)\<rparr> else r"
  have "length (filter ?p (map ?f xs)) \<le> length (filter ?p xs)" for xs
    by (induction xs) auto
  then show ?thesis unfolding live_count_def count_rows_def consume_def update_many_def by simp
qed

lemma drop_filter:
  assumes "distinct (map k xs)"
  shows "filter (\<lambda>x. k x \<notin> k ` set (drop n xs)) xs = take n xs"
  using assms
proof (induction xs arbitrary: n)
  case (Cons x xs)
  show ?case
  proof (cases n)
    case 0
    then show ?thesis by (simp add: filter_empty_conv)
  next
    case (Suc m)
    have "k x \<notin> k ` set (drop m xs)" using Cons.prems by (auto dest: in_set_dropD)
    then show ?thesis using Suc Cons by simp
  qed
qed simp

lemma evict_leaves:
  assumes "unique_on rt_id (a_tokens s)" "1 \<le> k_maxTokens c"
  shows "int (live_count u (evict c u s)) < k_maxTokens c"
proof -
  let ?p = "\<lambda>t. rt_userId t = u \<and> rt_rotatedAt t = None"
  let ?xs = "active_tokens u s"
  let ?n = "nat (k_maxTokens c - 1)"
  have len: "live_count u s = length ?xs"
    by (simp add: live_count_def active_tokens_def count_rows_def find_many_def)
  show ?thesis
  proof (cases "int (length ?xs) \<ge> k_maxTokens c")
    case True
    have dist: "distinct (map rt_id ?xs)"
    proof -
      have "distinct (map rt_id (filter ?p (a_tokens s)))"
        using assms(1) by (simp add: unique_on_def distinct_map_filter)
      then show ?thesis
        unfolding active_tokens_def find_many_def by (simp add: distinct_map distinct_sort)
    qed
    let ?q = "\<lambda>t. rt_id t \<notin> rt_id ` set (drop ?n ?xs)"
    have slice: "slice_from (k_maxTokens c - 1) ?xs = drop ?n ?xs" using assms(2) by (simp add: slice_from_def)
    have "live_count u (evict c u s) = length (filter ?q (filter ?p (a_tokens s)))"
      using True slice by (simp add: evict_def evicted_def Let_def live_count_def count_rows_def delete_tokens_def delete_many_def conj_ac)
    also have "\<dots> = length (filter ?q ?xs)"
      unfolding active_tokens_def find_many_def size_mset [symmetric] mset_filter mset_sort by (rule refl)
    also have "\<dots> \<le> ?n" using drop_filter [OF dist, of ?n] by simp
    finally show ?thesis using assms(2) by linarith
  next
    case False
    then show ?thesis using len by (simp add: evict_def evicted_def delete_tokens_def delete_many_def live_count_def)
  qed
qed

definition cap_ok :: "auth_config \<Rightarrow> auth \<Rightarrow> bool" where
  "cap_ok c s \<longleftrightarrow> (\<forall>u. int (live_count u s) \<le> k_maxTokens c)"

lemma cap_ok_le: "cap_ok c s \<Longrightarrow> (\<And>u. live_count u s' \<le> live_count u s) \<Longrightarrow> cap_ok c s'"
  unfolding cap_ok_def by (meson of_nat_le_iff order_trans)

lemma cap_ok_prim:
  assumes p: "prim c s0 s s'" and ok: "sessions_ok c s" "cap_ok c s" and max: "1 \<le> k_maxTokens c"
  shows "cap_ok c s'"
  using p
proof cases
  case other
  then show ?thesis using ok(2) by (simp add: cap_ok_def live_count_def)
next
  case (remove sel)
  then show ?thesis using cap_ok_le [OF ok(2)] live_count_delete by simp
next
  case (rotate i)
  then show ?thesis using cap_ok_le [OF ok(2)] live_count_consume by simp
next
  case (issue f u started fam)
  let ?s1 = "delete_tokens (\<lambda>t. rt_userId t = ac_id u \<and> rt_expiresAt t < a_now s) s"
  have "unique_on rt_id (a_tokens ?s1)" using sessions_ok_unique [OF sessions_ok_delete [OF ok(1)]] by blast
  then have self: "int (live_count (ac_id u) (kept_rows c u s)) < k_maxTokens c"
    unfolding kept_rows_def using max by (rule evict_leaves)
  have "live_count v (kept_rows c u s) \<le> live_count v s" for v
    unfolding kept_rows_def evict_def Let_def using live_count_delete order_trans by (auto intro: order_trans)
  then have kept: "cap_ok c (kept_rows c u s)" by (rule cap_ok_le [OF ok(2)])
  show ?thesis
  proof (cases rule: issueTokens_cases [of c f u started fam s])
    case 1
    then show ?thesis using kept by (simp add: issue cap_ok_def live_count_def)
  next
    case 2
    have "int (live_count v s') \<le> k_maxTokens c" for v
      using self kept 2(1) by (auto simp: issue cap_ok_def live_count_def count_rows_def)
    then show ?thesis by (simp add: cap_ok_def)
  qed
qed

lemma session_run_prims_keep:
  assumes "(session_step c s0)\<^sup>*\<^sup>* s s'" "P s" "\<And>x y. prim c s0 x y \<Longrightarrow> P x \<Longrightarrow> P y"
  shows "P s'"
  using session_run_prims [OF assms(1)] assms(2,3) by (rule prims_keep)

section \<open>One renewal per token\<close>

lemma renew_rows:
  "r \<in> set (a_tokens (snd (renew c f t s))) \<Longrightarrow>
   r \<in> set (a_tokens s) \<or> rt_id r = f_id f \<and> rt_hash r = k_sha c (f_raw f)"
  by (auto simp: renew_def auth_emit_def delete_tokens_mem denylistUserSessions_def cleanupExpiredTokens_def
      dest!: issued_rows split: option.splits if_splits)

lemma spent_refuses_all:
  assumes "spent (k_sha c raw) s"
  shows "fst (refreshTokens c f r1 r2 raw s) = Inl SessionExpired"
proof (cases "token_row (k_sha c raw) s")
  case None
  then show ?thesis by (simp add: refreshTokens_def)
next
  case (Some t)
  then have "rt_rotatedAt t \<noteq> None" using assms token_row_mem by (fastforce simp: spent_def)
  then show ?thesis using Some by (auto simp: refreshTokens_def)
qed

lemma no_row_refuses:
  assumes "token_row (k_sha c raw) s = Some t" "\<forall>r \<in> set (a_tokens (r1 s)). rt_id r = rt_id t \<longrightarrow> rt_rotatedAt r \<noteq> None"
  shows "fst (refreshTokens c f r1 r2 raw s) = Inl SessionExpired"
proof -
  have "count_rows (\<lambda>r. rt_id r = rt_id t \<and> rt_rotatedAt r = None) (a_tokens (r1 s)) = 0"
    using assms(2) by (auto simp: count_rows_0)
  then show ?thesis using assms(1) by (auto simp: refreshTokens_def Let_def split: option.split)
qed

text \<open>After a renewal the presented token is spent, whatever ran in between.\<close>

lemma refresh_spends:
  assumes ok: "sessions_ok c s" and f: "new_to c s f"
    and r1: "(session_step c s)\<^sup>*\<^sup>* s (r1 s)" and r2: "\<And>x. (session_step c s)\<^sup>*\<^sup>* x (r2 x)"
    and won: "fst (refreshTokens c f r1 r2 raw s) = Inr a"
  obtains t where "token_row (k_sha c raw) s = Some t" "stems s (snd (refreshTokens c f r1 r2 raw s))"
    "spent (k_sha c raw) (snd (refreshTokens c f r1 r2 raw s))"
proof (rule refresh_Inr [OF won])
  fix t assume t: "token_row (k_sha c raw) s = Some t"
    and eq: "refreshTokens c f r1 r2 raw s = renew c f t (r2 (consume (rt_id t) (r1 s)))"
  let ?x = "consume (rt_id t) (r1 s)"
  note mem = token_row_mem [OF t]
  have p1: "(prim c s)\<^sup>*\<^sup>* s ?x"
    using session_run_prims [OF r1] prim.rotate by (rule rtranclp.rtrancl_into_rtrancl)
  have "spent (k_sha c raw) ?x"
    unfolding spent_def
  proof (intro ballI impI)
    fix r assume r: "r \<in> set (a_tokens ?x)" "rt_hash r = k_sha c raw"
    have "stems s ?x" by (rule stems_run [OF p1]) simp
    then obtain t' where t': "t' \<in> set (a_tokens s)" "rt_hash r = rt_hash t'" "rt_id r = rt_id t'"
      using r mem unfolding stems_def by metis
    then have "t' = t" using sessions_ok_unique [OF ok] mem r(2) by (metis unique_onD)
    then show "rt_rotatedAt r \<noteq> None" using consume_mem [OF r(1)] t'(3) by auto
  qed
  then have sp: "spent (k_sha c raw) (r2 ?x)"
    by (intro spent_run [OF session_run_prims [OF r2]]) (use mem in \<open>auto intro: rev_image_eqI\<close>)
  have st: "stems s (r2 ?x)"
    by (rule stems_run [OF prims_trans [OF p1 session_run_prims [OF r2]]]) simp
  have new: "f_id f \<noteq> rt_id t' \<and> k_sha c (f_raw f) \<noteq> rt_hash t'" if "t' \<in> set (a_tokens s)" for t'
    using that f by (auto simp: new_to_def)
  have "spent (k_sha c raw) (snd (renew c f t (r2 ?x)))"
    using sp renew_rows new mem unfolding spent_def by metis
  moreover have "stems s (snd (renew c f t (r2 ?x)))"
    unfolding stems_def
  proof (intro ballI impI)
    fix r t' assume r: "r \<in> set (a_tokens (snd (renew c f t (r2 ?x))))" "t' \<in> set (a_tokens s)" "rt_hash r = rt_hash t' \<or> rt_id r = rt_id t'"
    have "r \<in> set (a_tokens (r2 ?x))" using renew_rows [OF r(1)] new [OF r(2)] r(3) by auto
    then show "\<exists>t'\<in>set (a_tokens s). rt_hash r = rt_hash t' \<and> rt_id r = rt_id t'"
      using st r(2,3) unfolding stems_def by blast
  qed
  ultimately show ?thesis using that t unfolding eq by blast
qed

lemma spent_all:
  assumes ok: "sessions_ok c s" and st: "stems s s'" and sp: "spent (k_sha c raw) s'" and t: "token_row (k_sha c raw) s = Some t"
  shows "fst (refreshTokens c f (\<lambda>_. s') r2 raw s) = Inl SessionExpired"
proof (rule no_row_refuses [OF t], intro ballI impI)
  fix r assume r: "r \<in> set (a_tokens s')" "rt_id r = rt_id t"
  note mem = token_row_mem [OF t]
  obtain t' where t': "t' \<in> set (a_tokens s)" "rt_hash r = rt_hash t'" "rt_id r = rt_id t'"
    using st r mem unfolding stems_def by metis
  then have "t' = t" using sessions_ok_unique [OF ok] mem r(2) by (metis unique_onD)
  then show "rt_rotatedAt r \<noteq> None" using sp r(1) t'(2) mem by (simp add: spent_def)
qed

section \<open>Accounts\<close>

lemma account_of_update [session]:
  assumes "\<And>a. ac_id (g a) = ac_id a"
  shows "account_of i (update_account j g s) = map_option (\<lambda>a. if ac_id a = j then g a else a) (account_of i s)"
proof -
  have "find_first (\<lambda>a. ac_id a = i) (update_many (\<lambda>a. ac_id a = j) g xs) =
      map_option (\<lambda>a. if ac_id a = j then g a else a) (find_first (\<lambda>a. ac_id a = i) xs)" for xs
    using assms by (induction xs) auto
  then show ?thesis by (simp add: account_of_def update_account_def)
qed

lemma accounts_simps [simp]:
  "a_accounts (consume i s) = a_accounts s" "a_accounts (delete_tokens sel s) = a_accounts s"
  "a_accounts (auth_emit fx s) = a_accounts s" "a_accounts (cleanupExpiredTokens s) = a_accounts s"
  "a_accounts (snd (issueTokens c f calm u started fam s)) = a_accounts s"
  by (simp_all add: consume_def delete_tokens_def auth_emit_def cleanupExpiredTokens_def issueTokens_calm evict_def Let_def)

text \<open>A user without rows gets the new pair.\<close>

lemma issue_first:
  assumes "\<And>r. r \<in> set (a_tokens s) \<Longrightarrow> rt_userId r \<noteq> ac_id u" and "new_to c s f" and "1 \<le> k_maxTokens c"
  shows "issueTokens c f calm u started fam s =
    (Inr \<lparr>at_sub = ac_id u, at_role = ac_role u, at_sid = Some (family_for f fam), at_iat = a_now s\<rparr>,
     auth_emit [SetCookies \<lparr>at_sub = ac_id u, at_role = ac_role u, at_sid = Some (family_for f fam), at_iat = a_now s\<rparr> (f_raw f)]
       (s\<lparr>a_tokens := a_tokens s @ [new_token c f (ac_id u) (started_at started s) (family_for f fam) (a_now s)]\<rparr>))"
proof -
  have 1: "delete_tokens (\<lambda>t. rt_userId t = ac_id u \<and> rt_expiresAt t < a_now s) s = s"
    using assms(1) by (simp add: delete_tokens_def delete_many_def cong: filter_cong)
  have "find_many (\<lambda>t. rt_userId t = ac_id u \<and> rt_rotatedAt t = None) (a_tokens s) = []"
    using assms(1) by (auto simp: find_many_def filter_empty_conv)
  then have 2: "evict c (ac_id u) s = s" using assms(3) by (simp add: evict_def evicted_def active_tokens_def delete_tokens_def delete_many_def)
  have "\<not> list_ex (\<lambda>t. rt_id t = f_id f \<or> rt_hash t = k_sha c (f_raw f)) (a_tokens s)"
    using assms(2) by (auto simp: new_to_def list_ex_iff)
  then show ?thesis
    by (simp add: issueTokens_calm Let_def 1 2 family_for_def [symmetric] started_at_def [symmetric])
qed

lemma consumed_not_live:
  assumes "\<And>r. r \<in> set (a_tokens s) \<Longrightarrow> rt_family r = fam \<Longrightarrow> rt_rotatedAt r = None \<Longrightarrow> rt_id r = i"
  shows "fam \<notin> set (live_families uid keep (consume i s))"
proof
  assume "fam \<in> set (live_families uid keep (consume i s))"
  then obtain r where r: "r \<in> set (a_tokens (consume i s))" "rt_rotatedAt r = None" "rt_family r = fam"
    by (auto simp: live_families_def find_many_def)
  show False by (rule consume_row [OF refl r(1)]) (use assms r consume_mem [OF r(1)] in auto)
qed

text \<open>What a successful reset leaves.\<close>

lemma resetPassword_done:
  assumes "reset_format tok"
    and "find_first (\<lambda>a. ac_resetToken a = Some (k_sha c tok) \<and>
      (case ac_resetExpiry a of Some x \<Rightarrow> x > a_now s | None \<Rightarrow> False)) (a_accounts s) = Some u"
  shows "account_of i (snd (resetPassword c id tok pw s)) = map_option (\<lambda>a. if ac_id a = ac_id u
      then a\<lparr>ac_password := Some (k_bcryptHash c pw), ac_resetToken := None, ac_resetExpiry := None, ac_failed := 0, ac_lockedUntil := None\<rparr>
      else a) (account_of i s)"
    and "a_tokens (snd (resetPassword c id tok pw s)) = filter (\<lambda>r. rt_userId r \<noteq> ac_id u) (a_tokens s)"
    and "a_now (snd (resetPassword c id tok pw s)) = a_now s"
    and "fam \<notin> set (live_families (ac_id u) None s) \<Longrightarrow> a_denied (snd (resetPassword c id tok pw s)) fam = a_denied s fam"
proof -
  let ?new = "\<lambda>a. a\<lparr>ac_password := Some (k_bcryptHash c pw), ac_resetToken := None, ac_resetExpiry := None, ac_failed := 0, ac_lockedUntil := None\<rparr>"
  have y: "snd (resetPassword c id tok pw s) = auth_emit [SecurityLog ''PASSWORD_RESET_COMPLETED'' (ac_id u)]
      (denylist_all c (live_families (ac_id u) None s)
        (delete_tokens (\<lambda>r. rt_userId r = ac_id u) (update_account (ac_id u) ?new s)))"
    using assms by (simp add: resetPassword_def Let_def cong: option.case_cong)
  show "account_of i (snd (resetPassword c id tok pw s)) = map_option (\<lambda>a. if ac_id a = ac_id u then ?new a else a) (account_of i s)"
    using account_of_update [of ?new i "ac_id u" s] by (simp add: y account_of_def)
  show "a_tokens (snd (resetPassword c id tok pw s)) = filter (\<lambda>r. rt_userId r \<noteq> ac_id u) (a_tokens s)"
    "a_now (snd (resetPassword c id tok pw s)) = a_now s"
    by (simp_all add: y auth_emit_def denylist_all_commute delete_tokens_def update_account_def delete_many_def)
  show "fam \<notin> set (live_families (ac_id u) None s) \<Longrightarrow> a_denied (snd (resetPassword c id tok pw s)) fam = a_denied s fam"
    by (simp add: y auth_emit_def denylist_all_commute delete_tokens_def update_account_def denylist_all_other)
qed

end
