(* ===== verification/Allowance.thy ===== *)
theory Allowance
  imports Prelude
begin

text \<open>
  The contract of everything that grants a limited number of requests: the lock of an account, the
  e-mail quotas, the request throttler.
\<close>

fun granted :: "('e \<Rightarrow> 's \<Rightarrow> bool \<times> 's) \<Rightarrow> ('e \<Rightarrow> bool) \<Rightarrow> 'e list \<Rightarrow> 's \<Rightarrow> nat" where
  "granted step counts [] s = 0"
| "granted step counts (e # es) s =
     (if counts e \<and> fst (step e s) then 1 else 0) + granted step counts es (snd (step e s))"

text \<open>
  \<open>left\<close> is what a state can still grant; a step within the scope of the contract spends of it what it
  grants.
\<close>

locale allowance =
  fixes step :: "'e \<Rightarrow> 's \<Rightarrow> bool \<times> 's"
    and counts :: "'e \<Rightarrow> bool"
    and scope :: "'e \<Rightarrow> bool"
    and ok :: "'s \<Rightarrow> bool"
    and left :: "'s \<Rightarrow> nat"
  assumes stays: "ok s \<Longrightarrow> scope e \<Longrightarrow> ok (snd (step e s))"
    and spends: "ok s \<Longrightarrow> scope e \<Longrightarrow> (if counts e \<and> fst (step e s) then 1 else 0) + left (snd (step e s)) \<le> left s"
begin

lemma granted_le_left:
  assumes "ok s" and "\<forall>e \<in> set es. scope e"
  shows "granted step counts es s \<le> left s"
  using assms
proof (induction es arbitrary: s)
  case (Cons e es)
  then have "granted step counts es (snd (step e s)) \<le> left (snd (step e s))" by (simp add: stays)
  then show ?case using spends [of s e] Cons.prems by simp
qed simp

end

end
