(* ===== verification/LoginProps.thy ===== *)
theory LoginProps
  imports SessionInvariants Allowance
begin

text \<open>
  The lock of an account: how many guesses of its password can succeed. The comparisons that
  \<open>loginWithCheck\<close> makes for their duration only, and whose outcome it ignores, do not count.
\<close>

text \<open>Whether the outcome of \<open>bcrypt.compare\<close> decides what \<open>loginWithCheck\<close> answers.\<close>

definition compares :: "auth_config \<Rightarrow> string \<Rightarrow> auth \<Rightarrow> bool" where
  "compares c email s = (case checkGlobalLoginRate c email s of (allowed, s1) \<Rightarrow>
     allowed \<and> (case find_first (\<lambda>a. ac_email a = email) (a_accounts s1) of
       None \<Rightarrow> False | Some u \<Rightarrow> \<not> locked u s1 \<and> \<not> no_password u))"

text \<open>A login at its instant, and whether it is such a one.\<close>

definition login_step :: "auth_config \<Rightarrow> fresh \<Rightarrow> string \<Rightarrow> ms \<times> string \<Rightarrow> auth \<Rightarrow> bool \<times> auth" where
  "login_step c f email e s = (compares c email (s\<lparr>a_now := fst e\<rparr>), snd (loginWithCheck c f email (snd e) (s\<lparr>a_now := fst e\<rparr>)))"

definition account_at :: "string \<Rightarrow> auth \<Rightarrow> account option" where
  "account_at email s = find_first (\<lambda>a. ac_email a = email) (a_accounts s)"

lemma find_update:
  "(\<And>a. p (if q a then g a else a) = p a) \<Longrightarrow>
   find_first p (update_many q g xs) = map_option (\<lambda>a. if q a then g a else a) (find_first p xs)"
  by (induction xs) auto

lemma account_at_update:
  "(\<And>a. ac_email (g a) = ac_email a) \<Longrightarrow>
   account_at email (update_account i g s) = map_option (\<lambda>a. if ac_id a = i then g a else a) (account_at email s)"
  unfolding account_at_def update_account_def by (simp add: find_update)

definition accounts_ok :: "auth \<Rightarrow> bool" where
  "accounts_ok s \<longleftrightarrow> unique_on ac_id (a_accounts s)"

lemma accounts_ok_update: "(\<And>a. ac_id (g a) = ac_id a) \<Longrightarrow> accounts_ok (update_account i g s) = accounts_ok s"
  by (simp add: accounts_ok_def update_account_def update_many_unique)

lemma account_of_at: "accounts_ok s \<Longrightarrow> account_at email s = Some u \<Longrightarrow> account_of (ac_id u) s = Some u"
  unfolding accounts_ok_def account_at_def account_of_def
  by (drule find_first_Some, rule find_first_key [where k = ac_id]) simp_all

text \<open>The account after a wrong password.\<close>

definition failed_once :: "auth_config \<Rightarrow> ms \<Rightarrow> account \<Rightarrow> account" where
  "failed_once c now u = (let n = ac_failed u + 1 in
     if n \<ge> k_lockThreshold c then u\<lparr>ac_failed := n, ac_lockedUntil := Some (now + k_lockMinutes c * 60000)\<rparr>
     else u\<lparr>ac_failed := n\<rparr>)"

lemma count_failure_at:
  assumes "accounts_ok s" "account_at email s = Some u"
  shows "account_at email (count_failure c u s) = Some (failed_once c (a_now s) u)" "accounts_ok (count_failure c u s)"
proof -
  let ?g = "\<lambda>a. a\<lparr>ac_failed := ac_failed a + 1\<rparr>"
  let ?s = "update_account (ac_id u) ?g s"
  have at: "account_at email ?s = Some (?g u)" using account_at_update [of ?g email "ac_id u" s] assms(2) by simp
  have acc: "account_of (ac_id u) ?s = Some (?g u)"
    using account_of_update [of ?g "ac_id u" "ac_id u" s] account_of_at [OF assms] by simp
  have ok: "accounts_ok ?s" using accounts_ok_update [of ?g "ac_id u" s] assms(1) by simp
  have now: "a_now ?s = a_now s" by (simp add: update_account_def)
  show "account_at email (count_failure c u s) = Some (failed_once c (a_now s) u)"
    using at by (simp add: count_failure_def acc Let_def failed_once_def account_at_def find_update now)
  show "accounts_ok (count_failure c u s)"
    using ok by (simp add: count_failure_def Let_def accounts_ok_def update_many_unique)
qed

lemma checkGlobalLoginRate_same:
  "checkGlobalLoginRate c email s = (ok, s1) \<Longrightarrow> a_accounts s1 = a_accounts s \<and> a_now s1 = a_now s"
  by (auto simp: checkGlobalLoginRate_def Let_def split: if_splits prod.splits)

text \<open>What a login with a wrong password does to the account.\<close>

lemma wrong_login:
  assumes ok: "accounts_ok s" and u: "account_at email s = Some u"
    and pw: "ac_password u = Some h" "\<not> k_bcrypt c pw h"
  shows "accounts_ok (snd (loginWithCheck c f email pw s))"
    and "compares c email s \<Longrightarrow> \<not> locked u s \<and> account_at email (snd (loginWithCheck c f email pw s)) =
      Some (failed_once c (a_now s) (if ac_lockedUntil u = None then u else clear_lock u))"
    and "\<not> compares c email s \<Longrightarrow> account_at email (snd (loginWithCheck c f email pw s)) = Some u \<or>
      \<not> locked u s \<and> ac_lockedUntil u \<noteq> None \<and> account_at email (snd (loginWithCheck c f email pw s)) = Some (clear_lock u)"
proof -
  obtain allowed s1 where g: "checkGlobalLoginRate c email s = (allowed, s1)" by fastforce
  note same = checkGlobalLoginRate_same [OF g]
  have at1: "account_at email s1 = Some u" "accounts_ok s1" using ok u same by (simp_all add: account_at_def accounts_ok_def)
  let ?u = "if ac_lockedUntil u = None then u else clear_lock u"
  let ?s = "if ac_lockedUntil u = None then s1 else update_account (ac_id u) clear_lock s1"
  have at: "account_at email ?s = Some ?u" "accounts_ok ?s" "a_now ?s = a_now s"
    using at1 same account_at_update [of clear_lock email "ac_id u" s1] accounts_ok_update [of clear_lock "ac_id u" s1]
    by (simp_all add: clear_lock_def update_account_def)
  note fail = count_failure_at [OF at(2,1), of c, unfolded at(3)]
  have lock: "locked u s1 = locked u s" using same by (simp add: locked_def cong: option.case_cong)
  have pwu: "ac_password ?u = Some h" "no_password ?u = no_password u" using pw by (simp_all add: clear_lock_def no_password_def)
  have cmp: "compares c email s \<longleftrightarrow> allowed \<and> \<not> locked u s \<and> \<not> no_password u"
    using at1(1) by (simp add: compares_def g account_at_def lock)
  have res: "snd (loginWithCheck c f email pw s) =
      (if \<not> allowed \<or> locked u s then s1 else if no_password u then ?s else count_failure c ?u ?s)"
    using at1(1) pwu pw(2) by (simp add: loginWithCheck_def g account_at_def lock Let_def)
  show "accounts_ok (snd (loginWithCheck c f email pw s))" using res at(2) at1(2) fail(2) by simp
  show "compares c email s \<Longrightarrow> \<not> locked u s \<and> account_at email (snd (loginWithCheck c f email pw s)) =
      Some (failed_once c (a_now s) ?u)" using res cmp fail(1) by simp
  show "\<not> compares c email s \<Longrightarrow> account_at email (snd (loginWithCheck c f email pw s)) = Some u \<or>
      \<not> locked u s \<and> ac_lockedUntil u \<noteq> None \<and> account_at email (snd (loginWithCheck c f email pw s)) = Some (clear_lock u)"
    using res cmp at(1) at1(1) by (cases "ac_lockedUntil u") auto
qed

text \<open>How many comparisons are left before \<open>until\<close>.\<close>

definition guesses_left :: "auth_config \<Rightarrow> ms \<Rightarrow> account \<Rightarrow> int" where
  "guesses_left c until u = (case ac_lockedUntil u of
     Some x \<Rightarrow> if x \<ge> until then 0 else k_lockThreshold c
   | None \<Rightarrow> max 1 (k_lockThreshold c - ac_failed u))"

lemma guesses_left_fail:
  assumes "\<not> locked u s" "t0 \<le> a_now s" "a_now s < until" "until = t0 + k_lockMinutes c * 60000" "1 \<le> k_lockThreshold c"
  shows "1 + guesses_left c until (failed_once c (a_now s) (if ac_lockedUntil u = None then u else clear_lock u)) \<le> guesses_left c until u"
  using assms
  by (cases "ac_lockedUntil u") (auto simp: guesses_left_def failed_once_def clear_lock_def locked_def Let_def)

lemma guesses_left_clear:
  "\<not> locked u s \<Longrightarrow> ac_lockedUntil u \<noteq> None \<Longrightarrow> a_now s < until \<Longrightarrow> 1 \<le> k_lockThreshold c \<Longrightarrow>
   guesses_left c until (clear_lock u) \<le> guesses_left c until u"
  by (auto simp: guesses_left_def clear_lock_def locked_def)

definition guessable :: "string \<Rightarrow> string \<Rightarrow> auth \<Rightarrow> bool" where
  "guessable email h s \<longleftrightarrow> accounts_ok s \<and> (\<exists>u. account_at email s = Some u \<and> ac_password u = Some h)"

definition allowed_guesses :: "auth_config \<Rightarrow> string \<Rightarrow> ms \<Rightarrow> auth \<Rightarrow> nat" where
  "allowed_guesses c email until s = nat (case account_at email s of Some u \<Rightarrow> guesses_left c until u | None \<Rightarrow> 0)"

lemma guesses_left_nonneg: "1 \<le> k_lockThreshold c \<Longrightarrow> 0 \<le> guesses_left c until u"
  by (auto simp: guesses_left_def split: option.split)

interpretation lock: allowance "login_step c f email" "\<lambda>_. True"
  "\<lambda>e. 1 \<le> k_lockThreshold c \<and> t0 \<le> fst e \<and> fst e < t0 + k_lockMinutes c * 60000 \<and> \<not> k_bcrypt c (snd e) h"
  "guessable email h" "allowed_guesses c email (t0 + k_lockMinutes c * 60000)" for c f email h t0
proof unfold_locales
  fix s :: auth and e :: "ms \<times> string"
  let ?until = "t0 + k_lockMinutes c * 60000"
  let ?s = "s\<lparr>a_now := fst e\<rparr>" and ?r = "login_step c f email e s"
  assume g: "guessable email h s"
    and e: "1 \<le> k_lockThreshold c \<and> t0 \<le> fst e \<and> fst e < ?until \<and> \<not> k_bcrypt c (snd e) h"
  obtain u where u: "accounts_ok s" "account_at email s = Some u" "ac_password u = Some h" using g by (auto simp: guessable_def)
  then have at: "accounts_ok ?s" "account_at email ?s = Some u" by (simp_all add: accounts_ok_def account_at_def)
  note w = wrong_login [OF at u(3) e [THEN conjunct2, THEN conjunct2, THEN conjunct2], of f]
  have "guessable email h (snd ?r) \<and> (if fst ?r then 1 else 0) + allowed_guesses c email ?until (snd ?r) \<le> allowed_guesses c email ?until s"
  proof (cases "fst ?r")
    case True
    then have cmp: "compares c email ?s" by (simp add: login_step_def)
    let ?u = "failed_once c (fst e) (if ac_lockedUntil u = None then u else clear_lock u)"
    have after: "account_at email (snd ?r) = Some ?u" "\<not> locked u ?s" using w(2) [OF cmp] by (simp_all add: login_step_def)
    have "ac_password ?u = Some h" using u(3) by (simp add: failed_once_def clear_lock_def Let_def)
    then have "guessable email h (snd ?r)" using after w(1) by (simp add: guessable_def login_step_def)
    moreover have "1 + guesses_left c ?until ?u \<le> guesses_left c ?until u"
      using guesses_left_fail [of u ?s t0 ?until c] after(2) e by simp
    ultimately show ?thesis using True after(1) u(2) guesses_left_nonneg [of c ?until ?u] e by (simp add: allowed_guesses_def)
  next
    case False
    then have cmp: "\<not> compares c email ?s" by (simp add: login_step_def)
    have "ac_password (clear_lock u) = Some h" using u(3) by (simp add: clear_lock_def)
    then show ?thesis
      using w(1) w(3) [OF cmp] u False guesses_left_clear [of u ?s ?until c] e
      by (auto simp: guessable_def allowed_guesses_def login_step_def)
  qed
  then show "guessable email h (snd ?r)"
    "(if True \<and> fst ?r then 1 else 0) + allowed_guesses c email ?until (snd ?r) \<le> allowed_guesses c email ?until s" by simp_all
qed

lemma guesses_left_le: "0 \<le> ac_failed u \<Longrightarrow> 1 \<le> k_lockThreshold c \<Longrightarrow> guesses_left c until u \<le> k_lockThreshold c"
  by (auto simp: guesses_left_def split: option.split)

end
