(* ===== verification/IssueOverlap.thy ===== *)
theory IssueOverlap
  imports SessionInvariants
begin

text \<open>
  Calls of \<open>issueTokens\<close> for one user that overlap. A call reads the active tokens, deletes those that are
  too many, and stores the new one, each in a statement of its own; the calls in flight are listed in the
  order of their reads. Everything else that happens to the token table only takes live rows of the user
  away. With \<open>k\<close> calls in flight the user can have \<open>k - 1\<close> sessions more than the maximum.
\<close>

section \<open>Calls in flight\<close>

text \<open>What a call still has to do: delete the rows it chose, or store its own.\<close>

datatype phase = Chosen "uid list" | Evicted

definition live_ids :: "uid \<Rightarrow> auth \<Rightarrow> uid set" where
  "live_ids uid s = rt_id ` {t \<in> set (a_tokens s). rt_userId t = uid \<and> rt_rotatedAt t = None}"

inductive overlap_step :: "auth_config \<Rightarrow> uid \<Rightarrow> nat \<Rightarrow> auth \<times> phase list \<Rightarrow> auth \<times> phase list \<Rightarrow> bool" for c uid k where
  others: "live_ids uid s' \<subseteq> live_ids uid s \<Longrightarrow> unique_on rt_id (a_tokens s') \<Longrightarrow> overlap_step c uid k (s, p) (s', p)"
| read: "length p < k \<Longrightarrow> overlap_step c uid k (s, p) (s, p @ [Chosen (evicted c uid s)])"
| evict: "overlap_step c uid k (s, xs @ Chosen ids # ys) (delete_tokens (\<lambda>t. rt_id t \<in> set ids) s, xs @ Evicted # ys)"
| store: "overlap_step c uid k (s, xs @ Evicted # ys) (snd (store_token c f uid started fam access s), xs @ ys)"
| fail: "overlap_step c uid k (s, xs @ x # ys) (s, xs @ ys)"

inductive_cases overlap_stepE: "overlap_step c uid k (s, p) (s', p')"

section \<open>Live rows\<close>

lemma live_ids_finite [simp]: "finite (live_ids uid s)"
  by (simp add: live_ids_def)

lemma live_count_card:
  assumes "unique_on rt_id (a_tokens s)"
  shows "live_count uid s = card (live_ids uid s)"
proof -
  let ?xs = "filter (\<lambda>t. rt_userId t = uid \<and> rt_rotatedAt t = None) (a_tokens s)"
  have "distinct (map rt_id ?xs)" using assms by (simp add: unique_on_def distinct_map_filter)
  then have "card (set (map rt_id ?xs)) = length ?xs" using distinct_card by fastforce
  then show ?thesis by (simp add: live_count_def count_rows_def live_ids_def)
qed

lemma live_ids_sub: "set (a_tokens s') \<subseteq> set (a_tokens s) \<Longrightarrow> live_ids uid s' \<subseteq> live_ids uid s"
  by (auto simp: live_ids_def)

lemma delete_tokens_unique: "unique_on rt_id (a_tokens s) \<Longrightarrow> unique_on rt_id (a_tokens (delete_tokens sel s))"
  by (simp add: delete_tokens_def delete_many_unique)

lemma delete_tokens_sub: "set (a_tokens (delete_tokens sel s)) \<subseteq> set (a_tokens s)"
  by (auto simp: delete_tokens_mem)

lemma live_ids_delete: "live_ids uid (delete_tokens (\<lambda>t. rt_id t \<in> set ids) s) = live_ids uid s - set ids"
  by (auto simp: live_ids_def delete_tokens_mem)

lemma store_token_cases:
  obtains "snd (store_token c f uid started fam access s) = s"
  | row where "snd (store_token c f uid started fam access s) = auth_emit [SetCookies access (f_raw f)] (s\<lparr>a_tokens := a_tokens s @ [row]\<rparr>)"
      "\<forall>t \<in> set (a_tokens s). rt_id t \<noteq> rt_id row" "rt_userId row = uid"
proof (cases "list_ex (\<lambda>t. rt_id t = f_id f \<or> rt_hash t = k_sha c (f_raw f)) (a_tokens s)")
  case True
  then show ?thesis using that(1) by (simp add: store_token_def new_token_def)
next
  case False
  then show ?thesis
    using that(2) [of "new_token c f uid (case started of Some t \<Rightarrow> t | None \<Rightarrow> a_now s) fam (a_now s)"]
    by (simp add: store_token_def new_token_def list_ex_iff)
qed

lemma store_token_unique:
  "unique_on rt_id (a_tokens s) \<Longrightarrow> unique_on rt_id (a_tokens (snd (store_token c f uid started fam access s)))"
  by (rule store_token_cases [of c f uid started fam access s]) (auto simp: auth_emit_def unique_on_append)

lemma live_ids_emit [simp]: "live_ids uid (auth_emit fx s) = live_ids uid s"
  by (simp add: live_ids_def auth_emit_def)

lemma live_ids_store:
  obtains i where "live_ids uid (snd (store_token c f uid started fam access s)) \<subseteq> insert i (live_ids uid s)"
  by (rule store_token_cases [of c f uid started fam access s]) (auto simp: live_ids_def auth_emit_def)

lemma evicted_leaves:
  assumes "unique_on rt_id (a_tokens s)" and "1 \<le> k_maxTokens c"
  shows "int (card (live_ids uid s - set (evicted c uid s))) < k_maxTokens c"
proof -
  have "unique_on rt_id (a_tokens (evict c uid s))"
    using assms(1) by (simp add: evict_def delete_tokens_def delete_many_unique)
  then show ?thesis
    using evict_leaves [OF assms, of uid] by (simp add: live_count_card evict_def live_ids_delete)
qed

section \<open>The bound\<close>

text \<open>
  The calls that read after the last deletion have all yet to delete; \<open>room B live n late\<close> says that each
  of them, once it does, leaves at most \<open>B\<close> rows when it and the \<open>n\<close> calls that read before it store theirs.
\<close>

fun room :: "nat \<Rightarrow> uid set \<Rightarrow> nat \<Rightarrow> phase list \<Rightarrow> bool" where
  "room B live n [] \<longleftrightarrow> True"
| "room B live n (Chosen ids # p) \<longleftrightarrow> card (live - set ids) + n + 1 \<le> B \<and> room B live (n + 1) p"
| "room B live n (Evicted # p) \<longleftrightarrow> False"

lemma room_append: "room B live n (p @ q) \<longleftrightarrow> room B live n p \<and> room B live (n + length p) q"
  by (induction B live n p rule: room.induct) simp_all

lemma room_mono: "room B live n p \<Longrightarrow> live' \<subseteq> live \<Longrightarrow> finite live \<Longrightarrow> m \<le> n \<Longrightarrow> room B live' m p"
proof (induction B live n p arbitrary: m rule: room.induct)
  case (2 B live n ids p)
  have "card (live' - set ids) \<le> card (live - set ids)" using 2(3,4) by (intro card_mono) auto
  then show ?case using 2(1) [of "m + 1"] 2(2-5) by simp
qed simp_all

lemma room_store: "room B live (Suc n) p \<Longrightarrow> finite live \<Longrightarrow> room B (insert i live) n p"
proof (induction B live "Suc n" p arbitrary: n rule: room.induct)
  case (2 B live ids p)
  have "card (insert i live - set ids) \<le> card (insert i (live - set ids))" using 2(3) by (intro card_mono) auto
  also have "\<dots> \<le> Suc (card (live - set ids))" by (simp add: card_insert_le_m1 card_insert_if 2(3))
  finally show ?case using 2 by simp
qed simp_all

lemma room_no_evicted: "room B live n p \<Longrightarrow> Evicted \<notin> set p"
  by (induction B live n p rule: room.induct) auto

definition room_ok :: "auth_config \<Rightarrow> uid \<Rightarrow> nat \<Rightarrow> auth \<times> phase list \<Rightarrow> bool" where
  "room_ok c uid k = (\<lambda>(s, p). unique_on rt_id (a_tokens s) \<and> length p \<le> k \<and>
     (\<exists>early late. p = early @ late \<and> card (live_ids uid s) + length early \<le> nat (k_maxTokens c) + k - 1 \<and>
        room (nat (k_maxTokens c) + k - 1) (live_ids uid s) (length early) late))"

lemma room_okI:
  "unique_on rt_id (a_tokens s) \<Longrightarrow> length (early @ late) \<le> k \<Longrightarrow>
   card (live_ids uid s) + length early \<le> nat (k_maxTokens c) + k - 1 \<Longrightarrow>
   room (nat (k_maxTokens c) + k - 1) (live_ids uid s) (length early) late \<Longrightarrow> room_ok c uid k (s, early @ late)"
  unfolding room_ok_def by blast

lemma room_okE:
  assumes "room_ok c uid k (s, p)"
  obtains early late where "p = early @ late" "unique_on rt_id (a_tokens s)" "length p \<le> k"
    "card (live_ids uid s) + length early \<le> nat (k_maxTokens c) + k - 1"
    "room (nat (k_maxTokens c) + k - 1) (live_ids uid s) (length early) late"
  using assms unfolding room_ok_def by blast

lemma split_at:
  assumes "xs @ x # ys = early @ late"
  obtains (early) zs where "early = xs @ x # zs" "ys = zs @ late"
  | (late) zs where "late = zs @ x # ys" "xs = early @ zs"
  using assms by (auto simp: append_eq_append_conv2 append_eq_Cons_conv Cons_eq_append_conv)

lemma room_ok_step:
  assumes "overlap_step c uid k x y" and "room_ok c uid k x" and "1 \<le> k_maxTokens c"
  shows "room_ok c uid k y"
  using assms(1,2)
proof cases
  case (others s' s p)
  then obtain early late where p: "p = early @ late" "length p \<le> k"
    "card (live_ids uid s) + length early \<le> nat (k_maxTokens c) + k - 1"
    "room (nat (k_maxTokens c) + k - 1) (live_ids uid s) (length early) late"
    using assms(2) by (auto simp: room_ok_def)
  have "card (live_ids uid s') \<le> card (live_ids uid s)" using others(3) by (intro card_mono) simp_all
  then show ?thesis
    unfolding others(2) p(1) using others(3,4) p room_mono [OF p(4) others(3)] by (intro room_okI) simp_all
next
  case (read p s)
  then obtain early late where p: "p = early @ late" "unique_on rt_id (a_tokens s)"
    "card (live_ids uid s) + length early \<le> nat (k_maxTokens c) + k - 1"
    "room (nat (k_maxTokens c) + k - 1) (live_ids uid s) (length early) late"
    using assms(2) by (auto simp: room_ok_def)
  have "card (live_ids uid s - set (evicted c uid s)) < nat (k_maxTokens c)"
    using evicted_leaves [OF p(2) assms(3), of uid] assms(3) by linarith
  then have "room (nat (k_maxTokens c) + k - 1) (live_ids uid s) (length early) (late @ [Chosen (evicted c uid s)])"
    using p(1,4) read(3) by (simp add: room_append)
  then have "room_ok c uid k (s, early @ late @ [Chosen (evicted c uid s)])"
    using p read(3) by (intro room_okI) simp_all
  then show ?thesis by (simp add: read(2) p(1))
next
  case (evict s xs ids ys)
  let ?s = "delete_tokens (\<lambda>t. rt_id t \<in> set ids) s"
  obtain early late where p: "xs @ Chosen ids # ys = early @ late" "unique_on rt_id (a_tokens s)" "length (xs @ Chosen ids # ys) \<le> k"
    "card (live_ids uid s) + length early \<le> nat (k_maxTokens c) + k - 1"
    "room (nat (k_maxTokens c) + k - 1) (live_ids uid s) (length early) late"
    using room_okE [OF assms(2) [unfolded evict(1)]] by metis
  have u: "unique_on rt_id (a_tokens ?s)" using p(2) by (simp add: delete_tokens_def delete_many_unique)
  have sub: "live_ids uid ?s \<subseteq> live_ids uid s" by (auto simp: live_ids_delete)
  then have le: "card (live_ids uid ?s) \<le> card (live_ids uid s)" by (intro card_mono) simp_all
  from p(1) show ?thesis
  proof (cases rule: split_at)
    case (early zs)
    have "room_ok c uid k (?s, (xs @ Evicted # zs) @ late)"
      using u p(3-5) le early room_mono [OF p(5) sub] by (intro room_okI) simp_all
    then show ?thesis by (simp add: evict(2) early(2))
  next
    case (late zs)
    have r: "card (live_ids uid s - set ids) + (length early + length zs) + 1 \<le> nat (k_maxTokens c) + k - 1"
      "room (nat (k_maxTokens c) + k - 1) (live_ids uid s) (length early + length zs + 1) ys"
      using p(5) late(1) by (simp_all add: room_append)
    have "room_ok c uid k (?s, (xs @ [Evicted]) @ ys)"
      using u p(3) r late(2) room_mono [OF r(2) sub] by (intro room_okI) (simp_all add: live_ids_delete)
    then show ?thesis by (simp add: evict(2))
  qed
next
  case (store s xs ys f started fam access)
  let ?s = "snd (store_token c f uid started fam access s)"
  obtain early late where p: "xs @ Evicted # ys = early @ late" "unique_on rt_id (a_tokens s)" "length (xs @ Evicted # ys) \<le> k"
    "card (live_ids uid s) + length early \<le> nat (k_maxTokens c) + k - 1"
    "room (nat (k_maxTokens c) + k - 1) (live_ids uid s) (length early) late"
    using room_okE [OF assms(2) [unfolded store(1)]] by metis
  have u: "unique_on rt_id (a_tokens ?s)" using p(2) by (rule store_token_unique)
  obtain i where sub: "live_ids uid ?s \<subseteq> insert i (live_ids uid s)" by (rule live_ids_store)
  then have "card (live_ids uid ?s) \<le> card (insert i (live_ids uid s))" by (intro card_mono) simp_all
  then have le: "card (live_ids uid ?s) \<le> Suc (card (live_ids uid s))" by (simp add: card_insert_if split: if_splits)
  from p(1) show ?thesis
  proof (cases rule: split_at)
    case (early zs)
    have "room (nat (k_maxTokens c) + k - 1) (insert i (live_ids uid s)) (length (xs @ zs)) late"
      using room_store [of "nat (k_maxTokens c) + k - 1" "live_ids uid s" "length (xs @ zs)" late] p(5) early(1) by simp
    then have "room_ok c uid k (?s, (xs @ zs) @ late)"
      using u p(3,4) le early room_mono [OF _ sub] by (intro room_okI) simp_all
    then show ?thesis by (simp add: store(2) early(2))
  next
    case (late zs)
    then show ?thesis using room_no_evicted [OF p(5)] by simp
  qed
next
  case (fail s xs x' ys)
  obtain early late where p: "xs @ x' # ys = early @ late" "unique_on rt_id (a_tokens s)" "length (xs @ x' # ys) \<le> k"
    "card (live_ids uid s) + length early \<le> nat (k_maxTokens c) + k - 1"
    "room (nat (k_maxTokens c) + k - 1) (live_ids uid s) (length early) late"
    using room_okE [OF assms(2) [unfolded fail(1)]] by metis
  from p(1) show ?thesis
  proof (cases rule: split_at)
    case (early zs)
    have "room_ok c uid k (s, (xs @ zs) @ late)"
      using p(2-4) early room_mono [OF p(5) subset_refl] by (intro room_okI) simp_all
    then show ?thesis by (simp add: fail(2) early(2))
  next
    case (late zs)
    have "room (nat (k_maxTokens c) + k - 1) (live_ids uid s) (length early + length zs + 1) ys"
      "room (nat (k_maxTokens c) + k - 1) (live_ids uid s) (length early) zs"
      using p(5) late(1) room_mono by (cases x'; simp add: room_append)+
    then have "room_ok c uid k (s, early @ zs @ ys)"
      using p(2-4) late room_mono [OF _ subset_refl] by (intro room_okI) (simp_all add: room_append)
    then show ?thesis by (simp add: fail(2) late(2))
  qed
qed

lemma room_ok_run: "(overlap_step c uid k)\<^sup>*\<^sup>* x y \<Longrightarrow> 1 \<le> k_maxTokens c \<Longrightarrow> room_ok c uid k x \<Longrightarrow> room_ok c uid k y"
  by (induction rule: rtranclp_induct) (auto intro: room_ok_step)

lemma room_ok_count:
  assumes "room_ok c uid k (s, p)" and "1 \<le> k_maxTokens c" and "1 \<le> k"
  shows "int (live_count uid s) \<le> k_maxTokens c + int k - 1"
  using assms by (auto simp: room_ok_def live_count_card)

lemma room_ok_start:
  assumes "unique_on rt_id (a_tokens s)" and "int (live_count uid s) \<le> k_maxTokens c" and "1 \<le> k"
  shows "room_ok c uid k (s, [])"
  using room_okI [of s "[]" "[]" k uid c] assms by (simp add: live_count_card)

section \<open>The code as such a run\<close>

abbreviation overlap_run :: "auth_config \<Rightarrow> uid \<Rightarrow> nat \<Rightarrow> auth \<times> phase list \<Rightarrow> auth \<times> phase list \<Rightarrow> bool" where
  "overlap_run c uid k \<equiv> (overlap_step c uid k)\<^sup>*\<^sup>*"

text \<open>A call whose three races are runs of overlapping calls is itself part of one.\<close>

lemma issueTokens_overlaps:
  assumes "s1 = delete_tokens (\<lambda>t. rt_userId t = ac_id u \<and> rt_expiresAt t < a_now s) s" and "unique_on rt_id (a_tokens s)"
    and "overlap_run c (ac_id u) k (s1, p) (r1 s1, p1)" and "length p1 < k"
    and "ids = evicted c (ac_id u) (r1 s1)"
    and "overlap_run c (ac_id u) k (r1 s1, p1 @ [Chosen ids]) (s2, xs @ Chosen ids # ys)" and "s2 = r2 (r1 s1)"
    and "s3 = delete_tokens (\<lambda>t. rt_id t \<in> set ids) s2"
    and "overlap_run c (ac_id u) k (s3, xs @ Evicted # ys) (r3 s3, xs' @ Evicted # ys')"
  shows "overlap_run c (ac_id u) k (s, p) (snd (issueTokens c f (r1, r2, r3) u started fam s), xs' @ ys')"
proof -
  have "live_ids (ac_id u) s1 \<subseteq> live_ids (ac_id u) s" "unique_on rt_id (a_tokens s1)"
    unfolding assms(1) using assms(2) by (intro live_ids_sub delete_tokens_sub delete_tokens_unique)+
  then have "overlap_step c (ac_id u) k (s, p) (s1, p)" by (rule overlap_step.others)
  then have "overlap_run c (ac_id u) k (s, p) (r1 s1, p1)" using assms(3) by (rule converse_rtranclp_into_rtranclp)
  moreover have "overlap_step c (ac_id u) k (r1 s1, p1) (r1 s1, p1 @ [Chosen ids])"
    unfolding assms(5) using assms(4) by (rule overlap_step.read)
  ultimately have "overlap_run c (ac_id u) k (s, p) (s2, xs @ Chosen ids # ys)"
    using assms(6) by (meson rtranclp.rtrancl_into_rtrancl rtranclp_trans)
  moreover have "overlap_step c (ac_id u) k (s2, xs @ Chosen ids # ys) (s3, xs @ Evicted # ys)"
    unfolding assms(8) by (rule overlap_step.evict)
  ultimately have "overlap_run c (ac_id u) k (s, p) (r3 s3, xs' @ Evicted # ys')"
    using assms(9) by (meson rtranclp.rtrancl_into_rtrancl rtranclp_trans)
  moreover have "snd (issueTokens c f (r1, r2, r3) u started fam s) =
    snd (store_token c f (ac_id u) started (case fam of Some g \<Rightarrow> g | None \<Rightarrow> f_family f)
      \<lparr>at_sub = ac_id u, at_role = ac_role u, at_sid = Some (case fam of Some g \<Rightarrow> g | None \<Rightarrow> f_family f), at_iat = a_now s\<rparr> (r3 s3))"
    by (simp add: issueTokens_def Let_def assms(1,5,7,8))
  ultimately show ?thesis using overlap_step.store by (metis (no_types) rtranclp.rtrancl_into_rtrancl)
qed

lemma issueTokens_calm_overlaps:
  assumes "unique_on rt_id (a_tokens s)" and "length p < k"
  shows "overlap_run c (ac_id u) k (s, p) (snd (issueTokens c f calm u started fam s), p)"
  unfolding calm_def
  using issueTokens_overlaps [where ?r1.0 = id and ?r2.0 = id and ?r3.0 = id and xs = p and ys = "[]" and xs' = p and ys' = "[]" and ?p1.0 = p,
      OF refl assms(1) _ assms(2) refl _ refl refl] by simp

text \<open>So is every sequence of the requests of \<open>session_step\<close>, made while fewer than \<open>k\<close> calls are in flight.\<close>

lemma prim_overlaps:
  assumes p: "prim c s0 s s'" and u: "unique_on rt_id (a_tokens s)" and k: "length p < k"
  shows "overlap_run c uid k (s, p) (s', p) \<and> unique_on rt_id (a_tokens s')"
  using p
proof cases
  case other
  then show ?thesis using u by (intro conjI r_into_rtranclp overlap_step.others) (simp_all add: live_ids_def)
next
  case (remove sel)
  then have "live_ids uid s' \<subseteq> live_ids uid s" "unique_on rt_id (a_tokens s')"
    unfolding remove using u by (intro live_ids_sub delete_tokens_sub delete_tokens_unique)+
  then show ?thesis by (intro conjI r_into_rtranclp overlap_step.others)
next
  case (rotate i)
  have "live_ids uid s' \<subseteq> live_ids uid s"
    by (auto simp: rotate live_ids_def consume_def update_many_def split: if_splits)
  moreover have "unique_on rt_id (a_tokens s')"
    using u by (simp add: rotate consume_def update_many_unique)
  ultimately show ?thesis by (intro conjI r_into_rtranclp overlap_step.others)
next
  case (issue f v started fam)
  have kept: "unique_on rt_id (a_tokens (kept_rows c v s))"
    unfolding kept_rows_def evict_def by (intro delete_tokens_unique u)
  have u': "unique_on rt_id (a_tokens s')"
    by (rule issueTokens_cases [of c f v started fam s]) (use kept in \<open>auto simp: issue(1) unique_on_append new_token_def\<close>)
  show ?thesis
  proof (cases "ac_id v = uid")
    case True
    then show ?thesis using issueTokens_calm_overlaps [OF u k] u' by (metis issue(1))
  next
    case False
    have "live_ids uid s' \<subseteq> live_ids uid (kept_rows c v s)"
      by (rule issueTokens_cases [of c f v started fam s]) (use False in \<open>auto simp: issue(1) live_ids_def new_token_def\<close>)
    then have "live_ids uid s' \<subseteq> live_ids uid s" using live_ids_sub [OF kept_rows_sub] by blast
    then show ?thesis using u' by (intro conjI r_into_rtranclp overlap_step.others)
  qed
qed

lemma session_run_overlaps:
  assumes "(session_step c s0)\<^sup>*\<^sup>* s s'" and "unique_on rt_id (a_tokens s)" and "length p < k"
  shows "overlap_run c uid k (s, p) (s', p)"
proof -
  have "overlap_run c uid k (s, p) (s', p) \<and> unique_on rt_id (a_tokens s')"
  proof (rule session_run_prims_keep [where P = "\<lambda>x. overlap_run c uid k (s, p) (x, p) \<and> unique_on rt_id (a_tokens x)", OF assms(1)])
    fix x y assume "overlap_run c uid k (s, p) (x, p) \<and> unique_on rt_id (a_tokens x)" "prim c s0 x y"
    then show "overlap_run c uid k (s, p) (y, p) \<and> unique_on rt_id (a_tokens y)"
      using prim_overlaps [OF _ _ assms(3)] by (meson rtranclp_trans)
  qed (use assms(2) in simp)
  then show ?thesis ..
qed

end
