(* ===== verification/SessionTheorems.thy ===== *)
theory SessionTheorems
  imports SessionInvariants LoginProps IssueOverlap
begin

text \<open>
  What sessions and credentials guarantee, each property applied to a small concrete history.
\<close>

section \<open>A small installation\<close>

text \<open>Bcrypt and SHA-256 are stood for by prefixing, which is injective.\<close>

definition ss_c :: auth_config where
  "ss_c = \<lparr>k_accessExpiry = 900, k_refreshDays = 7, k_sessionMaxDays = 30, k_graceMs = 10000, k_maxTokens = 2,
     k_lockThreshold = 3, k_lockMinutes = 15, k_globalThreshold = 100, k_globalWindowSec = 3600, k_cooldownSec = 60,
     k_resetHours = 1, k_sha = (\<lambda>x. CHR ''#'' # x), k_bcrypt = (\<lambda>pw h. h = CHR ''$'' # pw), k_bcryptHash = (\<lambda>x. CHR ''$'' # x),
     k_jwt = (\<lambda>a t. at_iat a \<le> t \<and> t < at_iat a + 900000)\<rparr>"

definition ss_user :: account where
  "ss_user = \<lparr>ac_id = 1, ac_email = ''a'', ac_role = IS_CUSTOMER, ac_password = Some ''$pw'', ac_failed = 0,
     ac_lockedUntil = None, ac_emailVerified = True, ac_deactivated = False, ac_deletedAt = None,
     ac_resetToken = None, ac_resetExpiry = None, ac_verifyToken = None, ac_verifyExpiry = None,
     ac_phone = None, ac_googleId = None, ac_terms = None\<rparr>"

definition ss_row :: refresh_token where
  "ss_row = \<lparr>rt_id = 10, rt_userId = 1, rt_hash = ''#r1'', rt_expiresAt = 7 * day_ms, rt_createdAt = 0,
     rt_startedAt = 0, rt_family = 20, rt_rotatedAt = None\<rparr>"

definition ss :: auth where
  "ss = \<lparr>a_now = 1000, a_accounts = [ss_user], a_vendors = [], a_tokens = [ss_row], a_denied = (\<lambda>_. None),
     a_logins = (\<lambda>_. None), a_cooldown = (\<lambda>_. None), a_up = True, a_fx = []\<rparr>"

definition ss_fresh :: "nat \<Rightarrow> fresh" where
  "ss_fresh n = \<lparr>f_id = 100 + n, f_family = 200 + n, f_raw = ''n'' @ replicate n (CHR ''x'')\<rparr>"

lemmas ss_defs = ss_c_def ss_user_def ss_row_def ss_def ss_fresh_def

lemma ss_jwt: "jwt_expires ss_c"
  by (auto simp: jwt_expires_def ss_c_def)

lemma ss_ok: "sessions_ok ss_c ss"
  by (simp add: sessions_ok_def ss_defs unique_on_def token_ok_def session_max_def day_ms_def)

lemma ss_new: "new_to ss_c ss (ss_fresh n)"
  by (simp add: new_to_def ss_defs)

section \<open>Sessions\<close>

text \<open>C22.
  A logout, and the presentation of a refresh token that was already exchanged longer ago than the
  grace, end the whole session: provided Redis takes the denylist entry, then over every later
  sequence of logins, refreshes, password changes, outages and clean-ups, no access token of that
  session signed up to then is accepted while Redis answers, and no refresh yields a token of that
  session.
\<close>

theorem ended_session_stays_ended:
  assumes "jwt_expires c" and "a_up s" and "token_row (k_sha c raw) s = Some t"
    and "s1 = logout c (Some raw) who s \<or>
      s1 = snd (refreshTokens c f r1 r2 raw s) \<and> (\<exists>rotated. rt_rotatedAt t = Some rotated \<and> a_now s - rotated > k_graceMs c)"
    and "(session_step c s)\<^sup>*\<^sup>* s1 s2"
  shows "(a_up s2 \<longrightarrow> at_sid a = Some (rt_family t) \<longrightarrow> at_iat a \<le> a_now s \<longrightarrow> validate c a s2 = Inl SessionExpired) \<and>
    (fst (refreshTokens c f' id id raw' s2) = Inr a' \<longrightarrow> at_sid a' \<noteq> Some (rt_family t))"
proof -
  have "ended c (a_now s) (rt_family t) s1"
    using assms(3,4) revoke_ends [OF assms(2)] by (auto simp: logout_def refreshTokens_def)
  moreover have "rt_family t \<in> families s" using token_row_mem [OF assms(3)] by simp
  ultimately have "ended c (a_now s) (rt_family t) s2" using ended_run [OF session_run_prims [OF assms(5)]] by blast
  then show ?thesis using ended_rejects [OF assms(1)] ended_never_renewed by (metis ended_def)
qed

theorem ended_session_stays_ended_witness:
  "\<exists>s2 a t. (session_step ss_c ss)\<^sup>*\<^sup>* (logout ss_c (Some ''r1'') (Some 1) ss) s2 \<and> a_now s2 = 5000 \<and>
     at_sid a = Some 20 \<and> k_jwt ss_c a 5000 \<and> validate ss_c a ss = Inr (1, IS_CUSTOMER) \<and> validate ss_c a s2 = Inl SessionExpired"
proof -
  let ?s1 = "logout ss_c (Some ''r1'') (Some 1) ss"
  let ?s2 = "?s1\<lparr>a_now := 5000\<rparr>"
  let ?a = "\<lparr>at_sub = 1, at_role = IS_CUSTOMER, at_sid = Some 20, at_iat = 500\<rparr>"
  have row: "token_row (k_sha ss_c ''r1'') ss = Some ss_row" by (simp add: token_row_def ss_defs)
  have now: "a_now ?s1 \<le> 5000" "a_up ?s2" by code_simp+
  then have run: "(session_step ss_c ss)\<^sup>*\<^sup>* ?s1 ?s2" by (intro r_into_rtranclp session_step.tick)
  have "a_up ss" by (simp add: ss_def)
  then have "validate ss_c ?a ?s2 = Inl SessionExpired"
    using ended_session_stays_ended [OF ss_jwt _ row disjI1 [OF refl] run, of ?a] now by (simp add: ss_row_def ss_def)
  moreover have "validate ss_c ?a ss = Inr (1, IS_CUSTOMER)" "k_jwt ss_c ?a 5000"
    by (simp_all add: validate_def ss_defs isDenied_def account_of_def)
  ultimately show ?thesis using run by (intro exI [of _ ?s2] exI [of _ ?a]) simp
qed

text \<open>C23.
  A refresh token is exchanged once. When one request got a new pair for it, whatever other requests
  ran between its reads and writes, then every later request with the same token fails, also one that
  had read the token before it was exchanged.
\<close>

theorem refresh_token_single_use:
  assumes "sessions_ok c s" and "new_to c s f"
    and "(session_step c s)\<^sup>*\<^sup>* s (r1 s)" and "\<And>x. (session_step c s)\<^sup>*\<^sup>* x (r2 x)"
    and "fst (refreshTokens c f r1 r2 raw s) = Inr a"
    and "(session_step c s)\<^sup>*\<^sup>* (snd (refreshTokens c f r1 r2 raw s)) s'"
  shows "fst (refreshTokens c f' r1' r2' raw s') = Inl SessionExpired \<and>
    fst (refreshTokens c f' (\<lambda>_. s') r2' raw s) = Inl SessionExpired"
proof (rule refresh_spends [OF assms(1-5)])
  fix t assume t: "token_row (k_sha c raw) s = Some t" and st: "stems s (snd (refreshTokens c f r1 r2 raw s))"
    and sp: "spent (k_sha c raw) (snd (refreshTokens c f r1 r2 raw s))"
  note run = session_run_prims [OF assms(6)]
  have "k_sha c raw \<in> rt_hash ` set (a_tokens s)" using token_row_mem [OF t] by (auto intro: rev_image_eqI)
  then have "spent (k_sha c raw) s'" using spent_run [OF run _ sp] by blast
  then show ?thesis using spent_refuses_all spent_all [OF assms(1) stems_run [OF run st] _ t] by blast
qed

theorem refresh_token_single_use_witness:
  "\<exists>a. fst (refreshTokens ss_c (ss_fresh 1) id (\<lambda>x. x\<lparr>a_up := False\<rparr>) ''r1'' ss) = Inr a \<and>
     fst (refreshTokens ss_c (ss_fresh 2) id id ''r1''
       (snd (refreshTokens ss_c (ss_fresh 1) id (\<lambda>x. x\<lparr>a_up := False\<rparr>) ''r1'' ss))) = Inl SessionExpired"
proof -
  let ?r = "refreshTokens ss_c (ss_fresh 1) id (\<lambda>x. x\<lparr>a_up := False\<rparr>) ''r1'' ss"
  let ?a = "\<lparr>at_sub = 1, at_role = IS_CUSTOMER, at_sid = Some 20, at_iat = 1000\<rparr>"
  have won: "fst ?r = Inr ?a" by code_simp
  have "(session_step ss_c ss)\<^sup>*\<^sup>* ss (id ss)" by simp
  moreover have "(session_step ss_c ss)\<^sup>*\<^sup>* x (x\<lparr>a_up := False\<rparr>)" for x
    by (intro r_into_rtranclp session_step.outage)
  ultimately show ?thesis
    using refresh_token_single_use [OF ss_ok ss_new _ _ won rtranclp.rtrancl_refl, of "ss_fresh 2" id id] won by blast
qed
text \<open>C25.
  The rows of the session table stay well-formed over every sequence of requests: identifiers and
  hashes are unique, a family belongs to one user and keeps the instant of its login, no row is dated
  in the future, none was created later than the maximal age of a session after the login, and each
  expires the configured number of days after it was created.
\<close>

theorem session_rows_well_formed:
  assumes "sessions_ok c s" and "0 \<le> session_max c" and "(session_step c s0)\<^sup>*\<^sup>* s s'"
  shows "sessions_ok c s'"
  using sessions_ok_run [OF session_run_prims [OF assms(3)] assms(1,2)] .

theorem session_rows_well_formed_witness:
  "sessions_ok ss_c (snd (loginWithCheck ss_c (ss_fresh 1) ''a'' ''pw'' ss)) \<and>
   length (a_tokens (snd (loginWithCheck ss_c (ss_fresh 1) ''a'' ''pw'' ss))) = 2"
proof
  have "(session_step ss_c ss)\<^sup>*\<^sup>* ss (snd (loginWithCheck ss_c (ss_fresh 1) ''a'' ''pw'' ss))"
    using ss_new by (intro r_into_rtranclp session_step.login)
  moreover have "0 \<le> session_max ss_c" by code_simp
  ultimately show "sessions_ok ss_c (snd (loginWithCheck ss_c (ss_fresh 1) ''a'' ''pw'' ss))"
    using session_rows_well_formed [OF ss_ok] by blast
  show "length (a_tokens (snd (loginWithCheck ss_c (ss_fresh 1) ''a'' ''pw'' ss))) = 2" by code_simp
qed

text \<open>C24.
  While requests run one after the other no user has more live sessions than the configured maximum,
  and every refresh token expires within the maximal age of a session plus the lifetime of one token
  after the login, however often the session is renewed. Requests that overlap can exceed the maximum,
  for a call reads the active tokens, deletes the superfluous ones and stores its own in separate
  statements; over every interleaving of the statements of at most \<open>k\<close> calls in flight, and of whatever
  else takes rows away in between, the excess is at most \<open>k - 1\<close>. It does occur: in the witness two
  overlapping calls leave one session more than the maximum.
\<close>

theorem sessions_bounded:
  assumes "sessions_ok c s" and "\<And>v. int (live_count v s) \<le> k_maxTokens c" and "1 \<le> k_maxTokens c" and "0 \<le> session_max c"
  shows "((session_step c s0)\<^sup>*\<^sup>* s s' \<longrightarrow> int (live_count u s') \<le> k_maxTokens c \<and>
      (\<forall>t \<in> set (a_tokens s'). rt_expiresAt t \<le> rt_startedAt t + session_max c + k_refreshDays c * day_ms)) \<and>
    (1 \<le> k \<and> (overlap_step c u k)\<^sup>*\<^sup>* (s, []) (s'', inflight) \<longrightarrow> int (live_count u s'') \<le> k_maxTokens c + int k - 1)"
proof (intro conjI impI)
  assume run: "(session_step c s0)\<^sup>*\<^sup>* s s'"
  have "sessions_ok c s' \<and> cap_ok c s'"
  proof (rule session_run_prims_keep [where P = "\<lambda>x. sessions_ok c x \<and> cap_ok c x", OF run])
    show "sessions_ok c s \<and> cap_ok c s" using assms(1,2) by (simp add: cap_ok_def)
  qed (use sessions_ok_prim cap_ok_prim assms(3,4) in blast)
  then show "int (live_count u s') \<le> k_maxTokens c"
    "\<forall>t \<in> set (a_tokens s'). rt_expiresAt t \<le> rt_startedAt t + session_max c + k_refreshDays c * day_ms"
    using sessions_ok_token by (fastforce simp: cap_ok_def token_ok_def)+
next
  assume k: "1 \<le> k \<and> (overlap_step c u k)\<^sup>*\<^sup>* (s, []) (s'', inflight)"
  have "room_ok c u k (s, [])" using sessions_ok_unique [OF assms(1)] assms(2) k by (intro room_ok_start) simp_all
  then show "int (live_count u s'') \<le> k_maxTokens c + int k - 1"
    using k room_ok_run room_ok_count assms(3) by metis
qed

text \<open>A login that stores its token after another one has read the active tokens and before it deletes any.\<close>

definition ss_overlap :: auth where
  "ss_overlap = snd (issueTokens ss_c (ss_fresh 2)
     (id, (\<lambda>x. snd (issueTokens ss_c (ss_fresh 3) calm ss_user None None x)), id) ss_user None None
     (snd (issueTokens ss_c (ss_fresh 1) calm ss_user None None ss)))"

lemma ss_overlap_run: "(overlap_step ss_c 1 2)\<^sup>*\<^sup>* (ss, []) (ss_overlap, [])"
proof -
  let ?s1 = "snd (issueTokens ss_c (ss_fresh 1) calm ss_user None None ss)"
  let ?x = "delete_tokens (\<lambda>t. rt_userId t = ac_id ss_user \<and> rt_expiresAt t < a_now ?s1) ?s1"
  have u: "unique_on rt_id (a_tokens ss)" "unique_on rt_id (a_tokens ?s1)" "unique_on rt_id (a_tokens ?x)" by code_simp+
  have i: "ac_id ss_user = 1" by code_simp
  have "overlap_run ss_c 1 2 (ss, []) (?s1, [])"
    using issueTokens_calm_overlaps [where u = ss_user and p = "[]" and k = 2, OF u(1)] by (simp add: i)
  moreover have "overlap_run ss_c 1 2 (?x, [Chosen (evicted ss_c 1 ?x)])
      (snd (issueTokens ss_c (ss_fresh 3) calm ss_user None None ?x), [Chosen (evicted ss_c 1 ?x)])"
    using issueTokens_calm_overlaps [where u = ss_user and p = "[Chosen (evicted ss_c 1 ?x)]" and k = 2, OF u(3)] by (simp add: i)
  then have "overlap_run ss_c 1 2 (?s1, []) (ss_overlap, [])"
    unfolding ss_overlap_def
    using issueTokens_overlaps [where u = ss_user and ?r1.0 = id and ?r3.0 = id and p = "[]" and ?p1.0 = "[]" and xs = "[]" and ys = "[]"
        and xs' = "[]" and ys' = "[]" and k = 2 and c = ss_c, OF refl u(2) _ _ refl _ refl refl] by (simp add: i)
  ultimately show ?thesis by (rule rtranclp_trans)
qed

theorem sessions_bounded_witness:
  "let s1 = snd (loginWithCheck ss_c (ss_fresh 1) ''a'' ''pw'' ss); s2 = snd (loginWithCheck ss_c (ss_fresh 2) ''a'' ''pw'' s1)
   in int (live_count 1 s2) \<le> k_maxTokens ss_c \<and> live_count 1 s2 = 2 \<and> isInr (fst (loginWithCheck ss_c (ss_fresh 2) ''a'' ''pw'' s1)) \<and>
     int (live_count 1 ss_overlap) \<le> k_maxTokens ss_c + 1 \<and> live_count 1 ss_overlap = 3"
proof -
  let ?s1 = "snd (loginWithCheck ss_c (ss_fresh 1) ''a'' ''pw'' ss)"
  let ?s2 = "snd (loginWithCheck ss_c (ss_fresh 2) ''a'' ''pw'' ?s1)"
  have "new_to ss_c ?s1 (ss_fresh 2)" unfolding new_to_def by code_simp
  then have run: "(session_step ss_c ss)\<^sup>*\<^sup>* ss ?s2"
    using session_step.login [of ss_c ss] ss_new by (meson rtranclp.rtrancl_refl rtranclp.rtrancl_into_rtrancl)
  have "int (live_count v ss) \<le> k_maxTokens ss_c" for v by (simp add: live_count_def count_rows_def ss_defs)
  moreover have "1 \<le> k_maxTokens ss_c" "0 \<le> session_max ss_c" by code_simp+
  ultimately have "int (live_count 1 ?s2) \<le> k_maxTokens ss_c" "int (live_count 1 ss_overlap) \<le> k_maxTokens ss_c + int 2 - 1"
    using sessions_bounded [OF ss_ok, of ss ?s2 1 2 ss_overlap "[]"] run ss_overlap_run by simp_all
  moreover have "live_count 1 ?s2 = 2" "isInr (fst (loginWithCheck ss_c (ss_fresh 2) ''a'' ''pw'' ?s1))" "live_count 1 ss_overlap = 3"
    by code_simp+
  ultimately show ?thesis unfolding Let_def by simp
qed

section \<open>What goes wrong\<close>

text \<open>C27.
  A password reset does not end a session that is being renewed. When the reset runs between the
  moment a refresh has consumed its token and the moment it stores the new one, the refresh still
  answers with a new pair: the session has a live row again, and its access token is accepted, for the
  family was not among those the reset put on the denylist.
\<close>

theorem refresh_in_flight_survives_reset:
  assumes "token_row (k_sha c raw) s = Some t" and "rt_rotatedAt t = None" and "a_now s \<le> rt_expiresAt t"
    and "a_now s - rt_startedAt t \<le> session_max c"
    and "account_of (rt_userId t) s = Some u" and "ac_role u = IS_CUSTOMER" and "\<not> ac_deactivated u" and "ac_deletedAt u = None"
    and "reset_format tok"
    and "find_first (\<lambda>a. ac_resetToken a = Some (k_sha c tok) \<and>
      (case ac_resetExpiry a of Some x \<Rightarrow> x > a_now s | None \<Rightarrow> False)) (a_accounts s) = Some u"
    and "\<And>r. r \<in> set (a_tokens s) \<Longrightarrow> rt_family r = rt_family t \<Longrightarrow> rt_rotatedAt r = None \<Longrightarrow> rt_id r = rt_id t"
    and "a_denied s (rt_family t) = None" and "new_to c s f" and "1 \<le> k_maxTokens c"
    and "\<And>a. at_iat a = a_now s \<Longrightarrow> k_jwt c a (a_now s)"
  shows "\<exists>a. fst (refreshTokens c f id (\<lambda>x. snd (resetPassword c id tok pw x)) raw s) = Inr a \<and>
    validate c a (snd (refreshTokens c f id (\<lambda>x. snd (resetPassword c id tok pw x)) raw s)) = Inr (ac_id u, IS_CUSTOMER) \<and>
    live_count (ac_id u) (snd (refreshTokens c f id (\<lambda>x. snd (resetPassword c id tok pw x)) raw s)) = 1 \<and>
    map_option ac_password (account_of (ac_id u) (snd (refreshTokens c f id (\<lambda>x. snd (resetPassword c id tok pw x)) raw s))) =
      Some (Some (k_bcryptHash c pw))"
proof -
  let ?R = "refreshTokens c f id (\<lambda>x. snd (resetPassword c id tok pw x)) raw s"
  let ?x = "consume (rt_id t) s"
  let ?u = "u\<lparr>ac_password := Some (k_bcryptHash c pw), ac_resetToken := None, ac_resetExpiry := None, ac_failed := 0, ac_lockedUntil := None\<rparr>"
  let ?z = "cleanupExpiredTokens (auth_emit [SecurityLog ''TOKEN_REFRESH'' (ac_id u)] (snd (resetPassword c id tok pw ?x)))"
  let ?a = "\<lparr>at_sub = ac_id u, at_role = IS_CUSTOMER, at_sid = Some (rt_family t), at_iat = a_now s\<rparr>"
  have uid: "ac_id u = rt_userId t" using assms(5) by (auto simp: account_of_def dest: find_first_Some)
  note mem = token_row_mem [OF assms(1)]
  have gone: "rt_family t \<notin> set (live_families (ac_id u) None ?x)" by (rule consumed_not_live) (rule assms(11))
  note y = resetPassword_done [where tok = tok and c = c and s = ?x and u = u and pw = pw, unfolded consume_now accounts_simps, OF assms(9,10)]
  have acc: "account_of (ac_id u) (snd (resetPassword c id tok pw ?x)) = Some ?u"
    using y(1) [where i = "ac_id u"] assms(5) by (simp add: account_of_def uid)
  have own: "rt_userId r \<noteq> ac_id u" if "r \<in> set (a_tokens ?z)" for r
    using that by (simp add: cleanupExpiredTokens_def delete_tokens_mem y(2) auth_emit_def)
  have new: "new_to c ?z f" using new_to_consume [OF assms(13), of "rt_id t"]
    by (simp add: new_to_def cleanupExpiredTokens_def delete_tokens_mem y(2) auth_emit_def)
  have z: "a_now ?z = a_now s" "a_denied ?z (rt_family t) = None" "account_of i ?z = account_of i (snd (resetPassword c id tok pw ?x))" for i
    using y(3) y(4) [OF gone] assms(12) by (simp_all add: cleanupExpiredTokens_def auth_emit_def delete_tokens_def account_of_def)
  have "count_rows (\<lambda>r. rt_id r = rt_id t \<and> rt_rotatedAt r = None) (a_tokens s) \<noteq> 0"
    using mem assms(2) by (auto simp: count_rows_0)
  then have "?R = renew c f t (snd (resetPassword c id tok pw ?x))"
    using assms(1-4) by (simp add: refreshTokens_def Let_def consume_def)
  also have "\<dots> = issueTokens c f calm ?u (Some (rt_startedAt t)) (Some (rt_family t)) ?z"
    using acc assms(6,7) by (simp add: renew_def uid)
  also have "\<dots> = (Inr ?a, auth_emit [SetCookies ?a (f_raw f)]
       (?z\<lparr>a_tokens := a_tokens ?z @ [new_token c f (ac_id u) (rt_startedAt t) (rt_family t) (a_now s)]\<rparr>))"
    using issue_first [of ?z ?u c f "Some (rt_startedAt t)" "Some (rt_family t)"] own new assms(6,14)
    by (simp add: z(1) family_for_def started_at_def)
  finally have R: "?R = \<dots>" .
  have count: "count_rows (\<lambda>r. rt_userId r = ac_id u \<and> rt_rotatedAt r = None) (a_tokens ?z) = 0"
    using own by (auto simp: count_rows_0)
  show ?thesis
    unfolding R using acc assms(6-8,15) z count
    by (auto simp: validate_def isDenied_def auth_emit_def account_of_def live_count_def count_rows_def)
qed
definition ss_link :: string where
  "ss_link = replicate 64 (CHR ''a'')"

definition ss_asked :: auth where
  "ss_asked = ss\<lparr>a_accounts := [ss_user\<lparr>ac_resetToken := Some (CHR ''#'' # ss_link), ac_resetExpiry := Some 5000\<rparr>]\<rparr>"

theorem refresh_in_flight_survives_reset_witness:
  "\<exists>a. fst (refreshTokens ss_c (ss_fresh 1) id (\<lambda>x. snd (resetPassword ss_c id ss_link ''new'' x)) ''r1'' ss_asked) = Inr a \<and>
     validate ss_c a (snd (refreshTokens ss_c (ss_fresh 1) id (\<lambda>x. snd (resetPassword ss_c id ss_link ''new'' x)) ''r1'' ss_asked)) =
       Inr (1, IS_CUSTOMER)"
proof -
  let ?u = "ss_user\<lparr>ac_resetToken := Some (CHR ''#'' # ss_link), ac_resetExpiry := Some 5000\<rparr>"
  have "token_row (k_sha ss_c ''r1'') ss_asked = Some ss_row" "account_of (rt_userId ss_row) ss_asked = Some ?u"
    by (simp_all add: token_row_def account_of_def ss_asked_def ss_defs)
  moreover have "rt_rotatedAt ss_row = None" "a_now ss_asked \<le> rt_expiresAt ss_row" "a_now ss_asked - rt_startedAt ss_row \<le> session_max ss_c"
    "ac_role ?u = IS_CUSTOMER" "\<not> ac_deactivated ?u" "ac_deletedAt ?u = None" "a_denied ss_asked (rt_family ss_row) = None"
    "1 \<le> k_maxTokens ss_c" "ac_id ?u = 1"
    by (simp_all add: ss_asked_def ss_defs day_ms_def session_max_def)
  moreover have "reset_format ss_link" by code_simp
  moreover have "find_first (\<lambda>a. ac_resetToken a = Some (k_sha ss_c ss_link) \<and>
      (case ac_resetExpiry a of Some x \<Rightarrow> x > a_now ss_asked | None \<Rightarrow> False)) (a_accounts ss_asked) = Some ?u"
    by (simp add: ss_asked_def ss_defs)
  moreover have "rt_id r = rt_id ss_row" if "r \<in> set (a_tokens ss_asked)" for r
    using that by (simp add: ss_asked_def ss_def)
  moreover have "new_to ss_c ss_asked (ss_fresh 1)" by (simp add: new_to_def ss_asked_def ss_defs)
  moreover have "k_jwt ss_c a (a_now ss_asked)" if "at_iat a = a_now ss_asked" for a
    using that by (simp add: ss_asked_def ss_defs)
  ultimately have "\<exists>a. fst (refreshTokens ss_c (ss_fresh 1) id (\<lambda>x. snd (resetPassword ss_c id ss_link ''new'' x)) ''r1'' ss_asked) = Inr a \<and>
     validate ss_c a (snd (refreshTokens ss_c (ss_fresh 1) id (\<lambda>x. snd (resetPassword ss_c id ss_link ''new'' x)) ''r1'' ss_asked)) =
       Inr (ac_id ?u, IS_CUSTOMER)"
    using refresh_in_flight_survives_reset [of ss_c "''r1''" ss_asked ss_row ?u ss_link "ss_fresh 1" "''new''"] by blast
  then show ?thesis by (simp add: ss_user_def)
qed

text \<open>
  A second request for a reset link whose e-mail is dropped by the quota kills the link that was sent
  before: the hash in the account is overwritten, no e-mail goes out, and the link that worked until
  then is refused.
\<close>

theorem dropped_mail_kills_link:
  assumes "a_cooldown s (hashEmail c email) = None" and "find_first (\<lambda>a. ac_email a = email) (a_accounts s) = Some u"
    and "ac_password u \<noteq> None" and "ac_role u \<noteq> IS_ADMIN" and "ac_resetToken u = Some (k_sha c old)"
    and "\<And>a. a \<in> set (a_accounts s) \<Longrightarrow> ac_resetToken a = Some (k_sha c old) \<Longrightarrow> ac_id a = ac_id u"
    and "k_sha c (f_raw f) \<noteq> k_sha c old" and "fst (resetPassword c id old pw s) = Inr ()"
  shows "fst (resetPassword c id old pw (forgotPassword c f False email s)) = Inl InvalidLink \<and>
    a_fx (forgotPassword c f False email s) = a_fx s @ [SecurityLog ''PASSWORD_RESET_REQUESTED'' (ac_id u)]"
proof -
  let ?new = "\<lambda>a. a\<lparr>ac_resetToken := Some (k_sha c (f_raw f)), ac_resetExpiry := Some (a_now s + k_resetHours c * hour_ms)\<rparr>"
  let ?s = "forgotPassword c f False email s"
  obtain h where pw: "ac_password u = Some h" using assms(3) by blast
  have rows: "a_accounts ?s = update_many (\<lambda>a. ac_id a = ac_id u) ?new (a_accounts s)"
    and fx: "a_fx ?s = a_fx s @ [SecurityLog ''PASSWORD_RESET_REQUESTED'' (ac_id u)]"
    using assms(1,2,4) pw by (simp_all add: forgotPassword_def Let_def update_account_def auth_emit_def)
  have "ac_resetToken a \<noteq> Some (k_sha c old)" if "a \<in> set (a_accounts ?s)" for a
  proof -
    obtain r where "r \<in> set (a_accounts s)" "a = (if ac_id r = ac_id u then ?new r else r)"
      using \<open>a \<in> set (a_accounts ?s)\<close> unfolding rows update_many_mem by blast
    then show ?thesis using assms(6) [of r] assms(7) by (cases "ac_id r = ac_id u") auto
  qed
  then show ?thesis using fx by (auto simp: resetPassword_def find_first_None split: option.split dest: find_first_Some)
qed

theorem dropped_mail_kills_link_witness:
  "fst (resetPassword ss_c id ss_link ''new'' ss_asked) = Inr () \<and>
   fst (resetPassword ss_c id ss_link ''new'' (forgotPassword ss_c (ss_fresh 1) False ''a'' ss_asked)) = Inl InvalidLink"
proof -
  let ?u = "ss_user\<lparr>ac_resetToken := Some (CHR ''#'' # ss_link), ac_resetExpiry := Some 5000\<rparr>"
  have "a_cooldown ss_asked (hashEmail ss_c ''a'') = None" "find_first (\<lambda>a. ac_email a = ''a'') (a_accounts ss_asked) = Some ?u"
    "ac_password ?u \<noteq> None" "ac_role ?u \<noteq> IS_ADMIN" "ac_resetToken ?u = Some (k_sha ss_c ss_link)"
    by (simp_all add: ss_asked_def ss_defs)
  moreover have "ac_id a = ac_id ?u" if "a \<in> set (a_accounts ss_asked)" for a
    using that by (simp add: ss_asked_def ss_def)
  moreover have "k_sha ss_c (f_raw (ss_fresh 1)) \<noteq> k_sha ss_c ss_link" by code_simp
  moreover have works: "fst (resetPassword ss_c id ss_link ''new'' ss_asked) = Inr ()" by code_simp
  ultimately show ?thesis using dropped_mail_kills_link [of ss_asked ss_c "''a''" ?u ss_link "ss_fresh 1" "''new''"] by metis
qed

section \<open>Guessing a password\<close>

text \<open>C26.
  Of any sequence of logins with wrong passwords, made one after the other within the duration of a
  lock, at most as many as the threshold are judged by the stored hash, so that a right guess among
  the others would not be noticed either, whatever the state of the account's counter and lock at the
  start and whatever the times within the window.
\<close>

theorem guesses_bounded:
  assumes "accounts_ok s" and "account_at email s = Some u" and "0 \<le> ac_failed u" and "ac_password u = Some h"
    and "1 \<le> k_lockThreshold c"
    and "\<forall>e \<in> set es. t0 \<le> fst e \<and> fst e < t0 + k_lockMinutes c * 60000 \<and> \<not> k_bcrypt c (snd e) h"
  shows "granted (login_step c f email) (\<lambda>_. True) es s \<le> nat (k_lockThreshold c)"
proof -
  have "granted (login_step c f email) (\<lambda>_. True) es s \<le> allowed_guesses c email (t0 + k_lockMinutes c * 60000) s"
    by (rule lock.granted_le_left [of email h]) (use assms in \<open>auto simp: guessable_def\<close>)
  then show ?thesis
    using guesses_left_le [OF assms(3,5), of "t0 + k_lockMinutes c * 60000"] assms(2) by (simp add: allowed_guesses_def)
qed

theorem guesses_bounded_witness:
  "granted (login_step ss_c (ss_fresh 1) ''a'') (\<lambda>_. True)
     [(1000, ''p''), (2000, ''q''), (3000, ''r''), (4000, ''s''), (5000, ''t'')] ss = 3"
proof -
  let ?es = "[(1000 :: int, ''p''), (2000, ''q''), (3000, ''r''), (4000, ''s''), (5000, ''t'')]"
  have "accounts_ok ss" "account_at ''a'' ss = Some ss_user" "0 \<le> ac_failed ss_user" "ac_password ss_user = Some ''$pw''"
    "1 \<le> k_lockThreshold ss_c"
    "\<forall>e \<in> set ?es. 1000 \<le> fst e \<and> fst e < 1000 + k_lockMinutes ss_c * 60000 \<and> \<not> k_bcrypt ss_c (snd e) ''$pw''"
    by (simp_all add: accounts_ok_def unique_on_def account_at_def ss_defs)
  then have "granted (login_step ss_c (ss_fresh 1) ''a'') (\<lambda>_. True) ?es ss \<le> nat (k_lockThreshold ss_c)" by (rule guesses_bounded)
  then have "granted (login_step ss_c (ss_fresh 1) ''a'') (\<lambda>_. True) ?es ss \<le> 3" by (simp add: ss_c_def)
  moreover have "3 \<le> granted (login_step ss_c (ss_fresh 1) ''a'') (\<lambda>_. True) ?es ss" by code_simp
  ultimately show ?thesis by (rule order_antisym)
qed

end
