(* ===== verification/Quota.thy ===== *)
theory Quota
  imports Gateway Pricing
begin

text \<open>
  How many e-mails and requests go out: \<open>EmailQuotaService\<close>, \<open>EmailSuppressionService\<close>, the gates of
  \<open>EmailService.send\<close> (\<open>apps/api/src/email\<close>), and the counter behind the request throttler
  (\<open>redis/redis-throttler.storage.ts\<close>). Redis is a map from keys to numbers with an optional expiry. The
  commands of one call that are no script fail one by one: \<open>ans n\<close> tells whether the n-th is answered.
\<close>

section \<open>Redis\<close>

record kvstore =
  rd_now :: ms
  rd_kv :: "string \<Rightarrow> (int \<times> ms option) option"

type_synonym answers = "nat \<Rightarrow> bool"

definition rd_live :: "string \<Rightarrow> kvstore \<Rightarrow> (int \<times> ms option) option" where
  "rd_live k s = (case rd_kv s k of
     Some (v, Some until) \<Rightarrow> if rd_now s < until then Some (v, Some until) else None
   | x \<Rightarrow> x)"

definition rd_get :: "string \<Rightarrow> kvstore \<Rightarrow> int option" where
  "rd_get k s = map_option fst (rd_live k s)"

text \<open>\<open>INCR\<close> keeps the time to live of the key.\<close>

definition rd_incr :: "string \<Rightarrow> kvstore \<Rightarrow> int \<times> kvstore" where
  "rd_incr k s = (case rd_live k s of
     None \<Rightarrow> (1, s\<lparr>rd_kv := (rd_kv s)(k \<mapsto> (1, None))\<rparr>)
   | Some (v, until) \<Rightarrow> (v + 1, s\<lparr>rd_kv := (rd_kv s)(k \<mapsto> (v + 1, until))\<rparr>))"

definition rd_expire :: "string \<Rightarrow> ms \<Rightarrow> kvstore \<Rightarrow> kvstore" where
  "rd_expire k ttl s = (case rd_live k s of
     None \<Rightarrow> s | Some (v, _) \<Rightarrow> s\<lparr>rd_kv := (rd_kv s)(k \<mapsto> (v, Some (rd_now s + ttl)))\<rparr>)"

definition rd_set :: "string \<Rightarrow> int \<Rightarrow> ms \<Rightarrow> kvstore \<Rightarrow> kvstore" where
  "rd_set k v ttl s = s\<lparr>rd_kv := (rd_kv s)(k \<mapsto> (v, Some (rd_now s + ttl)))\<rparr>"

text \<open>\<open>PTTL\<close>: the time left, -1 for a key that never expires, -2 for none.\<close>

definition rd_pttl :: "string \<Rightarrow> kvstore \<Rightarrow> int" where
  "rd_pttl k s = (case rd_live k s of None \<Rightarrow> -2 | Some (_, None) \<Rightarrow> -1 | Some (_, Some until) \<Rightarrow> until - rd_now s)"

section \<open>E-mail quotas\<close>

datatype quota_type = Q_RESET | Q_VERIFICATION | Q_CHANGE_NOTIFICATION | Q_BOOKING_OTP

fun quota_name :: "quota_type \<Rightarrow> string" where
  "quota_name Q_RESET = ''reset''"
| "quota_name Q_VERIFICATION = ''verification''"
| "quota_name Q_CHANGE_NOTIFICATION = ''change-notification''"
| "quota_name Q_BOOKING_OTP = ''booking-otp''"

fun default_limit :: "quota_type \<Rightarrow> int" where
  "default_limit Q_RESET = 5"
| "default_limit Q_VERIFICATION = 5"
| "default_limit Q_CHANGE_NOTIFICATION = 3"
| "default_limit Q_BOOKING_OTP = 10"

record quota_config =
  qc_override :: "quota_type \<Rightarrow> int option"
  qc_perIp :: int
  qc_platform :: int
  qc_sha :: "string \<Rightarrow> string"

definition getLimit :: "quota_config \<Rightarrow> quota_type \<Rightarrow> int" where
  "getLimit c ty = (case qc_override c ty of Some n \<Rightarrow> n | None \<Rightarrow> default_limit ty)"

definition cooldownAfterSendMs :: "ms list" where
  "cooldownAfterSendMs = [0, 60000, 300000, 900000, 3600000]"

definition cooldownExemptTypes :: "quota_type set" where
  "cooldownExemptTypes = {Q_BOOKING_OTP}"

definition quota_hashEmail :: "quota_config \<Rightarrow> string \<Rightarrow> string" where
  "quota_hashEmail c email = qc_sha c (to_lower (js_trim email))"

definition makeKey :: "quota_config \<Rightarrow> string \<Rightarrow> quota_type \<Rightarrow> string" where
  "makeKey c email ty = ''email_quota:'' @ quota_name ty @ '':'' @ quota_hashEmail c email"

definition makeLastSentKey :: "quota_config \<Rightarrow> string \<Rightarrow> quota_type \<Rightarrow> string" where
  "makeLastSentKey c email ty = ''email_quota_ts:'' @ quota_name ty @ '':'' @ quota_hashEmail c email"

definition or_zero :: "int option \<Rightarrow> int" where
  "or_zero x = (case x of Some n \<Rightarrow> n | None \<Rightarrow> 0)"

text \<open>The wait that the previous sends ask for, when it applies.\<close>

definition cooling :: "int \<Rightarrow> int \<Rightarrow> ms \<Rightarrow> bool" where
  "cooling lastSent prevCount now \<longleftrightarrow> lastSent > 0 \<and> prevCount > 0 \<and> prevCount < int (length cooldownAfterSendMs) \<and>
     now - lastSent < cooldownAfterSendMs ! nat prevCount"

definition quota_day :: ms where
  "quota_day = 24 * 60 * 60 * 1000"

definition tryConsume :: "quota_config \<Rightarrow> answers \<Rightarrow> string \<Rightarrow> quota_type \<Rightarrow> kvstore \<Rightarrow> bool \<times> kvstore" where
  "tryConsume c ans email ty s =
     (let limit = getLimit c ty; counterKey = makeKey c email ty; lastSentKey = makeLastSentKey c email ty in
      if limit \<le> 0 then (True, s)
      else if \<not> ans 0 then (True, s)
      else if ty \<notin> cooldownExemptTypes \<and> cooling (or_zero (rd_get lastSentKey s)) (or_zero (rd_get counterKey s)) (rd_now s)
      then (False, s)
      else if \<not> ans 1 then (True, s)
      else case rd_incr counterKey s of (cnt, s1) \<Rightarrow>
        if cnt = 1 \<and> \<not> ans 2 then (True, s1)
        else
          let s2 = (if cnt = 1 then rd_expire counterKey quota_day s1 else s1) in
          if cnt > limit then (False, s2)
          else if \<not> ans 3 then (True, s2)
          else (True, rd_set lastSentKey (rd_now s) quota_day s2))"

definition getCooldownRemainingSec :: "quota_config \<Rightarrow> bool \<Rightarrow> string \<Rightarrow> quota_type \<Rightarrow> kvstore \<Rightarrow> int" where
  "getCooldownRemainingSec c up email ty s =
     (let lastSent = or_zero (rd_get (makeLastSentKey c email ty) s); prevCount = or_zero (rd_get (makeKey c email ty) s) in
      if \<not> up then 0
      else if lastSent \<le> 0 \<or> prevCount \<le> 0 \<or> prevCount \<ge> int (length cooldownAfterSendMs) then 0
      else let requiredWait = cooldownAfterSendMs ! nat prevCount; elapsed = rd_now s - lastSent in
           if elapsed \<ge> requiredWait then 0 else \<lceil>rat_of_int (requiredWait - elapsed) / 1000\<rceil>)"

definition tryConsumePerIp :: "quota_config \<Rightarrow> answers \<Rightarrow> string option \<Rightarrow> kvstore \<Rightarrow> bool \<times> kvstore" where
  "tryConsumePerIp c ans ip s =
     (case ip of
        None \<Rightarrow> (True, s)
      | Some a \<Rightarrow>
          let limit = qc_perIp c; key = ''email_quota_ip:'' @ quota_hashEmail c a in
          if a = '''' \<or> limit \<le> 0 \<or> \<not> ans 0 then (True, s)
          else case rd_incr key s of (cnt, s1) \<Rightarrow>
            if cnt = 1 \<and> \<not> ans 1 then (True, s1)
            else (cnt \<le> limit, if cnt = 1 then rd_expire key quota_day s1 else s1))"

definition platform_key :: string where
  "platform_key = ''email_quota_platform_total''"

definition tryConsumePlatformDaily :: "quota_config \<Rightarrow> answers \<Rightarrow> kvstore \<Rightarrow> bool \<times> kvstore" where
  "tryConsumePlatformDaily c ans s =
     (let limit = qc_platform c in
      if limit \<le> 0 \<or> \<not> ans 0 then (True, s)
      else case rd_incr platform_key s of (cnt, s1) \<Rightarrow>
        if cnt = 1 \<and> \<not> ans 1 then (True, s1)
        else (cnt \<le> limit, if cnt = 1 then rd_expire platform_key quota_day s1 else s1))"

section \<open>Suppressed recipients\<close>

datatype suppress_reason = BY_BOUNCE | BY_COMPLAINT | BY_REJECT | BY_HAND

record suppression =
  su_hash :: string
  su_reason :: suppress_reason
  su_bounceType :: "string option"
  su_notes :: "string option"

definition isSuppressed :: "quota_config \<Rightarrow> bool \<Rightarrow> string \<Rightarrow> suppression list \<Rightarrow> bool" where
  "isSuppressed c up email rows \<longleftrightarrow> up \<and> list_ex (\<lambda>r. su_hash r = quota_hashEmail c email) rows"

definition suppress ::
  "quota_config \<Rightarrow> string \<Rightarrow> suppress_reason \<Rightarrow> string option \<Rightarrow> string option \<Rightarrow> suppression list \<Rightarrow> suppression list" where
  "suppress c email reason bounceType notes rows =
     (let h = quota_hashEmail c email;
          upd = (\<lambda>r. r\<lparr>su_reason := reason, su_bounceType := bounceType,
                       su_notes := (if notes = None then su_notes r else notes)\<rparr>)
      in if list_ex (\<lambda>r. su_hash r = h) rows then update_many (\<lambda>r. su_hash r = h) upd rows
         else rows @ [\<lparr>su_hash = h, su_reason = reason, su_bounceType = bounceType, su_notes = notes\<rparr>])"

definition unsuppress :: "string \<Rightarrow> suppression list \<Rightarrow> bool \<times> suppression list" where
  "unsuppress h rows = (list_ex (\<lambda>r. su_hash r = h) rows, delete_many (\<lambda>r. su_hash r = h) rows)"

section \<open>Sending\<close>

text \<open>
  \<open>EmailService.send\<close>: what it answers, and whether the provider took the mail. \<open>accepted\<close> is the
  outcome of the call to the provider behind the circuit breaker; \<open>enabled\<close> is off without an API key.
\<close>

definition send ::
  "quota_config \<Rightarrow> answers \<Rightarrow> bool \<Rightarrow> suppression list \<Rightarrow> bool \<Rightarrow> bool \<Rightarrow> bool \<Rightarrow> string \<Rightarrow> kvstore \<Rightarrow> (bool \<times> bool) \<times> kvstore" where
  "send c ans db_up rows enabled accepted isAdminAlert dest s =
     (if \<not> isAdminAlert \<and> isSuppressed c db_up dest rows then ((True, False), s)
      else case (if isAdminAlert then (True, s) else tryConsumePlatformDaily c ans s) of (platformOk, s1) \<Rightarrow>
        if \<not> platformOk then ((True, False), s1)
        else if \<not> enabled then ((True, False), s1)
        else ((accepted, accepted), s1))"

section \<open>The request throttler\<close>

record throttle =
  th_totalHits :: int
  th_timeToExpire :: int
  th_isBlocked :: bool
  th_timeToBlockExpire :: int

definition hitKey :: "string \<Rightarrow> string \<Rightarrow> string" where
  "hitKey throttlerName key = ''throttle:'' @ throttlerName @ '':'' @ key"

definition blockKey :: "string \<Rightarrow> string \<Rightarrow> string" where
  "blockKey throttlerName key = ''throttle:'' @ throttlerName @ '':'' @ key @ '':blocked''"

text \<open>\<open>LUA_SCRIPT\<close>, which Redis runs as one step.\<close>

definition throttle_script :: "string \<Rightarrow> string \<Rightarrow> ms \<Rightarrow> int \<Rightarrow> ms \<Rightarrow> kvstore \<Rightarrow> throttle \<times> kvstore" where
  "throttle_script hk bk ttl limit blockMs s =
     (if rd_live bk s \<noteq> None
      then (\<lparr>th_totalHits = or_zero (rd_get hk s), th_timeToExpire = 0, th_isBlocked = True, th_timeToBlockExpire = rd_pttl bk s\<rparr>, s)
      else case rd_incr hk s of (hits, s1) \<Rightarrow>
        let s2 = (if hits = 1 then rd_expire hk ttl s1 else s1);
            remaining = max 0 (rd_pttl hk s2)
        in if hits > limit
           then (\<lparr>th_totalHits = hits, th_timeToExpire = remaining, th_isBlocked = True, th_timeToBlockExpire = blockMs\<rparr>, rd_set bk 1 blockMs s2)
           else (\<lparr>th_totalHits = hits, th_timeToExpire = remaining, th_isBlocked = False, th_timeToBlockExpire = 0\<rparr>, s2))"

definition increment :: "bool \<Rightarrow> string \<Rightarrow> ms \<Rightarrow> int \<Rightarrow> ms \<Rightarrow> string \<Rightarrow> kvstore \<Rightarrow> throttle \<times> kvstore" where
  "increment up key ttl limit blockDuration throttlerName s =
     (if up then throttle_script (hitKey throttlerName key) (blockKey throttlerName key) ttl limit blockDuration s
      else (\<lparr>th_totalHits = 0, th_timeToExpire = ttl, th_isBlocked = False, th_timeToBlockExpire = 0\<rparr>, s))"

end
