(* ===== verification/QuotaProps.thy ===== *)
theory QuotaProps
  imports Quota Allowance
begin

text \<open>
  The counters of \<open>Quota\<close> as providers of the contract of \<open>Allowance\<close>.
\<close>

section \<open>A counter in Redis\<close>

text \<open>
  What a counter under a key can still grant before \<open>until\<close>, when one that starts afresh lives until
  then.
\<close>

definition counter_left :: "string \<Rightarrow> int \<Rightarrow> ms \<Rightarrow> kvstore \<Rightarrow> nat" where
  "counter_left k limit until s = (case rd_kv s k of
     None \<Rightarrow> nat limit
   | Some (n, None) \<Rightarrow> nat (limit - n)
   | Some (n, Some e) \<Rightarrow> if until \<le> e then nat (limit - n) else nat (limit - n) + nat limit)"

definition counter_ok :: "string \<Rightarrow> kvstore \<Rightarrow> bool" where
  "counter_ok k s \<longleftrightarrow> (\<forall>n e. rd_kv s k = Some (n, e) \<longrightarrow> 1 \<le> n)"

lemma counter_left_bound: "counter_ok k s \<Longrightarrow> counter_left k limit until s \<le> 2 * nat limit"
  by (fastforce simp: counter_left_def counter_ok_def split: option.splits)

text \<open>\<open>INCR\<close>, and \<open>EXPIRE\<close> when the counter starts.\<close>

definition bump :: "string \<Rightarrow> ms \<Rightarrow> kvstore \<Rightarrow> int \<times> kvstore" where
  "bump k ttl s = (case rd_incr k s of (cnt, s1) \<Rightarrow> (cnt, if cnt = 1 then rd_expire k ttl s1 else s1))"

lemma bump_other: "k' \<noteq> k \<Longrightarrow> rd_kv (snd (bump k ttl s)) k' = rd_kv s k'"
  by (auto simp: bump_def rd_incr_def rd_expire_def split: option.splits prod.splits)

lemma bump_now: "rd_now (snd (bump k ttl s)) = rd_now s"
  by (auto simp: bump_def rd_incr_def rd_expire_def split: option.splits prod.splits)

lemma bump_cases:
  assumes "counter_ok k s"
  obtains "rd_live k s = None" "fst (bump k ttl s) = 1" "rd_kv (snd (bump k ttl s)) k = Some (1, Some (rd_now s + ttl))"
  | n e where "rd_live k s = Some (n, e)" "rd_kv s k = Some (n, e)" "1 \<le> n" "fst (bump k ttl s) = n + 1"
      "rd_kv (snd (bump k ttl s)) k = Some (n + 1, e)"
proof (cases "rd_live k s")
  case None
  then show ?thesis
    by (intro that(1)) (simp_all add: bump_def rd_incr_def rd_expire_def rd_live_def)
next
  case (Some x)
  obtain n e where x: "x = (n, e)" by fastforce
  have kv: "rd_kv s k = Some (n, e)" using Some x by (auto simp: rd_live_def split: option.splits if_splits)
  then have "1 \<le> n" using assms by (auto simp: counter_ok_def)
  then show ?thesis
    using Some x kv by (intro that(2)) (simp_all add: bump_def rd_incr_def)
qed

lemma bump_ok:
  assumes "counter_ok k s"
  shows "counter_ok k (snd (bump k ttl s))"
  by (rule bump_cases [OF assms, of ttl]) (simp_all add: counter_ok_def)

text \<open>A counter within its limit spends one of what is left.\<close>

lemma bump_spends:
  assumes "counter_ok k s" and "0 < limit" and "t0 \<le> rd_now s" and "rd_now s < t0 + ttl"
  shows "(if fst (bump k ttl s) \<le> limit then 1 else 0) + counter_left k limit (t0 + ttl) (snd (bump k ttl s)) \<le>
    counter_left k limit (t0 + ttl) s"
proof (rule bump_cases [OF assms(1), of ttl])
  assume "rd_live k s = None" "fst (bump k ttl s) = 1" "rd_kv (snd (bump k ttl s)) k = Some (1, Some (rd_now s + ttl))"
  then show ?thesis using assms
    by (auto simp: counter_left_def rd_live_def split: option.splits if_splits)
next
  fix n e
  assume "rd_kv s k = Some (n, e)" "1 \<le> n" "fst (bump k ttl s) = n + 1" "rd_kv (snd (bump k ttl s)) k = Some (n + 1, e)"
  then show ?thesis using assms(2) by (auto simp: counter_left_def split: option.split)
qed

section \<open>The e-mail quotas\<close>

lemma keys_differ [simp]: "makeLastSentKey c email ty \<noteq> makeKey c email' ty'"
  by (simp add: makeLastSentKey_def makeKey_def)

text \<open>Requests for e-mails: when, to whom, of which kind, all while Redis answers.\<close>

definition quota_step :: "quota_config \<Rightarrow> ms \<times> string \<times> quota_type \<Rightarrow> kvstore \<Rightarrow> bool \<times> kvstore" where
  "quota_step c e s = (case e of (t, email, ty) \<Rightarrow> tryConsume c (\<lambda>_. True) email ty (s\<lparr>rd_now := t\<rparr>))"

definition quota_key :: "quota_config \<Rightarrow> ms \<times> string \<times> quota_type \<Rightarrow> string" where
  "quota_key c e = (case e of (t, email, ty) \<Rightarrow> makeKey c email ty)"

lemma rd_set_other: "k' \<noteq> k \<Longrightarrow> rd_kv (rd_set k v ttl s) k' = rd_kv s k'"
  by (simp add: rd_set_def)

lemma tryConsume_up:
  "tryConsume c (\<lambda>_. True) email ty s =
     (let limit = getLimit c ty; k = makeKey c email ty; l = makeLastSentKey c email ty in
      if limit \<le> 0 then (True, s)
      else if ty \<notin> cooldownExemptTypes \<and> cooling (or_zero (rd_get l s)) (or_zero (rd_get k s)) (rd_now s) then (False, s)
      else case bump k quota_day s of (n, s2) \<Rightarrow> if n > limit then (False, s2) else (True, rd_set l (rd_now s) quota_day s2))"
  by (simp add: tryConsume_def bump_def Let_def split: prod.split)


lemma stamp_other [simp]:
  "rd_kv (rd_set (makeLastSentKey c em ty') v ttl s) (makeKey c email ty) = rd_kv s (makeKey c email ty)"
  by (rule rd_set_other) (metis keys_differ)

lemma makeKey_type: "makeKey c email ty = makeKey c email' ty' \<Longrightarrow> ty = ty'"
  by (cases ty; cases ty') (simp_all add: makeKey_def)

lemma quota_step_other:
  assumes "quota_key c e \<noteq> makeKey c email ty"
  shows "rd_kv (snd (quota_step c e s)) (makeKey c email ty) = rd_kv s (makeKey c email ty)"
proof -
  obtain t em y where e: "e = (t, em, y)" by (metis prod_cases3)
  have "makeKey c em y \<noteq> makeKey c email ty" using assms e by (simp add: quota_key_def)
  then show ?thesis
    using bump_other [of "makeKey c email ty" "makeKey c em y" quota_day "s\<lparr>rd_now := t\<rparr>"]
    by (auto simp: e quota_step_def tryConsume_up Let_def split: prod.split)
qed

lemma quota_step_own:
  assumes "quota_key c e = makeKey c email ty" and "0 < getLimit c ty"
  obtains "fst (quota_step c e s) = False" "rd_kv (snd (quota_step c e s)) (makeKey c email ty) = rd_kv s (makeKey c email ty)"
  | "fst (quota_step c e s) \<longleftrightarrow> fst (bump (makeKey c email ty) quota_day (s\<lparr>rd_now := fst e\<rparr>)) \<le> getLimit c ty"
    "rd_kv (snd (quota_step c e s)) (makeKey c email ty) =
      rd_kv (snd (bump (makeKey c email ty) quota_day (s\<lparr>rd_now := fst e\<rparr>))) (makeKey c email ty)"
proof -
  obtain t em y where e: "e = (t, em, y)" by (metis prod_cases3)
  have k: "makeKey c em y = makeKey c email ty" using assms(1) e by (simp add: quota_key_def)
  have y: "y = ty" using makeKey_type [OF k] .
  obtain n s2 where b: "bump (makeKey c email ty) quota_day (s\<lparr>rd_now := t\<rparr>) = (n, s2)" by fastforce
  show ?thesis
  proof (cases "ty \<notin> cooldownExemptTypes \<and> cooling (or_zero (rd_get (makeLastSentKey c em ty) (s\<lparr>rd_now := t\<rparr>)))
      (or_zero (rd_get (makeKey c email ty) (s\<lparr>rd_now := t\<rparr>))) t")
    case True
    then show ?thesis using assms(2) k y by (intro that(1)) (simp_all add: e quota_step_def tryConsume_up Let_def)
  next
    case False
    then show ?thesis using assms(2) k y b
      by (intro that(2)) (auto simp: e quota_step_def tryConsume_up Let_def)
  qed
qed

interpretation daily: allowance "quota_step c" "\<lambda>e. quota_key c e = makeKey c email ty"
  "\<lambda>e. 0 < getLimit c ty \<and> t0 \<le> fst e \<and> fst e < t0 + quota_day" "counter_ok (makeKey c email ty)"
  "counter_left (makeKey c email ty) (getLimit c ty) (t0 + quota_day)" for c email ty t0
proof unfold_locales
  fix s :: kvstore and e :: "ms \<times> string \<times> quota_type"
  let ?k = "makeKey c email ty"
  let ?left = "counter_left ?k (getLimit c ty) (t0 + quota_day)"
  assume ok: "counter_ok ?k s" and e: "0 < getLimit c ty \<and> t0 \<le> fst e \<and> fst e < t0 + quota_day"
  let ?s = "s\<lparr>rd_now := fst e\<rparr>"
  have ok': "counter_ok ?k ?s" "?left ?s = ?left s" using ok by (simp_all add: counter_ok_def counter_left_def)
  have "counter_ok ?k (snd (quota_step c e s)) \<and>
    (if quota_key c e = ?k \<and> fst (quota_step c e s) then 1 else 0) + ?left (snd (quota_step c e s)) \<le> ?left s"
  proof (cases "quota_key c e = ?k")
    case False
    then show ?thesis using quota_step_other [OF False, of s] ok by (simp add: counter_ok_def counter_left_def)
  next
    case True
    show ?thesis
    proof (cases rule: quota_step_own [OF True conjunct1 [OF e], of s])
      case 1
      then show ?thesis using ok by (simp add: counter_ok_def counter_left_def)
    next
      case 2
      have "counter_ok ?k (snd (quota_step c e s))" "?left (snd (quota_step c e s)) = ?left (snd (bump ?k quota_day ?s))"
        using bump_ok [OF ok'(1), of quota_day] 2(2) by (simp_all add: counter_ok_def counter_left_def)
      then show ?thesis using bump_spends [OF ok'(1), of "getLimit c ty" t0 quota_day] e 2(1) ok'(2) True by simp
    qed
  qed
  then show "counter_ok ?k (snd (quota_step c e s))"
    "(if quota_key c e = ?k \<and> fst (quota_step c e s) then 1 else 0) + ?left (snd (quota_step c e s)) \<le> ?left s" by blast+
qed

text \<open>A counter whose \<open>EXPIRE\<close> got lost grants what is left of it once and for all.\<close>

definition endless :: "string \<Rightarrow> kvstore \<Rightarrow> bool" where
  "endless k s \<longleftrightarrow> (\<exists>n. rd_kv s k = Some (n, None) \<and> 1 \<le> n)"

lemma bump_endless:
  assumes "rd_kv s k = Some (n, None)" "1 \<le> n"
  shows "fst (bump k ttl s) = n + 1" "rd_kv (snd (bump k ttl s)) k = Some (n + 1, None)"
  using assms by (simp_all add: bump_def rd_incr_def rd_live_def)

interpretation for_good: allowance "quota_step c" "\<lambda>e. quota_key c e = makeKey c email ty"
  "\<lambda>e. 0 < getLimit c ty" "endless (makeKey c email ty)" "counter_left (makeKey c email ty) (getLimit c ty) 0" for c email ty
proof unfold_locales
  fix s :: kvstore and e :: "ms \<times> string \<times> quota_type"
  let ?k = "makeKey c email ty"
  let ?left = "counter_left ?k (getLimit c ty) 0"
  assume ok: "endless ?k s" and lim: "0 < getLimit c ty"
  obtain n where n: "rd_kv s ?k = Some (n, None)" "1 \<le> n" using ok by (auto simp: endless_def)
  have "endless ?k (snd (quota_step c e s)) \<and>
    (if quota_key c e = ?k \<and> fst (quota_step c e s) then 1 else 0) + ?left (snd (quota_step c e s)) \<le> ?left s"
  proof (cases "quota_key c e = ?k")
    case False
    then show ?thesis using quota_step_other [OF False, of s] ok by (simp add: endless_def counter_left_def)
  next
    case True
    show ?thesis
      by (rule quota_step_own [OF True lim, of s])
        (use n bump_endless [of "s\<lparr>rd_now := fst e\<rparr>" ?k n quota_day] in \<open>auto simp: endless_def counter_left_def\<close>)
  qed
  then show "endless ?k (snd (quota_step c e s))"
    "(if quota_key c e = ?k \<and> fst (quota_step c e s) then 1 else 0) + ?left (snd (quota_step c e s)) \<le> ?left s" by blast+
qed

text \<open>While a recent send asks for a wait, nothing is granted and nothing changes.\<close>

definition resting :: "quota_config \<Rightarrow> string \<Rightarrow> quota_type \<Rightarrow> ms \<Rightarrow> int \<Rightarrow> ms \<Rightarrow> kvstore \<Rightarrow> bool" where
  "resting c email ty sent n until s \<longleftrightarrow>
     (\<exists>e. rd_kv s (makeKey c email ty) = Some (n, Some e) \<and> until \<le> e) \<and>
     (\<exists>e. rd_kv s (makeLastSentKey c email ty) = Some (sent, Some e) \<and> until \<le> e)"

lemma makeLastSentKey_eq: "makeLastSentKey c email ty = makeLastSentKey c email' ty' \<longleftrightarrow> makeKey c email ty = makeKey c email' ty'"
  by (simp add: makeLastSentKey_def makeKey_def)

lemma quota_step_stamp:
  assumes "quota_key c e \<noteq> makeKey c email ty"
  shows "rd_kv (snd (quota_step c e s)) (makeLastSentKey c email ty) = rd_kv s (makeLastSentKey c email ty)"
proof -
  obtain t em y where e: "e = (t, em, y)" by (metis prod_cases3)
  have k: "makeLastSentKey c em y \<noteq> makeLastSentKey c email ty" using assms e by (simp add: quota_key_def makeLastSentKey_eq)
  have "makeLastSentKey c email ty \<noteq> makeKey c em y" by (rule keys_differ)
  then show ?thesis
    using bump_other [of "makeLastSentKey c email ty" "makeKey c em y" quota_day "s\<lparr>rd_now := t\<rparr>"] rd_set_other k
    by (auto simp: e quota_step_def tryConsume_up Let_def split: prod.split)
qed

lemma resting_refuses:
  assumes r: "resting c email ty sent n until s" and e: "quota_key c e = makeKey c email ty" "fst e < until" "fst e - sent < cooldownAfterSendMs ! nat n"
    and n: "0 < sent" "0 < n" "n < 5" "ty \<notin> cooldownExemptTypes" "0 < getLimit c ty"
  shows "quota_step c e s = (False, s\<lparr>rd_now := fst e\<rparr>)"
proof -
  obtain t em y where x: "e = (t, em, y)" by (metis prod_cases3)
  have k: "makeKey c em y = makeKey c email ty" using e(1) x by (simp add: quota_key_def)
  then have l: "makeLastSentKey c em y = makeLastSentKey c email ty" by (simp add: makeLastSentKey_eq)
  have y: "y = ty" using makeKey_type [OF k] .
  have "rd_get (makeKey c email ty) (s\<lparr>rd_now := t\<rparr>) = Some n" "rd_get (makeLastSentKey c email ty) (s\<lparr>rd_now := t\<rparr>) = Some sent"
    using r e(2) x by (auto simp: resting_def rd_get_def rd_live_def)
  then have "cooling (or_zero (rd_get (makeLastSentKey c email ty) (s\<lparr>rd_now := t\<rparr>)))
      (or_zero (rd_get (makeKey c email ty) (s\<lparr>rd_now := t\<rparr>))) t"
    using n e(3) x by (simp add: cooling_def or_zero_def cooldownAfterSendMs_def)
  then show ?thesis using n k l y by (simp add: x quota_step_def tryConsume_up Let_def)
qed

interpretation rest: allowance "quota_step c" "\<lambda>e. quota_key c e = makeKey c email ty"
  "\<lambda>e. fst e < until \<and> fst e - sent < cooldownAfterSendMs ! nat n \<and> 0 < sent \<and> 0 < n \<and> n < 5 \<and>
     ty \<notin> cooldownExemptTypes \<and> 0 < getLimit c ty"
  "resting c email ty sent n until" "\<lambda>_. 0" for c email ty until sent n
proof unfold_locales
  fix s :: kvstore and e :: "ms \<times> string \<times> quota_type"
  assume r: "resting c email ty sent n until s"
    and e: "fst e < until \<and> fst e - sent < cooldownAfterSendMs ! nat n \<and> 0 < sent \<and> 0 < n \<and> n < 5 \<and>
      ty \<notin> cooldownExemptTypes \<and> 0 < getLimit c ty"
  have own: "quota_step c e s = (False, s\<lparr>rd_now := fst e\<rparr>)" if "quota_key c e = makeKey c email ty"
    using resting_refuses [OF r that] e by blast
  show "resting c email ty sent n until (snd (quota_step c e s))"
    using r own quota_step_other [of c e email ty s] quota_step_stamp [of c e email ty s]
    by (cases "quota_key c e = makeKey c email ty") (simp_all add: resting_def)
  show "(if quota_key c e = makeKey c email ty \<and> fst (quota_step c e s) then 1 else 0) + 0 \<le> (0 :: nat)"
    using own by simp
qed

section \<open>The throttler\<close>

text \<open>Requests of one throttler: when, and under which key.\<close>

definition throttle_step :: "string \<Rightarrow> ms \<Rightarrow> int \<Rightarrow> ms \<Rightarrow> ms \<times> string \<Rightarrow> kvstore \<Rightarrow> bool \<times> kvstore" where
  "throttle_step name ttl limit blockMs e s = (case e of (t, key) \<Rightarrow>
     case increment True key ttl limit blockMs name (s\<lparr>rd_now := t\<rparr>) of (r, s') \<Rightarrow> (\<not> th_isBlocked r, s'))"

lemma throttle_script_alt:
  "throttle_script hk bk ttl limit blockMs s =
     (if rd_live bk s \<noteq> None
      then (\<lparr>th_totalHits = or_zero (rd_get hk s), th_timeToExpire = 0, th_isBlocked = True, th_timeToBlockExpire = rd_pttl bk s\<rparr>, s)
      else case bump hk ttl s of (hits, s2) \<Rightarrow>
        if hits > limit
        then (\<lparr>th_totalHits = hits, th_timeToExpire = max 0 (rd_pttl hk s2), th_isBlocked = True, th_timeToBlockExpire = blockMs\<rparr>, rd_set bk 1 blockMs s2)
        else (\<lparr>th_totalHits = hits, th_timeToExpire = max 0 (rd_pttl hk s2), th_isBlocked = False, th_timeToBlockExpire = 0\<rparr>, s2))"
  by (simp add: throttle_script_def bump_def Let_def split: prod.split)

lemma throttle_keys:
  "hitKey name key = hitKey name key' \<longleftrightarrow> key = key'" "blockKey name key \<noteq> hitKey name key' \<longleftrightarrow> key @ '':blocked'' \<noteq> key'"
  by (simp_all add: hitKey_def blockKey_def)

interpretation window: allowance "throttle_step name ttl limit blockMs" "\<lambda>e. snd e = key"
  "\<lambda>e. 0 < limit \<and> t0 \<le> fst e \<and> fst e < t0 + ttl \<and> snd e @ '':blocked'' \<noteq> key" "counter_ok (hitKey name key)"
  "counter_left (hitKey name key) limit (t0 + ttl)" for name ttl limit blockMs key t0
proof unfold_locales
  fix s :: kvstore and e :: "ms \<times> string"
  let ?k = "hitKey name key"
  let ?left = "counter_left ?k limit (t0 + ttl)"
  assume ok: "counter_ok ?k s" and e: "0 < limit \<and> t0 \<le> fst e \<and> fst e < t0 + ttl \<and> snd e @ '':blocked'' \<noteq> key"
  let ?s = "s\<lparr>rd_now := fst e\<rparr>" and ?h = "hitKey name (snd e)" and ?b = "blockKey name (snd e)"
  have bk: "?b \<noteq> ?k" using e throttle_keys(2) by blast
  have ok': "counter_ok ?k ?s" "?left ?s = ?left s" using ok by (simp_all add: counter_ok_def counter_left_def)
  obtain hits s2 where b: "bump ?h ttl ?s = (hits, s2)" by fastforce
  have set: "rd_kv (rd_set ?b 1 blockMs s2) ?k = rd_kv s2 ?k" using rd_set_other [of ?k ?b] bk by metis
  have step: "throttle_step name ttl limit blockMs e s =
      (if rd_live ?b ?s \<noteq> None then (False, ?s) else if hits > limit then (False, rd_set ?b 1 blockMs s2) else (True, s2))"
    using b by (cases e) (simp add: throttle_step_def increment_def throttle_script_alt)
  let ?r = "throttle_step name ttl limit blockMs e s"
  have "counter_ok ?k (snd ?r) \<and> (if snd e = key \<and> fst ?r then 1 else 0) + ?left (snd ?r) \<le> ?left s"
  proof (cases "snd e = key \<and> rd_live ?b ?s = None")
    case True
    have "counter_ok ?k (snd ?r) = counter_ok ?k s2" "?left (snd ?r) = ?left s2" "fst ?r \<longleftrightarrow> hits \<le> limit"
      using True set by (auto simp: step counter_ok_def counter_left_def)
    then show ?thesis
      using bump_ok [OF ok'(1), of ttl] bump_spends [OF ok'(1), of limit t0 ttl] e ok'(2) True b by simp
  next
    case False
    have "rd_kv (snd ?r) ?k = rd_kv s ?k"
    proof (cases "snd e = key")
      case True
      then show ?thesis using False by (simp add: step)
    next
      case other: False
      then have "rd_kv s2 ?k = rd_kv s ?k" using bump_other [of ?k ?h ttl ?s] b throttle_keys(1) [of name key "snd e"] by simp
      then show ?thesis using set by (simp add: step)
    qed
    then show ?thesis using ok False by (auto simp: step counter_ok_def counter_left_def)
  qed
  then show "counter_ok ?k (snd ?r)" "(if snd e = key \<and> fst ?r then 1 else 0) + ?left (snd ?r) \<le> ?left s" by blast+
qed

section \<open>Mails handed to the provider\<close>

text \<open>A send: when, whether the provider is enabled and accepts, the recipient and the suppressed addresses.\<close>

definition send_step ::
  "quota_config \<Rightarrow> ms \<times> bool \<times> bool \<times> string \<times> suppression list \<Rightarrow> kvstore \<Rightarrow> bool \<times> kvstore" where
  "send_step c e s = (case e of (t, enabled, accepted, dest, rows) \<Rightarrow>
     case send c (\<lambda>_. True) True rows enabled accepted False dest (s\<lparr>rd_now := t\<rparr>) of ((answer, sent), s') \<Rightarrow> (sent, s'))"

lemma tryConsumePlatformDaily_up:
  "0 < qc_platform c \<Longrightarrow> tryConsumePlatformDaily c (\<lambda>_. True) s =
     (fst (bump platform_key quota_day s) \<le> qc_platform c, snd (bump platform_key quota_day s))"
  by (simp add: tryConsumePlatformDaily_def bump_def Let_def split: prod.split)

interpretation platform: allowance "send_step c" "\<lambda>_. True"
  "\<lambda>e. 0 < qc_platform c \<and> t0 \<le> fst e \<and> fst e < t0 + quota_day" "counter_ok platform_key"
  "counter_left platform_key (qc_platform c) (t0 + quota_day)" for c t0
proof unfold_locales
  fix s :: kvstore and e :: "ms \<times> bool \<times> bool \<times> string \<times> suppression list"
  let ?left = "counter_left platform_key (qc_platform c) (t0 + quota_day)"
  assume ok: "counter_ok platform_key s" and e: "0 < qc_platform c \<and> t0 \<le> fst e \<and> fst e < t0 + quota_day"
  obtain t enabled accepted dest rows where x: "e = (t, enabled, accepted, dest, rows)" by (metis prod_cases5)
  let ?s = "s\<lparr>rd_now := fst e\<rparr>"
  have ok': "counter_ok platform_key ?s" "?left ?s = ?left s" using ok by (simp_all add: counter_ok_def counter_left_def)
  note spend = bump_spends [OF ok'(1), of "qc_platform c" t0 quota_day]
  have step: "send_step c e s = (if isSuppressed c True dest rows then (False, ?s)
      else (fst (bump platform_key quota_day ?s) \<le> qc_platform c \<and> enabled \<and> accepted, snd (bump platform_key quota_day ?s)))"
    using e by (simp add: x send_step_def send_def tryConsumePlatformDaily_up)
  show "counter_ok platform_key (snd (send_step c e s))"
    using ok' bump_ok [OF ok'(1)] by (simp add: step)
  show "(if True \<and> fst (send_step c e s) then 1 else 0) + ?left (snd (send_step c e s)) \<le> ?left s"
    using spend e ok'(2) unfolding step by (auto split: if_splits)
qed

end
