(* ===== verification/QuotaTheorems.thy ===== *)
theory QuotaTheorems
  imports QuotaProps Outbox
begin

text \<open>
  What the counters guarantee, and where they fail, each property applied to a concrete store.
\<close>

section \<open>A small store\<close>

definition qt_c :: quota_config where
  "qt_c = \<lparr>qc_override = (\<lambda>ty. if ty = Q_RESET then Some 2 else None), qc_perIp = 50, qc_platform = 2, qc_sha = (\<lambda>x. x)\<rparr>"

definition qt :: kvstore where
  "qt = \<lparr>rd_now = 1000, rd_kv = (\<lambda>_. None)\<rparr>"

lemma qt_ok: "counter_ok k qt"
  by (simp add: counter_ok_def qt_def)

lemma qt_limit: "getLimit qt_c Q_RESET = 2"
  by (simp add: getLimit_def qt_c_def)

section \<open>E-mails to one recipient\<close>

text \<open>C30.
  Within 24 hours at most twice the daily limit of e-mails of one kind is granted to one address, and
  at most the limit when no counter exists at the start, whatever other requests are made in between,
  while Redis answers.
\<close>

theorem quota_bounded:
  assumes "counter_ok (makeKey c email ty) s" and "0 < getLimit c ty"
    and "\<forall>e \<in> set es. t0 \<le> fst e \<and> fst e < t0 + quota_day"
  shows "granted (quota_step c) (\<lambda>e. quota_key c e = makeKey c email ty) es s \<le> 2 * nat (getLimit c ty) \<and>
    (rd_kv s (makeKey c email ty) = None \<longrightarrow>
      granted (quota_step c) (\<lambda>e. quota_key c e = makeKey c email ty) es s \<le> nat (getLimit c ty))"
proof -
  have "granted (quota_step c) (\<lambda>e. quota_key c e = makeKey c email ty) es s \<le>
      counter_left (makeKey c email ty) (getLimit c ty) (t0 + quota_day) s"
    by (rule daily.granted_le_left [OF assms(1)]) (use assms(2,3) in blast)
  moreover have "rd_kv s (makeKey c email ty) = None \<Longrightarrow>
      counter_left (makeKey c email ty) (getLimit c ty) (t0 + quota_day) s = nat (getLimit c ty)"
    by (simp add: counter_left_def)
  ultimately show ?thesis using counter_left_bound [OF assms(1), of "getLimit c ty" "t0 + quota_day"] by linarith
qed

theorem quota_bounded_witness:
  "granted (quota_step qt_c) (\<lambda>e. quota_key qt_c e = makeKey qt_c ''a'' Q_RESET)
     [(1000, ''a'', Q_RESET), (2000, ''a'', Q_RESET), (90000, ''A'', Q_RESET), (90001, ''b'', Q_RESET), (900000, ''a'', Q_RESET)] qt = 2"
proof -
  let ?es = "[(1000, ''a'', Q_RESET), (2000, ''a'', Q_RESET), (90000, ''A'', Q_RESET), (90001, ''b'', Q_RESET), (900000, ''a'', Q_RESET)]"
  have "\<forall>e \<in> set ?es. 1000 \<le> fst e \<and> fst e < 1000 + quota_day" by (simp add: quota_day_def)
  then have "granted (quota_step qt_c) (\<lambda>e. quota_key qt_c e = makeKey qt_c ''a'' Q_RESET) ?es qt \<le> 2"
    using quota_bounded [OF qt_ok _, of qt_c Q_RESET ?es 1000 "''a''"] qt_limit by (simp add: qt_def)
  moreover have "2 \<le> granted (quota_step qt_c) (\<lambda>e. quota_key qt_c e = makeKey qt_c ''a'' Q_RESET) ?es qt" by code_simp
  ultimately show ?thesis by simp
qed

text \<open>
  After the n-th e-mail of a kind to an address (n below 5, and the kind not exempt) no further one is
  granted to it before the n-th wait of the schedule is over, whatever requests are made meanwhile,
  while Redis answers and the counter does not run out first.
\<close>

theorem cooldown_respected:
  assumes "quota_step c e s = (True, s')" and "quota_key c e = makeKey c email ty" and "0 < fst e"
    and "ty \<notin> cooldownExemptTypes" and "0 < getLimit c ty"
    and "rd_kv s' (makeKey c email ty) = Some (n, Some until)" and "0 < n" and "n < 5"
    and "fst e + cooldownAfterSendMs ! nat n \<le> until"
    and "\<forall>x \<in> set es. fst x < fst e + cooldownAfterSendMs ! nat n"
  shows "granted (quota_step c) (\<lambda>x. quota_key c x = makeKey c email ty) es s' = 0"
proof -
  obtain t em y where x: "e = (t, em, y)" by (metis prod_cases3)
  have k: "makeKey c em y = makeKey c email ty" using assms(2) x by (simp add: quota_key_def)
  have l: "makeLastSentKey c em y = makeLastSentKey c email ty" using k by (simp add: makeLastSentKey_eq)
  have y: "y = ty" using makeKey_type [OF k] .
  have stamp: "rd_kv s' (makeLastSentKey c email ty) = Some (t, Some (t + quota_day))"
    using assms(1,5) y l bump_now [of "makeKey c em y" quota_day "s\<lparr>rd_now := t\<rparr>"]
    by (auto simp: x quota_step_def tryConsume_up Let_def rd_set_def split: if_splits prod.splits)
  have "cooldownAfterSendMs ! nat n \<le> quota_day"
  proof -
    have "nat n \<in> {0, 1, 2, 3, 4}" using assms(7,8) by auto
    then show ?thesis by (auto simp: cooldownAfterSendMs_def quota_day_def)
  qed
  then have "resting c email ty t n (t + cooldownAfterSendMs ! nat n) s'"
    using stamp assms(6,9) x by (auto simp: resting_def)
  then have "granted (quota_step c) (\<lambda>x. quota_key c x = makeKey c email ty) es s' \<le> 0"
    by (rule rest.granted_le_left) (use assms x in auto)
  then show ?thesis by simp
qed

theorem cooldown_respected_witness:
  "granted (quota_step qt_c) (\<lambda>x. quota_key qt_c x = makeKey qt_c ''a'' Q_RESET)
     [(30000, ''a'', Q_RESET), (31000, ''b'', Q_RESET), (60999, ''a'', Q_RESET)]
     (snd (quota_step qt_c (1000, ''a'', Q_RESET) qt)) = 0"
proof (rule cooldown_respected [where e = "(1000, ''a'', Q_RESET)" and s = qt and n = 1 and until = "1000 + quota_day"])
  show "quota_step qt_c (1000, ''a'', Q_RESET) qt = (True, snd (quota_step qt_c (1000, ''a'', Q_RESET) qt))"
    by (rule prod_eqI) (code_simp, simp)
  show "rd_kv (snd (quota_step qt_c (1000, ''a'', Q_RESET) qt)) (makeKey qt_c ''a'' Q_RESET) = Some (1, Some (1000 + quota_day))"
    by code_simp
qed (simp_all add: quota_key_def cooldownExemptTypes_def qt_limit cooldownAfterSendMs_def quota_day_def)

text \<open>
  When the \<open>EXPIRE\<close> that follows the first \<open>INCR\<close> is lost, the counter of that address never runs
  out: together with the request that lost it at most the daily limit of e-mails of the kind is ever
  granted, however long afterwards.
\<close>

theorem lost_expiry_blocks_for_good:
  assumes "rd_get (makeKey c email ty) s = None" and "0 < getLimit c ty"
  shows "fst (tryConsume c (\<lambda>n. n \<noteq> 2) email ty s) \<and>
    1 + granted (quota_step c) (\<lambda>e. quota_key c e = makeKey c email ty) es (snd (tryConsume c (\<lambda>n. n \<noteq> 2) email ty s))
      \<le> nat (getLimit c ty)"
proof -
  let ?k = "makeKey c email ty"
  have live: "rd_live ?k s = None" using assms(1) by (simp add: rd_get_def)
  then have "\<not> cooling x (or_zero (rd_get ?k s)) now" for x now by (simp add: rd_get_def or_zero_def cooling_def)
  then have r: "tryConsume c (\<lambda>n. n \<noteq> 2) email ty s = (True, s\<lparr>rd_kv := (rd_kv s)(?k \<mapsto> (1, None))\<rparr>)"
    using assms(2) live by (simp add: tryConsume_def Let_def rd_incr_def)
  let ?s = "s\<lparr>rd_kv := (rd_kv s)(?k \<mapsto> (1, None))\<rparr>"
  have "granted (quota_step c) (\<lambda>e. quota_key c e = ?k) es ?s \<le> counter_left ?k (getLimit c ty) 0 ?s"
    by (rule for_good.granted_le_left) (simp_all add: endless_def assms(2))
  then show ?thesis using assms(2) by (simp add: r counter_left_def)
qed

theorem lost_expiry_blocks_for_good_witness:
  "1 + granted (quota_step qt_c) (\<lambda>e. quota_key qt_c e = makeKey qt_c ''a'' Q_RESET)
     [(100 * quota_day, ''a'', Q_RESET), (200 * quota_day, ''a'', Q_RESET), (300 * quota_day, ''a'', Q_RESET)]
     (snd (tryConsume qt_c (\<lambda>n. n \<noteq> 2) ''a'' Q_RESET qt)) \<le> nat (getLimit qt_c Q_RESET)"
proof (rule conjunct2 [OF lost_expiry_blocks_for_good])
  show "rd_get (makeKey qt_c ''a'' Q_RESET) qt = None" by (simp add: rd_get_def rd_live_def qt_def)
  show "0 < getLimit qt_c Q_RESET" by (simp add: qt_limit)
qed

section \<open>All mail, and the outbox\<close>

text \<open>
  Within 24 hours the provider is handed at most twice the daily limit of the platform, and at most
  the limit when no counter exists at the start, alerts to the administrators apart.
\<close>

theorem platform_bounded:
  assumes "counter_ok platform_key s" and "0 < qc_platform c"
    and "\<forall>e \<in> set es. t0 \<le> fst e \<and> fst e < t0 + quota_day"
  shows "granted (send_step c) (\<lambda>_. True) es s \<le> 2 * nat (qc_platform c) \<and>
    (rd_kv s platform_key = None \<longrightarrow> granted (send_step c) (\<lambda>_. True) es s \<le> nat (qc_platform c))"
proof -
  have "granted (send_step c) (\<lambda>_. True) es s \<le> counter_left platform_key (qc_platform c) (t0 + quota_day) s"
    by (rule platform.granted_le_left [OF assms(1)]) (use assms(2,3) in blast)
  moreover have "rd_kv s platform_key = None \<Longrightarrow>
      counter_left platform_key (qc_platform c) (t0 + quota_day) s = nat (qc_platform c)"
    by (simp add: counter_left_def)
  ultimately show ?thesis using counter_left_bound [OF assms(1), of "qc_platform c" "t0 + quota_day"] by linarith
qed

theorem platform_bounded_witness:
  "granted (send_step qt_c) (\<lambda>_. True)
     [(1000, True, True, ''a'', []), (2000, True, True, ''b'', []), (3000, True, True, ''c'', [])] qt = 2"
proof -
  let ?es = "[(1000, True, True, ''a'', []), (2000, True, True, ''b'', []), (3000, True, True, ''c'', [])]"
  have "\<forall>e \<in> set ?es. 1000 \<le> fst e \<and> fst e < 1000 + quota_day" by (simp add: quota_day_def)
  then have "granted (send_step qt_c) (\<lambda>_. True) ?es qt \<le> 2"
    using platform_bounded [OF qt_ok, of qt_c ?es 1000] by (simp add: qt_def qt_c_def)
  moreover have "2 \<le> granted (send_step qt_c) (\<lambda>_. True) ?es qt" by code_simp
  ultimately show ?thesis by simp
qed

text \<open>
  A mail of the outbox is lost when the daily limit of the platform is reached: the mail service
  hands nothing to the provider and answers as after a success, so the drain marks the row as sent
  and never tries it again.
\<close>

theorem capped_mail_marked_sent:
  assumes "0 < qc_platform c" and "rd_get platform_key s = Some n" and "qc_platform c \<le> n" and "0 < n"
    and "\<not> isSuppressed c True dest rows"
    and "dr_send env row = (if fst (fst (send c (\<lambda>_. True) True rows enabled accepted False dest s)) then SendOk else SendFalse)"
    and "row \<in> set t" and "o_status row = OUTBOX_PENDING" and "o_type row = BOOKING_CONFIRMATION"
  shows "\<not> snd (fst (send c (\<lambda>_. True) True rows enabled accepted False dest s)) \<and>
    fst (drain_row env row t) = Was_sent \<and>
    (\<forall>x \<in> set (snd (drain_row env row t)). o_id x = o_id row \<longrightarrow> \<not> picked row x)"
proof -
  obtain e where live: "rd_live platform_key s = Some (n, e)" using assms(2) by (auto simp: rd_get_def)
  then have "\<not> fst (tryConsumePlatformDaily c (\<lambda>_. True) s)"
    using assms(1,3,4) by (simp add: tryConsumePlatformDaily_def Let_def rd_incr_def)
  then have send: "fst (send c (\<lambda>_. True) True rows enabled accepted False dest s) = (True, False)"
    using assms(5) by (cases "tryConsumePlatformDaily c (\<lambda>_. True) s") (simp add: send_def)
  have "picked row row" using assms(8) by (simp add: picked_def)
  then have "count_rows (picked row) t \<noteq> 0" using assms(7) by (auto simp: count_rows_0)
  then have "drain_row env row t = (Was_sent, update_many (picked row) (mark_sent (dr_now env) row) t)"
    using assms(6,9) send by (simp add: drain_row_def dispatch_def sent_or_failed_def)
  moreover have "\<not> picked row x" if "x \<in> set (update_many (picked row) (mark_sent (dr_now env) row) t)" for x
  proof -
    obtain r where r: "x = (if picked row r then mark_sent (dr_now env) row r else r)"
      using \<open>x \<in> _\<close> unfolding update_many_mem by blast
    then show ?thesis by (cases "picked row r") (simp_all add: picked_def mark_sent_def)
  qed
  ultimately show ?thesis using send by simp
qed

definition qt_mail :: mail where
  "qt_mail = \<lparr>o_id = 7, o_type = BOOKING_CONFIRMATION, o_recipient = ''a'', o_bookingId = Some 8,
     o_status = OUTBOX_PENDING, o_attempts = 0, o_nextAttemptAt = 0, o_sentAt = None, o_failedAt = None,
     o_createdAt = 0, m_payload = JObj [], m_lastError = None\<rparr>"

definition qt_full :: kvstore where
  "qt_full = qt\<lparr>rd_kv := [platform_key \<mapsto> (2, Some quota_day)]\<rparr>"

definition qt_drain :: drain_env where
  "qt_drain = \<lparr>dr_now = 1000,
     dr_send = (\<lambda>_. if fst (fst (send qt_c (\<lambda>_. True) True [] True True False ''a'' qt_full)) then SendOk else SendFalse),
     dr_random = (\<lambda>_. 0)\<rparr>"

theorem capped_mail_marked_sent_witness:
  "fst (drain_row qt_drain qt_mail [qt_mail]) = Was_sent \<and>
   \<not> snd (fst (send qt_c (\<lambda>_. True) True [] True True False ''a'' qt_full))"
proof -
  have "0 < qc_platform qt_c" "rd_get platform_key qt_full = Some 2" "qc_platform qt_c \<le> 2" "(0 :: int) < 2"
    "\<not> isSuppressed qt_c True ''a'' []" "o_status qt_mail = OUTBOX_PENDING" "o_type qt_mail = BOOKING_CONFIRMATION"
    by (simp_all add: qt_c_def qt_full_def qt_def rd_get_def rd_live_def quota_day_def isSuppressed_def qt_mail_def)
  moreover have "dr_send qt_drain qt_mail =
      (if fst (fst (send qt_c (\<lambda>_. True) True [] True True False ''a'' qt_full)) then SendOk else SendFalse)"
    by (simp add: qt_drain_def)
  ultimately show ?thesis
    using capped_mail_marked_sent [of qt_c qt_full 2 "''a''" "[]" qt_drain qt_mail True True "[qt_mail]"] by simp
qed

section \<open>Requests\<close>

text \<open>With \<open>n\<close> requests counted and no block, the rest of the limit is granted.\<close>

lemma throttle_own:
  assumes "rd_kv s (blockKey name key) = None" "rd_kv s (hitKey name key) = (if n = 0 then None else Some (n, Some until))"
    and "0 \<le> n" "n < limit" "t < until" "0 < ttl"
  shows "fst (throttle_step name ttl limit blockMs (t, key) s)"
    and "rd_kv (snd (throttle_step name ttl limit blockMs (t, key) s)) (blockKey name key) = None"
    and "rd_kv (snd (throttle_step name ttl limit blockMs (t, key) s)) (hitKey name key) =
      Some (n + 1, Some (if n = 0 then t + ttl else until))"
proof -
  let ?s = "s\<lparr>rd_now := t\<rparr>"
  have k: "hitKey name key \<noteq> blockKey name key" by (simp add: hitKey_def blockKey_def)
  have b: "bump (hitKey name key) ttl ?s =
      (n + 1, ?s\<lparr>rd_kv := (rd_kv s)(hitKey name key \<mapsto> (n + 1, Some (if n = 0 then t + ttl else until)))\<rparr>)"
    using assms(2,3,5) by (simp add: bump_def rd_incr_def rd_expire_def rd_live_def)
  have "throttle_step name ttl limit blockMs (t, key) s = (True, snd (bump (hitKey name key) ttl ?s))"
    using assms(1,4) b by (simp add: throttle_step_def increment_def throttle_script_alt rd_live_def)
  then show "fst (throttle_step name ttl limit blockMs (t, key) s)"
    "rd_kv (snd (throttle_step name ttl limit blockMs (t, key) s)) (blockKey name key) = None"
    "rd_kv (snd (throttle_step name ttl limit blockMs (t, key) s)) (hitKey name key) =
      Some (n + 1, Some (if n = 0 then t + ttl else until))"
    using b k assms(1) by simp_all
qed

lemma throttle_other:
  assumes "k \<noteq> hitKey name key'" "k \<noteq> blockKey name key'"
  shows "rd_kv (snd (throttle_step name ttl limit blockMs (t, key') s)) k = rd_kv s k"
  using bump_other [OF assms(1), of ttl "s\<lparr>rd_now := t\<rparr>"] rd_set_other [OF assms(2)]
  by (cases "bump (hitKey name key') ttl (s\<lparr>rd_now := t\<rparr>)")
    (simp add: throttle_step_def increment_def throttle_script_alt)

lemma throttle_grants:
  assumes "\<forall>e \<in> set es. t0 \<le> fst e \<and> fst e < t0 + ttl \<and> snd e @ '':blocked'' \<noteq> key \<and> snd e \<noteq> key @ '':blocked''"
    and "rd_kv s (blockKey name key) = None" "rd_kv s (hitKey name key) = (if n = 0 then None else Some (n, Some until))"
    and "0 \<le> n" "t0 + ttl \<le> until"
  shows "min (nat (limit - n)) (count_rows (\<lambda>e. snd e = key) es) \<le> granted (throttle_step name ttl limit blockMs) (\<lambda>e. snd e = key) es s"
  using assms
proof (induction es arbitrary: s n until)
  case (Cons e es)
  obtain t key' where e: "e = (t, key')" by fastforce
  have t: "t < until" "0 < ttl" "t0 \<le> t" using Cons.prems by (auto simp: e)
  let ?s = "snd (throttle_step name ttl limit blockMs e s)"
  show ?case
  proof (cases "key' = key")
    case True
    show ?thesis
    proof (cases "n < limit")
      case lt: True
      note own = throttle_own [where blockMs = blockMs, OF Cons.prems(2,3,4) lt t(1,2), folded True, folded e]
      have "min (nat (limit - (n + 1))) (count_rows (\<lambda>e. snd e = key) es) \<le> granted (throttle_step name ttl limit blockMs) (\<lambda>e. snd e = key) es ?s"
        by (rule Cons.IH [where until = "if n = 0 then t + ttl else until"])
          (use Cons.prems own t in \<open>auto simp: True\<close>)
      moreover have "nat (limit - n) = Suc (nat (limit - (n + 1)))" using lt by simp
      ultimately show ?thesis using own(1) by (simp add: e True count_rows_def)
    qed simp
  next
    case False
    have k: "hitKey name key \<noteq> hitKey name key'" "hitKey name key \<noteq> blockKey name key'"
      "blockKey name key \<noteq> hitKey name key'" "blockKey name key \<noteq> blockKey name key'"
      using False Cons.prems(1) by (auto simp: e hitKey_def blockKey_def)
    note same = throttle_other [where limit = limit and ttl = ttl and blockMs = blockMs and t = t and s = s, folded e]
    have "min (nat (limit - n)) (count_rows (\<lambda>e. snd e = key) es) \<le> granted (throttle_step name ttl limit blockMs) (\<lambda>e. snd e = key) es ?s"
      by (rule Cons.IH [OF _ _ _ Cons.prems(4,5)])
        (use Cons.prems(1-3) same [OF k(1,2)] same [OF k(3,4)] in \<open>simp_all add: e\<close>)
    then show ?thesis using False by (simp add: e count_rows_def)
  qed
qed (simp add: count_rows_def)

text \<open>C10.
  Within one window of the throttler at most twice the limit of requests under one key passes, whatever
  requests under other keys are made in between, while Redis answers; at most the limit when no counter
  exists at the start. When no block exists either, exactly the first requests up to the limit pass.
\<close>

theorem throttle_bounded:
  assumes "counter_ok (hitKey name key) s" and "0 < limit"
    and "\<forall>e \<in> set es. t0 \<le> fst e \<and> fst e < t0 + ttl \<and> snd e @ '':blocked'' \<noteq> key"
  shows "granted (throttle_step name ttl limit blockMs) (\<lambda>e. snd e = key) es s \<le> 2 * nat limit \<and>
    (rd_kv s (hitKey name key) = None \<longrightarrow>
      granted (throttle_step name ttl limit blockMs) (\<lambda>e. snd e = key) es s \<le> nat limit \<and>
      (rd_kv s (blockKey name key) = None \<and> (\<forall>e \<in> set es. snd e \<noteq> key @ '':blocked'') \<longrightarrow>
        granted (throttle_step name ttl limit blockMs) (\<lambda>e. snd e = key) es s = min (nat limit) (count_rows (\<lambda>e. snd e = key) es)))"
proof (intro conjI impI)
  let ?g = "granted (throttle_step name ttl limit blockMs) (\<lambda>e. snd e = key) es s"
  have left: "?g \<le> counter_left (hitKey name key) limit (t0 + ttl) s"
    by (rule window.granted_le_left [OF assms(1)]) (use assms(2,3) in blast)
  also have "\<dots> \<le> 2 * nat limit" using assms(1) by (rule counter_left_bound)
  finally show "?g \<le> 2 * nat limit" .
  assume new: "rd_kv s (hitKey name key) = None"
  then show most: "?g \<le> nat limit" using left by (simp add: counter_left_def)
  assume "rd_kv s (blockKey name key) = None \<and> (\<forall>e \<in> set es. snd e \<noteq> key @ '':blocked'')"
  then have "min (nat limit) (count_rows (\<lambda>e. snd e = key) es) \<le> ?g"
    using throttle_grants [of es t0 ttl key s name 0 "t0 + ttl" limit blockMs] assms(3) new by simp
  moreover have "granted step p es x \<le> count_rows p es" for step p and x :: kvstore
    by (induction es arbitrary: x) (auto simp: count_rows_def intro: le_SucI)
  ultimately show "?g = min (nat limit) (count_rows (\<lambda>e. snd e = key) es)"
    using most by (intro le_antisym min.boundedI) simp_all
qed

theorem throttle_bounded_witness:
  "granted (throttle_step ''auth'' 60000 2 60000) (\<lambda>e. snd e = ''ip'')
     [(1000 :: int, ''ip''), (2000, ''ip''), (2500, ''other''), (3000, ''ip''), (4000, ''ip'')] qt = 2"
proof -
  let ?es = "[(1000 :: int, ''ip''), (2000, ''ip''), (2500, ''other''), (3000, ''ip''), (4000, ''ip'')]"
  have "\<forall>e \<in> set ?es. 1000 \<le> fst e \<and> fst e < 1000 + 60000 \<and> snd e @ '':blocked'' \<noteq> ''ip''" by simp
  then have "granted (throttle_step ''auth'' 60000 2 60000) (\<lambda>e. snd e = ''ip'') ?es qt = min (nat 2) (count_rows (\<lambda>e. snd e = ''ip'') ?es)"
    using throttle_bounded [OF qt_ok, of 2 ?es 1000 60000 "''ip''" "''auth''" 60000] by (simp add: qt_def)
  then show ?thesis by (simp add: count_rows_def)
qed

end
