(* ===== verification/AccountProps.thy ===== *)
theory AccountProps
  imports LoginProps
begin

text \<open>
  What requests leave of the accounts: an account that was deleted stays so over every sequence of them.
\<close>

definition gone_row :: "account \<Rightarrow> bool" where
  "gone_row a \<longleftrightarrow> ac_deletedAt a \<noteq> None \<and> ac_password a = None \<and> ac_resetToken a = None"

definition gone :: "uid \<Rightarrow> auth \<Rightarrow> bool" where
  "gone uid s \<longleftrightarrow> (\<exists>a \<in> set (a_accounts s). ac_id a = uid) \<and> (\<forall>a \<in> set (a_accounts s). ac_id a = uid \<longrightarrow> gone_row a)"

section \<open>Which parts of a handler touch the accounts\<close>

lemma gone_same: "gone uid s \<Longrightarrow> a_accounts s' = a_accounts s \<Longrightarrow> gone uid s'"
  by (simp add: gone_def)

lemma gone_simps [simp]:
  "gone uid (auth_emit fx s) = gone uid s" "gone uid (delete_tokens sel s) = gone uid s"
  "gone uid (denylist_all c fams s) = gone uid s" "gone uid (denylistSession c fam s) = gone uid s"
  "gone uid (s\<lparr>a_tokens := ts\<rparr>) = gone uid s" "gone uid (s\<lparr>a_now := t\<rparr>) = gone uid s" "gone uid (s\<lparr>a_up := b\<rparr>) = gone uid s"
  "gone uid (s\<lparr>a_logins := lg\<rparr>) = gone uid s" "gone uid (s\<lparr>a_cooldown := cool\<rparr>) = gone uid s"
  "gone uid (denylistUserSessions c u keep s) = gone uid s" "gone uid (kill_sessions c u s) = gone uid s"
  "gone uid (cleanupExpiredTokens s) = gone uid s" "gone uid (snd (issueTokens c f calm ac started fo s)) = gone uid s"
  "gone uid (revoke_family c fam s) = gone uid s"
  by (simp_all add: gone_def denylistUserSessions_def kill_sessions_def revoke_family_def)

lemma gone_update_many:
  assumes "gone uid s" "\<And>a. ac_id (g a) = ac_id a"
    "\<And>a. a \<in> set (a_accounts s) \<Longrightarrow> q a \<Longrightarrow> ac_id a = uid \<Longrightarrow> gone_row a \<Longrightarrow> gone_row (g a)"
  shows "gone uid (s\<lparr>a_accounts := update_many q g (a_accounts s)\<rparr>)"
proof -
  have "\<exists>a \<in> set (update_many q g (a_accounts s)). ac_id a = uid"
  proof -
    obtain a where a: "a \<in> set (a_accounts s)" "ac_id a = uid" using assms(1) by (auto simp: gone_def)
    have "(if q a then g a else a) \<in> set (update_many q g (a_accounts s))" using a(1) unfolding update_many_mem by blast
    moreover have "ac_id (if q a then g a else a) = uid" using a(2) assms(2) by simp
    ultimately show ?thesis by blast
  qed
  moreover have "gone_row a" if a: "a \<in> set (update_many q g (a_accounts s))" "ac_id a = uid" for a
  proof -
    obtain r where r: "r \<in> set (a_accounts s)" "a = (if q r then g r else r)"
      using a(1) unfolding update_many_mem by blast
    have "ac_id r = uid" using r(2) a(2) assms(2) by (cases "q r") simp_all
    then have "gone_row r" using assms(1) r(1) by (simp add: gone_def)
    then show ?thesis using r assms(3) \<open>ac_id r = uid\<close> by (cases "q r") simp_all
  qed
  ultimately show ?thesis by (simp add: gone_def)
qed

lemma gone_update:
  assumes "gone uid s" "\<And>a. ac_id (g a) = ac_id a"
    "\<And>a. a \<in> set (a_accounts s) \<Longrightarrow> ac_id a = i \<Longrightarrow> i = uid \<Longrightarrow> gone_row a \<Longrightarrow> gone_row (g a)"
  shows "gone uid (update_account i g s)"
  unfolding update_account_def
proof (rule gone_update_many [OF assms(1,2)])
  fix a assume a: "a \<in> set (a_accounts s)" "ac_id a = i" "ac_id a = uid" "gone_row a"
  have "i = uid" using a(2,3) by (rule subst)
  show "gone_row (g a)" by (rule assms(3)) fact+
qed

lemma gone_append: "gone uid s \<Longrightarrow> ac_id u \<noteq> uid \<Longrightarrow> gone uid (s\<lparr>a_accounts := a_accounts s @ [u]\<rparr>)"
  by (auto simp: gone_def)

lemma gone_new: "gone uid s \<Longrightarrow> new_account i s \<Longrightarrow> i \<noteq> uid"
  by (auto simp: gone_def new_account_def)

lemma gone_mem: "gone uid s \<Longrightarrow> a \<in> set (a_accounts s) \<Longrightarrow> ac_id a = uid \<Longrightarrow> gone_row a"
  by (simp add: gone_def)

lemma gone_find: "gone uid s \<Longrightarrow> find_first p (a_accounts s) = Some u \<Longrightarrow> ac_id u = uid \<Longrightarrow> gone_row u"
  using find_first_Some [of p "a_accounts s" u] gone_mem [of uid s u] by simp

lemma gone_account: "gone uid s \<Longrightarrow> account_of uid s = Some u \<Longrightarrow> gone_row u"
  unfolding account_of_def by (rule gone_find) (auto dest: find_first_Some)

lemma gone_failure: "gone uid s \<Longrightarrow> gone uid (count_failure c u s)"
proof -
  assume "gone uid s"
  then have 1: "gone uid (update_account (ac_id u) (\<lambda>a. a\<lparr>ac_failed := ac_failed a + 1\<rparr>) s)"
    by (rule gone_update) (simp_all add: gone_row_def)
  then show ?thesis
    unfolding count_failure_def Let_def by (auto intro: gone_update_many simp: gone_row_def)
qed

section \<open>Every request keeps it\<close>

lemma gone_login:
  assumes "gone uid s"
  shows "gone uid (snd (loginWithCheck c f email pw s))"
proof -
  obtain ok s1 where g: "checkGlobalLoginRate c email s = (ok, s1)" by fastforce
  have s1: "gone uid s1" using gone_same [OF assms] checkGlobalLoginRate_same [OF g] by blast
  have clear: "gone uid s2 \<Longrightarrow> gone uid (update_account i clear_lock s2)" for i s2
    by (rule gone_update) (simp_all add: gone_row_def clear_lock_def)
  have rate: "gone uid (resetGlobalLoginRate c email s2) = gone uid s2" for s2 by (simp add: resetGlobalLoginRate_def)
  show ?thesis
    using s1 clear gone_failure by (simp add: loginWithCheck_def g Let_def rate split: option.split sum.split)
qed

lemma gone_refresh:
  assumes "gone uid s"
  shows "gone uid (snd (refreshTokens c f id id raw s))"
proof -
  have "gone uid (snd (renew c f t s2))" if "gone uid s2" for t s2
    using that by (simp add: renew_def split: option.split)
  then show ?thesis using assms by (simp add: refreshTokens_def Let_def split: option.split)
qed

lemma no_password_gone: "gone_row u \<Longrightarrow> no_password u"
  by (simp add: gone_row_def no_password_def)

lemma account_of_id: "account_of i s = Some u \<Longrightarrow> ac_id u = i"
  by (auto simp: account_of_def dest: find_first_Some)

lemma gone_resend: "gone uid s \<Longrightarrow> gone uid (sendVerificationEmail c f hours quota i email s)"
  unfolding sendVerificationEmail_def gone_simps by (rule gone_update) (simp_all add: gone_row_def)

lemma gone_register:
  assumes "gone uid s" "new_account (f_id f) s"
  shows "gone uid (snd (registerAndLogin c f hours quota website email pw phone s))"
proof -
  have "gone uid (s\<lparr>a_accounts := a_accounts s @ [new_customer c (f_id f) email pw (some_text phone) (a_now s)]\<rparr>)"
    by (rule gone_append [OF assms(1)]) (use gone_new [OF assms] in \<open>simp add: new_customer_def\<close>)
  then show ?thesis using assms(1) gone_resend by (simp add: registerAndLogin_def Let_def)
qed

lemma gone_google:
  assumes "gone uid s" "new_account i s"
  shows "gone uid (snd (handleGoogleAuth c i f g s))"
proof (cases "google_account i g s")
  case (Inr r)
  have "gone uid (s\<lparr>a_accounts := a_accounts s @ [google_customer i g]\<rparr>)"
    by (rule gone_append [OF assms(1)]) (use gone_new [OF assms] in \<open>simp add: google_customer_def\<close>)
  moreover have "gone uid (update_account j (\<lambda>a. a\<lparr>ac_googleId := x\<rparr>) s)" for j x
    by (rule gone_update [OF assms(1)]) (simp_all add: gone_row_def)
  ultimately have "gone uid (snd r)"
    using Inr assms(1) by (auto simp: google_account_def Let_def split: option.splits if_splits)
  then show ?thesis using Inr by (cases r) (simp add: handleGoogleAuth_def)
qed (use assms in \<open>simp add: handleGoogleAuth_def\<close>)

lemma gone_forgot:
  assumes "gone uid s"
  shows "gone uid (forgotPassword c f quota email s)"
proof -
  have "gone uid (update_account (ac_id u) (\<lambda>a. a\<lparr>ac_resetToken := x, ac_resetExpiry := y\<rparr>) s2)"
    if "find_first p (a_accounts s) = Some u" "ac_password u \<noteq> None" "a_accounts s2 = a_accounts s" for u x y p s2
  proof -
    have "ac_id u \<noteq> uid" using gone_find [OF assms that(1)] that(2) by (auto simp: gone_row_def)
    then show ?thesis by (intro gone_update [OF gone_same [OF assms that(3)]]) simp_all
  qed
  then show ?thesis using assms by (simp add: forgotPassword_def Let_def split: option.split)
qed

lemma gone_reset:
  assumes "gone uid s"
  shows "gone uid (snd (resetPassword c id tok pw s))"
proof -
  have "gone uid (update_account (ac_id u) (\<lambda>a. a\<lparr>ac_password := v, ac_resetToken := w, ac_resetExpiry := x, ac_failed := y, ac_lockedUntil := z\<rparr>) s)"
    if "find_first (\<lambda>a. ac_resetToken a = Some h \<and> q a) (a_accounts s) = Some u" for u v w x y z h q
  proof -
    have "ac_resetToken u = Some h" using find_first_Some [OF that] by blast
    then have "ac_id u \<noteq> uid" using gone_find [OF assms that] by (auto simp: gone_row_def)
    then show ?thesis by (intro gone_update [OF assms]) simp_all
  qed
  then show ?thesis using assms by (simp add: resetPassword_def Let_def split: option.split)
qed

lemma gone_password:
  assumes "gone uid s"
  shows "account_of i s = Some u \<Longrightarrow> \<not> no_password u \<Longrightarrow> (\<And>a. ac_id (g a) = ac_id a) \<Longrightarrow> a_accounts s2 = a_accounts s \<Longrightarrow>
    gone uid (update_account i g s2)"
  using gone_account [OF assms] no_password_gone by (intro gone_update [OF gone_same [OF assms]]) auto

lemma gone_step:
  assumes "session_step c s0 s s'" "gone uid s"
  shows "gone uid s'"
  using assms(1)
proof cases
  case (login f email pw)
  then show ?thesis using gone_login [OF assms(2)] by simp
next
  case (verify f tok)
  have "gone uid (update_account i (\<lambda>a. a\<lparr>ac_emailVerified := x, ac_verifyToken := y, ac_verifyExpiry := z\<rparr>) s)" for i x y z
    by (rule gone_update [OF assms(2)]) (simp_all add: gone_row_def)
  then show ?thesis using assms(2) verify(1) by (simp add: verifyEmail_def Let_def split: option.split)
next
  case (refresh f raw)
  then show ?thesis using gone_refresh [OF assms(2)] by simp
next
  case (sign_out cookie u)
  then show ?thesis using assms(2) by (simp add: logout_def split: option.split)
next
  case (revoke u urole i)
  then show ?thesis using assms(2) by (simp add: revokeSession_def split: option.split)
next
  case (revoke_others u urole cookie)
  then show ?thesis using assms(2) by (simp add: revokeAllOtherSessions_def Let_def)
next
  case (set_role i urole)
  have "gone uid (update_account i (\<lambda>a. a\<lparr>ac_role := urole\<rparr>) s)" by (rule gone_update [OF assms(2)]) (simp_all add: gone_row_def)
  then show ?thesis using set_role assms(2) by (simp add: updateUserRole_def split: option.split)
next
  case (deactivate i off)
  have "gone uid (update_account i (\<lambda>a. a\<lparr>ac_deactivated := v\<rparr>) s)" for v by (rule gone_update [OF assms(2)]) (simp_all add: gone_row_def)
  then show ?thesis using deactivate assms(2) by (simp add: deactivateUser_def Let_def split: option.split)
next
  case (change i current new cookie)
  then show ?thesis using assms(2) gone_password [OF assms(2)] by (simp add: changePassword_def Let_def clear_lock_def split: option.split)
next
  case (admin_change i current new)
  then show ?thesis using assms(2) gone_password [OF assms(2)]
    by (simp add: changeAdminPassword_def denylistUserSessions_def split: option.split)
next
  case (vendor_change i current new)
  then show ?thesis using assms(2) gone_password [OF assms(2)]
    by (simp add: vendor_changePassword_def denylistUserSessions_def split: option.split)
next
  case (resend f hours cooldown quota email)
  then show ?thesis using assms(2) gone_resend by (simp add: resendVerification_def split: option.split)
next
  case (terms i)
  have "gone uid (acceptTerms i s)" unfolding acceptTerms_def by (rule gone_update [OF assms(2)]) (simp_all add: gone_row_def)
  then show ?thesis using terms by simp
next
  case (delete_own i confirmation)
  have "gone uid (update_account i (anonymise t) (delete_tokens sel s))" for t sel
    by (rule gone_update) (simp_all add: assms(2) gone_row_def anonymise_def)
  then show ?thesis using delete_own assms(2) by (simp add: deleteOwnAccount_def Let_def split: option.split)
qed (use assms(2) gone_forgot [OF assms(2)] gone_reset [OF assms(2)] gone_register [OF assms(2)] gone_google [OF assms(2)] in simp_all)

lemma gone_run: "(session_step c s0)\<^sup>*\<^sup>* s s' \<Longrightarrow> gone uid s \<Longrightarrow> gone uid s'"
  by (induction rule: rtranclp_induct) (auto intro: gone_step)

lemma gone_rejects: "gone uid s \<Longrightarrow> at_sub a = uid \<Longrightarrow> validate c a s = Inl SessionExpired"
  using gone_account [of uid s] by (auto simp: validate_def gone_row_def split: option.split)

lemma gone_no_login:
  assumes "gone uid s" and "at_sub a = uid"
  shows "fst (loginWithCheck c f email pw s) \<noteq> Inr a"
proof
  assume a: "fst (loginWithCheck c f email pw s) = Inr a"
  obtain ok s1 where g: "checkGlobalLoginRate c email s = (ok, s1)" by fastforce
  have rows: "a_accounts s1 = a_accounts s" using checkGlobalLoginRate_same [OF g] by blast
  obtain u0 where u0: "find_first (\<lambda>a. ac_email a = email) (a_accounts s) = Some u0"
    using a by (auto simp: loginWithCheck_def g rows split: option.splits if_splits)
  let ?u = "if ac_lockedUntil u0 = None then u0 else clear_lock u0"
  have pw: "\<not> no_password ?u" using a by (auto simp: loginWithCheck_def g rows u0 Let_def split: if_splits)
  have sub: "at_sub a = ac_id ?u"
  proof -
    obtain s2 where "fst (issueTokens c f calm ?u None None s2) = Inr a"
      using a by (auto simp: loginWithCheck_def g rows u0 Let_def split: if_splits sum.splits)
    then show ?thesis by (cases rule: issueTokens_cases [of c f ?u None None s2]) auto
  qed
  have "ac_id ?u = ac_id u0" "no_password ?u = no_password u0" by (simp_all add: clear_lock_def no_password_def)
  then show False using gone_find [OF assms(1) u0] no_password_gone pw sub assms(2) by simp
qed

lemma anonymised_gone:
  assumes "\<exists>a \<in> set (a_accounts s). ac_id a = uid"
  shows "gone uid (update_account uid (anonymise t) s)"
proof -
  have r: "gone_row (anonymise t a)" "ac_id (anonymise t a) = ac_id a" for a by (simp_all add: gone_row_def anonymise_def)
  have "gone_row a" if a: "a \<in> set (update_many (\<lambda>a. ac_id a = uid) (anonymise t) (a_accounts s))" "ac_id a = uid" for a
  proof -
    obtain b where "a = (if ac_id b = uid then anonymise t b else b)" using a(1) unfolding update_many_mem by blast
    then show ?thesis using r a(2) by (cases "ac_id b = uid") simp_all
  qed
  moreover have "\<exists>a \<in> set (update_many (\<lambda>a. ac_id a = uid) (anonymise t) (a_accounts s)). ac_id a = uid"
  proof -
    obtain a where "a \<in> set (a_accounts s)" "ac_id a = uid" using assms by blast
    then have "anonymise t a \<in> set (update_many (\<lambda>a. ac_id a = uid) (anonymise t) (a_accounts s))"
      unfolding update_many_mem by (intro bexI [of _ a]) simp_all
    then show ?thesis using r(2) \<open>ac_id a = uid\<close> by (intro bexI [of _ "anonymise t a"]) simp_all
  qed
  ultimately show ?thesis by (simp add: gone_def update_account_def)
qed

section \<open>Google\<close>

lemma google_account_owner:
  assumes "accounts_ok s" "new_account i s" "google_account i g s = Inr (u, s1)"
  shows "(\<exists>u'. account_of (ac_id u) s1 = Some u' \<and> ac_googleId u' = Some (gp_id g)) \<and>
    (\<forall>x. account_of (ac_id u) s = Some x \<longrightarrow> ac_googleId x = Some (gp_id g) \<or> ac_email x = gp_email g \<and> ac_emailVerified x)"
proof (cases "find_first (\<lambda>a. ac_googleId a = Some (gp_id g)) (a_accounts s)")
  case (Some x)
  then have u: "u = x" "s1 = s" using assms(3) by (simp_all add: google_account_def)
  have "account_of (ac_id x) s = Some x" "ac_googleId x = Some (gp_id g)"
    using assms(1) find_first_Some [OF Some] find_first_key [of ac_id "a_accounts s" x] by (auto simp: accounts_ok_def account_of_def)
  then show ?thesis using u by simp
next
  case None
  show ?thesis
  proof (cases "find_first (\<lambda>a. ac_email a = gp_email g) (a_accounts s)")
    case (Some x)
    let ?g = "\<lambda>a. a\<lparr>ac_googleId := Some (gp_id g)\<rparr>"
    have v: "ac_emailVerified x" "u = ?g x" "s1 = update_account (ac_id x) ?g s"
      using assms(3) None Some by (auto simp: google_account_def Let_def split: if_splits)
    have x: "account_of (ac_id x) s = Some x" "ac_email x = gp_email g"
      using assms(1) find_first_Some [OF Some] find_first_key [of ac_id "a_accounts s" x] by (auto simp: accounts_ok_def account_of_def)
    then show ?thesis using v account_of_update [of ?g "ac_id x" "ac_id x" s] by simp
  next
    case no: None
    have u: "u = google_customer i g" "s1 = s\<lparr>a_accounts := a_accounts s @ [google_customer i g]\<rparr>"
      using assms(3) None no by (auto simp: google_account_def)
    have none: "find_first (\<lambda>a. ac_id a = i) (a_accounts s) = None"
      using assms(2) by (simp add: find_first_None new_account_def)
    have app: "find_first p xs = None \<Longrightarrow> p y \<Longrightarrow> find_first p (xs @ [y]) = Some y" for p :: "account \<Rightarrow> bool" and xs y
      by (induction xs) (auto split: if_splits)
    show ?thesis using u none app [OF none, of "google_customer i g"] by (simp add: account_of_def google_customer_def)
  qed
qed

lemma issue_succeeds:
  assumes "new_to c s f"
  shows "\<exists>a. fst (issueTokens c f calm u started fam s) = Inr a \<and> at_sub a = ac_id u \<and> at_role a = ac_role u"
proof -
  have "\<not> list_ex (\<lambda>t. rt_id t = f_id f \<or> rt_hash t = k_sha c (f_raw f)) (a_tokens (kept_rows c u s))"
    using assms kept_rows_sub [of c u s] by (auto simp: new_to_def list_ex_iff)
  then show ?thesis by (simp add: issueTokens_calm kept_rows_def Let_def new_token_def)
qed

end
