(* ===== verification/AccountTheorems.thy ===== *)
theory AccountTheorems
  imports AccountProps SessionTheorems
begin

text \<open>
  How accounts begin and end: what registration reveals, whom a Google sign-in admits, what a deletion
  leaves.
\<close>

section \<open>Deletion\<close>

text \<open>C28.
  After its owner deleted an account, over every later sequence of requests, no access token of it is
  accepted, even while Redis is down, and no login with a password yields a token of it.
\<close>

theorem deleted_account_is_dead:
  assumes "fst (deleteOwnAccount c race uid confirmation s) = Inr ()"
    and "\<exists>a \<in> set (a_accounts (race s)). ac_id a = uid"
    and "(session_step c s0)\<^sup>*\<^sup>* (snd (deleteOwnAccount c race uid confirmation s)) s'"
    and "at_sub a = uid"
  shows "validate c a s' = Inl SessionExpired \<and> fst (loginWithCheck c f email pw s') \<noteq> Inr a"
proof -
  have "snd (deleteOwnAccount c race uid confirmation s) =
      auth_emit [ClearCookies, SecurityLog ''ACCOUNT_SELF_DELETED'' uid] (denylist_all c (live_families uid None s)
        (update_account uid (anonymise (a_now (race s))) (delete_tokens (\<lambda>r. rt_userId r = uid) (race s))))"
    using assms(1) by (auto simp: deleteOwnAccount_def Let_def split: if_splits option.splits)
  then have "gone uid (snd (deleteOwnAccount c race uid confirmation s))"
    using anonymised_gone [of "delete_tokens (\<lambda>r. rt_userId r = uid) (race s)" uid] assms(2) by simp
  then have g: "gone uid s'" using gone_run [OF assms(3)] by blast
  show ?thesis using gone_rejects [OF g assms(4)] gone_no_login [OF g] assms(4) by blast
qed

theorem deleted_account_is_dead_witness:
  "\<exists>s'. fst (deleteOwnAccount ss_c id 1 '' delete '' ss) = Inr () \<and>
     validate ss_c \<lparr>at_sub = 1, at_role = IS_CUSTOMER, at_sid = Some 20, at_iat = 1000\<rparr> ss = Inr (1, IS_CUSTOMER) \<and>
     s' = (snd (deleteOwnAccount ss_c id 1 '' delete '' ss))\<lparr>a_up := False\<rparr> \<and>
     validate ss_c \<lparr>at_sub = 1, at_role = IS_CUSTOMER, at_sid = Some 20, at_iat = 1000\<rparr> s' = Inl SessionExpired"
proof -
  let ?a = "\<lparr>at_sub = 1, at_role = IS_CUSTOMER, at_sid = Some 20, at_iat = 1000\<rparr>"
  let ?s = "snd (deleteOwnAccount ss_c id 1 '' delete '' ss)"
  have 1: "fst (deleteOwnAccount ss_c id 1 '' delete '' ss) = Inr ()" by code_simp
  have "(session_step ss_c ss)\<^sup>*\<^sup>* ?s (?s\<lparr>a_up := False\<rparr>)" by (intro r_into_rtranclp session_step.outage)
  moreover have "\<exists>a \<in> set (a_accounts (id ss)). ac_id a = 1" by (simp add: ss_defs)
  ultimately have "validate ss_c ?a (?s\<lparr>a_up := False\<rparr>) = Inl SessionExpired"
    using deleted_account_is_dead [OF 1, of ss "?s\<lparr>a_up := False\<rparr>" ?a] by simp
  moreover have "validate ss_c ?a ss = Inr (1, IS_CUSTOMER)"
    by (simp add: validate_def ss_defs isDenied_def account_of_def)
  ultimately show ?thesis using 1 by blast
qed

section \<open>Registration\<close>

text \<open>
  Registration tells whether an address has an account, although its answers are meant not to: with a
  phone number that is taken (the caller's own will do) it is refused exactly when the address has
  none. Such a probe creates no account and changes none.
\<close>

theorem taken_phone_reveals_address:
  assumes "phone \<noteq> []" and "\<exists>a \<in> set (a_accounts s). ac_phone a = Some phone"
  shows "(fst (registerAndLogin c f hours quota None email pw (Some phone) s) = Inl PhoneTaken \<longleftrightarrow>
      (\<forall>a \<in> set (a_accounts s). ac_email a \<noteq> email)) \<and>
    a_accounts (snd (registerAndLogin c f hours quota None email pw (Some phone) s)) = a_accounts s"
  using assms by (auto simp: registerAndLogin_def some_text_def list_ex_iff auth_emit_def)

definition ss_phone :: auth where
  "ss_phone = ss\<lparr>a_accounts := [ss_user, ss_user\<lparr>ac_id := 2, ac_email := ''m'', ac_phone := Some ''555''\<rparr>]\<rparr>"

theorem taken_phone_reveals_address_witness:
  "fst (registerAndLogin ss_c (ss_fresh 1) 24 True None ''a'' ''pw'' (Some ''555'') ss_phone) = Inr () \<and>
   fst (registerAndLogin ss_c (ss_fresh 1) 24 True None ''z'' ''pw'' (Some ''555'') ss_phone) = Inl PhoneTaken"
proof
  have p: "''555'' \<noteq> []" "\<exists>a \<in> set (a_accounts ss_phone). ac_phone a = Some ''555''"
    by (simp_all add: ss_phone_def)
  show "fst (registerAndLogin ss_c (ss_fresh 1) 24 True None ''a'' ''pw'' (Some ''555'') ss_phone) = Inr ()" by code_simp
  have "\<forall>a \<in> set (a_accounts ss_phone). ac_email a \<noteq> ''z''" by (simp add: ss_phone_def ss_user_def)
  then show "fst (registerAndLogin ss_c (ss_fresh 1) 24 True None ''z'' ''pw'' (Some ''555'') ss_phone) = Inl PhoneTaken"
    using taken_phone_reveals_address [OF p] by blast
qed

section \<open>Google\<close>

text \<open>C29.
  A sign-in with Google yields a token only of the account that carries the Google identity
  afterwards; when that account existed without it, it was linked by the address of the profile, and
  that address was verified.
\<close>

theorem google_login_owner:
  assumes "accounts_ok s" and "new_account i s" and "fst (handleGoogleAuth c i f g s) = Inr a"
  shows "(\<exists>u. account_of (at_sub a) (snd (handleGoogleAuth c i f g s)) = Some u \<and> ac_googleId u = Some (gp_id g)) \<and>
    (\<forall>x. account_of (at_sub a) s = Some x \<longrightarrow> ac_googleId x = Some (gp_id g) \<or> ac_email x = gp_email g \<and> ac_emailVerified x)"
proof -
  obtain u s1 where r: "google_account i g s = Inr (u, s1)"
    using assms(3) by (cases "google_account i g s") (auto simp: handleGoogleAuth_def)
  have issue: "handleGoogleAuth c i f g s = issueTokens c f calm u None None (auth_emit [SecurityLog ''LOGIN_SUCCESS'' (ac_id u)] s1)"
    using assms(3) r by (auto simp: handleGoogleAuth_def split: if_splits)
  have sub: "at_sub a = ac_id u"
    by (rule issueTokens_cases [of c f u None None "auth_emit [SecurityLog ''LOGIN_SUCCESS'' (ac_id u)] s1"])
      (use assms(3) issue in auto)
  have rows: "a_accounts (snd (handleGoogleAuth c i f g s)) = a_accounts s1" by (simp add: issue)
  show ?thesis using google_account_owner [OF assms(1,2) r] sub rows by (simp add: account_of_def)
qed

theorem google_login_owner_witness:
  "\<exists>a u. fst (handleGoogleAuth ss_c 9 (ss_fresh 1) \<lparr>gp_id = ''G'', gp_email = ''a''\<rparr> ss) = Inr a \<and> at_sub a = 1 \<and>
     account_of 1 (snd (handleGoogleAuth ss_c 9 (ss_fresh 1) \<lparr>gp_id = ''G'', gp_email = ''a''\<rparr> ss)) = Some u \<and> ac_googleId u = Some ''G''"
proof -
  let ?g = "\<lparr>gp_id = ''G'', gp_email = ''a''\<rparr>"
  let ?a = "\<lparr>at_sub = 1, at_role = IS_CUSTOMER, at_sid = Some 201, at_iat = 1000\<rparr>"
  have 1: "fst (handleGoogleAuth ss_c 9 (ss_fresh 1) ?g ss) = Inr ?a" by code_simp
  have "accounts_ok ss" "new_account 9 ss" by (simp_all add: accounts_ok_def unique_on_def new_account_def ss_defs)
  then show ?thesis using google_login_owner [OF _ _ 1] 1 by auto
qed

text \<open>
  A vendor whose application awaits approval is refused with the right password, but gets a session
  by signing in with a linked Google account.
\<close>

theorem google_admits_pending_vendor:
  assumes "find_first (\<lambda>a. ac_googleId a = Some (gp_id g)) (a_accounts s) = Some u"
    and "find_first (\<lambda>a. ac_email a = ac_email u) (a_accounts s) = Some u"
    and "ac_role u = IS_VENDOR" and "\<not> ac_deactivated u" and "ac_lockedUntil u = None"
    and "ac_password u = Some h" and "h \<noteq> []" and "k_bcrypt c pw h"
    and "find_first (\<lambda>v. v_userId v = ac_id u) (a_vendors s) = Some v" and "v_status v = VENDOR_PENDING"
    and "a_up s" and "a_logins s (hashEmail c (ac_email u)) = None" and "1 \<le> k_globalThreshold c" and "new_to c s f"
  shows "fst (loginWithCheck c f (ac_email u) pw s) = Inl VendorAwaitsApproval \<and>
    (\<exists>a. fst (handleGoogleAuth c i f g s) = Inr a \<and> at_sub a = ac_id u \<and> at_role a = IS_VENDOR)"
proof
  show "fst (loginWithCheck c f (ac_email u) pw s) = Inl VendorAwaitsApproval"
    using assms(2-13) by (simp add: loginWithCheck_def checkGlobalLoginRate_def Let_def locked_def no_password_def vendor_may_enter_def)
  have "handleGoogleAuth c i f g s = issueTokens c f calm u None None (auth_emit [SecurityLog ''LOGIN_SUCCESS'' (ac_id u)] s)"
    using assms(1,3,4,9,10) by (simp add: handleGoogleAuth_def google_account_def suspended_vendor_def)
  then show "\<exists>a. fst (handleGoogleAuth c i f g s) = Inr a \<and> at_sub a = ac_id u \<and> at_role a = IS_VENDOR"
    using issue_succeeds [of c "auth_emit [SecurityLog ''LOGIN_SUCCESS'' (ac_id u)] s" f u None None] assms(3,14)
    by (simp add: new_to_def auth_emit_def)
qed

definition ss_pending :: auth where
  "ss_pending = ss\<lparr>a_accounts := [ss_user\<lparr>ac_role := IS_VENDOR, ac_googleId := Some ''G''\<rparr>],
     a_vendors := [\<lparr>v_id = 3, v_userId = 1, v_countryId = 1, v_status = VENDOR_PENDING, v_bankDetails = False,
       v_bankDetailsChangedAt = None, v_commissionPct = None\<rparr>]\<rparr>"

theorem google_admits_pending_vendor_witness:
  "fst (loginWithCheck ss_c (ss_fresh 1) ''a'' ''pw'' ss_pending) = Inl VendorAwaitsApproval \<and>
   isInr (fst (handleGoogleAuth ss_c 9 (ss_fresh 1) \<lparr>gp_id = ''G'', gp_email = ''a''\<rparr> ss_pending))"
proof -
  let ?u = "ss_user\<lparr>ac_role := IS_VENDOR, ac_googleId := Some ''G''\<rparr>"
  let ?g = "\<lparr>gp_id = ''G'', gp_email = ''a''\<rparr>"
  let ?v = "\<lparr>v_id = 3, v_userId = 1, v_countryId = 1, v_status = VENDOR_PENDING, v_bankDetails = False,
       v_bankDetailsChangedAt = None, v_commissionPct = None\<rparr>"
  have "find_first (\<lambda>a. ac_googleId a = Some (gp_id ?g)) (a_accounts ss_pending) = Some ?u"
    "find_first (\<lambda>a. ac_email a = ac_email ?u) (a_accounts ss_pending) = Some ?u"
    "ac_role ?u = IS_VENDOR" "\<not> ac_deactivated ?u" "ac_lockedUntil ?u = None" "ac_password ?u = Some ''$pw''" "''$pw'' \<noteq> []"
    "k_bcrypt ss_c ''pw'' ''$pw''" "find_first (\<lambda>v. v_userId v = ac_id ?u) (a_vendors ss_pending) = Some ?v"
    "v_status ?v = VENDOR_PENDING" "a_up ss_pending" "a_logins ss_pending (hashEmail ss_c (ac_email ?u)) = None"
    "1 \<le> k_globalThreshold ss_c" "new_to ss_c ss_pending (ss_fresh 1)" "ac_email ?u = ''a''"
    by (simp_all add: ss_pending_def ss_defs new_to_def)
  then show ?thesis
    using google_admits_pending_vendor [of ?g ss_pending ?u "''$pw''" ss_c "''pw''" ?v "ss_fresh 1" 9]
    unfolding isInr_iff by metis
qed

end
