(* ===== verification/Reconciliation.thy ===== *)
theory Reconciliation
  imports PayoutTheorems
begin

text \<open>
  \<open>apps/api/src/common/services/reconciliation.service.ts\<close>: the daily comparison of the money received
  with the shares of vendors and platform. Its four sums are read one by one, each from the database of
  that moment. Log lines are left out.
\<close>

record recon_log =
  rl_runDate :: ms
  rl_totalPayments :: num
  rl_vendorEarnings :: num
  rl_platformFees :: num
  rl_totalRefunded :: num
  rl_drift :: num
  rl_passed :: bool

record recon_result = recon_log +
  rr_unreconciledHeld :: num
  rr_unreconciledCount :: nat

datatype recon_event = DriftNotice ms num | DriftAudit ms recon_log

definition DRIFT_TOLERANCE :: num where
  "DRIFT_TOLERANCE = 1 / 100"

text \<open>\<open>decimalToNumber\<close> and \<open>round2\<close>: the sum of no rows is null.\<close>

definition decimalToNumber :: "num \<Rightarrow> num" where
  "decimalToNumber x = cents x"

definition with_status :: "payment_status \<Rightarrow> payment \<Rightarrow> bool" where
  "with_status st p \<longleftrightarrow> p_status p = st"

definition paid_booking :: "db \<Rightarrow> booking \<Rightarrow> bool" where
  "paid_booking d b \<longleftrightarrow> (case b_paymentId b of None \<Rightarrow> False
     | Some pid \<Rightarrow> list_ex (\<lambda>p. p_id p = pid \<and> p_status p = SUCCESS) (payments d))"

definition unreconciled :: "payment \<Rightarrow> bool" where
  "unreconciled p \<longleftrightarrow> p_status p = REFUND_PENDING \<or> p_status p = REJECTED"

definition run_date :: "ms \<Rightarrow> ms" where
  "run_date now = midnight (utc_date now)"

definition reconcile :: "ms \<Rightarrow> db \<Rightarrow> db \<Rightarrow> db \<Rightarrow> db \<Rightarrow> recon_result" where
  "reconcile now d1 d2 d3 d4 =
     (let totalPayments = decimalToNumber (sum_rows p_amount (with_status SUCCESS) (payments d1));
          totalPriceSum = decimalToNumber (sum_rows b_totalPrice (paid_booking d2) (bookings d2));
          platformFees = decimalToNumber (sum_rows b_commissionAmount (paid_booking d2) (bookings d2));
          vendorEarnings = cents (totalPriceSum - platformFees);
          totalRefunded = decimalToNumber (sum_rows (\<lambda>p. or_default 0 (p_refundAmount p)) (with_status REFUNDED) (payments d3));
          drift = cents (totalPayments - (vendorEarnings + platformFees))
      in \<lparr>rl_runDate = run_date now, rl_totalPayments = totalPayments, rl_vendorEarnings = vendorEarnings,
          rl_platformFees = platformFees, rl_totalRefunded = totalRefunded, rl_drift = drift,
          rl_passed = (\<bar>drift\<bar> \<le> DRIFT_TOLERANCE),
          rr_unreconciledHeld = decimalToNumber (sum_rows p_amount unreconciled (payments d4)),
          rr_unreconciledCount = count_rows unreconciled (payments d4)\<rparr>)"

definition upsert_log :: "recon_log \<Rightarrow> recon_log list \<Rightarrow> recon_log list" where
  "upsert_log l logs = (if list_ex (\<lambda>x. rl_runDate x = rl_runDate l) logs
     then update_many (\<lambda>x. rl_runDate x = rl_runDate l) (\<lambda>_. l) logs else logs @ [l])"

definition fireAdminAlert :: "recon_log \<Rightarrow> recon_event list" where
  "fireAdminAlert l = [DriftNotice (rl_runDate l) (rl_drift l), DriftAudit (rl_runDate l) l]"

text \<open>The result, the rows of \<open>reconciliation_logs\<close> and what the administrators are told.\<close>

definition runReconciliation ::
  "ms \<Rightarrow> db \<Rightarrow> db \<Rightarrow> db \<Rightarrow> db \<Rightarrow> recon_log list \<Rightarrow> recon_result \<times> recon_log list \<times> recon_event list" where
  "runReconciliation now d1 d2 d3 d4 logs =
     (let r = reconcile now d1 d2 d3 d4; l = recon_log.truncate r
      in (r, upsert_log l logs, if rl_passed r then [] else fireAdminAlert l))"

definition handleDailyReconciliation ::
  "ms \<Rightarrow> uid \<Rightarrow> db \<Rightarrow> redis \<times> recon_log list \<times> recon_event list \<Rightarrow>
   (exn + recon_result option) \<times> redis \<times> recon_log list \<times> recon_event list" where
  "handleDailyReconciliation now token d s =
     withLeaderLock (CronLock ''cron:daily-reconciliation'') (10 * minute_ms) token
       (\<lambda>(r, logs, told). case runReconciliation now d d d d logs of (res, logs', fx) \<Rightarrow> (Inr res, r, logs', told @ fx)) s"

section \<open>What the drift is\<close>

text \<open>Every captured payment has one booking, and what was charged is price and fee less the points.\<close>

definition books_ok :: "db \<Rightarrow> bool" where
  "books_ok d \<longleftrightarrow> unique_on p_id (payments d) \<and> distinct (map b_paymentId (filter (paid_booking d) (bookings d))) \<and>
     (\<forall>p \<in> set (payments d). p_status p = SUCCESS \<longrightarrow> (\<exists>b \<in> set (bookings d). b_paymentId b = Some (p_id p))) \<and>
     (\<forall>p \<in> set (payments d). \<forall>b \<in> set (bookings d). p_status p = SUCCESS \<longrightarrow> b_paymentId b = Some (p_id p) \<longrightarrow>
        p_amount p + b_pointsDiscount b = b_totalPrice b + b_serviceFee b) \<and>
     (\<forall>p \<in> set (payments d). two_dp (p_amount p)) \<and>
     (\<forall>b \<in> set (bookings d). two_dp (b_totalPrice b) \<and> two_dp (b_commissionAmount b))"

lemma two_dp_sum_list: "(\<And>x. x \<in> set xs \<Longrightarrow> two_dp (f x)) \<Longrightarrow> two_dp (sum_list (map f xs))"
  by (induction xs) (auto intro: two_dp_add)

lemma sum_by_key:
  fixes f :: "'a \<Rightarrow> num" and g :: "'b \<Rightarrow> num"
  assumes "distinct (map k xs)" "distinct (map l ys)" "k ` set xs = l ` set ys"
    and "\<And>x y. x \<in> set xs \<Longrightarrow> y \<in> set ys \<Longrightarrow> k x = l y \<Longrightarrow> f x = g y"
  shows "sum_list (map f xs) = sum_list (map g ys)"
proof -
  have "sum_list (map f xs) = sum f (set xs)" "sum_list (map g ys) = sum g (set ys)"
    using assms(1,2) by (auto simp: sum_list_distinct_conv_sum_set distinct_map)
  moreover have "sum f (set xs) = sum g (set ys)"
  proof (rule sum.reindex_bij_witness [where j = "\<lambda>x. the_inv_into (set ys) l (k x)" and i = "\<lambda>y. the_inv_into (set xs) k (l y)"])
    have inj: "inj_on k (set xs)" "inj_on l (set ys)" using assms(1,2) by (simp_all add: distinct_map)
    fix x assume x: "x \<in> set xs"
    then have kx: "k x \<in> l ` set ys" using assms(3) by blast
    then show y: "the_inv_into (set ys) l (k x) \<in> set ys" by (rule the_inv_into_into [OF inj(2)]) simp
    have e: "l (the_inv_into (set ys) l (k x)) = k x" by (rule f_the_inv_into_f [OF inj(2) kx])
    then show "the_inv_into (set xs) k (l (the_inv_into (set ys) l (k x))) = x" using the_inv_into_f_f [OF inj(1) x] by simp
    show "g (the_inv_into (set ys) l (k x)) = f x" using assms(4) [OF x y] e by simp
  next
    have inj: "inj_on k (set xs)" "inj_on l (set ys)" using assms(1,2) by (simp_all add: distinct_map)
    fix y assume y: "y \<in> set ys"
    then have ly: "l y \<in> k ` set xs" using assms(3) by blast
    then show x: "the_inv_into (set xs) k (l y) \<in> set xs" by (rule the_inv_into_into [OF inj(1)]) simp
    have "k (the_inv_into (set xs) k (l y)) = l y" by (rule f_the_inv_into_f [OF inj(1) ly])
    then show "the_inv_into (set ys) l (k (the_inv_into (set xs) k (l y))) = y" using the_inv_into_f_f [OF inj(2) y] by simp
  qed
  ultimately show ?thesis by simp
qed

lemma received_is_charged:
  assumes "books_ok d"
  shows "sum_rows p_amount (with_status SUCCESS) (payments d) =
    sum_rows (\<lambda>b. b_totalPrice b + b_serviceFee b - b_pointsDiscount b) (paid_booking d) (bookings d)"
  unfolding sum_rows_def
proof (rule sum_by_key [where k = "\<lambda>p. Some (p_id p)" and l = b_paymentId])
  let ?P = "filter (with_status SUCCESS) (payments d)" and ?B = "filter (paid_booking d) (bookings d)"
  have u: "unique_on p_id (payments d)" using assms by (simp add: books_ok_def)
  then have "distinct (map p_id ?P)" by (simp add: unique_on_def distinct_map_filter)
  then have "distinct (map Some (map p_id ?P))" unfolding distinct_map by simp
  then show "distinct (map (\<lambda>p. Some (p_id p)) ?P)" by (simp add: comp_def)
  show "distinct (map b_paymentId ?B)" using assms by (simp add: books_ok_def)
  show "(\<lambda>p. Some (p_id p)) ` set ?P = b_paymentId ` set ?B"
  proof (intro subset_antisym subsetI)
    fix x assume "x \<in> (\<lambda>p. Some (p_id p)) ` set ?P"
    then obtain p where p: "p \<in> set (payments d)" "p_status p = SUCCESS" "x = Some (p_id p)" by (auto simp: with_status_def)
    then obtain b where b: "b \<in> set (bookings d)" "b_paymentId b = Some (p_id p)" using assms unfolding books_ok_def by blast
    then have "paid_booking d b" using p by (auto simp: paid_booking_def list_ex_iff)
    then show "x \<in> b_paymentId ` set ?B" using b p(3) by (intro rev_image_eqI [of b]) simp_all
  next
    fix x assume "x \<in> b_paymentId ` set ?B"
    then obtain b where b: "paid_booking d b" "x = b_paymentId b" by auto
    then obtain p where "p \<in> set (payments d)" "p_status p = SUCCESS" "x = Some (p_id p)"
      by (auto simp: paid_booking_def list_ex_iff split: option.splits)
    then show "x \<in> (\<lambda>p. Some (p_id p)) ` set ?P" by (intro rev_image_eqI [of p]) (simp_all add: with_status_def)
  qed
  fix p b assume "p \<in> set ?P" "b \<in> set ?B" "Some (p_id p) = b_paymentId b"
  then have "p_amount p + b_pointsDiscount b = b_totalPrice b + b_serviceFee b"
    using assms unfolding books_ok_def with_status_def by (auto dest: sym)
  then show "p_amount p = b_totalPrice b + b_serviceFee b - b_pointsDiscount b" by simp
qed

lemma drift_of:
  assumes "books_ok d"
  shows "rl_drift (reconcile now d d d' d'') = sum_rows (\<lambda>b. b_serviceFee b - b_pointsDiscount b) (paid_booking d) (bookings d)"
proof -
  let ?sum = "\<lambda>f. sum_rows f (paid_booking d) (bookings d)"
  let ?paid = "sum_rows p_amount (with_status SUCCESS) (payments d)"
  have dp: "two_dp ?paid" "two_dp (?sum b_totalPrice)" "two_dp (?sum b_commissionAmount)"
    using assms unfolding books_ok_def sum_rows_def by (auto intro!: two_dp_sum_list)
  have split: "?paid = ?sum b_totalPrice + ?sum (\<lambda>b. b_serviceFee b - b_pointsDiscount b)"
    unfolding received_is_charged [OF assms] unfolding sum_rows_def by (simp add: sum_list_addf [symmetric] algebra_simps)
  have "rl_drift (reconcile now d d d' d'') = ?paid - ?sum b_totalPrice"
    using dp by (simp add: reconcile_def Let_def decimalToNumber_def cents_id two_dp_diff)
  then show ?thesis using split by simp
qed

text \<open>C35.
  Over books as \<open>createBooking\<close> keeps them (every captured payment has one booking, and was charged
  price and fee less the points discount) the daily reconciliation does not come out even: its drift is
  the sum of the service fees less the points discounts of the paid bookings, and it raises the alarm
  whenever that sum exceeds a hundredth.
\<close>

theorem reconciliation_drift_is_fees:
  assumes "books_ok d"
  shows "rl_drift (fst (runReconciliation now d d d' d'' logs)) =
      sum_rows (\<lambda>b. b_serviceFee b - b_pointsDiscount b) (paid_booking d) (bookings d) \<and>
    (snd (snd (runReconciliation now d d d' d'' logs)) = [] \<longleftrightarrow>
      \<bar>sum_rows (\<lambda>b. b_serviceFee b - b_pointsDiscount b) (paid_booking d) (bookings d)\<bar> \<le> 1 / 100)"
proof -
  have "rl_passed (reconcile now d d d' d'') \<longleftrightarrow> \<bar>rl_drift (reconcile now d d d' d'')\<bar> \<le> 1 / 100"
    by (simp add: reconcile_def Let_def DRIFT_TOLERANCE_def)
  then show ?thesis using drift_of [OF assms] by (simp add: runReconciliation_def Let_def fireAdminAlert_def)
qed

theorem reconciliation_drift_is_fees_witness:
  "rl_drift (fst (runReconciliation sc_now sc_db_done sc_db_done sc_db_done sc_db_done [])) = -15 \<and>
   snd (snd (runReconciliation sc_now sc_db_done sc_db_done sc_db_done sc_db_done [])) \<noteq> []"
proof -
  have f: "b_paymentId sc_done = Some 101" "p_id sc_earned = 101" "p_status sc_earned = SUCCESS" "p_amount sc_earned = 111"
    "b_totalPrice sc_done = 126" "b_serviceFee sc_done = 5" "b_pointsDiscount sc_done = 20" "b_commissionAmount sc_done = 126 / 10"
    "bookings sc_db_done = [sc_done]" "payments sc_db_done = [sc_earned]"
    by code_simp+
  have "two_dp 111" "two_dp 126" "two_dp (126 / 10)"
    unfolding two_dp_def by (rule exI [of _ 11100], simp, rule exI [of _ 12600], simp, rule exI [of _ 1260], simp)
  then have "books_ok sc_db_done" by (simp add: books_ok_def f unique_on_def)
  moreover have "sum_rows (\<lambda>b. b_serviceFee b - b_pointsDiscount b) (paid_booking sc_db_done) (bookings sc_db_done) = -15"
    by (simp add: f paid_booking_def)
  ultimately show ?thesis
    using reconciliation_drift_is_fees [of sc_db_done sc_now sc_db_done sc_db_done "[]"] by simp
qed

text \<open>One row per day, rewritten when the job runs again.\<close>

lemma one_row_per_day:
  assumes "unique_on rl_runDate logs"
  shows "unique_on rl_runDate (fst (snd (runReconciliation now d1 d2 d3 d4 logs))) \<and>
    find_first (\<lambda>l. rl_runDate l = run_date now) (fst (snd (runReconciliation now d1 d2 d3 d4 logs))) =
      Some (recon_log.truncate (fst (runReconciliation now d1 d2 d3 d4 logs)))"
proof -
  let ?l = "recon_log.truncate (reconcile now d1 d2 d3 d4)"
  have date: "rl_runDate ?l = run_date now" by (simp add: reconcile_def Let_def recon_log.truncate_def)
  have u: "unique_on rl_runDate (upsert_log ?l logs)"
  proof (cases "list_ex (\<lambda>x. rl_runDate x = rl_runDate ?l) logs")
    case True
    have "unique_on rl_runDate (update_many (\<lambda>x. rl_runDate x = rl_runDate ?l) (\<lambda>_. ?l) logs)"
      by (rule update_many_unique [THEN iffD2, OF _ assms]) simp
    then show ?thesis using True by (simp add: upsert_log_def)
  next
    case False
    then show ?thesis using assms by (auto simp: upsert_log_def unique_on_append list_ex_iff)
  qed
  have "?l \<in> set (upsert_log ?l logs)"
    by (auto simp: upsert_log_def list_ex_iff update_many_mem)
  then have "find_first (\<lambda>l. rl_runDate l = rl_runDate ?l) (upsert_log ?l logs) = Some ?l"
    using find_first_key [OF u] by blast
  then show ?thesis using u by (simp add: runReconciliation_def Let_def date)
qed

end
