(* ===== verification/Interactions.thy ===== *)
theory Interactions
  imports PayoutTheorems
begin

text \<open>
  Likes and reviews: \<open>apps/api/src/catalog/customer-interaction.controller.ts\<close>, the vendor's replies
  (\<open>vendor.service.ts\<close>) and the moderation by admins (\<open>admin.service.ts\<close>). The read-only listings are
  left out. \<open>race\<close> is what other requests commit between the reads of a request and its write, where
  the unique indexes of the two tables and the foreign key decide.
\<close>

section \<open>State\<close>

record like =
  lk_id :: uid
  lk_activityId :: uid
  lk_userId :: uid
  lk_createdAt :: ms

record review =
  rv_id :: uid
  rv_activityId :: uid
  rv_customerId :: uid
  rv_rating :: int
  rv_vendorReply :: "string option"
  rv_createdAt :: ms

text \<open>\<open>in_deletedAt\<close> is the column of that name of the activities; \<open>in_told\<close> the vendors' notices with the rating.\<close>

record interactions =
  in_db :: db
  in_deletedAt :: "uid \<Rightarrow> ms option"
  in_likes :: "like list"
  in_reviews :: "review list"
  in_told :: "(uid \<times> int) list"

datatype interaction_error =
  CustomersOnly | NoSuchActivity | NotBooked | AlreadyReviewed | RatingInvalid | RowConflict | RowGone
| NoSuchReview | VendorRefused exn

type_synonym in_race = "interactions \<Rightarrow> interactions"

section \<open>Likes\<close>

text \<open>\<open>activity.findFirst\<close> with \<open>deletedAt: null\<close>, and the status check that follows it.\<close>

definition open_activity :: "uid \<Rightarrow> interactions \<Rightarrow> activity option" where
  "open_activity aid s =
     (case find_first (\<lambda>a. a_id a = aid \<and> in_deletedAt s aid = None) (activities (in_db s)) of
        None \<Rightarrow> None
      | Some a \<Rightarrow> if a_status a = ACT_ACTIVE then Some a else None)"

definition like_of :: "uid \<Rightarrow> uid \<Rightarrow> like \<Rightarrow> bool" where
  "like_of aid user l \<longleftrightarrow> lk_activityId l = aid \<and> lk_userId l = user"

definition activity_exists :: "uid \<Rightarrow> interactions \<Rightarrow> bool" where
  "activity_exists aid s \<longleftrightarrow> list_ex (\<lambda>a. a_id a = aid) (activities (in_db s))"

definition toggleLike ::
  "in_race \<Rightarrow> uid \<Rightarrow> ms \<Rightarrow> actor \<Rightarrow> uid \<Rightarrow> uid \<Rightarrow> interactions \<Rightarrow> (interaction_error + bool) \<times> interactions" where
  "toggleLike race i now role user aid s =
     (if role \<noteq> CUSTOMER then (Inl CustomersOnly, s)
      else if open_activity aid s = None then (Inl NoSuchActivity, s)
      else
        let s1 = race s in
        case find_first (like_of aid user) (in_likes s) of
          Some l \<Rightarrow>
            if list_ex (\<lambda>x. lk_id x = lk_id l) (in_likes s1)
            then (Inr False, s1\<lparr>in_likes := delete_many (\<lambda>x. lk_id x = lk_id l) (in_likes s1)\<rparr>)
            else (Inl RowGone, s1)
        | None \<Rightarrow>
            if list_ex (like_of aid user) (in_likes s1) \<or> \<not> activity_exists aid s1 then (Inl RowConflict, s1)
            else (Inr True, s1\<lparr>in_likes := in_likes s1 @
                    [\<lparr>lk_id = i, lk_activityId = aid, lk_userId = user, lk_createdAt = now\<rparr>]\<rparr>))"

definition getLikeStatus :: "uid \<Rightarrow> uid \<Rightarrow> interactions \<Rightarrow> nat \<times> bool" where
  "getLikeStatus user aid s =
     (count_rows (\<lambda>l. lk_activityId l = aid) (in_likes s), list_ex (like_of aid user) (in_likes s))"

definition getMyLikes :: "uid \<Rightarrow> interactions \<Rightarrow> uid list" where
  "getMyLikes user s = map lk_activityId (sort_key (\<lambda>l. - lk_createdAt l) (find_many (\<lambda>l. lk_userId l = user) (in_likes s)))"

section \<open>Reviews\<close>

text \<open>\<open>CreateReviewDto\<close>: an integer from 1 to 5.\<close>

definition rating_valid :: "int \<Rightarrow> bool" where
  "rating_valid r \<longleftrightarrow> 1 \<le> r \<and> r \<le> 5"

definition may_review :: "uid \<Rightarrow> uid \<Rightarrow> booking \<Rightarrow> bool" where
  "may_review user aid b \<longleftrightarrow> b_customerId b = user \<and> b_activityId b = aid \<and>
     (b_status b = CONFIRMED \<or> b_status b = COMPLETED)"

definition review_of :: "uid \<Rightarrow> uid \<Rightarrow> review \<Rightarrow> bool" where
  "review_of aid user r \<longleftrightarrow> rv_activityId r = aid \<and> rv_customerId r = user"

definition activity_vendor_user :: "uid \<Rightarrow> db \<Rightarrow> uid option" where
  "activity_vendor_user aid d =
     (case find_first (\<lambda>a. a_id a = aid) (activities d) of None \<Rightarrow> None | Some a \<Rightarrow> vendor_user d (a_vendorId a))"

definition createReview ::
  "in_race \<Rightarrow> uid \<Rightarrow> ms \<Rightarrow> actor \<Rightarrow> uid \<Rightarrow> uid \<Rightarrow> int \<Rightarrow> interactions \<Rightarrow> (interaction_error + review) \<times> interactions" where
  "createReview race i now role user aid rating s =
     (if \<not> rating_valid rating then (Inl RatingInvalid, s)
      else if role \<noteq> CUSTOMER then (Inl CustomersOnly, s)
      else if open_activity aid s = None then (Inl NoSuchActivity, s)
      else if \<not> list_ex (may_review user aid) (bookings (in_db s)) then (Inl NotBooked, s)
      else if list_ex (review_of aid user) (in_reviews s) then (Inl AlreadyReviewed, s)
      else
        let s1 = race s;
            r = \<lparr>rv_id = i, rv_activityId = aid, rv_customerId = user, rv_rating = rating, rv_vendorReply = None, rv_createdAt = now\<rparr>
        in if list_ex (review_of aid user) (in_reviews s1) then (Inl AlreadyReviewed, s1)
           else if \<not> activity_exists aid s1 then (Inl RowConflict, s1)
           else
             let s2 = s1\<lparr>in_reviews := in_reviews s1 @ [r]\<rparr> in
             (Inr r, case activity_vendor_user aid (in_db s1) of
                       Some v \<Rightarrow> s2\<lparr>in_told := in_told s2 @ [(v, rating)]\<rparr> | None \<Rightarrow> s2))"

definition of_vendor :: "db \<Rightarrow> uid \<Rightarrow> review \<Rightarrow> bool" where
  "of_vendor d vid r \<longleftrightarrow> list_ex (\<lambda>a. a_id a = rv_activityId r \<and> a_vendorId a = vid) (activities d)"

definition replyToReview ::
  "in_race \<Rightarrow> uid \<Rightarrow> uid \<Rightarrow> string \<Rightarrow> interactions \<Rightarrow> (interaction_error + unit) \<times> interactions" where
  "replyToReview race user reviewId reply s =
     (case resolveVendor (in_db s) user of
        Inl ex \<Rightarrow> (Inl (VendorRefused ex), s)
      | Inr v \<Rightarrow>
          if find_first (\<lambda>r. rv_id r = reviewId \<and> of_vendor (in_db s) (v_id v) r) (in_reviews s) = None
          then (Inl NoSuchReview, s)
          else
            let s1 = race s in
            if list_ex (\<lambda>r. rv_id r = reviewId) (in_reviews s1)
            then (Inr (), s1\<lparr>in_reviews := update_many (\<lambda>r. rv_id r = reviewId) (\<lambda>r. r\<lparr>rv_vendorReply := Some reply\<rparr>) (in_reviews s1)\<rparr>)
            else (Inl RowGone, s1))"

definition deleteReview :: "uid \<Rightarrow> interactions \<Rightarrow> (interaction_error + unit) \<times> interactions" where
  "deleteReview reviewId s =
     (if list_ex (\<lambda>r. rv_id r = reviewId) (in_reviews s)
      then (Inr (), s\<lparr>in_reviews := delete_many (\<lambda>r. rv_id r = reviewId) (in_reviews s)\<rparr>)
      else (Inl RowGone, s))"

section \<open>What the tables hold\<close>

text \<open>One like and one review per customer and activity, as the unique indexes say, ratings within the scale.\<close>

definition interactions_ok :: "interactions \<Rightarrow> bool" where
  "interactions_ok s \<longleftrightarrow>
     unique_on lk_id (in_likes s) \<and> unique_on (\<lambda>l. (lk_activityId l, lk_userId l)) (in_likes s) \<and>
     unique_on (\<lambda>r. (rv_activityId r, rv_customerId r)) (in_reviews s) \<and>
     (\<forall>r \<in> set (in_reviews s). rating_valid (rv_rating r))"

lemma interactions_ok_told [simp]: "interactions_ok (s\<lparr>in_told := x\<rparr>) = interactions_ok s"
  by (simp add: interactions_ok_def)

lemma interactions_okD:
  assumes "interactions_ok s"
  shows "unique_on lk_id (in_likes s)" "unique_on (\<lambda>l. (lk_activityId l, lk_userId l)) (in_likes s)"
    "unique_on (\<lambda>r. (rv_activityId r, rv_customerId r)) (in_reviews s)"
    "r \<in> set (in_reviews s) \<Longrightarrow> rating_valid (rv_rating r)"
  using assms by (auto simp: interactions_ok_def)

text \<open>The requests of one table each, next to bookings, activities and vendors that change at will.\<close>

inductive interaction_step :: "interactions \<Rightarrow> interactions \<Rightarrow> bool" where
  like: "\<forall>l \<in> set (in_likes s). lk_id l \<noteq> i \<Longrightarrow> interaction_step s (snd (toggleLike id i now role user aid s))"
| review: "interaction_step s (snd (createReview id i now role user aid rating s))"
| reply: "interaction_step s (snd (replyToReview id user reviewId reply s))"
| moderate: "interaction_step s (snd (deleteReview reviewId s))"
| others: "interaction_step s (s\<lparr>in_db := d, in_deletedAt := del\<rparr>)"

lemma count_pair_le_1:
  assumes "unique_on k t" and "\<And>x y. p x \<Longrightarrow> p y \<Longrightarrow> k x = k y"
  shows "count_rows p t \<le> 1"
  using assms(1)
proof (induction t)
  case (Cons x t)
  have "\<not> p y" if "p x" "y \<in> set t" for y
    using Cons.prems assms(2) [of x y] that by (auto simp: unique_on_def)
  then have "p x \<Longrightarrow> count_rows p t = 0" by (simp add: count_rows_0)
  then show ?case using Cons by (auto simp: count_rows_def unique_on_def)
qed (simp add: count_rows_def)

lemma count_rows_delete:
  assumes "unique_on k t" and "x \<in> set t" and "p x"
  shows "count_rows p (delete_many (\<lambda>y. k y = k x) t) = count_rows p t - 1"
  using assms
proof (induction t)
  case (Cons y t)
  show ?case
  proof (cases "y = x")
    case True
    then have "k x \<notin> k ` set t" using Cons.prems(1) by (simp add: unique_on_def)
    then have "\<forall>z \<in> set t. k z \<noteq> k x" by (metis image_eqI)
    then have "delete_many (\<lambda>y. k y = k x) t = t" by (simp add: delete_many_def)
    then show ?thesis using True Cons.prems(3) by (simp add: count_rows_def delete_many_def)
  next
    case False
    then have x: "x \<in> set t" "k y \<noteq> k x" using Cons.prems by (auto simp: unique_on_def)
    then have "0 < count_rows p t" using Cons.prems(3) by (auto simp: count_rows_pos)
    moreover have "count_rows p (delete_many (\<lambda>y. k y = k x) t) = count_rows p t - 1"
      using Cons.IH Cons.prems x by (simp add: unique_on_def)
    ultimately show ?thesis using x(2) by (auto simp: count_rows_def delete_many_def)
  qed
qed simp

lemma toggleLike_keeps:
  assumes "interactions_ok (race s)" and "\<forall>l \<in> set (in_likes (race s)). lk_id l \<noteq> i" and "interactions_ok s"
  shows "interactions_ok (snd (toggleLike race i now role user aid s))"
proof -
  note ok = interactions_okD [OF assms(1)]
  have "interactions_ok (race s\<lparr>in_likes := delete_many (\<lambda>x. lk_id x = lk_id l) (in_likes (race s))\<rparr>)" for l
    using ok by (simp add: interactions_ok_def delete_many_unique)
  moreover have "interactions_ok (race s\<lparr>in_likes := in_likes (race s) @
        [\<lparr>lk_id = i, lk_activityId = aid, lk_userId = user, lk_createdAt = now\<rparr>]\<rparr>)"
    if "\<not> list_ex (like_of aid user) (in_likes (race s))"
    using ok that assms(2) by (auto simp: interactions_ok_def unique_on_append list_ex_iff like_of_def)
  ultimately show ?thesis
    using assms(1,3) by (cases "find_first (like_of aid user) (in_likes s)") (auto simp: toggleLike_def Let_def)
qed

lemma createReview_keeps:
  assumes "interactions_ok (race s)" and "interactions_ok s"
  shows "interactions_ok (snd (createReview race i now role user aid rating s))"
proof -
  note ok = interactions_okD [OF assms(1)]
  have "interactions_ok (race s\<lparr>in_reviews := in_reviews (race s) @ [\<lparr>rv_id = i, rv_activityId = aid, rv_customerId = user,
        rv_rating = rating, rv_vendorReply = None, rv_createdAt = now\<rparr>]\<rparr>)"
    if "rating_valid rating" "\<not> list_ex (review_of aid user) (in_reviews (race s))"
    using ok that by (auto simp: interactions_ok_def unique_on_append list_ex_iff review_of_def)
  then show ?thesis
    using assms by (simp add: createReview_def Let_def split: option.split)
qed

lemma reply_keeps:
  assumes "interactions_ok s" and "interactions_ok (race s)"
  shows "interactions_ok (snd (replyToReview race user reviewId reply s))"
proof -
  note ok = interactions_okD [OF assms(2)]
  have "interactions_ok (race s\<lparr>in_reviews := update_many p (\<lambda>r. r\<lparr>rv_vendorReply := v\<rparr>) (in_reviews (race s))\<rparr>)" for p v
    using ok by (auto simp: interactions_ok_def update_many_unique update_many_mem)
  then show ?thesis using assms by (simp add: replyToReview_def Let_def split: sum.split)
qed

lemma deleteReview_keeps: "interactions_ok s \<Longrightarrow> interactions_ok (snd (deleteReview reviewId s))"
  by (auto simp: deleteReview_def interactions_ok_def delete_many_unique delete_many_mem)

lemma interactions_step_keeps: "interaction_step s s' \<Longrightarrow> interactions_ok s \<Longrightarrow> interactions_ok s'"
proof (induction rule: interaction_step.induct)
  case (others s d del)
  then show ?case by (simp add: interactions_ok_def)
qed (simp_all add: toggleLike_keeps createReview_keeps reply_keeps deleteReview_keeps)

lemma interactions_run_keeps: "interaction_step\<^sup>*\<^sup>* s s' \<Longrightarrow> interactions_ok s \<Longrightarrow> interactions_ok s'"
  by (induction rule: rtranclp_induct) (auto intro: interactions_step_keeps)

section \<open>Likes\<close>

text \<open>Undisturbed, a toggle flips the user's like and moves the count of the activity by one.\<close>

lemma toggle_flips:
  assumes "interactions_ok s" and "fst (toggleLike id i now role user aid s) = Inr liked"
    and "getLikeStatus user aid s = (n, b)"
  shows "liked = (\<not> b) \<and>
    getLikeStatus user aid (snd (toggleLike id i now role user aid s)) = (if b then n - 1 else n + 1, \<not> b)"
proof (cases "find_first (like_of aid user) (in_likes s)")
  case None
  then have "\<not> list_ex (like_of aid user) (in_likes s)" by (simp add: find_first_None list_ex_iff)
  then show ?thesis
    using assms(2,3) None by (auto simp: toggleLike_def getLikeStatus_def count_rows_def like_of_def split: if_splits)
next
  case (Some l)
  then have l: "l \<in> set (in_likes s)" "like_of aid user l" using find_first_Some by fast+
  note ok = interactions_okD [OF assms(1)]
  let ?rest = "delete_many (\<lambda>x. lk_id x = lk_id l) (in_likes s)"
  have "\<not> like_of aid user x" if x: "x \<in> set ?rest" for x
  proof
    assume "like_of aid user x"
    then have "x = l" using unique_onD [OF ok(2), of x l] l x by (auto simp: delete_many_mem like_of_def)
    then show False using x by (simp add: delete_many_mem)
  qed
  then have "\<not> list_ex (like_of aid user) ?rest" by (auto simp: list_ex_iff)
  moreover have "count_rows (\<lambda>l. lk_activityId l = aid) ?rest = count_rows (\<lambda>l. lk_activityId l = aid) (in_likes s) - 1"
    by (rule count_rows_delete [OF ok(1) l(1)]) (use l(2) in \<open>simp add: like_of_def\<close>)
  moreover have "list_ex (like_of aid user) (in_likes s)" "list_ex (\<lambda>x. lk_id x = lk_id l) (in_likes s)"
    using l by (auto simp: list_ex_iff)
  ultimately show ?thesis using assms(2,3) Some by (auto simp: toggleLike_def getLikeStatus_def split: if_splits)
qed

section \<open>Reviews\<close>

text \<open>C36.
  A review is accepted only from a customer with a confirmed or completed booking of the activity, and
  is the only one of that customer for it: when two submissions race, the unique index lets one of
  them in, and as long as a review stands, over every later sequence of requests, no second one is
  accepted.
\<close>

theorem review_single_and_earned:
  assumes "interactions_ok s" and "interactions_ok (race s)"
    and "fst (createReview race i now role user aid rating s) = Inr r"
    and "interaction_step\<^sup>*\<^sup>* (snd (createReview race i now role user aid rating s)) s'"
  shows "list_ex (may_review user aid) (bookings (in_db s)) \<and> rating_valid rating \<and>
    count_rows (review_of aid user) (in_reviews s') \<le> 1 \<and>
    (list_ex (review_of aid user) (in_reviews s') \<longrightarrow>
      \<not> isInr (fst (createReview race' i' now' role user aid rating' s')))"
proof -
  have "list_ex (may_review user aid) (bookings (in_db s))" "rating_valid rating"
    using assms(3) by (auto simp: createReview_def split: if_splits)
  moreover have "interactions_ok s'"
    by (rule interactions_run_keeps [OF assms(4) createReview_keeps]) (rule assms(2) assms(1))+
  then have "count_rows (review_of aid user) (in_reviews s') \<le> 1"
    by (intro count_pair_le_1 [OF interactions_okD(3)]) (auto simp: review_of_def)
  ultimately show ?thesis by (auto simp: createReview_def)
qed

text \<open>The customer of a confirmed booking reviews the activity nine days before the visit; a second review is refused.\<close>

definition sc_social :: interactions where
  "sc_social = \<lparr>in_db = sc_db_done, in_deletedAt = (\<lambda>_. None), in_likes = [], in_reviews = [], in_told = []\<rparr>"

theorem review_single_and_earned_witness:
  "\<exists>r. fst (createReview id 1 sc_now CUSTOMER 7 10 5 sc_social) = Inr r \<and> sc_now < b_start sc_done \<and>
     \<not> isInr (fst (createReview id 2 sc_now CUSTOMER 7 10 1 (snd (createReview id 1 sc_now CUSTOMER 7 10 5 sc_social))))"
proof -
  let ?r = "\<lparr>rv_id = 1, rv_activityId = 10, rv_customerId = 7, rv_rating = 5, rv_vendorReply = None, rv_createdAt = sc_now\<rparr>"
  have "fst (createReview id 1 sc_now CUSTOMER 7 10 5 sc_social) = Inr ?r" by code_simp
  moreover have "list_ex (review_of 10 7) (in_reviews (snd (createReview id 1 sc_now CUSTOMER 7 10 5 sc_social)))" by code_simp
  moreover have "interactions_ok sc_social" by (simp add: interactions_ok_def sc_social_def unique_on_def)
  ultimately have "\<not> isInr (fst (createReview id 2 sc_now CUSTOMER 7 10 1 (snd (createReview id 1 sc_now CUSTOMER 7 10 5 sc_social))))"
    using review_single_and_earned [of sc_social id 1 sc_now CUSTOMER 7 10 5 ?r] by simp
  moreover have "sc_now < b_start sc_done" by code_simp
  ultimately show ?thesis using \<open>fst _ = Inr ?r\<close> by blast
qed

end
