(* ===== verification/Unsubscribe.thy ===== *)
theory Unsubscribe
  imports Quota Sessions
begin

text \<open>
  How an address leaves the mailing: \<open>EmailUnsubscribeTokenService\<close>, the one-click endpoint
  (\<open>email-unsubscribe.controller.ts\<close>) and the webhook of the mail provider (\<open>resend-events.controller.ts\<close>),
  on the suppression list of \<open>Quota\<close>. The keyed hash under the server's secret, SHA-256 and the check of
  the webhook's signature (svix) are parameters; strings are sequences of UTF-8 bytes, user
  ids are rendered in decimal, and the lifetime of a token is a whole number of seconds. The pages, log
  lines and rate limits are left out.
\<close>

section \<open>Encodings of Node's buffers\<close>

text \<open>\<open>toString('base64url')\<close>: no padding.\<close>

definition b64_alphabet :: string where
  "b64_alphabet = ''ABCDEFGHIJKLMNOPQRSTUVWXYZabcdefghijklmnopqrstuvwxyz0123456789-_''"

definition sextet_char :: "nat \<Rightarrow> char" where
  "sextet_char n = b64_alphabet ! n"

text \<open>Decoding accepts the alphabets of base64 and base64url and skips every other character.\<close>

definition char_sextet :: "char \<Rightarrow> nat option" where
  "char_sextet c = (let n = of_char c :: nat in
     if 65 \<le> n \<and> n \<le> 90 then Some (n - 65)
     else if 97 \<le> n \<and> n \<le> 122 then Some (n - 71)
     else if 48 \<le> n \<and> n \<le> 57 then Some (n + 4)
     else if n = 45 \<or> n = 43 then Some 62
     else if n = 95 \<or> n = 47 then Some 63
     else None)"

fun to_sextets :: "nat list \<Rightarrow> nat list" where
  "to_sextets (a # b # c # r) = [a div 4, (a mod 4) * 16 + b div 16, (b mod 16) * 4 + c div 64, c mod 64] @ to_sextets r"
| "to_sextets [a, b] = [a div 4, (a mod 4) * 16 + b div 16, (b mod 16) * 4]"
| "to_sextets [a] = [a div 4, (a mod 4) * 16]"
| "to_sextets [] = []"

fun of_sextets :: "nat list \<Rightarrow> nat list" where
  "of_sextets (w # x # y # z # r) = [w * 4 + x div 16, (x mod 16) * 16 + y div 4, (y mod 4) * 64 + z] @ of_sextets r"
| "of_sextets [w, x, y] = [w * 4 + x div 16, (x mod 16) * 16 + y div 4]"
| "of_sextets [w, x] = [w * 4 + x div 16]"
| "of_sextets _ = []"

definition base64url :: "string \<Rightarrow> string" where
  "base64url s = map sextet_char (to_sextets (map of_char s))"

definition from_base64url :: "string \<Rightarrow> string" where
  "from_base64url s = map char_of (of_sextets (List.map_filter char_sextet s))"

text \<open>
  \<open>toString('utf8')\<close>: a sequence of bytes that is no character is replaced, the longest prefix of a
  character by one replacement. \<open>utf8_tail n lo hi\<close> reads the \<open>n\<close> continuation bytes of a character, the
  first between \<open>lo\<close> and \<open>hi\<close>.
\<close>

definition replacement :: string where
  "replacement = [CHR 0xEF, CHR 0xBF, CHR 0xBD]"

fun utf8_tail :: "nat \<Rightarrow> nat \<Rightarrow> nat \<Rightarrow> string \<Rightarrow> string option \<times> string" where
  "utf8_tail 0 lo hi s = (Some [], s)"
| "utf8_tail (Suc n) lo hi [] = (None, [])"
| "utf8_tail (Suc n) lo hi (c # s) =
     (if lo \<le> of_char c \<and> of_char c \<le> hi
      then (case utf8_tail n 128 191 s of (r, s') \<Rightarrow> (map_option ((#) c) r, s'))
      else (None, c # s))"

definition utf8_lead :: "nat \<Rightarrow> (nat \<times> nat \<times> nat) option" where
  "utf8_lead b =
     (if b < 128 then Some (0, 128, 191)
      else if 194 \<le> b \<and> b \<le> 223 then Some (1, 128, 191)
      else if b = 224 then Some (2, 160, 191)
      else if b = 237 then Some (2, 128, 159)
      else if 225 \<le> b \<and> b \<le> 239 then Some (2, 128, 191)
      else if b = 240 then Some (3, 144, 191)
      else if 241 \<le> b \<and> b \<le> 243 then Some (3, 128, 191)
      else if b = 244 then Some (3, 128, 143)
      else None)"

lemma utf8_tail_length: "length (snd (utf8_tail n lo hi s)) \<le> length s"
  by (induction n lo hi s rule: utf8_tail.induct) (auto split: prod.splits)

lemma utf8_tail_shorter: "(r, s') = utf8_tail n lo hi s \<Longrightarrow> length s' < Suc (length s)"
  using utf8_tail_length [of n lo hi s] by (metis le_imp_less_Suc snd_conv)

function utf8 :: "string \<Rightarrow> string" where
  "utf8 [] = []"
| "utf8 (c # s) =
     (case utf8_lead (of_char c) of
        None \<Rightarrow> replacement @ utf8 s
      | Some (n, lo, hi) \<Rightarrow>
          (case utf8_tail n lo hi s of
             (Some t, s') \<Rightarrow> c # t @ utf8 s'
           | (None, s') \<Rightarrow> replacement @ utf8 s'))"
  by pat_completeness auto
termination
  by (relation "measure length") (auto dest: utf8_tail_shorter)

text \<open>\<open>length\<close> of a string counts UTF-16 units: two for a character of four bytes.\<close>

definition utf16_length :: "string \<Rightarrow> nat" where
  "utf16_length s = length (filter (\<lambda>c. \<not> (128 \<le> (of_char c :: nat) \<and> (of_char c :: nat) < 192)) s) +
     length (filter (\<lambda>c. 240 \<le> (of_char c :: nat)) s)"

section \<open>Number\<close>

text \<open>\<open>Number(s)\<close> when it is finite: a decimal literal with a sign, or one with a radix prefix; an empty string is 0.\<close>

definition digits_value :: "int \<Rightarrow> (char \<Rightarrow> int) \<Rightarrow> string \<Rightarrow> int" where
  "digits_value base val ds = foldl (\<lambda>a c. a * base + val c) 0 ds"

definition hex_value :: "char \<Rightarrow> int" where
  "hex_value c = (let n = int (of_char c) in
     if 48 \<le> n \<and> n \<le> 57 then n - 48 else if 65 \<le> n \<and> n \<le> 70 then n - 55
     else if 97 \<le> n \<and> n \<le> 102 then n - 87 else 99)"

definition unsigned_literal :: "string \<Rightarrow> num option" where
  "unsigned_literal t =
     (let whole = takeWhile is_digit t; r = dropWhile is_digit t;
          dot = (case r of c # _ \<Rightarrow> c = CHR ''.'' | [] \<Rightarrow> False);
          frac = (if dot then takeWhile is_digit (tl r) else []);
          rest = (if dot then dropWhile is_digit (tl r) else r);
          m = of_int (digits_value 10 hex_value (whole @ frac)) / 10 ^ length frac
      in if whole @ frac = [] then None
         else case rest of
           [] \<Rightarrow> Some m
         | c # e \<Rightarrow>
             let signed = (case e of s # _ \<Rightarrow> s = CHR ''-'' \<or> s = CHR ''+'' | [] \<Rightarrow> False);
                 ds = (if signed then tl e else e);
                 p = 10 ^ nat (digits_value 10 hex_value ds)
             in if (c \<noteq> CHR ''e'' \<and> c \<noteq> CHR ''E'') \<or> ds = [] \<or> \<not> digits ds then None
                else Some (if hd e = CHR ''-'' then m / p else m * p))"

definition radix_literal :: "int \<Rightarrow> string \<Rightarrow> num option" where
  "radix_literal base ds =
     (if ds = [] \<or> list_ex (\<lambda>c. hex_value c \<ge> base) ds then None else Some (of_int (digits_value base hex_value ds)))"

definition numeric_literal :: "string \<Rightarrow> num option" where
  "numeric_literal t =
     (case t of
        [] \<Rightarrow> Some 0
      | c # q \<Rightarrow>
          if c = CHR ''-'' then map_option uminus (unsigned_literal q)
          else if c = CHR ''+'' then unsigned_literal q
          else (case q of
                  [] \<Rightarrow> unsigned_literal t
                | x # ds \<Rightarrow>
                    if c = CHR ''0'' \<and> x \<in> {CHR ''x'', CHR ''X''} then radix_literal 16 ds
                    else if c = CHR ''0'' \<and> x \<in> {CHR ''o'', CHR ''O''} then radix_literal 8 ds
                    else if c = CHR ''0'' \<and> x \<in> {CHR ''b'', CHR ''B''} then radix_literal 2 ds
                    else unsigned_literal t))"

definition finite_number :: "string \<Rightarrow> num option" where
  "finite_number s = Option.bind (numeric_literal (js_trim s)) (\<lambda>x. if \<bar>x\<bar> < 2 ^ 1024 then Some x else None)"

section \<open>Tokens\<close>

record unsub_config =
  uc_hmac :: "string \<Rightarrow> string"
  uc_sha :: "string \<Rightarrow> string"
  uc_ttlSeconds :: int

definition token_hashEmail :: "unsub_config \<Rightarrow> string \<Rightarrow> string" where
  "token_hashEmail c email = take 16 (uc_sha c (js_trim (to_lower email)))"

definition seconds :: "ms \<Rightarrow> int" where
  "seconds now = now div 1000"

definition token_payload :: "string \<Rightarrow> string \<Rightarrow> int \<Rightarrow> string" where
  "token_payload userId emailHash expiry = userId @ ''|'' @ emailHash @ ''|'' @ decimal expiry"

definition generate :: "unsub_config \<Rightarrow> ms \<Rightarrow> uid \<Rightarrow> string \<Rightarrow> string" where
  "generate c now userId email =
     (let payload = token_payload (decimal (int userId)) (token_hashEmail c email) (seconds now + uc_ttlSeconds c)
      in base64url (payload @ ''.'' @ uc_hmac c payload))"

datatype verify_result = VerifyOk string string | Malformed | BadSignature | TokenExpired

text \<open>\<open>timingSafeEqual\<close> throws on buffers of different lengths, which strings of one length can have.\<close>

definition verify :: "unsub_config \<Rightarrow> ms \<Rightarrow> string \<Rightarrow> verify_result" where
  "verify c now token =
     (let decoded = utf8 (from_base64url token) in
      if CHR ''.'' \<notin> set decoded then Malformed
      else
        let sig = rev (takeWhile (\<lambda>x. x \<noteq> CHR ''.'') (rev decoded));
            payload = take (length decoded - length sig - 1) decoded;
            expected = uc_hmac c payload
        in if utf16_length sig = utf16_length expected \<and> length sig \<noteq> length expected then Malformed
           else if sig \<noteq> expected then BadSignature
           else case split_on CHR ''|'' payload of
             [userId, emailHash, expiryStr] \<Rightarrow>
               if userId = [] \<or> emailHash = [] \<or> expiryStr = [] then Malformed
               else (case finite_number expiryStr of
                       None \<Rightarrow> Malformed
                     | Some expiry \<Rightarrow>
                         if expiry \<le> 0 then Malformed
                         else if of_int (seconds now) > expiry then TokenExpired
                         else VerifyOk userId emailHash)
           | _ \<Rightarrow> Malformed)"

definition matchesEmail :: "unsub_config \<Rightarrow> string \<Rightarrow> string \<Rightarrow> bool" where
  "matchesEmail c emailHash email \<longleftrightarrow> token_hashEmail c email = emailHash"

section \<open>The endpoint\<close>

datatype unsub_error = MissingToken | InvalidToken | SuppressionFailed

definition user_by_id :: "string \<Rightarrow> account list \<Rightarrow> account option" where
  "user_by_id i us = find_first (\<lambda>a. decimal (int (ac_id a)) = i) us"

text \<open>The answer, the suppression list and the audit entry; \<open>up\<close> tells whether the list can be written.\<close>

definition processUnsubscribe ::
  "unsub_config \<Rightarrow> quota_config \<Rightarrow> ms \<Rightarrow> bool \<Rightarrow> account list \<Rightarrow> string \<Rightarrow> suppression list \<Rightarrow>
   (unsub_error + unit) \<times> suppression list \<times> uid option" where
  "processUnsubscribe c qc now up us token rows =
     (case verify c now token of
        VerifyOk userId emailHash \<Rightarrow>
          (case user_by_id userId us of
             None \<Rightarrow> (Inr (), rows, None)
           | Some u \<Rightarrow>
               if ac_email u = [] then (Inr (), rows, None)
               else if \<not> matchesEmail c emailHash (ac_email u) then (Inl InvalidToken, rows, None)
               else if \<not> up then (Inl SuppressionFailed, rows, None)
               else (Inr (), suppress qc (ac_email u) BY_HAND None (Some ''user_unsubscribe'') rows, Some (ac_id u)))
      | _ \<Rightarrow> (Inl InvalidToken, rows, None))"

definition unsubscribePost ::
  "unsub_config \<Rightarrow> quota_config \<Rightarrow> ms \<Rightarrow> bool \<Rightarrow> account list \<Rightarrow> string option \<Rightarrow> string option \<Rightarrow> suppression list \<Rightarrow>
   (unsub_error + unit) \<times> suppression list \<times> uid option" where
  "unsubscribePost c qc now up us body query rows =
     (let token = js_trim (case body of Some t \<Rightarrow> t | None \<Rightarrow> (case query of Some t \<Rightarrow> t | None \<Rightarrow> [])) in
      if token = [] then (Inl MissingToken, rows, None)
      else processUnsubscribe c qc now up us token rows)"

text \<open>The landing page only looks at the token: the status of its answer.\<close>

definition unsubscribeGet :: "unsub_config \<Rightarrow> ms \<Rightarrow> string option \<Rightarrow> nat" where
  "unsubscribeGet c now query =
     (let token = js_trim (case query of Some t \<Rightarrow> t | None \<Rightarrow> []) in
      if token = [] then 400
      else case verify c now token of VerifyOk _ _ \<Rightarrow> 200 | _ \<Rightarrow> 400)"

section \<open>The provider's webhook\<close>

text \<open>\<open>data.to\<close>: absent, one value, or an array, whose entries need not be strings.\<close>

datatype recipients = NoRecipient | OneRecipient string | Recipients "string option list"

record bounce =
  bo_type :: "string option"
  bo_subType :: "string option"
  bo_message :: "string option"

record resend_event =
  re_type :: string
  re_to :: recipients
  re_bounce :: "bounce option"

definition nonblank_string :: "string \<Rightarrow> bool" where
  "nonblank_string s \<longleftrightarrow> js_trim s \<noteq> []"

fun extractRecipients :: "recipients \<Rightarrow> string list" where
  "extractRecipients NoRecipient = []"
| "extractRecipients (OneRecipient s) = (if nonblank_string s then [s] else [])"
| "extractRecipients (Recipients xs) = filter nonblank_string (List.map_filter id xs)"

text \<open>One write after the other; the first that fails (\<open>ans n\<close> of the \<open>n\<close>-th) ends the request with an error.\<close>

fun suppress_all ::
  "quota_config \<Rightarrow> answers \<Rightarrow> nat \<Rightarrow> suppress_reason \<Rightarrow> string option \<Rightarrow> string option \<Rightarrow> string list \<Rightarrow> suppression list \<Rightarrow>
   bool \<times> suppression list" where
  "suppress_all qc ans n reason bt notes [] rows = (True, rows)"
| "suppress_all qc ans n reason bt notes (email # es) rows =
     (if ans n then suppress_all qc ans (Suc n) reason bt notes es (suppress qc email reason bt notes rows)
      else (False, rows))"

definition bounce_label :: "bounce option \<Rightarrow> string" where
  "bounce_label b =
     (case Option.bind b bo_type of Some t \<Rightarrow> t | None \<Rightarrow> ''Unknown'') @ ''/'' @
     (case Option.bind b bo_subType of Some t \<Rightarrow> t | None \<Rightarrow> [])"

datatype webhook_answer = Refused | ServerError | Acknowledged

definition apply_event :: "quota_config \<Rightarrow> answers \<Rightarrow> resend_event \<Rightarrow> suppression list \<Rightarrow> bool \<times> suppression list" where
  "apply_event qc ans ev rows =
     (let es = extractRecipients (re_to ev) in
      if re_type ev = ''email.bounced'' then
        if Option.bind (re_bounce ev) bo_type = Some ''Transient'' then (True, rows)
        else suppress_all qc ans 0 BY_BOUNCE (Some (bounce_label (re_bounce ev)))
               (map_option (utf16_take 200) (Option.bind (re_bounce ev) bo_message)) es rows
      else if re_type ev = ''email.complained'' then suppress_all qc ans 0 BY_COMPLAINT None None es rows
      else (True, rows))"

text \<open>
  \<open>secret\<close> is the configured one; \<open>body\<close> is the raw body, if the request went through the raw parser;
  \<open>svix\<close> is the library's check of body and headers, which throws or yields the event.
\<close>

definition webhook_handle ::
  "quota_config \<Rightarrow> string \<Rightarrow> ('headers \<Rightarrow> string \<Rightarrow> resend_event option) \<Rightarrow> 'headers \<Rightarrow> string option \<Rightarrow> answers \<Rightarrow>
   suppression list \<Rightarrow> webhook_answer \<times> suppression list" where
  "webhook_handle qc secret svix headers body ans rows =
     (if js_trim secret = [] then (Refused, rows)
      else case body of
        None \<Rightarrow> (Refused, rows)
      | Some raw \<Rightarrow>
          (case svix headers raw of
             None \<Rightarrow> (Refused, rows)
           | Some ev \<Rightarrow>
               (case apply_event qc ans ev rows of
                  (True, rows') \<Rightarrow> (Acknowledged, rows')
                | (False, rows') \<Rightarrow> (ServerError, rows'))))"

end
