(* ===== verification/UnsubscribeProps.thy ===== *)
theory UnsubscribeProps
  imports Unsubscribe
begin

text \<open>
  Tokens survive the way through a link, a one-click request silences an address, and a redelivered
  event of the mail provider completes what an interrupted one began.
\<close>

section \<open>Encoding and decoding\<close>

named_theorems encoding \<open>facts about the encodings\<close>

definition ascii :: "string \<Rightarrow> bool" where
  "ascii s \<longleftrightarrow> (\<forall>c \<in> set s. (of_char c :: nat) < 128)"

lemma ascii_simps [simp]: "ascii []" "ascii (c # s) \<longleftrightarrow> (of_char c :: nat) < 128 \<and> ascii s" "ascii (s @ t) \<longleftrightarrow> ascii s \<and> ascii t"
  by (auto simp: ascii_def)

text \<open>A field below its radix, packed and unpacked.\<close>

lemma pack: "m < d \<Longrightarrow> (k * d + m) div d = k" "m < d \<Longrightarrow> (k * d + m) mod d = (m :: nat)"
  by simp_all

lemma field_bounds:
  assumes "b < (256 :: nat)"
  shows "b div 4 < 64" "b div 16 < 16" "b div 64 < 4" "(b mod 4) * 16 + n div 16 < 64 \<or> 256 \<le> n" "(b mod 16) * 4 + n div 64 < 64 \<or> 256 \<le> n"
proof -
  show "b div 4 < 64" "b div 16 < 16" "b div 64 < 4" using assms by (simp_all add: less_mult_imp_div_less)
  have "b mod 4 \<le> 3" "b mod 16 \<le> 15" by (simp_all add: less_Suc_eq_le [symmetric] numeral_eq_Suc [symmetric])
  moreover have "n div 16 < 16" "n div 64 < 4" if "n < 256" using that by (simp_all add: less_mult_imp_div_less)
  ultimately show "(b mod 4) * 16 + n div 16 < 64 \<or> 256 \<le> n" "(b mod 16) * 4 + n div 64 < 64 \<or> 256 \<le> n"
    by (cases "n < 256"; linarith)+
qed

lemma sextets_small: "\<forall>b \<in> set bs. b < 256 \<Longrightarrow> \<forall>x \<in> set (to_sextets bs). x < 64"
proof (induction bs rule: to_sextets.induct)
  case (1 a b c r)
  then show ?case using field_bounds(1) [of a] field_bounds(4) [of a b] field_bounds(5) [of b c] by auto
next
  case (2 a b)
  then show ?case using field_bounds(1) [of a] field_bounds(4) [of a b] field_bounds(5) [of b 0] by auto
next
  case (3 a)
  then show ?case using field_bounds(1) [of a] field_bounds(4) [of a 0] by auto
qed simp

lemma of_to_sextets: "\<forall>b \<in> set bs. b < 256 \<Longrightarrow> of_sextets (to_sextets bs) = bs"
proof (induction bs rule: to_sextets.induct)
  case (1 a b c r)
  then show ?case using field_bounds(2) [of b] field_bounds(3) [of c] by (simp add: pack)
next
  case (2 a b)
  then show ?case using field_bounds(2) [of b] by (simp add: pack)
qed simp_all

lemma alphabet_sextets: "map char_sextet b64_alphabet = map Some [0..<64]"
  by (simp add: b64_alphabet_def char_sextet_def upt_conv_Cons)

lemma char_sextet_char: "n < 64 \<Longrightarrow> char_sextet (sextet_char n) = Some n"
proof -
  assume n: "n < 64"
  have l: "length b64_alphabet = 64" by (simp add: b64_alphabet_def)
  have "map char_sextet b64_alphabet ! n = map Some [0..<64] ! n" by (simp only: alphabet_sextets)
  then show ?thesis using n l by (simp add: sextet_char_def)
qed

lemma map_filter_sextets: "\<forall>x \<in> set xs. x < 64 \<Longrightarrow> List.map_filter char_sextet (map sextet_char xs) = xs"
  by (induction xs) (simp_all add: char_sextet_char)

lemma base64url_round_trip [encoding]: "from_base64url (base64url s) = s"
proof -
  have b: "\<forall>b \<in> set (map of_char s). b < (256 :: nat)" by simp
  show ?thesis
    unfolding from_base64url_def base64url_def
    by (simp only: map_filter_sextets [OF sextets_small [OF b]] of_to_sextets [OF b]) (simp add: comp_def)
qed

lemma utf8_ascii [encoding]: "ascii s \<Longrightarrow> utf8 s = s"
  by (induction s) (simp_all add: utf8_lead_def)

section \<open>Decimal numbers\<close>

lemma hex_value_digit: "0 \<le> k \<Longrightarrow> k \<le> 9 \<Longrightarrow> hex_value (digit_char k) = k"
  by (simp add: hex_value_def Let_def of_digit_char)

lemma digits_value_decimal: "0 \<le> n \<Longrightarrow> digits_value 10 hex_value (decimal n) = n"
proof (induction n rule: decimal.induct)
  case (1 n)
  then show ?case
    by (subst decimal.simps) (auto simp: digits_value_def hex_value_digit)
qed

lemma digits_takeWhile: "digits s \<Longrightarrow> takeWhile is_digit s = s \<and> dropWhile is_digit s = []"
  by (simp add: digits_def list_all_iff)

lemma js_space_no_digit: "is_digit c \<Longrightarrow> \<not> js_space c"
  by (auto simp: is_digit_def js_space_def less_eq_char_def)

lemma dropWhile_none: "\<forall>c \<in> set s. \<not> p c \<Longrightarrow> dropWhile p s = s"
  by (cases s) simp_all

lemma no_space_trim: "\<forall>c \<in> set s. \<not> js_space c \<Longrightarrow> js_trim s = s"
  by (simp add: js_trim_def dropWhile_none)

lemma digits_trim: "digits s \<Longrightarrow> js_trim s = s"
  using js_space_no_digit by (intro no_space_trim) (auto simp: digits_def list_all_iff)

lemma decimal_inject: "0 \<le> n \<Longrightarrow> 0 \<le> m \<Longrightarrow> decimal n = decimal m \<Longrightarrow> n = m"
  by (metis digits_value_decimal)

lemma finite_number_decimal:
  assumes "0 \<le> n" and "n < 2 ^ 1024"
  shows "finite_number (decimal n) = Some (of_int n)"
proof -
  have d: "digits (decimal n)" by simp
  have u: "unsigned_literal (decimal n) = Some (of_int n)"
    using assms(1) by (simp add: unsigned_literal_def digits_takeWhile [OF d] digits_value_decimal)
  obtain c q where cq: "decimal n = c # q" using decimal_nonempty by (cases "decimal n") blast+
  have c: "is_digit c" "digits q" using d unfolding cq by simp_all
  have "c \<noteq> CHR ''-''" "c \<noteq> CHR ''+''" using c(1) by (auto simp: is_digit_def less_eq_char_def)
  moreover have "x \<notin> {CHR ''x'', CHR ''X'', CHR ''o'', CHR ''O'', CHR ''b'', CHR ''B''}" if "q = x # ds" for x ds
    using c(2) that by (auto simp: is_digit_def less_eq_char_def)
  ultimately have "numeric_literal (decimal n) = Some (of_int n)"
    using u unfolding cq by (auto simp: numeric_literal_def split: list.split)
  moreover have "\<bar>of_int n :: num\<bar> < 2 ^ 1024"
    using assms by (metis abs_of_nonneg of_int_abs of_int_less_iff of_int_numeral of_int_power)
  ultimately show ?thesis by (simp add: finite_number_def digits_trim [OF d])
qed

section \<open>Round trip\<close>

text \<open>
  What the digests are known to be: the keyed hash is rendered in base64url, SHA-256 in hexadecimal.
\<close>

definition digest_laws :: "unsub_config \<Rightarrow> bool" where
  "digest_laws c \<longleftrightarrow> (\<forall>x. set (uc_hmac c x) \<subseteq> set b64_alphabet) \<and> (\<forall>x. hex_key (uc_sha c x))"

lemma alphabet_ascii: "c \<in> set b64_alphabet \<Longrightarrow> (of_char c :: nat) < 128 \<and> c \<noteq> CHR ''.'' \<and> \<not> js_space c"
  by (auto simp: b64_alphabet_def js_space_def)

lemma hex_char_plain: "hex_char c \<Longrightarrow> (of_char c :: nat) < 128 \<and> c \<noteq> CHR ''|''"
  by (auto simp: hex_char_def less_eq_char_def)

lemma digits_plain: "digits s \<Longrightarrow> ascii s \<and> CHR ''|'' \<notin> set s"
  by (auto simp: digits_def list_all_iff is_digit_def ascii_def less_eq_char_def)

lemma hash_plain:
  assumes "digest_laws c"
  shows "ascii (token_hashEmail c email)" "CHR ''|'' \<notin> set (token_hashEmail c email)" "token_hashEmail c email \<noteq> []"
proof -
  have h: "hex_key (uc_sha c (js_trim (to_lower email)))" using assms by (simp add: digest_laws_def)
  have "hex_char x" if "x \<in> set (token_hashEmail c email)" for x
    using h set_take_subset [of 16 "uc_sha c (js_trim (to_lower email))"] that
    by (auto simp: hex_key_def token_hashEmail_def list_all_iff)
  then show "ascii (token_hashEmail c email)" "CHR ''|'' \<notin> set (token_hashEmail c email)"
    using hex_char_plain by (auto simp: ascii_def)
  show "token_hashEmail c email \<noteq> []" using h by (auto simp: token_hashEmail_def hex_key_def)
qed

lemma payload_parts:
  assumes "digest_laws c"
  shows "split_on CHR ''|'' (token_payload (decimal i) (token_hashEmail c email) e) = [decimal i, token_hashEmail c email, decimal e]"
    and "ascii (token_payload (decimal i) (token_hashEmail c email) e)"
  using hash_plain [OF assms] digits_plain [of "decimal i"] digits_plain [of "decimal e"]
  by (simp_all add: token_payload_def split_on_sep split_on_none)

lemma signed_parts:
  assumes "CHR ''.'' \<notin> set sig"
  shows "rev (takeWhile (\<lambda>x. x \<noteq> CHR ''.'') (rev (p @ ''.'' @ sig))) = sig"
proof -
  have "\<forall>x \<in> set (rev sig). x \<noteq> CHR ''.''" using assms by auto
  then have "takeWhile (\<lambda>x. x \<noteq> CHR ''.'') (rev sig @ CHR ''.'' # rev p) = rev sig"
    by (subst takeWhile_append2) simp_all
  then show ?thesis by simp
qed

text \<open>C38.
  The token of an unsubscribe link, decoded and checked, yields the user and the address hash it was
  made for, in every second up to its expiry, and is reported as expired in every later one.
\<close>

theorem token_round_trip:
  assumes "digest_laws c" and "0 < seconds t0 + uc_ttlSeconds c" and "seconds t0 + uc_ttlSeconds c < 2 ^ 1024"
  shows "verify c now (generate c t0 userId email) =
    (if seconds now \<le> seconds t0 + uc_ttlSeconds c then VerifyOk (decimal (int userId)) (token_hashEmail c email) else TokenExpired)"
proof -
  let ?e = "seconds t0 + uc_ttlSeconds c"
  let ?p = "token_payload (decimal (int userId)) (token_hashEmail c email) ?e"
  have h: "\<forall>x \<in> set (uc_hmac c ?p). (of_char x :: nat) < 128 \<and> x \<noteq> CHR ''.''"
    using assms(1) alphabet_ascii by (auto simp: digest_laws_def)
  then have "ascii (uc_hmac c ?p)" by (simp add: ascii_def)
  moreover have "ascii ?p" by (rule payload_parts(2) [OF assms(1)])
  ultimately have a: "ascii (?p @ ''.'' @ uc_hmac c ?p)" by simp
  have decoded: "utf8 (from_base64url (generate c t0 userId email)) = ?p @ ''.'' @ uc_hmac c ?p"
    unfolding generate_def Let_def base64url_round_trip by (rule utf8_ascii [OF a])
  have sig: "rev (takeWhile (\<lambda>x. x \<noteq> CHR ''.'') (rev (?p @ ''.'' @ uc_hmac c ?p))) = uc_hmac c ?p"
    by (rule signed_parts) (use h in auto)
  have payload: "take (length (?p @ ''.'' @ uc_hmac c ?p) - length (uc_hmac c ?p) - 1) (?p @ ''.'' @ uc_hmac c ?p) = ?p" by simp
  have dot: "CHR ''.'' \<in> set (?p @ ''.'' @ uc_hmac c ?p)" by simp
  have n: "finite_number (decimal ?e) = Some (of_int ?e)" using assms(2,3) by (intro finite_number_decimal) simp_all
  have pos: "\<not> (of_int ?e :: num) \<le> 0" using assms(2) by (simp only: of_int_le_0_iff)
  have late: "(of_int (seconds now) > (of_int ?e :: num)) = (seconds now > ?e)" by (simp only: of_int_less_iff)
  show ?thesis
    unfolding verify_def Let_def decoded sig payload payload_parts(1) [OF assms(1)]
    using hash_plain(3) [OF assms(1)] pos dot by (simp only: n late list.case option.case) auto
qed

text \<open>The digests of the witnesses: a constant keyed hash and a constant fingerprint.\<close>

definition un_c :: unsub_config where
  "un_c = \<lparr>uc_hmac = (\<lambda>_. ''sig''), uc_sha = (\<lambda>_. replicate 64 CHR ''a''), uc_ttlSeconds = 7776000\<rparr>"

lemma un_c_laws: "digest_laws un_c"
  by (simp add: digest_laws_def un_c_def b64_alphabet_def hex_key_def list_all_iff hex_char_def less_eq_char_def)

theorem token_round_trip_witness:
  "verify un_c 7776000000 (generate un_c 0 7 ''c@x.qa'') = VerifyOk (decimal 7) (replicate 16 CHR ''a'') \<and>
   verify un_c 7776001000 (generate un_c 0 7 ''c@x.qa'') = TokenExpired"
proof -
  have e: "seconds 0 + uc_ttlSeconds un_c = 7776000" by (simp add: seconds_def un_c_def)
  have h: "token_hashEmail un_c ''c@x.qa'' = replicate 16 CHR ''a''" by (simp add: token_hashEmail_def un_c_def)
  have "0 < seconds 0 + uc_ttlSeconds un_c" "seconds 0 + uc_ttlSeconds un_c < 2 ^ 1024" by (simp_all add: e)
  note rt = token_round_trip [OF un_c_laws this, of _ 7 "''c@x.qa''", unfolded e h]
  show ?thesis using rt [of 7776000000] rt [of 7776001000] by (simp add: seconds_def)
qed

section \<open>A list of blocked recipients\<close>

text \<open>
  What the sender relies on: an entry blocks the key of its address, and only a removal of that key
  lifts it.
\<close>

datatype ('e, 'k) list_op = Put 'e | Drop 'k

fun apply_op :: "('e \<Rightarrow> 's \<Rightarrow> 's) \<Rightarrow> ('k \<Rightarrow> 's \<Rightarrow> 's) \<Rightarrow> ('e, 'k) list_op \<Rightarrow> 's \<Rightarrow> 's" where
  "apply_op add remove (Put e) s = add e s"
| "apply_op add remove (Drop k) s = remove k s"

locale block_list =
  fixes key :: "'e \<Rightarrow> 'k"
    and member :: "'k \<Rightarrow> 's \<Rightarrow> bool"
    and add :: "'e \<Rightarrow> 's \<Rightarrow> 's"
    and remove :: "'k \<Rightarrow> 's \<Rightarrow> 's"
  assumes member_add: "member k (add e s) \<longleftrightarrow> k = key e \<or> member k s"
    and member_remove: "member k (remove k' s) \<longleftrightarrow> k \<noteq> k' \<and> member k s"
begin

lemma stays: "member k s \<Longrightarrow> Drop k \<notin> set ops \<Longrightarrow> member k (fold (apply_op add remove) ops s)"
proof (induction ops arbitrary: s)
  case (Cons op ops)
  then show ?case by (cases op) (auto simp: member_add member_remove)
qed simp

lemma comes: "member k (fold (apply_op add remove) ops s) \<Longrightarrow> member k s \<or> (\<exists>e. Put e \<in> set ops \<and> key e = k)"
proof (induction ops arbitrary: s)
  case (Cons op ops)
  then show ?case by (cases op) (force simp: member_add member_remove)+
qed simp

end

type_synonym suppression_entry = "string \<times> suppress_reason \<times> string option \<times> string option"

fun put_suppression :: "quota_config \<Rightarrow> suppression_entry \<Rightarrow> suppression list \<Rightarrow> suppression list" where
  "put_suppression qc (email, reason, bt, notes) rows = suppress qc email reason bt notes rows"

definition suppressed_hash :: "string \<Rightarrow> suppression list \<Rightarrow> bool" where
  "suppressed_hash h rows \<longleftrightarrow> list_ex (\<lambda>r. su_hash r = h) rows"

lemma suppressed_hash_put:
  "suppressed_hash h (suppress qc email reason bt notes rows) \<longleftrightarrow> h = quota_hashEmail qc email \<or> suppressed_hash h rows"
proof -
  have by_hash: "list_ex (\<lambda>r. su_hash r = h) t \<longleftrightarrow> h \<in> set (map su_hash t)" for t by (auto simp: list_ex_iff)
  have "map su_hash (update_many p (\<lambda>r. r\<lparr>su_reason := a, su_bounceType := b, su_notes := f r\<rparr>) rows) = map su_hash rows" for p a b f
    by (rule update_many_map) simp
  then have "list_ex (\<lambda>r. su_hash r = h) (update_many p (\<lambda>r. r\<lparr>su_reason := a, su_bounceType := b, su_notes := f r\<rparr>) rows)
      \<longleftrightarrow> list_ex (\<lambda>r. su_hash r = h) rows" for p a b f
    unfolding by_hash by simp
  then show ?thesis
    by (auto simp: suppressed_hash_def suppress_def Let_def)
qed

lemma suppressed_hash_drop: "suppressed_hash h (snd (unsuppress h' rows)) \<longleftrightarrow> h \<noteq> h' \<and> suppressed_hash h rows"
  by (auto simp: suppressed_hash_def unsuppress_def list_ex_iff delete_many_mem)

interpretation suppressions: block_list "\<lambda>e. quota_hashEmail qc (fst e)" suppressed_hash "put_suppression qc" "\<lambda>h rows. snd (unsuppress h rows)" for qc
proof
  fix k e s
  show "suppressed_hash k (put_suppression qc e s) \<longleftrightarrow> k = quota_hashEmail qc (fst e) \<or> suppressed_hash k s"
    by (cases e) (simp add: suppressed_hash_put)
qed (rule suppressed_hash_drop)

section \<open>Unsubscribing\<close>

lemma base64url_chars: "set (base64url s) \<subseteq> set b64_alphabet"
proof -
  have "\<forall>b \<in> set (map of_char s). b < (256 :: nat)" by simp
  then have "\<forall>x \<in> set (to_sextets (map of_char s)). x < 64" by (rule sextets_small)
  moreover have "sextet_char x \<in> set b64_alphabet" if "x < 64" for x
    unfolding sextet_char_def by (rule nth_mem) (use that in \<open>simp add: b64_alphabet_def\<close>)
  ultimately show ?thesis by (auto simp: base64url_def)
qed

lemma token_trim: "js_trim (generate c t0 i email) = generate c t0 i email"
  using base64url_chars alphabet_ascii by (intro no_space_trim) (auto simp: generate_def Let_def)

lemma base64url_nonempty: "s \<noteq> [] \<Longrightarrow> base64url s \<noteq> []"
  by (cases "map of_char s :: nat list" rule: to_sextets.cases) (simp_all add: base64url_def)

lemma token_nonempty: "generate c t0 i email \<noteq> []"
  unfolding generate_def Let_def by (rule base64url_nonempty) simp

lemma user_by_id_decimal: "user_by_id (decimal (int i)) us = find_first (\<lambda>a. ac_id a = i) us"
proof -
  have "(\<lambda>a. decimal (int (ac_id a)) = decimal (int i)) = (\<lambda>a. ac_id a = i)"
    by (intro ext) (metis decimal_inject of_nat_0_le_iff of_nat_eq_iff)
  then show ?thesis unfolding user_by_id_def by (rule arg_cong)
qed

lemma send_suppressed:
  "suppressed_hash (quota_hashEmail qc dest) rows \<Longrightarrow> \<not> snd (fst (send qc ans True rows enabled accepted False dest s))"
  by (simp add: send_def isSuppressed_def suppressed_hash_def)

text \<open>C37.
  A request with an unexpired token from a link of the address its user still has is answered with
  success exactly when the database takes the entry (\<open>up\<close>), and from then on, whatever else happens to
  the suppression list, a mail that is not an alert to admins reaches the provider for any spelling of
  that address only when the lookup of the list fails at that moment (\<open>db_up\<close>), until an admin removes
  the entry. The lookup fails open: when it is not answered, the mail is sent as to an address that is
  not on the list.
\<close>

theorem unsubscribed_gets_no_mail:
  assumes "digest_laws c" and "0 < seconds t0 + uc_ttlSeconds c" and "seconds t0 + uc_ttlSeconds c < 2 ^ 1024"
    and "seconds now \<le> seconds t0 + uc_ttlSeconds c"
    and "find_first (\<lambda>a. ac_id a = i) us = Some u" and "ac_email u \<noteq> []"
    and "js_trim (to_lower (ac_email u)) = js_trim (to_lower email)"
    and "body = Some (generate c t0 i email) \<or> body = None \<and> query = Some (generate c t0 i email)"
    and "Drop (quota_hashEmail qc (ac_email u)) \<notin> set ops"
    and "quota_hashEmail qc dest = quota_hashEmail qc (ac_email u)"
  shows "fst (unsubscribePost c qc now up us body query rows) = (if up then Inr () else Inl SuppressionFailed) \<and>
    (up \<and> snd (fst (send qc ans db_up
        (fold (apply_op (put_suppression qc) (\<lambda>h rows. snd (unsuppress h rows))) ops
          (fst (snd (unsubscribePost c qc now up us body query rows))))
        enabled accepted False dest s)) \<longrightarrow> \<not> db_up) \<and>
    send qc ans False rows2 enabled accepted False dest s = send qc ans True [] enabled accepted False dest s"
proof -
  let ?tok = "generate c t0 i email"
  have ok: "verify c now ?tok = VerifyOk (decimal (int i)) (token_hashEmail c email)"
    using token_round_trip [OF assms(1-3)] assms(4) by simp
  have "token_hashEmail c (ac_email u) = token_hashEmail c email" using assms(7) by (simp add: token_hashEmail_def)
  then have p: "processUnsubscribe c qc now up us ?tok rows =
      (if up then (Inr (), suppress qc (ac_email u) BY_HAND None (Some ''user_unsubscribe'') rows, Some (ac_id u))
       else (Inl SuppressionFailed, rows, None))"
    using ok assms(5,6) by (simp add: processUnsubscribe_def user_by_id_decimal matchesEmail_def)
  have "unsubscribePost c qc now up us body query rows = processUnsubscribe c qc now up us ?tok rows"
    using assms(8) token_nonempty by (auto simp: unsubscribePost_def token_trim)
  then have post: "unsubscribePost c qc now up us body query rows =
      (if up then (Inr (), suppress qc (ac_email u) BY_HAND None (Some ''user_unsubscribe'') rows, Some (ac_id u))
       else (Inl SuppressionFailed, rows, None))"
    using p by simp
  have "suppressed_hash (quota_hashEmail qc (ac_email u))
      (suppress qc (ac_email u) BY_HAND None (Some ''user_unsubscribe'') rows)"
    by (simp add: suppressed_hash_put)
  from suppressions.stays [OF this assms(9)]
  have "\<not> snd (fst (send qc ans True
      (fold (apply_op (put_suppression qc) (\<lambda>h rows. snd (unsuppress h rows))) ops
        (suppress qc (ac_email u) BY_HAND None (Some ''user_unsubscribe'') rows)) enabled accepted False dest s))"
    by (intro send_suppressed) (simp add: assms(10))
  then show ?thesis unfolding post by (cases up; cases db_up) (simp_all add: send_def isSuppressed_def)
qed

definition un_q :: quota_config where
  "un_q = \<lparr>qc_override = (\<lambda>_. None), qc_perIp = 20, qc_platform = 0, qc_sha = (\<lambda>x. x)\<rparr>"

definition un_user :: account where
  "un_user = \<lparr>ac_id = 7, ac_email = ''c@x.qa'', ac_role = IS_CUSTOMER, ac_password = None, ac_failed = 0,
     ac_lockedUntil = None, ac_emailVerified = True, ac_deactivated = False, ac_deletedAt = None, ac_resetToken = None,
     ac_resetExpiry = None, ac_verifyToken = None, ac_verifyExpiry = None, ac_phone = None, ac_googleId = None,
     ac_terms = None\<rparr>"

text \<open>A complaint about another address follows; the address, spelt in capitals, gets nothing.\<close>

theorem unsubscribed_gets_no_mail_witness:
  "\<exists>tok. fst (unsubscribePost un_c un_q 5000 True [un_user] None (Some tok) []) = Inr () \<and>
     snd (fst (send un_q (\<lambda>_. True) True [] True True False ''C@X.QA'' \<lparr>rd_now = 0, rd_kv = (\<lambda>_. None)\<rparr>)) \<and>
     \<not> snd (fst (send un_q (\<lambda>_. True) True
        (suppress un_q ''d@x.qa'' BY_COMPLAINT None None (fst (snd (unsubscribePost un_c un_q 5000 True [un_user] None (Some tok) []))))
        True True False ''C@X.QA'' \<lparr>rd_now = 0, rd_kv = (\<lambda>_. None)\<rparr>))"
proof -
  let ?tok = "generate un_c 0 7 ''c@x.qa''" and ?s = "\<lparr>rd_now = 0, rd_kv = (\<lambda>_. None)\<rparr>"
  have e: "seconds 0 + uc_ttlSeconds un_c = 7776000" by (simp add: seconds_def un_c_def)
  have "0 < seconds 0 + uc_ttlSeconds un_c" "seconds 0 + uc_ttlSeconds un_c < 2 ^ 1024"
    "seconds 5000 \<le> seconds 0 + uc_ttlSeconds un_c" unfolding e by (simp_all add: seconds_def)
  moreover have "find_first (\<lambda>a. ac_id a = 7) [un_user] = Some un_user" "ac_email un_user = ''c@x.qa''"
    by (simp_all add: un_user_def)
  moreover have "quota_hashEmail un_q ''C@X.QA'' = quota_hashEmail un_q ''c@x.qa''" by code_simp
  moreover have "snd (fst (send un_q (\<lambda>_. True) True [] True True False ''C@X.QA'' ?s))"
    by (simp add: send_def isSuppressed_def tryConsumePlatformDaily_def un_q_def)
  ultimately show ?thesis
    using unsubscribed_gets_no_mail [OF un_c_laws, of 0 5000 7 "[un_user]" un_user "''c@x.qa''" None "Some ?tok" un_q
        "[Put (''d@x.qa'', BY_COMPLAINT, None, None)]" "''C@X.QA''" True "[]" "\<lambda>_. True" True True True ?s]
    by (intro exI [of _ ?tok]) simp
qed

section \<open>The webhook\<close>

text \<open>What an event writes into the row of an address.\<close>

definition event_row :: "suppress_reason \<Rightarrow> string option \<Rightarrow> string option \<Rightarrow> suppression \<Rightarrow> suppression" where
  "event_row reason bt notes r =
     r\<lparr>su_reason := reason, su_bounceType := bt, su_notes := (if notes = None then su_notes r else notes)\<rparr>"

definition event_applied :: "suppress_reason \<Rightarrow> string option \<Rightarrow> string option \<Rightarrow> string \<Rightarrow> suppression list \<Rightarrow> bool" where
  "event_applied reason bt notes h rows \<longleftrightarrow> suppressed_hash h rows \<and>
     (\<forall>r \<in> set rows. su_hash r = h \<longrightarrow> event_row reason bt notes r = r)"

lemma event_row_simps [simp]:
  "su_hash (event_row reason bt notes r) = su_hash r"
  "event_row reason bt notes (event_row reason bt notes r) = event_row reason bt notes r"
  by (simp_all add: event_row_def)

lemma suppress_eq: "suppress qc email reason bt notes rows =
    (if suppressed_hash (quota_hashEmail qc email) rows
     then update_many (\<lambda>r. su_hash r = quota_hashEmail qc email) (event_row reason bt notes) rows
     else rows @ [event_row reason bt notes \<lparr>su_hash = quota_hashEmail qc email, su_reason = reason, su_bounceType = bt, su_notes = notes\<rparr>])"
proof -
  have "event_row reason bt notes =
      (\<lambda>r. r\<lparr>su_reason := reason, su_bounceType := bt, su_notes := (if notes = None then su_notes r else notes)\<rparr>)"
    by (simp add: event_row_def fun_eq_iff)
  then show ?thesis by (simp add: suppress_def Let_def suppressed_hash_def)
qed

lemma event_applied_skips: "event_applied reason bt notes (quota_hashEmail qc email) rows \<Longrightarrow> suppress qc email reason bt notes rows = rows"
  by (auto simp: suppress_eq event_applied_def update_many_def intro: map_idI)

lemma event_applied_suppress:
  "event_applied reason bt notes h rows \<or> h = quota_hashEmail qc email \<Longrightarrow> event_applied reason bt notes h (suppress qc email reason bt notes rows)"
  unfolding event_applied_def suppressed_hash_put
  by (auto simp: suppress_eq update_many_mem suppressed_hash_def list_ex_iff split: if_splits)

text \<open>Deliveries: an interrupted one wrote a prefix, an undisturbed one everything.\<close>

lemma suppress_all_prefix:
  "suppress_all qc ans n reason bt notes es rows = (ok, rows') \<Longrightarrow>
   \<exists>xs rest. es = xs @ rest \<and> rows' = fold (\<lambda>e. suppress qc e reason bt notes) xs rows \<and> (ok \<longrightarrow> rest = [])"
proof (induction es arbitrary: n rows)
  case (Cons e es)
  show ?case
  proof (cases "ans n")
    case True
    then have "suppress_all qc ans (Suc n) reason bt notes es (suppress qc e reason bt notes rows) = (ok, rows')"
      using Cons.prems by simp
    from Cons.IH [OF this] obtain xs ys where "es = xs @ ys"
      "rows' = fold (\<lambda>e. suppress qc e reason bt notes) xs (suppress qc e reason bt notes rows)" "ok \<longrightarrow> ys = []"
      by blast
    then show ?thesis by (intro exI [of _ "e # xs"] exI [of _ ys]) simp
  next
    case False
    then show ?thesis using Cons.prems by (intro exI [of _ "[]"] exI [of _ "e # es"]) simp
  qed
qed simp

lemma suppress_all_up:
  "suppress_all qc (\<lambda>_. True) n reason bt notes es rows = (True, fold (\<lambda>e. suppress qc e reason bt notes) es rows)"
  by (induction es arbitrary: n rows) simp_all

lemma fold_event_applied:
  "event_applied reason bt notes h rows \<or> h \<in> quota_hashEmail qc ` set es \<Longrightarrow>
   event_applied reason bt notes h (fold (\<lambda>e. suppress qc e reason bt notes) es rows)"
  by (induction es arbitrary: rows) (auto intro: event_applied_suppress)

lemma fold_skips:
  "\<forall>e \<in> set es. event_applied reason bt notes (quota_hashEmail qc e) rows \<Longrightarrow> fold (\<lambda>e. suppress qc e reason bt notes) es rows = rows"
  by (induction es) (simp_all add: event_applied_skips)

lemma redelivered_writes:
  assumes "suppress_all qc ans n reason bt notes es rows = (ok, rows1)"
  shows "suppress_all qc (\<lambda>_. True) m reason bt notes es rows1 = suppress_all qc (\<lambda>_. True) m reason bt notes es rows"
proof -
  obtain xs ys where es: "es = xs @ ys" "rows1 = fold (\<lambda>e. suppress qc e reason bt notes) xs rows"
    using suppress_all_prefix [OF assms] by blast
  have "fold (\<lambda>e. suppress qc e reason bt notes) xs rows1 = rows1"
    by (rule fold_skips) (auto simp: es(2) intro: fold_event_applied)
  then show ?thesis by (simp add: suppress_all_up es)
qed

text \<open>C39.
  An event of the mail provider is applied completely in the end: when writing it failed half-way and
  the request was answered with an error, the redelivery leaves exactly the suppression list that one
  undisturbed delivery would have left.
\<close>

theorem redelivered_event_completes:
  assumes "webhook_handle qc secret svix headers body ans rows = (ServerError, rows1)"
    and "Option.bind body (svix headers') = Option.bind body (svix headers)"
  shows "webhook_handle qc secret svix headers' body (\<lambda>_. True) rows1 =
      (Acknowledged, snd (webhook_handle qc secret svix headers body (\<lambda>_. True) rows))"
proof -
  obtain raw ev where ev: "js_trim secret \<noteq> []" "body = Some raw" "svix headers raw = Some ev" "apply_event qc ans ev rows = (False, rows1)"
    using assms(1) by (auto simp: webhook_handle_def split: if_splits option.splits prod.splits bool.splits)
  then have same: "svix headers' raw = Some ev" using assms(2) by simp
  have up: "\<exists>rows'. apply_event qc (\<lambda>_. True) ev rows = (True, rows')" by (simp add: apply_event_def Let_def suppress_all_up)
  have "apply_event qc (\<lambda>_. True) ev rows1 = apply_event qc (\<lambda>_. True) ev rows"
    using ev(4) redelivered_writes by (auto simp: apply_event_def Let_def split: if_splits)
  then show ?thesis using up ev same by (auto simp: webhook_handle_def)
qed

text \<open>Two hard bounces of which the second could not be written, delivered again.\<close>

theorem redelivered_event_completes_witness:
  "\<exists>rows1. webhook_handle un_q ''whsec'' (\<lambda>h _. Some \<lparr>re_type = ''email.bounced'', re_to = Recipients [Some ''a'', Some ''b''],
        re_bounce = None\<rparr>) ''h1'' (Some ''{}'') (\<lambda>n. n = 0) [] = (ServerError, rows1) \<and>
     webhook_handle un_q ''whsec'' (\<lambda>h _. Some \<lparr>re_type = ''email.bounced'', re_to = Recipients [Some ''a'', Some ''b''],
        re_bounce = None\<rparr>) ''h2'' (Some ''{}'') (\<lambda>_. True) rows1 =
      (Acknowledged, [\<lparr>su_hash = ''a'', su_reason = BY_BOUNCE, su_bounceType = Some ''Unknown/'', su_notes = None\<rparr>,
                      \<lparr>su_hash = ''b'', su_reason = BY_BOUNCE, su_bounceType = Some ''Unknown/'', su_notes = None\<rparr>])"
proof -
  let ?svix = "\<lambda>(h :: string) (_ :: string). Some \<lparr>re_type = ''email.bounced'', re_to = Recipients [Some ''a'', Some ''b''], re_bounce = None\<rparr>"
  let ?row = "\<lambda>h. \<lparr>su_hash = h, su_reason = BY_BOUNCE, su_bounceType = Some ''Unknown/'', su_notes = None\<rparr>"
  have 1: "webhook_handle un_q ''whsec'' ?svix ''h1'' (Some ''{}'') (\<lambda>n. n = 0) [] = (ServerError, [?row ''a''])" by code_simp
  have 2: "webhook_handle un_q ''whsec'' ?svix ''h1'' (Some ''{}'') (\<lambda>_. True) [] = (Acknowledged, [?row ''a'', ?row ''b''])" by code_simp
  show ?thesis using redelivered_event_completes [OF 1, of "''h2''"] 1 2 by simp
qed

end
