(* ===== verification/Spec2Isabelle.thy ===== *)
theory Spec2Isabelle
  imports ServiceTheorems PaymentTheorems PayoutTheorems CleanupTheorems OutboxProps BlockTheorems SpecialProps
    AvailabilityTheorems StatusTheorems SessionTheorems QuotaTheorems AccountTheorems Reconciliation Interactions UnsubscribeProps
begin

text \<open>
  A model of the core of Al Jadwal, a marketplace for bookable activities (\<open>src/apps/api\<close>, NestJS and
  Prisma over PostgreSQL and Redis). A customer books seats or units of an activity for an hour or for
  nights, pays through the PAY2M gateway, may cancel, and the vendor is paid out later. The property
  names (C1, C2, ...) are the entries of the manifest.

  \<^bold>\<open>How the program is represented.\<close> A table is a list of rows (records of \<open>Model\<close>, fields as the columns of
  \<open>schema.prisma\<close>); \<open>world\<close> is the database together with the effects a handler has asked for
  (audit rows, notices, mails, cache invalidations) in order. A service method is a function of the same
  name that takes an environment (the clock and the fresh ids of this call, the configuration, what the
  network answers) and the world, and returns an exception or a result together with the next world.
  A transaction is \<open>transaction body\<close>: an exception discards its writes. Where the cancellation, the refund decision,
  a callback, the hand-off to the gateway, a payout operation, a change by staff, a block, a special
  price, a like, a review, a scheduled job, a refresh, the issue of tokens, a password change or the
  deletion of the own account reads rows and writes them later without a transaction, the model takes an
  \<open>interference\<close> (or \<open>race\<close>), an arbitrary function that stands for what other writers commit in between;
  \<open>id\<close> is the undisturbed run. The other requests run in one step, though the source awaits between
  their statements: the checks of \<open>createBooking\<close> before its transaction, the login (lock check, password
  comparison and count of the failure), registration, verification, the Google sign-in, the booking's
  e-mail code, the token of an unsubscribe link, the webhook. Of these nothing is shown about requests
  that overlap; \<open>issueTokens\<close> is the one whose statements are interleaved in every order (\<open>IssueOverlap\<close>).
  Serialisation failures are a flag of the environment. Identifiers are natural numbers, instants integers in milliseconds,
  \<open>Decimal(10,2)\<close> columns rationals with two decimals (\<open>two_dp\<close>) rounded where the code rounds
  (\<open>cents\<close>). Floating-point error of \<open>Number\<close> arithmetic is not modelled: sums of cents are exact.

  \<^bold>\<open>Theories.\<close>
  \<^item> \<open>Prelude\<close>, \<open>JsDate\<close>: tables, results, rounding; ECMAScript dates, date strings and wall-clock times.
  \<^item> \<open>Model\<close>: tables, effects, exceptions, transactions.
  \<^item> \<open>Capacity\<close>: \<open>computeSlots\<close>, \<open>maxConcurrentInWindow\<close> and the unit rules of \<open>bookings.service.ts\<close>.
  \<^item> \<open>Loyalty\<close>, \<open>Coupons\<close>, \<open>Locks\<close>: \<open>loyalty.service.ts\<close>, the coupon code of \<open>bookings.service.ts\<close>,
    \<open>redis-lock.service.ts\<close>.
  \<^item> \<open>Pricing\<close>, \<open>CreateBooking\<close>, \<open>CreateProps\<close>: the price stages and the whole of \<open>createBooking\<close>.
  \<^item> \<open>CancelBooking\<close>, \<open>CancelProps\<close>: \<open>cancelBooking\<close> and \<open>recordRefundDecision\<close>.
  \<^item> \<open>BookingOtp\<close>, \<open>Breaker\<close>, \<open>UnitBackfill\<close>: the booking's e-mail code, \<open>circuit-breaker.ts\<close>,
    \<open>assign-missing-units.ts\<close>.
  \<^item> \<open>Gateway\<close>, \<open>Initiate\<close>, \<open>Callback\<close>, \<open>CallbackProps\<close>: \<open>payment.service.ts\<close> and \<open>payment.controller.ts\<close>:
    signatures, the token request, the hand-off, callbacks and the recovery of lost bookings.
  \<^item> \<open>Payouts\<close>, \<open>PayoutProps\<close>: payout requests of \<open>vendor.service.ts\<close> and \<open>admin.service.ts\<close>.
  \<^item> \<open>Cleanup\<close>, \<open>CleanupProps\<close>, \<open>CleanupTheorems\<close>: the scheduled jobs of \<open>cleanup.service.ts\<close>.
  \<^item> \<open>Outbox\<close>, \<open>OutboxProps\<close>: \<open>outbox-drain.service.ts\<close> as a queue with a budget of attempts.
  \<^item> \<open>Blocks\<close>, \<open>BlockProps\<close>, \<open>BlockTheorems\<close> and \<open>SpecialPrices\<close>, \<open>SpecialProps\<close>: \<open>activity-blocks.logic.ts\<close>,
    \<open>activity-special-prices.logic.ts\<close> and their handlers.
  \<^item> \<open>Availability\<close>, \<open>AvailabilityCache\<close>, \<open>AvailabilityProps\<close>, \<open>AvailabilityTheorems\<close>: the public views of
    \<open>bookings.service.ts\<close> and \<open>availability-cache.service.ts\<close>.
  \<^item> \<open>StatusChange\<close>, \<open>Cascade\<close>, \<open>StatusProps\<close>, \<open>CascadeProps\<close>, \<open>StatusTheorems\<close>: status changes by staff
    and the cancellation of the bookings of an activity that leaves the catalogue.
  \<^item> \<open>Sessions\<close>, \<open>Accounts\<close>, \<open>Registration\<close>: tokens and their denylist, login and passwords, how accounts
    begin and end (\<open>auth.service.ts\<close>, \<open>auth.controller.ts\<close>, \<open>jwt.strategy.ts\<close>,
    \<open>session-denylist.service.ts\<close>). \<open>SessionProps\<close> reduces every handler to four changes of the token table,
    \<open>SessionInvariants\<close>, \<open>LoginProps\<close> and \<open>AccountProps\<close> hold the invariants, \<open>IssueOverlap\<close> lets calls of
    \<open>issueTokens\<close> overlap, \<open>SessionTheorems\<close> and
    \<open>AccountTheorems\<close> the properties.
  \<^item> \<open>Quota\<close>, \<open>QuotaProps\<close>, \<open>QuotaTheorems\<close>: \<open>email-quota.service.ts\<close>, \<open>email-suppression.service.ts\<close>,
    \<open>EmailService.send\<close> and \<open>redis-throttler.storage.ts\<close>. \<open>Unsubscribe\<close>, \<open>UnsubscribeProps\<close>: the tokens of
    unsubscribe links and their endpoint, and the webhook of the mail provider.
  \<^item> \<open>Reconciliation\<close>: \<open>reconciliation.service.ts\<close>. \<open>Interactions\<close>: likes and reviews
    (\<open>customer-interaction.controller.ts\<close>), the vendor's replies and the moderation.
  \<^item> \<open>Scenario\<close>: one installation and the runs the witnesses use.
  \<^item> \<open>ServiceTheorems\<close>, \<open>PaymentTheorems\<close>, \<open>PayoutTheorems\<close> and this theory: the other properties.

  Bookings and payments live in \<open>world\<close>, accounts and sessions in \<open>auth\<close> (with its own clock, for histories in
  which time passes), the counters in \<open>kvstore\<close>; the components meet through the tables of vendors and
  through the mails of the outbox.

  \<^bold>\<open>Interfaces.\<close> What clients rely on is stated as a locale and interpreted on the definitions of the code:
  \<open>peak_measure\<close> (\<open>Capacity\<close>), \<open>token_lock\<close> (\<open>Locks\<close>), \<open>points_account\<close> (\<open>Loyalty\<close>), \<open>retry_queue\<close>
  (\<open>OutboxProps\<close>), and \<open>allowance\<close> (\<open>Allowance\<close>: what grants a limited number of requests), which the lock of an
  account, the e-mail quotas, their cooldown, the platform's limit and the throttler provide, and
  \<open>block_list\<close> (\<open>UnsubscribeProps\<close>: who gets no mail), which the suppression list provides.

  \<^bold>\<open>Loops.\<close> Recursion is structural, over a measure, or over a number that the code bounds: the token
  request has its three attempts, the slot enumeration its \<open>MAX_HOURLY_SLOTS\<close>, a range of special prices
  its \<open>BULK_SPECIAL_PRICE_MAX_DATES\<close>; no function of the model needs fuel.

  \<^bold>\<open>What is shown.\<close> Bookings never exceed seats, units or shared seats, also with bookings that have no unit
  yet; prices, points and fees add up; cancelling undoes creating; a refund is decided once. A
  callback confirms only what the gateway signed or a trusted address reported, captured money ends as
  a confirmed booking or a queued refund, a payout settles a capture once and only after the activity.
  The views offer exactly what can be booked; the jobs spare settled bookings and settle every mail.
  A review is earned by a booking and single. An unsubscribed address gets no mail until an admin
  lifts it, as long as the lookup of the list answers, and a redelivered bounce completes what an interrupted one began.
  Ended sessions and deleted accounts stay dead over every later sequence of requests, a refresh token
  is exchanged once, sessions, guesses, e-mails, requests and the attempts at a gateway token are bounded. Some theorems show where the
  code falls short: a refresh in flight survives a password reset, overlapping logins exceed the maximum
  of sessions, a taken phone number reveals who
  has an account, a lost \<open>EXPIRE\<close> blocks an address for good, a capped mail counts as sent,
  the drift of the reconciliation is fees less points.

  \<^bold>\<open>Not modelled.\<close> Parameters: the zone database, SHA-256, bcrypt and the keyed hashes of codes and links, svix, the signature
  of access tokens, \<open>fetch\<close> and \<open>JSON.parse\<close>, the settings, random values, the mail provider. Left out:
  request validation by decorators, the texts of mails, notices and log lines, read-only listings and
  exports, the registration of vendors, the deletion of users and vendors by an admin, the listings of
  the catalogue, file uploads and the web application.
\<close>

section \<open>Creating a booking\<close>

text \<open>C1. An activity sold by seats is never oversold: when the active bookings of the activity stay
  within its capacity at every instant, they still do after \<open>createBooking\<close> accepted one more.\<close>

theorem createBooking_never_oversells_seats:
  assumes "createBooking env u dto r w = (Inr (Created b rem), r', w')"
    and "find_first (\<lambda>a. a_id a = d_activityId dto) (activities (w_db w)) = Some a"
    and "\<not> a_hasUnits a" "a_capacity a = Some c"
    and "scan_complete env (w_db w) (d_activityId dto) (b_start b) (b_end b)"
    and "\<And>t. active_load (w_db w) (e_now env) (d_activityId dto) t \<le> c"
  shows "active_load (w_db w') (e_now env) (d_activityId dto) t \<le> c"
proof -
  from createBooking_tx [OF assms(1,2)] obtain v co b0 cap d where
    "create_tx env u dto a v co (b_start b) (b_end b) (w_db w) = Inr ((b0, cap), d)"
    and same: "same_but_otp env b0 d b (w_db w')" by metis
  then have "active_load d (e_now env) (d_activityId dto) t \<le> c"
    using create_tx_seats assms(3-6) by blast
  then show ?thesis by (simp add: active_load_same [OF same])
qed

lemma sc_find_hourly: "find_first (\<lambda>a. a_id a = d_activityId sc_dto) (activities (w_db sc_world)) = Some sc_hourly"
  by code_simp

lemma sc_no_bookings: "active_rows (w_db sc_world) now aid = []"
  by (simp add: active_rows_def sc_world_def sc_db_def)

theorem createBooking_never_oversells_seats_witness:
  "active_load (w_db sc_world_booked) (e_now sc_env) (d_activityId sc_dto) sc_start \<le> 4"
  by (rule createBooking_never_oversells_seats [OF sc_create sc_find_hourly])
    (simp_all add: sc_hourly_def scan_complete_def sc_no_bookings active_load_def)

text \<open>C2. An activity rented by whole units never has two active bookings in one unit at one time.\<close>

theorem createBooking_units_exclusive:
  assumes "createBooking env u dto r w = (Inr (Created b rem), r', w')"
    and "find_first (\<lambda>a. a_id a = d_activityId dto) (activities (w_db w)) = Some a"
    and "rentsWholeUnit a" "0 < a_unitCount a"
    and "scan_complete env (w_db w) (d_activityId dto) (b_start b) (b_end b)"
    and "units_exclusive (w_db w) (e_now env) (d_activityId dto)"
  shows "units_exclusive (w_db w') (e_now env) (d_activityId dto)"
proof -
  from createBooking_tx [OF assms(1,2)] obtain v co b0 cap d where
    "create_tx env u dto a v co (b_start b) (b_end b) (w_db w) = Inr ((b0, cap), d)"
    and same: "same_but_otp env b0 d b (w_db w')" by metis
  then have "units_exclusive d (e_now env) (d_activityId dto)"
    using create_tx_exclusive assms(3-6) by blast
  then show ?thesis by (simp add: units_exclusive_same [OF same])
qed

lemma stay_find: "find_first (\<lambda>a. a_id a = d_activityId sc_stay) (activities (w_db sc_world)) = Some sc_daily"
  by code_simp

theorem createBooking_units_exclusive_witness:
  "units_exclusive (w_db stay_world) (e_now sc_env) (d_activityId sc_stay)"
  by (rule createBooking_units_exclusive [OF stay_create stay_find])
    (simp_all add: sc_daily_def sc_hourly_def rentsWholeUnit_def scan_complete_def sc_no_bookings units_exclusive_def)

text \<open>C8. Bookings whose unit is not known yet keep a unit in reserve: after a booking is accepted, the
  units taken in its window and the unassigned bookings there still fit into the units there are.\<close>

theorem createBooking_reserves_for_unassigned:
  assumes "createBooking env u dto r w = (Inr (Created b rem), r', w')"
    and "find_first (\<lambda>a. a_id a = d_activityId dto) (activities (w_db w)) = Some a"
    and "rentsWholeUnit a" "0 < a_unitCount a"
    and "scan_complete env (w_db w) (d_activityId dto) (b_start b) (b_end b)"
  shows "card (taken_units (w_db w') (e_now env) (d_activityId dto) (b_start b) (b_end b) \<inter> {1..a_unitCount a})
    + orphan_count (w_db w') (e_now env) (d_activityId dto) (b_start b) (b_end b) \<le> a_unitCount a"
proof -
  from createBooking_tx [OF assms(1,2)] obtain v co b0 cap d where
    "create_tx env u dto a v co (b_start b) (b_end b) (w_db w) = Inr ((b0, cap), d)"
    and same: "same_but_otp env b0 d b (w_db w')" by metis
  from create_tx_units_suffice [OF this(1) assms(3-5)] show ?thesis
    by (simp add: taken_units_same [OF same] orphan_count_same [OF same])
qed

theorem createBooking_reserves_for_unassigned_witness:
  "card (taken_units (w_db stay_world) (e_now sc_env) (d_activityId sc_stay) (b_start stay_booking) (b_end stay_booking)
      \<inter> {1..a_unitCount sc_daily})
    + orphan_count (w_db stay_world) (e_now sc_env) (d_activityId sc_stay) (b_start stay_booking) (b_end stay_booking)
    \<le> a_unitCount sc_daily"
  by (rule createBooking_reserves_for_unassigned [OF stay_create stay_find])
    (simp_all add: sc_daily_def sc_hourly_def rentsWholeUnit_def scan_complete_def sc_no_bookings)

text \<open>C9. Where units are shared by the seat, no unit is ever overfilled, even if every booking without
  a unit were to sit in it.\<close>

theorem createBooking_shared_unit_seats:
  assumes "createBooking env u dto r w = (Inr (Created b rem), r', w')"
    and "find_first (\<lambda>a. a_id a = d_activityId dto) (activities (w_db w)) = Some a"
    and "a_hasUnits a" "0 < a_unitCount a" "\<not> rentsWholeUnit a"
    and "scan_complete env (w_db w) (d_activityId dto) (b_start b) (b_end b)"
    and "\<And>n t. unit_load (w_db w) (e_now env) (d_activityId dto) n t \<le> a_unitCapacity a"
  shows "unit_load (w_db w') (e_now env) (d_activityId dto) n t \<le> a_unitCapacity a"
proof -
  from createBooking_tx [OF assms(1,2)] obtain v co b0 cap d where
    "create_tx env u dto a v co (b_start b) (b_end b) (w_db w) = Inr ((b0, cap), d)"
    and same: "same_but_otp env b0 d b (w_db w')" by metis
  from create_tx_unit_seats [OF this(1) assms(3-7)] show ?thesis
    by (simp add: unit_load_same [OF same])
qed

lemma seat_find: "find_first (\<lambda>a. a_id a = d_activityId sc_seat) (activities (w_db sc_world)) = Some sc_shared"
  by code_simp

theorem createBooking_shared_unit_seats_witness:
  "unit_load (w_db seat_world) (e_now sc_env) (d_activityId sc_seat) 1 seat_start \<le> a_unitCapacity sc_shared"
  by (rule createBooking_shared_unit_seats [OF seat_create seat_find])
    (simp_all add: sc_shared_def sc_hourly_def rentsWholeUnit_def scan_complete_def sc_no_bookings unit_load_def)

text \<open>C5. Nobody is over- or undercharged: the amount of the new payment and the points discount add up
  to the price and the fee of the booking, the customer's balance loses exactly the points the booking
  records, and the booking is confirmed at once exactly when nothing is left to pay.\<close>

theorem createBooking_charges_exactly:
  assumes "createBooking env u dto r w = (Inr (Created b rem), r', w')"
    and "points_ok (w_db w)" "coupons_ok (w_db w)" "prices_ok (w_db w)"
    and "find_first (\<lambda>a. a_id a = d_activityId dto) (activities (w_db w)) = Some a"
    and "0 \<le> or_default 0 (a_duration a)" "1 \<le> d_guests dto"
  shows "points_ok (w_db w') \<and>
    balance_of (w_db w') = debited (balance_of (w_db w)) u (b_pointsRedeemed b) \<and>
    (\<exists>p. payments (w_db w') = payments (w_db w) @ [p] \<and> b_paymentId b = Some (p_id p) \<and>
       p_amount p + b_pointsDiscount b = b_totalPrice b + b_serviceFee b \<and> 0 \<le> p_amount p \<and>
       b_status b = (if p_amount p = 0 then CONFIRMED else PENDING) \<and>
       p_status p = (if p_amount p = 0 then SUCCESS else PAY_PENDING))"
proof -
  from createBooking_tx [OF assms(1,5)] obtain v co b0 cap d today where
    tx: "create_tx env u dto a v co (b_start b) (b_end b) (w_db w) = Inr ((b0, cap), d)"
    and same: "same_but_otp env b0 d b (w_db w')"
    and vr: "validate_request env (w_db w) dto = Inr (a, v, co, today)" by metis
  have "0 \<le> total_price_cents (w_db w) dto a (b_start b) (b_end b)"
    using assms(4-7) validate_request_Inr [OF vr]
    by (auto simp: total_price_cents_def prices_ok_def list_all_iff intro!: daily_total_nonneg hourly_total_nonneg
        dest: find_first_Some)
  then show ?thesis
    using create_tx_charge [OF tx assms(2,3) _ assms(7)] same assms(4) validate_request_Inr [OF vr]
      points_ok_same [of "w_db w'" d]
    by (auto simp: same_but_otp_def prices_ok_def list_all_iff)
qed

theorem createBooking_charges_exactly_witness:
  "points_ok (w_db sc_world_booked) \<and>
    balance_of (w_db sc_world_booked) = debited (balance_of (w_db sc_world)) 7 (b_pointsRedeemed sc_booking) \<and>
    (\<exists>p. payments (w_db sc_world_booked) = payments (w_db sc_world) @ [p] \<and> b_paymentId sc_booking = Some (p_id p) \<and>
       p_amount p + b_pointsDiscount sc_booking = b_totalPrice sc_booking + b_serviceFee sc_booking \<and> 0 \<le> p_amount p \<and>
       b_status sc_booking = (if p_amount p = 0 then CONFIRMED else PENDING) \<and>
       p_status p = (if p_amount p = 0 then SUCCESS else PAY_PENDING))"
  by (rule createBooking_charges_exactly [OF sc_create _ _ _ sc_find_hourly])
    (simp_all add: sc_fresh sc_points_ok sc_coupons_ok sc_prices_ok sc_hourly_def or_default_def sc_dto_def)

text \<open>C11. A request that is sent again with its idempotency key is answered with the booking it made the
  first time, whatever the state of the lock server and the clock, and books nothing more.\<close>

theorem createBooking_idempotent:
  assumes "createBooking env u dto r w = (Inr (Created b rem), r', w')"
    and "d_idempotencyKey dto = Some k"
  shows "createBooking env' u dto r'' w' = (Inr (Existing b), r'', w')"
proof (rule createBooking_replay)
  from createBooking_Created [OF assms(1)] obtain a v co s e b0 cap d where
    fresh: "replayed (w_db w) u dto = None"
    and tx: "create_tx env u dto a v co s e (w_db w) = Inr ((b0, cap), d)"
    and same: "same_but_otp env b0 d b (w_db w')" by metis
  have ids: "b_id x \<noteq> b_id b0" if "x \<in> set (bookings (w_db w))" for x
    using create_tx_new_id [OF tx] that by blast
  have "bookings (w_db w') = bookings (w_db w) @ [b]"
    using same_but_otp_rows [OF same] create_tx_bookings [OF tx] ids by blast
  moreover have "b_customerId b = u" "b_idempotencyKey b = Some k"
    using same create_tx_key [OF tx] create_tx_bookings [OF tx] assms(2) by (auto simp: same_but_otp_def)
  ultimately show "replayed (w_db w') u dto = Some b"
    using fresh assms(2) by (simp add: replayed_def find_first_append)
qed

theorem createBooking_idempotent_witness:
  "createBooking sc_env 7 sc_dto sc_redis sc_world_booked = (Inr (Existing sc_booking), sc_redis, sc_world_booked)"
  by (rule createBooking_idempotent [OF sc_create, of "''k1''"]) (simp add: sc_dto_def)





end
